(* ===== verification/Kim_Prelude.thy ===== *)
theory Kim_Prelude
  imports Main "HOL-Library.Word" "HOL-Library.AList" "HOL-Library.Monad_Syntax"
begin

text \<open>
  Shared notions of the development: the C++ integer conversions the server relies on, the
  memory primitives \<open>memcpy\<close> and \<open>malloc\<close> over byte lists, the association lists that stand for
  \<open>std::unordered_map\<close>, the sorted association lists that stand for \<open>std::map\<close>, the constants of
  \<open>src/core/server.h\<close> and the status enumerations several components exchange.
\<close>

named_theorems kim_defs "definitions unfolded to execute an operation of the model"
named_theorems kim_inv "an operation keeps the invariant of its component"

section \<open>Integers of the C++ program\<close>

text \<open>
  \<open>c_int\<close> is the conversion to \<open>int\<close> (32-bit two's complement), \<open>c_uint\<close> the one to
  \<open>uint32_t\<close>. Lengths of objects in memory (\<open>size_t\<close>) are natural numbers.
\<close>

definition c_int :: "int \<Rightarrow> int" where
  "c_int x = (x + 2 ^ 31) mod 2 ^ 32 - 2 ^ 31"

definition c_uint :: "int \<Rightarrow> nat" where
  "c_uint x = nat (x mod 2 ^ 32)"

definition c_ulong :: "int \<Rightarrow> nat" where
  "c_ulong x = nat (x mod 2 ^ 64)"

lemma c_int_id [simp]: "- (2 ^ 31) \<le> x \<Longrightarrow> x < 2 ^ 31 \<Longrightarrow> c_int x = x"
  by (simp add: c_int_def)

lemma c_int_range: "- (2 ^ 31) \<le> c_int x \<and> c_int x < 2 ^ 31"
proof -
  have "0 \<le> (x + 2 ^ 31) mod 2 ^ 32" and "(x + 2 ^ 31) mod 2 ^ 32 < 2 ^ 32"
    by simp_all
  then show ?thesis by (simp add: c_int_def)
qed

lemma c_int_le: "- (2 ^ 31) \<le> x \<Longrightarrow> c_int x \<le> x"
proof -
  assume "- (2 ^ 31) \<le> x"
  then have "(x + 2 ^ 31) mod 2 ^ 32 \<le> x + 2 ^ 31" by (intro zmod_le_nonneg_dividend) simp
  then show ?thesis by (simp add: c_int_def)
qed

lemma nat_c_int_le: "nat (c_int (int k)) \<le> k"
  using c_int_le [of "int k"] by simp

lemma c_uint_less [simp]: "c_uint x < 2 ^ 32"
  unfolding c_uint_def by (simp add: nat_less_iff)

lemma c_uint_id [simp]: "n < 2 ^ 32 \<Longrightarrow> c_uint (int n) = n"
  by (simp add: c_uint_def)

lemma c_ulong_id [simp]: "n < 2 ^ 64 \<Longrightarrow> c_ulong (int n) = n"
  by (simp add: c_ulong_def)

section \<open>Bytes in memory\<close>

definition subl :: "'a list \<Rightarrow> nat \<Rightarrow> nat \<Rightarrow> 'a list" where
  "subl xs i n = take n (drop i xs)"

definition memcpy :: "'a list \<Rightarrow> nat \<Rightarrow> 'a list \<Rightarrow> 'a list" where
  "memcpy dst off src = take off dst @ src @ drop (off + length src) dst"

text \<open>
  The allocator is the environment's: for a size it answers \<open>None\<close> (a null pointer) or a block
  whose bytes are arbitrary.
\<close>

type_synonym allocator = "nat \<Rightarrow> (nat \<Rightarrow> char) option"

definition malloc :: "allocator \<Rightarrow> nat \<Rightarrow> char list option" where
  "malloc al n = map_option (\<lambda>f. map f [0..<n]) (al n)"

definition alloc_ok :: "allocator \<Rightarrow> bool" where
  "alloc_ok al \<longleftrightarrow> (\<forall>n. al n \<noteq> None)"

definition zero_alloc :: allocator where
  "zero_alloc n = Some (\<lambda>_. CHR 0x00)"

lemma alloc_ok_zero [simp]: "alloc_ok zero_alloc"
  by (simp add: alloc_ok_def zero_alloc_def)

lemma malloc_length: "malloc al n = Some blk \<Longrightarrow> length blk = n"
  by (auto simp: malloc_def)

lemma malloc_ok: "alloc_ok al \<Longrightarrow> (malloc al n = None) = False"
  by (simp add: malloc_def alloc_ok_def)

lemma length_subl [simp]: "length (subl xs i n) = min n (length xs - i)"
  by (simp add: subl_def min.commute)

lemma subl_0 [simp]: "subl xs i 0 = []"
  by (simp add: subl_def)

lemma subl_Nil [simp]: "subl [] i n = []"
  by (simp add: subl_def)

lemma length_memcpy [simp]:
  "off + length src \<le> length dst \<Longrightarrow> length (memcpy dst off src) = length dst"
  by (simp add: memcpy_def)

lemma subl_memcpy_same:
  "off + length src \<le> length dst \<Longrightarrow> subl (memcpy dst off src) off (length src) = src"
  by (simp add: subl_def memcpy_def)

lemma subl_memcpy_before:
  assumes "i + n \<le> off" and "off \<le> length dst"
  shows "subl (memcpy dst off src) i n = subl dst i n"
proof -
  have "drop i (memcpy dst off src) = drop i (take off dst) @ src @ drop (off + length src) dst"
    using assms by (simp add: memcpy_def)
  moreover have "length (drop i (take off dst)) = off - i" using assms by simp
  moreover have "take n (drop i (take off dst)) = take n (drop i dst)"
    using assms(1) by (simp add: drop_take min_def)
  ultimately show ?thesis using assms(1) by (simp add: subl_def)
qed

lemma subl_append_subl:
  "subl xs i m @ subl xs (i + m) n = subl xs i (m + n)"
  by (simp add: subl_def take_add add.commute)

lemma subl_split: "m \<le> n \<Longrightarrow> subl xs i n = subl xs i m @ subl xs (i + m) (n - m)"
  by (metis add_diff_inverse_nat not_le subl_append_subl)

section \<open>Unordered maps and ordered maps\<close>

text \<open>
  A \<open>std::unordered_map\<close> is an association list with distinct keys: \<open>map_of\<close> is \<open>find\<close>,
  \<open>AList.update\<close> is \<open>operator[]=\<close>, \<open>AList.delete\<close> is \<open>erase\<close>, and the list's order is the
  iteration order, which the C++ standard leaves open.
\<close>

abbreviation uset :: "('k \<times> 'v) list \<Rightarrow> 'k \<Rightarrow> 'v \<Rightarrow> ('k \<times> 'v) list" where
  "uset m k v \<equiv> AList.update k v m"

abbreviation uerase :: "('k \<times> 'v) list \<Rightarrow> 'k \<Rightarrow> ('k \<times> 'v) list" where
  "uerase m k \<equiv> AList.delete k m"

abbreviation ukeys :: "('k \<times> 'v) list \<Rightarrow> 'k list" where
  "ukeys m \<equiv> map fst m"

lemma uset_find [simp]: "map_of (uset m k v) = (map_of m)(k \<mapsto> v)"
  by (rule update_conv')

lemma uerase_find [simp]: "map_of (uerase m k) = (map_of m)(k := None)"
  by (rule delete_conv')

lemma uset_distinct [simp]: "distinct (ukeys m) \<Longrightarrow> distinct (ukeys (uset m k v))"
  by (rule distinct_update)

lemma uerase_distinct [simp]: "distinct (ukeys m) \<Longrightarrow> distinct (ukeys (uerase m k))"
  by (rule distinct_delete)

text \<open>
  Objects that several tables point to live in a heap of the component, an association list from
  addresses. The allocator of the model takes an address above every live one.
\<close>

definition fresh_addr :: "(nat \<times> 'v) list \<Rightarrow> nat" where
  "fresh_addr h = Suc (Max (insert 0 (fst ` set h)))"

lemma fresh_addr_free: "map_of h (fresh_addr h) = None"
proof -
  have "fresh_addr h \<notin> fst ` set h"
    unfolding fresh_addr_def
    by (metis Max_ge Suc_n_not_le_n finite_imageI finite_insert finite_set insertCI)
  then show ?thesis by (simp add: map_of_eq_None_iff)
qed

text \<open>
  A \<open>std::map\<close> with integer keys is an association list in strictly increasing key order.
  \<open>omap_insert\<close> is \<open>insert\<close>, which leaves an existing entry alone and tells whether it
  inserted; \<open>omap_lower_bound\<close> is the first entry whose key is at least the given one.
\<close>

fun omap_insert :: "nat \<Rightarrow> 'v \<Rightarrow> (nat \<times> 'v) list \<Rightarrow> bool \<times> (nat \<times> 'v) list" where
  "omap_insert k v [] = (True, [(k, v)])"
| "omap_insert k v ((j, u) # m) =
     (if k < j then (True, (k, v) # (j, u) # m)
      else if k = j then (False, (j, u) # m)
      else (let (b, m') = omap_insert k v m in (b, (j, u) # m')))"

fun omap_erase :: "nat \<Rightarrow> (nat \<times> 'v) list \<Rightarrow> (nat \<times> 'v) list" where
  "omap_erase k [] = []"
| "omap_erase k ((j, u) # m) = (if j = k then m else (j, u) # omap_erase k m)"

fun omap_lower_bound :: "nat \<Rightarrow> (nat \<times> 'v) list \<Rightarrow> (nat \<times> 'v) option" where
  "omap_lower_bound k [] = None"
| "omap_lower_bound k ((j, u) # m) = (if k \<le> j then Some (j, u) else omap_lower_bound k m)"

abbreviation omap_ok :: "(nat \<times> 'v) list \<Rightarrow> bool" where
  "omap_ok m \<equiv> sorted_wrt (<) (map fst m)"

lemma omap_insert_set:
  "set (snd (omap_insert k v m)) =
     (if fst (omap_insert k v m) then insert (k, v) (set m) else set m)"
proof (induction m)
  case Nil
  then show ?case by simp
next
  case (Cons p m)
  obtain j u where p: "p = (j, u)" by (cases p)
  show ?case using Cons p
    by (cases "fst (omap_insert k v m)") (simp_all add: case_prod_beta Let_def insert_commute)
qed

lemma omap_insert_subset: "set (snd (omap_insert k v m)) \<subseteq> insert (k, v) (set m)"
  by (auto simp: omap_insert_set split: if_splits)

lemma omap_insert_flag:
  "omap_ok m \<Longrightarrow> fst (omap_insert k v m) \<longleftrightarrow> k \<notin> fst ` set m"
proof (induction m)
  case Nil
  then show ?case by simp
next
  case (Cons p m)
  obtain j u where p: "p = (j, u)" by (cases p)
  have lt: "\<And>i. i \<in> fst ` set m \<Longrightarrow> j < i" using Cons.prems p by auto
  have "k \<le> j \<Longrightarrow> k \<notin> fst ` set m" using lt by (meson leD)
  then show ?case using Cons p by (simp add: case_prod_beta Let_def)
qed

lemma omap_insert_ok:
  "omap_ok m \<Longrightarrow> omap_ok (snd (omap_insert k v m))"
proof (induction m)
  case Nil
  then show ?case by simp
next
  case (Cons p m)
  obtain j u where p: "p = (j, u)" by (cases p)
  have lt: "\<forall>x \<in> set m. j < fst x" using Cons.prems p by simp
  then have lt': "j < k \<Longrightarrow> \<forall>x \<in> set (snd (omap_insert k v m)). j < fst x"
    using omap_insert_subset [of k v m] by auto
  show ?case
    using Cons lt lt' p by (auto simp: case_prod_beta Let_def)
qed

lemma omap_erase_set:
  "omap_ok m \<Longrightarrow> set (omap_erase k m) = {p \<in> set m. fst p \<noteq> k}"
  by (induction m) (fastforce split: if_splits)+

lemma omap_erase_subset: "set (omap_erase k m) \<subseteq> set m"
  by (induction k m rule: omap_erase.induct) auto

lemma omap_erase_ok: "omap_ok m \<Longrightarrow> omap_ok (omap_erase k m)"
proof (induction m)
  case Nil
  then show ?case by simp
next
  case (Cons p m)
  then show ?case
    using omap_erase_subset [of k m] by (cases p) (auto dest: subsetD)
qed

lemma omap_lower_bound_Some:
  "omap_ok m \<Longrightarrow> omap_lower_bound k m = Some (j, u) \<longleftrightarrow>
     (j, u) \<in> set m \<and> k \<le> j \<and> (\<forall>(i, w) \<in> set m. k \<le> i \<longrightarrow> j \<le> i)"
proof (induction m)
  case Nil
  then show ?case by simp
next
  case (Cons p m)
  obtain i w where p: "p = (i, w)" by (cases p)
  have lt: "\<forall>q \<in> set m. i < fst q" using Cons.prems p by auto
  have dis: "\<And>v. (i, v) \<notin> set m" using lt by fastforce
  have ih: "omap_lower_bound k m = Some (j, u) \<longleftrightarrow>
     (j, u) \<in> set m \<and> k \<le> j \<and> (\<forall>(i, w) \<in> set m. k \<le> i \<longrightarrow> j \<le> i)"
    using Cons p by simp
  show ?case
  proof (cases "k \<le> i")
    case True
    then show ?thesis using p lt dis by (fastforce dest: leD)
  next
    case False
    then show ?thesis using p ih by auto
  qed
qed

lemma omap_lower_bound_None:
  "omap_lower_bound k m = None \<longleftrightarrow> (\<forall>(i, w) \<in> set m. i < k)"
  by (induction k m rule: omap_lower_bound.induct) (auto simp: not_le)

lemma omap_lower_bound_in: "omap_lower_bound k m = Some p \<Longrightarrow> p \<in> set m"
  by (induction k m rule: omap_lower_bound.induct) (auto split: if_splits)

section \<open>Constants and enumerations\<close>

text \<open>\<open>src/core/server.h\<close>.\<close>

definition CMD_MAX_TIMEOUT_CNT :: int where "CMD_MAX_TIMEOUT_CNT = 3"
definition SESSION_MAX_TIMEOUT_CNT :: int where "SESSION_MAX_TIMEOUT_CNT = 3"
definition MAX_ACCEPTS_PER_CALL :: nat where "MAX_ACCEPTS_PER_CALL = 1000"

text \<open>POSIX error numbers the code compares with (Linux values).\<close>

definition EAGAIN :: int where "EAGAIN = 11"

text \<open>\<open>Codec::TYPE\<close>, \<open>Codec::STATUS\<close> (\<open>src/core/codec/codec.h\<close>) and \<open>Cmd::STATUS\<close> (\<open>src/core/cmd.h\<close>).\<close>

datatype codec_type = CT_UNKNOWN | CT_PROTOBUF | CT_HTTP | CT_PRIVATE

datatype codec_status = CS_OK | CS_ERR | CS_PAUSE | CS_CLOSED

datatype cmd_status = ST_UNKOWN | ST_OK | ST_RUNNING | ST_COMPLETED | ST_ERROR

end
