(* ===== verification/Socket_Buffer.thy ===== *)
theory Socket_Buffer
  imports Kim_Prelude
begin

text \<open>
  \<open>class SocketBuffer\<close> of \<open>src/core/util/socket_buffer.h\<close> and \<open>socket_buffer.cpp\<close>: the growable byte
  buffer every connection reads into and writes from. The record holds the allocated block and
  the three indices of the class; the operations are the class's, with the allocator, the
  answer of \<open>send\<close> and the answer of \<open>readv\<close> as arguments. \<open>contents\<close> is the abstraction (the
  readable bytes), \<open>sb_inv\<close> the picture in the header's comment, and the locale \<open>byte_stream\<close> is
  the contract the codecs rely on.
\<close>

section \<open>State and indices\<close>

record socket_buffer =
  m_buffer :: "char list"
  m_buffer_len :: nat
  m_write_idx :: nat
  m_read_idx :: nat

definition new_buffer :: socket_buffer where
  "new_buffer = \<lparr>m_buffer = [], m_buffer_len = 0, m_write_idx = 0, m_read_idx = 0\<rparr>"

definition BUFFER_MAX_READ :: nat where "BUFFER_MAX_READ = 8192"
definition DEFAULT_BUFFER_SIZE :: nat where "DEFAULT_BUFFER_SIZE = 32"

definition is_readable :: "socket_buffer \<Rightarrow> bool" where
  "is_readable b \<longleftrightarrow> m_write_idx b > m_read_idx b"

definition is_writeable :: "socket_buffer \<Rightarrow> bool" where
  "is_writeable b \<longleftrightarrow> m_buffer_len b > m_write_idx b"

definition readable_len :: "socket_buffer \<Rightarrow> nat" where
  "readable_len b = (if is_readable b then m_write_idx b - m_read_idx b else 0)"

definition writeable_len :: "socket_buffer \<Rightarrow> nat" where
  "writeable_len b = (if is_writeable b then m_buffer_len b - m_write_idx b else 0)"

abbreviation capacity :: "socket_buffer \<Rightarrow> nat" where
  "capacity \<equiv> m_buffer_len"

text \<open>\<open>advance_read_index\<close> takes an \<open>int\<close>, which is converted to \<open>size_t\<close> for the sum: a negative step moves
  the index backwards, and below zero it wraps around.\<close>

definition advance_read_index :: "int \<Rightarrow> socket_buffer \<Rightarrow> socket_buffer" where
  "advance_read_index step b =
     b\<lparr>m_read_idx := (let i = int (m_read_idx b) + step in if i < 0 then c_ulong i else nat i)\<rparr>"

definition set_write_index :: "nat \<Rightarrow> socket_buffer \<Rightarrow> socket_buffer" where
  "set_write_index idx b = b\<lparr>m_write_idx := idx\<rparr>"

definition raw_read_buffer :: "socket_buffer \<Rightarrow> nat \<Rightarrow> char list" where
  "raw_read_buffer b n = subl (m_buffer b) (m_read_idx b) n"

section \<open>Growing and shrinking\<close>

text \<open>
  \<open>compact\<close> keeps lengths in \<open>uint32_t\<close> variables, so they are taken modulo \<open>2^32\<close>. It returns
  the number of bytes given back, and does nothing when the writable part is smaller than the
  argument.
\<close>

definition compact :: "allocator \<Rightarrow> nat \<Rightarrow> socket_buffer \<Rightarrow> nat \<times> socket_buffer" where
  "compact al sz b =
     (if writeable_len b < sz then (0, b)
      else
        let total = c_uint (int (capacity b));
            readable_bytes = c_uint (int (readable_len b))
        in case (if readable_bytes > 0
                 then map_option (\<lambda>blk. memcpy blk 0 (subl (m_buffer b) (m_read_idx b) readable_bytes))
                        (malloc al readable_bytes)
                 else Some []) of
             None \<Rightarrow> (0, b)
           | Some nbuf \<Rightarrow>
               (c_uint (int total - int readable_bytes),
                \<lparr>m_buffer = nbuf, m_buffer_len = readable_bytes,
                 m_write_idx = readable_bytes, m_read_idx = 0\<rparr>))"

text \<open>The loop \<open>while (cap < min_cap) cap <<= 1\<close>; the caller has replaced a zero \<open>cap\<close> by 32.\<close>

function grow_cap :: "nat \<Rightarrow> nat \<Rightarrow> nat" where
  "grow_cap cap min_cap = (if cap < min_cap \<and> 0 < cap then grow_cap (2 * cap) min_cap else cap)"
  by pat_completeness auto
termination
  by (relation "measure (\<lambda>(cap, min_cap). min_cap - cap)") auto

declare grow_cap.simps [simp del]

definition ensure_writeable :: "allocator \<Rightarrow> nat \<Rightarrow> socket_buffer \<Rightarrow> bool \<times> socket_buffer" where
  "ensure_writeable al min_len b =
     (if writeable_len b \<ge> min_len then (True, b)
      else
        let cap = capacity b;
            b = (if cap > BUFFER_MAX_READ then snd (compact al min_len b) else b);
            cap = (if cap = 0 then DEFAULT_BUFFER_SIZE else cap);
            min_cap = m_write_idx b + min_len;
            cap = grow_cap cap min_cap
        in case malloc al cap of
             None \<Rightarrow> (False, b)
           | Some tmp \<Rightarrow>
               (True,
                \<lparr>m_buffer = memcpy tmp 0 (subl (m_buffer b) (m_read_idx b) (readable_len b)),
                 m_buffer_len = cap, m_write_idx = readable_len b, m_read_idx = 0\<rparr>))"

definition limit :: "socket_buffer \<Rightarrow> socket_buffer" where
  "limit b = b\<lparr>m_buffer_len := m_write_idx b\<rparr>"

definition clear :: "socket_buffer \<Rightarrow> socket_buffer" where
  "clear b = b\<lparr>m_write_idx := 0, m_read_idx := 0\<rparr>"

section \<open>Reading and writing\<close>

text \<open>\<open>_read(void*, size_t)\<close>: the number of bytes read (or -1), the bytes, the buffer.\<close>

definition sb_read :: "nat \<Rightarrow> socket_buffer \<Rightarrow> int \<times> char list \<times> socket_buffer" where
  "sb_read len b =
     (if len > readable_len b then (-1, [], b)
      else (c_int (int len), subl (m_buffer b) (m_read_idx b) len,
            b\<lparr>m_read_idx := m_read_idx b + len\<rparr>))"

text \<open>\<open>_write(const void*, size_t)\<close>.\<close>

definition sb_write :: "allocator \<Rightarrow> char list \<Rightarrow> socket_buffer \<Rightarrow> int \<times> socket_buffer" where
  "sb_write al data b =
     (case ensure_writeable al (length data) b of
        (False, b) \<Rightarrow> (-1, b)
      | (True, b) \<Rightarrow>
          (c_int (int (length data)),
           b\<lparr>m_buffer := memcpy (m_buffer b) (m_write_idx b) data,
             m_write_idx := m_write_idx b + length data\<rparr>))"

text \<open>\<open>_write(SocketBuffer*, size_t)\<close>: moves bytes from \<open>unit\<close>; both buffers are returned.\<close>

definition sb_write_unit ::
  "allocator \<Rightarrow> socket_buffer \<Rightarrow> nat \<Rightarrow> socket_buffer \<Rightarrow> int \<times> socket_buffer \<times> socket_buffer" where
  "sb_write_unit al unit len b =
     (let len = (if len > readable_len unit then readable_len unit else len);
          (ret, b) = sb_write al (subl (m_buffer unit) (m_read_idx unit) len) b
      in (ret, (if ret > 0 then unit\<lparr>m_read_idx := m_read_idx unit + nat ret\<rparr> else unit), b))"

definition write_byte :: "allocator \<Rightarrow> char \<Rightarrow> socket_buffer \<Rightarrow> int \<times> socket_buffer" where
  "write_byte al ch b = sb_write al [ch] b"

definition set_bytes :: "char list \<Rightarrow> nat \<Rightarrow> socket_buffer \<Rightarrow> int \<times> socket_buffer" where
  "set_bytes data index b =
     (if index + length data > m_write_idx b then (-1, b)
      else (c_int (int (length data)), b\<lparr>m_buffer := memcpy (m_buffer b) index data\<rparr>))"

definition copy_out :: "nat \<Rightarrow> socket_buffer \<Rightarrow> int \<times> char list" where
  "copy_out len b =
     (if len = 0 then (0, [])
      else
        let len = (if len > readable_len b then readable_len b else len)
        in (c_int (int len), subl (m_buffer b) (m_read_idx b) len))"

text \<open>The \<open>size_t\<close> of \<open>skip_bytes\<close> is narrowed to the \<open>int\<close> of \<open>advance_read_index\<close>.\<close>

definition skip_bytes :: "nat \<Rightarrow> socket_buffer \<Rightarrow> socket_buffer" where
  "skip_bytes len b = advance_read_index (c_int (int len)) b"

definition DiscardReadedBytes :: "socket_buffer \<Rightarrow> socket_buffer" where
  "DiscardReadedBytes b =
     (if m_read_idx b > 0 then
        if is_readable b then
          let tmp = readable_len b
          in b\<lparr>m_buffer := memcpy (m_buffer b) 0 (subl (m_buffer b) (m_read_idx b) tmp),
               m_read_idx := 0, m_write_idx := tmp\<rparr>
        else b\<lparr>m_read_idx := 0, m_write_idx := 0\<rparr>
      else b)"

definition ToString :: "socket_buffer \<Rightarrow> char list" where
  "ToString b = subl (m_buffer b) (m_read_idx b) (readable_len b)"

text \<open>
  \<open>_vprintf\<close>: \<open>s\<close> is the text the format produces. \<open>vsnprintf\<close> stores at most \<open>space - 1\<close>
  characters and a NUL and returns the full length; when the text did not fit, the loop grows
  the buffer and formats again, and \<open>result\<close> has counted the text once for each attempt. The
  fuel bounds the number of attempts (two are enough: \<open>vprintf_two_attempts\<close>).
\<close>

definition vsnprintf_to :: "nat \<Rightarrow> char list \<Rightarrow> socket_buffer \<Rightarrow> socket_buffer" where
  "vsnprintf_to space s b =
     (if space = 0 then b
      else b\<lparr>m_buffer := memcpy (m_buffer b) (m_write_idx b) (take (space - 1) s @ [CHR 0x00])\<rparr>)"

fun vprintf_loop :: "nat \<Rightarrow> allocator \<Rightarrow> char list \<Rightarrow> int \<Rightarrow> socket_buffer \<Rightarrow> (int \<times> socket_buffer) option" where
  "vprintf_loop 0 al s result b = None"
| "vprintf_loop (Suc fuel) al s result b =
     (let space = writeable_len b;
          b = vsnprintf_to space s b;
          sz = length s;
          result = result + int sz
      in if sz < space then Some (result, b\<lparr>m_write_idx := m_write_idx b + sz\<rparr>)
         else case ensure_writeable al (2 * sz) b of
                (False, b) \<Rightarrow> Some (result, b)
              | (True, b) \<Rightarrow> vprintf_loop fuel al s result b)"

definition sb_printf :: "allocator \<Rightarrow> char list \<Rightarrow> socket_buffer \<Rightarrow> (int \<times> socket_buffer) option" where
  "sb_printf al s b =
     (case ensure_writeable al 64 b of
        (False, b) \<Rightarrow> Some (0, b)
      | (True, b) \<Rightarrow> vprintf_loop 2 al s 0 b)"

section \<open>The socket\<close>

text \<open>
  \<open>send\<close> takes a prefix of what it is given or fails with an error number: \<open>Sent n\<close> is a kernel
  that has room for \<open>n\<close> bytes. \<open>readv\<close> fills the two areas it is given from the bytes that are
  waiting: \<open>Recv bs\<close>.
\<close>

datatype send_res = Sent nat | SendErr int
datatype recv_res = Recv "char list" | RecvErr int

text \<open>
  \<open>write_fd\<close>: the return value, \<open>err\<close>, the bytes that went out, the buffer. \<open>write_fd\<close> and
  \<open>read_fd\<close> keep lengths in \<open>int\<close> variables; the model is for buffers below 2 GB, where that
  conversion is the identity. The same holds of \<open>_vprintf\<close>, whose \<open>sz << 1\<close> is an \<open>int\<close>: its model is
  for texts below 1 GB.
\<close>

definition write_fd :: "send_res \<Rightarrow> int \<Rightarrow> socket_buffer \<Rightarrow> int \<times> int \<times> char list \<times> socket_buffer" where
  "write_fd r err b =
     (let readable = readable_len b
      in if readable = 0 then (0, err, [], b)
         else case r of
                SendErr e \<Rightarrow> (-1, e, [], b)
              | Sent k \<Rightarrow>
                  let n = min k readable
                  in (int n, err, subl (m_buffer b) (m_read_idx b) n,
                      b\<lparr>m_read_idx := m_read_idx b + n\<rparr>))"

definition EXTRABUF :: nat where "EXTRABUF = 32768"

text \<open>The room \<open>readv\<close> is given: one area or two.\<close>

definition iov_room :: "socket_buffer \<Rightarrow> nat" where
  "iov_room b = (let writable = writeable_len b in if writable > EXTRABUF then writable else writable + EXTRABUF)"

definition read_fd :: "allocator \<Rightarrow> recv_res \<Rightarrow> int \<Rightarrow> socket_buffer \<Rightarrow> int \<times> int \<times> socket_buffer" where
  "read_fd al r err b =
     (let writable = writeable_len b;
          total = iov_room b
      in case r of
           RecvErr e \<Rightarrow> (-1, e, b)
         | Recv bs \<Rightarrow>
             let data = take total bs; n = length data
             in if n \<le> writable then
                  (int n, err,
                   b\<lparr>m_buffer := memcpy (m_buffer b) (m_write_idx b) data,
                     m_write_idx := m_write_idx b + n\<rparr>)
                else
                  let b = b\<lparr>m_buffer := memcpy (m_buffer b) (m_write_idx b) (take writable data),
                            m_write_idx := m_buffer_len b\<rparr>
                  in (int n, err, snd (sb_write al (drop writable data) b)))"

section \<open>The invariant and the abstraction\<close>

text \<open>\<open>m_read_idx <= m_write_idx <= m_buffer_len\<close>, and the block has \<open>m_buffer_len\<close> bytes.\<close>

definition sb_inv :: "socket_buffer \<Rightarrow> bool" where
  "sb_inv b \<longleftrightarrow> m_read_idx b \<le> m_write_idx b \<and> m_write_idx b \<le> m_buffer_len b
     \<and> m_buffer_len b \<le> length (m_buffer b)"

lemmas sb_len_defs = readable_len_def writeable_len_def is_readable_def is_writeable_def

lemma sb_inv_new [simp]: "sb_inv new_buffer"
  by (simp add: sb_inv_def new_buffer_def)

lemma ToString_new [simp]: "ToString new_buffer = []"
  by (simp add: ToString_def new_buffer_def)

lemma length_ToString [simp]: "sb_inv b \<Longrightarrow> length (ToString b) = readable_len b"
  by (auto simp: ToString_def sb_inv_def sb_len_defs)

lemma readable_len_inv: "sb_inv b \<Longrightarrow> readable_len b = m_write_idx b - m_read_idx b"
  by (auto simp: sb_inv_def sb_len_defs)

lemma writeable_len_inv: "sb_inv b \<Longrightarrow> writeable_len b = m_buffer_len b - m_write_idx b"
  by (auto simp: sb_inv_def sb_len_defs)

lemma ToString_inv: "sb_inv b \<Longrightarrow> ToString b = subl (m_buffer b) (m_read_idx b) (m_write_idx b - m_read_idx b)"
  by (simp add: ToString_def readable_len_inv)

lemma raw_read_ToString: "sb_inv b \<Longrightarrow> n \<le> readable_len b \<Longrightarrow> raw_read_buffer b n = take n (ToString b)"
  by (simp add: raw_read_buffer_def ToString_def subl_def)

lemma grow_cap_bounds:
  "0 < cap \<Longrightarrow> min_cap \<le> grow_cap cap min_cap \<and> cap \<le> grow_cap cap min_cap"
proof (induction cap min_cap rule: grow_cap.induct)
  case (1 cap min_cap)
  then show ?case by (subst (1 2) grow_cap.simps) auto
qed

lemma compact_refused: "writeable_len b < n \<Longrightarrow> compact al n b = (0, b)"
  by (simp add: compact_def)

lemma compact_keeps:
  assumes inv: "sb_inv b" and small: "readable_len b < 2 ^ 32"
  shows "sb_inv (snd (compact al n b)) \<and> ToString (snd (compact al n b)) = ToString b"
proof -
  let ?r = "readable_len b"
  let ?src = "subl (m_buffer b) (m_read_idx b) ?r"
  have lsrc: "length ?src = ?r" using length_ToString [OF inv] by (simp add: ToString_def)
  have r: "c_uint (int ?r) = ?r" using small by simp
  have cpy: "memcpy blk 0 ?src = ?src" if "length blk = ?r" for blk
    using that lsrc by (simp add: memcpy_def)
  have fresh: "sb_inv \<lparr>m_buffer = ?src, m_buffer_len = ?r, m_write_idx = ?r, m_read_idx = 0\<rparr>"
    using lsrc by (simp add: sb_inv_def)
  have cont: "ToString \<lparr>m_buffer = ?src, m_buffer_len = ?r, m_write_idx = ?r, m_read_idx = 0\<rparr> = ToString b"
    by (simp add: ToString_def sb_len_defs subl_def)
  show ?thesis
    using inv r cpy fresh cont
    by (auto simp: compact_def Let_def dest!: malloc_length split: option.splits)
qed

lemma ensure_writeable_unfold:
  "ensure_writeable al n b =
     (if n \<le> writeable_len b then (True, b)
      else let cap = grow_cap (if capacity b = 0 then DEFAULT_BUFFER_SIZE else capacity b) (m_write_idx b + n)
           in case malloc al cap of
                None \<Rightarrow> (False, b)
              | Some tmp \<Rightarrow>
                  (True,
                   \<lparr>m_buffer = memcpy tmp 0 (subl (m_buffer b) (m_read_idx b) (readable_len b)),
                    m_buffer_len = cap, m_write_idx = readable_len b, m_read_idx = 0\<rparr>))"
proof (cases "n \<le> writeable_len b")
  case True
  then show ?thesis by (simp add: ensure_writeable_def)
next
  case False
  then have "compact al n b = (0, b)" by (simp add: compact_refused)
  with False show ?thesis by (simp add: ensure_writeable_def Let_def split: option.split)
qed

lemma ensure_writeable_keeps:
  assumes inv: "sb_inv b" and eq: "ensure_writeable al n b = (ok, b')"
  shows "sb_inv b'" and "ToString b' = ToString b" and "ok \<Longrightarrow> n \<le> writeable_len b'"
    and "\<not> ok \<Longrightarrow> b' = b"
proof -
  let ?r = "readable_len b"
  let ?src = "subl (m_buffer b) (m_read_idx b) ?r"
  let ?c0 = "if capacity b = 0 then DEFAULT_BUFFER_SIZE else capacity b"
  let ?cap = "grow_cap ?c0 (m_write_idx b + n)"
  have lsrc: "length ?src = ?r" using length_ToString [OF inv] by (simp add: ToString_def)
  have "0 < ?c0" by (simp add: DEFAULT_BUFFER_SIZE_def)
  then have cap: "m_write_idx b + n \<le> ?cap" using grow_cap_bounds by blast
  have rw: "?r \<le> m_write_idx b" by (simp add: sb_len_defs)
  have fits: "?r + n \<le> ?cap" using cap rw by simp
  have "sb_inv b' \<and> ToString b' = ToString b \<and> (ok \<longrightarrow> n \<le> writeable_len b') \<and> (\<not> ok \<longrightarrow> b' = b)"
  proof (cases "n \<le> writeable_len b")
    case True
    with eq inv show ?thesis by (auto simp: ensure_writeable_unfold)
  next
    case False
    show ?thesis
    proof (cases "malloc al ?cap")
      case None
      with False eq inv show ?thesis by (auto simp: ensure_writeable_unfold Let_def)
    next
      case (Some tmp)
      then have len: "length tmp = ?cap" by (rule malloc_length)
      have b': "ok \<and> b' = \<lparr>m_buffer = memcpy tmp 0 ?src, m_buffer_len = ?cap, m_write_idx = ?r, m_read_idx = 0\<rparr>"
        using False Some eq by (auto simp: ensure_writeable_unfold Let_def)
      have inv': "sb_inv b'" using b' len lsrc fits by (simp add: sb_inv_def)
      have rd: "readable_len b' = ?r" using b' by (simp add: sb_len_defs)
      have "subl (memcpy tmp 0 ?src) 0 (length ?src) = ?src"
        by (rule subl_memcpy_same) (use lsrc len fits in simp)
      then have "ToString b' = ToString b" using b' rd lsrc by (simp add: ToString_def)
      moreover have "n \<le> writeable_len b'"
        using inv' b' fits by (simp add: writeable_len_inv)
      ultimately show ?thesis using inv' b' by simp
    qed
  qed
  then show "sb_inv b'" "ToString b' = ToString b" "ok \<Longrightarrow> n \<le> writeable_len b'"
    "\<not> ok \<Longrightarrow> b' = b" by auto
qed

lemma ensure_writeable_ok: "alloc_ok al \<Longrightarrow> fst (ensure_writeable al n b)"
  by (auto simp: ensure_writeable_unfold Let_def malloc_ok split: option.split)

text \<open>Storing bytes behind the write index appends them to the contents.\<close>

lemma append_at_write_idx:
  assumes inv: "sb_inv b" and fits: "length data \<le> writeable_len b"
  defines "b' \<equiv> b\<lparr>m_buffer := memcpy (m_buffer b) (m_write_idx b) data,
                  m_write_idx := m_write_idx b + length data\<rparr>"
  shows "sb_inv b'" and "ToString b' = ToString b @ data"
proof -
  have room: "m_write_idx b + length data \<le> m_buffer_len b"
    using inv fits by (auto simp: sb_len_defs sb_inv_def split: if_splits)
  then have room': "m_write_idx b + length data \<le> length (m_buffer b)"
    using inv by (simp add: sb_inv_def)
  show inv': "sb_inv b'" using inv room room' by (simp add: b'_def sb_inv_def)
  let ?buf = "memcpy (m_buffer b) (m_write_idx b) data"
  let ?d = "m_write_idx b - m_read_idx b"
  have rw: "m_read_idx b \<le> m_write_idx b" using inv by (simp add: sb_inv_def)
  have "ToString b' = subl ?buf (m_read_idx b) (?d + length data)"
    using inv' rw by (simp add: ToString_inv) (simp add: b'_def)
  also have "\<dots> = subl ?buf (m_read_idx b) ?d @ subl ?buf (m_read_idx b + ?d) (length data)"
    by (simp add: subl_append_subl)
  also have "subl ?buf (m_read_idx b) ?d = ToString b"
    using inv rw room' by (simp add: ToString_inv subl_memcpy_before)
  also have "subl ?buf (m_read_idx b + ?d) (length data) = data"
    using rw room' by (simp add: subl_memcpy_same)
  finally show "ToString b' = ToString b @ data" .
qed

lemma sb_write_ok:
  assumes inv: "sb_inv b" and al: "alloc_ok al"
  shows "\<exists>b'. sb_write al data b = (c_int (int (length data)), b') \<and> sb_inv b' \<and> ToString b' = ToString b @ data"
proof -
  obtain ok b1 where e: "ensure_writeable al (length data) b = (ok, b1)" by fastforce
  have ok using ensure_writeable_ok [OF al, of "length data" b] e by simp
  note k = ensure_writeable_keeps [OF inv e]
  show ?thesis
    using append_at_write_idx [OF k(1) k(3) [OF \<open>ok\<close>]] e \<open>ok\<close> k(2) by (simp add: sb_write_def)
qed

lemma sb_write_keeps_inv [kim_inv]: "sb_inv b \<Longrightarrow> sb_inv (snd (sb_write al data b))"
proof -
  assume inv: "sb_inv b"
  obtain ok b1 where e: "ensure_writeable al (length data) b = (ok, b1)" by fastforce
  note k = ensure_writeable_keeps [OF inv e]
  show ?thesis
    using append_at_write_idx(1) [OF k(1) k(3)] e k(1) by (cases ok) (simp_all add: sb_write_def)
qed

text \<open>Advancing the read index over readable bytes drops them.\<close>

lemma advance_contents:
  assumes "sb_inv b" and "n \<le> readable_len b"
  shows "sb_inv (b\<lparr>m_read_idx := m_read_idx b + n\<rparr>)"
    and "ToString (b\<lparr>m_read_idx := m_read_idx b + n\<rparr>) = drop n (ToString b)"
proof -
  have le: "m_read_idx b + n \<le> m_write_idx b"
    using assms by (auto simp: readable_len_inv sb_inv_def)
  show inv': "sb_inv (b\<lparr>m_read_idx := m_read_idx b + n\<rparr>)"
    using assms(1) le by (simp add: sb_inv_def)
  have "ToString (b\<lparr>m_read_idx := m_read_idx b + n\<rparr>)
      = subl (m_buffer b) (m_read_idx b + n) (m_write_idx b - (m_read_idx b + n))"
    using inv' by (simp add: ToString_inv)
  also have "\<dots> = drop n (ToString b)"
    using assms(1) by (simp add: ToString_inv subl_def drop_take add.commute)
  finally show "ToString (b\<lparr>m_read_idx := m_read_idx b + n\<rparr>) = drop n (ToString b)" .
qed

lemma skip_bytes_below_2G: "n < 2 ^ 31 \<Longrightarrow> skip_bytes n b = b\<lparr>m_read_idx := m_read_idx b + n\<rparr>"
  by (simp add: skip_bytes_def advance_read_index_def nat_add_distrib)

lemma skip_contents:
  assumes "sb_inv b" and "n \<le> readable_len b" and "n < 2 ^ 31"
  shows "sb_inv (skip_bytes n b)" and "ToString (skip_bytes n b) = drop n (ToString b)"
  using advance_contents [OF assms(1,2)] by (simp_all add: skip_bytes_below_2G [OF assms(3)])

text \<open>From 2 GB on the \<open>int\<close> is negative and the bytes that should be dropped are not.\<close>

lemma skip_bytes_from_2G:
  assumes "2 ^ 31 \<le> n" and "n < 2 ^ 32" and "m_read_idx b + n \<ge> 2 ^ 32"
  shows "m_read_idx (skip_bytes n b) + 2 ^ 32 = m_read_idx b + n"
proof -
  have "c_int (int n) = int n - 2 ^ 32"
    using assms(1,2) by (simp add: c_int_def mod_pos_geq)
  then show ?thesis using assms(3) by (simp add: skip_bytes_def advance_read_index_def Let_def)
qed

text \<open>Moving the write index back, as the encoders do on an error, drops the last bytes.\<close>

lemma retract_write:
  assumes inv: "sb_inv b" and le: "n \<le> readable_len b"
  shows "sb_inv (b\<lparr>m_write_idx := m_write_idx b - n\<rparr>)"
    and "ToString (b\<lparr>m_write_idx := m_write_idx b - n\<rparr>) = take (readable_len b - n) (ToString b)"
proof -
  show inv': "sb_inv (b\<lparr>m_write_idx := m_write_idx b - n\<rparr>)"
    using inv le by (auto simp: sb_inv_def readable_len_inv)
  show "ToString (b\<lparr>m_write_idx := m_write_idx b - n\<rparr>) = take (readable_len b - n) (ToString b)"
    using inv inv' by (simp add: ToString_inv readable_len_inv) (simp add: subl_def diff_commute add.commute)
qed

lemma sb_read_keeps:
  assumes "sb_inv b"
  shows "sb_inv (snd (snd (sb_read n b)))"
    and "n \<le> readable_len b \<Longrightarrow> fst (snd (sb_read n b)) = take n (ToString b)"
    and "n \<le> readable_len b \<Longrightarrow> ToString (snd (snd (sb_read n b))) = drop n (ToString b)"
  using assms advance_contents [of b n] raw_read_ToString [of b n]
  by (simp_all add: sb_read_def raw_read_buffer_def)

lemma sb_write_unit_keeps:
  assumes "sb_inv b" and "sb_inv unit" and e: "sb_write_unit al unit n b = (r, unit', b')"
  shows "sb_inv unit' \<and> sb_inv b'"
proof -
  let ?n = "if n > readable_len unit then readable_len unit else n"
  let ?d = "subl (m_buffer unit) (m_read_idx unit) ?n"
  obtain r1 b1 where w: "sb_write al ?d b = (r1, b1)" by fastforce
  have b1: "sb_inv b1" using sb_write_keeps_inv [OF assms(1), of al ?d] w by simp
  have ld: "length ?d \<le> ?n" by simp
  have r1: "0 < r1 \<Longrightarrow> nat r1 \<le> readable_len unit"
  proof -
    assume pos: "0 < r1"
    then have "r1 = c_int (int (length ?d))"
      using w by (auto simp: sb_write_def split: prod.splits bool.splits)
    moreover have "nat (c_int (int (length ?d))) \<le> length ?d" by (rule nat_c_int_le)
    ultimately have "nat r1 \<le> length ?d" by simp
    then show ?thesis using ld by (simp split: if_splits)
  qed
  have "sb_inv (unit\<lparr>m_read_idx := m_read_idx unit + nat r1\<rparr>)" if "0 < r1"
    by (rule advance_contents(1) [OF assms(2) r1 [OF that]])
  then show ?thesis using e w b1 assms(2) by (auto simp: sb_write_unit_def Let_def split: if_splits)
qed

lemma discard_keeps:
  assumes inv: "sb_inv b"
  shows "sb_inv (DiscardReadedBytes b)" and "ToString (DiscardReadedBytes b) = ToString b"
proof -
  let ?src = "subl (m_buffer b) (m_read_idx b) (readable_len b)"
  have l: "length ?src = readable_len b" using length_ToString [OF inv] by (simp add: ToString_def)
  have le: "readable_len b \<le> m_write_idx b" by (simp add: sb_len_defs)
  have "subl (memcpy (m_buffer b) 0 ?src) 0 (length ?src) = ?src"
    by (rule subl_memcpy_same) (use inv l le in \<open>simp add: sb_inv_def\<close>)
  then show "sb_inv (DiscardReadedBytes b)" "ToString (DiscardReadedBytes b) = ToString b"
    using inv l le
    by (auto simp: DiscardReadedBytes_def Let_def sb_inv_def ToString_def sb_len_defs)
qed

lemma write_fd_keeps:
  assumes "sb_inv b" and "write_fd r err b = (n, err', out, b')"
  shows "sb_inv b'" and "out @ ToString b' = ToString b" and "n \<ge> 0 \<Longrightarrow> n = int (length out)"
proof -
  have k: "min k (readable_len b) \<le> readable_len b" for k by simp
  note sk = advance_contents [OF assms(1) k] and rr = raw_read_ToString [OF assms(1) k]
  have len: "length (take (min k (readable_len b)) (ToString b)) = min k (readable_len b)" for k
    using assms(1) by simp
  show "sb_inv b'" "out @ ToString b' = ToString b" "n \<ge> 0 \<Longrightarrow> n = int (length out)"
    using assms sk rr len
    by (auto simp: write_fd_def Let_def raw_read_buffer_def
        split: if_splits send_res.splits)
qed

lemma read_fd_keeps:
  assumes inv: "sb_inv b"
  shows "sb_inv (snd (snd (read_fd al r err b)))"
    and "alloc_ok al \<Longrightarrow> r = Recv bs \<Longrightarrow>
      fst (read_fd al r err b) = int (length (take (iov_room b) bs)) \<and>
      ToString (snd (snd (read_fd al r err b))) = ToString b @ take (iov_room b) bs"
proof -
  let ?t = "iov_room b"
  let ?w = "writeable_len b"
  have full: "sb_inv (b\<lparr>m_buffer := memcpy (m_buffer b) (m_write_idx b) (take ?w d), m_write_idx := m_buffer_len b\<rparr>)
      \<and> ToString (b\<lparr>m_buffer := memcpy (m_buffer b) (m_write_idx b) (take ?w d), m_write_idx := m_buffer_len b\<rparr>)
        = ToString b @ take ?w d" if "?w < length d" for d
  proof -
    have len: "length (take ?w d) = ?w" using that by simp
    have "m_write_idx b + ?w = m_buffer_len b" using inv by (simp add: writeable_len_inv sb_inv_def)
    then show ?thesis using append_at_write_idx [OF inv, of "take ?w d"] len by simp
  qed
  have part: "sb_inv (b\<lparr>m_buffer := memcpy (m_buffer b) (m_write_idx b) d, m_write_idx := m_write_idx b + length d\<rparr>)
      \<and> ToString (b\<lparr>m_buffer := memcpy (m_buffer b) (m_write_idx b) d, m_write_idx := m_write_idx b + length d\<rparr>)
        = ToString b @ d" if "length d \<le> ?w" for d
    using append_at_write_idx [OF inv that] by simp
  show "sb_inv (snd (snd (read_fd al r err b)))"
  proof (cases r)
    case (Recv bs)
    show ?thesis
    proof (cases "length (take ?t bs) \<le> ?w")
      case True
      with part [OF True] Recv show ?thesis by (simp add: read_fd_def Let_def)
    next
      case False
      then have "?w < length (take ?t bs)" by linarith
      with conjunct1 [OF full [of "take ?t bs"]] Recv False show ?thesis
        by (simp add: read_fd_def Let_def sb_write_keeps_inv del: length_take take_take)
    qed
  next
    case (RecvErr e)
    with inv show ?thesis by (simp add: read_fd_def Let_def)
  qed
  show "fst (read_fd al r err b) = int (length (take ?t bs)) \<and>
        ToString (snd (snd (read_fd al r err b))) = ToString b @ take ?t bs"
    if al: "alloc_ok al" and r: "r = Recv bs"
  proof (cases "length (take ?t bs) \<le> ?w")
    case True
    with part [OF True] r show ?thesis by (simp add: read_fd_def Let_def)
  next
    case False
    then have lt: "?w < length (take ?t bs)" by linarith
    let ?b1 = "b\<lparr>m_buffer := memcpy (m_buffer b) (m_write_idx b) (take ?w (take ?t bs)), m_write_idx := m_buffer_len b\<rparr>"
    from sb_write_ok [OF conjunct1 [OF full [OF lt]] al, of "drop ?w (take ?t bs)"]
    have "ToString (snd (sb_write al (drop ?w (take ?t bs)) ?b1)) = ToString b @ take ?t bs"
      using conjunct2 [OF full [OF lt]] by (auto simp del: take_take)
    with False r show ?thesis by (simp add: read_fd_def Let_def del: length_take take_take)
  qed
qed

text \<open>
  Formatting into the buffer: scribbling behind the write index changes nothing that is
  readable, and after one failed attempt the buffer has room for the text.
\<close>

lemma vsnprintf_to_keeps:
  assumes inv: "sb_inv b" and sp: "space = writeable_len b"
  shows "sb_inv (vsnprintf_to space s b)" and "ToString (vsnprintf_to space s b) = ToString b"
    and "writeable_len (vsnprintf_to space s b) = writeable_len b"
proof -
  let ?d = "take (space - 1) s @ [CHR 0x00]"
  have room: "space \<noteq> 0 \<Longrightarrow> m_write_idx b + length ?d \<le> length (m_buffer b)"
    using inv sp by (auto simp: sb_inv_def sb_len_defs split: if_splits)
  have le: "m_read_idx b + (m_write_idx b - m_read_idx b) \<le> m_write_idx b" using inv by (simp add: sb_inv_def)
  have eq: "space \<noteq> 0 \<Longrightarrow>
      subl (memcpy (m_buffer b) (m_write_idx b) ?d) (m_read_idx b) (m_write_idx b - m_read_idx b)
      = subl (m_buffer b) (m_read_idx b) (m_write_idx b - m_read_idx b)"
    by (rule subl_memcpy_before [OF le]) (use inv in \<open>simp add: sb_inv_def\<close>)
  show inv': "sb_inv (vsnprintf_to space s b)"
    using inv room length_memcpy [of "m_write_idx b" ?d "m_buffer b"]
    by (cases "space = 0") (simp_all add: vsnprintf_to_def sb_inv_def)
  show "ToString (vsnprintf_to space s b) = ToString b"
    using inv inv' eq by (simp add: ToString_inv) (simp add: vsnprintf_to_def)
  show "writeable_len (vsnprintf_to space s b) = writeable_len b"
    by (simp add: vsnprintf_to_def sb_len_defs)
qed

lemma vsnprintf_to_advance:
  assumes inv: "sb_inv b" and sp: "space = writeable_len b" and fit: "length s < space"
  shows "sb_inv (vsnprintf_to space s b\<lparr>m_write_idx := m_write_idx b + length s\<rparr>)"
    and "ToString (vsnprintf_to space s b\<lparr>m_write_idx := m_write_idx b + length s\<rparr>) = ToString b @ s"
proof -
  let ?b1 = "b\<lparr>m_buffer := memcpy (m_buffer b) (m_write_idx b) (s @ [CHR 0x00]),
               m_write_idx := m_write_idx b + length (s @ [CHR 0x00])\<rparr>"
  have b1: "sb_inv ?b1" "ToString ?b1 = ToString b @ s @ [CHR 0x00]"
    using append_at_write_idx [OF inv, of "s @ [CHR 0x00]"] fit sp by simp_all
  have r1: "readable_len ?b1 = length (ToString b @ s) + 1"
    using length_ToString [OF b1(1)] b1(2) by simp
  have b2: "vsnprintf_to space s b\<lparr>m_write_idx := m_write_idx b + length s\<rparr>
      = ?b1\<lparr>m_write_idx := m_write_idx ?b1 - 1\<rparr>"
    using fit by (simp add: vsnprintf_to_def)
  have le: "1 \<le> readable_len ?b1" using r1 by simp
  show "sb_inv (vsnprintf_to space s b\<lparr>m_write_idx := m_write_idx b + length s\<rparr>)"
    unfolding b2 by (rule retract_write(1) [OF b1(1) le])
  have "ToString (vsnprintf_to space s b\<lparr>m_write_idx := m_write_idx b + length s\<rparr>)
      = take (readable_len ?b1 - 1) (ToString ?b1)"
    unfolding b2 by (rule retract_write(2) [OF b1(1) le])
  also have "\<dots> = ToString b @ s" unfolding r1 b1(2) by simp
  finally show "ToString (vsnprintf_to space s b\<lparr>m_write_idx := m_write_idx b + length s\<rparr>) = ToString b @ s" .
qed

lemma vprintf_loop_one:
  assumes inv: "sb_inv b" and fit: "length s < writeable_len b"
  shows "\<exists>b'. vprintf_loop (Suc fuel) al s res b = Some (res + int (length s), b') \<and> sb_inv b'
           \<and> ToString b' = ToString b @ s"
  using vsnprintf_to_advance [OF inv refl fit] fit
  by (auto simp: Let_def vsnprintf_to_def)

lemma vprintf_two_attempts:
  assumes inv: "sb_inv b" and w: "0 < writeable_len b"
  shows "\<exists>res' b'. vprintf_loop (Suc (Suc fuel)) al s res b = Some (res', b') \<and> sb_inv b'
           \<and> (alloc_ok al \<longrightarrow> ToString b' = ToString b @ s)
           \<and> (length s < writeable_len b \<longrightarrow> res' = res + int (length s))
           \<and> (alloc_ok al \<and> \<not> length s < writeable_len b \<longrightarrow> res' = res + 2 * int (length s))"
proof (cases "length s < writeable_len b")
  case True
  then show ?thesis using vprintf_loop_one [OF inv True] by fastforce
next
  case False
  let ?b1 = "vsnprintf_to (writeable_len b) s b"
  note k1 = vsnprintf_to_keeps [OF inv refl, of s]
  obtain ok b2 where e: "ensure_writeable al (2 * length s) ?b1 = (ok, b2)" by fastforce
  note k2 = ensure_writeable_keeps [OF k1(1) e]
  have unfold: "vprintf_loop (Suc (Suc fuel)) al s res b =
     (if ok then vprintf_loop (Suc fuel) al s (res + int (length s)) b2 else Some (res + int (length s), b2))"
    using False e by (simp add: Let_def split: bool.split)
  show ?thesis
  proof (cases ok)
    case True
    have "length s < writeable_len b2" using k2(3) [OF True] False w by (cases s) simp_all
    from vprintf_loop_one [OF k2(1) this, of fuel al "res + int (length s)"] unfold True False k1(2) k2(2)
    show ?thesis by auto
  next
    case nok: False
    have "\<not> alloc_ok al" using ensure_writeable_ok [of al "2 * length s" ?b1] e nok by auto
    then show ?thesis using unfold nok k2(1) False by auto
  qed
qed

section \<open>The contract of the codecs: a byte stream\<close>

text \<open>
  What the encoders and decoders use of a buffer: its readable bytes as a stream, appending
  (all of the bytes, or none with -1), looking at a prefix, and dropping it while its length is an
  \<open>int\<close>.
\<close>

locale byte_stream =
  fixes inv :: "'b \<Rightarrow> bool"
    and stream :: "'b \<Rightarrow> char list"
    and put :: "char list \<Rightarrow> 'b \<Rightarrow> int \<times> 'b"
    and peek :: "'b \<Rightarrow> nat \<Rightarrow> char list"
    and skip :: "nat \<Rightarrow> 'b \<Rightarrow> 'b"
    and avail :: "'b \<Rightarrow> nat"
  assumes put_inv: "inv b \<Longrightarrow> inv (snd (put d b))"
    and put_stream: "inv b \<Longrightarrow> put d b = (r, b') \<Longrightarrow>
      r = -1 \<and> stream b' = stream b \<or> r = c_int (int (length d)) \<and> stream b' = stream b @ d"
    and peek_stream: "inv b \<Longrightarrow> n \<le> avail b \<Longrightarrow> peek b n = take n (stream b)"
    and skip_inv: "inv b \<Longrightarrow> n \<le> avail b \<Longrightarrow> n < 2 ^ 31 \<Longrightarrow> inv (skip n b)"
    and skip_stream: "inv b \<Longrightarrow> n \<le> avail b \<Longrightarrow> n < 2 ^ 31 \<Longrightarrow> stream (skip n b) = drop n (stream b)"
    and avail_stream: "inv b \<Longrightarrow> avail b = length (stream b)"
begin

lemma put_full:
  assumes "inv b" and "put d b = (r, b')" and "r = int (length d)" and "length d < 2 ^ 31"
  shows "stream b' = stream b @ d"
proof -
  have "c_int (int (length d)) = int (length d)" using assms(4) by simp
  then show ?thesis using put_stream [OF assms(1,2)] assms(3) by auto
qed

lemma frame_head:
  assumes "inv b" and "stream b = h @ rest" and "length h < 2 ^ 31"
  shows "peek b (length h) = h" and "stream (skip (length h) b) = rest" and "inv (skip (length h) b)"
  using assms peek_stream [of b "length h"] skip_stream [of b "length h"] skip_inv [of b "length h"]
  by (simp_all add: avail_stream)

lemma frame_head_body:
  assumes "inv b" and "stream b = h @ p @ rest" and "length h + length p < 2 ^ 31"
  shows "drop (length h) (peek b (length h + length p)) = p"
    and "stream (skip (length h + length p) b) = rest"
    and "inv (skip (length h + length p) b)"
  using assms frame_head [of b "h @ p" rest] by simp_all

end

interpretation sbuf: byte_stream sb_inv ToString "sb_write al" raw_read_buffer skip_bytes readable_len for al
proof
  fix b :: socket_buffer and b' d r
  assume inv: "sb_inv b"
  show "sb_inv (snd (sb_write al d b))" by (rule sb_write_keeps_inv [OF inv])
  assume put: "sb_write al d b = (r, b')"
  obtain ok b1 where e: "ensure_writeable al (length d) b = (ok, b1)" by fastforce
  note k = ensure_writeable_keeps [OF inv e]
  show "r = - 1 \<and> ToString b' = ToString b \<or> r = c_int (int (length d)) \<and> ToString b' = ToString b @ d"
    using append_at_write_idx(2) [OF k(1) k(3)] e k(2) put by (cases ok) (auto simp: sb_write_def)
qed (simp_all add: raw_read_ToString skip_contents)

lemma sb_printf_ok:
  assumes "sb_inv b" and "alloc_ok al"
  shows "\<exists>n b'. sb_printf al s b = Some (n, b') \<and> sb_inv b' \<and> ToString b' = ToString b @ s
    \<and> n = (if length s < writeable_len (snd (ensure_writeable al 64 b)) then int (length s) else 2 * int (length s))"
proof -
  obtain ok b1 where e: "ensure_writeable al 64 b = (ok, b1)" by fastforce
  have ok using ensure_writeable_ok [OF assms(2), of 64 b] e by simp
  note k1 = ensure_writeable_keeps [OF assms(1) e]
  have "0 < writeable_len b1" using k1(3) [OF \<open>ok\<close>] by simp
  from vprintf_two_attempts [OF k1(1) this, of 0 al s 0] e \<open>ok\<close> k1(2) assms(2)
  show ?thesis by (fastforce simp: sb_printf_def numeral_2_eq_2)
qed

section \<open>Properties\<close>

text \<open>
  C20. Every operation of a socket buffer below 2 GB keeps
  \<open>m_read_idx <= m_write_idx <= m_buffer_len\<close> within the allocated block, whatever the allocator, \<open>send\<close> and \<open>readv\<close> answer. The lengths the
  operations are given are below 2 GB (1 GB for a text that is printed), where the conversions to
  \<open>int\<close> lose nothing, and \<open>skip_bytes\<close> is called for at most the readable bytes.
\<close>

theorem socket_buffer_ops_keep_inv:
  assumes "sb_inv b" and "sb_inv unit" and "k \<le> readable_len b"
    and "m_buffer_len b < 2 ^ 31" and "m_buffer_len unit < 2 ^ 31" and "n < 2 ^ 31" and "length data < 2 ^ 30"
  shows "sb_inv (snd (compact al n b)) \<and> sb_inv (snd (ensure_writeable al n b))
    \<and> sb_inv (snd (sb_write al data b)) \<and> sb_inv (snd (snd (sb_read n b)))
    \<and> sb_inv (fst (snd (sb_write_unit al unit n b))) \<and> sb_inv (snd (snd (sb_write_unit al unit n b)))
    \<and> sb_inv (skip_bytes k b) \<and> sb_inv (DiscardReadedBytes b) \<and> sb_inv (limit b) \<and> sb_inv (clear b)
    \<and> sb_inv (snd (set_bytes data n b))
    \<and> sb_inv (snd (snd (read_fd al rr err b))) \<and> sb_inv (snd (snd (snd (write_fd sr err b))))
    \<and> (case sb_printf al data b of None \<Rightarrow> False | Some (_, b') \<Rightarrow> sb_inv b')"
proof -
  have len: "readable_len b < 2 ^ 31"
    using assms(1,4) unfolding sb_inv_def sb_len_defs by auto
  then have k: "k < 2 ^ 31" and len': "readable_len b < 2 ^ 32" using assms(3) by simp_all
  obtain ok b1 where e: "ensure_writeable al 64 b = (ok, b1)" by fastforce
  note k1 = ensure_writeable_keeps [OF assms(1) e]
  have "ok \<Longrightarrow> \<exists>r b'. vprintf_loop 2 al data 0 b1 = Some (r, b') \<and> sb_inv b'"
    using vprintf_two_attempts [OF k1(1), of 0 al data 0] k1(3) by (fastforce simp: numeral_2_eq_2)
  then have printf: "case sb_printf al data b of None \<Rightarrow> False | Some (_, b') \<Rightarrow> sb_inv b'"
    using e k1(1) by (auto simp: sb_printf_def split: bool.split)
  have unit: "sb_inv (fst (snd (sb_write_unit al unit n b))) \<and> sb_inv (snd (snd (sb_write_unit al unit n b)))"
    using sb_write_unit_keeps [OF assms(1,2)] by (metis prod.collapse)
  have misc: "sb_inv (limit b)" "sb_inv (clear b)" "sb_inv (snd (set_bytes data n b))"
    using assms(1) length_memcpy [of n data "m_buffer b"]
    by (auto simp: sb_inv_def limit_def clear_def set_bytes_def)
  show ?thesis
    using compact_keeps [OF assms(1) len'] ensure_writeable_keeps(1) [OF assms(1) prod.collapse [symmetric]]
      sb_write_keeps_inv [OF assms(1)] sb_read_keeps(1) [OF assms(1)] unit skip_contents(1) [OF assms(1,3) k]
      discard_keeps(1) [OF assms(1)] misc read_fd_keeps(1) [OF assms(1)]
      write_fd_keeps(1) [OF assms(1)] printf
    by (metis prod.collapse)
qed

theorem socket_buffer_ops_keep_inv_witness:
  "\<exists>b. ToString b = ''bc'' \<and> sb_inv (skip_bytes 2 b) \<and> sb_inv (snd (sb_write zero_alloc ''abc'' b))
    \<and> sb_inv (snd (snd (read_fd zero_alloc (Recv ''xyz'') 0 b)))"
proof -
  let ?b = "\<lparr>m_buffer = ''abcd'', m_buffer_len = 4, m_write_idx = 3, m_read_idx = 1\<rparr>"
  have "ToString ?b = ''bc''" by (simp add: ToString_def subl_def sb_len_defs)
  then show ?thesis
    using socket_buffer_ops_keep_inv [of ?b new_buffer 2 1 "''abc''" zero_alloc "Recv ''xyz''" 0 "Sent 1"]
    by (intro exI [of _ ?b]) (simp add: sb_len_defs new_buffer_def sb_inv_def)
qed

text \<open>
  C17. A write is a queue append: with memory available, \<open>_write\<close> returns the number of bytes and
  they are readable behind what was readable before, and \<open>_read\<close> takes the same bytes off the front.
\<close>

theorem socket_buffer_is_a_queue:
  assumes "sb_inv b" and "alloc_ok al" and "length data < 2 ^ 31"
  shows "fst (sb_write al data b) = int (length data)
    \<and> ToString (snd (sb_write al data b)) = ToString b @ data
    \<and> fst (snd (sb_read (readable_len b) (snd (sb_write al data b)))) = ToString b
    \<and> ToString (snd (snd (sb_read (readable_len b) (snd (sb_write al data b))))) = data"
proof -
  obtain b' where w: "sb_write al data b = (c_int (int (length data)), b')" "sb_inv b'"
      "ToString b' = ToString b @ data"
    using sb_write_ok [OF assms(1,2)] by blast
  have le: "readable_len b \<le> readable_len b'"
    using w(2,3) assms(1) by (metis length_ToString length_append le_add1)
  show ?thesis
    using w sb_read_keeps(2,3) [OF w(2) le] assms(1,3) length_ToString [OF assms(1)] by simp
qed

theorem socket_buffer_is_a_queue_witness:
  "ToString (snd (sb_write zero_alloc ''abc'' new_buffer)) = ''abc''"
  using socket_buffer_is_a_queue [of new_buffer zero_alloc "''abc''"] by simp

text \<open>
  \<open>read_fd\<close> loses no byte: with memory available it appends exactly the bytes \<open>readv\<close> delivered,
  including those that went to the 32 KB overflow area, and returns their number; there is always
  room for at least 32 KB.
\<close>

lemma read_fd_appends_what_arrived:
  assumes "sb_inv b" and "alloc_ok al"
  shows "fst (read_fd al (Recv bs) err b) = int (length (take (iov_room b) bs))
    \<and> ToString (snd (snd (read_fd al (Recv bs) err b))) = ToString b @ take (iov_room b) bs
    \<and> 32768 \<le> iov_room b"
  using read_fd_keeps(2) [OF assms(1,2) refl] by (simp add: iov_room_def Let_def EXTRABUF_def)

text \<open>
  \<open>_printf\<close> always returns after at most two attempts; with memory available the text is appended
  to the readable bytes. The return value counts the text once when it fits the space at hand
  and twice when the buffer had to grow.
\<close>

lemma printf_appends_and_counts:
  assumes "sb_inv b" and "alloc_ok al"
  shows "\<exists>n b'. sb_printf al s b = Some (n, b') \<and> sb_inv b' \<and> ToString b' = ToString b @ s
    \<and> n = (if length s < writeable_len (snd (ensure_writeable al 64 b)) then int (length s) else 2 * int (length s))"
  using assms by (rule sb_printf_ok)

end
