(* ===== verification/Util_Str.thy ===== *)
theory Util_Str
  imports Kim_Prelude "HOL-Library.List_Lexorder" "HOL-Library.Char_ord"
begin

text \<open>
  The string helpers of \<open>src/core/util/util.cpp\<close> and \<open>util.h\<close>: \<open>str_to_int\<close>, \<open>split_str\<close>, the
  \<open>format_*\<close> functions that build node ids, addresses and paths, \<open>format_redis_cmds\<close> and the
  template \<open>diff_cmp\<close>; and \<open>std::to_string\<close> for integers. Strings are byte lists; \<open>c_str()\<close> stops at
  the first NUL.
\<close>

section \<open>Decimal integers\<close>

definition digit_char :: "nat \<Rightarrow> char" where
  "digit_char d = char_of (48 + d)"

definition is_digit :: "char \<Rightarrow> bool" where
  "is_digit c \<longleftrightarrow> 48 \<le> (of_char c :: nat) \<and> (of_char c :: nat) \<le> 57"

definition digit_val :: "char \<Rightarrow> nat" where
  "digit_val c = of_char c - 48"

fun dec_nat :: "nat \<Rightarrow> string" where
  "dec_nat n = (if n < 10 then [digit_char n] else dec_nat (n div 10) @ [digit_char (n mod 10)])"

declare dec_nat.simps [simp del]

text \<open>\<open>std::to_string\<close> and the conversion \<open>%d\<close>.\<close>

definition dec_int :: "int \<Rightarrow> string" where
  "dec_int i = (if i < 0 then CHR ''-'' # dec_nat (nat (- i)) else dec_nat (nat i))"

definition digits_val :: "nat \<Rightarrow> string \<Rightarrow> nat" where
  "digits_val acc s = foldl (\<lambda>a c. 10 * a + digit_val c) acc s"

definition is_space :: "char \<Rightarrow> bool" where
  "is_space c \<longleftrightarrow> c = CHR '' '' \<or> (9 \<le> (of_char c :: nat) \<and> (of_char c :: nat) \<le> 13)"

text \<open>
  \<open>std::stoi\<close>: skips white space, takes an optional sign and the digits that follow, ignores the
  rest. It throws \<open>invalid_argument\<close> without a digit and \<open>out_of_range\<close> outside \<open>int\<close>; the callers
  catch neither, so both are \<open>None\<close>.
\<close>

definition stoi :: "string \<Rightarrow> int option" where
  "stoi s =
     (let s = dropWhile is_space s;
          neg = (s \<noteq> [] \<and> hd s = CHR ''-'');
          s = (if s \<noteq> [] \<and> (hd s = CHR ''-'' \<or> hd s = CHR ''+'') then tl s else s);
          ds = takeWhile is_digit s;
          v = (if neg then - int (digits_val 0 ds) else int (digits_val 0 ds))
      in if ds = [] then None
         else if v < - (2 ^ 31) \<or> 2 ^ 31 \<le> v then None else Some v)"

definition str_to_int :: "string \<Rightarrow> int option" where
  "str_to_int d = (if d = [] then Some 0 else stoi d)"

lemma of_char_digit: "d < 10 \<Longrightarrow> (of_char (digit_char d) :: nat) = 48 + d"
  by (simp add: digit_char_def)

lemma is_digit_digit_char: "d < 10 \<Longrightarrow> is_digit (digit_char d)"
  by (simp add: is_digit_def of_char_digit)

lemma digit_val_digit_char: "d < 10 \<Longrightarrow> digit_val (digit_char d) = d"
  by (simp add: digit_val_def of_char_digit)

lemma dec_nat_digits: "\<forall>c \<in> set (dec_nat n). is_digit c"
proof (induction n rule: dec_nat.induct)
  case (1 n)
  then show ?case
    by (subst dec_nat.simps) (auto simp: is_digit_digit_char)
qed

lemma dec_nat_nonempty [simp]: "dec_nat n \<noteq> []"
  by (subst dec_nat.simps) simp

lemma digits_val_dec_nat: "digits_val 0 (dec_nat n) = n"
proof (induction n rule: dec_nat.induct)
  case (1 n)
  then show ?case
    by (subst dec_nat.simps) (auto simp: digits_val_def digit_val_digit_char)
qed

lemma dec_nat_inj: "dec_nat m = dec_nat n \<Longrightarrow> m = n"
  by (metis digits_val_dec_nat)

lemma digit_not: "is_digit c \<Longrightarrow> c \<noteq> CHR ''-'' \<and> c \<noteq> CHR ''+'' \<and> c \<noteq> CHR '':'' \<and> c \<noteq> CHR ''.'' \<and> \<not> is_space c"
  by (auto simp: is_digit_def is_space_def)

lemma hd_dec_nat: "is_digit (hd (dec_nat n))"
  using dec_nat_digits [of n] by (simp add: hd_in_set)

lemma dropWhile_dec_nat: "dropWhile is_space (dec_nat n) = dec_nat n"
  using hd_dec_nat [of n] digit_not dec_nat_nonempty [of n]
  by (cases "dec_nat n") (auto simp del: dec_nat_nonempty)

lemma takeWhile_dec_nat: "takeWhile is_digit (dec_nat n) = dec_nat n"
  using dec_nat_digits [of n] by (simp add: takeWhile_eq_all_conv)

lemma stoi_dec_int:
  assumes "- (2 ^ 31) \<le> i" and "i < 2 ^ 31"
  shows "str_to_int (dec_int i) = Some i"
proof (cases "i < 0")
  case True
  then show ?thesis
    using assms
    by (simp add: str_to_int_def dec_int_def stoi_def is_space_def takeWhile_dec_nat digits_val_dec_nat)
next
  case False
  have "hd (dec_nat (nat i)) \<noteq> CHR ''-'' \<and> hd (dec_nat (nat i)) \<noteq> CHR ''+''"
    using hd_dec_nat digit_not by blast
  then show ?thesis
    using assms False
    by (simp add: str_to_int_def dec_int_def stoi_def dropWhile_dec_nat takeWhile_dec_nat digits_val_dec_nat)
qed

section \<open>Formatting\<close>

definition c_str :: "string \<Rightarrow> string" where
  "c_str s = takeWhile (\<lambda>c. c \<noteq> CHR 0x00) s"

text \<open>\<open>snprintf\<close> into a buffer of \<open>n\<close> bytes keeps \<open>n - 1\<close> characters.\<close>

definition format_addr :: "string \<Rightarrow> int \<Rightarrow> string" where
  "format_addr host port = take 63 (c_str host @ '':'' @ dec_int port)"

definition format_nodes_id :: "string \<Rightarrow> int \<Rightarrow> int \<Rightarrow> string" where
  "format_nodes_id host port index =
     take 127 (c_str host @ '':'' @ dec_int port @ ''.'' @ dec_int index)"

text \<open>\<open>format_str\<close> is \<open>vsnprintf\<close> into 256 bytes; its argument here is the full text.\<close>

definition format_str :: "string \<Rightarrow> string" where
  "format_str text = take 255 text"

definition format_identity :: "string \<Rightarrow> int \<Rightarrow> string \<Rightarrow> string" where
  "format_identity host port db_name = take 63 (c_str host @ '':'' @ dec_int port @ '':'' @ c_str db_name)"

definition format_redis_cmds :: "string list \<Rightarrow> string" where
  "format_redis_cmds argv = concat (map (\<lambda>a. a @ '' '') argv)"

text \<open>Case-insensitive comparison, as \<open>strcasecmp\<close>.\<close>

definition lower_char :: "char \<Rightarrow> char" where
  "lower_char c = (let n = (of_char c :: nat) in if 65 \<le> n \<and> n \<le> 90 then char_of (n + 32) else c)"

definition strcaseeq :: "string \<Rightarrow> string \<Rightarrow> bool" where
  "strcaseeq a b \<longleftrightarrow> map lower_char (c_str a) = map lower_char (c_str b)"

section \<open>Splitting\<close>

text \<open>
  \<open>find_first_not_of(seq, pos)\<close> (any character not in \<open>seq\<close>) and \<open>find(seq, pos)\<close> (the whole
  separator); \<open>None\<close> is \<open>npos\<close>.
\<close>

definition find_first_not_of :: "string \<Rightarrow> string \<Rightarrow> nat \<Rightarrow> nat option" where
  "find_first_not_of s seq pos =
     map_option (\<lambda>k. pos + k)
       (let t = drop pos s; n = length (takeWhile (\<lambda>c. c \<in> set seq) t)
        in if n < length t then Some n else None)"

fun find_sub :: "string \<Rightarrow> string \<Rightarrow> nat option" where
  "find_sub [] seq = (if seq = [] then Some 0 else None)"
| "find_sub (c # s) seq =
     (if take (length seq) (c # s) = seq then Some 0 else map_option Suc (find_sub s seq))"

definition find_from :: "string \<Rightarrow> string \<Rightarrow> nat \<Rightarrow> nat option" where
  "find_from s seq pos =
     (if pos \<le> length s then map_option (\<lambda>k. pos + k) (find_sub (drop pos s) seq) else None)"

text \<open>The loop; the fuel bounds the number of rounds (\<open>split_loop_returns\<close> says how many are enough).\<close>

fun split_loop :: "nat \<Rightarrow> string \<Rightarrow> string \<Rightarrow> nat \<Rightarrow> string list \<Rightarrow> string list option" where
  "split_loop 0 s seq cur vec = None"
| "split_loop (Suc fuel) s seq cur vec =
     (case find_first_not_of s seq cur of
        None \<Rightarrow> Some vec
      | Some pre \<Rightarrow>
          (case find_from s seq pre of
             None \<Rightarrow> Some (vec @ [drop pre s])
           | Some cur \<Rightarrow> split_loop fuel s seq cur (vec @ [take (cur - pre) (drop pre s)])))"

definition trim_blanks :: "string \<Rightarrow> string" where
  "trim_blanks v =
     rev (dropWhile (\<lambda>c. c = CHR '' '') (rev (dropWhile (\<lambda>c. c = CHR '' '') v)))"

definition split_str :: "nat \<Rightarrow> string \<Rightarrow> string list \<Rightarrow> string \<Rightarrow> bool \<Rightarrow> string list option" where
  "split_str fuel s vec seq trim_blank =
     map_option (\<lambda>vec. if trim_blank \<and> seq \<noteq> '' '' then map trim_blanks vec else vec)
       (split_loop fuel s seq 0 vec)"

lemma find_first_not_of_Some:
  assumes "find_first_not_of s seq pos = Some k"
  shows "pos \<le> k" and "k < length s" and "s ! k \<notin> set seq"
proof -
  let ?t = "drop pos s"
  let ?n = "length (takeWhile (\<lambda>c. c \<in> set seq) ?t)"
  have n: "?n < length ?t" and k: "k = pos + ?n"
    using assms by (auto simp: find_first_not_of_def Let_def split: if_splits)
  show "pos \<le> k" "k < length s" using n k by simp_all
  have "?t ! ?n \<notin> set seq" using nth_length_takeWhile [OF n] .
  then show "s ! k \<notin> set seq" using n k by simp
qed

lemma find_sub_bound: "find_sub s seq = Some k \<Longrightarrow> k \<le> length s"
  by (induction s seq arbitrary: k rule: find_sub.induct) (fastforce split: if_splits)+

lemma find_from_progress:
  assumes f: "find_from s seq pre = Some cur" and pre: "pre < length s"
    and first: "s ! pre \<notin> set seq" and ne: "seq \<noteq> []"
  shows "pre < cur" and "cur \<le> length s"
proof -
  from f obtain k where k: "find_sub (drop pre s) seq = Some k" "cur = pre + k"
    by (auto simp: find_from_def split: if_splits)
  have d: "drop pre s = s ! pre # drop (Suc pre) s" using pre by (simp add: Cons_nth_drop_Suc)
  have "take (length seq) (drop pre s) \<noteq> seq"
  proof
    assume "take (length seq) (drop pre s) = seq"
    then have "hd seq = s ! pre" using ne d by (cases seq) auto
    then show False using first ne by (metis hd_in_set)
  qed
  then have "k \<noteq> 0" using k(1) d by (auto split: if_splits)
  then show "pre < cur" using k(2) by simp
  show "cur \<le> length s" using find_sub_bound [OF k(1)] k(2) pre by simp
qed

lemma split_loop_returns:
  "seq \<noteq> [] \<Longrightarrow> length s - cur < fuel \<Longrightarrow> split_loop fuel s seq cur vec \<noteq> None"
proof (induction fuel arbitrary: cur vec)
  case 0
  then show ?case by simp
next
  case (Suc fuel)
  show ?case
  proof (cases "find_first_not_of s seq cur")
    case None
    then show ?thesis by simp
  next
    case (Some pre)
    note ff = find_first_not_of_Some [OF Some]
    show ?thesis
    proof (cases "find_from s seq pre")
      case None
      with Some show ?thesis by simp
    next
      case s2: (Some c2)
      note fp = find_from_progress [OF s2 ff(2,3) Suc.prems(1)]
      have "length s - c2 < fuel" using fp ff(1) ff(2) Suc.prems(2) by linarith
      then show ?thesis using Suc.IH [OF Suc.prems(1)] Some s2 by simp
    qed
  qed
qed

section \<open>Set difference of string lists\<close>

text \<open>\<open>std::set_difference\<close> on two sorted ranges, and \<open>diff_cmp\<close>, which sorts both first.\<close>

fun set_difference :: "'a::linorder list \<Rightarrow> 'a list \<Rightarrow> 'a list" where
  "set_difference [] ys = []"
| "set_difference (x # xs) [] = x # xs"
| "set_difference (x # xs) (y # ys) =
     (if x < y then x # set_difference xs (y # ys)
      else if y < x then set_difference (x # xs) ys
      else set_difference xs ys)"

definition diff_cmp :: "'a::linorder list \<Rightarrow> 'a list \<Rightarrow> 'a list" where
  "diff_cmp first second = set_difference (sort first) (sort second)"

lemma set_difference_set:
  "sorted xs \<Longrightarrow> sorted ys \<Longrightarrow> distinct xs \<Longrightarrow> set (set_difference xs ys) = set xs - set ys"
proof (induction xs ys rule: set_difference.induct)
  case (3 x xs y ys)
  note IH = "3.IH" and srt = "3.prems"
  consider (lt) "x < y" | (gt) "y < x" | (eq) "x = y" by force
  then show ?case
  proof cases
    case lt
    then have "x \<notin> set (y # ys)" using srt by (auto dest: leD)
    then show ?thesis using lt IH(1) srt by auto
  next
    case gt
    then have "y \<notin> set (x # xs)" using srt by (auto dest: leD)
    then show ?thesis using gt IH(2) srt by auto
  next
    case eq
    then show ?thesis using IH(3) srt by auto
  qed
qed simp_all

lemma diff_cmp_set: "distinct xs \<Longrightarrow> set (diff_cmp xs ys) = set xs - set ys"
  by (simp add: diff_cmp_def set_difference_set)

definition to_lower :: "string \<Rightarrow> nat \<Rightarrow> string" where
  "to_lower s len = map lower_char (take len s) @ drop len s"

section \<open>The limit of open files\<close>

text \<open>
  \<open>adjust_files_limit\<close>. \<open>cur\<close> is the answer of \<open>getrlimit\<close> (\<open>None\<close> on an error), \<open>set_ok n\<close> tells
  whether \<open>setrlimit\<close> accepts \<open>n\<close>; the loop's result holds \<open>bestlimit\<close> and the limit in force.
\<close>

definition CONFIG_MIN_RESERVED_FDS :: nat where "CONFIG_MIN_RESERVED_FDS = 32"

function lower_limit :: "(nat \<Rightarrow> bool) \<Rightarrow> nat \<Rightarrow> nat \<Rightarrow> nat \<times> nat" where
  "lower_limit set_ok oldlimit bestlimit =
     (if bestlimit \<le> oldlimit then (bestlimit, oldlimit)
      else if set_ok bestlimit then (bestlimit, bestlimit)
      else if bestlimit < 16 then (bestlimit, oldlimit)
      else lower_limit set_ok oldlimit (bestlimit - 16))"
  by pat_completeness auto
termination by (relation "measure (\<lambda>(_, _, b). b)") auto

declare lower_limit.simps [simp del]

definition adjust_files_limit :: "nat option \<Rightarrow> (nat \<Rightarrow> bool) \<Rightarrow> int \<Rightarrow> bool \<times> int \<times> nat option" where
  "adjust_files_limit cur set_ok max_clients =
     (let maxfiles = c_ulong (c_int (max_clients + int CONFIG_MIN_RESERVED_FDS))
      in case cur of
           None \<Rightarrow> (False, max_clients, None)
         | Some oldlimit \<Rightarrow>
             (if maxfiles \<le> oldlimit then (True, max_clients, Some oldlimit)
              else let (bestlimit, limit) = lower_limit set_ok oldlimit maxfiles;
                       bestlimit = (if bestlimit < oldlimit then oldlimit else bestlimit)
                   in if bestlimit < maxfiles
                      then (False, c_int (int bestlimit - int CONFIG_MIN_RESERVED_FDS), Some limit)
                      else (True, max_clients, Some limit)))"

lemma lower_limit_result:
  "lower_limit set_ok old best = (b, l) \<Longrightarrow> 16 \<le> old \<Longrightarrow>
     old \<le> l \<and> max b old = l \<and> (b \<le> best) \<and> (old < l \<longrightarrow> set_ok l)"
proof (induction set_ok old best rule: lower_limit.induct)
  case (1 set_ok old best)
  show ?case
  proof (cases "best \<le> old \<or> set_ok best \<or> best < 16")
    case True
    then show ?thesis using "1.prems" by (subst (asm) lower_limit.simps) (auto split: if_splits)
  next
    case False
    then have "lower_limit set_ok old (best - 16) = (b, l)"
      using "1.prems"(1) by (subst (asm) lower_limit.simps) simp
    with 1 False show ?thesis by fastforce
  qed
qed

section \<open>Node ids\<close>

lemma append_sep_inj:
  assumes "xs @ c # ys = xs' @ c # ys'" and "c \<notin> set ys" and "c \<notin> set ys'"
  shows "xs = xs' \<and> ys = ys'"
proof -
  have "rev ys @ c # rev xs = rev ys' @ c # rev xs'" using arg_cong [OF assms(1), of rev] by simp
  moreover have "takeWhile (\<lambda>x. x \<noteq> c) (rev ys @ c # rev xs) = rev ys"
    "takeWhile (\<lambda>x. x \<noteq> c) (rev ys' @ c # rev xs') = rev ys'"
    using assms(2,3) by (auto simp: takeWhile_append)
  ultimately show ?thesis by (metis append_same_eq assms(1) rev_rev_ident list.inject same_append_eq)
qed

lemma dec_int_no_sep: "0 \<le> i \<Longrightarrow> CHR ''.'' \<notin> set (dec_int i) \<and> CHR '':'' \<notin> set (dec_int i)"
  using dec_nat_digits [of "nat i"] digit_not by (auto simp: dec_int_def)

lemma dec_int_inj: "0 \<le> i \<Longrightarrow> 0 \<le> j \<Longrightarrow> dec_int i = dec_int j \<Longrightarrow> i = j"
  using dec_nat_inj by (fastforce simp: dec_int_def)

text \<open>
  Node ids are unique names: two ids that fit the 128-byte buffer are equal only when the
  host, the port and the worker index are, even for hosts that contain dots and colons.
\<close>

lemma format_nodes_id_injective:
  assumes "0 \<le> p" and "0 \<le> p'" and "0 \<le> i" and "0 \<le> i'"
    and "length (c_str h @ '':'' @ dec_int p @ ''.'' @ dec_int i) \<le> 127"
    and "length (c_str h' @ '':'' @ dec_int p' @ ''.'' @ dec_int i') \<le> 127"
    and "format_nodes_id h p i = format_nodes_id h' p' i'"
  shows "c_str h = c_str h' \<and> p = p' \<and> i = i'"
proof -
  have "(c_str h @ '':'' @ dec_int p) @ CHR ''.'' # dec_int i
      = (c_str h' @ '':'' @ dec_int p') @ CHR ''.'' # dec_int i'"
    using assms(5-7) by (simp add: format_nodes_id_def)
  then have 1: "c_str h @ CHR '':'' # dec_int p = c_str h' @ CHR '':'' # dec_int p'"
    and 2: "dec_int i = dec_int i'"
    using append_sep_inj dec_int_no_sep assms(3,4) by (metis append_Cons append_Nil)+
  from 1 have "c_str h = c_str h'" "dec_int p = dec_int p'"
    using append_sep_inj [OF 1] dec_int_no_sep assms(1,2) by auto
  with 2 show ?thesis using dec_int_inj assms(1-4) by blast
qed

text \<open>
  A worker index survives the trip through a message: \<open>str_to_int\<close> inverts \<open>std::to_string\<close> on
  every \<open>int\<close>.
\<close>

lemma str_to_int_to_string:
  "str_to_int (dec_int (c_int i)) = Some (c_int i)"
  using c_int_range [of i] stoi_dec_int by blast

text \<open>
  \<open>adjust_files_limit\<close> never promises more clients than the process has descriptors for: on both
  outcomes the limit in force covers the clients it leaves and the 32 reserved descriptors, and it
  reports success exactly when the count asked for is untouched.
\<close>

lemma adjust_files_limit_covers_clients:
  assumes "adjust_files_limit (Some oldlimit) set_ok m = (ok, m', Some l)"
    and "16 \<le> oldlimit" and "0 \<le> m" and "m < 2 ^ 31 - 32" and "oldlimit < 2 ^ 31"
  shows "m' + 32 \<le> int l \<and> (ok \<longleftrightarrow> m' = m) \<and> m' \<le> m \<and> oldlimit \<le> l"
proof -
  let ?max = "nat (m + 32)"
  have mf: "c_ulong (c_int (m + int CONFIG_MIN_RESERVED_FDS)) = ?max"
    using assms(3,4) by (simp add: CONFIG_MIN_RESERVED_FDS_def c_ulong_def)
  show ?thesis
  proof (cases "?max \<le> oldlimit")
    case True
    then show ?thesis using assms(1,3) mf by (auto simp: adjust_files_limit_def)
  next
    case False
    obtain b l' where bl: "lower_limit set_ok oldlimit ?max = (b, l')" by fastforce
    from lower_limit_result [OF bl assms(2)] have r: "oldlimit \<le> l'" "max b oldlimit = l'" "b \<le> ?max"
      by simp_all
    have e: "(if b < oldlimit then oldlimit else b) = l'" using r(2) by (auto simp: max_def split: if_splits)
    have l: "l' \<le> ?max" using r False by (auto simp: max_def split: if_splits)
    have c: "c_int (int l' - 32) = int l' - 32" using l assms(4,2) r(1) by (intro c_int_id) auto
    have "adjust_files_limit (Some oldlimit) set_ok m
        = (if l' < ?max then (False, c_int (int l' - int CONFIG_MIN_RESERVED_FDS), Some l')
           else (True, m, Some l'))"
      unfolding adjust_files_limit_def mf Let_def using False by (simp add: bl e)
    then show ?thesis
      using assms(1,3) l r(1) c by (auto simp: CONFIG_MIN_RESERVED_FDS_def split: if_splits)
  qed
qed

end
