(* ===== verification/Codec_Proto.thy ===== *)
theory Codec_Proto
  imports Socket_Buffer Util_Str
begin

text \<open>
  The binary protocol, \<open>src/core/codec/codec_proto.cpp\<close> and \<open>codec.cpp\<close>: a message is a 15-byte
  \<open>MsgHead\<close> and a \<open>MsgBody\<close> whose length the head gives. The protobuf runtime is not part of the
  repository: its functions are the parameter \<open>pb\<close>, with the documented laws \<open>proto_ok\<close>.
\<close>

section \<open>Messages\<close>

record msg_head =
  mh_cmd :: nat
  mh_seq :: nat
  mh_len :: int

datatype msg_type =
    No_target
  | Req_target (route_id: nat) (route: string)
  | Rsp_result (rsp_code: int) (rsp_msg: string)

record msg_body =
  mb_type :: msg_type
  mb_data :: string
  mb_add_on :: string
  mb_trace_id :: string

definition empty_head :: msg_head where
  "empty_head = \<lparr>mh_cmd = 0, mh_seq = 0, mh_len = 0\<rparr>"

definition empty_body :: msg_body where
  "empty_body = \<lparr>mb_type = No_target, mb_data = '''', mb_add_on = '''', mb_trace_id = ''''\<rparr>"

text \<open>
  The runtime: \<open>SerializeAsString\<close> and \<open>ParseFromArray\<close> of the two messages; a failed parse
  leaves some message behind. \<open>pb_tail\<close> is what lies in memory after the terminating NUL of a
  serialised head.
\<close>

record proto_lib =
  pb_ser_head :: "msg_head \<Rightarrow> string"
  pb_parse_head :: "string \<Rightarrow> bool \<times> msg_head"
  pb_ser_body :: "msg_body \<Rightarrow> string"
  pb_parse_body :: "string \<Rightarrow> bool \<times> msg_body"
  pb_tail :: "nat \<Rightarrow> char"

definition head_ok :: "msg_head \<Rightarrow> bool" where
  "head_ok h \<longleftrightarrow> mh_cmd h < 2 ^ 32 \<and> mh_seq h < 2 ^ 32 \<and> - (2 ^ 31) \<le> mh_len h \<and> mh_len h < 2 ^ 31"

text \<open>
  Parsing inverts serialisation, and a \<open>fixed32\<close> field takes five bytes unless it is zero, when
  proto3 leaves it out.
\<close>

definition proto_ok :: "proto_lib \<Rightarrow> bool" where
  "proto_ok pb \<longleftrightarrow>
     (\<forall>h. head_ok h \<longrightarrow> pb_parse_head pb (pb_ser_head pb h) = (True, h)
        \<and> length (pb_ser_head pb h) = 5 * (of_bool (mh_cmd h \<noteq> 0) + of_bool (mh_seq h \<noteq> 0) + of_bool (mh_len h \<noteq> 0)))
     \<and> (\<forall>m. pb_parse_body pb (pb_ser_body pb m) = (True, m))"

definition get_codec_type :: "string \<Rightarrow> codec_type" where
  "get_codec_type codec =
     (if strcaseeq codec ''protobuf'' then CT_PROTOBUF
      else if strcaseeq codec ''http'' then CT_HTTP
      else if strcaseeq codec ''private'' then CT_PRIVATE
      else CT_UNKNOWN)"

section \<open>Encoding and decoding\<close>

definition PROTO_MSG_HEAD_LEN :: nat where "PROTO_MSG_HEAD_LEN = 15"

text \<open>
  \<open>_write(head.SerializeAsString().c_str(), 15)\<close> copies 15 bytes whatever the length of the
  string: past its end come the NUL and the bytes behind it.
\<close>

definition head_bytes :: "proto_lib \<Rightarrow> msg_head \<Rightarrow> string" where
  "head_bytes pb h =
     take PROTO_MSG_HEAD_LEN (pb_ser_head pb h @ CHR 0x00 # map (pb_tail pb) [0..<PROTO_MSG_HEAD_LEN])"

definition proto_encode ::
  "proto_lib \<Rightarrow> allocator \<Rightarrow> msg_head \<Rightarrow> msg_body \<Rightarrow> socket_buffer \<Rightarrow> codec_status \<times> socket_buffer" where
  "proto_encode pb al head body sbuf =
     (let body_len = length (pb_ser_body pb body);
          (write_len, sbuf) = sb_write al (head_bytes pb head) sbuf
      in if write_len \<noteq> int PROTO_MSG_HEAD_LEN then (CS_ERR, sbuf)
         else if mh_len head \<le> 0 then (CS_OK, sbuf)
         else
           let (write_len, sbuf) = sb_write al (pb_ser_body pb body) sbuf
           in if write_len \<noteq> int body_len
              then (CS_ERR, set_write_index (m_write_idx sbuf - PROTO_MSG_HEAD_LEN) sbuf)
              else (CS_OK, sbuf))"

text \<open>
  \<open>PROTO_MSG_HEAD_LEN + head.len()\<close> is a sum of two \<open>int\<close>s: the behaviour is undefined (\<open>None\<close>)
  when it overflows.
\<close>

definition proto_decode ::
  "proto_lib \<Rightarrow> socket_buffer \<Rightarrow> msg_head \<Rightarrow> msg_body
     \<Rightarrow> (codec_status \<times> msg_head \<times> msg_body \<times> socket_buffer) option" where
  "proto_decode pb sbuf head body =
     (if readable_len sbuf < PROTO_MSG_HEAD_LEN then Some (CS_PAUSE, head, body, sbuf)
      else
        let (ret, head) = pb_parse_head pb (raw_read_buffer sbuf PROTO_MSG_HEAD_LEN)
        in if \<not> ret then Some (CS_ERR, head, body, sbuf)
           else if mh_len head \<le> 0 then Some (CS_OK, head, body, skip_bytes PROTO_MSG_HEAD_LEN sbuf)
           else if int PROTO_MSG_HEAD_LEN + mh_len head \<ge> 2 ^ 31 then None
           else if c_int (int (readable_len sbuf)) < int PROTO_MSG_HEAD_LEN + mh_len head
           then Some (CS_PAUSE, head, body, sbuf)
           else
             let n = nat (mh_len head);
                 (ret, body) = pb_parse_body pb (drop PROTO_MSG_HEAD_LEN (raw_read_buffer sbuf (PROTO_MSG_HEAD_LEN + n)))
             in if \<not> ret then Some (CS_ERR, head, body, sbuf)
                else Some (CS_OK, head, body, skip_bytes (PROTO_MSG_HEAD_LEN + n) sbuf))"

section \<open>Frames\<close>

text \<open>The bytes of a message on the wire, and the messages a peer sends with a body.\<close>

definition frame :: "proto_lib \<Rightarrow> msg_head \<times> msg_body \<Rightarrow> string" where
  "frame pb m = pb_ser_head pb (fst m) @ pb_ser_body pb (snd m)"

definition msg_ok :: "proto_lib \<Rightarrow> msg_head \<times> msg_body \<Rightarrow> bool" where
  "msg_ok pb m \<longleftrightarrow>
     head_ok (fst m) \<and> mh_cmd (fst m) \<noteq> 0 \<and> mh_seq (fst m) \<noteq> 0 \<and> 0 < mh_len (fst m)
     \<and> mh_len (fst m) = int (length (pb_ser_body pb (snd m))) \<and> 15 + mh_len (fst m) < 2 ^ 31"

lemma msg_ok_head:
  assumes "proto_ok pb" and "msg_ok pb m"
  shows "pb_parse_head pb (pb_ser_head pb (fst m)) = (True, fst m)"
    and "length (pb_ser_head pb (fst m)) = PROTO_MSG_HEAD_LEN"
    and "head_bytes pb (fst m) = pb_ser_head pb (fst m)"
proof -
  have h: "head_ok (fst m)" "mh_cmd (fst m) \<noteq> 0" "mh_seq (fst m) \<noteq> 0" "mh_len (fst m) \<noteq> 0"
    using assms(2) unfolding msg_ok_def by auto
  have "pb_parse_head pb (pb_ser_head pb (fst m)) = (True, fst m) \<and> length (pb_ser_head pb (fst m)) = 15"
    using assms(1) h unfolding proto_ok_def by simp
  then show "pb_parse_head pb (pb_ser_head pb (fst m)) = (True, fst m)"
    and "length (pb_ser_head pb (fst m)) = PROTO_MSG_HEAD_LEN"
    and "head_bytes pb (fst m) = pb_ser_head pb (fst m)"
    by (simp_all add: head_bytes_def PROTO_MSG_HEAD_LEN_def)
qed

lemma msg_ok_body:
  assumes "proto_ok pb"
  shows "pb_parse_body pb (pb_ser_body pb m) = (True, m)"
  using assms by (simp add: proto_ok_def)

lemma sb_write_ok_stream:
  assumes "alloc_ok al" and "sb_inv b" and "length d < 2 ^ 31"
  shows "\<exists>b'. sb_write al d b = (int (length d), b') \<and> sb_inv b' \<and> ToString b' = ToString b @ d"
  using sb_write_ok [OF assms(2,1), of d] assms(3) by simp

lemma encode_frame:
  assumes "proto_ok pb" and "alloc_ok al" and "sb_inv b" and "msg_ok pb (h, m)"
  shows "\<exists>b'. proto_encode pb al h m b = (CS_OK, b') \<and> sb_inv b' \<and> ToString b' = ToString b @ frame pb (h, m)"
proof -
  note hd = msg_ok_head [OF assms(1,4), simplified]
  obtain b1 where b1: "sb_write al (pb_ser_head pb h) b = (int PROTO_MSG_HEAD_LEN, b1)" "sb_inv b1"
    "ToString b1 = ToString b @ pb_ser_head pb h"
    using sb_write_ok_stream [OF assms(2,3), of "pb_ser_head pb h"] hd(2) by (auto simp: PROTO_MSG_HEAD_LEN_def)
  have "length (pb_ser_body pb m) < 2 ^ 31" using assms(4) by (simp add: msg_ok_def)
  then obtain b2 where b2: "sb_write al (pb_ser_body pb m) b1 = (int (length (pb_ser_body pb m)), b2)" "sb_inv b2"
    "ToString b2 = ToString b1 @ pb_ser_body pb m"
    using sb_write_ok_stream [OF assms(2) b1(2)] by blast
  show ?thesis
    using b1 b2 hd(3) assms(4) by (simp add: proto_encode_def frame_def msg_ok_def)
qed

lemma decode_frame:
  assumes pb: "proto_ok pb" and inv: "sb_inv b" and m: "msg_ok pb m"
    and b: "ToString b = frame pb m @ rest" and len: "readable_len b < 2 ^ 31"
  shows "\<exists>b'. proto_decode pb b h0 m0 = Some (CS_OK, fst m, snd m, b') \<and> sb_inv b' \<and> ToString b' = rest"
proof -
  let ?h = "pb_ser_head pb (fst m)" and ?p = "pb_ser_body pb (snd m)"
  note hd = msg_ok_head [OF pb m]
  have s: "ToString b = ?h @ ?p @ rest" using b by (simp add: frame_def)
  have avail: "readable_len b = length (?h @ ?p @ rest)" using sbuf.avail_stream [OF inv] s by simp
  have n: "nat (mh_len (fst m)) = length ?p" "0 < mh_len (fst m)" "15 + mh_len (fst m) < 2 ^ 31"
    using m unfolding msg_ok_def by auto
  have short: "length ?h + length ?p < 2 ^ 31" using avail len by simp
  have c: "c_int (int (readable_len b)) = int (readable_len b)" using len by simp
  have head: "raw_read_buffer b PROTO_MSG_HEAD_LEN = ?h"
    using sbuf.frame_head(1) [OF inv s] hd(2) short by simp
  have body: "drop PROTO_MSG_HEAD_LEN (raw_read_buffer b (PROTO_MSG_HEAD_LEN + length ?p)) = ?p"
    using sbuf.frame_head_body(1) [OF inv s short] hd(2) by simp
  have fin: "ToString (skip_bytes (PROTO_MSG_HEAD_LEN + length ?p) b) = rest"
    "sb_inv (skip_bytes (PROTO_MSG_HEAD_LEN + length ?p) b)"
    using sbuf.frame_head_body(2,3) [OF inv s short] hd(2) by simp_all
  have "PROTO_MSG_HEAD_LEN \<le> readable_len b" using avail hd(2) by simp
  moreover have "int PROTO_MSG_HEAD_LEN + mh_len (fst m) \<le> int (readable_len b)"
    using avail hd(2) n(1,2) by simp
  ultimately show ?thesis
    using n fin msg_ok_body [OF pb] unfolding proto_decode_def head hd(1) c
    using body by (simp add: PROTO_MSG_HEAD_LEN_def)
qed

lemma decode_short:
  assumes "readable_len b < PROTO_MSG_HEAD_LEN"
  shows "proto_decode pb b h0 m0 = Some (CS_PAUSE, h0, m0, b)"
  using assms by (simp add: proto_decode_def)

text \<open>A proper prefix of a frame is not enough, and the decoder waits without consuming it.\<close>

lemma decode_prefix:
  assumes pb: "proto_ok pb" and inv: "sb_inv b" and m: "msg_ok pb m"
    and b: "frame pb m = ToString b @ suff" and suff: "suff \<noteq> []"
  shows "\<exists>h. proto_decode pb b h0 m0 = Some (CS_PAUSE, h, m0, b)"
proof (cases "readable_len b < PROTO_MSG_HEAD_LEN")
  case True
  then show ?thesis by (simp add: decode_short)
next
  case False
  let ?h = "pb_ser_head pb (fst m)" and ?p = "pb_ser_body pb (snd m)"
  note hd = msg_ok_head [OF pb m]
  have fr: "?h @ ?p = ToString b @ suff" using b by (simp add: frame_def)
  have av: "readable_len b = length (ToString b)" using sbuf.avail_stream [OF inv] .
  have "take PROTO_MSG_HEAD_LEN (ToString b) = ?h"
    using arg_cong [OF fr, of "take PROTO_MSG_HEAD_LEN"] hd(2) False av by simp
  then have head: "raw_read_buffer b PROTO_MSG_HEAD_LEN = ?h"
    using sbuf.peek_stream [OF inv] False by simp
  have len: "readable_len b < PROTO_MSG_HEAD_LEN + length ?p"
  proof -
    have "0 < length suff" using suff by simp
    moreover have "length ?h + length ?p = length (ToString b) + length suff"
      using fr by (metis length_append)
    ultimately show ?thesis using av hd(2) by linarith
  qed
  have n: "mh_len (fst m) = int (length ?p)" "0 < mh_len (fst m)" "15 + mh_len (fst m) < 2 ^ 31"
    using m unfolding msg_ok_def by auto
  have c: "c_int (int (readable_len b)) = int (readable_len b)"
    using len n(1,3) unfolding PROTO_MSG_HEAD_LEN_def by (intro c_int_id) linarith+
  show ?thesis
    using n len False unfolding proto_decode_def head hd(1) c by (simp add: PROTO_MSG_HEAD_LEN_def)
qed

section \<open>The reading loop over a buffer\<close>

text \<open>
  \<open>Network::process_tcp_msg\<close> calls the decoder until it does not answer \<open>OK\<close>; this is that loop over
  the codec alone: the messages in order, the status that ended it, the buffer.
\<close>

fun decode_all ::
  "nat \<Rightarrow> proto_lib \<Rightarrow> socket_buffer \<Rightarrow> ((msg_head \<times> msg_body) list \<times> codec_status \<times> socket_buffer) option" where
  "decode_all 0 pb b = None"
| "decode_all (Suc fuel) pb b =
     do {
       (st, head, body, b) \<leftarrow> proto_decode pb b empty_head empty_body;
       if st = CS_OK
       then do { (ms, st, b) \<leftarrow> decode_all fuel pb b; Some ((head, body) # ms, st, b) }
       else Some ([], st, b)
     }"

lemma decode_all_frames:
  assumes "proto_ok pb" and "\<forall>m \<in> set ms. msg_ok pb m" and "sb_inv b"
    and "ToString b = concat (map (frame pb) ms) @ part" and "readable_len b < 2 ^ 31"
    and "part \<noteq> [] \<longrightarrow> (\<exists>m suff. msg_ok pb m \<and> frame pb m = part @ suff \<and> suff \<noteq> [])"
  shows "\<exists>b'. decode_all (Suc (length ms)) pb b = Some (ms, CS_PAUSE, b') \<and> sb_inv b' \<and> ToString b' = part"
  using assms
proof (induction ms arbitrary: b)
  case Nil
  have s: "ToString b = part" using Nil.prems(4) by simp
  have "\<exists>h. proto_decode pb b empty_head empty_body = Some (CS_PAUSE, h, empty_body, b)"
  proof (cases "part = []")
    case True
    then have "readable_len b = 0" using sbuf.avail_stream [OF Nil.prems(3)] s by simp
    then show ?thesis by (simp add: decode_short PROTO_MSG_HEAD_LEN_def)
  next
    case False
    then obtain m suff where "msg_ok pb m" "frame pb m = ToString b @ suff" "suff \<noteq> []"
      using Nil.prems(6) s by blast
    then show ?thesis using decode_prefix [OF Nil.prems(1,3)] by blast
  qed
  then show ?case using Nil.prems(3) s by auto
next
  case (Cons m ms)
  have m: "msg_ok pb m" using Cons.prems(2) by simp
  have s: "ToString b = frame pb m @ concat (map (frame pb) ms) @ part" using Cons.prems(4) by simp
  obtain b1 where b1: "proto_decode pb b empty_head empty_body = Some (CS_OK, fst m, snd m, b1)"
    "sb_inv b1" "ToString b1 = concat (map (frame pb) ms) @ part"
    using decode_frame [OF Cons.prems(1,3) m s Cons.prems(5)] by blast
  have "readable_len b1 < 2 ^ 31"
  proof -
    have "readable_len b1 = length (ToString b1)" "readable_len b = length (ToString b)"
      using Cons.prems(3) b1(2) sbuf.avail_stream by blast+
    then have "readable_len b1 \<le> readable_len b" using b1(3) s by simp
    then show ?thesis using Cons.prems(5) by linarith
  qed
  then obtain b2 where "decode_all (Suc (length ms)) pb b1 = Some (ms, CS_PAUSE, b2)" "sb_inv b2" "ToString b2 = part"
    using Cons.IH [OF Cons.prems(1) _ b1(2,3)] Cons.prems(2,6) by auto
  then show ?case using b1(1) by (simp del: decode_all.simps(2) add: decode_all.simps(2) [of "Suc (length ms)"])
qed

section \<open>A runtime for the examples\<close>

text \<open>
  The proto3 wire format of the head (tag byte, four little-endian bytes, zero fields left out),
  and a self-delimiting text encoding of the body. A tag byte 0 is no field.
\<close>

definition le32 :: "nat \<Rightarrow> string" where
  "le32 v = map (\<lambda>i. char_of (v div 256 ^ i mod 256)) [0..<4]"

definition of_le32 :: "string \<Rightarrow> nat" where
  "of_le32 s = of_char (s ! 0) + 256 * (of_char (s ! 1) + 256 * (of_char (s ! 2) + 256 * of_char (s ! 3)))"

definition wire_field :: "char \<Rightarrow> nat \<Rightarrow> string" where
  "wire_field tag v = (if v = 0 then [] else tag # le32 v)"

definition wire_ser_head :: "msg_head \<Rightarrow> string" where
  "wire_ser_head h = wire_field (CHR 0x0D) (mh_cmd h) @ wire_field (CHR 0x15) (mh_seq h)
     @ wire_field (CHR 0x1D) (nat (mh_len h mod 2 ^ 32))"

fun wire_parse :: "nat \<Rightarrow> string \<Rightarrow> msg_head \<Rightarrow> bool \<times> msg_head" where
  "wire_parse 0 s h = (s = [], h)"
| "wire_parse (Suc fuel) s h =
     (if s = [] then (True, h)
      else if length s < 5 then (False, h)
      else
        let v = of_le32 (tl s); s' = drop 5 s
        in if hd s = CHR 0x0D then wire_parse fuel s' (h\<lparr>mh_cmd := v\<rparr>)
           else if hd s = CHR 0x15 then wire_parse fuel s' (h\<lparr>mh_seq := v\<rparr>)
           else if hd s = CHR 0x1D then wire_parse fuel s' (h\<lparr>mh_len := c_int (int v)\<rparr>)
           else (False, h))"

definition wire_parse_head :: "string \<Rightarrow> bool \<times> msg_head" where
  "wire_parse_head s = wire_parse 3 s empty_head"

definition esc :: "string \<Rightarrow> string" where
  "esc s = concat (map (\<lambda>c. [CHR ''1'', c]) s) @ [CHR ''0'']"

fun unesc :: "string \<Rightarrow> string \<times> string" where
  "unesc (c # d # s) = (if c = CHR ''1'' then (let (a, r) = unesc s in (d # a, r)) else ([], d # s))"
| "unesc [c] = ([], [])"
| "unesc [] = ([], [])"

definition wire_ser_type :: "msg_type \<Rightarrow> string" where
  "wire_ser_type t =
     (case t of
        No_target \<Rightarrow> ''n''
      | Req_target i r \<Rightarrow> ''q'' @ esc (dec_nat i) @ esc r
      | Rsp_result c m \<Rightarrow> (if c < 0 then ''m'' else ''p'') @ esc (dec_nat (nat \<bar>c\<bar>)) @ esc m)"

definition wire_ser_body :: "msg_body \<Rightarrow> string" where
  "wire_ser_body m = esc (mb_data m) @ esc (mb_add_on m) @ esc (mb_trace_id m) @ wire_ser_type (mb_type m)"

definition wire_parse_type :: "string \<Rightarrow> msg_type" where
  "wire_parse_type s =
     (let (a, r) = unesc (tl s); (b, r) = unesc r; n = digits_val 0 a
      in if hd s = CHR ''q'' then Req_target n b
         else if hd s = CHR ''m'' then Rsp_result (- int n) b
         else if hd s = CHR ''p'' then Rsp_result (int n) b else No_target)"

definition wire_parse_body :: "string \<Rightarrow> bool \<times> msg_body" where
  "wire_parse_body s =
     (let (d, s) = unesc s; (a, s) = unesc s; (t, s) = unesc s
      in (True, \<lparr>mb_type = wire_parse_type s, mb_data = d, mb_add_on = a, mb_trace_id = t\<rparr>))"

definition wire_lib :: proto_lib where
  "wire_lib = \<lparr>pb_ser_head = wire_ser_head, pb_parse_head = wire_parse_head,
     pb_ser_body = wire_ser_body, pb_parse_body = wire_parse_body, pb_tail = (\<lambda>_. CHR 0x00)\<rparr>"

lemma length_le32 [simp]: "length (le32 v) = 4"
  by (simp add: le32_def)

lemma of_le32_le32: "v < 2 ^ 32 \<Longrightarrow> of_le32 (le32 v @ r) = v"
proof -
  assume v: "v < 2 ^ 32"
  have "v div 16777216 < 256" using v by simp
  moreover have "v div 65536 mod 256 + 256 * (v div 16777216) = v div 65536"
    using mod_mult_div_eq [of "v div 65536" 256] by (simp add: div_mult2_eq [of v 65536 256, simplified])
  moreover have "v div 256 mod 256 + 256 * (v div 65536) = v div 256"
    using mod_mult_div_eq [of "v div 256" 256] by (simp add: div_mult2_eq [of v 256 256, simplified])
  moreover have "v mod 256 + 256 * (v div 256) = v" by simp
  ultimately have "v mod 256 + 256 * (v div 256 mod 256 + 256 * (v div 65536 mod 256 + 256 * (v div 16777216 mod 256))) = v"
    by (simp only: mod_less)
  moreover have "v div 16777216 mod 256 = v div 16777216" using v by simp
  ultimately show ?thesis by (simp add: of_le32_def le32_def nth_append upt_rec)
qed

lemma unesc_esc: "unesc (esc s @ r) = (s, r)"
proof (induction s)
  case Nil
  then show ?case by (cases r) (simp_all add: esc_def)
next
  case (Cons c s)
  then show ?case by (simp add: esc_def)
qed

lemma wire_body: "wire_parse_body (wire_ser_body m) = (True, m)"
proof -
  have "wire_parse_type (wire_ser_type t) = t" for t
    using unesc_esc [of _ "[]"]
    by (cases t) (auto simp: wire_parse_type_def wire_ser_type_def unesc_esc digits_val_dec_nat)
  then show ?thesis by (simp add: wire_parse_body_def wire_ser_body_def unesc_esc)
qed

lemma wire_step:
  "v < 2 ^ 32 \<Longrightarrow> v \<noteq> 0 \<Longrightarrow> wire_parse (Suc k) (wire_field (CHR 0x0D) v @ s) h = wire_parse k s (h\<lparr>mh_cmd := v\<rparr>)"
  "v < 2 ^ 32 \<Longrightarrow> v \<noteq> 0 \<Longrightarrow> wire_parse (Suc k) (wire_field (CHR 0x15) v @ s) h = wire_parse k s (h\<lparr>mh_seq := v\<rparr>)"
  "v < 2 ^ 32 \<Longrightarrow> v \<noteq> 0 \<Longrightarrow> wire_parse (Suc k) (wire_field (CHR 0x1D) v @ s) h = wire_parse k s (h\<lparr>mh_len := c_int (int v)\<rparr>)"
  by (simp_all add: wire_field_def of_le32_le32)

lemma wire_parse_Nil: "wire_parse k [] h = (True, h)"
  by (cases k) simp_all

lemma wire_len: "- (2 ^ 31) \<le> l \<Longrightarrow> l < 2 ^ 31 \<Longrightarrow> c_int (int (nat (l mod 2 ^ 32))) = l \<and> nat (l mod 2 ^ 32) < 2 ^ 32
    \<and> (nat (l mod 2 ^ 32) = 0 \<longleftrightarrow> l = 0)"
proof -
  assume l: "- (2 ^ 31) \<le> l" "l < 2 ^ 31"
  have "l mod 2 ^ 32 = (if l < 0 then l + 2 ^ 32 else l)"
    using l mod_pos_pos_trivial [of "l + 2 ^ 32" "2 ^ 32"] by simp
  moreover have "c_int (l + 2 ^ 32) = c_int l"
  proof -
    have "l + 2 ^ 32 + 2 ^ 31 = l + 2 ^ 31 + 2 ^ 32" by simp
    then show ?thesis unfolding c_int_def by (simp only: mod_add_self2)
  qed
  ultimately show ?thesis using l by (auto simp: nat_eq_iff nat_less_iff)
qed

lemma wire_field_length: "length (wire_field t v) = 5 * of_bool (v \<noteq> 0)"
  by (simp add: wire_field_def)

lemma wire_skip: "wire_field t 0 = []"
  by (simp add: wire_field_def)

lemma wire_last: "v < 2 ^ 32 \<Longrightarrow> v \<noteq> 0 \<Longrightarrow>
    wire_parse (Suc k) (wire_field (CHR 0x1D) v) h = (True, h\<lparr>mh_len := c_int (int v)\<rparr>)"
  using wire_step(3) [of v k "[]" h] by (simp add: wire_parse_Nil del: wire_parse.simps)

lemma wire_head:
  assumes "head_ok h"
  shows "wire_parse_head (wire_ser_head h) = (True, h)"
    and "length (wire_ser_head h) = 5 * (of_bool (mh_cmd h \<noteq> 0) + of_bool (mh_seq h \<noteq> 0) + of_bool (mh_len h \<noteq> 0))"
proof -
  note l = wire_len [of "mh_len h"]
  have r: "mh_cmd h < 2 ^ 32" "mh_seq h < 2 ^ 32" "- (2 ^ 31) \<le> mh_len h" "mh_len h < 2 ^ 31"
    using assms unfolding head_ok_def by simp_all
  let ?l = "nat (mh_len h mod 2 ^ 32)"
  have L: "c_int (int ?l) = mh_len h" "?l < 2 ^ 32" "?l = 0 \<longleftrightarrow> mh_len h = 0" using l r by simp_all
  have len: "wire_parse (Suc k) (wire_field (CHR 0x1D) ?l) g = (True, g\<lparr>mh_len := if ?l = 0 then mh_len g else mh_len h\<rparr>)" for k g
    using wire_last [OF L(2)] L(1) wire_parse_Nil by (cases "?l = 0") (simp_all add: wire_skip del: wire_parse.simps)
  have sq: "wire_parse (Suc (Suc k)) (wire_field (CHR 0x15) (mh_seq h) @ wire_field (CHR 0x1D) ?l) g
      = (True, g\<lparr>mh_seq := if mh_seq h = 0 then mh_seq g else mh_seq h, mh_len := if ?l = 0 then mh_len g else mh_len h\<rparr>)" for k g
    using wire_step(2) [OF r(2)] len by (cases "mh_seq h = 0") (simp_all add: wire_skip del: wire_parse.simps)
  have "wire_parse 3 (wire_ser_head h) empty_head = (True, h)"
    using wire_step(1) [OF r(1), of 2] sq [of 0] sq [of 1] L(3) unfolding wire_ser_head_def
    by (cases "mh_cmd h = 0") (simp_all add: wire_skip numeral_eq_Suc empty_head_def del: wire_parse.simps)
  then show "wire_parse_head (wire_ser_head h) = (True, h)" by (simp add: wire_parse_head_def)
  show "length (wire_ser_head h) = 5 * (of_bool (mh_cmd h \<noteq> 0) + of_bool (mh_seq h \<noteq> 0) + of_bool (mh_len h \<noteq> 0))"
    using L(3) by (simp add: wire_ser_head_def wire_field_length)
qed

lemma wire_lib_ok: "proto_ok wire_lib"
  using wire_head wire_body by (simp add: proto_ok_def wire_lib_def)

section \<open>Properties\<close>

text \<open>
  C12. Round trip: a message with a body, encoded behind whatever the send buffer holds, is appended
  as one frame, and the peer's decoder, given a buffer that starts with that frame, returns exactly
  that head and body and leaves exactly the bytes behind the frame.
\<close>

theorem proto_encode_decode:
  assumes "proto_ok pb" and "alloc_ok al" and "sb_inv b" and "msg_ok pb (h, m)"
    and "sb_inv c" and "ToString c = frame pb (h, m) @ rest" and "readable_len c < 2 ^ 31"
  shows "(\<exists>b'. proto_encode pb al h m b = (CS_OK, b') \<and> sb_inv b' \<and> ToString b' = ToString b @ frame pb (h, m))
    \<and> (\<exists>c'. proto_decode pb c h0 m0 = Some (CS_OK, h, m, c') \<and> sb_inv c' \<and> ToString c' = rest)"
  using encode_frame [OF assms(1-4)] decode_frame [OF assms(1,5,4,6,7)] by simp

definition hello :: "msg_head \<times> msg_body" where
  "hello = (\<lparr>mh_cmd = 11, mh_seq = 7, mh_len = 10\<rparr>, empty_body\<lparr>mb_data := ''abc''\<rparr>)"

definition hello_buffer :: socket_buffer where
  "hello_buffer = snd (sb_write zero_alloc (frame wire_lib hello) new_buffer)"

lemma hello_ok: "msg_ok wire_lib hello"
  by (simp add: msg_ok_def hello_def head_ok_def wire_lib_def wire_ser_body_def wire_ser_type_def esc_def empty_body_def)

lemma new_buffer_empty: "sb_inv new_buffer \<and> ToString new_buffer = []"
  by (simp add: new_buffer_def sb_inv_def ToString_def readable_len_def is_readable_def)

lemma hello_frame_length: "length (frame wire_lib hello) = 25"
  by (simp add: frame_def hello_def wire_lib_def wire_ser_body_def wire_ser_type_def esc_def empty_body_def
      wire_ser_head_def wire_field_def)

lemma hello_buffer_stream: "sb_inv hello_buffer \<and> ToString hello_buffer = frame wire_lib hello"
  using sb_write_ok_stream [OF alloc_ok_zero, of new_buffer "frame wire_lib hello"] new_buffer_empty
    hello_frame_length by (auto simp: hello_buffer_def)

lemma hello_buffer_len: "readable_len hello_buffer = 25"
  using hello_buffer_stream sbuf.avail_stream hello_frame_length by metis

theorem proto_encode_decode_witness:
  "\<exists>c'. proto_decode wire_lib hello_buffer empty_head empty_body = Some (CS_OK, fst hello, snd hello, c') \<and> sb_inv c' \<and> ToString c' = []"
  using proto_encode_decode [OF wire_lib_ok alloc_ok_zero, of new_buffer "fst hello" "snd hello" hello_buffer "[]"]
    new_buffer_empty hello_ok hello_buffer_stream hello_buffer_len by simp

text \<open>
  C1. Framing over a byte stream: whatever pieces the kernel delivered, a receive buffer that holds
  some whole messages and then a proper part of another one yields exactly those messages in order,
  then asks for more data, and keeps exactly the partial frame.
\<close>

theorem proto_stream_reassembly:
  assumes "proto_ok pb" and "\<forall>m \<in> set ms. msg_ok pb m" and "sb_inv b"
    and "ToString b = concat (map (frame pb) ms) @ part" and "readable_len b < 2 ^ 31"
    and "part \<noteq> [] \<longrightarrow> (\<exists>m suff. msg_ok pb m \<and> frame pb m = part @ suff \<and> suff \<noteq> [])"
  shows "\<exists>b'. decode_all (Suc (length ms)) pb b = Some (ms, CS_PAUSE, b') \<and> sb_inv b' \<and> ToString b' = part"
  using assms by (rule decode_all_frames)

theorem proto_stream_reassembly_witness:
  "\<exists>b'. decode_all (Suc (Suc 0)) wire_lib hello_buffer = Some ([hello], CS_PAUSE, b') \<and> sb_inv b' \<and> ToString b' = []"
  using proto_stream_reassembly [OF wire_lib_ok, of "[hello]" hello_buffer "[]"] hello_ok hello_buffer_stream
    hello_buffer_len by (simp del: decode_all.simps)

text \<open>
  The decoder's contract on arbitrary input: it consumes bytes only when it answers \<open>OK\<close>, and then
  exactly the head and the length the head announces; \<open>PAUSE\<close> and \<open>ERR\<close> leave the buffer alone. It
  has undefined behaviour exactly when the announced length overflows the sum with the head's.
\<close>

lemma proto_decode_consumes_only_on_ok:
  assumes "sb_inv b" and "readable_len b < 2 ^ 31"
  shows "case proto_decode pb b h0 m0 of
      None \<Rightarrow> 2 ^ 31 \<le> 15 + mh_len (snd (pb_parse_head pb (raw_read_buffer b 15)))
    | Some (st, h, m, b') \<Rightarrow>
        sb_inv b' \<and> st \<in> {CS_OK, CS_PAUSE, CS_ERR}
        \<and> ToString b' = (if st = CS_OK then drop (nat (15 + max 0 (mh_len h))) (ToString b) else ToString b)
        \<and> (st = CS_OK \<longrightarrow> nat (15 + max 0 (mh_len h)) \<le> readable_len b)"
proof -
  have c: "c_int (int (readable_len b)) = int (readable_len b)" using assms(2) by simp
  have skip: "sb_inv (skip_bytes n b) \<and> ToString (skip_bytes n b) = drop n (ToString b)" if "n \<le> readable_len b" for n
    using that sbuf.skip_inv [OF assms(1)] sbuf.skip_stream [OF assms(1)] assms(2) by simp
  obtain ret h where p: "pb_parse_head pb (raw_read_buffer b 15) = (ret, h)" by fastforce
  obtain ret' m where q: "pb_parse_body pb (drop 15 (raw_read_buffer b (15 + nat (mh_len h)))) = (ret', m)" by fastforce
  show ?thesis
    using assms(1) skip [of 15] skip [of "15 + nat (mh_len h)"]
    unfolding proto_decode_def c PROTO_MSG_HEAD_LEN_def
    by (cases "readable_len b < 15"; cases ret; cases ret'; cases "mh_len h \<le> 0") (auto simp: p q nat_add_distrib)
qed

definition heartbeat :: msg_head where
  "heartbeat = \<lparr>mh_cmd = 1, mh_seq = 2, mh_len = 0\<rparr>"

text \<open>
  A message without a body, such as a heartbeat, does not survive the trip: its head is shorter
  than the 15 bytes the encoder copies, the receiver parses the padding as a field and rejects the
  message, although both sides have a branch for the empty body.
\<close>

lemma empty_body_is_rejected:
  "\<exists>b b'. proto_encode wire_lib zero_alloc heartbeat empty_body new_buffer = (CS_OK, b) \<and> length (ToString b) = 15
     \<and> proto_decode wire_lib b empty_head empty_body = Some (CS_ERR, heartbeat, empty_body, b')"
proof -
  have hb: "head_bytes wire_lib heartbeat = wire_ser_head heartbeat @ replicate 5 (CHR 0x00)"
  proof -
    have ser: "pb_ser_head wire_lib heartbeat = wire_ser_head heartbeat" by (simp add: wire_lib_def)
    have tail: "map (pb_tail wire_lib) [0..<15] = replicate 15 (CHR 0x00)"
      by (rule nth_equalityI) (simp_all add: wire_lib_def)
    have len: "length (wire_ser_head heartbeat) = 10"
      by (simp add: wire_ser_head_def heartbeat_def wire_field_length)
    have "take 5 (CHR 0x00 # replicate 15 (CHR 0x00)) = replicate 5 (CHR 0x00)"
      by (rule nth_equalityI) (simp_all add: nth_Cons split: nat.split)
    then show ?thesis unfolding head_bytes_def ser PROTO_MSG_HEAD_LEN_def tail by (simp add: len)
  qed
  then have len: "length (head_bytes wire_lib heartbeat) = 15"
    by (simp add: heartbeat_def wire_ser_head_def wire_field_def)
  obtain b where b: "sb_write zero_alloc (head_bytes wire_lib heartbeat) new_buffer = (15, b)" "sb_inv b"
    "ToString b = head_bytes wire_lib heartbeat"
    using sb_write_ok_stream [OF alloc_ok_zero, of new_buffer "head_bytes wire_lib heartbeat"] new_buffer_empty len by auto
  have e: "proto_encode wire_lib zero_alloc heartbeat empty_body new_buffer = (CS_OK, b)"
    using b(1) by (simp add: proto_encode_def PROTO_MSG_HEAD_LEN_def heartbeat_def)
  have av: "readable_len b = 15" using sbuf.avail_stream [OF b(2)] b(3) len by simp
  then have raw: "raw_read_buffer b PROTO_MSG_HEAD_LEN = head_bytes wire_lib heartbeat"
    using sbuf.peek_stream [OF b(2), of 15] b(3) len by (simp add: PROTO_MSG_HEAD_LEN_def)
  have "pb_parse_head wire_lib (head_bytes wire_lib heartbeat) = (False, heartbeat)"
  proof -
    have s: "head_bytes wire_lib heartbeat
        = wire_field (CHR 0x0D) 1 @ wire_field (CHR 0x15) 2 @ replicate 5 (CHR 0x00)"
      unfolding hb by (simp add: wire_ser_head_def heartbeat_def wire_skip)
    have z: "wire_parse (Suc 0) (replicate 5 (CHR 0x00)) g = (False, g)" for g
      by (simp add: replicate_Suc [of 4, simplified])
    have "wire_parse (Suc (Suc (Suc 0))) (head_bytes wire_lib heartbeat) empty_head = (False, heartbeat)"
      unfolding s using wire_step(1) [of 1 "Suc (Suc 0)"] wire_step(2) [of 2 "Suc 0"] z
      by (simp add: heartbeat_def empty_head_def del: wire_parse.simps)
    then show ?thesis by (simp add: wire_lib_def wire_parse_head_def numeral_3_eq_3)
  qed
  then have "proto_decode wire_lib b empty_head empty_body = Some (CS_ERR, heartbeat, empty_body, b)"
    using av unfolding proto_decode_def raw by (simp add: PROTO_MSG_HEAD_LEN_def)
  then show ?thesis using e b(3) len by auto
qed

end
