(* ===== verification/Codec_Http.thy ===== *)
theory Codec_Http
  imports Complex_Main Codec_Proto
begin

text \<open>
  The HTTP codec, \<open>src/core/codec/codec_http.cpp\<close>. The parser \<open>http_parser\<close> is third-party C code: what
  it does with the bytes of a buffer is the list of callbacks it makes, the number of bytes it
  consumed and its error flag (\<open>hl_execute\<close>), and the callbacks are the definitions below. Its URL
  splitter, method names, the gzip functions of Crypto++ and \<open>atof\<close> are parameters too.
\<close>

section \<open>Messages, the codec, the libraries\<close>

definition HTTP_REQUEST :: int where "HTTP_REQUEST = 0"
definition HTTP_RESPONSE :: int where "HTTP_RESPONSE = 1"

record http_msg =
  hm_type :: int
  hm_http_major :: int
  hm_http_minor :: int
  hm_content_length :: int
  hm_method :: int
  hm_status_code :: int
  hm_encoding :: int
  hm_url :: string
  hm_headers :: "(string \<times> string) list"
  hm_body :: string
  hm_params :: "(string \<times> string) list"
  hm_keep_alive :: real
  hm_path :: string
  hm_is_decoding :: bool

definition empty_http :: http_msg where
  "empty_http = \<lparr>hm_type = 0, hm_http_major = 0, hm_http_minor = 0, hm_content_length = 0, hm_method = 0,
     hm_status_code = 0, hm_encoding = 0, hm_url = [], hm_headers = [], hm_body = [], hm_params = [],
     hm_keep_alive = 0, hm_path = [], hm_is_decoding = False\<rparr>"

record codec_http =
  ch_http_major :: int
  ch_http_minor :: int
  ch_encode_cnt :: int
  ch_decode_cnt :: int
  ch_is_client :: bool
  ch_keep_alive :: real
  ch_http_headers :: "(string \<times> string) list"

definition new_codec_http :: codec_http where
  "new_codec_http = \<lparr>ch_http_major = 1, ch_http_minor = 1, ch_encode_cnt = 0, ch_decode_cnt = 0,
     ch_is_client = False, ch_keep_alive = - 1, ch_http_headers = []\<rparr>"

text \<open>
  \<open>struct http_parser_url\<close>: offset and length of a field that is present. The offset of the path is
  read by \<open>encode\<close> without looking at \<open>field_set\<close>: \<open>hu_path_off\<close> is whatever it holds.
\<close>

record http_url =
  hu_port :: "nat option"
  hu_host :: "(nat \<times> nat) option"
  hu_path :: "(nat \<times> nat) option"
  hu_query :: "(nat \<times> nat) option"
  hu_path_off :: nat

datatype http_event =
    On_message_begin
  | On_url string
  | On_status int
  | On_header_field string
  | On_header_value string
  | On_headers_complete
  | On_body string
  | On_chunk_header
  | On_chunk_complete
  | On_message_complete (ev_status: int) (ev_method: int) (ev_major: int) (ev_minor: int) (ev_keep_alive: bool)

record http_lib =
  hl_parse_url :: "string \<Rightarrow> http_url option"
  hl_method_str :: "int \<Rightarrow> string"
  hl_execute :: "string \<Rightarrow> http_event list \<times> nat \<times> bool"
  hl_gzip :: "string \<Rightarrow> string option"
  hl_ungzip :: "string \<Rightarrow> string option"
  hl_atof :: "string \<Rightarrow> real"

section \<open>Text helpers\<close>

definition status_table :: "(int \<times> string) list" where
  "status_table =
   [
    (100, ''Continue''), (101, ''Switching Protocols''), (102, ''Processing''), (200, ''OK''),
    (201, ''Created''), (202, ''Accepted''), (203, ''Non-Authoritative Information''),
    (204, ''No Content''), (205, ''Reset Content''), (206, ''Partial Content''),
    (207, ''Multi-Status''), (300, ''Multiple Choices''), (301, ''Moved Permanently''),
    (302, ''Moved Temporarily''), (303, ''See Other''), (304, ''Not Modified''),
    (305, ''Use Proxy''), (307, ''Temporary Redirect''), (400, ''Bad Request''),
    (401, ''Unauthorized''), (402, ''Payment Required''), (403, ''Forbidden''),
    (404, ''Not Found''), (405, ''Method Not Allowed''), (406, ''Not Acceptable''),
    (407, ''Proxy Authentication Required''), (408, ''Request Time-out''), (409, ''Conflict''),
    (410, ''Gone''), (411, ''Length Required''), (412, ''Precondition Failed''),
    (413, ''Request Entity Too Large''), (414, ''Request-URI Too Large''),
    (415, ''Unsupported Media Type''), (416, ''Requested Range Not Satisfiable''),
    (417, ''Expectation Failed''), (418, ''I'' @ [CHR 0x22] @ ''m a teapot''),
    (422, ''Unprocessable Entity''), (423, ''Locked''), (424, ''Failed Dependency''),
    (425, ''Unordered Collection''), (426, ''Upgrade Required''), (500, ''Internal Server Error''),
    (501, ''Not Implemented''), (502, ''Bad Gateway''), (503, ''Service Unavailable''),
    (504, ''Gateway Time-out''), (505, ''HTTP Version not supported''),
    (506, ''Variant Also Negotiates''), (507, ''Insufficient Storage''),
    (509, ''Bandwidth Limit Exceeded''), (510, ''Not Extended'')]"

definition status_string :: "int \<Rightarrow> string option" where
  "status_string code = map_of status_table code"

text \<open>The conversion \<open>%s\<close> of a null pointer prints \<open>(null)\<close>; \<open>%u\<close> and \<open>%x\<close> read 32 bits.\<close>

definition fmt_s :: "string option \<Rightarrow> string" where
  "fmt_s s = (case s of None \<Rightarrow> ''(null)'' | Some s \<Rightarrow> c_str s)"

definition fmt_u :: "int \<Rightarrow> string" where
  "fmt_u i = dec_nat (c_uint i)"

definition hex_char :: "nat \<Rightarrow> char" where
  "hex_char d = (if d < 10 then char_of (48 + d) else char_of (87 + d))"

fun hex_nat :: "nat \<Rightarrow> string" where
  "hex_nat n = (if n < 16 then [hex_char n] else hex_nat (n div 16) @ [hex_char (n mod 16)])"

declare hex_nat.simps [simp del]

definition fmt_x :: "int \<Rightarrow> string" where
  "fmt_x i = hex_nat (c_uint i)"

definition crlf :: string where
  "crlf = [CHR 0x0D, CHR 0x0A]"

section \<open>Encoding\<close>

text \<open>
  \<open>encode\<close> is a sequence of writes into the buffer, each counted in \<open>writed_len\<close>, with two kinds of
  rollback. The sequence is determined by the message; \<open>run_ops\<close> executes it: the flag is \<open>False\<close>
  after a jump to \<open>error\<close>. The index arithmetic is on \<open>size_t\<close>.
\<close>

datatype write_op = Op_printf string | Op_write string | Op_rollback bool | Op_error

fun run_ops :: "allocator \<Rightarrow> write_op list \<Rightarrow> socket_buffer \<Rightarrow> int \<Rightarrow> (bool \<times> socket_buffer \<times> int) option" where
  "run_ops al [] sb n = Some (True, sb, n)"
| "run_ops al (Op_printf s # ops) sb n =
     do { (sz, sb) \<leftarrow> sb_printf al s sb; if sz < 0 then Some (False, sb, n) else run_ops al ops sb (n + sz) }"
| "run_ops al (Op_write s # ops) sb n =
     (let (sz, sb) = sb_write al s sb in if sz < 0 then Some (False, sb, n) else run_ops al ops sb (n + sz))"
| "run_ops al (Op_rollback reset # ops) sb n =
     run_ops al ops (set_write_index (c_ulong (int (m_write_idx sb) - n)) sb) (if reset then 0 else n)"
| "run_ops al (Op_error # ops) sb n = Some (False, sb, n)"

definition substr :: "string \<Rightarrow> nat \<times> nat \<Rightarrow> string" where
  "substr s r = take (snd r) (drop (fst r) s)"

definition request_line_ops :: "http_lib \<Rightarrow> http_msg \<Rightarrow> write_op list" where
  "request_line_ops hl msg =
     (case hl_parse_url hl (hm_url msg) of
        None \<Rightarrow> [Op_error]
      | Some u \<Rightarrow>
          let port = (case hu_port u of Some p \<Rightarrow> p | None \<Rightarrow> 80);
              host = (case hu_host u of Some r \<Rightarrow> substr (hm_url msg) r | None \<Rightarrow> []);
              host = (case hu_path u of Some r \<Rightarrow> substr (hm_url msg) r | None \<Rightarrow> host);
              schema = takeWhile (\<lambda>c. c \<noteq> CHR '':'') (hm_url msg);
              port = (if schema = ''https'' then 443 else port)
          in if length (hm_url msg) \<le> hu_path_off u then [Op_error]
             else [Op_printf (hl_method_str hl (hm_method msg) @ '' '' @ c_str (drop (hu_path_off u) (hm_url msg))
                     @ '' HTTP/'' @ fmt_u (hm_http_major msg) @ ''.'' @ fmt_u (hm_http_minor msg) @ crlf),
                   Op_printf (''Host: '' @ c_str host @ '':'' @ dec_nat port @ crlf)])"

definition status_line_ops :: "codec_http \<Rightarrow> http_msg \<Rightarrow> write_op list" where
  "status_line_ops c msg =
     (if hm_status_code msg = 0 then [Op_error]
      else [Op_printf (''HTTP/'' @ fmt_u (ch_http_major c) @ ''.'' @ fmt_u (ch_http_minor c) @ '' ''
              @ fmt_u (hm_status_code msg) @ '' '' @ fmt_s (status_string (hm_status_code msg)) @ crlf)])"

text \<open>The headers the codec itself adds to a response, and the copy of the message's headers.\<close>

definition response_headers :: "codec_http \<Rightarrow> http_msg \<Rightarrow> (string \<times> string) list" where
  "response_headers c msg =
     (let hs = ch_http_headers c
      in if hm_type msg = HTTP_RESPONSE then
           let hs = (if ch_is_client c then hs
                     else uset hs ''Connection'' (if ch_keep_alive c = 0 then ''close'' else ''keep-alive''))
           in uset (uset hs ''Allow'' ''POST,GET'') ''Server'' ''KimHttp''
         else hs)"

fun copy_headers :: "(string \<times> string) list \<Rightarrow> (string \<times> string) list \<Rightarrow> (string \<times> string) list" where
  "copy_headers [] hs = hs"
| "copy_headers ((k, v) # src) hs =
     copy_headers src
       (if k = ''Host'' \<or> k = ''Content-Length'' then hs
        else if map_of hs k \<noteq> None then uset hs k v else hs)"

definition header_ops :: "(string \<times> string) list \<Rightarrow> write_op list" where
  "header_ops hs = map (\<lambda>(k, v). Op_printf (c_str k @ '': '' @ c_str v @ crlf)) hs"

text \<open>\<open>if (gzip(...)) goto error\<close>: compression that works is treated as the error.\<close>

definition body_ops :: "http_lib \<Rightarrow> (string \<times> string) list \<Rightarrow> http_msg \<Rightarrow> write_op list" where
  "body_ops hl hs msg =
     (let is_gzip = ((''Content-Encoding'', ''gzip'') \<in> set hs);
          is_chunked = ((''Transfer-Encoding'', ''chunked'') \<in> set hs)
      in if hm_body msg \<noteq> [] then
           if is_gzip \<and> hl_gzip hl (hm_body msg) \<noteq> None then [Op_error]
           else
             let data = hm_body msg
             in if is_chunked then
                  (if hm_encoding msg = 0 then [Op_printf crlf] else [Op_rollback True])
                  @ [Op_printf (fmt_x (int (length data)) @ crlf), Op_write data]
                  @ [Op_printf (crlf @ ''0'' @ crlf @ crlf)]
                else [Op_printf (''Content-Length: '' @ fmt_u (int (length data)) @ crlf @ crlf), Op_write data]
         else if is_chunked then
           (if hm_encoding msg = 0 then [Op_printf crlf] else [Op_rollback False])
           @ [Op_printf (''0'' @ crlf @ crlf)]
         else [Op_printf (''Content-Length: 0'' @ crlf @ crlf)])"

definition http_encode ::
  "http_lib \<Rightarrow> allocator \<Rightarrow> http_msg \<Rightarrow> codec_http \<Rightarrow> socket_buffer
     \<Rightarrow> (codec_status \<times> codec_http \<times> socket_buffer) option" where
  "http_encode hl al msg c sb =
     (let cnt = ch_encode_cnt c + 1;
          c = c\<lparr>ch_encode_cnt := cnt, ch_is_client := (cnt > ch_decode_cnt c \<or> ch_is_client c)\<rparr>;
          cleared = c\<lparr>ch_http_headers := []\<rparr>
      in if hm_http_major msg = 0 \<or> (hm_type msg = HTTP_REQUEST \<and> hm_url msg = [])
         then Some (CS_ERR, cleared, sb)
         else
           let first = (if hm_type msg = HTTP_REQUEST then request_line_ops hl msg
                        else if hm_type msg = HTTP_RESPONSE then status_line_ops c msg else []);
               hs = copy_headers (hm_headers msg) (response_headers c msg);
               ops = first @ header_ops hs @ body_ops hl hs msg
           in do {
             (ok, sb, n) \<leftarrow> run_ops al ops sb 0;
             let (sz, sb) = (if ok then write_byte al (CHR 0x00) sb else (0, sb));
             if ok \<and> 0 \<le> sz
             then Some (CS_OK, cleared, set_write_index (m_write_idx sb - nat sz) sb)
             else Some (CS_ERR, cleared, set_write_index (c_ulong (int (m_write_idx sb) - n)) sb)
           })"

section \<open>Decoding\<close>

text \<open>\<open>decode_params\<close>, character by character.\<close>

fun params_loop ::
  "string \<Rightarrow> bool \<Rightarrow> string \<Rightarrow> string \<Rightarrow> (string \<times> string) list \<Rightarrow> (string \<times> string) list" where
  "params_loop [] is_value key val ps = (if key \<noteq> [] then uset ps key val else ps)"
| "params_loop (c # s) is_value key val ps =
     (if c = CHR ''&'' then params_loop s False [] [] (if key \<noteq> [] then uset ps key val else ps)
      else if c = CHR ''='' then params_loop s True key val ps
      else if is_value then params_loop s is_value key (val @ [c]) ps
      else params_loop s is_value (key @ [c]) val ps)"

definition decode_params :: "string \<Rightarrow> (string \<times> string) list" where
  "decode_params s = params_loop s False [] [] []"

definition merge_params :: "(string \<times> string) list \<Rightarrow> (string \<times> string) list \<Rightarrow> (string \<times> string) list" where
  "merge_params ps m = foldl (\<lambda>m kv. uset m (fst kv) (snd kv)) m ps"

definition on_url :: "http_lib \<Rightarrow> string \<Rightarrow> http_msg \<Rightarrow> http_msg" where
  "on_url hl url msg =
     (let msg = msg\<lparr>hm_url := url\<rparr>
      in case hl_parse_url hl url of
           None \<Rightarrow> msg
         | Some u \<Rightarrow>
             let msg = (case hu_path u of None \<Rightarrow> msg | Some r \<Rightarrow> msg\<lparr>hm_path := substr url r\<rparr>)
             in case hu_query u of
                  None \<Rightarrow> msg
                | Some r \<Rightarrow> msg\<lparr>hm_params := merge_params (decode_params (substr url r)) (hm_params msg)\<rparr>)"

definition on_header_value :: "http_lib \<Rightarrow> string \<Rightarrow> http_msg \<Rightarrow> http_msg" where
  "on_header_value hl val msg =
     (let header = hm_body msg;
          msg = msg\<lparr>hm_body := [], hm_headers := uset (hm_headers msg) header val\<rparr>
      in if header = ''Keep-Alive'' then msg\<lparr>hm_keep_alive := hl_atof hl val\<rparr>
         else if header = ''Connection'' then
           (if val = ''keep-alive'' then msg\<lparr>hm_keep_alive := - 1\<rparr>
            else if val = ''close'' then msg\<lparr>hm_keep_alive := 0\<rparr> else msg)
         else msg)"

definition on_message_complete :: "int \<Rightarrow> int \<Rightarrow> int \<Rightarrow> int \<Rightarrow> bool \<Rightarrow> http_msg \<Rightarrow> http_msg" where
  "on_message_complete status method major minor should_keep_alive msg =
     (let msg = (if status \<noteq> 0 then msg\<lparr>hm_status_code := status, hm_type := HTTP_RESPONSE\<rparr>
                 else msg\<lparr>hm_method := method, hm_type := HTTP_REQUEST\<rparr>);
          msg = msg\<lparr>hm_http_major := major, hm_http_minor := minor, hm_is_decoding := False\<rparr>
      in if should_keep_alive then msg else msg\<lparr>hm_keep_alive := 0\<rparr>)"

fun on_event :: "http_lib \<Rightarrow> http_msg \<Rightarrow> http_event \<Rightarrow> http_msg" where
  "on_event hl msg On_message_begin = msg\<lparr>hm_is_decoding := True\<rparr>"
| "on_event hl msg (On_url txt) = on_url hl txt msg"
| "on_event hl msg (On_status code) = msg\<lparr>hm_status_code := code\<rparr>"
| "on_event hl msg (On_header_field txt) = msg\<lparr>hm_body := txt\<rparr>"
| "on_event hl msg (On_header_value txt) = on_header_value hl txt msg"
| "on_event hl msg On_headers_complete = msg"
| "on_event hl msg (On_body txt) = (if hm_body msg \<noteq> [] then msg\<lparr>hm_body := hm_body msg @ txt\<rparr> else msg\<lparr>hm_body := txt\<rparr>)"
| "on_event hl msg On_chunk_header = msg"
| "on_event hl msg On_chunk_complete = msg"
| "on_event hl msg (On_message_complete st me ma mi ka) = on_message_complete st me ma mi ka msg"

definition http_decode ::
  "http_lib \<Rightarrow> socket_buffer \<Rightarrow> http_msg \<Rightarrow> codec_http \<Rightarrow> codec_status \<times> http_msg \<times> codec_http \<times> socket_buffer" where
  "http_decode hl sb msg c =
     (if \<not> is_readable sb then (CS_PAUSE, msg, c, sb)
      else
        let c = c\<lparr>ch_decode_cnt := ch_decode_cnt c + 1\<rparr>;
            (evs, len, ok) = hl_execute hl (raw_read_buffer sb (readable_len sb));
            msg = foldl (on_event hl) msg evs
        in if hm_is_decoding msg then (CS_PAUSE, msg, c, sb)
           else if \<not> ok then (CS_ERR, msg, c, sb)
           else
             let sb = advance_read_index (c_int (int len)) sb;
                 c = (if hm_type msg = HTTP_REQUEST
                      then c\<lparr>ch_http_major := hm_http_major msg, ch_http_minor := hm_http_minor msg,
                             ch_keep_alive := (if 0 \<le> hm_keep_alive msg then hm_keep_alive msg else ch_keep_alive c)\<rparr>
                      else c)
             in if map_of (hm_headers msg) ''Content-Encoding'' = Some ''gzip''
                then (case hl_ungzip hl (hm_body msg) of
                        Some data \<Rightarrow> (CS_OK, msg\<lparr>hm_body := data\<rparr>, c, sb)
                      | None \<Rightarrow> (CS_ERR, msg, c, sb))
                else (CS_OK, msg, c, sb))"

text \<open>\<open>int keep_alive()\<close> truncates the \<open>double\<close>.\<close>

definition codec_keep_alive :: "codec_http \<Rightarrow> int" where
  "codec_keep_alive c = (if 0 \<le> ch_keep_alive c then \<lfloor>ch_keep_alive c\<rfloor> else \<lceil>ch_keep_alive c\<rceil>)"

definition http_to_string :: "http_lib \<Rightarrow> http_msg \<Rightarrow> string" where
  "http_to_string hl msg =
     (let prover = ''HTTP/'' @ fmt_u (hm_http_major msg) @ ''.'' @ fmt_u (hm_http_minor msg)
      in (if hm_type msg = HTTP_REQUEST
          then hl_method_str hl (hm_method msg) @ '' '' @ hm_url msg @ '' '' @ prover @ crlf
          else prover @ (if hm_status_code msg > 0 then crlf @ dec_int (hm_status_code msg) @ crlf else []))
         @ concat (map (\<lambda>(k, v). k @ '':'' @ v @ crlf) (hm_headers msg)) @ crlf
         @ (if hm_body msg \<noteq> [] then hm_body msg @ crlf @ crlf else []))"

section \<open>The bytes of a response\<close>

definition op_text :: "write_op \<Rightarrow> string" where
  "op_text p = (case p of Op_printf s \<Rightarrow> s | Op_write s \<Rightarrow> s | Op_rollback _ \<Rightarrow> [] | Op_error \<Rightarrow> [])"

definition plain_op :: "write_op \<Rightarrow> bool" where
  "plain_op p = (case p of Op_printf _ \<Rightarrow> True | Op_write s \<Rightarrow> length s < 2 ^ 31 | Op_rollback _ \<Rightarrow> False | Op_error \<Rightarrow> False)"

lemma run_plain_ops:
  assumes "alloc_ok al" and "sb_inv b" and "\<forall>p \<in> set ops. plain_op p"
  shows "\<exists>b' n'. run_ops al ops b n = Some (True, b', n') \<and> sb_inv b' \<and> ToString b' = ToString b @ concat (map op_text ops)"
  using assms(2,3)
proof (induction ops arbitrary: b n)
  case Nil
  then show ?case by simp
next
  case (Cons p ops)
  show ?case
  proof (cases p)
    case (Op_printf s)
    obtain k b1 where b1: "sb_printf al s b = Some (k, b1)" "sb_inv b1" "ToString b1 = ToString b @ s" "0 \<le> k"
      using sb_printf_ok [OF Cons.prems(1) assms(1), of s] by auto
    then show ?thesis using Cons.IH [OF b1(2), of "n + k"] Cons.prems(2) Op_printf by (auto simp: op_text_def)
  next
    case (Op_write s)
    then have "length s < 2 ^ 31" using Cons.prems(2) by (simp add: plain_op_def)
    then obtain b1 where b1: "sb_write al s b = (int (length s), b1)" "sb_inv b1" "ToString b1 = ToString b @ s"
      using sb_write_ok_stream [OF assms(1) Cons.prems(1)] by blast
    then show ?thesis using Cons.IH [OF b1(2), of "n + int (length s)"] Cons.prems(2) Op_write by (auto simp: op_text_def)
  qed (use Cons.prems(2) in \<open>simp_all add: plain_op_def\<close>)
qed

lemma write_nul_retract:
  assumes "alloc_ok al" and "sb_inv b"
  shows "\<exists>b'. write_byte al c b = (1, b') \<and> sb_inv (set_write_index (m_write_idx b' - 1) b')
    \<and> ToString (set_write_index (m_write_idx b' - 1) b') = ToString b"
proof -
  obtain b' where b': "sb_write al [c] b = (1, b')" "sb_inv b'" "ToString b' = ToString b @ [c]"
    using sb_write_ok_stream [OF assms, of "[c]"] by auto
  have len: "readable_len b' = Suc (length (ToString b))" using sbuf.avail_stream [OF b'(2)] b'(3) by simp
  then have le: "1 \<le> readable_len b'" by simp
  have "set_write_index (m_write_idx b' - 1) b' = b'\<lparr>m_write_idx := m_write_idx b' - 1\<rparr>"
    by (simp add: set_write_index_def)
  then show ?thesis
    using b' retract_write [OF b'(2) le] len by (simp add: write_byte_def)
qed

lemma copy_headers_keys: "set (ukeys (copy_headers src hs)) = set (ukeys hs)"
proof (induction src hs rule: copy_headers.induct)
  case (2 k v src hs)
  have "map_of hs k \<noteq> None \<Longrightarrow> set (ukeys (uset hs k v)) = set (ukeys hs)"
    by (auto simp: map_of_eq_None_iff update_keys)
  then show ?case using 2 by simp
qed simp

lemma fresh_response_keys:
  "ch_http_headers c = [] \<Longrightarrow> set (ukeys (response_headers c msg)) \<subseteq> {''Connection'', ''Allow'', ''Server''}"
  by (cases "hm_type msg = HTTP_RESPONSE"; cases "ch_is_client c") (auto simp: response_headers_def Let_def)

lemma response_ops_plain:
  assumes "hm_type msg = HTTP_RESPONSE" and "hm_status_code msg \<noteq> 0"
    and keys: "set (ukeys hs) \<subseteq> {''Connection'', ''Allow'', ''Server''}" and "length (hm_body msg) < 2 ^ 31"
  shows "\<forall>p \<in> set (status_line_ops c msg @ header_ops hs @ body_ops hl hs msg). plain_op p"
    and "concat (map op_text (body_ops hl hs msg))
      = ''Content-Length: '' @ fmt_u (int (length (hm_body msg))) @ crlf @ crlf @ hm_body msg"
proof -
  have "(''Content-Encoding'', v) \<notin> set hs" "(''Transfer-Encoding'', v) \<notin> set hs" for v
  proof -
    have "k \<in> {''Connection'', ''Allow'', ''Server''}" if "(k, v) \<in> set hs" for k v
      using subsetD [OF keys, of k] that by (metis fst_conv image_eqI set_map)
    from this [of "''Content-Encoding''" v] this [of "''Transfer-Encoding''" v]
    show "(''Content-Encoding'', v) \<notin> set hs" "(''Transfer-Encoding'', v) \<notin> set hs" by auto
  qed
  then have b: "body_ops hl hs msg =
      (if hm_body msg \<noteq> [] then [Op_printf (''Content-Length: '' @ fmt_u (int (length (hm_body msg))) @ crlf @ crlf), Op_write (hm_body msg)]
       else [Op_printf (''Content-Length: 0'' @ crlf @ crlf)])"
    by (simp add: body_ops_def Let_def)
  show "\<forall>p \<in> set (status_line_ops c msg @ header_ops hs @ body_ops hl hs msg). plain_op p"
    using assms(2,4) unfolding b by (auto simp: status_line_ops_def header_ops_def plain_op_def split: if_splits)
  have "char_of (48 :: nat) = CHR ''0''" by code_simp
  then have "fmt_u 0 = ''0''" by (simp add: fmt_u_def c_uint_def dec_nat.simps digit_char_def)
  then show "concat (map op_text (body_ops hl hs msg))
      = ''Content-Length: '' @ fmt_u (int (length (hm_body msg))) @ crlf @ crlf @ hm_body msg"
    unfolding b by (simp add: op_text_def)
qed

section \<open>Query strings\<close>

definition plain_text :: "string \<Rightarrow> bool" where
  "plain_text s \<longleftrightarrow> CHR ''&'' \<notin> set s \<and> CHR ''='' \<notin> set s"

fun query_of :: "(string \<times> string) list \<Rightarrow> string" where
  "query_of [] = []"
| "query_of [(k, v)] = k @ ''='' @ v"
| "query_of ((k, v) # kv # kvs) = k @ ''='' @ v @ ''&'' @ query_of (kv # kvs)"

lemma params_key: "plain_text k \<Longrightarrow> params_loop (k @ s) False key val ps = params_loop s False (key @ k) val ps"
  by (induction k arbitrary: key) (auto simp: plain_text_def)

lemma params_val: "plain_text v \<Longrightarrow> params_loop (v @ s) True key val ps = params_loop s True key (val @ v) ps"
  by (induction v arbitrary: val) (auto simp: plain_text_def)

lemma params_loop_query:
  "\<forall>(k, v) \<in> set kvs. k \<noteq> [] \<and> plain_text k \<and> plain_text v \<Longrightarrow>
     params_loop (query_of kvs) False [] [] ps = merge_params kvs ps"
proof (induction kvs arbitrary: ps rule: query_of.induct)
  case 1
  then show ?case by (simp add: merge_params_def)
next
  case (2 k v)
  then show ?case using params_key [of k] params_val [of v "[]"] by (simp add: merge_params_def)
next
  case (3 k v kv kvs)
  then show ?case using params_key [of k] params_val [of v] by (simp add: merge_params_def)
qed

section \<open>Callbacks of a message\<close>

definition header_events :: "(string \<times> string) list \<Rightarrow> http_event list" where
  "header_events hs = concat (map (\<lambda>(k, v). [On_header_field k, On_header_value v]) hs)"

definition request_events ::
  "string \<Rightarrow> (string \<times> string) list \<Rightarrow> string list \<Rightarrow> int \<Rightarrow> int \<Rightarrow> int \<Rightarrow> bool \<Rightarrow> http_event list" where
  "request_events url hs chunks method ma mi ka =
     [On_message_begin, On_url url] @ header_events hs @ [On_headers_complete] @ map On_body chunks
     @ [On_message_complete 0 method ma mi ka]"

lemma header_events_msg:
  "hm_headers (foldl (on_event hl) msg (header_events hs)) = merge_params hs (hm_headers msg)
   \<and> hm_url (foldl (on_event hl) msg (header_events hs)) = hm_url msg
   \<and> (hs \<noteq> [] \<or> hm_body msg = [] \<longrightarrow> hm_body (foldl (on_event hl) msg (header_events hs)) = [])"
  by (induction hs arbitrary: msg)
    (auto simp: header_events_def merge_params_def on_header_value_def Let_def)

lemma body_events_msg:
  "hm_body (foldl (on_event hl) msg (map On_body chunks)) = hm_body msg @ concat chunks
   \<and> hm_headers (foldl (on_event hl) msg (map On_body chunks)) = hm_headers msg
   \<and> hm_url (foldl (on_event hl) msg (map On_body chunks)) = hm_url msg"
  by (induction chunks arbitrary: msg) auto

lemma on_url_frame: "hm_headers (on_url hl url msg) = hm_headers msg \<and> hm_body (on_url hl url msg) = hm_body msg
    \<and> hm_url (on_url hl url msg) = url"
  by (auto simp: on_url_def Let_def split: option.split)

lemma request_events_msg:
  assumes "hm_body msg = [] \<or> hs \<noteq> []"
  shows "hm_headers (foldl (on_event hl) msg (request_events url hs chunks me ma mi ka)) = merge_params hs (hm_headers msg)
    \<and> hm_body (foldl (on_event hl) msg (request_events url hs chunks me ma mi ka)) = concat chunks
    \<and> hm_url (foldl (on_event hl) msg (request_events url hs chunks me ma mi ka)) = url
    \<and> hm_method (foldl (on_event hl) msg (request_events url hs chunks me ma mi ka)) = me
    \<and> hm_type (foldl (on_event hl) msg (request_events url hs chunks me ma mi ka)) = HTTP_REQUEST
    \<and> \<not> hm_is_decoding (foldl (on_event hl) msg (request_events url hs chunks me ma mi ka))"
  using assms on_url_frame header_events_msg body_events_msg
  by (auto simp: request_events_def on_message_complete_def Let_def)

section \<open>Properties\<close>

text \<open>
  C38. A response is encoded as exactly its status line, its header lines, a \<open>Content-Length\<close> that is
  the length of the body, and the body, appended to the send buffer, although the write counts the
  encoder keeps for its rollback are wrong after the buffer grew.
\<close>

theorem http_response_bytes:
  assumes "alloc_ok al" and "sb_inv sb" and "ch_http_headers c = []"
    and "hm_type msg = HTTP_RESPONSE" and "hm_status_code msg \<noteq> 0" and "hm_http_major msg \<noteq> 0"
    and "length (hm_body msg) < 2 ^ 31"
  shows "\<exists>c' sb' hs. http_encode hl al msg c sb = Some (CS_OK, c', sb') \<and> sb_inv sb'
    \<and> hs = copy_headers (hm_headers msg) (response_headers (c\<lparr>ch_encode_cnt := ch_encode_cnt c + 1,
          ch_is_client := (ch_encode_cnt c + 1 > ch_decode_cnt c \<or> ch_is_client c)\<rparr>) msg)
    \<and> ToString sb' = ToString sb
        @ ''HTTP/'' @ fmt_u (ch_http_major c) @ ''.'' @ fmt_u (ch_http_minor c) @ '' '' @ fmt_u (hm_status_code msg)
        @ '' '' @ fmt_s (status_string (hm_status_code msg)) @ crlf
        @ concat (map (\<lambda>(k, v). c_str k @ '': '' @ c_str v @ crlf) hs)
        @ ''Content-Length: '' @ fmt_u (int (length (hm_body msg))) @ crlf @ crlf @ hm_body msg"
proof -
  let ?c = "c\<lparr>ch_encode_cnt := ch_encode_cnt c + 1,
      ch_is_client := (ch_encode_cnt c + 1 > ch_decode_cnt c \<or> ch_is_client c)\<rparr>"
  define hs where "hs = copy_headers (hm_headers msg) (response_headers ?c msg)"
  define ops where "ops = status_line_ops ?c msg @ header_ops hs @ body_ops hl hs msg"
  have keys: "set (ukeys hs) \<subseteq> {''Connection'', ''Allow'', ''Server''}"
    unfolding hs_def copy_headers_keys by (rule fresh_response_keys) (simp add: assms(3))
  note plain = response_ops_plain [OF assms(4,5) keys assms(7)]
  obtain b1 n where b1: "run_ops al ops sb 0 = Some (True, b1, n)" "sb_inv b1"
    "ToString b1 = ToString sb @ concat (map op_text ops)"
    using run_plain_ops [OF assms(1,2) plain(1) [of ?c hl]] unfolding ops_def by blast
  obtain b2 where b2: "write_byte al (CHR 0x00) b1 = (1, b2)" "sb_inv (set_write_index (m_write_idx b2 - 1) b2)"
    "ToString (set_write_index (m_write_idx b2 - 1) b2) = ToString b1"
    using write_nul_retract [OF assms(1) b1(2)] by blast
  have "http_encode hl al msg c sb = Some (CS_OK, ?c\<lparr>ch_http_headers := []\<rparr>, set_write_index (m_write_idx b2 - 1) b2)"
    using assms(4,6) b1(1) b2(1)
    by (simp add: http_encode_def Let_def HTTP_REQUEST_def HTTP_RESPONSE_def ops_def hs_def)
  moreover have "concat (map op_text (header_ops hs)) = concat (map (\<lambda>(k, v). c_str k @ '': '' @ c_str v @ crlf) hs)"
    by (induction hs) (auto simp: header_ops_def op_text_def)
  ultimately show ?thesis
    using b1(3) b2(2,3) plain(2) assms(5) unfolding hs_def [symmetric]
    by (simp add: ops_def status_line_ops_def op_text_def)
qed

definition toy_http :: http_lib where
  "toy_http = \<lparr>hl_parse_url = (\<lambda>_. None), hl_method_str = (\<lambda>_. ''GET''), hl_execute = (\<lambda>_. ([], 0, True)),
     hl_gzip = Some, hl_ungzip = Some, hl_atof = (\<lambda>_. 0)\<rparr>"

definition ok_response :: http_msg where
  "ok_response = empty_http\<lparr>hm_type := 1, hm_status_code := 200, hm_http_major := 1, hm_http_minor := 1, hm_body := ''hi''\<rparr>"

theorem http_response_bytes_witness:
  "\<exists>c' sb'. http_encode toy_http zero_alloc ok_response new_codec_http new_buffer = Some (CS_OK, c', sb') \<and> sb_inv sb'"
  using http_response_bytes [OF alloc_ok_zero, of new_buffer new_codec_http ok_response toy_http] new_buffer_empty
  by (auto simp: new_codec_http_def ok_response_def empty_http_def HTTP_RESPONSE_def)

text \<open>
  No header a handler puts into its response reaches the client: the encoder copies a header of the
  message only over one it has set itself, so the header lines sent are among \<open>Connection\<close>,
  \<open>Allow\<close> and \<open>Server\<close>.
\<close>

lemma user_headers_are_dropped:
  assumes "ch_http_headers c = []"
  shows "set (ukeys (copy_headers (hm_headers msg) (response_headers c msg))) \<subseteq> {''Connection'', ''Allow'', ''Server''}
    \<and> copy_headers [(''X-Request-Id'', ''7'')] (response_headers c msg) = response_headers c msg"
proof -
  have k: "set (ukeys (response_headers c msg)) \<subseteq> {''Connection'', ''Allow'', ''Server''}"
    by (rule fresh_response_keys [OF assms])
  then have "''X-Request-Id'' \<notin> set (ukeys (response_headers c msg))" by auto
  then have "map_of (response_headers c msg) ''X-Request-Id'' = None" by (simp add: map_of_eq_None_iff)
  then show ?thesis unfolding copy_headers_keys using k by simp
qed

text \<open>
  Pipelining loses requests: when the receive buffer holds two complete requests, the parser runs the
  callbacks of both on the same message, and one call of \<open>decode\<close> consumes the bytes of both and
  returns one message, with the method, target and body of the second and the headers of both.
\<close>

lemma http_pipelining_merges_requests:
  assumes "is_readable sb"
    and "hl_execute hl (raw_read_buffer sb (readable_len sb))
      = (request_events u1 hs1 ch1 m1 1 1 True @ request_events u2 hs2 ch2 m2 1 1 True, readable_len sb, True)"
    and "hs1 \<noteq> []" and "hs2 \<noteq> []" and "map_of (merge_params hs2 (merge_params hs1 [])) ''Content-Encoding'' = None"
  shows "\<exists>msg c'. http_decode hl sb empty_http c = (CS_OK, msg, c', skip_bytes (readable_len sb) sb)
    \<and> hm_url msg = u2 \<and> hm_method msg = m2 \<and> hm_body msg = concat ch2
    \<and> hm_headers msg = merge_params hs2 (merge_params hs1 [])"
proof -
  let ?m1 = "foldl (on_event hl) empty_http (request_events u1 hs1 ch1 m1 1 1 True)"
  let ?m2 = "foldl (on_event hl) ?m1 (request_events u2 hs2 ch2 m2 1 1 True)"
  have m1: "hm_headers ?m1 = merge_params hs1 []"
    using request_events_msg [of empty_http hs1] assms(3) by (simp add: empty_http_def)
  have m2: "hm_headers ?m2 = merge_params hs2 (merge_params hs1 [])" "hm_body ?m2 = concat ch2" "hm_url ?m2 = u2"
    "hm_method ?m2 = m2" "\<not> hm_is_decoding ?m2"
    using request_events_msg [of ?m1 hs2 hl u2 ch2 m2 1 1 True] assms(4) m1 by simp_all
  show ?thesis
    using assms(1,2,5) m2 by (auto simp: http_decode_def Let_def skip_bytes_def)
qed

definition pipe_http :: http_lib where
  "pipe_http = toy_http\<lparr>hl_execute := (\<lambda>s. (request_events ''/a'' [(''A'', ''1'')] [''x''] 3 1 1 True
     @ request_events ''/b'' [(''B'', ''2'')] [''y''] 3 1 1 True, length s, True))\<rparr>"

definition pipe_buffer :: socket_buffer where
  "pipe_buffer = snd (sb_write zero_alloc ''POST /a'' new_buffer)"

lemma pipe_buffer_stream: "sb_inv pipe_buffer \<and> ToString pipe_buffer = ''POST /a''"
  using sb_write_ok_stream [OF alloc_ok_zero, of new_buffer "''POST /a''"] new_buffer_empty by (auto simp: pipe_buffer_def)

text \<open>
  \<open>decode_params\<close> inverts the query syntax: of \<open>k1=v1&k2=v2...\<close> with non-empty keys it returns each
  key with the last value given for it.
\<close>

lemma decode_params_of_query:
  assumes "\<forall>(k, v) \<in> set kvs. k \<noteq> [] \<and> plain_text k \<and> plain_text v"
  shows "decode_params (query_of kvs) = merge_params kvs []
    \<and> map_of (decode_params (query_of kvs)) = map_of (rev kvs)"
proof -
  have d: "decode_params (query_of kvs) = merge_params kvs []"
    using params_loop_query [OF assms] by (simp add: decode_params_def)
  have "map_of (merge_params kvs m) = map_of m ++ map_of (rev kvs)" for m
    by (induction kvs arbitrary: m) (auto simp: merge_params_def)
  then show ?thesis using d by simp
qed

end
