(* ===== verification/Events_Loop.thy ===== *)
theory Events_Loop
  imports Complex_Main Kim_Prelude
begin

text \<open>
  The wrapper of libev, \<open>src/core/events.cpp\<close>. A watcher is a record of what libev keeps in it: whether
  it is started, the descriptor and the event bits, or the delay and the period. The loop itself is
  libev's. \<open>mem\<close> tells whether \<open>malloc\<close> finds room for a new watcher and \<open>lag\<close> is
  \<open>ev_time() - ev_now()\<close>, the time the loop's clock is behind.
\<close>

record ev_io =
  io_active :: bool
  io_fd :: int
  io_read :: bool
  io_write :: bool
  io_data :: bool

datatype timer_cb = Cb_none | Cb_io_timer | Cb_cmd_timer | Cb_repeat_timer | Cb_session_timer

record ev_timer =
  tm_active :: bool
  tm_after :: real
  tm_repeat :: int
  tm_cb :: timer_cb

text \<open>\<open>memset(w, 0, sizeof(w))\<close>.\<close>

definition zero_io :: ev_io where
  "zero_io = \<lparr>io_active = False, io_fd = 0, io_read = False, io_write = False, io_data = False\<rparr>"

definition zero_timer :: ev_timer where
  "zero_timer = \<lparr>tm_active = False, tm_after = 0, tm_repeat = 0, tm_cb = Cb_none\<rparr>"

text \<open>The callback functions that are set, and whether the loop exists.\<close>

record events =
  m_ev_loop :: bool
  m_io_callback_fn :: bool
  m_sig_callback_fn :: bool
  m_io_timer_callback_fn :: bool
  m_cmd_timer_callback_fn :: bool
  m_repeat_timer_callback_fn :: bool
  m_session_timer_callback_fn :: bool
  m_signals :: "int list"

definition new_events :: events where
  "new_events = \<lparr>m_ev_loop = False, m_io_callback_fn = False, m_sig_callback_fn = False,
     m_io_timer_callback_fn = False, m_cmd_timer_callback_fn = False, m_repeat_timer_callback_fn = False,
     m_session_timer_callback_fn = False, m_signals = []\<rparr>"

definition events_create :: "bool \<Rightarrow> events \<Rightarrow> bool \<times> events" where
  "events_create loop_ok e = (loop_ok, e\<lparr>m_ev_loop := loop_ok\<rparr>)"

definition events_destory :: "events \<Rightarrow> events" where
  "events_destory e = e\<lparr>m_ev_loop := False\<rparr>"

section \<open>Signals\<close>

definition create_signal_event :: "int \<Rightarrow> events \<Rightarrow> bool \<times> events" where
  "create_signal_event signum e =
     (if \<not> m_ev_loop e then (False, e)
      else if \<not> m_sig_callback_fn e then (False, e)
      else (True, e\<lparr>m_signals := m_signals e @ [signum]\<rparr>))"

fun create_signals :: "int list \<Rightarrow> events \<Rightarrow> bool \<times> events" where
  "create_signals [] e = (True, e)"
| "create_signals (s # ss) e =
     (case create_signal_event s e of (False, e) \<Rightarrow> (False, e) | (True, e) \<Rightarrow> create_signals ss e)"

text \<open>SIGCHLD, SIGILL, SIGBUS, SIGFPE, SIGKILL (Linux numbers).\<close>

definition setup_signal_events :: "bool \<Rightarrow> events \<Rightarrow> bool \<times> events" where
  "setup_signal_events privdata e = (if \<not> privdata then (False, e) else create_signals [17, 4, 7, 8, 9] e)"

section \<open>Descriptors\<close>

definition alloc_io :: "bool \<Rightarrow> ev_io option \<Rightarrow> ev_io option" where
  "alloc_io mem w = (case w of Some w \<Rightarrow> Some w | None \<Rightarrow> if mem then Some zero_io else None)"

definition add_read_event :: "events \<Rightarrow> bool \<Rightarrow> int \<Rightarrow> ev_io option \<Rightarrow> ev_io option" where
  "add_read_event e mem fd w =
     (if \<not> m_io_callback_fn e then None
      else case alloc_io mem w of
             None \<Rightarrow> None
           | Some w \<Rightarrow>
               if io_active w then Some (w\<lparr>io_fd := fd, io_read := True, io_data := True\<rparr>)
               else Some (w\<lparr>io_active := True, io_fd := fd, io_read := True, io_write := False, io_data := True\<rparr>))"

definition add_write_event :: "events \<Rightarrow> bool \<Rightarrow> int \<Rightarrow> ev_io option \<Rightarrow> ev_io option" where
  "add_write_event e mem fd w =
     (if \<not> m_io_callback_fn e then None
      else case alloc_io mem w of
             None \<Rightarrow> None
           | Some w \<Rightarrow>
               if io_active w then Some (w\<lparr>io_write := True\<rparr>)
               else Some (w\<lparr>io_active := True, io_fd := fd, io_read := False, io_write := True\<rparr>))"

text \<open>\<open>w->events | EV_WRITE\<close> is never zero: the watcher is always restarted without \<open>EV_WRITE\<close>.\<close>

definition del_write_event :: "ev_io option \<Rightarrow> ev_io option" where
  "del_write_event w = map_option (\<lambda>w. w\<lparr>io_active := True, io_write := False\<rparr>) w"

definition del_io_event :: "ev_io option \<Rightarrow> bool \<times> ev_io option" where
  "del_io_event w = (w \<noteq> None, None)"

definition stop_io_event :: "ev_io option \<Rightarrow> ev_io option" where
  "stop_io_event w = map_option (\<lambda>w. w\<lparr>io_active := False\<rparr>) w"

section \<open>Timers\<close>

text \<open>The period is the \<open>double\<close> of the caller cut to an \<open>int\<close> by the parameter.\<close>

definition trunc_int :: "real \<Rightarrow> int" where
  "trunc_int x = (if 0 \<le> x then \<lfloor>x\<rfloor> else \<lceil>x\<rceil>)"

definition add_timer_event ::
  "bool \<Rightarrow> real \<Rightarrow> real \<Rightarrow> ev_timer option \<Rightarrow> timer_cb \<Rightarrow> int \<Rightarrow> ev_timer option" where
  "add_timer_event mem lag secs w cb repeat_secs =
     (case (case w of Some w \<Rightarrow> Some w | None \<Rightarrow> if mem then Some zero_timer else None) of
        None \<Rightarrow> None
      | Some w \<Rightarrow>
          if tm_active w then Some (w\<lparr>tm_after := secs + lag, tm_repeat := repeat_secs\<rparr>)
          else Some \<lparr>tm_active = True, tm_after = secs + lag, tm_repeat = repeat_secs, tm_cb = cb\<rparr>)"

definition add_io_timer :: "events \<Rightarrow> bool \<Rightarrow> real \<Rightarrow> real \<Rightarrow> ev_timer option \<Rightarrow> ev_timer option" where
  "add_io_timer e mem lag secs w =
     (if \<not> m_io_timer_callback_fn e then None else add_timer_event mem lag secs w Cb_io_timer 0)"

definition add_cmd_timer :: "events \<Rightarrow> bool \<Rightarrow> real \<Rightarrow> real \<Rightarrow> ev_timer option \<Rightarrow> ev_timer option" where
  "add_cmd_timer e mem lag secs w =
     (if \<not> m_cmd_timer_callback_fn e then None else add_timer_event mem lag secs w Cb_cmd_timer (trunc_int secs))"

definition add_repeat_timer :: "events \<Rightarrow> bool \<Rightarrow> real \<Rightarrow> real \<Rightarrow> ev_timer option \<Rightarrow> ev_timer option" where
  "add_repeat_timer e mem lag secs w =
     (if \<not> m_repeat_timer_callback_fn e then None else add_timer_event mem lag secs w Cb_repeat_timer (trunc_int secs))"

definition add_session_timer :: "events \<Rightarrow> bool \<Rightarrow> real \<Rightarrow> real \<Rightarrow> ev_timer option \<Rightarrow> ev_timer option" where
  "add_session_timer e mem lag secs w =
     (if \<not> m_session_timer_callback_fn e then None else add_timer_event mem lag secs w Cb_session_timer (trunc_int secs))"

definition restart_timer :: "real \<Rightarrow> real \<Rightarrow> ev_timer option \<Rightarrow> bool \<times> ev_timer option" where
  "restart_timer lag secs w =
     (case w of None \<Rightarrow> (False, None)
      | Some w \<Rightarrow> (True, Some (w\<lparr>tm_active := True, tm_after := secs + lag, tm_repeat := 0\<rparr>)))"

definition del_timer_event :: "ev_timer option \<Rightarrow> bool \<times> ev_timer option" where
  "del_timer_event w = (w \<noteq> None, None)"

lemma add_write_event_Some:
  "m_io_callback_fn e \<Longrightarrow> w \<noteq> None \<Longrightarrow> \<exists>w'. add_write_event e mem fd w = Some w' \<and> io_write w' \<and> io_active w'"
  by (auto simp: add_write_event_def alloc_io_def)

end
