(* ===== verification/Connection.thy ===== *)
theory Connection
  imports Codec_Http Events_Loop
begin

text \<open>
  A connection, \<open>src/core/connection.cpp\<close> with its base class \<open>Timer\<close> (\<open>src/core/timer.h\<close>): a descriptor
  and the id that tells it from other users of the same descriptor number, the state of the
  handshake, a receive buffer, a send buffer and a buffer of data that waits for the handshake.

  The kernel's answers (\<open>send\<close>, \<open>readv\<close>) and the time are arguments. \<open>errno\<close> right after \<open>readv\<close> is the
  number the buffer reports, and \<open>new\<close> does not fail (it throws).
\<close>

section \<open>State\<close>

datatype conn_state = S_UNKOWN | S_TRY_CONNECT | S_CONNECTING | S_CONNECTED | S_CLOSED | S_ERROR

datatype conn_codec = No_codec | Proto_codec | Http_codec (the_http: codec_http)

record connection =
  c_fd :: int
  c_id :: nat
  c_ev_io :: "ev_io option"
  c_codec :: conn_codec
  c_is_system :: bool
  c_errno :: int
  c_state :: conn_state
  c_recv_buf :: "socket_buffer option"
  c_send_buf :: "socket_buffer option"
  c_wait_send_buf :: "socket_buffer option"
  c_node_id :: string
  c_read_cnt :: int
  c_read_bytes :: nat
  c_write_cnt :: int
  c_write_bytes :: nat
  c_timer :: "ev_timer option"
  c_active_time :: real
  c_keep_alive :: real

definition new_connection :: "int \<Rightarrow> nat \<Rightarrow> real \<Rightarrow> connection" where
  "new_connection fd i now =
     \<lparr>c_fd = fd, c_id = i, c_ev_io = None, c_codec = No_codec, c_is_system = False, c_errno = 0,
      c_state = S_UNKOWN, c_recv_buf = None, c_send_buf = None, c_wait_send_buf = None, c_node_id = [],
      c_read_cnt = 0, c_read_bytes = 0, c_write_cnt = 0, c_write_bytes = 0, c_timer = None,
      c_active_time = now, c_keep_alive = 0\<rparr>"

definition conn_init :: "codec_type \<Rightarrow> real \<Rightarrow> connection \<Rightarrow> bool \<times> connection" where
  "conn_init codec now c =
     (case codec of
        CT_HTTP \<Rightarrow> (True, c\<lparr>c_codec := Http_codec new_codec_http, c_active_time := now\<rparr>)
      | CT_PROTOBUF \<Rightarrow> (True, c\<lparr>c_codec := Proto_codec, c_active_time := now\<rparr>)
      | _ \<Rightarrow> (c_codec c \<noteq> No_codec, if c_codec c = No_codec then c else c\<lparr>c_active_time := now\<rparr>))"

definition is_http :: "connection \<Rightarrow> bool" where
  "is_http c = (case c_codec c of Http_codec _ \<Rightarrow> True | _ \<Rightarrow> False)"

definition is_connected :: "connection \<Rightarrow> bool" where
  "is_connected c \<longleftrightarrow> c_state c = S_CONNECTED"

definition is_connecting :: "connection \<Rightarrow> bool" where
  "is_connecting c \<longleftrightarrow> c_state c = S_CONNECTING"

definition is_try_connect :: "connection \<Rightarrow> bool" where
  "is_try_connect c \<longleftrightarrow> c_state c = S_TRY_CONNECT"

definition is_invalid :: "connection \<Rightarrow> bool" where
  "is_invalid c \<longleftrightarrow> c_state c = S_UNKOWN \<or> c_state c = S_CLOSED \<or> c_state c = S_ERROR"

definition is_need_alive_check :: "connection \<Rightarrow> bool" where
  "is_need_alive_check c \<longleftrightarrow> \<not> is_http c"

definition conn_keep_alive :: "connection \<Rightarrow> real" where
  "conn_keep_alive c =
     (case c_codec c of
        Http_codec h \<Rightarrow> (let k = codec_keep_alive h in if 0 \<le> k then of_int k else c_keep_alive c)
      | _ \<Rightarrow> c_keep_alive c)"

section \<open>Reading\<close>

definition the_buf :: "socket_buffer option \<Rightarrow> socket_buffer" where
  "the_buf b = (case b of None \<Rightarrow> new_buffer | Some b \<Rightarrow> b)"

text \<open>The recovery of a large buffer, after a read and after a write.\<close>

definition recover_buf :: "allocator \<Rightarrow> socket_buffer \<Rightarrow> socket_buffer" where
  "recover_buf al b =
     (if m_buffer_len b > BUFFER_MAX_READ \<and> readable_len b < m_buffer_len b div 2
      then snd (compact al (readable_len b * 2) b) else b)"

definition conn_read :: "allocator \<Rightarrow> recv_res \<Rightarrow> real \<Rightarrow> connection \<Rightarrow> codec_status \<times> connection" where
  "conn_read al rr now c =
     (if is_invalid c then (CS_ERR, c)
      else
        let (read_len, err, buf) = read_fd al rr (c_errno c) (the_buf (c_recv_buf c));
            c = c\<lparr>c_recv_buf := Some buf, c_errno := err\<rparr>
        in if read_len = 0 then (CS_CLOSED, c)
           else if read_len < 0 then
             (if err = EAGAIN then (CS_OK, c\<lparr>c_active_time := now\<rparr>) else (CS_ERR, c))
           else
             (CS_OK, c\<lparr>c_read_cnt := c_read_cnt c + 1, c_read_bytes := c_read_bytes c + nat read_len,
                       c_recv_buf := Some (recover_buf al buf), c_active_time := now\<rparr>))"

text \<open>
  \<open>decode_proto\<close> and \<open>decode_http\<close>: the buffer pointer is handed to the codec; a null pointer is an
  error of the binary codec, and the HTTP codec would dereference it (\<open>None\<close>).
\<close>

definition decode_proto ::
  "proto_lib \<Rightarrow> connection \<Rightarrow> msg_head \<Rightarrow> msg_body \<Rightarrow> (codec_status \<times> msg_head \<times> msg_body \<times> connection) option" where
  "decode_proto pb c head body =
     (if c_codec c \<noteq> Proto_codec then Some (CS_ERR, head, body, c)
      else case c_recv_buf c of
             None \<Rightarrow> Some (CS_ERR, head, body, c)
           | Some buf \<Rightarrow>
               map_option (\<lambda>(st, head, body, buf). (st, head, body, c\<lparr>c_recv_buf := Some buf\<rparr>))
                 (proto_decode pb buf head body))"

definition decode_http ::
  "http_lib \<Rightarrow> connection \<Rightarrow> http_msg \<Rightarrow> (codec_status \<times> http_msg \<times> connection) option" where
  "decode_http hl c msg =
     (case c_codec c of
        Http_codec h \<Rightarrow>
          map_option (\<lambda>buf.
              let (st, msg, h, buf) = http_decode hl buf msg h
              in (st, msg, c\<lparr>c_recv_buf := Some buf, c_codec := Http_codec h\<rparr>)) (c_recv_buf c)
      | _ \<Rightarrow> Some (CS_ERR, msg, c))"

definition conn_read_proto ::
  "proto_lib \<Rightarrow> allocator \<Rightarrow> recv_res \<Rightarrow> real \<Rightarrow> connection \<Rightarrow> msg_head \<Rightarrow> msg_body
     \<Rightarrow> (codec_status \<times> msg_head \<times> msg_body \<times> connection) option" where
  "conn_read_proto pb al rr now c head body =
     (let (st, c) = conn_read al rr now c
      in if st \<noteq> CS_OK then Some (st, head, body, c) else decode_proto pb c head body)"

definition conn_read_http ::
  "http_lib \<Rightarrow> allocator \<Rightarrow> recv_res \<Rightarrow> real \<Rightarrow> connection \<Rightarrow> http_msg
     \<Rightarrow> (codec_status \<times> http_msg \<times> connection) option" where
  "conn_read_http hl al rr now c msg =
     (let (st, c) = conn_read al rr now c
      in if st \<noteq> CS_OK then Some (st, msg, c) else decode_http hl c msg)"

definition fetch_data_proto ::
  "proto_lib \<Rightarrow> connection \<Rightarrow> msg_head \<Rightarrow> msg_body \<Rightarrow> (codec_status \<times> msg_head \<times> msg_body \<times> connection) option" where
  "fetch_data_proto pb c head body =
     (if c_state c = S_UNKOWN \<or> c_state c = S_ERROR then Some (CS_ERR, head, body, c)
      else decode_proto pb c head body)"

definition fetch_data_http ::
  "http_lib \<Rightarrow> connection \<Rightarrow> http_msg \<Rightarrow> (codec_status \<times> http_msg \<times> connection) option" where
  "fetch_data_http hl c msg =
     (if c_state c = S_UNKOWN \<or> c_state c = S_ERROR then Some (CS_ERR, msg, c) else decode_http hl c msg)"

section \<open>Writing\<close>

text \<open>
  \<open>conn_write()\<close>: the bytes that went out are part of the result. The buffer is the waiting buffer when
  the connection is up and that buffer holds data, else the send buffer.
\<close>

definition pending :: "socket_buffer option \<Rightarrow> string" where
  "pending b = (case b of None \<Rightarrow> [] | Some b \<Rightarrow> ToString b)"

definition use_wait_buf :: "connection \<Rightarrow> bool" where
  "use_wait_buf c \<longleftrightarrow> is_connected c \<and> (case c_wait_send_buf c of None \<Rightarrow> False | Some b \<Rightarrow> readable_len b > 0)"

definition conn_write :: "allocator \<Rightarrow> send_res \<Rightarrow> real \<Rightarrow> connection \<Rightarrow> codec_status \<times> string \<times> connection" where
  "conn_write al sr now c =
     (if is_invalid c then (CS_ERR, [], c)
      else
        let wait = use_wait_buf c
        in case (if wait then c_wait_send_buf c else c_send_buf c) of
             None \<Rightarrow> (CS_OK, [], c)
           | Some sbuf \<Rightarrow>
               if \<not> is_readable sbuf then (CS_OK, [], c)
               else
                 let (write_len, err, out, sbuf) = write_fd sr (c_errno c) sbuf;
                     put = (\<lambda>b c. if wait then c\<lparr>c_wait_send_buf := Some b\<rparr> else c\<lparr>c_send_buf := Some b\<rparr>);
                     c = put sbuf (c\<lparr>c_errno := err\<rparr>)
                 in if write_len < 0 then
                      (if err = EAGAIN then (CS_PAUSE, [], c\<lparr>c_active_time := now\<rparr>) else (CS_ERR, [], c))
                    else
                      let sbuf = recover_buf al sbuf;
                          c = put sbuf (c\<lparr>c_write_cnt := c_write_cnt c + 1,
                                          c_write_bytes := c_write_bytes c + nat write_len,
                                          c_active_time := now\<rparr>)
                      in (if readable_len sbuf > 0 then CS_PAUSE else CS_OK, out, c))"

definition encode_to ::
  "proto_lib \<Rightarrow> allocator \<Rightarrow> msg_head \<Rightarrow> msg_body \<Rightarrow> bool \<Rightarrow> connection \<Rightarrow> codec_status \<times> connection" where
  "encode_to pb al head body wait c =
     (if is_invalid c then (CS_ERR, c)
      else if c_codec c \<noteq> Proto_codec then (CS_ERR, c)
      else
        let (st, buf) = proto_encode pb al head body (the_buf (if wait then c_wait_send_buf c else c_send_buf c))
        in (st, if wait then c\<lparr>c_wait_send_buf := Some buf\<rparr> else c\<lparr>c_send_buf := Some buf\<rparr>))"

definition conn_write_proto ::
  "proto_lib \<Rightarrow> allocator \<Rightarrow> send_res \<Rightarrow> real \<Rightarrow> msg_head \<Rightarrow> msg_body \<Rightarrow> connection
     \<Rightarrow> codec_status \<times> string \<times> connection" where
  "conn_write_proto pb al sr now head body c =
     (let (st, c) = encode_to pb al head body False c
      in if st \<noteq> CS_OK then (st, [], c) else conn_write al sr now c)"

definition conn_write_waiting ::
  "proto_lib \<Rightarrow> allocator \<Rightarrow> msg_head \<Rightarrow> msg_body \<Rightarrow> connection \<Rightarrow> codec_status \<times> connection" where
  "conn_write_waiting pb al head body c = encode_to pb al head body True c"

text \<open>\<open>None\<close>: the fuel of \<open>_printf\<close> ran out, which it never does (\<open>sb_printf_ok\<close> and C1).\<close>

definition conn_write_http ::
  "http_lib \<Rightarrow> allocator \<Rightarrow> send_res \<Rightarrow> real \<Rightarrow> http_msg \<Rightarrow> connection
     \<Rightarrow> (codec_status \<times> string \<times> connection) option" where
  "conn_write_http hl al sr now msg c =
     (if is_invalid c then Some (CS_ERR, [], c)
      else case c_codec c of
             Http_codec h \<Rightarrow>
               map_option (\<lambda>(st, h, buf).
                   let c = c\<lparr>c_codec := Http_codec h, c_send_buf := Some buf\<rparr>
                   in if st \<noteq> CS_OK then (st, [], c) else conn_write al sr now c)
                 (http_encode hl al msg h (the_buf (c_send_buf c)))
           | _ \<Rightarrow> Some (CS_ERR, [], c))"

section \<open>Buffers of a connection\<close>

definition buf_ok :: "socket_buffer option \<Rightarrow> bool" where
  "buf_ok b = (case b of None \<Rightarrow> True | Some b \<Rightarrow> sb_inv b \<and> readable_len b < 2 ^ 31)"

definition conn_ok :: "connection \<Rightarrow> bool" where
  "conn_ok c \<longleftrightarrow> buf_ok (c_recv_buf c) \<and> buf_ok (c_send_buf c) \<and> buf_ok (c_wait_send_buf c)"

lemma buf_ok_Some [simp]: "buf_ok (Some b) \<longleftrightarrow> sb_inv b \<and> readable_len b < 2 ^ 31"
  by (simp add: buf_ok_def)

lemma buf_ok_None [simp]: "buf_ok None"
  by (simp add: buf_ok_def)

lemma pending_simps [simp]: "pending None = []" "pending (Some b) = ToString b"
  by (simp_all add: pending_def)

lemma the_buf_ok: "buf_ok b \<Longrightarrow> sb_inv (the_buf b) \<and> ToString (the_buf b) = pending b"
  using new_buffer_empty by (cases b) (simp_all add: the_buf_def)

lemma recover_buf_keeps:
  assumes "sb_inv b" and "readable_len b < 2 ^ 31"
  shows "sb_inv (recover_buf al b) \<and> ToString (recover_buf al b) = ToString b
    \<and> readable_len (recover_buf al b) = readable_len b"
proof -
  have "readable_len b < 2 ^ 32" using assms(2) by simp
  then have k: "sb_inv (recover_buf al b) \<and> ToString (recover_buf al b) = ToString b"
    using compact_keeps [OF assms(1)] assms(1) by (simp add: recover_buf_def)
  then show ?thesis using sbuf.avail_stream assms(1) by metis
qed

lemma write_fd_buf:
  assumes "sb_inv b" and "readable_len b < 2 ^ 31" and "write_fd sr e b = (n, e', out, b')"
  shows "sb_inv b'" and "out @ ToString b' = ToString b" and "readable_len b' < 2 ^ 31"
    and "n < 0 \<Longrightarrow> out = []"
proof -
  note k = write_fd_keeps [OF assms(1,3)]
  show "sb_inv b'" "out @ ToString b' = ToString b" by (rule k)+
  have "length (out @ ToString b') = length (ToString b)" using k(2) by simp
  then have "readable_len b' \<le> readable_len b"
    using sbuf.avail_stream [OF k(1)] sbuf.avail_stream [OF assms(1)] by simp
  then show "readable_len b' < 2 ^ 31" using assms(2) by linarith
  show "n < 0 \<Longrightarrow> out = []"
    using assms(3) by (auto simp: write_fd_def Let_def split: if_splits send_res.splits)
qed

lemma conn_write_buf:
  assumes ok: "conn_ok c" and valid: "\<not> is_invalid c"
    and buf: "(if use_wait_buf c then c_wait_send_buf c else c_send_buf c) = Some b" and r: "is_readable b"
    and w: "write_fd sr (c_errno c) b = (n, e, out, b')"
  shows "\<exists>c1. conn_write al sr now c =
      (if n < 0 then (if e = EAGAIN then CS_PAUSE else CS_ERR)
       else if readable_len b' > 0 then CS_PAUSE else CS_OK, out,
       (if use_wait_buf c then c1\<lparr>c_wait_send_buf := Some (if n < 0 then b' else recover_buf al b')\<rparr>
        else c1\<lparr>c_send_buf := Some (if n < 0 then b' else recover_buf al b')\<rparr>))
    \<and> c_wait_send_buf c1 = c_wait_send_buf c \<and> c_send_buf c1 = c_send_buf c \<and> c_recv_buf c1 = c_recv_buf c
    \<and> c_fd c1 = c_fd c \<and> c_id c1 = c_id c \<and> c_state c1 = c_state c \<and> c_node_id c1 = c_node_id c
    \<and> c_is_system c1 = c_is_system c \<and> c_codec c1 = c_codec c \<and> c_ev_io c1 = c_ev_io c \<and> c_timer c1 = c_timer c"
proof -
  have b: "sb_inv b" "readable_len b < 2 ^ 31" using ok buf by (auto simp: conn_ok_def split: if_splits)
  note wb = write_fd_buf [OF b w]
  note rec = recover_buf_keeps [OF wb(1,3), of al]
  let ?c1 = "c\<lparr>c_errno := e, c_active_time := (if n < 0 \<and> e \<noteq> EAGAIN then c_active_time c else now),
      c_write_cnt := (if n < 0 then c_write_cnt c else c_write_cnt c + 1),
      c_write_bytes := (if n < 0 then c_write_bytes c else c_write_bytes c + nat n)\<rparr>"
  show ?thesis
    by (rule exI [of _ ?c1])
      (use valid buf r w rec wb(4) in \<open>auto simp: conn_write_def Let_def split: if_splits\<close>)
qed

lemma conn_write_idle:
  assumes "is_invalid c \<or> (case (if use_wait_buf c then c_wait_send_buf c else c_send_buf c) of None \<Rightarrow> True | Some b \<Rightarrow> \<not> is_readable b)"
  shows "conn_write al sr now c = (if is_invalid c then CS_ERR else CS_OK, [], c)"
  using assms by (auto simp: conn_write_def Let_def split: option.splits)

text \<open>The cases of \<open>conn_write\<close>, with what it does to the buffers.\<close>

lemma conn_write_result:
  assumes ok: "conn_ok c" and w: "conn_write al sr now c = (st, out, c')"
  shows "conn_ok c'"
    and "use_wait_buf c \<Longrightarrow> out @ pending (c_wait_send_buf c') = pending (c_wait_send_buf c) \<and> c_send_buf c' = c_send_buf c"
    and "\<not> use_wait_buf c \<Longrightarrow> out @ pending (c_send_buf c') = pending (c_send_buf c) \<and> c_wait_send_buf c' = c_wait_send_buf c"
    and "st = CS_OK \<Longrightarrow> pending (if use_wait_buf c then c_wait_send_buf c' else c_send_buf c') = []"
    and "c_fd c' = c_fd c" and "c_id c' = c_id c" and "c_state c' = c_state c" and "c_node_id c' = c_node_id c"
    and "c_is_system c' = c_is_system c" and "c_ev_io c' = c_ev_io c" and "c_timer c' = c_timer c"
    and "st \<in> {CS_OK, CS_PAUSE, CS_ERR}" and "is_invalid c \<Longrightarrow> st = CS_ERR"
proof -
  have idle: "pending b = []" if "case b of None \<Rightarrow> True | Some b \<Rightarrow> \<not> is_readable b" "buf_ok b" for b
    using that by (cases b) (auto simp: ToString_def readable_len_def)
  have "conn_ok c'
    \<and> (use_wait_buf c \<longrightarrow> out @ pending (c_wait_send_buf c') = pending (c_wait_send_buf c) \<and> c_send_buf c' = c_send_buf c)
    \<and> (\<not> use_wait_buf c \<longrightarrow> out @ pending (c_send_buf c') = pending (c_send_buf c) \<and> c_wait_send_buf c' = c_wait_send_buf c)
    \<and> (st = CS_OK \<longrightarrow> pending (if use_wait_buf c then c_wait_send_buf c' else c_send_buf c') = [])
    \<and> c_fd c' = c_fd c \<and> c_id c' = c_id c \<and> c_state c' = c_state c \<and> c_node_id c' = c_node_id c
    \<and> c_is_system c' = c_is_system c \<and> c_ev_io c' = c_ev_io c \<and> c_timer c' = c_timer c
    \<and> st \<in> {CS_OK, CS_PAUSE, CS_ERR} \<and> (is_invalid c \<longrightarrow> st = CS_ERR)"
  proof (cases "is_invalid c \<or> (case (if use_wait_buf c then c_wait_send_buf c else c_send_buf c) of None \<Rightarrow> True | Some b \<Rightarrow> \<not> is_readable b)")
    case True
    have bo: "buf_ok (if use_wait_buf c then c_wait_send_buf c else c_send_buf c)"
      using ok by (simp add: conn_ok_def)
    show ?thesis
      using conn_write_idle [OF True, of al sr now] w ok True idle [OF _ bo] by (auto split: if_splits)
  next
    case False
    then obtain b where b: "(if use_wait_buf c then c_wait_send_buf c else c_send_buf c) = Some b" "is_readable b"
      "\<not> is_invalid c" by (auto split: option.splits)
    obtain n e out' b' where wf: "write_fd sr (c_errno c) b = (n, e, out', b')" by (metis prod_cases4)
    have bi: "sb_inv b" "readable_len b < 2 ^ 31" using ok b(1) by (auto simp: conn_ok_def split: if_splits)
    note wb = write_fd_buf [OF bi wf]
    note rec = recover_buf_keeps [OF wb(1,3), of al]
    let ?b = "if n < 0 then b' else recover_buf al b'"
    have nb: "sb_inv ?b" "ToString ?b = ToString b'" "readable_len ?b = readable_len b'" "readable_len ?b < 2 ^ 31"
      using wb rec by simp_all
    have emp: "readable_len b' = 0 \<Longrightarrow> ToString b' = []" using sbuf.avail_stream [OF wb(1)] by simp
    obtain c1 where c1: "conn_write al sr now c =
        (if n < 0 then (if e = EAGAIN then CS_PAUSE else CS_ERR) else if readable_len b' > 0 then CS_PAUSE else CS_OK, out',
         (if use_wait_buf c then c1\<lparr>c_wait_send_buf := Some ?b\<rparr> else c1\<lparr>c_send_buf := Some ?b\<rparr>))"
      "c_wait_send_buf c1 = c_wait_send_buf c" "c_send_buf c1 = c_send_buf c" "c_recv_buf c1 = c_recv_buf c"
      "c_fd c1 = c_fd c" "c_id c1 = c_id c" "c_state c1 = c_state c" "c_node_id c1 = c_node_id c"
      "c_is_system c1 = c_is_system c" "c_codec c1 = c_codec c" "c_ev_io c1 = c_ev_io c" "c_timer c1 = c_timer c"
      using conn_write_buf [OF ok b(3,1,2) wf, of al now] by blast
    have c': "c' = (if use_wait_buf c then c1\<lparr>c_wait_send_buf := Some ?b\<rparr> else c1\<lparr>c_send_buf := Some ?b\<rparr>)" "out = out'"
      "st = (if n < 0 then (if e = EAGAIN then CS_PAUSE else CS_ERR) else if readable_len b' > 0 then CS_PAUSE else CS_OK)"
      using w c1(1) by simp_all
    show ?thesis
    proof (cases "use_wait_buf c")
      case True
      then show ?thesis using c' c1 nb wb(2) b(1,3) ok emp unfolding conn_ok_def by (auto simp del: if_split)
    next
      case False
      then show ?thesis using c' c1 nb wb(2) b(1,3) ok emp unfolding conn_ok_def by (auto simp del: if_split)
    qed
  qed
  then show "conn_ok c'"
    "use_wait_buf c \<Longrightarrow> out @ pending (c_wait_send_buf c') = pending (c_wait_send_buf c) \<and> c_send_buf c' = c_send_buf c"
    "\<not> use_wait_buf c \<Longrightarrow> out @ pending (c_send_buf c') = pending (c_send_buf c) \<and> c_wait_send_buf c' = c_wait_send_buf c"
    "st = CS_OK \<Longrightarrow> pending (if use_wait_buf c then c_wait_send_buf c' else c_send_buf c') = []"
    "c_fd c' = c_fd c" "c_id c' = c_id c" "c_state c' = c_state c" "c_node_id c' = c_node_id c"
    "c_is_system c' = c_is_system c" "c_ev_io c' = c_ev_io c" "c_timer c' = c_timer c"
    "st \<in> {CS_OK, CS_PAUSE, CS_ERR}" "is_invalid c \<Longrightarrow> st = CS_ERR" by blast+
qed

lemma read_fd_len:
  assumes "sb_inv b"
  shows "readable_len (snd (snd (read_fd al (RecvErr e) err b))) = readable_len b"
  by (simp add: read_fd_def)

lemma conn_read_result:
  assumes ok: "conn_ok c" and al: "alloc_ok al" and v: "\<not> is_invalid c"
    and room: "length (pending (c_recv_buf c)) + length bs < 2 ^ 31"
    and r: "conn_read al (Recv bs) now c = (st, c')"
  shows "st = (if take (iov_room (the_buf (c_recv_buf c))) bs = [] then CS_CLOSED else CS_OK)
    \<and> conn_ok c' \<and> pending (c_recv_buf c') = pending (c_recv_buf c) @ take (iov_room (the_buf (c_recv_buf c))) bs
    \<and> c_fd c' = c_fd c \<and> c_id c' = c_id c \<and> c_state c' = c_state c \<and> c_send_buf c' = c_send_buf c
    \<and> c_wait_send_buf c' = c_wait_send_buf c"
proof -
  let ?b = "the_buf (c_recv_buf c)" and ?d = "take (iov_room (the_buf (c_recv_buf c))) bs"
  have b: "sb_inv ?b" "ToString ?b = pending (c_recv_buf c)"
    using the_buf_ok [of "c_recv_buf c"] ok by (simp_all add: conn_ok_def)
  obtain n e b' where rd: "read_fd al (Recv bs) (c_errno c) ?b = (n, e, b')" by (metis prod_cases3)
  have k: "sb_inv b'" "n = int (length ?d)" "ToString b' = pending (c_recv_buf c) @ ?d"
    using read_fd_keeps [OF b(1), where al = al and r = "Recv bs" and err = "c_errno c"] al rd b(2) by simp_all
  have "length (ToString b') \<le> length (pending (c_recv_buf c)) + length bs" using k(3) by simp
  then have len: "readable_len b' < 2 ^ 31" using sbuf.avail_stream [OF k(1)] room by linarith
  note rec = recover_buf_keeps [OF k(1) len, of al]
  have "iov_room ?b \<noteq> 0" by (simp add: iov_room_def Let_def EXTRABUF_def)
  then show ?thesis
    using r v rd k len rec ok by (auto simp: conn_read_def Let_def conn_ok_def min_def split: if_splits)
qed

section \<open>Properties\<close>

text \<open>
  Writing neither loses, repeats nor reorders bytes: what the kernel took is the front of the
  buffer chosen (the waiting buffer once the connection is up, as long as it holds data), the rest
  stays queued, the other buffer is untouched, and \<open>OK\<close> is answered only when the buffer chosen is
  drained; whatever \<open>send\<close> answers.
\<close>

lemma conn_write_conserves_bytes:
  assumes "conn_ok c" and "conn_write al sr now c = (st, out, c')"
  shows "conn_ok c' \<and> c_fd c' = c_fd c \<and> c_id c' = c_id c \<and> c_state c' = c_state c
    \<and> (if use_wait_buf c
        then out @ pending (c_wait_send_buf c') = pending (c_wait_send_buf c) \<and> c_send_buf c' = c_send_buf c
        else out @ pending (c_send_buf c') = pending (c_send_buf c) \<and> c_wait_send_buf c' = c_wait_send_buf c)
    \<and> (st = CS_OK \<longrightarrow> pending (if use_wait_buf c then c_wait_send_buf c' else c_send_buf c') = [])"
  using conn_write_result [OF assms] by simp

definition sample_conn :: connection where
  "sample_conn = (new_connection 7 1 0)\<lparr>c_codec := Proto_codec, c_state := S_CONNECTED,
     c_wait_send_buf := Some pipe_buffer, c_send_buf := Some hello_buffer\<rparr>"

lemma sample_conn_ok: "conn_ok sample_conn"
proof -
  have "readable_len pipe_buffer = 7" using pipe_buffer_stream sbuf.avail_stream [of pipe_buffer] by simp
  then show ?thesis
    using pipe_buffer_stream hello_buffer_stream hello_buffer_len
    by (simp add: conn_ok_def sample_conn_def new_connection_def)
qed

text \<open>
  When the waiting buffer goes out in one piece, \<open>conn_write\<close> answers \<open>OK\<close> although the send buffer
  still holds data. The caller takes \<open>OK\<close> for "nothing left" and switches the write event off, so
  that data stays until the next message for this peer.
\<close>

lemma conn_write_ok_leaves_data:
  assumes "conn_ok c" and "is_connected c" and "c_wait_send_buf c = Some w" and "0 < readable_len w"
    and "readable_len w \<le> n" and "pending (c_send_buf c) \<noteq> []"
  shows "\<exists>c'. conn_write al (Sent n) now c = (CS_OK, ToString w, c') \<and> pending (c_send_buf c') \<noteq> []"
proof -
  have use: "use_wait_buf c" using assms(2-4) by (simp add: use_wait_buf_def)
  have w: "sb_inv w" "readable_len w < 2 ^ 31" using assms(1,3) by (simp_all add: conn_ok_def)
  have valid: "\<not> is_invalid c" using assms(2) by (simp add: is_connected_def is_invalid_def)
  have r: "is_readable w" using assms(4) by (auto simp: readable_len_def split: if_splits)
  obtain k e out w' where wf: "write_fd (Sent n) (c_errno c) w = (k, e, out, w')" by (metis prod_cases4)
  note wb = write_fd_buf [OF w wf]
  have k: "k = int (readable_len w)" using wf assms(4,5) by (auto simp: write_fd_def Let_def)
  have "length out = readable_len w" using write_fd_keeps(3) [OF w(1) wf] k by simp
  then have out: "ToString w' = []" "out = ToString w"
    using wb(2) sbuf.avail_stream [OF w(1)] by (metis append_eq_conv_conj append_Nil2 append_take_drop_id self_append_conv take_all_iff order_refl)+
  then have "readable_len w' = 0" using sbuf.avail_stream [OF wb(1)] by simp
  then show ?thesis
    using conn_write_buf [OF assms(1) valid _ r wf, of al now] use assms(3,6) k out(2) by auto
qed

end
