(* ===== verification/Session_Mgr.thy ===== *)
theory Session_Mgr
  imports Events_Loop
begin

text \<open>
  Sessions, \<open>src/core/session.cpp\<close>: objects that users register under a string id and that a timer
  expires. A pointer to a registered session is its id; \<open>None\<close> is the use of a pointer to a session
  that is gone. The virtual \<open>on_timeout\<close> of the user's class is a parameter that may update the
  session; \<open>s_data\<close> is the data that the user's class adds.
\<close>

datatype session_status = SS_UNKOWN | SS_OK | SS_RUNNING | SS_ERROR

record session =
  s_id :: nat
  s_sessid :: string
  s_active_time :: real
  s_keep_alive :: real
  s_cur_timeout_cnt :: int
  s_max_timeout_cnt :: int
  s_timer :: "ev_timer option"
  s_data :: string

type_synonym sessions = "(string \<times> session) list"

definition new_session :: "nat \<Rightarrow> real \<Rightarrow> session" where
  "new_session i now = \<lparr>s_id = i, s_sessid = [], s_active_time = now, s_keep_alive = 0, s_cur_timeout_cnt = 0,
     s_max_timeout_cnt = SESSION_MAX_TIMEOUT_CNT, s_timer = None, s_data = []\<rparr>"

definition session_init :: "string \<Rightarrow> real \<Rightarrow> session \<Rightarrow> session" where
  "session_init sessid timeout s = s\<lparr>s_sessid := sessid, s_keep_alive := timeout\<rparr>"

text \<open>
  The result is the answer, the table and the caller's object. A session whose id is taken only
  has its clock refreshed: it is not registered and gets no timer, but the answer is \<open>true\<close>.
\<close>

definition add_session ::
  "events \<Rightarrow> bool \<Rightarrow> real \<Rightarrow> real \<Rightarrow> session \<Rightarrow> sessions \<Rightarrow> bool \<times> sessions \<times> session" where
  "add_session e mem lag now s m =
     (if map_of m (s_sessid s) \<noteq> None then (True, m, s\<lparr>s_active_time := now\<rparr>)
      else case add_session_timer e mem lag (s_keep_alive s) (s_timer s) of
             None \<Rightarrow> (False, m, s)
           | Some w \<Rightarrow> let s = s\<lparr>s_timer := Some w\<rparr> in (True, uset m (s_sessid s) s, s))"

definition get_session :: "real \<Rightarrow> string \<Rightarrow> bool \<Rightarrow> sessions \<Rightarrow> session option \<times> sessions" where
  "get_session now sessid re_active m =
     (case map_of m sessid of
        None \<Rightarrow> (None, m)
      | Some s \<Rightarrow>
          if re_active then let s = s\<lparr>s_active_time := now\<rparr> in (Some s, uset m sessid s) else (Some s, m))"

definition del_session :: "string \<Rightarrow> sessions \<Rightarrow> bool \<times> sessions" where
  "del_session sessid m = (map_of m sessid \<noteq> None, uerase m sessid)"

definition on_session_timer ::
  "(session \<Rightarrow> session_status \<times> session) \<Rightarrow> real \<Rightarrow> real \<Rightarrow> string \<Rightarrow> sessions \<Rightarrow> sessions option" where
  "on_session_timer on_timeout lag now sessid m =
     do {
       s \<leftarrow> map_of m sessid;
       let secs = s_keep_alive s - (now - s_active_time s);
       if secs > 0 then Some (uset m sessid (s\<lparr>s_timer := snd (restart_timer lag secs (s_timer s))\<rparr>))
       else
         let old = s_cur_timeout_cnt s;
             (status, s) = on_timeout s
         in if status \<noteq> SS_RUNNING then Some (snd (del_session sessid m))
            else
              let s = (if old = s_cur_timeout_cnt s then s\<lparr>s_cur_timeout_cnt := s_cur_timeout_cnt s + 1\<rparr> else s)
              in if s_cur_timeout_cnt s \<ge> s_max_timeout_cnt s then Some (snd (del_session sessid m))
                 else Some (uset m sessid (s\<lparr>s_timer := snd (restart_timer lag (s_keep_alive s) (s_timer s))\<rparr>))
     }"

definition session_mgr_clear :: "sessions \<Rightarrow> sessions" where
  "session_mgr_clear m = []"

section \<open>The table of sessions\<close>

definition sessions_inv :: "sessions \<Rightarrow> bool" where
  "sessions_inv m \<longleftrightarrow> distinct (ukeys m) \<and>
     (\<forall>k s. map_of m k = Some s \<longrightarrow> s_sessid s = k \<and> (case s_timer s of None \<Rightarrow> False | Some w \<Rightarrow> tm_active w))"

lemma sessions_invD:
  assumes "sessions_inv m" and "map_of m k = Some s"
  obtains w where "s_sessid s = k" "s_timer s = Some w" "tm_active w"
  using assms unfolding sessions_inv_def by (metis option.case_eq_if option.collapse)

lemma sessions_inv_set:
  assumes "sessions_inv m" and "s_sessid s = k" and "s_timer s = Some w" and "tm_active w"
  shows "sessions_inv (uset m k s)"
  using assms unfolding sessions_inv_def by (auto simp del: map_of_eq_Some_iff)

lemma sessions_inv_erase: "sessions_inv m \<Longrightarrow> sessions_inv (uerase m k)"
  unfolding sessions_inv_def by (auto simp del: map_of_eq_Some_iff)

text \<open>The user's handler keeps the session's identity and its timer.\<close>

definition timeout_ok :: "(session \<Rightarrow> session_status \<times> session) \<Rightarrow> bool" where
  "timeout_ok f \<longleftrightarrow> (\<forall>s. s_sessid (snd (f s)) = s_sessid s \<and> s_timer (snd (f s)) = s_timer s)"

lemma restart_timer_Some: "restart_timer lag secs (Some w) = (True, Some (w\<lparr>tm_active := True, tm_after := secs + lag, tm_repeat := 0\<rparr>))"
  by (simp add: restart_timer_def)

text \<open>One expiry of a session that keeps asking to run.\<close>

lemma on_session_timer_expired:
  assumes "map_of m k = Some s" and "s_keep_alive s \<le> now - s_active_time s"
    and "f s = (SS_RUNNING, s)"
  shows "on_session_timer f lag now k m =
     (if s_cur_timeout_cnt s + 1 \<ge> s_max_timeout_cnt s then Some (uerase m k)
      else Some (uset m k (s\<lparr>s_cur_timeout_cnt := s_cur_timeout_cnt s + 1,
             s_timer := snd (restart_timer lag (s_keep_alive s) (s_timer s))\<rparr>)))"
  using assms by (simp add: on_session_timer_def del_session_def Let_def)

fun expire_times :: "(session \<Rightarrow> session_status \<times> session) \<Rightarrow> real \<Rightarrow> string \<Rightarrow> real list \<Rightarrow> sessions \<Rightarrow> sessions option" where
  "expire_times f lag k [] m = Some m"
| "expire_times f lag k (t # ts) m = do { m \<leftarrow> on_session_timer f lag t k m; expire_times f lag k ts m }"

lemma expire_times_deletes:
  assumes f: "\<And>s. f s = (SS_RUNNING, s)"
  shows "map_of m k = Some s \<Longrightarrow> \<forall>t \<in> set ts. s_keep_alive s \<le> t - s_active_time s \<Longrightarrow>
     length ts = nat (s_max_timeout_cnt s - s_cur_timeout_cnt s) \<Longrightarrow> s_cur_timeout_cnt s < s_max_timeout_cnt s \<Longrightarrow>
     \<exists>m'. expire_times f lag k ts m = Some m' \<and> map_of m' k = None"
proof (induction ts arbitrary: m s)
  case Nil
  then show ?case by simp
next
  case (Cons t ts)
  have ex: "s_keep_alive s \<le> t - s_active_time s" using Cons.prems(2) by simp
  note step = on_session_timer_expired [where f = f and lag = lag, OF Cons.prems(1) ex f]
  show ?case
  proof (cases "s_cur_timeout_cnt s + 1 \<ge> s_max_timeout_cnt s")
    case True
    then have "length (t # ts) = 1" using Cons.prems(3,4) by simp
    then show ?thesis using step True by simp
  next
    case False
    let ?s = "s\<lparr>s_cur_timeout_cnt := s_cur_timeout_cnt s + 1,
        s_timer := snd (restart_timer lag (s_keep_alive s) (s_timer s))\<rparr>"
    have "\<exists>m'. expire_times f lag k ts (uset m k ?s) = Some m' \<and> map_of m' k = None"
    proof (rule Cons.IH [of _ ?s])
      show "length ts = nat (s_max_timeout_cnt ?s - s_cur_timeout_cnt ?s)" using Cons.prems(3,4) by simp
    qed (use Cons.prems False in simp_all)
    then show ?thesis using step False by simp
  qed
qed

section \<open>Properties\<close>

text \<open>
  Every registered session is found under its own id and owns a running timer, and registering,
  deleting and every timer event keep it so.
\<close>

lemma session_table_keeps_inv:
  assumes "sessions_inv m" and "timeout_ok f"
  shows "sessions_inv (fst (snd (add_session e mem lag now s m))) \<and> sessions_inv (snd (del_session k m))
    \<and> sessions_inv (snd (get_session now k re m))
    \<and> (case on_session_timer f lag now k m of None \<Rightarrow> map_of m k = None | Some m' \<Rightarrow> sessions_inv m')"
proof -
  have add: "sessions_inv (fst (snd (add_session e mem lag now s m)))"
    using assms(1) by (auto simp: add_session_def Let_def add_session_timer_def add_timer_event_def
        intro!: sessions_inv_set split: option.splits if_splits)
  have get: "sessions_inv (snd (get_session now k re m))"
  proof (cases "map_of m k")
    case (Some s)
    obtain w where "s_sessid s = k" "s_timer s = Some w" "tm_active w" using sessions_invD [OF assms(1) Some] .
    then show ?thesis using assms(1) Some by (auto simp: get_session_def Let_def intro: sessions_inv_set)
  qed (use assms(1) in \<open>simp add: get_session_def\<close>)
  have tm: "case on_session_timer f lag now k m of None \<Rightarrow> map_of m k = None | Some m' \<Rightarrow> sessions_inv m'"
  proof (cases "map_of m k")
    case None
    then show ?thesis by (simp add: on_session_timer_def)
  next
    case (Some s)
    obtain w where w: "s_sessid s = k" "s_timer s = Some w" "tm_active w" using sessions_invD [OF assms(1) Some] .
    obtain st s1 where f: "f s = (st, s1)" by fastforce
    have s1: "s_sessid s1 = k" "s_timer s1 = Some w" using assms(2) f w unfolding timeout_ok_def by (metis snd_conv)+
    show ?thesis
      using Some w f s1 assms(1)
      by (auto simp: on_session_timer_def del_session_def Let_def restart_timer_Some
          intro!: sessions_inv_set sessions_inv_erase)
  qed
  show ?thesis using add get tm sessions_inv_erase [OF assms(1)] by (simp add: del_session_def)
qed

text \<open>
  A session whose handler keeps answering \<open>RUNNING\<close> does not live for ever: without traffic it is
  deleted at the expiry that reaches \<open>max_timeout_cnt\<close>, the third one by default.
\<close>

lemma silent_session_is_deleted:
  assumes "map_of m k = Some s" and "s_cur_timeout_cnt s = 0" and "0 < s_max_timeout_cnt s"
    and "length ts = nat (s_max_timeout_cnt s)" and "\<forall>t \<in> set ts. s_keep_alive s \<le> t - s_active_time s"
  shows "\<exists>m'. expire_times (\<lambda>s. (SS_RUNNING, s)) lag k ts m = Some m' \<and> map_of m' k = None"
  using expire_times_deletes [where f = "\<lambda>s. (SS_RUNNING, s)"] assms by simp

end
