(* ===== verification/Hash.thy ===== *)
theory Hash
  imports Kim_Prelude
begin

unbundle bit_operations_syntax

text \<open>
  The string hashes of \<open>src/core/util/hash.cpp\<close>, which place the virtual nodes' lookups on the
  ring: two FNV variants and MurmurHash3, on machine words. A \<open>char\<close> is signed, so a byte above
  127 is sign-extended before it is mixed in; \<open>uint8_t\<close> is not.
\<close>

section \<open>Bytes as words\<close>

definition schar :: "char \<Rightarrow> 'a::len word" where
  "schar c = signed (word_of_nat (of_char c) :: 8 word)"

definition uchar :: "char \<Rightarrow> 'a::len word" where
  "uchar c = unsigned (word_of_nat (of_char c) :: 8 word)"

section \<open>FNV\<close>

definition FNV_64_INIT :: "64 word" where "FNV_64_INIT = 0x100000001b3"
definition FNV_64_PRIME :: "64 word" where "FNV_64_PRIME = 0xcbf29ce484222325"

definition fnv1_step :: "64 word \<Rightarrow> char \<Rightarrow> 64 word" where
  "fnv1_step hash c = (hash * FNV_64_PRIME) XOR schar c"

definition hash_fnv1_64 :: "string \<Rightarrow> 32 word" where
  "hash_fnv1_64 key = ucast (foldl fnv1_step FNV_64_INIT key)"

definition fnv1a_step :: "32 word \<Rightarrow> char \<Rightarrow> 32 word" where
  "fnv1a_step hash c = (hash XOR schar c) * ucast FNV_64_PRIME"

definition hash_fnv1a_64 :: "string \<Rightarrow> 32 word" where
  "hash_fnv1a_64 key = foldl fnv1a_step (ucast FNV_64_INIT) key"

section \<open>MurmurHash3\<close>

definition ROT32 :: "32 word \<Rightarrow> nat \<Rightarrow> 32 word" where
  "ROT32 x y = push_bit y x OR drop_bit (32 - y) x"

text \<open>\<open>blocks[i]\<close> on a little-endian machine.\<close>

definition block32 :: "string \<Rightarrow> nat \<Rightarrow> 32 word" where
  "block32 key i = uchar (key ! (4 * i)) OR push_bit 8 (uchar (key ! (4 * i + 1)))
     OR push_bit 16 (uchar (key ! (4 * i + 2))) OR push_bit 24 (uchar (key ! (4 * i + 3)))"

definition murmur_mix :: "32 word \<Rightarrow> 32 word" where
  "murmur_mix k = ROT32 (k * 0xcc9e2d51) 15 * 0x1b873593"

definition murmur_step :: "32 word \<Rightarrow> 32 word \<Rightarrow> 32 word" where
  "murmur_step hash k = ROT32 (hash XOR murmur_mix k) 13 * 5 + 0xe6546b64"

definition murmur_tail :: "string \<Rightarrow> nat \<Rightarrow> nat \<Rightarrow> 32 word" where
  "murmur_tail key off n =
     (let k1 = (if n = 3 then push_bit 16 (uchar (key ! (off + 2))) else 0);
          k1 = (if n = 2 \<or> n = 3 then k1 XOR push_bit 8 (uchar (key ! (off + 1))) else k1)
      in if n = 0 then 0 else murmur_mix (k1 XOR uchar (key ! off)))"

definition murmur_final :: "32 word \<Rightarrow> 32 word" where
  "murmur_final hash =
     (let hash = hash XOR drop_bit 16 hash;
          hash = hash * 0x85ebca6b;
          hash = hash XOR drop_bit 13 hash;
          hash = hash * 0xc2b2ae35
      in hash XOR drop_bit 16 hash)"

text \<open>\<open>len\<close> is \<open>obj.size()\<close> cut to 32 bits by the parameter's type.\<close>

definition murmur3_32 :: "string \<Rightarrow> nat \<Rightarrow> 32 word \<Rightarrow> 32 word" where
  "murmur3_32 key len seed =
     (let nblocks = len div 4;
          hash = foldl murmur_step seed (map (block32 key) [0..<nblocks]);
          hash = hash XOR murmur_tail key (nblocks * 4) (len mod 4)
      in murmur_final (hash XOR word_of_nat len))"

section \<open>Steps of a hash are injective\<close>

lemma mult_inj:
  fixes p :: "'a::len word"
  assumes "p * q = 1" and "a * p = b * p"
  shows "a = b"
proof -
  have "a * (p * q) = b * (p * q)" using assms(2) by (metis mult.assoc)
  then show ?thesis using assms(1) by simp
qed

lemma xor_left_cancel: "(a XOR b = a XOR c) = (b = (c :: 'a::len word))"
  by (metis xor.assoc xor.left_neutral xor_self_eq)

lemma xor_right_cancel: "(a XOR c = b XOR c) = (a = (b :: 'a::len word))"
  by (metis xor.commute xor_left_cancel)

lemma byte_word_inj: "(word_of_nat (of_char a) :: 8 word) = word_of_nat (of_char b) \<Longrightarrow> a = b"
proof -
  assume e: "(word_of_nat (of_char a) :: 8 word) = word_of_nat (of_char b)"
  have "unat (word_of_nat (of_char c) :: 8 word) = of_char c" for c
    by (simp add: unat_of_nat take_bit_eq_mod)
  then have "(of_char a :: nat) = of_char b" using e by metis
  then show "a = b" by simp
qed

lemma ucast_schar: "8 \<le> LENGTH('a) \<Longrightarrow>
    (ucast (schar c :: 'a::len word) :: 8 word) = word_of_nat (of_char c)"
  unfolding schar_def by (rule bit_word_eqI) (auto simp: bit_simps)

lemma ucast_uchar: "8 \<le> LENGTH('a) \<Longrightarrow>
    (ucast (uchar c :: 'a::len word) :: 8 word) = word_of_nat (of_char c)"
  unfolding uchar_def by (rule bit_word_eqI) (auto simp: bit_simps)

lemma schar_inj: "8 \<le> LENGTH('a) \<Longrightarrow> (schar a :: 'a::len word) = schar b \<Longrightarrow> a = b"
  by (metis ucast_schar byte_word_inj)

lemma schar32_eq: "(schar a :: 32 word) = schar b \<longleftrightarrow> a = b"
  using schar_inj [where 'a = 32, of a b] by auto

lemma foldl_inj:
  assumes inj: "\<And>h h' c. f h c = f h' c \<Longrightarrow> h = h'"
    and "foldl f h xs = foldl f h' xs"
  shows "h = h'"
  using assms(2) by (induction xs arbitrary: h h') (auto dest: inj)

text \<open>
  A fold whose step is injective in the state and in the item tells apart two lists that differ
  in one item.
\<close>

lemma foldl_one_difference:
  assumes "\<And>h h' c. f h c = f h' c \<Longrightarrow> h = h'" and "\<And>h c c'. f h c = f h c' \<Longrightarrow> c = c'"
    and "foldl f h (xs @ c # ys) = foldl f h (xs @ c' # ys)"
  shows "c = c'"
proof -
  have "foldl f (f (foldl f h xs) c) ys = foldl f (f (foldl f h xs) c') ys"
    using assms(3) by simp
  then have "f (foldl f h xs) c = f (foldl f h xs) c'"
    using foldl_inj [where f = f] assms(1) by metis
  then show ?thesis by (rule assms(2))
qed

lemma fnv1a_step_state_inj: "fnv1a_step h c = fnv1a_step h' c \<Longrightarrow> h = h'"
  unfolding fnv1a_step_def
  by (drule mult_inj [where q = "0x150140ad", rotated])
    (simp_all add: FNV_64_PRIME_def xor_right_cancel)

lemma fnv1a_step_byte_inj: "fnv1a_step h c = fnv1a_step h c' \<Longrightarrow> c = c'"
  unfolding fnv1a_step_def
  by (drule mult_inj [where q = "0x150140ad", rotated])
    (simp_all add: FNV_64_PRIME_def xor_left_cancel schar32_eq)

lemma fnv1a_step_byte_inj': "fnv1a_step h c = fnv1a_step h c' \<longleftrightarrow> c = c'"
  by (auto dest: fnv1a_step_byte_inj)

text \<open>\<open>hash_fnv1_64\<close> runs on 64 bits and keeps the low 32: the same recurrence on 32 bits.\<close>

definition fnv1_step32 :: "32 word \<Rightarrow> char \<Rightarrow> 32 word" where
  "fnv1_step32 hash c = (hash * ucast FNV_64_PRIME) XOR schar c"

lemma ucast_mult_down: "(ucast (a * b :: 64 word) :: 32 word) = ucast a * ucast b"
proof -
  have "unat (a * b) mod 2 ^ 32 = unat a * unat b mod 2 ^ 32"
    by (simp add: unat_word_ariths mod_mod_cancel)
  then have "word_of_nat (unat (a * b)) = (word_of_nat (unat a * unat b) :: 32 word)"
    by (simp only: word_of_nat_eq_iff take_bit_eq_mod)  simp
  then show ?thesis by (simp only: of_nat_mult of_nat_unat)
qed

lemma ucast_xor_down: "(ucast (a XOR b :: 64 word) :: 32 word) = ucast a XOR ucast b"
  by transfer (simp add: take_bit_xor)

lemma ucast_schar_down: "(ucast (schar c :: 64 word) :: 32 word) = schar c"
  unfolding schar_def by (rule bit_word_eqI) (auto simp: bit_simps)

lemma ucast_fnv1_step: "ucast (fnv1_step h c) = fnv1_step32 (ucast h) c"
  by (simp only: fnv1_step_def fnv1_step32_def ucast_mult_down ucast_xor_down ucast_schar_down)

lemma hash_fnv1_64_low: "hash_fnv1_64 key = foldl fnv1_step32 (ucast FNV_64_INIT) key"
proof -
  have "ucast (foldl fnv1_step h key) = foldl fnv1_step32 (ucast h) key" for h
    by (induction key arbitrary: h) (simp_all add: ucast_fnv1_step)
  then show ?thesis by (simp add: hash_fnv1_64_def)
qed

lemma fnv1_step32_state_inj: "fnv1_step32 h c = fnv1_step32 h' c \<Longrightarrow> h = h'"
  unfolding fnv1_step32_def xor_right_cancel
  by (drule mult_inj [where q = "0x150140ad", rotated]) (simp_all add: FNV_64_PRIME_def)

lemma fnv1_step32_byte_inj: "fnv1_step32 h c = fnv1_step32 h c' \<Longrightarrow> c = c'"
  unfolding fnv1_step32_def xor_left_cancel by (simp add: schar32_eq)

lemma ROT32_inj:
  assumes "0 < n" and "n < 32" and "ROT32 x n = ROT32 y n"
  shows "x = y"
proof -
  have inv: "ROT32 (ROT32 z n) (32 - n) = z" for z
    using assms(1,2) unfolding ROT32_def
    by (intro bit_word_eqI) (auto simp: bit_simps)
  show ?thesis using inv assms(3) by metis
qed

lemma murmur_mix_inj: "murmur_mix a = murmur_mix b \<Longrightarrow> a = b"
  unfolding murmur_mix_def
  by (drule mult_inj [where q = "0x56ed309b", rotated], simp,
      drule ROT32_inj [rotated 2], simp, simp,
      drule mult_inj [where q = "0xdee13bb1", rotated], simp_all)

lemma murmur_step_state_inj: "murmur_step h k = murmur_step h' k \<Longrightarrow> h = h'"
  unfolding murmur_step_def
  by (simp, drule mult_inj [where q = "0xcccccccd", rotated], simp,
      drule ROT32_inj [rotated 2], simp_all add: xor_right_cancel)

lemma murmur_step_block_inj: "murmur_step h k = murmur_step h k' \<Longrightarrow> k = k'"
  unfolding murmur_step_def
  by (simp, drule mult_inj [where q = "0xcccccccd", rotated], simp,
      drule ROT32_inj [rotated 2], simp_all add: xor_left_cancel murmur_mix_inj)

lemma xorshift_inj:
  fixes x y :: "32 word"
  assumes "0 < n" and "x XOR drop_bit n x = y XOR drop_bit n y"
  shows "x = y"
proof (rule ccontr)
  assume "x \<noteq> y"
  then obtain i where i: "bit x i \<noteq> bit y i" by (auto simp: bit_eq_iff)
  have fin: "finite {i. bit x i \<noteq> bit y i}"
    by (rule finite_subset [of _ "{..<32}"]) (auto dest: bit_imp_le_length)
  define m where "m = Max {i. bit x i \<noteq> bit y i}"
  have m: "bit x m \<noteq> bit y m" using Max_in [OF fin] i unfolding m_def by blast
  have "bit x (n + m) = bit y (n + m)"
    using Max_ge [OF fin, of "n + m"] assms(1) unfolding m_def [symmetric] by fastforce
  moreover have "bit (x XOR drop_bit n x) m = bit (y XOR drop_bit n y) m" using assms(2) by simp
  ultimately show False using m by (auto simp: bit_simps)
qed

lemma murmur_final_inj: "murmur_final a = murmur_final b \<Longrightarrow> a = b"
  unfolding murmur_final_def Let_def
  by (drule xorshift_inj [rotated], simp,
      drule mult_inj [where q = "0x7ed1b41d", rotated], simp,
      drule xorshift_inj [rotated], simp,
      drule mult_inj [where q = "0xa5cb9243", rotated], simp,
      drule xorshift_inj [rotated], simp_all)

definition byte8 :: "char \<Rightarrow> 8 word" where
  "byte8 c = word_of_nat (of_char c)"

lemma byte8_eq: "byte8 a = byte8 b \<longleftrightarrow> a = b"
  using byte_word_inj by (auto simp: byte8_def)

lemma block32_bytes:
  "ucast (block32 key i) = byte8 (key ! (4 * i))"
  "ucast (drop_bit 8 (block32 key i)) = byte8 (key ! (4 * i + 1))"
  "ucast (drop_bit 16 (block32 key i)) = byte8 (key ! (4 * i + 2))"
  "ucast (drop_bit 24 (block32 key i)) = byte8 (key ! (4 * i + 3))"
  unfolding block32_def uchar_def byte8_def
  by (rule bit_word_eqI; auto simp: bit_simps dest: bit_imp_le_length)+

lemma block32_inj:
  assumes "block32 key i = block32 key' i" and "j div 4 = i"
  shows "key ! j = key' ! j"
proof -
  have "j = 4 * i + j mod 4" using assms(2) by auto
  moreover have "j mod 4 \<in> {0, 1, 2, 3}" by auto
  ultimately consider "j = 4 * i" | "j = 4 * i + 1" | "j = 4 * i + 2" | "j = 4 * i + 3" by auto
  then show ?thesis
    by cases (use assms(1) block32_bytes byte8_eq in metis)+
qed

definition tail_word :: "string \<Rightarrow> nat \<Rightarrow> nat \<Rightarrow> 32 word" where
  "tail_word key off n =
     ((if n = 3 then push_bit 16 (uchar (key ! (off + 2))) else 0)
      XOR (if n = 2 \<or> n = 3 then push_bit 8 (uchar (key ! (off + 1))) else 0)) XOR uchar (key ! off)"

lemma murmur_tail_word: "murmur_tail key off n = (if n = 0 then 0 else murmur_mix (tail_word key off n))"
  by (simp add: murmur_tail_def tail_word_def Let_def)

lemma tail_word_bytes:
  "ucast (tail_word key off n) = byte8 (key ! off)"
  "n = 2 \<or> n = 3 \<Longrightarrow> ucast (drop_bit 8 (tail_word key off n)) = byte8 (key ! (off + 1))"
  "n = 3 \<Longrightarrow> ucast (drop_bit 16 (tail_word key off n)) = byte8 (key ! (off + 2))"
  unfolding tail_word_def uchar_def byte8_def
  by (rule bit_word_eqI; auto simp: bit_simps dest: bit_imp_le_length)+

lemma murmur_tail_inj:
  assumes "murmur_tail key off n = murmur_tail key' off n" and "j < n" and "n < 4"
  shows "key ! (off + j) = key' ! (off + j)"
proof -
  have t: "tail_word key off n = tail_word key' off n"
    using assms by (auto simp: murmur_tail_word dest: murmur_mix_inj split: if_splits)
  consider "j = 0" | "j = 1" "n = 2 \<or> n = 3" | "j = 2" "n = 3" using assms(2,3) by force
  then show ?thesis
    by cases (use t tail_word_bytes byte8_eq in \<open>metis add.right_neutral\<close>)+
qed

lemma murmur_blocks_split:
  assumes "i < n"
  shows "map (block32 key) [0..<n] =
     map (block32 key) [0..<i] @ block32 key i # map (block32 key) [Suc i..<n]"
proof -
  have "[0..<n] = [0..<i] @ i # [Suc i..<n]"
    using assms upt_add_eq_append [of 0 i "n - i"] upt_conv_Cons [OF assms] by simp
  then show ?thesis by simp
qed

lemma block32_update: "j div 4 \<noteq> i \<Longrightarrow> block32 (key[j := b]) i = block32 key i"
proof -
  assume "j div 4 \<noteq> i"
  then have "j \<noteq> 4 * i" "j \<noteq> 4 * i + 1" "j \<noteq> 4 * i + 2" "j \<noteq> 4 * i + 3" by auto
  then show ?thesis by (simp add: block32_def)
qed

lemma murmur3_32_state:
  assumes "murmur3_32 key len seed = murmur3_32 key' len seed"
  shows "foldl murmur_step seed (map (block32 key) [0..<len div 4]) XOR murmur_tail key (len div 4 * 4) (len mod 4)
       = foldl murmur_step seed (map (block32 key') [0..<len div 4]) XOR murmur_tail key' (len div 4 * 4) (len mod 4)"
  using murmur_final_inj assms unfolding murmur3_32_def Let_def by (metis xor_right_cancel)

lemma murmur_change_in_block:
  assumes "j < len div 4 * 4" and "j < length key" and "b \<noteq> key ! j"
  shows "murmur3_32 (key[j := b]) len seed \<noteq> murmur3_32 key len seed"
proof
  let ?k = "key[j := b]" and ?i = "j div 4" and ?n = "len div 4"
  assume "murmur3_32 ?k len seed = murmur3_32 key len seed"
  note eq = murmur3_32_state [OF this]
  have i: "?i < ?n" using assms(1) by (simp add: less_mult_imp_div_less)
  have "murmur_tail ?k (?n * 4) (len mod 4) = murmur_tail key (?n * 4) (len mod 4)"
    using assms(1) by (simp add: murmur_tail_def)
  then have eq': "foldl murmur_step seed (map (block32 ?k) [0..<?n])
      = foldl murmur_step seed (map (block32 key) [0..<?n])"
    using eq by (simp add: xor_right_cancel)
  have out: "map (block32 ?k) [0..<?i] = map (block32 key) [0..<?i]"
    "map (block32 ?k) [Suc ?i..<?n] = map (block32 key) [Suc ?i..<?n]"
    by (auto simp: block32_update)
  have "block32 ?k ?i = block32 key ?i"
    using eq' unfolding murmur_blocks_split [OF i] out
    by (metis foldl_one_difference murmur_step_state_inj murmur_step_block_inj)
  then have "?k ! j = key ! j" by (rule block32_inj) simp
  then show False using assms(2,3) by simp
qed

lemma murmur_change_in_tail:
  assumes "len div 4 * 4 \<le> j" and "j < len" and "j < length key" and "b \<noteq> key ! j"
  shows "murmur3_32 (key[j := b]) len seed \<noteq> murmur3_32 key len seed"
proof
  let ?k = "key[j := b]" and ?n = "len div 4"
  assume "murmur3_32 ?k len seed = murmur3_32 key len seed"
  note eq = murmur3_32_state [OF this]
  have blk: "map (block32 ?k) [0..<?n] = map (block32 key) [0..<?n]"
    using assms(1) by (auto intro!: block32_update simp: less_mult_imp_div_less)
  have "murmur_tail ?k (?n * 4) (len mod 4) = murmur_tail key (?n * 4) (len mod 4)"
    using eq unfolding blk xor_left_cancel .
  moreover have "j - ?n * 4 < len mod 4" using assms(1,2) by (metis div_mult_mod_eq less_diff_conv2 add.commute)
  ultimately have "?k ! (?n * 4 + (j - ?n * 4)) = key ! (?n * 4 + (j - ?n * 4))"
    by (rule murmur_tail_inj) simp
  then show False using assms by simp
qed

text \<open>
  Keys that differ in one byte never collide under either FNV variant, the default hash of the
  ring included, whatever the bytes around it and although a byte above 127 is sign-extended.
\<close>

lemma fnv_separates_one_byte:
  assumes "c \<noteq> c'"
  shows "hash_fnv1a_64 (xs @ c # ys) \<noteq> hash_fnv1a_64 (xs @ c' # ys)
    \<and> hash_fnv1_64 (xs @ c # ys) \<noteq> hash_fnv1_64 (xs @ c' # ys)"
  using assms unfolding hash_fnv1a_64_def hash_fnv1_64_low
  by (metis foldl_one_difference fnv1a_step_state_inj fnv1a_step_byte_inj
        fnv1_step32_state_inj fnv1_step32_byte_inj)

text \<open>
  MurmurHash3 has the same property for every byte it reads, in a whole block or in the tail
  after the last one, for every seed.
\<close>

lemma murmur_separates_one_byte:
  assumes "j < len" and "len \<le> length key" and "b \<noteq> key ! j"
  shows "murmur3_32 (key[j := b]) len seed \<noteq> murmur3_32 key len seed"
  using assms murmur_change_in_block murmur_change_in_tail by (cases "j < len div 4 * 4") auto

end
