(* ===== verification/Nodes_Mgr.thy ===== *)
theory Nodes_Mgr
  imports Complex_Main Hash Util_Str
begin

text \<open>
  The cluster's node table, \<open>src/core/nodes.cpp\<close>: the zookeeper nodes the process has been told of,
  the worker nodes each of them stands for, and one ring of virtual nodes per node type
  (consistent hashing) that routes an object to a worker.

  A \<open>node_t*\<close> is an address of the explicit heap \<open>m_heap\<close>: \<open>m_nodes\<close> and the rings hold addresses,
  \<open>new\<close> takes an unused one, \<open>delete\<close> removes the cell, and reading through a pointer looks the
  heap up, so a dangling pointer is an address without a cell. The digest \<open>md5\<close> (Crypto++) is a
  parameter that returns 16 bytes.
\<close>

section \<open>Data\<close>

record node_t =
  n_id :: string
  n_type :: string
  n_host :: string
  n_port :: int
  n_worker_index :: int
  n_vnodes :: "nat list"

text \<open>The protobuf message \<open>zk_node\<close> (\<open>protobuf/sys/nodes.proto\<close>).\<close>

record zk_node =
  zn_path :: string
  zn_type :: string
  zn_host :: string
  zn_port :: nat
  zn_worker_cnt :: nat
  zn_active_time :: real

datatype HASH_ALGORITHM = FNV1A_64 | FNV1_64 | MURMUR3_32

record nodes =
  m_vnode_cnt :: int
  m_ha :: HASH_ALGORITHM
  m_version :: nat
  m_my_zk_node :: string
  m_host_zk_paths :: "(string \<times> string) list"
  m_zk_nodes :: "(string \<times> zk_node) list"
  m_nodes :: "(string \<times> nat) list"
  m_vnodes :: "(string \<times> (nat \<times> nat) list) list"
  m_heap :: "(nat \<times> node_t) list"

definition new_nodes :: "int \<Rightarrow> HASH_ALGORITHM \<Rightarrow> nodes" where
  "new_nodes vnode_cnt ha =
     \<lparr>m_vnode_cnt = vnode_cnt, m_ha = ha, m_version = 0, m_my_zk_node = '''', m_host_zk_paths = [],
      m_zk_nodes = [], m_nodes = [], m_vnodes = [], m_heap = []\<rparr>"

section \<open>Hashing\<close>

definition hash :: "nodes \<Rightarrow> string \<Rightarrow> nat" where
  "hash s obj =
     (case m_ha s of
        FNV1_64 \<Rightarrow> unat (hash_fnv1_64 obj)
      | MURMUR3_32 \<Rightarrow> unat (murmur3_32 obj (length obj mod 2 ^ 32) 0x1b3)
      | FNV1A_64 \<Rightarrow> unat (hash_fnv1a_64 obj))"

definition vnode_at :: "string \<Rightarrow> nat \<Rightarrow> nat" where
  "vnode_at s j =
     of_char (s ! (3 + j * 4)) * 2 ^ 24 + of_char (s ! (2 + j * 4)) * 2 ^ 16
     + of_char (s ! (1 + j * 4)) * 2 ^ 8 + of_char (s ! (j * 4))"

definition gen_vnodes :: "(string \<Rightarrow> string) \<Rightarrow> int \<Rightarrow> string \<Rightarrow> nat list" where
  "gen_vnodes md5 vnode_cnt node_id =
     concat (map (\<lambda>i.
       let s = md5 (format_str (dec_int (c_int (vnode_cnt - int i)) @ ''@'' @ c_str node_id @ ''#'' @ dec_int (int i)))
       in map (vnode_at s) [0..<4]) [0..<nat (vnode_cnt div 4)])"

section \<open>Nodes\<close>

text \<open>The loop of \<open>add_node\<close>: every virtual node that is not taken yet now points to the node.\<close>

fun insert_vnodes :: "nat \<Rightarrow> nat list \<Rightarrow> (nat \<times> nat) list \<Rightarrow> (nat \<times> nat) list" where
  "insert_vnodes node [] ring = ring"
| "insert_vnodes node (v # vs) ring = insert_vnodes node vs (snd (omap_insert v node ring))"

definition add_node :: "(string \<Rightarrow> string) \<Rightarrow> nodes \<Rightarrow> string \<Rightarrow> string \<Rightarrow> int \<Rightarrow> int \<Rightarrow> bool \<times> nodes" where
  "add_node md5 s node_type host port worker =
     (let node_id = format_nodes_id host port worker in
      if map_of (m_nodes s) node_id \<noteq> None then (True, s)
      else
        let s = s\<lparr>m_version := (m_version s + 1) mod 2 ^ 32\<rparr>;
            vnode2node = (case map_of (m_vnodes s) node_type of None \<Rightarrow> [] | Some r \<Rightarrow> r);
            vnodes = gen_vnodes md5 (m_vnode_cnt s) node_id;
            node = fresh_addr (m_heap s);
            s = s\<lparr>m_heap := uset (m_heap s) node
                   \<lparr>n_id = node_id, n_type = node_type, n_host = host, n_port = port,
                    n_worker_index = worker, n_vnodes = vnodes\<rparr>\<rparr>;
            ring = insert_vnodes node vnodes vnode2node;
            s = s\<lparr>m_vnodes := uset (m_vnodes s) node_type ring\<rparr>
        in if length ring = length vnode2node
           then (False, s\<lparr>m_heap := uerase (m_heap s) node\<rparr>)
           else (True, s\<lparr>m_nodes := uset (m_nodes s) node_id node\<rparr>))"

fun erase_vnodes :: "nat list \<Rightarrow> (nat \<times> nat) list \<Rightarrow> (nat \<times> nat) list" where
  "erase_vnodes [] ring = ring"
| "erase_vnodes (v # vs) ring = erase_vnodes vs (omap_erase v ring)"

text \<open>\<open>None\<close>: the pointer found in \<open>m_nodes\<close> is dangling.\<close>

definition del_node :: "nodes \<Rightarrow> string \<Rightarrow> (bool \<times> nodes) option" where
  "del_node s node_id =
     (case map_of (m_nodes s) node_id of
        None \<Rightarrow> Some (False, s)
      | Some p \<Rightarrow>
          do {
            node \<leftarrow> map_of (m_heap s) p;
            let s = s\<lparr>m_version := (m_version s + 1) mod 2 ^ 32\<rparr>;
            let s = (case map_of (m_vnodes s) (n_type node) of
                       None \<Rightarrow> s
                     | Some ring \<Rightarrow>
                         s\<lparr>m_vnodes := uset (m_vnodes s) (n_type node) (erase_vnodes (n_vnodes node) ring)\<rparr>);
            Some (True, s\<lparr>m_heap := uerase (m_heap s) p, m_nodes := uerase (m_nodes s) node_id\<rparr>)
          })"

text \<open>The loops over the worker indexes from \<open>i\<close>.\<close>

fun add_workers :: "(string \<Rightarrow> string) \<Rightarrow> nat list \<Rightarrow> string \<Rightarrow> string \<Rightarrow> int \<Rightarrow> nodes \<Rightarrow> nodes" where
  "add_workers md5 [] ty host port s = s"
| "add_workers md5 (i # is) ty host port s =
     add_workers md5 is ty host port (snd (add_node md5 s ty host port (c_int (int i))))"

fun del_workers :: "nat list \<Rightarrow> string \<Rightarrow> int \<Rightarrow> nodes \<Rightarrow> nodes option" where
  "del_workers [] host port s = Some s"
| "del_workers (i # is) host port s =
     do {
       (_, s) \<leftarrow> del_node s (format_nodes_id host port (c_int (int i)));
       del_workers is host port s
     }"

definition get_node_worker_index :: "nodes \<Rightarrow> string \<Rightarrow> int option" where
  "get_node_worker_index s node_id =
     (case map_of (m_nodes s) node_id of
        None \<Rightarrow> Some (- 1)
      | Some p \<Rightarrow> map_option n_worker_index (map_of (m_heap s) p))"

text \<open>The result is the pointer; \<open>None\<close> is \<open>nullptr\<close>.\<close>

definition get_node_in_hash :: "nodes \<Rightarrow> string \<Rightarrow> string \<Rightarrow> nat option" where
  "get_node_in_hash s node_type obj =
     (case map_of (m_vnodes s) node_type of
        None \<Rightarrow> None
      | Some vnode2node \<Rightarrow>
          (if vnode2node = [] then None
           else (case omap_lower_bound (hash s obj) vnode2node of
                   None \<Rightarrow> Some (snd (hd vnode2node))
                 | Some (_, node) \<Rightarrow> Some node)))"

definition get_node_in_hash_int :: "nodes \<Rightarrow> string \<Rightarrow> int \<Rightarrow> nat option" where
  "get_node_in_hash_int s node_type obj = get_node_in_hash s node_type (dec_int obj)"

section \<open>Zookeeper nodes\<close>

definition is_valid_zk_node :: "zk_node \<Rightarrow> bool" where
  "is_valid_zk_node z \<longleftrightarrow>
     \<not> (zn_path z = [] \<or> zn_host z = [] \<or> zn_port z = 0 \<or> zn_type z = []
        \<or> zn_worker_cnt z = 0 \<or> zn_active_time z = 0)"

definition host_key :: "zk_node \<Rightarrow> string" where
  "host_key z = format_str (c_str (zn_host z) @ '':'' @ dec_int (c_int (int (zn_port z))))"

definition zn_port_int :: "zk_node \<Rightarrow> int" where
  "zn_port_int z = c_int (int (zn_port z))"

definition del_zk_node :: "nodes \<Rightarrow> string \<Rightarrow> (bool \<times> nodes) option" where
  "del_zk_node s path =
     (case map_of (m_zk_nodes s) path of
        None \<Rightarrow> Some (False, s)
      | Some znode \<Rightarrow>
          do {
            s \<leftarrow> del_workers [1..<Suc (zn_worker_cnt znode)] (zn_host znode) (zn_port_int znode) s;
            let s = s\<lparr>m_host_zk_paths := uerase (m_host_zk_paths s) (host_key znode)\<rparr>;
            Some (True, s\<lparr>m_zk_nodes := uerase (m_zk_nodes s) path\<rparr>)
          })"

text \<open>
  \<open>old\<close> is a reference to the map's element. After \<open>del_zk_node(old.path())\<close> has erased that element the
  log call still reads \<open>old.path()\<close>: \<open>None\<close>.
\<close>

definition check_zk_node_host :: "nodes \<Rightarrow> zk_node \<Rightarrow> (bool \<times> nodes) option" where
  "check_zk_node_host s cur =
     (case map_of (m_host_zk_paths s) (host_key cur) of
        None \<Rightarrow> Some (True, s)
      | Some path \<Rightarrow>
          (case map_of (m_zk_nodes s) path of
             None \<Rightarrow> Some (True, s\<lparr>m_host_zk_paths := uerase (m_host_zk_paths s) (host_key cur)\<rparr>)
           | Some old \<Rightarrow>
               if zn_path cur = zn_path old then Some (True, s)
               else if zn_active_time cur \<le> zn_active_time old then Some (False, s)
               else do {
                 (_, s) \<leftarrow> del_zk_node s (zn_path old);
                 if map_of (m_zk_nodes s) path = None then None else Some (True, s)
               }))"

text \<open>
  In the update branch \<open>old\<close> is a reference to the map's element, which the line before the first
  loop overwrites: the loop that removes the old workers reads the new message, and stops one
  short.
\<close>

definition add_zk_node :: "(string \<Rightarrow> string) \<Rightarrow> nodes \<Rightarrow> zk_node \<Rightarrow> (bool \<times> nodes) option" where
  "add_zk_node md5 s znode =
     (if \<not> is_valid_zk_node znode then Some (False, s)
      else do {
        (ok, s) \<leftarrow> check_zk_node_host s znode;
        if \<not> ok then Some (False, s)
        else do {
          s \<leftarrow> (case map_of (m_zk_nodes s) (zn_path znode) of
                  None \<Rightarrow>
                    Some (add_workers md5 [1..<Suc (zn_worker_cnt znode)] (zn_type znode) (zn_host znode)
                            (zn_port_int znode) (s\<lparr>m_zk_nodes := uset (m_zk_nodes s) (zn_path znode) znode\<rparr>))
                | Some old \<Rightarrow>
                    if old \<noteq> znode then do {
                      let s = s\<lparr>m_zk_nodes := uset (m_zk_nodes s) (zn_path znode) znode\<rparr>;
                      let old = znode;
                      s \<leftarrow> del_workers [1..<zn_worker_cnt old] (zn_host old) (zn_port_int old) s;
                      Some (add_workers md5 [1..<Suc (zn_worker_cnt znode)] (zn_type znode) (zn_host znode)
                              (zn_port_int znode) s)
                    } else Some s);
          Some (True, s\<lparr>m_host_zk_paths := uset (m_host_zk_paths s) (host_key znode) (zn_path znode)\<rparr>)
        }
      })"

definition get_zk_diff_nodes :: "nodes \<Rightarrow> string \<Rightarrow> string list \<Rightarrow> string list \<times> string list" where
  "get_zk_diff_nodes s ty ins =
     (let vec = map fst (filter (\<lambda>v. ty = zn_type (snd v)) (m_zk_nodes s))
      in (diff_cmp ins vec, diff_cmp vec ins))"

definition nodes_clear :: "nodes \<Rightarrow> nodes" where
  "nodes_clear s =
     s\<lparr>m_my_zk_node := '''', m_host_zk_paths := [], m_zk_nodes := [],
       m_heap := filter (\<lambda>c. fst c \<notin> snd ` set (m_nodes s)) (m_heap s), m_nodes := [], m_vnodes := []\<rparr>"

section \<open>Rings\<close>

lemma omap_insert_same: "\<not> fst (omap_insert k v m) \<Longrightarrow> snd (omap_insert k v m) = m"
  by (induction k v m rule: omap_insert.induct) (auto simp: case_prod_beta Let_def split: if_splits)

lemma omap_insert_length:
  "length (snd (omap_insert k v m)) = (if fst (omap_insert k v m) then Suc (length m) else length m)"
  by (induction k v m rule: omap_insert.induct) (auto simp: case_prod_beta Let_def)

lemma insert_vnodes_ok: "omap_ok r \<Longrightarrow> omap_ok (insert_vnodes p vs r)"
  by (induction vs arbitrary: r) (simp_all add: omap_insert_ok)

lemma insert_vnodes_mono: "set r \<subseteq> set (insert_vnodes p vs r)"
proof (induction vs arbitrary: r)
  case (Cons v vs)
  have "set r \<subseteq> set (snd (omap_insert v p r))" by (auto simp: omap_insert_set)
  then show ?case using Cons.IH [of "snd (omap_insert v p r)"] by simp
qed simp

lemma insert_vnodes_bound: "set (insert_vnodes p vs r) \<subseteq> set r \<union> (\<lambda>v. (v, p)) ` set vs"
proof (induction vs arbitrary: r)
  case (Cons v vs)
  then show ?case using Cons.IH [of "snd (omap_insert v p r)"] omap_insert_subset [of v p r] by auto
qed simp

lemma insert_vnodes_length: "length r \<le> length (insert_vnodes p vs r)"
proof (induction vs arbitrary: r)
  case (Cons v vs)
  then show ?case using Cons.IH [of "snd (omap_insert v p r)"] by (simp add: omap_insert_length split: if_splits)
qed simp

lemma insert_vnodes_same: "length (insert_vnodes p vs r) = length r \<Longrightarrow> insert_vnodes p vs r = r"
proof (induction vs arbitrary: r)
  case (Cons v vs)
  let ?r = "snd (omap_insert v p r)"
  have "length (insert_vnodes p vs ?r) = length r" using Cons.prems by simp
  then have "\<not> fst (omap_insert v p r)"
    using insert_vnodes_length [of ?r p vs] by (auto simp: omap_insert_length)
  then have "?r = r" by (rule omap_insert_same)
  with Cons show ?case by simp
qed simp

lemma erase_vnodes_set:
  "omap_ok r \<Longrightarrow> omap_ok (erase_vnodes vs r) \<and> set (erase_vnodes vs r) = {q \<in> set r. fst q \<notin> set vs}"
  by (induction vs arbitrary: r) (auto simp: omap_erase_set omap_erase_ok)

section \<open>No pointer dangles\<close>

definition ring_entry_ok :: "nodes \<Rightarrow> string \<Rightarrow> nat \<Rightarrow> nat \<Rightarrow> bool" where
  "ring_entry_ok s t v p \<longleftrightarrow>
     (case map_of (m_heap s) p of None \<Rightarrow> False | Some n \<Rightarrow> n_type n = t \<and> v \<in> set (n_vnodes n))"

definition ring_ok :: "nodes \<Rightarrow> string \<Rightarrow> (nat \<times> nat) list \<Rightarrow> bool" where
  "ring_ok s t r \<longleftrightarrow> omap_ok r \<and> (\<forall>v p. (v, p) \<in> set r \<longrightarrow> ring_entry_ok s t v p)"

definition rings_inv :: "nodes \<Rightarrow> bool" where
  "rings_inv s \<longleftrightarrow>
     distinct (ukeys (m_nodes s)) \<and> distinct (ukeys (m_vnodes s)) \<and> distinct (ukeys (m_heap s))
     \<and> (\<forall>id p. map_of (m_nodes s) id = Some p \<longrightarrow> (\<exists>n. map_of (m_heap s) p = Some n \<and> n_id n = id))
     \<and> (\<forall>p n. map_of (m_heap s) p = Some n \<longrightarrow> map_of (m_nodes s) (n_id n) = Some p)
     \<and> (\<forall>t r. map_of (m_vnodes s) t = Some r \<longrightarrow> ring_ok s t r)"

definition zk_inv :: "nodes \<Rightarrow> bool" where
  "zk_inv s \<longleftrightarrow>
     distinct (ukeys (m_zk_nodes s)) \<and> distinct (ukeys (m_host_zk_paths s))
     \<and> (\<forall>path z. map_of (m_zk_nodes s) path = Some z \<longrightarrow> zn_path z = path \<and> is_valid_zk_node z)"

definition nodes_inv :: "nodes \<Rightarrow> bool" where
  "nodes_inv s \<longleftrightarrow> rings_inv s \<and> zk_inv s"

lemma rings_inv_ring:
  "rings_inv s \<Longrightarrow> map_of (m_vnodes s) t = Some r \<Longrightarrow> ring_ok s t r"
  by (simp add: rings_inv_def)

lemma rings_inv_node:
  assumes "rings_inv s" and "map_of (m_nodes s) i = Some p"
  obtains n where "map_of (m_heap s) p = Some n" "n_id n = i"
  using assms unfolding rings_inv_def by blast

lemma rings_inv_cell:
  "rings_inv s \<Longrightarrow> map_of (m_heap s) p = Some n \<Longrightarrow> map_of (m_nodes s) (n_id n) = Some p"
  unfolding rings_inv_def by blast

lemma ring_ok_entry:
  assumes "ring_ok s t r" and "(v, p) \<in> set r"
  obtains n where "map_of (m_heap s) p = Some n" "n_type n = t" "v \<in> set (n_vnodes n)"
proof (cases "map_of (m_heap s) p")
  case None
  then show ?thesis using assms unfolding ring_ok_def ring_entry_ok_def by fastforce
next
  case (Some n)
  moreover have "ring_entry_ok s t v p" using assms unfolding ring_ok_def by blast
  ultimately show ?thesis by (intro that [of n]) (simp_all add: ring_entry_ok_def)
qed

lemma rings_invI:
  assumes "distinct (ukeys (m_nodes s))" and "distinct (ukeys (m_vnodes s))" and "distinct (ukeys (m_heap s))"
    and "\<And>i p. map_of (m_nodes s) i = Some p \<Longrightarrow> \<exists>n. map_of (m_heap s) p = Some n \<and> n_id n = i"
    and "\<And>p n. map_of (m_heap s) p = Some n \<Longrightarrow> map_of (m_nodes s) (n_id n) = Some p"
    and "\<And>t r. map_of (m_vnodes s) t = Some r \<Longrightarrow> ring_ok s t r"
  shows "rings_inv s"
  using assms unfolding rings_inv_def by blast

lemma rings_inv_distinct:
  "rings_inv s \<Longrightarrow> distinct (ukeys (m_nodes s)) \<and> distinct (ukeys (m_vnodes s)) \<and> distinct (ukeys (m_heap s))"
  unfolding rings_inv_def by blast

lemma rings_inv_cong:
  "m_nodes s = m_nodes s' \<Longrightarrow> m_vnodes s = m_vnodes s' \<Longrightarrow> m_heap s = m_heap s' \<Longrightarrow> rings_inv s = rings_inv s'"
  by (simp add: rings_inv_def ring_ok_def ring_entry_ok_def)

lemma add_node_frame:
  "m_zk_nodes (snd (add_node md5 s ty h po w)) = m_zk_nodes s
   \<and> m_host_zk_paths (snd (add_node md5 s ty h po w)) = m_host_zk_paths s
   \<and> m_ha (snd (add_node md5 s ty h po w)) = m_ha s
   \<and> m_vnode_cnt (snd (add_node md5 s ty h po w)) = m_vnode_cnt s"
  by (simp add: add_node_def Let_def)

text \<open>What a successful insertion of a new node does to the three tables.\<close>

lemma add_node_cases:
  obtains (present) "map_of (m_nodes s) (format_nodes_id h po w) \<noteq> None" "add_node md5 s ty h po w = (True, s)"
  | (full) s' r where "map_of (m_nodes s) (format_nodes_id h po w) = None"
      "r = (case map_of (m_vnodes s) ty of None \<Rightarrow> [] | Some r \<Rightarrow> r)"
      "add_node md5 s ty h po w = (False, s')" "m_nodes s' = m_nodes s"
      "m_heap s' = uerase (uset (m_heap s) (fresh_addr (m_heap s)) \<lparr>n_id = format_nodes_id h po w, n_type = ty,
         n_host = h, n_port = po, n_worker_index = w,
         n_vnodes = gen_vnodes md5 (m_vnode_cnt s) (format_nodes_id h po w)\<rparr>) (fresh_addr (m_heap s))"
      "m_vnodes s' = uset (m_vnodes s) ty r"
  | (added) s' r p vs where "map_of (m_nodes s) (format_nodes_id h po w) = None"
      "r = (case map_of (m_vnodes s) ty of None \<Rightarrow> [] | Some r \<Rightarrow> r)"
      "p = fresh_addr (m_heap s)" "vs = gen_vnodes md5 (m_vnode_cnt s) (format_nodes_id h po w)"
      "add_node md5 s ty h po w = (True, s')" "m_nodes s' = uset (m_nodes s) (format_nodes_id h po w) p"
      "m_heap s' = uset (m_heap s) p \<lparr>n_id = format_nodes_id h po w, n_type = ty,
         n_host = h, n_port = po, n_worker_index = w, n_vnodes = vs\<rparr>"
      "m_vnodes s' = uset (m_vnodes s) ty (insert_vnodes p vs r)"
proof (cases "map_of (m_nodes s) (format_nodes_id h po w)")
  case (Some q)
  then show ?thesis by (intro present) (simp_all add: add_node_def)
next
  case None
  let ?p = "fresh_addr (m_heap s)" and ?vs = "gen_vnodes md5 (m_vnode_cnt s) (format_nodes_id h po w)"
  let ?r = "case map_of (m_vnodes s) ty of None \<Rightarrow> [] | Some r \<Rightarrow> r"
  show ?thesis
  proof (cases "length (insert_vnodes ?p ?vs ?r) = length ?r")
    case True
    with None insert_vnodes_same [OF True] show ?thesis
      by (intro full [OF None refl, where s' = "snd (add_node md5 s ty h po w)"])
        (simp_all add: add_node_def Let_def)
  next
    case False
    with None show ?thesis
      by (intro added [OF None refl refl refl, where s' = "snd (add_node md5 s ty h po w)"])
        (simp_all add: add_node_def Let_def)
  qed
qed

lemma ring_entry_ok_new:
  assumes "map_of (m_heap s) p = None" and "m_heap s' = uset (m_heap s) p n"
  shows "ring_entry_ok s t v q \<Longrightarrow> ring_entry_ok s' t v q"
    and "ring_entry_ok s' t v p \<longleftrightarrow> n_type n = t \<and> v \<in> set (n_vnodes n)"
  using assms by (auto simp: ring_entry_ok_def split: option.splits)

lemma add_node_keeps: "rings_inv s \<Longrightarrow> rings_inv (snd (add_node md5 s ty h po w))"
proof -
  assume inv: "rings_inv s"
  note free = fresh_addr_free [of "m_heap s"]
  show ?thesis
  proof (cases rule: add_node_cases [of s h po w md5 ty])
    case present
    then show ?thesis using inv by simp
  next
    case (full s' r)
    have hp: "map_of (m_heap s') = map_of (m_heap s)"
      using full(5) free by (simp add: fun_upd_idem)
    have r: "ring_ok s ty r"
      using rings_inv_ring [OF inv] full(2) by (auto simp: ring_ok_def [of _ _ "[]"] split: option.splits)
    have ent: "ring_ok s' = ring_ok s" by (simp add: ring_ok_def ring_entry_ok_def hp fun_eq_iff)
    show ?thesis unfolding full(3) snd_conv
    proof (rule rings_invI)
      show "\<exists>n. map_of (m_heap s') p = Some n \<and> n_id n = i" if "map_of (m_nodes s') i = Some p" for i p
        using rings_inv_node [OF inv] that hp full(4) by metis
      show "map_of (m_nodes s') (n_id n) = Some p" if "map_of (m_heap s') p = Some n" for p n
        using rings_inv_cell [OF inv] that hp full(4) by metis
      show "ring_ok s' t r'" if "map_of (m_vnodes s') t = Some r'" for t r'
        using that full(6) r rings_inv_ring [OF inv] ent by (auto split: if_splits)
    qed (use rings_inv_distinct [OF inv] full(4-6) in simp_all)
  next
    case (added s' r p vs)
    have fp: "map_of (m_heap s) p = None" using free added(3) by simp
    note ent = ring_entry_ok_new [OF fp added(7)]
    have r: "ring_ok s ty r"
      using rings_inv_ring [OF inv] added(2) by (auto simp: ring_ok_def [of _ _ "[]"] split: option.splits)
    have new: "ring_ok s' ty (insert_vnodes p vs r)"
    proof -
      have "ring_entry_ok s' ty v q" if e: "(v, q) \<in> set (insert_vnodes p vs r)" for v q
      proof -
        consider "(v, q) \<in> set r" | "q = p" "v \<in> set vs"
          using subsetD [OF insert_vnodes_bound e] by auto
        then show ?thesis using r ent by cases (simp_all add: ring_ok_def)
      qed
      then show ?thesis using r insert_vnodes_ok by (simp add: ring_ok_def)
    qed
    have old: "map_of (m_vnodes s) t = Some r' \<Longrightarrow> ring_ok s' t r'" for t r'
      using rings_inv_ring [OF inv, of t r'] ent(1) by (simp add: ring_ok_def)
    show ?thesis unfolding added(5) snd_conv
    proof (rule rings_invI)
      show "\<exists>n. map_of (m_heap s') q = Some n \<and> n_id n = i" if "map_of (m_nodes s') i = Some q" for i q
      proof (cases "i = format_nodes_id h po w")
        case False
        then have m: "map_of (m_nodes s) i = Some q" using that added(6) by simp
        obtain n where "map_of (m_heap s) q = Some n" "n_id n = i" using rings_inv_node [OF inv m] .
        then show ?thesis using added(7) fp by auto
      qed (use that added(6,7) in auto)
      show "map_of (m_nodes s') (n_id n) = Some q" if "map_of (m_heap s') q = Some n" for q n
      proof (cases "q = p")
        case False
        then have "map_of (m_nodes s) (n_id n) = Some q" using that added(7) rings_inv_cell [OF inv] by auto
        then show ?thesis using added(1,6) by auto
      qed (use that added(6,7) in auto)
      show "ring_ok s' t r'" if "map_of (m_vnodes s') t = Some r'" for t r'
        using that added(8) new old by (auto split: if_splits)
    qed (use rings_inv_distinct [OF inv] added(6-8) in simp_all)
  qed
qed

lemma add_workers_keeps: "rings_inv s \<Longrightarrow> rings_inv (add_workers md5 is ty h po s)"
  by (induction "is" arbitrary: s) (simp_all add: add_node_keeps)

lemma add_workers_frame:
  "m_zk_nodes (add_workers md5 is ty h po s) = m_zk_nodes s
   \<and> m_host_zk_paths (add_workers md5 is ty h po s) = m_host_zk_paths s
   \<and> m_ha (add_workers md5 is ty h po s) = m_ha s"
  by (induction "is" arbitrary: s) (simp_all add: add_node_frame)

lemma del_node_present:
  assumes "rings_inv s" and "map_of (m_nodes s) nid = Some p"
  obtains n s' where "map_of (m_heap s) p = Some n" "n_id n = nid" "del_node s nid = Some (True, s')"
    "m_nodes s' = uerase (m_nodes s) nid" "m_heap s' = uerase (m_heap s) p"
    "m_vnodes s' = (case map_of (m_vnodes s) (n_type n) of None \<Rightarrow> m_vnodes s
        | Some r \<Rightarrow> uset (m_vnodes s) (n_type n) (erase_vnodes (n_vnodes n) r))"
    "m_zk_nodes s' = m_zk_nodes s" "m_host_zk_paths s' = m_host_zk_paths s" "m_ha s' = m_ha s"
proof -
  obtain n where n: "map_of (m_heap s) p = Some n" "n_id n = nid"
    using rings_inv_node [OF assms] .
  then show ?thesis
    using that [OF n, where s' = "snd (the (del_node s nid))"] assms(2)
    by (simp add: del_node_def Let_def split: option.split)
qed

lemma ring_entry_ok_del:
  "m_heap s' = uerase (m_heap s) p \<Longrightarrow> ring_entry_ok s' t v q \<longleftrightarrow> q \<noteq> p \<and> ring_entry_ok s t v q"
  by (auto simp: ring_entry_ok_def)

lemma del_node_ring:
  assumes inv: "rings_inv s" and h: "map_of (m_heap s) p = Some n" and s': "m_heap s' = uerase (m_heap s) p"
    and r: "map_of (m_vnodes s) t = Some r"
  shows "ring_ok s' t (if t = n_type n then erase_vnodes (n_vnodes n) r else r)"
proof -
  have r: "ring_ok s t r" using rings_inv_ring [OF inv r] .
  have key: "q \<noteq> p" if "(v, q) \<in> set r" "t = n_type n \<longrightarrow> v \<notin> set (n_vnodes n)" for v q
    using ring_ok_entry [OF r that(1)] that(2) h by (metis option.inject)
  show ?thesis
    using r key erase_vnodes_set [of r "n_vnodes n"] ring_entry_ok_del [OF s'] by (auto simp: ring_ok_def)
qed

lemma del_node_keeps:
  assumes inv: "rings_inv s"
  obtains ok s' where "del_node s nid = Some (ok, s')" "rings_inv s'" "map_of (m_nodes s') nid = None"
    "m_zk_nodes s' = m_zk_nodes s" "m_host_zk_paths s' = m_host_zk_paths s" "m_ha s' = m_ha s"
    "m_nodes s' = uerase (m_nodes s) nid"
proof (cases "map_of (m_nodes s) nid")
  case None
  then have "uerase (m_nodes s) nid = m_nodes s" by (simp add: delete_id map_of_eq_None_iff)
  with None inv show ?thesis by (intro that [of False s]) (simp_all add: del_node_def)
next
  case (Some p)
  obtain n s' where d: "map_of (m_heap s) p = Some n" "n_id n = nid" "del_node s nid = Some (True, s')"
    "m_nodes s' = uerase (m_nodes s) nid" "m_heap s' = uerase (m_heap s) p"
    "m_vnodes s' = (case map_of (m_vnodes s) (n_type n) of None \<Rightarrow> m_vnodes s
        | Some r \<Rightarrow> uset (m_vnodes s) (n_type n) (erase_vnodes (n_vnodes n) r))"
    "m_zk_nodes s' = m_zk_nodes s" "m_host_zk_paths s' = m_host_zk_paths s" "m_ha s' = m_ha s"
    using del_node_present [OF inv Some] .
  have vn: "map_of (m_vnodes s') t = map_option (\<lambda>r. if t = n_type n then erase_vnodes (n_vnodes n) r else r)
      (map_of (m_vnodes s) t)" for t
    using d(6) by (cases "map_of (m_vnodes s) t") (auto split: option.splits)
  have ring: "map_of (m_vnodes s') t = Some r \<Longrightarrow> ring_ok s' t r" for t r
    using vn [of t] del_node_ring [OF inv d(1,5), of t] by auto
  have nd: "\<exists>n. map_of (m_heap s') q = Some n \<and> n_id n = i" if "map_of (m_nodes s') i = Some q" for i q
  proof -
    from that have i: "i \<noteq> nid" "map_of (m_nodes s) i = Some q" using d(4) by (auto split: if_splits)
    then obtain n' where n': "map_of (m_heap s) q = Some n'" "n_id n' = i"
      using rings_inv_node [OF inv] by metis
    then have "q \<noteq> p" using i(1) d(1,2) by auto
    then show ?thesis using n' d(5) by simp
  qed
  have hn: "map_of (m_heap s') q = Some n' \<Longrightarrow> map_of (m_nodes s') (n_id n') = Some q" for q n'
  proof -
    assume a: "map_of (m_heap s') q = Some n'"
    then have q: "q \<noteq> p" "map_of (m_heap s) q = Some n'" using d(5) by (auto split: if_splits)
    have "map_of (m_nodes s) (n_id n') = Some q" by (rule rings_inv_cell [OF inv q(2)])
    moreover have "n_id n' \<noteq> nid" using q(1) calculation Some by auto
    ultimately show ?thesis using d(4) by simp
  qed
  have "distinct (ukeys (m_vnodes s'))" "distinct (ukeys (m_heap s'))" "distinct (ukeys (m_nodes s'))"
    using inv d(4-6) by (auto simp: rings_inv_def split: option.splits)
  then have "rings_inv s'" using ring nd hn by (intro rings_invI)
  with d(3,4,7-9) show ?thesis by (intro that [of True s']) simp_all
qed

definition worker_ids :: "nat list \<Rightarrow> string \<Rightarrow> int \<Rightarrow> string set" where
  "worker_ids is h po = (\<lambda>i. format_nodes_id h po (c_int (int i))) ` set is"

lemma del_workers_keeps:
  "rings_inv s \<Longrightarrow> \<exists>s'. del_workers is h po s = Some s' \<and> rings_inv s'
     \<and> m_zk_nodes s' = m_zk_nodes s \<and> m_host_zk_paths s' = m_host_zk_paths s \<and> m_ha s' = m_ha s
     \<and> map_of (m_nodes s') = (map_of (m_nodes s)) |` (- worker_ids is h po)"
proof (induction "is" arbitrary: s)
  case Nil
  then show ?case by (simp add: worker_ids_def)
next
  case (Cons i "is")
  let ?nid = "format_nodes_id h po (c_int (int i))"
  obtain ok s1 where s1: "del_node s ?nid = Some (ok, s1)" "rings_inv s1"
    "m_zk_nodes s1 = m_zk_nodes s" "m_host_zk_paths s1 = m_host_zk_paths s" "m_ha s1 = m_ha s"
    "m_nodes s1 = uerase (m_nodes s) ?nid"
    using del_node_keeps [OF Cons.prems] by metis
  have "map_of (m_nodes s1) |` (- worker_ids is h po) = map_of (m_nodes s) |` (- worker_ids (i # is) h po)"
    by (auto simp: s1(6) worker_ids_def restrict_map_def fun_eq_iff)
  moreover obtain s2 where s2: "del_workers is h po s1 = Some s2" "rings_inv s2"
    "m_zk_nodes s2 = m_zk_nodes s1" "m_host_zk_paths s2 = m_host_zk_paths s1" "m_ha s2 = m_ha s1"
    "map_of (m_nodes s2) = map_of (m_nodes s1) |` (- worker_ids is h po)"
    using Cons.IH [OF s1(2)] by blast
  ultimately have "map_of (m_nodes s2) = map_of (m_nodes s) |` (- worker_ids (i # is) h po)"
    by (simp only:)
  moreover have "del_workers (i # is) h po s = Some s2" using s1(1) s2(1) by simp
  ultimately show ?case using s1(3-5) s2(2-5) by (intro exI [of _ s2]) simp
qed

lemma del_zk_node_keeps:
  assumes "nodes_inv s"
  shows "\<exists>ok s'. del_zk_node s path = Some (ok, s') \<and> nodes_inv s'
     \<and> ok = (map_of (m_zk_nodes s) path \<noteq> None)
     \<and> map_of (m_zk_nodes s') = (map_of (m_zk_nodes s))(path := None)
     \<and> (\<forall>z. map_of (m_zk_nodes s) path = Some z \<longrightarrow>
          map_of (m_host_zk_paths s') = (map_of (m_host_zk_paths s))(host_key z := None)
          \<and> map_of (m_nodes s') = map_of (m_nodes s) |`
              (- worker_ids [1..<Suc (zn_worker_cnt z)] (zn_host z) (zn_port_int z)))"
proof (cases "map_of (m_zk_nodes s) path")
  case None
  then show ?thesis using assms by (simp add: del_zk_node_def fun_upd_idem ex_bool_eq)
next
  case (Some z)
  obtain s1 where s1: "del_workers [1..<Suc (zn_worker_cnt z)] (zn_host z) (zn_port_int z) s = Some s1"
    "rings_inv s1" "m_zk_nodes s1 = m_zk_nodes s" "m_host_zk_paths s1 = m_host_zk_paths s"
    "map_of (m_nodes s1) = map_of (m_nodes s) |` (- worker_ids [1..<Suc (zn_worker_cnt z)] (zn_host z) (zn_port_int z))"
    using del_workers_keeps assms unfolding nodes_inv_def by blast
  let ?s = "s1\<lparr>m_host_zk_paths := uerase (m_host_zk_paths s1) (host_key z),
               m_zk_nodes := uerase (m_zk_nodes s1) path\<rparr>"
  have d: "del_zk_node s path = Some (True, ?s)" using Some s1(1) by (simp add: del_zk_node_def)
  have "rings_inv ?s" using s1(2) rings_inv_cong [of ?s s1] by simp
  moreover have "zk_inv ?s" using assms unfolding nodes_inv_def zk_inv_def by (simp add: s1(3,4))
  ultimately have "nodes_inv ?s" by (simp add: nodes_inv_def)
  then show ?thesis using d Some s1(3-5) by (simp add: ex_bool_eq del: upt_Suc)
qed

text \<open>The announcement takes the host of a node of another path, as the newer of the two.\<close>

definition takes_host_over :: "nodes \<Rightarrow> zk_node \<Rightarrow> bool" where
  "takes_host_over s cur \<longleftrightarrow>
     (case map_of (m_host_zk_paths s) (host_key cur) of
        None \<Rightarrow> False
      | Some path \<Rightarrow>
          (case map_of (m_zk_nodes s) path of
             None \<Rightarrow> False
           | Some old \<Rightarrow> zn_path cur \<noteq> path \<and> zn_active_time old < zn_active_time cur))"

lemma check_zk_node_host_keeps:
  assumes "nodes_inv s"
  shows "if takes_host_over s cur then check_zk_node_host s cur = None
    else \<exists>ok s'. check_zk_node_host s cur = Some (ok, s') \<and> nodes_inv s'"
proof (cases "map_of (m_host_zk_paths s) (host_key cur)")
  case None
  then show ?thesis using assms by (simp add: check_zk_node_host_def takes_host_over_def ex_bool_eq)
next
  case (Some path)
  show ?thesis
  proof (cases "map_of (m_zk_nodes s) path")
    case None
    let ?s = "s\<lparr>m_host_zk_paths := uerase (m_host_zk_paths s) (host_key cur)\<rparr>"
    have "rings_inv ?s" "zk_inv ?s"
      using assms rings_inv_cong [of ?s s] unfolding nodes_inv_def by (simp_all add: zk_inv_def)
    then show ?thesis
      using Some None by (simp add: check_zk_node_host_def takes_host_over_def nodes_inv_def ex_bool_eq)
  next
    case old: (Some old)
    have path: "zn_path old = path" using assms old unfolding nodes_inv_def zk_inv_def by blast
    obtain b s1 where "del_zk_node s path = Some (b, s1)" "map_of (m_zk_nodes s1) path = None"
      using del_zk_node_keeps [OF assms, of path] by auto
    then show ?thesis
      using Some old path assms by (auto simp: check_zk_node_host_def takes_host_over_def)
  qed
qed

lemma zk_inv_set:
  "zk_inv s \<Longrightarrow> is_valid_zk_node z \<Longrightarrow> zk_inv (s\<lparr>m_zk_nodes := uset (m_zk_nodes s) (zn_path z) z\<rparr>)"
  unfolding zk_inv_def by simp

lemma zk_inv_cong:
  "m_zk_nodes s = m_zk_nodes s' \<Longrightarrow> m_host_zk_paths s = m_host_zk_paths s' \<Longrightarrow> zk_inv s = zk_inv s'"
  by (simp add: zk_inv_def)

lemma add_zk_node_keeps:
  assumes "nodes_inv s" and over: "\<not> (is_valid_zk_node z \<and> takes_host_over s z)"
  shows "\<exists>ok s'. add_zk_node md5 s z = Some (ok, s') \<and> nodes_inv s'"
proof (cases "is_valid_zk_node z")
  case False
  then show ?thesis using assms by (simp add: add_zk_node_def ex_bool_eq)
next
  case valid: True
  obtain ok s1 where s1: "check_zk_node_host s z = Some (ok, s1)" "nodes_inv s1"
    using check_zk_node_host_keeps [OF assms(1), of z] over valid by auto
  let ?path = "zn_path z" and ?all = "[1..<Suc (zn_worker_cnt z)]" and ?some = "[1..<zn_worker_cnt z]"
  let ?fin = "\<lambda>s. s\<lparr>m_host_zk_paths := uset (m_host_zk_paths s) (host_key z) ?path\<rparr>"
  let ?set = "s1\<lparr>m_zk_nodes := uset (m_zk_nodes s1) ?path z\<rparr>"
  have fin: "nodes_inv (?fin s)" if "nodes_inv s" for s
    using that rings_inv_cong [of "?fin s" s] by (simp add: nodes_inv_def zk_inv_def)
  have set: "rings_inv ?set" "zk_inv ?set"
    using s1(2) valid zk_inv_set rings_inv_cong [of ?set s1] by (simp_all add: nodes_inv_def)
  have add: "nodes_inv (add_workers md5 ?all (zn_type z) (zn_host z) (zn_port_int z) s)"
    if "rings_inv s" "zk_inv s" for s
    using that add_workers_keeps [OF that(1)] zk_inv_cong add_workers_frame by (metis nodes_inv_def)
  show ?thesis
  proof (cases "map_of (m_zk_nodes s1) ?path")
    case None
    then show ?thesis
      using valid s1 fin [OF add [OF set]] by (simp add: add_zk_node_def ex_bool_eq del: upt_Suc)
  next
    case (Some old)
    obtain s2 where s2: "del_workers ?some (zn_host z) (zn_port_int z) ?set = Some s2" "rings_inv s2"
      "m_zk_nodes s2 = m_zk_nodes ?set" "m_host_zk_paths s2 = m_host_zk_paths ?set"
      using del_workers_keeps [OF set(1)] by blast
    have "zk_inv s2" using zk_inv_cong [OF s2(3,4)] set(2) by blast
    then show ?thesis
      using valid s1 Some s2(1) fin [OF add [OF s2(2)]] fin [OF s1(2)]
      by (simp add: add_zk_node_def ex_bool_eq del: upt_Suc)
  qed
qed

lemma add_zk_node_over:
  assumes "nodes_inv s" and "is_valid_zk_node z" and "takes_host_over s z"
  shows "add_zk_node md5 s z = None"
  using assms(2,3) check_zk_node_host_keeps [OF assms(1), of z] by (simp add: add_zk_node_def)

lemma nodes_clear_keeps:
  assumes "nodes_inv s"
  shows "nodes_inv (nodes_clear s) \<and> m_heap (nodes_clear s) = []"
proof -
  have "m_heap (nodes_clear s) = []"
  proof (cases "m_heap (nodes_clear s)")
    case (Cons c cs)
    then have c: "c \<in> set (m_heap s)" "fst c \<notin> snd ` set (m_nodes s)"
      by (auto simp: nodes_clear_def filter_eq_Cons_iff)
    have "distinct (ukeys (m_heap s))" using assms rings_inv_distinct by (simp add: nodes_inv_def)
    then have "map_of (m_heap s) (fst c) = Some (snd c)" using c(1) by simp
    then have "map_of (m_nodes s) (n_id (snd c)) = Some (fst c)"
      using assms rings_inv_cell unfolding nodes_inv_def by blast
    then have "fst c \<in> snd ` set (m_nodes s)" by (metis map_of_SomeD snd_conv image_eqI)
    with c(2) show ?thesis by simp
  qed
  moreover have "m_nodes (nodes_clear s) = []" "m_vnodes (nodes_clear s) = []"
    "m_zk_nodes (nodes_clear s) = []" "m_host_zk_paths (nodes_clear s) = []"
    by (simp_all add: nodes_clear_def)
  ultimately show ?thesis by (simp add: nodes_inv_def rings_inv_def zk_inv_def)
qed

section \<open>Looking a node up\<close>

text \<open>The virtual node clockwise from the object's hash: the next one, or the smallest of all.\<close>

definition clockwise :: "nat \<Rightarrow> (nat \<times> nat) set \<Rightarrow> nat \<times> nat \<Rightarrow> bool" where
  "clockwise h r q \<longleftrightarrow>
     q \<in> r \<and> (if \<exists>x \<in> r. h \<le> fst x then h \<le> fst q \<and> (\<forall>x \<in> r. h \<le> fst x \<longrightarrow> fst q \<le> fst x)
              else (\<forall>x \<in> r. fst q \<le> fst x))"

lemma clockwise_unique:
  assumes "omap_ok m" and "clockwise h (set m) q" and "clockwise h (set m) q'"
  shows "q = q'"
proof -
  have f: "fst q = fst q'" using assms(2,3) unfolding clockwise_def by (metis le_antisym)
  have "distinct (map fst m)" using assms(1) strict_sorted_iff by blast
  then show ?thesis using f assms(2,3) unfolding clockwise_def by (metis eq_key_imp_eq_value prod.collapse)
qed

lemma lower_bound_clockwise:
  assumes ok: "omap_ok m" and ne: "m \<noteq> []"
  shows "clockwise h (set m) (case omap_lower_bound h m of None \<Rightarrow> hd m | Some q \<Rightarrow> q)"
proof (cases "omap_lower_bound h m")
  case None
  then have "\<not> (\<exists>x \<in> set m. h \<le> fst x)" using omap_lower_bound_None [of h m] by fastforce
  moreover have "\<forall>x \<in> set m. fst (hd m) \<le> fst x" using ok ne by (cases m) auto
  ultimately show ?thesis using None ne by (simp add: clockwise_def)
next
  case (Some q)
  obtain j u where q: "q = (j, u)" by (cases q)
  have "(j, u) \<in> set m \<and> h \<le> j \<and> (\<forall>(i, w) \<in> set m. h \<le> i \<longrightarrow> j \<le> i)"
    using Some q omap_lower_bound_Some [OF ok, of h j u] by simp
  then show ?thesis using Some q unfolding clockwise_def by fastforce
qed

lemma get_node_in_hash_clockwise:
  assumes "rings_inv s" and "map_of (m_vnodes s) t = Some r"
  shows "get_node_in_hash s t obj = Some p \<longleftrightarrow> (\<exists>v. clockwise (hash s obj) (set r) (v, p))"
proof (cases "r = []")
  case True
  then show ?thesis using assms(2) by (simp add: get_node_in_hash_def clockwise_def)
next
  case False
  have ok: "omap_ok r" using rings_inv_ring [OF assms] by (simp add: ring_ok_def)
  let ?q = "case omap_lower_bound (hash s obj) r of None \<Rightarrow> hd r | Some q \<Rightarrow> q"
  have c: "clockwise (hash s obj) (set r) ?q" using lower_bound_clockwise [OF ok False] .
  have "get_node_in_hash s t obj = Some (snd ?q)"
    using assms(2) False by (auto simp: get_node_in_hash_def split: option.split)
  moreover have "(\<exists>v. clockwise (hash s obj) (set r) (v, p)) \<longleftrightarrow> snd ?q = p"
    using clockwise_unique [OF ok c] c by (metis prod.collapse snd_conv)
  ultimately show ?thesis by auto
qed

lemma clockwise_subset:
  assumes "clockwise h r q" and "r' \<subseteq> r" and "q \<in> r'"
  shows "clockwise h r' q"
proof (cases "\<exists>x \<in> r. h \<le> fst x")
  case True
  then have "h \<le> fst q" using assms(1) by (simp add: clockwise_def)
  then have "\<exists>x \<in> r'. h \<le> fst x" using assms(3) by blast
  then show ?thesis using assms True unfolding clockwise_def by auto
next
  case False
  then have "\<not> (\<exists>x \<in> r'. h \<le> fst x)" using assms(2) by blast
  then show ?thesis using assms False unfolding clockwise_def by auto
qed

lemma del_node_hash: "del_node s nid = Some (ok, s') \<Longrightarrow> hash s' obj = hash s obj"
  by (auto simp: del_node_def Let_def hash_def split: option.splits Option.bind_splits HASH_ALGORITHM.split)

lemma add_node_hash: "hash (snd (add_node md5 s ty h po w)) obj = hash s obj"
  using add_node_frame [of md5 s ty h po w] by (simp add: hash_def)

section \<open>The contract of consistent hashing\<close>

text \<open>
  What the callers that route by \<open>get_node_in_hash\<close> rely on: the lookup answers with the owner of
  the first virtual node clockwise from the object. That alone gives the stability of the routing:
  a ring that lost points of other owners, or gained points, moves no object it need not move.
\<close>

locale ring_lookup =
  fixes inv :: "'s \<Rightarrow> bool"
    and ring :: "'s \<Rightarrow> string \<Rightarrow> (nat \<times> nat) set"
    and point :: "'s \<Rightarrow> string \<Rightarrow> nat"
    and find :: "'s \<Rightarrow> string \<Rightarrow> string \<Rightarrow> nat option"
  assumes find_clockwise: "inv s \<Longrightarrow> find s t obj = Some p \<longleftrightarrow> (\<exists>v. clockwise (point s obj) (ring s t) (v, p))"
    and find_empty: "inv s \<Longrightarrow> find s t obj = None \<longleftrightarrow> ring s t = {}"
begin

lemma shrink:
  assumes "inv s" and "inv s'" and "point s' obj = point s obj" and "find s t obj = Some p"
    and "ring s' t \<subseteq> ring s t" and "\<And>v. (v, p) \<in> ring s t \<Longrightarrow> (v, p) \<in> ring s' t"
  shows "find s' t obj = Some p"
proof -
  obtain v where v: "clockwise (point s obj) (ring s t) (v, p)"
    using assms(1,4) find_clockwise by blast
  then have "(v, p) \<in> ring s' t" using assms(6) by (simp add: clockwise_def)
  then show ?thesis using clockwise_subset [OF v assms(5)] assms(2,3) find_clockwise by metis
qed

lemma grow:
  assumes "inv s" and "inv s'" and "point s' obj = point s obj"
    and "ring s t \<subseteq> ring s' t" and "\<And>v q. (v, q) \<in> ring s' t \<Longrightarrow> q \<noteq> p \<Longrightarrow> (v, q) \<in> ring s t"
  shows "find s' t obj = find s t obj \<or> find s' t obj = Some p"
proof (cases "find s' t obj")
  case None
  then have "ring s t = {}" using assms(2,4) find_empty by blast
  then have "find s t obj = None" using assms(1) find_empty by blast
  with None show ?thesis by simp
next
  case (Some q)
  obtain v where v: "clockwise (point s obj) (ring s' t) (v, q)"
    using assms(2,3) Some find_clockwise by metis
  then have "q \<noteq> p \<Longrightarrow> (v, q) \<in> ring s t" using assms(5) by (simp add: clockwise_def)
  then have "q \<noteq> p \<Longrightarrow> find s t obj = Some q"
    using clockwise_subset [OF v assms(4)] assms(1) find_clockwise by blast
  with Some show ?thesis by auto
qed

end

definition ring_of :: "nodes \<Rightarrow> string \<Rightarrow> (nat \<times> nat) set" where
  "ring_of s t = (case map_of (m_vnodes s) t of None \<Rightarrow> {} | Some r \<Rightarrow> set r)"

interpretation nodes_ring: ring_lookup rings_inv ring_of hash get_node_in_hash
proof
  fix s :: nodes and t obj :: string and p :: nat
  assume inv: "rings_inv s"
  show "get_node_in_hash s t obj = Some p \<longleftrightarrow> (\<exists>v. clockwise (hash s obj) (ring_of s t) (v, p))"
  proof (cases "map_of (m_vnodes s) t")
    case None
    then show ?thesis by (simp add: get_node_in_hash_def ring_of_def clockwise_def)
  next
    case (Some r)
    then show ?thesis using get_node_in_hash_clockwise [OF inv Some] by (simp add: ring_of_def)
  qed
  show "get_node_in_hash s t obj = None \<longleftrightarrow> ring_of s t = {}"
    by (auto simp: get_node_in_hash_def ring_of_def split: option.split)
qed

lemma ring_of_entry:
  assumes "rings_inv s" and "(v, p) \<in> ring_of s t"
  obtains n where "map_of (m_heap s) p = Some n" "n_type n = t" "v \<in> set (n_vnodes n)"
    "map_of (m_nodes s) (n_id n) = Some p"
proof -
  obtain r where r: "map_of (m_vnodes s) t = Some r" "(v, p) \<in> set r"
    using assms(2) by (auto simp: ring_of_def split: option.splits)
  obtain n where n: "map_of (m_heap s) p = Some n" "n_type n = t" "v \<in> set (n_vnodes n)"
    using ring_ok_entry [OF rings_inv_ring [OF assms(1) r(1)] r(2)] .
  then show ?thesis using that rings_inv_cell [OF assms(1) n(1)] by blast
qed

lemma ring_of_add_node:
  assumes "rings_inv s"
  shows "ring_of s t \<subseteq> ring_of (snd (add_node md5 s ty h po w)) t"
    and "(v, q) \<in> ring_of (snd (add_node md5 s ty h po w)) t \<Longrightarrow> q \<noteq> fresh_addr (m_heap s) \<Longrightarrow> (v, q) \<in> ring_of s t"
proof -
  have mono: "(case map_of (m_vnodes s) ty of None \<Rightarrow> {} | Some r \<Rightarrow> set r)
      \<subseteq> set (insert_vnodes p vs (case map_of (m_vnodes s) ty of None \<Rightarrow> [] | Some r \<Rightarrow> r))" for p vs
    using insert_vnodes_mono by (auto split: option.splits)
  show "ring_of s t \<subseteq> ring_of (snd (add_node md5 s ty h po w)) t"
  proof (cases rule: add_node_cases [of s h po w md5 ty])
    case (added s' r p vs)
    then show ?thesis using mono by (simp add: ring_of_def)
  qed (auto simp: ring_of_def split: option.splits)
  assume e: "(v, q) \<in> ring_of (snd (add_node md5 s ty h po w)) t" "q \<noteq> fresh_addr (m_heap s)"
  show "(v, q) \<in> ring_of s t"
  proof (cases rule: add_node_cases [of s h po w md5 ty])
    case (added s' r p vs)
    then show ?thesis using e insert_vnodes_bound [of p vs r]
      by (auto simp: ring_of_def split: if_splits option.splits)
  qed (use e in \<open>auto simp: ring_of_def split: option.splits if_splits\<close>)
qed

lemma ring_of_del_node:
  assumes inv: "rings_inv s" and p: "map_of (m_nodes s) nid = Some p" and n: "map_of (m_heap s) p = Some n"
    and d: "del_node s nid = Some (ok, s')"
  shows "ring_of s' t = {q \<in> ring_of s t. t = n_type n \<longrightarrow> fst q \<notin> set (n_vnodes n)}"
proof -
  obtain n' s'' where d': "map_of (m_heap s) p = Some n'" "del_node s nid = Some (True, s'')"
    "m_vnodes s'' = (case map_of (m_vnodes s) (n_type n') of None \<Rightarrow> m_vnodes s
        | Some r \<Rightarrow> uset (m_vnodes s) (n_type n') (erase_vnodes (n_vnodes n') r))"
    using del_node_present [OF inv p] by metis
  have e: "n' = n" "s'' = s'" using d d' n by simp_all
  show ?thesis
  proof (cases "map_of (m_vnodes s) (n_type n)")
    case None
    then show ?thesis using d'(3) e by (auto simp: ring_of_def split: option.splits)
  next
    case (Some r)
    have "omap_ok r" using rings_inv_ring [OF inv Some] by (simp add: ring_ok_def)
    then show ?thesis using d'(3) e Some erase_vnodes_set [of r "n_vnodes n"] by (auto simp: ring_of_def)
  qed
qed

lemma add_node_other:
  "nid \<noteq> format_nodes_id h po w \<Longrightarrow> map_of (m_nodes (snd (add_node md5 s ty h po w))) nid = map_of (m_nodes s) nid"
  by (simp add: add_node_def Let_def)

lemma add_workers_other:
  "nid \<notin> worker_ids is h po \<Longrightarrow> map_of (m_nodes (add_workers md5 is ty h po s)) nid = map_of (m_nodes s) nid"
  by (induction "is" arbitrary: s) (simp_all add: worker_ids_def add_node_other)

section \<open>Properties\<close>

text \<open>A digest for the examples: the input cut or padded to 16 bytes.\<close>

definition toy_md5 :: "string \<Rightarrow> string" where
  "toy_md5 s = take 16 (rev s @ replicate 16 CHR ''x'')"

definition small_nodes :: nodes where
  "small_nodes = new_nodes 4 FNV1A_64"

definition sample_zk :: zk_node where
  "sample_zk = \<lparr>zn_path = ''/k/n1'', zn_type = ''logic'', zn_host = ''10.0.0.1'', zn_port = 4000,
                zn_worker_cnt = 2, zn_active_time = 5\<rparr>"

lemma new_nodes_inv: "nodes_inv (new_nodes c ha)"
  by (simp add: nodes_inv_def rings_inv_def zk_inv_def new_nodes_def)

definition hosted_zk :: nodes where
  "hosted_zk = small_nodes\<lparr>m_zk_nodes := [(''/k/n1'', sample_zk)],
     m_host_zk_paths := [(host_key sample_zk, ''/k/n1'')]\<rparr>"

lemma hosted_zk_inv: "nodes_inv hosted_zk"
  by (simp add: hosted_zk_def small_nodes_def new_nodes_def nodes_inv_def zk_inv_def rings_inv_def
      sample_zk_def is_valid_zk_node_def)

text \<open>
  C7. Memory safety of the node table: after every operation the rings and the node map hold
  pointers to live nodes only, and every live node is registered under its id, so none leaks;
  \<open>clear\<close> frees them all. The operations read a freed node in exactly one case: a valid
  announcement that takes over, as the newer one, the host of a known node of another path.
  \<open>check_zk_node_host\<close> then deletes that node and logs its path.
\<close>

theorem nodes_ops_keep_inv:
  assumes "nodes_inv s"
  shows "(if is_valid_zk_node z \<and> takes_host_over s z then add_zk_node md5 s z = None
      else \<exists>ok s'. add_zk_node md5 s z = Some (ok, s') \<and> nodes_inv s')
    \<and> (\<exists>ok s'. del_zk_node s path = Some (ok, s') \<and> nodes_inv s')
    \<and> nodes_inv (nodes_clear s) \<and> m_heap (nodes_clear s) = []"
proof -
  have "\<exists>ok s'. del_zk_node s path = Some (ok, s') \<and> nodes_inv s'" using del_zk_node_keeps [OF assms] by blast
  then show ?thesis
    using add_zk_node_keeps [OF assms, of z md5] add_zk_node_over [OF assms, of z md5] nodes_clear_keeps [OF assms]
    by simp
qed

theorem nodes_ops_keep_inv_witness:
  "(\<exists>ok s'. add_zk_node toy_md5 hosted_zk sample_zk = Some (ok, s') \<and> nodes_inv s')
   \<and> (let newer = sample_zk\<lparr>zn_path := ''/k/n2'', zn_active_time := 6\<rparr>
      in add_zk_node toy_md5 hosted_zk newer = None)"
proof -
  let ?newer = "sample_zk\<lparr>zn_path := ''/k/n2'', zn_active_time := 6\<rparr>"
  have "is_valid_zk_node ?newer" "takes_host_over hosted_zk ?newer" "\<not> takes_host_over hosted_zk sample_zk"
    by (simp_all add: sample_zk_def is_valid_zk_node_def takes_host_over_def hosted_zk_def host_key_def small_nodes_def)
  then show ?thesis
    using nodes_ops_keep_inv [OF hosted_zk_inv, of sample_zk toy_md5]
      nodes_ops_keep_inv [OF hosted_zk_inv, of ?newer toy_md5] by simp
qed

definition two_nodes :: nodes where
  "two_nodes = \<lparr>m_vnode_cnt = 4, m_ha = FNV1A_64, m_version = 0, m_my_zk_node = '''', m_host_zk_paths = [],
     m_zk_nodes = [], m_nodes = [(''a'', 1), (''b'', 2)], m_vnodes = [(''t'', [(7, 1), (9, 2)])],
     m_heap = [(1, \<lparr>n_id = ''a'', n_type = ''t'', n_host = ''h'', n_port = 1, n_worker_index = 1, n_vnodes = [7]\<rparr>),
               (2, \<lparr>n_id = ''b'', n_type = ''t'', n_host = ''h'', n_port = 1, n_worker_index = 2, n_vnodes = [9]\<rparr>)]\<rparr>"

lemma two_nodes_inv: "nodes_inv two_nodes"
  by (auto simp: two_nodes_def nodes_inv_def zk_inv_def rings_inv_def ring_ok_def ring_entry_ok_def split: if_splits)

lemma two_nodes_fresh: "fresh_addr (m_heap two_nodes) = 3"
  by (simp add: two_nodes_def fresh_addr_def)

lemma two_nodes_lookup: "get_node_in_hash two_nodes ''t'' ''x'' = Some 1"
  by (simp add: two_nodes_def get_node_in_hash_def hash_def hash_fnv1a_64_def fnv1a_step_def
      FNV_64_INIT_def FNV_64_PRIME_def schar_def)

text \<open>
  C36. Routing: \<open>get_node_in_hash\<close> answers \<open>nullptr\<close> only for a type without virtual nodes, and
  otherwise a live, registered worker of the type asked for, the owner of the first virtual node
  clockwise from the hash of the object (wrapping around to the smallest).
\<close>

theorem node_lookup_is_clockwise:
  assumes "nodes_inv s"
  shows "(get_node_in_hash s t obj = None \<longleftrightarrow> ring_of s t = {})
    \<and> (case get_node_in_hash s t obj of None \<Rightarrow> True
       | Some p \<Rightarrow> (\<exists>n v. map_of (m_heap s) p = Some n \<and> n_type n = t \<and> v \<in> set (n_vnodes n)
           \<and> map_of (m_nodes s) (n_id n) = Some p \<and> clockwise (hash s obj) (ring_of s t) (v, p)))"
proof -
  have inv: "rings_inv s" using assms by (simp add: nodes_inv_def)
  show ?thesis
  proof (cases "get_node_in_hash s t obj")
    case None
    then show ?thesis using nodes_ring.find_empty [OF inv, of t obj] by simp
  next
    case (Some p)
    then obtain v where v: "clockwise (hash s obj) (ring_of s t) (v, p)"
      using nodes_ring.find_clockwise [OF inv] by blast
    then have "(v, p) \<in> ring_of s t" by (simp add: clockwise_def)
    then obtain n where n: "map_of (m_heap s) p = Some n" "n_type n = t" "v \<in> set (n_vnodes n)"
      "map_of (m_nodes s) (n_id n) = Some p"
      using ring_of_entry [OF inv] by metis
    have "ring_of s t \<noteq> {}" using v by (auto simp: clockwise_def)
    moreover have "\<exists>n v. map_of (m_heap s) p = Some n \<and> n_type n = t \<and> v \<in> set (n_vnodes n)
        \<and> map_of (m_nodes s) (n_id n) = Some p \<and> clockwise (hash s obj) (ring_of s t) (v, p)"
      using n v by blast
    ultimately show ?thesis using Some by simp
  qed
qed

theorem node_lookup_is_clockwise_witness:
  "get_node_in_hash two_nodes ''t'' ''x'' = Some 1
   \<and> (\<exists>v. clockwise (hash two_nodes ''x'') (ring_of two_nodes ''t'') (v, 1))"
  using node_lookup_is_clockwise [OF two_nodes_inv, of "''t''" "''x''"] two_nodes_lookup by auto

text \<open>
  C37. Consistent hashing, removal: deleting a worker leaves every object that another worker
  serves where it is, as long as the two workers' virtual nodes are distinct.
\<close>

theorem del_node_moves_only_its_objects:
  assumes "nodes_inv s" and "del_node s nid = Some (ok, s')"
    and "map_of (m_nodes s) nid = Some p" and "map_of (m_heap s) p = Some n"
    and "get_node_in_hash s t obj = Some q" and "map_of (m_heap s) q = Some n'"
    and "set (n_vnodes n) \<inter> set (n_vnodes n') = {}"
  shows "get_node_in_hash s' t obj = Some q"
proof -
  have inv: "rings_inv s" using assms(1) by (simp add: nodes_inv_def)
  have inv': "rings_inv s'" using del_node_keeps [OF inv, of nid] assms(2) by (metis option.inject prod.inject)
  note r = ring_of_del_node [OF inv assms(3,4,2)]
  show ?thesis
  proof (rule nodes_ring.shrink [OF inv inv' del_node_hash [OF assms(2)] assms(5)])
    show "ring_of s' t \<subseteq> ring_of s t" using r by auto
    show "(v, q) \<in> ring_of s' t" if e: "(v, q) \<in> ring_of s t" for v
    proof -
      obtain m where m: "map_of (m_heap s) q = Some m" "v \<in> set (n_vnodes m)"
        using ring_of_entry [OF inv e] by metis
      then have "v \<notin> set (n_vnodes n)" using assms(6,7) by auto
      then show ?thesis using r e by simp
    qed
  qed
qed

theorem del_node_moves_only_its_objects_witness:
  "get_node_in_hash (snd (the (del_node two_nodes ''b''))) ''t'' ''x'' = Some 1"
  by (rule del_node_moves_only_its_objects [OF two_nodes_inv _ _ _ two_nodes_lookup,
        where nid = "''b''" and p = 2 and ok = True
          and n = "the (map_of (m_heap two_nodes) 2)" and n' = "the (map_of (m_heap two_nodes) 1)"])
    (simp_all add: two_nodes_def del_node_def Let_def)

text \<open>
  Consistent hashing, insertion: after \<open>add_node\<close> an object is served by the worker that served
  it before, or by the new one; the other workers never swap objects.
\<close>

lemma add_node_moves_only_to_the_new:
  assumes "nodes_inv s"
  shows "get_node_in_hash (snd (add_node md5 s ty h po w)) t obj = get_node_in_hash s t obj
    \<or> get_node_in_hash (snd (add_node md5 s ty h po w)) t obj = Some (fresh_addr (m_heap s))"
proof -
  have inv: "rings_inv s" using assms by (simp add: nodes_inv_def)
  show ?thesis
    using nodes_ring.grow [OF inv add_node_keeps [OF inv] add_node_hash ring_of_add_node(1) [OF inv]]
      ring_of_add_node(2) [OF inv] by blast
qed

text \<open>
  Deleting a zookeeper node succeeds exactly when its path is known, and then forgets the path,
  its address and every worker \<open>1..worker_cnt\<close> registered for it, and no other worker.
\<close>

lemma del_zk_node_removes_its_workers:
  assumes "nodes_inv s" and "map_of (m_zk_nodes s) path = Some z"
  shows "\<exists>s'. del_zk_node s path = Some (True, s')
    \<and> map_of (m_zk_nodes s') = (map_of (m_zk_nodes s))(path := None)
    \<and> map_of (m_host_zk_paths s') = (map_of (m_host_zk_paths s))(host_key z := None)
    \<and> map_of (m_nodes s') = map_of (m_nodes s) |`
        (- worker_ids [1..<Suc (zn_worker_cnt z)] (zn_host z) (zn_port_int z))"
  using del_zk_node_keeps [OF assms(1), of path] assms(2) by auto

definition one_zk :: nodes where
  "one_zk = small_nodes\<lparr>m_zk_nodes := [(''/k/n1'', sample_zk)]\<rparr>"

lemma one_zk_inv: "nodes_inv one_zk"
  by (simp add: one_zk_def small_nodes_def new_nodes_def nodes_inv_def zk_inv_def rings_inv_def
      sample_zk_def is_valid_zk_node_def)

text \<open>
  \<open>get_zk_diff_nodes\<close> compares the children zookeeper lists now with the known nodes of the type:
  the paths to add are the listed ones that are not known, those to delete the known ones that are
  not listed.
\<close>

lemma zk_diff_nodes_are_the_differences:
  assumes "nodes_inv s" and "distinct ins"
  shows "set (fst (get_zk_diff_nodes s ty ins)) = set ins - {p. \<exists>z. map_of (m_zk_nodes s) p = Some z \<and> zn_type z = ty}
    \<and> set (snd (get_zk_diff_nodes s ty ins)) = {p. \<exists>z. map_of (m_zk_nodes s) p = Some z \<and> zn_type z = ty} - set ins"
proof -
  have d: "distinct (ukeys (m_zk_nodes s))" using assms(1) by (simp add: nodes_inv_def zk_inv_def)
  let ?vec = "map fst (filter (\<lambda>v. ty = zn_type (snd v)) (m_zk_nodes s))"
  have dv: "distinct ?vec" using d by (simp add: distinct_map_filter)
  have "set ?vec = {p. \<exists>z. map_of (m_zk_nodes s) p = Some z \<and> zn_type z = ty}"
    using d by force
  then show ?thesis
    unfolding get_zk_diff_nodes_def Let_def fst_conv snd_conv diff_cmp_set [OF assms(2)] diff_cmp_set [OF dv]
    by simp
qed

text \<open>
  An update does not retire the old address: when a known path is announced again at a new
  address, every worker of the old address stays registered and keeps its virtual nodes, because
  the loop that should delete them reads the new message.
\<close>

lemma update_keeps_stale_workers:
  assumes "nodes_inv s" and "is_valid_zk_node z" and "map_of (m_zk_nodes s) (zn_path z) = Some old"
    and "map_of (m_host_zk_paths s) (host_key z) = None"
    and "nid \<notin> worker_ids [1..<Suc (zn_worker_cnt z)] (zn_host z) (zn_port_int z)"
    and "map_of (m_nodes s) nid = Some p"
  shows "\<exists>s'. add_zk_node md5 s z = Some (True, s') \<and> map_of (m_nodes s') nid = Some p
    \<and> map_of (m_zk_nodes s') (zn_path z) = Some z"
proof (cases "old = z")
  case True
  then show ?thesis using assms by (simp add: add_zk_node_def check_zk_node_host_def)
next
  case False
  let ?set = "s\<lparr>m_zk_nodes := uset (m_zk_nodes s) (zn_path z) z\<rparr>"
  have "rings_inv ?set" using assms(1) rings_inv_cong [of ?set s] by (simp add: nodes_inv_def)
  then obtain s2 where s2: "del_workers [1..<zn_worker_cnt z] (zn_host z) (zn_port_int z) ?set = Some s2"
    "m_zk_nodes s2 = m_zk_nodes ?set"
    "map_of (m_nodes s2) = map_of (m_nodes ?set) |` (- worker_ids [1..<zn_worker_cnt z] (zn_host z) (zn_port_int z))"
    using del_workers_keeps by blast
  have "nid \<notin> worker_ids [1..<zn_worker_cnt z] (zn_host z) (zn_port_int z)"
    using assms(5) by (auto simp: worker_ids_def)
  then have "map_of (m_nodes s2) nid = Some p" using s2(3) assms(6) by simp
  then show ?thesis
    using assms(2-5) False s2(1,2) add_workers_other add_workers_frame
    by (simp add: add_zk_node_def check_zk_node_host_def del: upt_Suc)
qed

definition stale_nodes :: nodes where
  "stale_nodes = two_nodes\<lparr>m_zk_nodes := [(''/k/n1'', sample_zk)]\<rparr>"

lemma stale_nodes_inv: "nodes_inv stale_nodes"
  using two_nodes_inv rings_inv_cong [of stale_nodes two_nodes]
  by (simp add: stale_nodes_def nodes_inv_def zk_inv_def two_nodes_def sample_zk_def is_valid_zk_node_def)

end
