(* ===== verification/Worker_Data.thy ===== *)
theory Worker_Data
  imports Complex_Main Kim_Prelude "HOL-Library.Multiset"
begin

text \<open>
  The manager's table of its worker processes, \<open>src/core/worker_data_mgr.cpp\<close>: one
  \<open>worker_info_t\<close> per process, found by process id or by worker index, and the iterator that
  deals out the workers' channels in turn to new connections.

  As in \<open>Nodes_Mgr\<close> a pointer is an address of the heap \<open>wd_heap\<close>, and \<open>None\<close> as the result of an
  operation is a dereference of a dangling pointer. The iterator is the position in \<open>m_workers\<close>;
  every operation that changes the map sets it to \<open>begin()\<close>.
\<close>

text \<open>The protobuf message \<open>Payload\<close> (\<open>protobuf/sys/payload.proto\<close>); \<open>uint32\<close> fields and a \<open>double\<close>.\<close>

record payload =
  pl_worker_index :: nat
  pl_conn_cnt :: nat
  pl_cmd_cnt :: nat
  pl_read_cnt :: nat
  pl_read_bytes :: nat
  pl_write_cnt :: nat
  pl_write_bytes :: nat
  pl_create_time :: real

definition empty_payload :: payload where
  "empty_payload = \<lparr>pl_worker_index = 0, pl_conn_cnt = 0, pl_cmd_cnt = 0, pl_read_cnt = 0,
     pl_read_bytes = 0, pl_write_cnt = 0, pl_write_bytes = 0, pl_create_time = 0\<rparr>"

record worker_info_t =
  wi_pid :: int
  wi_index :: int
  wi_ctrl_fd :: int
  wi_data_fd :: int
  wi_payload :: payload

record worker_data =
  m_workers :: "(int \<times> nat) list"
  m_itr_worker :: nat
  m_index_workers :: "(int \<times> nat) list"
  wd_heap :: "(nat \<times> worker_info_t) list"

definition new_worker_data :: worker_data where
  "new_worker_data = \<lparr>m_workers = [], m_itr_worker = 0, m_index_workers = [], wd_heap = []\<rparr>"

definition del_worker_info :: "worker_data \<Rightarrow> int \<Rightarrow> (bool \<times> worker_data) option" where
  "del_worker_info s pid =
     (case map_of (m_workers s) pid of
        None \<Rightarrow> Some (False, s)
      | Some p \<Rightarrow>
          do {
            info \<leftarrow> map_of (wd_heap s) p;
            Some (True, s\<lparr>m_index_workers := uerase (m_index_workers s) (wi_index info),
                          m_workers := uerase (m_workers s) pid, m_itr_worker := 0,
                          wd_heap := uerase (wd_heap s) p\<rparr>)
          })"

definition add_worker_info :: "worker_data \<Rightarrow> int \<Rightarrow> int \<Rightarrow> int \<Rightarrow> int \<Rightarrow> (bool \<times> worker_data) option" where
  "add_worker_info s index pid ctrl_fd data_fd =
     do {
       s \<leftarrow> (if map_of (m_workers s) pid \<noteq> None then map_option snd (del_worker_info s pid) else Some s);
       let info = fresh_addr (wd_heap s);
       Some (True, s\<lparr>wd_heap := uset (wd_heap s) info
                       \<lparr>wi_pid = pid, wi_index = index, wi_ctrl_fd = ctrl_fd, wi_data_fd = data_fd,
                        wi_payload = empty_payload\<rparr>,
                     m_workers := uset (m_workers s) pid info, m_itr_worker := 0,
                     m_index_workers := uset (m_index_workers s) index info\<rparr>)
     }"

definition get_worker_index :: "worker_data \<Rightarrow> int \<Rightarrow> int option" where
  "get_worker_index s pid =
     (case map_of (m_workers s) pid of
        None \<Rightarrow> Some (- 1)
      | Some p \<Rightarrow> map_option wi_index (map_of (wd_heap s) p))"

definition get_worker_data_fd :: "worker_data \<Rightarrow> int \<Rightarrow> int option" where
  "get_worker_data_fd s worker_index =
     (case map_of (m_index_workers s) worker_index of
        None \<Rightarrow> Some (- 1)
      | Some p \<Rightarrow> map_option wi_data_fd (map_of (wd_heap s) p))"

definition get_worker_info :: "worker_data \<Rightarrow> int \<Rightarrow> nat option" where
  "get_worker_info s worker_index = map_of (m_index_workers s) worker_index"

text \<open>The control and the data channel of a process; \<open>Some None\<close> is the answer \<open>false\<close>.\<close>

definition get_worker_chanel :: "worker_data \<Rightarrow> int \<Rightarrow> (int \<times> int) option option" where
  "get_worker_chanel s pid =
     (case map_of (m_workers s) pid of
        None \<Rightarrow> Some None
      | Some p \<Rightarrow> map_option (\<lambda>info. Some (wi_ctrl_fd info, wi_data_fd info)) (map_of (wd_heap s) p))"

definition get_next_worker_data_fd :: "worker_data \<Rightarrow> (int \<times> worker_data) option" where
  "get_next_worker_data_fd s =
     (if m_workers s = [] then Some (- 1, s)
      else
        let itr = Suc (m_itr_worker s);
            itr = (if itr = length (m_workers s) then 0 else itr)
        in do {
          info \<leftarrow> map_of (wd_heap s) (snd (m_workers s ! itr));
          Some (wi_data_fd info, s\<lparr>m_itr_worker := itr\<rparr>)
        })"

section \<open>The two indexes agree with the heap\<close>

definition wd_inv :: "worker_data \<Rightarrow> bool" where
  "wd_inv s \<longleftrightarrow>
     distinct (ukeys (m_workers s)) \<and> distinct (ukeys (m_index_workers s)) \<and> distinct (ukeys (wd_heap s))
     \<and> (\<forall>pid p. map_of (m_workers s) pid = Some p \<longrightarrow> (\<exists>w. map_of (wd_heap s) p = Some w \<and> wi_pid w = pid))
     \<and> (\<forall>p w. map_of (wd_heap s) p = Some w \<longrightarrow> map_of (m_workers s) (wi_pid w) = Some p)
     \<and> (\<forall>i p. map_of (m_index_workers s) i = Some p \<longrightarrow> (\<exists>w. map_of (wd_heap s) p = Some w \<and> wi_index w = i))
     \<and> (m_workers s \<noteq> [] \<longrightarrow> m_itr_worker s < length (m_workers s))"

lemma wd_invI:
  assumes "distinct (ukeys (m_workers s))" and "distinct (ukeys (m_index_workers s))"
    and "distinct (ukeys (wd_heap s))"
    and "\<And>pid p. map_of (m_workers s) pid = Some p \<Longrightarrow> \<exists>w. map_of (wd_heap s) p = Some w \<and> wi_pid w = pid"
    and "\<And>p w. map_of (wd_heap s) p = Some w \<Longrightarrow> map_of (m_workers s) (wi_pid w) = Some p"
    and "\<And>i p. map_of (m_index_workers s) i = Some p \<Longrightarrow> \<exists>w. map_of (wd_heap s) p = Some w \<and> wi_index w = i"
    and "m_workers s \<noteq> [] \<Longrightarrow> m_itr_worker s < length (m_workers s)"
  shows "wd_inv s"
  using assms unfolding wd_inv_def by blast

lemma wd_inv_worker:
  assumes "wd_inv s" and "map_of (m_workers s) pid = Some p"
  obtains w where "map_of (wd_heap s) p = Some w" "wi_pid w = pid"
  using assms unfolding wd_inv_def by blast

lemma wd_inv_cell: "wd_inv s \<Longrightarrow> map_of (wd_heap s) p = Some w \<Longrightarrow> map_of (m_workers s) (wi_pid w) = Some p"
  unfolding wd_inv_def by blast

lemma wd_inv_index:
  assumes "wd_inv s" and "map_of (m_index_workers s) i = Some p"
  obtains w where "map_of (wd_heap s) p = Some w" "wi_index w = i"
  using assms unfolding wd_inv_def by blast

lemma wd_inv_distinct:
  "wd_inv s \<Longrightarrow> distinct (ukeys (m_workers s)) \<and> distinct (ukeys (m_index_workers s)) \<and> distinct (ukeys (wd_heap s))"
  unfolding wd_inv_def by blast

lemma del_worker_info_keeps:
  assumes inv: "wd_inv s"
  shows "\<exists>ok s'. del_worker_info s pid = Some (ok, s') \<and> wd_inv s' \<and> map_of (m_workers s') pid = None
    \<and> (\<forall>q. q \<noteq> pid \<longrightarrow> map_of (m_workers s') q = map_of (m_workers s) q)"
proof (cases "map_of (m_workers s) pid")
  case None
  then show ?thesis using inv by (simp add: del_worker_info_def ex_bool_eq)
next
  case (Some p)
  obtain w where w: "map_of (wd_heap s) p = Some w" "wi_pid w = pid" using wd_inv_worker [OF inv Some] .
  let ?s = "s\<lparr>m_index_workers := uerase (m_index_workers s) (wi_index w),
     m_workers := uerase (m_workers s) pid, m_itr_worker := 0, wd_heap := uerase (wd_heap s) p\<rparr>"
  have "wd_inv ?s"
  proof (rule wd_invI)
    show "\<exists>w. map_of (wd_heap ?s) q = Some w \<and> wi_pid w = pid'" if "map_of (m_workers ?s) pid' = Some q" for pid' q
    proof -
      have m: "pid' \<noteq> pid" "map_of (m_workers s) pid' = Some q" using that by (auto split: if_splits)
      obtain v where v: "map_of (wd_heap s) q = Some v" "wi_pid v = pid'" using wd_inv_worker [OF inv m(2)] .
      have "q \<noteq> p" using v w m(1) by auto
      then show ?thesis using v by simp
    qed
    show "map_of (m_workers ?s) (wi_pid v) = Some q" if "map_of (wd_heap ?s) q = Some v" for q v
    proof -
      have m: "q \<noteq> p" "map_of (wd_heap s) q = Some v" using that by (auto split: if_splits)
      have "map_of (m_workers s) (wi_pid v) = Some q" using wd_inv_cell [OF inv m(2)] .
      then show ?thesis using m(1) Some by auto
    qed
    show "\<exists>v. map_of (wd_heap ?s) q = Some v \<and> wi_index v = i" if "map_of (m_index_workers ?s) i = Some q" for i q
    proof -
      have m: "i \<noteq> wi_index w" "map_of (m_index_workers s) i = Some q" using that by (auto split: if_splits)
      obtain v where v: "map_of (wd_heap s) q = Some v" "wi_index v = i" using wd_inv_index [OF inv m(2)] .
      have "q \<noteq> p" using v w m(1) by auto
      then show ?thesis using v by simp
    qed
  qed (use wd_inv_distinct [OF inv] in simp_all)
  moreover have "del_worker_info s pid = Some (True, ?s)" using Some w by (simp add: del_worker_info_def)
  ultimately show ?thesis by (simp add: ex_bool_eq)
qed

lemma add_worker_info_keeps:
  assumes inv: "wd_inv s"
  shows "\<exists>s' p w. add_worker_info s i pid c d = Some (True, s') \<and> wd_inv s'
    \<and> map_of (m_workers s') pid = Some p \<and> map_of (m_index_workers s') i = Some p
    \<and> map_of (wd_heap s') p = Some w \<and> wi_pid w = pid \<and> wi_index w = i \<and> wi_ctrl_fd w = c \<and> wi_data_fd w = d"
proof -
  have "\<exists>s1. (if map_of (m_workers s) pid \<noteq> None then map_option snd (del_worker_info s pid) else Some s) = Some s1
      \<and> wd_inv s1 \<and> map_of (m_workers s1) pid = None"
    using del_worker_info_keeps [OF inv, of pid] inv by auto
  then obtain s1 where s1: "(if map_of (m_workers s) pid \<noteq> None then map_option snd (del_worker_info s pid) else Some s) = Some s1"
    "wd_inv s1" "map_of (m_workers s1) pid = None" by blast
  let ?p = "fresh_addr (wd_heap s1)"
  let ?w = "\<lparr>wi_pid = pid, wi_index = i, wi_ctrl_fd = c, wi_data_fd = d, wi_payload = empty_payload\<rparr>"
  let ?s = "s1\<lparr>wd_heap := uset (wd_heap s1) ?p ?w, m_workers := uset (m_workers s1) pid ?p, m_itr_worker := 0,
     m_index_workers := uset (m_index_workers s1) i ?p\<rparr>"
  note free = fresh_addr_free [of "wd_heap s1"]
  have "wd_inv ?s"
  proof (rule wd_invI)
    show "\<exists>v. map_of (wd_heap ?s) q = Some v \<and> wi_pid v = pid'" if "map_of (m_workers ?s) pid' = Some q" for pid' q
    proof (cases "pid' = pid")
      case False
      then have m: "map_of (m_workers s1) pid' = Some q" using that by simp
      obtain v where "map_of (wd_heap s1) q = Some v" "wi_pid v = pid'" using wd_inv_worker [OF s1(2) m] .
      then show ?thesis using free by auto
    qed (use that in auto)
    show "map_of (m_workers ?s) (wi_pid v) = Some q" if "map_of (wd_heap ?s) q = Some v" for q v
    proof (cases "q = ?p")
      case False
      then have m: "map_of (wd_heap s1) q = Some v" using that by simp
      show ?thesis using wd_inv_cell [OF s1(2) m] s1(3) by auto
    qed (use that in auto)
    show "\<exists>v. map_of (wd_heap ?s) q = Some v \<and> wi_index v = j" if "map_of (m_index_workers ?s) j = Some q" for j q
    proof (cases "j = i")
      case False
      then have m: "map_of (m_index_workers s1) j = Some q" using that by simp
      obtain v where "map_of (wd_heap s1) q = Some v" "wi_index v = j" using wd_inv_index [OF s1(2) m] .
      then show ?thesis using free by auto
    qed (use that in auto)
  qed (use wd_inv_distinct [OF s1(2)] in simp_all)
  moreover have "add_worker_info s i pid c d = Some (True, ?s)"
    using s1(1) by (simp add: add_worker_info_def Let_def)
  ultimately show ?thesis by (intro exI [of _ ?s] exI [of _ ?p] exI [of _ ?w]) simp
qed

section \<open>The two views of the table\<close>

text \<open>The record of a process, and the record that is found under a worker index.\<close>

definition worker_by_pid :: "worker_data \<Rightarrow> int \<Rightarrow> worker_info_t option" where
  "worker_by_pid s pid = Option.bind (map_of (m_workers s) pid) (map_of (wd_heap s))"

definition worker_by_index :: "worker_data \<Rightarrow> int \<Rightarrow> worker_info_t option" where
  "worker_by_index s i = Option.bind (map_of (m_index_workers s) i) (map_of (wd_heap s))"

text \<open>The table without the entry for the index \<open>i\<close>, when there is one to forget.\<close>

definition forget_index :: "worker_info_t option \<Rightarrow> (int \<Rightarrow> worker_info_t option) \<Rightarrow> int \<Rightarrow> worker_info_t option" where
  "forget_index old m = (case old of None \<Rightarrow> m | Some w \<Rightarrow> m(wi_index w := None))"

lemma del_worker_info_views:
  assumes inv: "wd_inv s" and del: "del_worker_info s pid = Some (ok, s')"
  shows "ok = (worker_by_pid s pid \<noteq> None)" and "worker_by_pid s' = (worker_by_pid s)(pid := None)"
    and "worker_by_index s' = forget_index (worker_by_pid s pid) (worker_by_index s)"
proof -
  have "ok = (worker_by_pid s pid \<noteq> None) \<and> worker_by_pid s' = (worker_by_pid s)(pid := None)
    \<and> worker_by_index s' = forget_index (worker_by_pid s pid) (worker_by_index s)"
  proof (cases "map_of (m_workers s) pid")
    case None
    then show ?thesis using del by (auto simp: del_worker_info_def worker_by_pid_def forget_index_def)
  next
    case (Some p)
    obtain w where w: "map_of (wd_heap s) p = Some w" "wi_pid w = pid" using wd_inv_worker [OF inv Some] .
    have s': "ok" "s' = s\<lparr>m_index_workers := uerase (m_index_workers s) (wi_index w), m_workers := uerase (m_workers s) pid,
        m_itr_worker := 0, wd_heap := uerase (wd_heap s) p\<rparr>"
      using del Some w(1) by (auto simp: del_worker_info_def)
    have other: "r \<noteq> p" if "map_of (m_workers s) q = Some r" "q \<noteq> pid" for q r
      using wd_inv_worker [OF inv that(1)] w that(2) by (metis option.inject)
    have other': "r \<noteq> p" if "map_of (m_index_workers s) j = Some r" "j \<noteq> wi_index w" for j r
      using wd_inv_index [OF inv that(1)] w(1) that(2) by (metis option.inject)
    have "worker_by_pid s' q = ((worker_by_pid s)(pid := None)) q" for q
      using other by (cases "map_of (m_workers s) q") (auto simp: s'(2) worker_by_pid_def)
    moreover have "worker_by_index s' j = ((worker_by_index s)(wi_index w := None)) j" for j
      using other' by (cases "map_of (m_index_workers s) j") (auto simp: s'(2) worker_by_index_def)
    moreover have "worker_by_pid s pid = Some w" using Some w(1) by (simp add: worker_by_pid_def)
    ultimately show ?thesis using s'(1) by (simp add: fun_eq_iff forget_index_def)
  qed
  then show "ok = (worker_by_pid s pid \<noteq> None)" "worker_by_pid s' = (worker_by_pid s)(pid := None)"
    "worker_by_index s' = forget_index (worker_by_pid s pid) (worker_by_index s)" by blast+
qed

lemma add_worker_info_views:
  assumes inv: "wd_inv s" and add: "add_worker_info s i pid c d = Some (ok, s')"
  defines "w \<equiv> \<lparr>wi_pid = pid, wi_index = i, wi_ctrl_fd = c, wi_data_fd = d, wi_payload = empty_payload\<rparr>"
  shows "worker_by_pid s' = (worker_by_pid s)(pid \<mapsto> w)"
    and "worker_by_index s' = (forget_index (worker_by_pid s pid) (worker_by_index s))(i \<mapsto> w)"
proof -
  obtain s1 where s1: "wd_inv s1" "worker_by_pid s1 = (worker_by_pid s)(pid := None)"
    "worker_by_index s1 = forget_index (worker_by_pid s pid) (worker_by_index s)"
    and s': "s' = s1\<lparr>wd_heap := uset (wd_heap s1) (fresh_addr (wd_heap s1)) w,
      m_workers := uset (m_workers s1) pid (fresh_addr (wd_heap s1)), m_itr_worker := 0,
      m_index_workers := uset (m_index_workers s1) i (fresh_addr (wd_heap s1))\<rparr>"
  proof (cases "map_of (m_workers s) pid")
    case None
    then have "worker_by_pid s pid = None" by (simp add: worker_by_pid_def)
    then show ?thesis
      using None that [OF inv] add by (simp add: add_worker_info_def Let_def w_def forget_index_def fun_upd_idem)
  next
    case (Some p)
    obtain b s1 where d: "del_worker_info s pid = Some (b, s1)" "wd_inv s1" using del_worker_info_keeps [OF inv] by blast
    then show ?thesis
      using Some that [OF d(2) del_worker_info_views(2,3) [OF inv d(1)]] add by (simp add: add_worker_info_def Let_def w_def)
  qed
  note free = fresh_addr_free [of "wd_heap s1"]
  have old: "r \<noteq> fresh_addr (wd_heap s1)" if "map_of (m_workers s1) q = Some r" for q r
    using wd_inv_worker [OF s1(1) that] free by (metis option.distinct(1))
  have old': "r \<noteq> fresh_addr (wd_heap s1)" if "map_of (m_index_workers s1) j = Some r" for j r
    using wd_inv_index [OF s1(1) that] free by (metis option.distinct(1))
  have "worker_by_pid s' q = ((worker_by_pid s1)(pid \<mapsto> w)) q" for q
    using old by (cases "map_of (m_workers s1) q") (auto simp: s' worker_by_pid_def)
  then show "worker_by_pid s' = (worker_by_pid s)(pid \<mapsto> w)" by (simp add: fun_eq_iff s1(2))
  have "worker_by_index s' j = ((worker_by_index s1)(i \<mapsto> w)) j" for j
    using old' by (cases "map_of (m_index_workers s1) j") (auto simp: s' worker_by_index_def)
  then show "worker_by_index s' = (forget_index (worker_by_pid s pid) (worker_by_index s))(i \<mapsto> w)"
    by (simp add: fun_eq_iff s1(3))
qed

section \<open>The roster\<close>

text \<open>
  Which processes are in the table, with their indexes and channels: what only \<open>add_worker_info\<close> and
  \<open>del_worker_info\<close> change. The iterator and the payloads of the workers are not part of it.
\<close>

definition identity :: "worker_info_t \<Rightarrow> int \<times> int \<times> int \<times> int" where
  "identity i = (wi_pid i, wi_index i, wi_ctrl_fd i, wi_data_fd i)"

definition roster ::
  "worker_data \<Rightarrow> (int \<times> nat) list \<times> (int \<times> nat) list \<times> (nat \<times> int \<times> int \<times> int \<times> int) list" where
  "roster wd = (m_workers wd, m_index_workers wd, map (\<lambda>(p, i). (p, identity i)) (wd_heap wd))"

lemma roster_iterator [simp]: "roster (wd\<lparr>m_itr_worker := i\<rparr>) = roster wd"
  by (simp add: roster_def)

lemma update_same_image:
  "map_of h p = Some i \<Longrightarrow> f j = f i \<Longrightarrow> map (\<lambda>(p, i). (p, f i)) (uset h p j) = map (\<lambda>(p, i). (p, f i)) h"
  by (induction h) auto

lemma roster_payload:
  "map_of (wd_heap wd) p = Some i \<Longrightarrow> roster (wd\<lparr>wd_heap := uset (wd_heap wd) p (i\<lparr>wi_payload := pl\<rparr>)\<rparr>) = roster wd"
  by (simp add: roster_def identity_def update_same_image)

lemma roster_next: "get_next_worker_data_fd wd = Some (fd, wd') \<Longrightarrow> roster wd' = roster wd"
  by (auto simp: get_next_worker_data_fd_def Let_def split: if_splits bind_splits)

section \<open>Round robin\<close>

definition fd_at :: "worker_data \<Rightarrow> nat \<Rightarrow> int" where
  "fd_at s i = wi_data_fd (the (map_of (wd_heap s) (snd (m_workers s ! i))))"

fun next_fds :: "nat \<Rightarrow> worker_data \<Rightarrow> (int list \<times> worker_data) option" where
  "next_fds 0 s = Some ([], s)"
| "next_fds (Suc k) s =
     do { (fd, s) \<leftarrow> get_next_worker_data_fd s; (fds, s) \<leftarrow> next_fds k s; Some (fd # fds, s) }"

lemma get_next_at:
  assumes inv: "wd_inv s" and ne: "m_workers s \<noteq> []"
  defines "i \<equiv> Suc (m_itr_worker s) mod length (m_workers s)"
  shows "get_next_worker_data_fd s = Some (fd_at s i, s\<lparr>m_itr_worker := i\<rparr>)"
    and "wd_inv (s\<lparr>m_itr_worker := i\<rparr>)" and "fd_at (s\<lparr>m_itr_worker := i\<rparr>) = fd_at s"
proof -
  have itr: "m_itr_worker s < length (m_workers s)" using inv ne by (simp add: wd_inv_def)
  then have e: "(if Suc (m_itr_worker s) = length (m_workers s) then 0 else Suc (m_itr_worker s)) = i"
    unfolding i_def by (auto simp: mod_Suc)
  have lt: "i < length (m_workers s)" using ne by (simp add: i_def)
  then have "(fst (m_workers s ! i), snd (m_workers s ! i)) \<in> set (m_workers s)" by simp
  then have m: "map_of (m_workers s) (fst (m_workers s ! i)) = Some (snd (m_workers s ! i))"
    using wd_inv_distinct [OF inv] by (intro map_of_is_SomeI) auto
  obtain w where "map_of (wd_heap s) (snd (m_workers s ! i)) = Some w" using wd_inv_worker [OF inv m] .
  then show "get_next_worker_data_fd s = Some (fd_at s i, s\<lparr>m_itr_worker := i\<rparr>)"
    using ne by (simp add: get_next_worker_data_fd_def fd_at_def e)
  show "wd_inv (s\<lparr>m_itr_worker := i\<rparr>)"     using inv lt unfolding wd_inv_def by (simp del: map_of_eq_Some_iff)
  show "fd_at (s\<lparr>m_itr_worker := i\<rparr>) = fd_at s" by (simp add: fd_at_def fun_eq_iff)
qed

lemma next_fds_at:
  assumes "wd_inv s" and "m_workers s \<noteq> []"
  shows "next_fds k s = Some (map (\<lambda>j. fd_at s ((m_itr_worker s + Suc j) mod length (m_workers s))) [0..<k],
     s\<lparr>m_itr_worker := (m_itr_worker s + k) mod length (m_workers s)\<rparr>)"
  using assms
proof (induction k arbitrary: s)
  case 0
  then show ?case by (simp add: wd_inv_def)
next
  case (Suc k)
  let ?n = "length (m_workers s)"
  let ?s = "s\<lparr>m_itr_worker := Suc (m_itr_worker s) mod ?n\<rparr>"
  note g = get_next_at [OF Suc.prems]
  have ne: "m_workers ?s \<noteq> []" using Suc.prems by simp
  have shift: "Suc (Suc (m_itr_worker s) mod ?n + j) mod ?n = Suc (Suc (m_itr_worker s + j)) mod ?n" for j
    using mod_add_left_eq [of "Suc (m_itr_worker s)" ?n "Suc j"] by simp
  have "next_fds k ?s = Some (map (\<lambda>j. fd_at s ((m_itr_worker s + Suc (Suc j)) mod ?n)) [0..<k],
      s\<lparr>m_itr_worker := (m_itr_worker s + Suc k) mod ?n\<rparr>)"
    using Suc.IH [OF g(2) ne] mod_add_left_eq [of "Suc (m_itr_worker s)" ?n k] by (simp add: g(3) shift)
  then show ?case using g(1) by (simp add: map_upt_Suc del: upt_Suc)
qed

section \<open>Properties\<close>

lemma new_worker_data_inv: "wd_inv new_worker_data"
  by (simp add: wd_inv_def new_worker_data_def)

definition two_workers :: worker_data where
  "two_workers = snd (the (add_worker_info (snd (the (add_worker_info new_worker_data 1 100 3 4))) 2 101 5 6))"

lemma two_workers_eq: "two_workers =
  \<lparr>m_workers = [(100, 1), (101, 2)], m_itr_worker = 0, m_index_workers = [(1, 1), (2, 2)],
   wd_heap = [(1, \<lparr>wi_pid = 100, wi_index = 1, wi_ctrl_fd = 3, wi_data_fd = 4, wi_payload = empty_payload\<rparr>),
              (2, \<lparr>wi_pid = 101, wi_index = 2, wi_ctrl_fd = 5, wi_data_fd = 6, wi_payload = empty_payload\<rparr>)]\<rparr>"
  by (simp add: two_workers_def add_worker_info_def new_worker_data_def fresh_addr_def)

lemma two_workers_inv: "wd_inv two_workers"
  by (auto simp: two_workers_eq wd_inv_def split: if_splits)

text \<open>
  C40. The manager's worker table, seen by process id and by worker index. Registering a process
  makes its record the one found under its pid and under its index; a record it had before is
  forgotten under its old index. Removing a process forgets its record under its pid and under its
  index. No other entry of either index changes, so the other processes stay in the table as they
  were; only where two processes share an index does one of them lose its entry by index. Neither
  index ever points to a freed record, whatever order of pids and indexes arrives.
\<close>

theorem worker_table_keeps_inv:
  assumes "wd_inv s"
  shows "(\<exists>s' p w. add_worker_info s i pid c d = Some (True, s') \<and> wd_inv s'
      \<and> map_of (m_workers s') pid = Some p \<and> map_of (m_index_workers s') i = Some p
      \<and> wi_pid w = pid \<and> wi_index w = i \<and> wi_ctrl_fd w = c \<and> wi_data_fd w = d
      \<and> worker_by_pid s' = (worker_by_pid s)(pid \<mapsto> w)
      \<and> worker_by_index s' = (forget_index (worker_by_pid s pid) (worker_by_index s))(i \<mapsto> w))
    \<and> (\<exists>ok s'. del_worker_info s pid = Some (ok, s') \<and> wd_inv s' \<and> ok = (worker_by_pid s pid \<noteq> None)
      \<and> worker_by_pid s' = (worker_by_pid s)(pid := None)
      \<and> worker_by_index s' = forget_index (worker_by_pid s pid) (worker_by_index s))"
proof -
  obtain ok s' where d: "del_worker_info s pid = Some (ok, s')" "wd_inv s'"
    using del_worker_info_keeps [OF assms] by blast
  obtain t p w where a: "add_worker_info s i pid c d = Some (True, t)" "wd_inv t"
    "map_of (m_workers t) pid = Some p" "map_of (m_index_workers t) i = Some p"
    using add_worker_info_keeps [OF assms, of i pid c d] by blast
  let ?w = "\<lparr>wi_pid = pid, wi_index = i, wi_ctrl_fd = c, wi_data_fd = d, wi_payload = empty_payload\<rparr>"
  have "wi_pid ?w = pid \<and> wi_index ?w = i \<and> wi_ctrl_fd ?w = c \<and> wi_data_fd ?w = d" by simp
  then show ?thesis
    using d del_worker_info_views [OF assms d(1)] a add_worker_info_views [OF assms a(1)] by blast
qed

text \<open>Process 100 leaves the table of the workers 100 and 101, and process 102 takes its index.\<close>

theorem worker_table_keeps_inv_witness:
  "(\<exists>s'. del_worker_info two_workers 100 = Some (True, s') \<and> worker_by_pid s' 100 = None \<and> worker_by_index s' 1 = None
     \<and> map_option wi_pid (worker_by_index s' 2) = Some 101)
   \<and> (\<exists>s'. add_worker_info two_workers 1 102 7 8 = Some (True, s') \<and> map_option wi_pid (worker_by_index s' 1) = Some 102
     \<and> map_option wi_pid (worker_by_index s' 2) = Some 101)"
proof -
  have v: "worker_by_pid two_workers 100 = map_of (wd_heap two_workers) 1" "worker_by_pid two_workers 102 = None"
    "worker_by_index two_workers 2 = map_of (wd_heap two_workers) 2"
    by (simp_all add: worker_by_pid_def worker_by_index_def two_workers_eq)
  show ?thesis
    using worker_table_keeps_inv [OF two_workers_inv, of 1 100 0 0] worker_table_keeps_inv [OF two_workers_inv, of 1 102 7 8] v
    by (auto simp: forget_index_def two_workers_eq)
qed

text \<open>
  Connections are dealt out fairly: as many calls of \<open>get_next_worker_data_fd\<close> as there are
  workers answer the data channel of every worker exactly once and leave the iterator where it was.
\<close>

lemma round_robin_is_fair:
  assumes "wd_inv s" and "m_workers s \<noteq> []"
  shows "\<exists>fds. next_fds (length (m_workers s)) s = Some (fds, s)
    \<and> mset fds = mset (map (fd_at s) [0..<length (m_workers s)])"
proof -
  let ?n = "length (m_workers s)" and ?fds = "map (fd_at s) [0..<length (m_workers s)]"
  have itr: "m_itr_worker s < ?n" using assms by (simp add: wd_inv_def)
  have "map (\<lambda>j. fd_at s ((m_itr_worker s + Suc j) mod ?n)) [0..<?n] = rotate (Suc (m_itr_worker s)) ?fds"
  proof (rule nth_equalityI)
    fix j
    assume "j < length (map (\<lambda>j. fd_at s ((m_itr_worker s + Suc j) mod ?n)) [0..<?n])"
    then have j: "j < ?n" by simp
    moreover have "(m_itr_worker s + Suc j) mod ?n < ?n" using assms(2) by simp
    ultimately show "map (\<lambda>j. fd_at s ((m_itr_worker s + Suc j) mod ?n)) [0..<?n] ! j
        = rotate (Suc (m_itr_worker s)) ?fds ! j"
      by (simp add: nth_rotate del: rotate_Suc)
  qed simp
  then have "mset (map (\<lambda>j. fd_at s ((m_itr_worker s + Suc j) mod ?n)) [0..<?n]) = mset ?fds"
    by (metis append_take_drop_id mset_append rotate_drop_take union_commute)
  moreover have "s\<lparr>m_itr_worker := (m_itr_worker s + ?n) mod ?n\<rparr> = s" using itr by simp
  ultimately show ?thesis using next_fds_at [OF assms, of ?n] by metis
qed

end
