(* ===== verification/Chanel.thy ===== *)
theory Chanel
  imports Kim_Prelude
begin

text \<open>
  The transfer of descriptors between the manager and its workers over a socket pair,
  \<open>src/core/net/chanel.cpp\<close>. The kernel's answers to \<open>sendmsg\<close> and \<open>recvmsg\<close> are arguments: a message
  has its data, and the control part that carries the descriptor.
\<close>

record channel_t =
  ch_fd :: int
  ch_family :: int
  ch_codec :: int
  ch_is_system :: int

record control_msg =
  cm_len_ok :: bool
  cm_rights :: bool
  cm_fd :: int
  cm_truncated :: bool

datatype sendmsg_res = Sendmsg_ok | Sendmsg_err int
datatype recvmsg_res = Recvmsg_err int | Recvmsg_ok nat channel_t control_msg

definition SIZEOF_CHANNEL :: nat where "SIZEOF_CHANNEL = 16"

text \<open>0, \<open>EAGAIN\<close> or -1; on success the message on the wire, without the descriptor when it is -1.\<close>

definition write_channel :: "sendmsg_res \<Rightarrow> channel_t \<Rightarrow> int \<times> (channel_t \<times> int option) option" where
  "write_channel r ch =
     (case r of
        Sendmsg_ok \<Rightarrow> (0, Some (ch, if ch_fd ch = - 1 then None else Some (ch_fd ch)))
      | Sendmsg_err e \<Rightarrow> (if e = EAGAIN then e else - 1, None))"

definition read_channel :: "recvmsg_res \<Rightarrow> channel_t \<Rightarrow> int \<times> channel_t" where
  "read_channel r ch =
     (case r of
        Recvmsg_err e \<Rightarrow> (if e = EAGAIN then e else - 1, ch)
      | Recvmsg_ok n data cm \<Rightarrow>
          if n = 0 then (- 1, ch)
          else if n < SIZEOF_CHANNEL then (- 1, data)
          else if \<not> cm_len_ok cm then (- 1, data)
          else if \<not> cm_rights cm then (- 1, data)
          else let data = data\<lparr>ch_fd := cm_fd cm\<rparr>
               in if cm_truncated cm then (- 1, data) else (0, data))"

lemma write_channel_cases: "fst (write_channel r ch) \<in> {0, EAGAIN, - 1}"
  by (auto simp: write_channel_def split: sendmsg_res.split)

lemma read_channel_ok:
  "read_channel r ch = (0, ch') \<Longrightarrow> \<exists>n data cm. r = Recvmsg_ok n data cm \<and> cm_len_ok cm \<and> cm_rights cm
     \<and> \<not> cm_truncated cm \<and> ch' = data\<lparr>ch_fd := cm_fd cm\<rparr>"
  by (auto simp: read_channel_def Let_def EAGAIN_def split: recvmsg_res.splits if_splits)

end
