(* ===== verification/Redis_Pool.thy ===== *)
theory Redis_Pool
  imports Util_Str "HOL-Library.Multiset"
begin

text \<open>
  The redis pool, \<open>src/core/redis/redis_mgr.cpp\<close> and \<open>redis_context.cpp\<close>: one asynchronous connection per
  address, with a queue of the commands that wait until it is up.

  hiredis is a library: what its functions answer is an argument, and what the pool asks of it is
  the list of outputs. A callback of a task is an output too; \<open>rt_cmd\<close> is the command that waits for
  it (\<open>privdata\<close>). A callback runs the user's code, which may send further commands through the pool
  before the loop that called it goes on: what the user sends is an argument of these loops.
  \<open>None\<close> is the use of a null or dangling pointer. Objects live in the heap \<open>rm_heap\<close>, as in
  \<open>Nodes_Mgr\<close>.
\<close>

section \<open>Connections\<close>

record rds_task =
  rt_argv :: "string list"
  rt_cmd :: nat

datatype rds_state = RS_CONNECTING | RS_CONNECTED | RS_CLOSED

record rds_conn =
  rc_state :: rds_state
  rc_ctx :: "nat option"
  rc_wait_tasks :: "rds_task list"

definition new_rds_conn :: rds_conn where
  "new_rds_conn = \<lparr>rc_state = RS_CLOSED, rc_ctx = None, rc_wait_tasks = []\<rparr>"

definition rds_active :: "rds_conn \<Rightarrow> bool" where
  "rds_active c \<longleftrightarrow> rc_state c = RS_CONNECTING \<or> rc_state c = RS_CONNECTED"

text \<open>The answers of \<open>redisAsyncConnect\<close>: a null pointer, a context with an error, or a context.\<close>

datatype rds_connect_res = Ctx_null | Ctx_err nat | Ctx_ok nat

datatype rds_out =
    R_command nat "string list" nat
  | R_callback nat int
  | R_disconnect nat
  | R_free nat

definition REDIS_OK :: int where "REDIS_OK = 0"
definition REDIS_ERR :: int where "REDIS_ERR = - 1"

text \<open>
  \<open>wait_task_error_callback\<close>: the callback sees the context's error, or \<open>REDIS_ERR\<close> when it has none.
\<close>

definition task_error :: "int \<Rightarrow> rds_task \<Rightarrow> rds_out" where
  "task_error ctx_err t = R_callback (rt_cmd t) (if ctx_err = REDIS_OK then REDIS_ERR else ctx_err)"

definition add_wait_task :: "string list \<Rightarrow> nat \<Rightarrow> rds_conn \<Rightarrow> bool \<times> rds_conn" where
  "add_wait_task argv cmd c =
     (if argv = [] then (False, c)
      else (True, c\<lparr>rc_wait_tasks := rc_wait_tasks c @ [\<lparr>rt_argv = argv, rt_cmd = cmd\<rparr>]\<rparr>))"

text \<open>\<open>sent\<close>: \<open>redisAsyncCommandArgv\<close> takes the command.\<close>

definition rds_send_to :: "bool \<Rightarrow> string list \<Rightarrow> nat \<Rightarrow> rds_conn \<Rightarrow> bool \<times> rds_out list \<times> rds_conn" where
  "rds_send_to sent argv cmd c =
     (case rc_ctx c of
        None \<Rightarrow> (False, [], c)
      | Some x \<Rightarrow>
          if rc_state c = RS_CLOSED then (False, [], c)
          else if rc_state c = RS_CONNECTING then
            let (ok, c) = add_wait_task argv cmd c in (ok, [], c)
          else if sent then (True, [R_command x argv cmd], c)
          else (False, [], c))"

text \<open>
  What the user's code does inside one callback: the commands it sends to this connection's node, each
  with the answer \<open>redisAsyncCommandArgv\<close> would give, and inside the callbacks of a loop, in order (no
  further commands when the list ends). \<open>RedisMgr::send_to\<close> refuses an empty command. \<open>get_conn\<close>
  hands out the connection while it is active; otherwise it reconnects it, and \<open>connect\<close> clears the
  list of waiting commands (or the connection is deleted) under the loop that iterates over it:
  \<open>None\<close>. The result has the outputs, the commands that were accepted and the connection.
\<close>

type_synonym rds_user = "(string list \<times> nat \<times> bool) list"

type_synonym rds_result = "(rds_out list \<times> nat list \<times> rds_conn) option"

fun user_sends :: "rds_user \<Rightarrow> rds_conn \<Rightarrow> rds_result" where
  "user_sends [] c = Some ([], [], c)"
| "user_sends ((argv, cmd, sent) # u) c =
     (if argv = [] then user_sends u c
      else if \<not> rds_active c then None
      else
        let (ok, outs, c) = rds_send_to sent argv cmd c
        in do {
          (outs', acc, c) \<leftarrow> user_sends u c;
          Some (outs @ outs', (if ok then [cmd] else []) @ acc, c)
        })"

text \<open>
  The loop of \<open>destory\<close> from the \<open>i\<close>th waiting command on. The connection is still active, so a command
  that a callback sends is appended to the list and the same loop comes to it.
\<close>

fun fail_wait_tasks :: "int \<Rightarrow> rds_user list \<Rightarrow> nat \<Rightarrow> rds_conn \<Rightarrow> rds_result" where
  "fail_wait_tasks ctx_err [] i c = Some (map (task_error ctx_err) (drop i (rc_wait_tasks c)), [], c)"
| "fail_wait_tasks ctx_err (u # us) i c =
     (if i < length (rc_wait_tasks c) then do {
        let t = rc_wait_tasks c ! i;
        (outs, acc, c) \<leftarrow> user_sends u c;
        (outs', acc', c) \<leftarrow> fail_wait_tasks ctx_err us (Suc i) c;
        Some (task_error ctx_err t # outs @ outs', acc @ acc', c)
      } else Some ([], [], c))"

text \<open>\<open>destory\<close>; \<open>ctx_err\<close> is the error number of the context.\<close>

definition rds_destory :: "int \<Rightarrow> rds_user list \<Rightarrow> rds_conn \<Rightarrow> rds_result" where
  "rds_destory ctx_err us c =
     do {
       (outs, acc, c) \<leftarrow>
         (case rc_ctx c of
            None \<Rightarrow> Some ([], [], c)
          | Some x \<Rightarrow> map_option (\<lambda>(outs, acc, c). (outs @ [R_disconnect x], acc, c)) (fail_wait_tasks ctx_err us 0 c));
       Some (outs, acc, c\<lparr>rc_wait_tasks := [], rc_state := RS_CLOSED, rc_ctx := None\<rparr>)
     }"

text \<open>
  \<open>connect\<close>. A null pointer of \<open>redisAsyncConnect\<close> is dereferenced by the branch that handles it.
\<close>

definition rds_connect ::
  "string \<Rightarrow> int \<Rightarrow> rds_connect_res \<Rightarrow> bool \<Rightarrow> int \<Rightarrow> rds_user list \<Rightarrow> rds_conn
     \<Rightarrow> (bool \<times> rds_out list \<times> nat list \<times> rds_conn) option" where
  "rds_connect host port res attach ctx_err us c =
     (if host = [] \<or> port = 0 then Some (False, [], [], c)
      else do {
        (outs, acc, c) \<leftarrow> rds_destory ctx_err us c;
        case res of
          Ctx_null \<Rightarrow> None
        | Ctx_err x \<Rightarrow> Some (False, outs @ [R_free x], acc, c)
        | Ctx_ok x \<Rightarrow>
            if \<not> attach then Some (False, outs @ [R_free x], acc, c)
            else Some (True, outs, acc, c\<lparr>rc_state := RS_CONNECTING, rc_ctx := Some x\<rparr>)
      })"

text \<open>
  The loop of \<open>on_redis_connect_callback\<close>: every waiting command is sent, or its callback is told of
  the failure. \<open>sends\<close> are the answers of \<open>redisAsyncCommandArgv\<close>, in order. The state is connected
  or closed here, so nothing is appended to the list while it is iterated over.
\<close>

fun send_wait_tasks ::
  "bool \<Rightarrow> int \<Rightarrow> bool list \<Rightarrow> rds_user list \<Rightarrow> rds_task list \<Rightarrow> rds_conn \<Rightarrow> rds_result" where
  "send_wait_tasks ok ctx_err sends us [] c = Some ([], [], c)"
| "send_wait_tasks ok ctx_err sends us (t # ts) c =
     (let (done, outs, c) =
            (if ok then rds_send_to (case sends of [] \<Rightarrow> False | b # _ \<Rightarrow> b) (rt_argv t) (rt_cmd t) c
             else (False, [], c))
      in if done then do {
           (outs', acc, c) \<leftarrow> send_wait_tasks ok ctx_err (tl sends) us ts c;
           Some (outs @ outs', acc, c)
         } else do {
           (outs', acc, c) \<leftarrow> user_sends (case us of [] \<Rightarrow> [] | u # _ \<Rightarrow> u) c;
           (outs'', acc', c) \<leftarrow> send_wait_tasks ok ctx_err (tl sends) (tl us) ts c;
           Some (outs @ task_error ctx_err t # outs' @ outs'', acc @ acc', c)
         })"

definition on_redis_connect_callback ::
  "int \<Rightarrow> int \<Rightarrow> bool list \<Rightarrow> rds_user list \<Rightarrow> rds_conn \<Rightarrow> rds_result" where
  "on_redis_connect_callback status ctx_err sends us c =
     (let ok = (status = REDIS_OK);
          c = (if ok then c\<lparr>rc_state := RS_CONNECTED\<rparr> else c\<lparr>rc_ctx := None, rc_state := RS_CLOSED\<rparr>)
      in do {
        (outs, acc, c) \<leftarrow> send_wait_tasks ok ctx_err sends us (rc_wait_tasks c) c;
        Some (outs, acc, c\<lparr>rc_wait_tasks := []\<rparr>)
      })"

text \<open>The function that hiredis calls after a disconnection runs \<open>on_redis_connect_callback\<close>.\<close>

definition on_redis_disconnect_libev_callback ::
  "int \<Rightarrow> int \<Rightarrow> bool list \<Rightarrow> rds_user list \<Rightarrow> rds_conn \<Rightarrow> rds_result" where
  "on_redis_disconnect_libev_callback status ctx_err sends us c = on_redis_connect_callback status ctx_err sends us c"

definition on_redis_disconnect_callback :: "rds_conn \<Rightarrow> rds_conn" where
  "on_redis_disconnect_callback c = c\<lparr>rc_state := RS_CLOSED, rc_ctx := None\<rparr>"

section \<open>The pool\<close>

record redis_mgr =
  rm_addrs :: "(string \<times> (string \<times> int)) list"
  rm_conns :: "(string \<times> nat) list"
  rm_heap :: "(nat \<times> rds_conn) list"

definition new_redis_mgr :: redis_mgr where
  "new_redis_mgr = \<lparr>rm_addrs = [], rm_conns = [], rm_heap = []\<rparr>"

text \<open>
  \<open>init\<close>, over the members of the JSON object: name, host and port as text. \<open>None\<close>: \<open>std::stoi\<close> throws.
\<close>

fun redis_init :: "(string \<times> string \<times> string) list \<Rightarrow> redis_mgr \<Rightarrow> (bool \<times> redis_mgr) option" where
  "redis_init [] m = Some (True, m)"
| "redis_init ((node, host, port) # cfg) m =
     do {
       port \<leftarrow> str_to_int port;
       if host = [] \<or> port = 0 then Some (False, m\<lparr>rm_addrs := []\<rparr>)
       else redis_init cfg (if map_of (rm_addrs m) node = None then m\<lparr>rm_addrs := uset (rm_addrs m) node (host, port)\<rparr> else m)
     }"

text \<open>
  The connections are stored under their address, but \<open>close\<close> looks the node's name up. The entry is
  still in the table while the destructor runs the callbacks.
\<close>

definition redis_close ::
  "int \<Rightarrow> rds_user list \<Rightarrow> string \<Rightarrow> redis_mgr \<Rightarrow> (rds_out list \<times> redis_mgr) option" where
  "redis_close ctx_err us node m =
     (case map_of (rm_conns m) node of
        None \<Rightarrow> Some ([], m)
      | Some p \<Rightarrow>
          do {
            c \<leftarrow> map_of (rm_heap m) p;
            (outs, _, _) \<leftarrow> rds_destory ctx_err us c;
            Some (outs,
              m\<lparr>rm_conns := uerase (rm_conns m) node, rm_addrs := uerase (rm_addrs m) node,
                rm_heap := uerase (rm_heap m) p\<rparr>)
          })"

text \<open>
  \<open>get_conn\<close>; the inner \<open>None\<close> is \<open>nullptr\<close>. A connection whose reconnection fails is deleted but keeps
  its entry in \<open>m_conns\<close>. The connection that is set up again is closed, so no command waits on it
  (\<open>rc_inv\<close>) and no callback runs here.
\<close>

definition redis_get_conn ::
  "rds_connect_res \<Rightarrow> bool \<Rightarrow> int \<Rightarrow> string \<Rightarrow> redis_mgr \<Rightarrow> (nat option \<times> rds_out list \<times> redis_mgr) option" where
  "redis_get_conn res attach ctx_err node m =
     (case map_of (rm_addrs m) node of
        None \<Rightarrow> Some (None, [], m)
      | Some (host, port) \<Rightarrow>
          let identity = format_addr host port
          in do {
            old \<leftarrow> (case map_of (rm_conns m) identity of
                      None \<Rightarrow> Some None
                    | Some p \<Rightarrow> map_option (\<lambda>c. Some (p, c)) (map_of (rm_heap m) p));
            case old of
              Some (p, c) \<Rightarrow>
                if rds_active c then Some (Some p, [], m)
                else do {
                  (ok, outs, _, c) \<leftarrow> rds_connect host port res attach ctx_err [] c;
                  if \<not> ok then do {
                    (outs', _, _) \<leftarrow> rds_destory ctx_err [] c;
                    Some (None, outs @ outs', m\<lparr>rm_heap := uerase (rm_heap m) p\<rparr>)
                  } else Some (Some p, outs, m\<lparr>rm_heap := uset (rm_heap m) p c, rm_conns := uset (rm_conns m) identity p\<rparr>)
                }
            | None \<Rightarrow>
                let p = fresh_addr (rm_heap m)
                in do {
                  (ok, outs, _, c) \<leftarrow> rds_connect host port res attach ctx_err [] new_rds_conn;
                  if \<not> ok then do {
                    (outs', _, _) \<leftarrow> rds_destory ctx_err [] c;
                    Some (None, outs @ outs', m)
                  } else Some (Some p, outs, m\<lparr>rm_heap := uset (rm_heap m) p c, rm_conns := uset (rm_conns m) identity p\<rparr>)
                }
          })"

definition redis_send_to ::
  "rds_connect_res \<Rightarrow> bool \<Rightarrow> int \<Rightarrow> bool \<Rightarrow> string \<Rightarrow> string list \<Rightarrow> nat \<Rightarrow> redis_mgr
     \<Rightarrow> (bool \<times> rds_out list \<times> redis_mgr) option" where
  "redis_send_to res attach ctx_err sent node argv cmd m =
     (if argv = [] then Some (False, [], m)
      else do {
        (r, outs, m) \<leftarrow> redis_get_conn res attach ctx_err node m;
        case r of
          None \<Rightarrow> Some (False, outs, m)
        | Some p \<Rightarrow>
            do {
              c \<leftarrow> map_of (rm_heap m) p;
              let (ok, outs', c) = rds_send_to sent argv cmd c;
              Some (ok, outs @ outs', m\<lparr>rm_heap := uset (rm_heap m) p c\<rparr>)
            }
      })"

section \<open>No command is lost\<close>

text \<open>A command waits only on a connection that is being set up.\<close>

definition rc_inv :: "rds_conn \<Rightarrow> bool" where
  "rc_inv c \<longleftrightarrow> (rc_wait_tasks c \<noteq> [] \<longrightarrow> rc_state c = RS_CONNECTING \<and> rc_ctx c \<noteq> None)"

fun out_cmd :: "rds_out \<Rightarrow> nat multiset" where
  "out_cmd (R_command x argv cmd) = {#cmd#}"
| "out_cmd (R_callback cmd e) = {#cmd#}"
| "out_cmd (R_disconnect x) = {#}"
| "out_cmd (R_free x) = {#}"

definition out_cmds :: "rds_out list \<Rightarrow> nat multiset" where
  "out_cmds outs = sum_list (map out_cmd outs)"

definition waiting :: "rds_conn \<Rightarrow> nat multiset" where
  "waiting c = mset (map rt_cmd (rc_wait_tasks c))"

lemma out_cmds_simps [simp]:
  "out_cmds [] = {#}" "out_cmds (x # xs) = out_cmd x + out_cmds xs" "out_cmds (xs @ ys) = out_cmds xs + out_cmds ys"
  by (simp_all add: out_cmds_def)

lemma out_cmds_errors [simp]: "out_cmds (map (task_error e) ts) = mset (map rt_cmd ts)"
  by (induction ts) (simp_all add: task_error_def)

lemma rds_send_to_keeps:
  assumes "rds_send_to sent argv cmd c = (ok, outs, c')"
  shows "rc_inv c \<Longrightarrow> rc_inv c'" and "out_cmds outs + waiting c' = waiting c + (if ok then {#cmd#} else {#})"
    and "rc_state c' = rc_state c" and "rc_state c \<noteq> RS_CONNECTING \<Longrightarrow> c' = c"
    and "\<exists>new. rc_wait_tasks c' = rc_wait_tasks c @ new"
  using assms by (auto simp: rds_send_to_def add_wait_task_def rc_inv_def waiting_def split: option.splits if_splits)

text \<open>What a callback sends is handed to redis or waits behind the rest.\<close>

lemma user_sends_keeps:
  "user_sends u c = Some (outs, acc, c') \<Longrightarrow>
     out_cmds outs + waiting c' = waiting c + mset acc \<and> (rc_inv c \<longrightarrow> rc_inv c')
     \<and> rc_state c' = rc_state c \<and> (rc_state c \<noteq> RS_CONNECTING \<longrightarrow> c' = c)
     \<and> (\<exists>new. rc_wait_tasks c' = rc_wait_tasks c @ new)"
proof (induction u arbitrary: c outs acc)
  case (Cons a u)
  obtain argv cmd sent where a: "a = (argv, cmd, sent)" by (cases a)
  show ?case
  proof (cases "argv = []")
    case True
    with Cons a show ?thesis by simp
  next
    case False
    obtain ok o1 c1 where s: "rds_send_to sent argv cmd c = (ok, o1, c1)" by (cases "rds_send_to sent argv cmd c")
    obtain o2 acc2 where r: "user_sends u c1 = Some (o2, acc2, c')" "outs = o1 @ o2"
      "acc = (if ok then [cmd] else []) @ acc2"
      using Cons.prems False a s by (auto simp: Let_def split: if_splits bind_splits)
    note k1 = rds_send_to_keeps [OF s] and k2 = Cons.IH [OF r(1)]
    have "out_cmds outs + waiting c' = out_cmds o1 + (waiting c1 + mset acc2)" using k2 by (simp add: r(2) ac_simps)
    also have "\<dots> = (waiting c + (if ok then {#cmd#} else {#})) + mset acc2" by (simp only: k1(2) [symmetric] ac_simps)
    also have "\<dots> = waiting c + mset acc" unfolding r(3) by simp
    finally show ?thesis using k1 k2 by auto
  qed
qed auto

lemma user_sends_active: "rds_active c \<Longrightarrow> \<exists>outs acc c'. user_sends u c = Some (outs, acc, c')"
proof (induction u arbitrary: c)
  case (Cons a u)
  obtain argv cmd sent where a: "a = (argv, cmd, sent)" by (cases a)
  obtain ok o1 c1 where s: "rds_send_to sent argv cmd c = (ok, o1, c1)" by (cases "rds_send_to sent argv cmd c")
  have "rds_active c1" using rds_send_to_keeps(3) [OF s] Cons.prems by (simp add: rds_active_def)
  then obtain o2 acc2 c2 where "user_sends u c1 = Some (o2, acc2, c2)" using Cons.IH by blast
  then show ?case using Cons a s by (auto simp: Let_def)
qed simp

text \<open>A callback that sends nothing: the only kind that a closed connection survives.\<close>

definition silent :: "rds_user \<Rightarrow> bool" where
  "silent u \<longleftrightarrow> (\<forall>a \<in> set u. fst a = [])"

lemma user_sends_inactive:
  "\<not> rds_active c \<Longrightarrow> user_sends u c = (if silent u then Some ([], [], c) else None)"
  by (induction u c rule: user_sends.induct) (auto simp: silent_def)

lemma send_wait_tasks_connected:
  "rc_state c = RS_CONNECTED \<Longrightarrow>
     \<exists>outs acc. send_wait_tasks True e sends us ts c = Some (outs, acc, c) \<and> out_cmds outs = mset (map rt_cmd ts) + mset acc"
proof (induction ts arbitrary: sends us)
  case (Cons t ts)
  let ?u = "case us of [] \<Rightarrow> [] | u # _ \<Rightarrow> u" and ?b = "case sends of [] \<Rightarrow> False | b # _ \<Rightarrow> b"
  have "rds_active c" using Cons.prems by (simp add: rds_active_def)
  then obtain o1 a1 c1 where u: "user_sends ?u c = Some (o1, a1, c1)" using user_sends_active by blast
  obtain ok os c2 where s: "rds_send_to ?b (rt_argv t) (rt_cmd t) c = (ok, os, c2)"
    by (cases "rds_send_to ?b (rt_argv t) (rt_cmd t) c")
  have c: "c1 = c" "c2 = c" "out_cmds o1 = mset a1" "out_cmds os = (if ok then {#rt_cmd t#} else {#})"
    using user_sends_keeps [OF u] rds_send_to_keeps [OF s] Cons.prems by auto
  obtain o2 a2 where r: "send_wait_tasks True e (tl sends) us ts c = Some (o2, a2, c)" "out_cmds o2 = mset (map rt_cmd ts) + mset a2"
    using Cons.IH [OF Cons.prems] by blast
  obtain o3 a3 where r': "send_wait_tasks True e (tl sends) (tl us) ts c = Some (o3, a3, c)" "out_cmds o3 = mset (map rt_cmd ts) + mset a3"
    using Cons.IH [OF Cons.prems] by blast
  show ?case
  proof (cases ok)
    case True
    then have "send_wait_tasks True e sends us (t # ts) c = Some (os @ o2, a2, c)" using s r(1) c(2) by simp
    then show ?thesis using True c(4) r(2) by simp
  next
    case False
    then have "send_wait_tasks True e sends us (t # ts) c = Some (os @ task_error e t # o1 @ o3, a1 @ a3, c)"
      using s u r'(1) c(1,2) by simp
    then show ?thesis using False c(3,4) r'(2) by (simp add: task_error_def)
  qed
qed simp

lemma send_wait_tasks_closed:
  "\<not> rds_active c \<Longrightarrow> send_wait_tasks False e sends us ts c =
     (if list_all silent (take (length ts) us) then Some (map (task_error e) ts, [], c) else None)"
proof (induction ts arbitrary: sends us)
  case (Cons t ts)
  then show ?case
    by (cases us) (simp_all add: user_sends_inactive silent_def)
qed simp

lemma connect_callback_result:
  "case on_redis_connect_callback status e sends us c of
     None \<Rightarrow> status \<noteq> REDIS_OK \<and> \<not> list_all silent (take (length (rc_wait_tasks c)) us)
   | Some (outs, acc, c') \<Rightarrow> rc_inv c' \<and> out_cmds outs = waiting c + mset acc \<and> rc_wait_tasks c' = []
       \<and> (status = REDIS_OK \<or> list_all silent (take (length (rc_wait_tasks c)) us))"
proof (cases "status = REDIS_OK")
  case True
  let ?c = "c\<lparr>rc_state := RS_CONNECTED\<rparr>"
  obtain outs acc where "send_wait_tasks True e sends us (rc_wait_tasks c) ?c = Some (outs, acc, ?c)"
    "out_cmds outs = mset (map rt_cmd (rc_wait_tasks c)) + mset acc"
    using send_wait_tasks_connected [of ?c e sends us "rc_wait_tasks c"] by auto
  then show ?thesis using True by (simp add: on_redis_connect_callback_def rc_inv_def waiting_def)
next
  case False
  have "\<not> rds_active (c\<lparr>rc_ctx := None, rc_state := RS_CLOSED\<rparr>)" by (simp add: rds_active_def)
  from send_wait_tasks_closed [OF this, of e sends us "rc_wait_tasks c"] False
  show ?thesis by (simp add: on_redis_connect_callback_def rc_inv_def waiting_def)
qed

text \<open>The loop of \<open>destory\<close> comes to every command that waits, the ones sent meanwhile included.\<close>

lemma fail_wait_tasks_result:
  assumes "rc_wait_tasks c \<noteq> [] \<longrightarrow> rds_active c"
  shows "\<exists>outs acc c'. fail_wait_tasks e us i c = Some (outs, acc, c')
    \<and> out_cmds outs = mset (map rt_cmd (drop i (rc_wait_tasks c))) + mset acc"
  using assms
proof (induction us arbitrary: i c)
  case (Cons u us)
  show ?case
  proof (cases "i < length (rc_wait_tasks c)")
    case True
    let ?ts = "rc_wait_tasks c"
    have act: "rds_active c" using True Cons.prems by auto
    obtain o1 a1 c1 where u: "user_sends u c = Some (o1, a1, c1)" using user_sends_active [OF act] by blast
    note k = user_sends_keeps [OF u]
    then obtain new where new: "rc_wait_tasks c1 = ?ts @ new" by blast
    have "rds_active c1" using k act by (simp add: rds_active_def)
    then obtain o2 a2 c2 where r: "fail_wait_tasks e us (Suc i) c1 = Some (o2, a2, c2)"
      "out_cmds o2 = mset (map rt_cmd (drop (Suc i) (rc_wait_tasks c1))) + mset a2"
      using Cons.IH [of c1 "Suc i"] by blast
    have acc: "out_cmds o1 + mset (map rt_cmd new) = mset a1" using k new by (simp add: waiting_def)
    have "out_cmds (task_error e (?ts ! i) # o1 @ o2)
        = {#rt_cmd (?ts ! i)#} + mset (map rt_cmd (drop (Suc i) ?ts)) + (out_cmds o1 + mset (map rt_cmd new)) + mset a2"
      using True by (simp add: task_error_def r(2) new ac_simps)
    also have "\<dots> = mset (map rt_cmd (drop i ?ts)) + mset (a1 @ a2)"
      unfolding acc using True by (simp add: Cons_nth_drop_Suc [symmetric] ac_simps)
    finally show ?thesis using True u r(1) by simp
  qed simp
qed simp

lemma rds_destory_result:
  assumes "rc_inv c"
  shows "\<exists>outs acc c'. rds_destory e us c = Some (outs, acc, c') \<and> rc_inv c' \<and> rc_wait_tasks c' = []
    \<and> out_cmds outs = waiting c + mset acc"
proof (cases "rc_ctx c")
  case None
  then show ?thesis using assms by (simp add: rds_destory_def rc_inv_def waiting_def)
next
  case (Some x)
  have "rc_wait_tasks c \<noteq> [] \<longrightarrow> rds_active c" using assms by (simp add: rc_inv_def rds_active_def)
  from fail_wait_tasks_result [OF this, of e us 0] Some
  show ?thesis by (auto simp: rds_destory_def rc_inv_def waiting_def)
qed

lemma rds_connect_result:
  assumes "rc_inv c"
  shows "case rds_connect host port res attach e us c of
      None \<Rightarrow> res = Ctx_null
    | Some (ok, outs, acc, c') \<Rightarrow> rc_inv c' \<and> out_cmds outs + waiting c' = waiting c + mset acc"
proof -
  obtain outs acc c' where "rds_destory e us c = Some (outs, acc, c')" "rc_inv c'" "rc_wait_tasks c' = []"
    "out_cmds outs = waiting c + mset acc"
    using rds_destory_result [OF assms] by blast
  then show ?thesis
    using assms by (auto simp: rds_connect_def rc_inv_def waiting_def split: rds_connect_res.split)
qed

section \<open>Properties\<close>

text \<open>
  C18. The pool keeps every command it has accepted: it waits in the queue of a connection that is
  being set up, is handed to redis, or its callback runs; each exactly once. When the connection
  comes up, fails or is destroyed, the queue is emptied. This includes the commands that the user
  sends from inside these callbacks (\<open>acc\<close>). Only a callback of a failed connection must not send to
  the same node again: the reconnection clears the list under the loop over it, which then uses
  freed memory, and this is the only way in which the connect callback can go wrong.
\<close>

theorem redis_conserves_commands:
  assumes "rc_inv c"
  shows "(case rds_send_to sent argv cmd c of (ok, outs, c') \<Rightarrow>
        rc_inv c' \<and> out_cmds outs + waiting c' = waiting c + (if ok then {#cmd#} else {#}))
    \<and> (case on_redis_connect_callback status e sends us c of
         None \<Rightarrow> status \<noteq> REDIS_OK \<and> \<not> list_all silent (take (length (rc_wait_tasks c)) us)
       | Some (outs, acc, c') \<Rightarrow> rc_inv c' \<and> out_cmds outs = waiting c + mset acc \<and> rc_wait_tasks c' = []
           \<and> (status = REDIS_OK \<or> list_all silent (take (length (rc_wait_tasks c)) us)))
    \<and> (\<exists>outs acc c'. rds_destory e us c = Some (outs, acc, c') \<and> rc_inv c' \<and> rc_wait_tasks c' = []
         \<and> out_cmds outs = waiting c + mset acc)
    \<and> (case rds_connect host port res attach e us c of
         None \<Rightarrow> res = Ctx_null
       | Some (ok, outs, acc, c') \<Rightarrow> rc_inv c' \<and> out_cmds outs + waiting c' = waiting c + mset acc)"
proof -
  have "case rds_send_to sent argv cmd c of (ok, outs, c') \<Rightarrow>
      rc_inv c' \<and> out_cmds outs + waiting c' = waiting c + (if ok then {#cmd#} else {#})"
    using rds_send_to_keeps(1,2) assms by (auto split: prod.split)
  then show ?thesis
    using connect_callback_result [where c = c] rds_destory_result [OF assms] rds_connect_result [OF assms] by simp
qed

definition waiting_conn :: rds_conn where
  "waiting_conn = \<lparr>rc_state = RS_CONNECTING, rc_ctx = Some 5,
     rc_wait_tasks = [\<lparr>rt_argv = [''get'', ''k''], rt_cmd = 7\<rparr>, \<lparr>rt_argv = [''get'', ''j''], rt_cmd = 8\<rparr>]\<rparr>"

text \<open>
  The second of two waiting commands is refused and its callback sends a third one; the same with a
  connection that is destroyed, where the third one is sent by the first callback.
\<close>

theorem redis_conserves_commands_witness:
  "(\<exists>outs acc c'. on_redis_connect_callback REDIS_OK 0 [True, False] [[([''del'', ''k''], 9, True)]] waiting_conn
       = Some (outs, acc, c') \<and> acc = [9] \<and> out_cmds outs = {#7, 8, 9#})
   \<and> (\<exists>outs acc c'. rds_destory 0 [[([''del'', ''k''], 9, True)]] waiting_conn = Some (outs, acc, c')
       \<and> acc = [9] \<and> out_cmds outs = {#7, 8, 9#})"
proof -
  have inv: "rc_inv waiting_conn" by (simp add: waiting_conn_def rc_inv_def)
  let ?us = "[[([''del'', ''k''], 9, True)]] :: rds_user list"
  have w: "waiting waiting_conn = {#7, 8#}" by (simp add: waiting_def waiting_conn_def)
  obtain outs c' where r: "on_redis_connect_callback REDIS_OK 0 [True, False] ?us waiting_conn = Some (outs, [9], c')"
    by (simp add: on_redis_connect_callback_def waiting_conn_def rds_send_to_def rds_active_def)
  obtain outs2 c2 where d: "rds_destory 0 ?us waiting_conn = Some (outs2, [9], c2)"
    by (simp add: rds_destory_def waiting_conn_def rds_send_to_def rds_active_def add_wait_task_def)
  from redis_conserves_commands [OF inv, where status = REDIS_OK and e = 0 and sends = "[True, False]" and us = ?us] r d w
  show ?thesis by simp
qed

text \<open>
  A reconnection that fails leaves a dangling pointer: \<open>get_conn\<close> deletes the connection but not its
  entry in the table, and the next command for that node dereferences it.
\<close>

lemma failed_reconnect_dangles:
  assumes "map_of (rm_addrs m) node = Some (host, port)" and "map_of (rm_conns m) (format_addr host port) = Some p"
    and "map_of (rm_heap m) p = Some c" and "\<not> rds_active c" and "host \<noteq> []" and "port \<noteq> 0" and "argv \<noteq> []"
  shows "\<exists>outs m'. redis_get_conn (Ctx_err x) attach e node m = Some (None, outs, m')
     \<and> redis_send_to res attach' e' sent node argv cmd m' = None"
proof -
  let ?m = "m\<lparr>rm_heap := uerase (rm_heap m) p\<rparr>" and ?c = "c\<lparr>rc_wait_tasks := [], rc_state := RS_CLOSED, rc_ctx := None\<rparr>"
  obtain os where os: "rds_destory e [] c = Some (os, [], ?c)"
    by (cases "rc_ctx c") (simp_all add: rds_destory_def)
  have "rds_destory e [] ?c = Some ([], [], ?c)" by (simp add: rds_destory_def)
  then have "redis_get_conn (Ctx_err x) attach e node m = Some (None, os @ [R_free x], ?m)"
    using assms os by (simp add: redis_get_conn_def rds_connect_def)
  moreover have "redis_send_to res attach' e' sent node argv cmd ?m = None"
    using assms by (simp add: redis_send_to_def redis_get_conn_def)
  ultimately show ?thesis by blast
qed

definition one_redis :: redis_mgr where
  "one_redis = \<lparr>rm_addrs = [(''test'', (''h'', 6379))], rm_conns = [(format_addr ''h'' 6379, 1)], rm_heap = [(1, new_rds_conn)]\<rparr>"

text \<open>
  A clean disconnection is taken for a connection: the callback runs the code of the connect
  callback, so the connection stays usable with the context hiredis has just freed, and the next
  command is sent through it.
\<close>

lemma disconnect_marks_connected:
  assumes "rc_ctx c = Some x" and "rc_wait_tasks c = []"
    and "on_redis_disconnect_libev_callback REDIS_OK e sends us c = Some (outs, acc, c')"
  shows "rc_state c' = RS_CONNECTED \<and> rds_send_to True argv cmd c' = (True, [R_command x argv cmd], c')
    \<and> rc_state (on_redis_disconnect_callback c) = RS_CLOSED"
  using assms
  by (auto simp: on_redis_disconnect_libev_callback_def on_redis_connect_callback_def Let_def rds_send_to_def
      on_redis_disconnect_callback_def)

end
