(* ===== verification/Mysql_Conn.thy ===== *)
theory Mysql_Conn
  imports Kim_Prelude "HOL-Library.Multiset"
begin

text \<open>
  An asynchronous connection to the database, \<open>src/core/db/mysql_async_conn.cpp\<close>: a state machine over
  the non-blocking functions of the MariaDB client, a queue of SQL tasks and a libev watcher.

  The client library answers through \<open>mysql_lib\<close>, functions of the counter \<open>my_tick\<close>. A status of the
  library is the pair of the bits \<open>MYSQL_WAIT_READ\<close> and \<open>MYSQL_WAIT_WRITE\<close>; \<open>st_zero\<close> is a status 0. What
  the connection does is the list \<open>my_outs\<close>: the tasks it accepted and the callbacks it ran.
  \<open>ml_user t\<close> are the tasks that the callback of \<open>t\<close> adds to the same connection.
\<close>

section \<open>Data\<close>

datatype sql_oper = SELECT | EXEC

text \<open>Which of the two callback pointers of a task is set.\<close>

datatype sql_fn = No_fn | Fn_query | Fn_exec

record sql_task =
  sq_sql :: string
  sq_oper :: sql_oper
  sq_fn :: sql_fn
  sq_cmd :: nat
  sq_error :: int
  sq_errstr :: string

datatype my_state = NO_CONNECTED | CONNECT_WAITING | WAIT_OPERATE | QUERY_WAITING | EXECSQL_WAITING | STORE_WAITING | PING_WAITING

type_synonym rows = "string list list"

datatype sql_out = S_accept nat | S_query_cb nat int "rows option" | S_exec_cb nat int

type_synonym my_status = "bool \<times> bool"

record mysql_conn =
  my_connected :: bool
  my_reconnect_cnt :: int
  my_state :: my_state
  my_tasks :: "sql_task list"
  my_cur_task :: "sql_task option"
  my_reading :: bool
  my_writing :: bool
  my_watch_active :: bool
  my_watch_events :: my_status
  my_query_res :: "rows option"
  my_tick :: nat
  my_outs :: "sql_out list"

record mysql_lib =
  ml_connect :: "nat \<Rightarrow> my_status \<times> bool"
  ml_query :: "nat \<Rightarrow> my_status \<times> bool"
  ml_store :: "nat \<Rightarrow> my_status \<times> rows option"
  ml_ping :: "nat \<Rightarrow> my_status \<times> bool"
  ml_errno :: "nat \<Rightarrow> int \<times> string"
  ml_user :: "sql_task \<Rightarrow> sql_task list"

definition st_zero :: "my_status \<Rightarrow> bool" where
  "st_zero st \<longleftrightarrow> st = (False, False)"

definition MYSQL_WAIT_WRITE :: my_status where "MYSQL_WAIT_WRITE = (False, True)"
definition MAX_DISCONNECT_TIME :: int where "MAX_DISCONNECT_TIME = 2"
definition CR_SERVER_GONE_ERROR :: int where "CR_SERVER_GONE_ERROR = 2006"
definition CR_SERVER_LOST :: int where "CR_SERVER_LOST = 2013"

definition new_mysql_conn :: mysql_conn where
  "new_mysql_conn = \<lparr>my_connected = True, my_reconnect_cnt = 0, my_state = NO_CONNECTED, my_tasks = [],
     my_cur_task = None, my_reading = False, my_writing = False, my_watch_active = False,
     my_watch_events = (False, False), my_query_res = None, my_tick = 0, my_outs = []\<rparr>"

definition my_step :: "mysql_conn \<Rightarrow> mysql_conn" where
  "my_step c = c\<lparr>my_tick := Suc (my_tick c)\<rparr>"

section \<open>The watcher\<close>

text \<open>
  \<open>ev_io_init\<close> sets the events of a watcher that is not active; it is started only when one of the
  flags \<open>m_reading\<close> and \<open>m_writing\<close> changes, and nothing ever clears them.
\<close>

definition active_ev_io :: "my_status \<Rightarrow> mysql_conn \<Rightarrow> mysql_conn" where
  "active_ev_io st c =
     (let old_read = my_reading c;
          old_write = my_writing c;
          c = c\<lparr>my_reading := (my_reading c \<or> fst st), my_writing := (my_writing c \<or> snd st)\<rparr>;
          c = (if my_watch_active c then c else c\<lparr>my_watch_events := st\<rparr>)
      in if old_read \<noteq> my_reading c \<or> old_write \<noteq> my_writing c then
           c\<lparr>my_watch_events := (fst (my_watch_events c) \<or> fst st, snd (my_watch_events c) \<or> snd st), my_watch_active := True\<rparr>
         else c)"

definition stop_task :: "mysql_conn \<Rightarrow> mysql_conn" where
  "stop_task c = c\<lparr>my_watch_active := False\<rparr>"

definition is_task_empty :: "mysql_conn \<Rightarrow> bool" where
  "is_task_empty c \<longleftrightarrow> my_tasks c = [] \<and> my_cur_task c = None"

definition wait_next_task :: "mysql_conn \<Rightarrow> mysql_conn" where
  "wait_next_task c = (if \<not> is_task_empty c then active_ev_io MYSQL_WAIT_WRITE c else c)"

definition set_connected :: "bool \<Rightarrow> mysql_conn \<Rightarrow> mysql_conn" where
  "set_connected ok c =
     (if ok then c\<lparr>my_connected := True, my_reconnect_cnt := 0\<rparr>
      else (stop_task (c\<lparr>my_connected := False\<rparr>))\<lparr>my_state := NO_CONNECTED\<rparr>)"

section \<open>Tasks\<close>

definition add_task :: "sql_task \<Rightarrow> mysql_conn \<Rightarrow> bool \<times> mysql_conn" where
  "add_task t c =
     (if \<not> my_connected c then (False, c)
      else (True, wait_next_task (c\<lparr>my_tasks := my_tasks c @ [t], my_outs := my_outs c @ [S_accept (sq_cmd t)]\<rparr>)))"

text \<open>The tasks that the user's code adds from within a callback.\<close>

definition user_tasks :: "mysql_lib \<Rightarrow> sql_task \<Rightarrow> mysql_conn \<Rightarrow> mysql_conn" where
  "user_tasks ml t c = foldl (\<lambda>c t. snd (add_task t c)) c (ml_user ml t)"

text \<open>\<open>callback(task)\<close>: the result is the task with its pointer cleared.\<close>

definition my_callback :: "mysql_lib \<Rightarrow> sql_task option \<Rightarrow> mysql_conn \<Rightarrow> sql_task option \<times> mysql_conn" where
  "my_callback ml task c =
     (case task of
        None \<Rightarrow> (None, c)
      | Some t \<Rightarrow>
          (case sq_fn t of
             Fn_query \<Rightarrow>
               let c = c\<lparr>my_outs := my_outs c @ [S_query_cb (sq_cmd t) (sq_error t) (my_query_res c)]\<rparr>;
                   c = (user_tasks ml t c)\<lparr>my_query_res := None\<rparr>
               in (Some (t\<lparr>sq_fn := No_fn\<rparr>), c)
           | Fn_exec \<Rightarrow>
               let c = c\<lparr>my_outs := my_outs c @ [S_exec_cb (sq_cmd t) (sq_error t)]\<rparr>
               in (Some (t\<lparr>sq_fn := No_fn\<rparr>), user_tasks ml t c)
           | No_fn \<Rightarrow> (Some t, c)))"

text \<open>The callback of the current task, which stays the current one.\<close>

definition callback_cur :: "mysql_lib \<Rightarrow> mysql_conn \<Rightarrow> mysql_conn" where
  "callback_cur ml c = (let (t, c) = my_callback ml (my_cur_task c) c in c\<lparr>my_cur_task := t\<rparr>)"

definition set_err_info :: "int \<Rightarrow> string \<Rightarrow> sql_task option \<Rightarrow> sql_task option" where
  "set_err_info e s = map_option (\<lambda>t. t\<lparr>sq_error := e, sq_errstr := s\<rparr>)"

text \<open>
  \<open>clear_tasks\<close>, which \<open>handle_task\<close> calls when the connection is down, so that the callbacks cannot
  add tasks.
\<close>

definition clear_tasks :: "mysql_lib \<Rightarrow> mysql_conn \<Rightarrow> mysql_conn" where
  "clear_tasks ml c =
     (let c = stop_task c;
          cur = (case my_cur_task c of
                   Some t \<Rightarrow> if sq_error t = 0 then set_err_info (- 1) ''terminated!'' (Some t) else Some t
                 | None \<Rightarrow> None);
          c = (callback_cur ml (c\<lparr>my_cur_task := cur\<rparr>))\<lparr>my_cur_task := None\<rparr>;
          c = foldl (\<lambda>c t. snd (my_callback ml (set_err_info (- 1) ''terminated!'' (Some t)) c)) c (my_tasks c)
      in c\<lparr>my_tasks := []\<rparr>)"

section \<open>The state machine\<close>

definition connect_start :: "mysql_lib \<Rightarrow> mysql_conn \<Rightarrow> mysql_conn" where
  "connect_start ml c =
     (let (status, ret) = ml_connect ml (my_tick c);
          c = my_step c
      in if \<not> st_zero status then active_ev_io status (c\<lparr>my_state := CONNECT_WAITING\<rparr>)
         else if ret then c\<lparr>my_state := WAIT_OPERATE\<rparr>
         else set_connected False c)"

definition connect_wait :: "mysql_lib \<Rightarrow> mysql_conn \<Rightarrow> mysql_conn" where
  "connect_wait ml c =
     (let (status, ret) = ml_connect ml (my_tick c);
          c = my_step c
      in if st_zero status then
           let c = set_connected ret c
           in if ret then wait_next_task (c\<lparr>my_state := WAIT_OPERATE\<rparr>) else set_connected False c
         else c)"

definition handle_task :: "mysql_lib \<Rightarrow> mysql_conn \<Rightarrow> mysql_conn" where
  "handle_task ml c =
     (let (err, errstr) = ml_errno ml (my_tick c);
          c = my_step c;
          c = callback_cur ml (c\<lparr>my_cur_task := set_err_info err errstr (my_cur_task c)\<rparr>)
      in if err = CR_SERVER_LOST \<or> err = CR_SERVER_GONE_ERROR then
           let c = set_connected False c;
               old = my_reconnect_cnt c;
               c = c\<lparr>my_reconnect_cnt := old + 1\<rparr>
           in if old = MAX_DISCONNECT_TIME then clear_tasks ml c else connect_start ml c
         else if my_connected c then wait_next_task (c\<lparr>my_state := WAIT_OPERATE\<rparr>)
         else c)"

definition store_result_start :: "mysql_lib \<Rightarrow> mysql_conn \<Rightarrow> mysql_conn" where
  "store_result_start ml c =
     (let (status, res) = ml_store ml (my_tick c);
          c = my_step c
      in if \<not> st_zero status then active_ev_io status (c\<lparr>my_state := STORE_WAITING\<rparr>)
         else handle_task ml (c\<lparr>my_query_res := res\<rparr>))"

definition store_result_wait :: "mysql_lib \<Rightarrow> mysql_conn \<Rightarrow> mysql_conn" where
  "store_result_wait ml c =
     (if my_cur_task c = None then c
      else
        let (status, res) = ml_store ml (my_tick c);
            c = my_step c
        in if \<not> st_zero status then c\<lparr>my_state := STORE_WAITING\<rparr>
           else handle_task ml (c\<lparr>my_query_res := res\<rparr>))"

text \<open>In \<open>ml_query\<close> the flag is \<open>ret == 0\<close>.\<close>

definition query_start :: "mysql_lib \<Rightarrow> mysql_conn \<Rightarrow> mysql_conn" where
  "query_start ml c =
     (if my_cur_task c = None then c
      else
        let (status, ok) = ml_query ml (my_tick c);
            c = my_step c
        in if \<not> st_zero status then active_ev_io status (c\<lparr>my_state := QUERY_WAITING\<rparr>)
           else if ok then store_result_start ml c else handle_task ml c)"

definition query_wait :: "mysql_lib \<Rightarrow> mysql_conn \<Rightarrow> mysql_conn" where
  "query_wait ml c =
     (let (status, ok) = ml_query ml (my_tick c);
          c = my_step c
      in if \<not> st_zero status then c\<lparr>my_state := QUERY_WAITING\<rparr>
         else if \<not> ok then handle_task ml c else store_result_start ml c)"

definition exec_sql_start :: "mysql_lib \<Rightarrow> mysql_conn \<Rightarrow> mysql_conn" where
  "exec_sql_start ml c =
     (if my_cur_task c = None then c
      else
        let (status, ok) = ml_query ml (my_tick c);
            c = my_step c
        in if \<not> st_zero status then active_ev_io status (c\<lparr>my_state := EXECSQL_WAITING\<rparr>)
           else handle_task ml c)"

definition exec_sql_wait :: "mysql_lib \<Rightarrow> mysql_conn \<Rightarrow> mysql_conn" where
  "exec_sql_wait ml c =
     (if my_cur_task c = None then c
      else
        let (status, ok) = ml_query ml (my_tick c);
            c = my_step c
        in if \<not> st_zero status then c\<lparr>my_state := EXECSQL_WAITING\<rparr>
           else handle_task ml c)"

definition operate_wait :: "mysql_lib \<Rightarrow> mysql_conn \<Rightarrow> mysql_conn" where
  "operate_wait ml c =
     (case my_tasks c of
        [] \<Rightarrow> stop_task (c\<lparr>my_cur_task := None\<rparr>)
      | t # ts \<Rightarrow>
          let c = c\<lparr>my_cur_task := Some t, my_tasks := ts\<rparr>
          in (case sq_oper t of SELECT \<Rightarrow> query_start ml c | EXEC \<Rightarrow> exec_sql_start ml c))"

definition ping_start :: "mysql_lib \<Rightarrow> mysql_conn \<Rightarrow> mysql_conn" where
  "ping_start ml c =
     (if my_connected c then c
      else
        let (status, ok) = ml_ping ml (my_tick c);
            c = my_step c
        in if \<not> st_zero status then active_ev_io status (c\<lparr>my_state := PING_WAITING\<rparr>)
           else if ok then set_connected True c
           else handle_task ml c)"

definition ping_wait :: "mysql_lib \<Rightarrow> mysql_conn \<Rightarrow> mysql_conn" where
  "ping_wait ml c =
     (let (status, ok) = ml_ping ml (my_tick c);
          c = my_step c
      in if \<not> st_zero status then c\<lparr>my_state := PING_WAITING\<rparr>
         else if ok then (if \<not> my_connected c then handle_task ml (set_connected True c) else c)
         else set_connected False c)"

definition wait_for_mysql :: "mysql_lib \<Rightarrow> mysql_conn \<Rightarrow> mysql_conn" where
  "wait_for_mysql ml c =
     (case my_state c of
        CONNECT_WAITING \<Rightarrow> connect_wait ml c
      | WAIT_OPERATE \<Rightarrow> operate_wait ml c
      | QUERY_WAITING \<Rightarrow> query_wait ml c
      | EXECSQL_WAITING \<Rightarrow> exec_sql_wait ml c
      | STORE_WAITING \<Rightarrow> store_result_wait ml c
      | PING_WAITING \<Rightarrow> ping_wait ml c
      | NO_CONNECTED \<Rightarrow> c)"

definition on_timer_callback :: "mysql_lib \<Rightarrow> mysql_conn \<Rightarrow> mysql_conn" where
  "on_timer_callback ml c = ping_start ml c"

definition mysql_init_conn :: "mysql_lib \<Rightarrow> mysql_conn" where
  "mysql_init_conn ml = connect_start ml new_mysql_conn"

text \<open>
  A step of the connection: libev reports the watched descriptor only while the watcher is active;
  the timer ticks every second; the pool adds tasks whose callback is set.
\<close>

inductive my_event :: "mysql_lib \<Rightarrow> mysql_conn \<Rightarrow> mysql_conn \<Rightarrow> bool" for ml :: mysql_lib where
  io: "my_watch_active c \<Longrightarrow> my_event ml c (wait_for_mysql ml c)"
| timer: "my_event ml c (on_timer_callback ml c)"
| add: "sq_fn t \<noteq> No_fn \<Longrightarrow> my_event ml c (snd (add_task t c))"

section \<open>Every accepted task is answered once\<close>

fun out_accept :: "sql_out \<Rightarrow> nat multiset" where
  "out_accept (S_accept k) = {#k#}"
| "out_accept _ = {#}"

fun out_answer :: "sql_out \<Rightarrow> nat multiset" where
  "out_answer (S_query_cb k _ _) = {#k#}"
| "out_answer (S_exec_cb k _) = {#k#}"
| "out_answer _ = {#}"

definition accepted :: "mysql_conn \<Rightarrow> nat multiset" where
  "accepted c = sum_list (map out_accept (my_outs c))"

definition answered :: "mysql_conn \<Rightarrow> nat multiset" where
  "answered c = sum_list (map out_answer (my_outs c))"

definition owed :: "sql_task option \<Rightarrow> nat multiset" where
  "owed t = (case t of None \<Rightarrow> {#} | Some t \<Rightarrow> if sq_fn t = No_fn then {#} else {#sq_cmd t#})"

definition my_pending :: "mysql_conn \<Rightarrow> nat multiset" where
  "my_pending c = mset (map sq_cmd (my_tasks c)) + owed (my_cur_task c)"

text \<open>
  \<open>balanced x c\<close>: the accepted tasks are those answered and those pending, but for \<open>x\<close>, a task whose
  callback is running.
\<close>

definition balanced :: "nat multiset \<Rightarrow> mysql_conn \<Rightarrow> bool" where
  "balanced x c \<longleftrightarrow> accepted c + x = answered c + my_pending c \<and> (\<forall>t \<in> set (my_tasks c). sq_fn t \<noteq> No_fn)"

text \<open>A task whose callback has not run is never the current one when the connection waits for work or connects.\<close>

definition my_inv :: "mysql_conn \<Rightarrow> bool" where
  "my_inv c \<longleftrightarrow> balanced {#} c \<and> (my_state c \<in> {WAIT_OPERATE, CONNECT_WAITING} \<longrightarrow> owed (my_cur_task c) = {#})"

definition user_ok :: "mysql_lib \<Rightarrow> bool" where
  "user_ok ml \<longleftrightarrow> (\<forall>t. \<forall>u \<in> set (ml_user ml t). sq_fn u \<noteq> No_fn)"

lemma owed_None [simp]: "owed None = {#}"
  by (simp add: owed_def)

lemma owed_err [simp]: "owed (set_err_info e s t) = owed t"
  by (simp add: owed_def set_err_info_def split: option.split)

text \<open>What the watcher and the connection flag do not touch.\<close>

definition work :: "mysql_conn \<Rightarrow> sql_task list \<times> sql_task option \<times> sql_out list" where
  "work c = (my_tasks c, my_cur_task c, my_outs c)"

lemma work_simps [simp]:
  "work (active_ev_io st c) = work c" "work (stop_task c) = work c" "work (wait_next_task c) = work c"
  "work (set_connected ok c) = work c" "work (my_step c) = work c" "work (c\<lparr>my_state := s\<rparr>) = work c"
  "work (c\<lparr>my_query_res := r\<rparr>) = work c" "work (c\<lparr>my_reconnect_cnt := n\<rparr>) = work c"
  by (simp_all add: work_def active_ev_io_def stop_task_def wait_next_task_def set_connected_def my_step_def Let_def)

lemma work_eq: "work c = work d \<Longrightarrow> balanced x c = balanced x d \<and> owed (my_cur_task c) = owed (my_cur_task d)"
  by (simp add: work_def balanced_def accepted_def answered_def my_pending_def)

lemma state_simps [simp]:
  "my_state (active_ev_io st c) = my_state c" "my_state (stop_task c) = my_state c" "my_state (wait_next_task c) = my_state c"
  "my_state (my_step c) = my_state c" "my_state (set_connected ok c) = (if ok then my_state c else NO_CONNECTED)"
  "my_connected (active_ev_io st c) = my_connected c" "my_connected (wait_next_task c) = my_connected c"
  "my_connected (set_connected ok c) = ok" "my_connected (my_step c) = my_connected c" "my_connected (stop_task c) = my_connected c"
  by (simp_all add: active_ev_io_def stop_task_def wait_next_task_def my_step_def set_connected_def Let_def)

lemma my_inv_work:
  assumes "work c = work d" and "balanced {#} d" and "my_state c \<in> {WAIT_OPERATE, CONNECT_WAITING} \<Longrightarrow> owed (my_cur_task d) = {#}"
  shows "my_inv c"
  using assms work_eq unfolding my_inv_def by metis

lemma add_task_balanced:
  assumes "balanced x c" and "sq_fn t \<noteq> No_fn"
  shows "balanced x (snd (add_task t c))" and "my_cur_task (snd (add_task t c)) = my_cur_task c"
    and "my_state (snd (add_task t c)) = my_state c" and "my_connected (snd (add_task t c)) = my_connected c"
proof -
  let ?d = "c\<lparr>my_tasks := my_tasks c @ [t], my_outs := my_outs c @ [S_accept (sq_cmd t)]\<rparr>"
  have "balanced x ?d"
    using assms by (auto simp: balanced_def accepted_def answered_def my_pending_def ac_simps)
  then have "balanced x (wait_next_task ?d)" using work_eq [of "wait_next_task ?d" ?d] by simp
  then show "balanced x (snd (add_task t c))" using assms(1) by (simp add: add_task_def)
  have "my_cur_task (wait_next_task ?d) = my_cur_task ?d" using work_simps(3) [of ?d] unfolding work_def by simp
  then show "my_cur_task (snd (add_task t c)) = my_cur_task c" by (simp add: add_task_def)
qed (simp_all add: add_task_def)

lemma user_tasks_balanced:
  assumes "user_ok ml" and "balanced x c"
  shows "balanced x (user_tasks ml t c) \<and> my_cur_task (user_tasks ml t c) = my_cur_task c
    \<and> my_state (user_tasks ml t c) = my_state c \<and> my_connected (user_tasks ml t c) = my_connected c"
proof -
  have "\<forall>u \<in> set us. sq_fn u \<noteq> No_fn \<Longrightarrow> balanced x c \<Longrightarrow>
      (let d = foldl (\<lambda>c t. snd (add_task t c)) c us
       in balanced x d \<and> my_cur_task d = my_cur_task c \<and> my_state d = my_state c \<and> my_connected d = my_connected c)" for us c
    by (induction us arbitrary: c) (simp_all add: add_task_balanced Let_def)
  then show ?thesis using assms by (simp add: user_tasks_def user_ok_def Let_def)
qed

lemma callback_cur_balanced:
  assumes "user_ok ml" and "balanced {#} c"
  shows "balanced {#} (callback_cur ml c)" and "owed (my_cur_task (callback_cur ml c)) = {#}"
    and "my_state (callback_cur ml c) = my_state c" and "my_connected (callback_cur ml c) = my_connected c"
proof -
  let ?P = "balanced {#} (callback_cur ml c) \<and> owed (my_cur_task (callback_cur ml c)) = {#}
    \<and> my_state (callback_cur ml c) = my_state c \<and> my_connected (callback_cur ml c) = my_connected c"
  have "?P"
  proof (cases "my_cur_task c")
    case None
    then show ?thesis using assms by (simp add: callback_cur_def my_callback_def balanced_def accepted_def answered_def my_pending_def)
  next
    case (Some t)
    show ?thesis
    proof (cases "sq_fn t")
      case No_fn
      then show ?thesis using Some assms
        by (simp add: callback_cur_def my_callback_def owed_def balanced_def accepted_def answered_def my_pending_def)
    next
      case Fn_query
      let ?d = "c\<lparr>my_cur_task := None, my_outs := my_outs c @ [S_query_cb (sq_cmd t) (sq_error t) (my_query_res c)]\<rparr>"
      let ?e = "c\<lparr>my_outs := my_outs c @ [S_query_cb (sq_cmd t) (sq_error t) (my_query_res c)]\<rparr>"
      have b: "balanced {#sq_cmd t#} ?e"
        using assms Some Fn_query by (simp add: balanced_def accepted_def answered_def my_pending_def owed_def ac_simps)
      note u = user_tasks_balanced [OF assms(1) b, of t]
      show ?thesis using u Some Fn_query
        by (auto simp: callback_cur_def my_callback_def Let_def balanced_def accepted_def answered_def my_pending_def owed_def)
    next
      case Fn_exec
      let ?e = "c\<lparr>my_outs := my_outs c @ [S_exec_cb (sq_cmd t) (sq_error t)]\<rparr>"
      have b: "balanced {#sq_cmd t#} ?e"
        using assms Some Fn_exec by (simp add: balanced_def accepted_def answered_def my_pending_def owed_def ac_simps)
      note u = user_tasks_balanced [OF assms(1) b, of t]
      show ?thesis using u Some Fn_exec
        by (auto simp: callback_cur_def my_callback_def Let_def balanced_def accepted_def answered_def my_pending_def owed_def)
    qed
  qed
  then show "balanced {#} (callback_cur ml c)" and "owed (my_cur_task (callback_cur ml c)) = {#}"
    and "my_state (callback_cur ml c) = my_state c" and "my_connected (callback_cur ml c) = my_connected c" by blast+
qed

text \<open>With the connection down the callbacks of \<open>clear_tasks\<close> add nothing: each queued task is answered.\<close>

lemma user_tasks_down: "\<not> my_connected c \<Longrightarrow> user_tasks ml t c = c"
proof -
  have "\<not> my_connected c \<Longrightarrow> foldl (\<lambda>c t. snd (add_task t c)) c us = c" for us
    by (induction us) (simp_all add: add_task_def)
  then show "\<not> my_connected c \<Longrightarrow> user_tasks ml t c = c" by (simp add: user_tasks_def)
qed

lemma my_callback_down:
  fixes ml :: mysql_lib
  assumes "\<not> my_connected c" and "sq_fn t \<noteq> No_fn"
  defines "d \<equiv> snd (my_callback ml (Some t) c)"
  shows "accepted d = accepted c" and "answered d = answered c + {#sq_cmd t#}" and "my_cur_task d = my_cur_task c"
    and "my_tasks d = my_tasks c" and "my_connected d = my_connected c" and "my_state d = my_state c"
  using assms by (cases "sq_fn t"; simp add: my_callback_def user_tasks_down Let_def accepted_def answered_def)+

lemma clear_loop:
  fixes ml :: mysql_lib
  assumes "\<not> my_connected c" and "\<forall>t \<in> set ts. sq_fn t \<noteq> No_fn"
  defines "d \<equiv> foldl (\<lambda>c t. snd (my_callback ml (set_err_info (- 1) ''terminated!'' (Some t)) c)) c ts"
  shows "accepted d = accepted c \<and> answered d = answered c + mset (map sq_cmd ts) \<and> my_cur_task d = my_cur_task c
    \<and> my_connected d = my_connected c \<and> my_state d = my_state c"
  using assms(1,2) unfolding d_def
proof (induction ts arbitrary: c)
  case (Cons t ts)
  let ?t = "t\<lparr>sq_error := - 1, sq_errstr := ''terminated!''\<rparr>"
  have "sq_fn ?t \<noteq> No_fn" using Cons.prems by simp
  note s = my_callback_down [OF Cons.prems(1) this, of ml]
  show ?case using Cons.IH [of "snd (my_callback ml (Some ?t) c)"] Cons.prems s
    by (simp add: set_err_info_def ac_simps)
qed simp

lemma clear_tasks_inv:
  assumes u: "user_ok ml" and b: "balanced {#} c" and down: "\<not> my_connected c"
  shows "my_inv (clear_tasks ml c)"
proof -
  define cur where "cur = (case my_cur_task c of
      Some t \<Rightarrow> if sq_error t = 0 then set_err_info (- 1) ''terminated!'' (Some t) else Some t | None \<Rightarrow> None)"
  define d where "d = callback_cur ml ((stop_task c)\<lparr>my_cur_task := cur\<rparr>)"
  have "owed cur = owed (my_cur_task c)" unfolding cur_def by (cases "my_cur_task c") simp_all
  then have "balanced {#} ((stop_task c)\<lparr>my_cur_task := cur\<rparr>)"
    using b by (simp add: balanced_def accepted_def answered_def my_pending_def stop_task_def)
  note cb = callback_cur_balanced [OF u this, folded d_def]
  have dn: "\<not> my_connected (d\<lparr>my_cur_task := None\<rparr>)" using cb(4) down by simp
  have fn: "\<forall>t \<in> set (my_tasks d). sq_fn t \<noteq> No_fn" using cb(1) by (simp add: balanced_def)
  note l = clear_loop [OF dn fn, of ml]
  have e: "clear_tasks ml c = (foldl (\<lambda>c t. snd (my_callback ml (set_err_info (- 1) ''terminated!'' (Some t)) c))
      (d\<lparr>my_cur_task := None\<rparr>) (my_tasks d))\<lparr>my_tasks := []\<rparr>"
    by (simp add: clear_tasks_def d_def cur_def Let_def stop_task_def cong: option.case_cong)
  show ?thesis using l cb(1,2) unfolding e
    by (simp add: my_inv_def balanced_def accepted_def answered_def my_pending_def)
qed

text \<open>What a step of the state machine needs: the balance, and a current task that is not owed an answer.\<close>

definition quiet :: "mysql_conn \<Rightarrow> bool" where
  "quiet c \<longleftrightarrow> balanced {#} c \<and> owed (my_cur_task c) = {#}"

lemma quiet_work: "work c = work d \<Longrightarrow> quiet c = quiet d"
  using work_eq [of c d "{#}"] by (simp add: quiet_def)

lemma quiet_inv: "quiet c \<Longrightarrow> my_inv c"
  by (simp add: quiet_def my_inv_def)

lemma quiet_simps [simp]:
  "quiet (active_ev_io st c) = quiet c" "quiet (stop_task c) = quiet c" "quiet (wait_next_task c) = quiet c"
  "quiet (set_connected ok c) = quiet c" "quiet (my_step c) = quiet c" "quiet (c\<lparr>my_state := s\<rparr>) = quiet c"
  "quiet (c\<lparr>my_reconnect_cnt := n\<rparr>) = quiet c"
  by (rule quiet_work, simp)+

lemma balanced_simps [simp]:
  "balanced x (active_ev_io st c) = balanced x c" "balanced x (stop_task c) = balanced x c"
  "balanced x (set_connected ok c) = balanced x c" "balanced x (my_step c) = balanced x c"
  "balanced x (c\<lparr>my_state := s\<rparr>) = balanced x c" "balanced x (c\<lparr>my_query_res := r\<rparr>) = balanced x c"
  by (rule work_eq [THEN conjunct1], simp)+

lemma connect_start_quiet: "quiet c \<Longrightarrow> quiet (connect_start ml c)"
  by (simp add: connect_start_def Let_def split: prod.split)

lemma connect_wait_quiet: "quiet c \<Longrightarrow> quiet (connect_wait ml c)"
  by (simp add: connect_wait_def Let_def split: prod.split)

lemma handle_task_inv:
  assumes u: "user_ok ml" and b: "balanced {#} c"
  shows "my_inv (handle_task ml c)"
proof -
  obtain e s where es: "ml_errno ml (my_tick c) = (e, s)" by (cases "ml_errno ml (my_tick c)")
  define d where "d = callback_cur ml ((my_step c)\<lparr>my_cur_task := set_err_info e s (my_cur_task (my_step c))\<rparr>)"
  have "balanced {#} ((my_step c)\<lparr>my_cur_task := set_err_info e s (my_cur_task (my_step c))\<rparr>)"
    using b by (simp add: balanced_def accepted_def answered_def my_pending_def my_step_def)
  note cb = callback_cur_balanced [OF u this, folded d_def]
  have q: "quiet d" using cb by (simp add: quiet_def)
  define f where "f = (set_connected False d)\<lparr>my_reconnect_cnt := my_reconnect_cnt (set_connected False d) + 1\<rparr>"
  have f: "quiet f" "\<not> my_connected f" using q by (simp_all add: f_def)
  have "my_inv (clear_tasks ml f)" using clear_tasks_inv [OF u _ f(2)] f(1) by (simp add: quiet_def)
  moreover have "my_inv (connect_start ml f)" by (rule quiet_inv [OF connect_start_quiet [OF f(1)]])
  moreover have "my_inv d" and "my_inv (wait_next_task (d\<lparr>my_state := WAIT_OPERATE\<rparr>))"
    using q by (simp_all add: quiet_inv)
  moreover have "handle_task ml c =
      (if e = CR_SERVER_LOST \<or> e = CR_SERVER_GONE_ERROR then
         if my_reconnect_cnt (set_connected False d) = MAX_DISCONNECT_TIME then clear_tasks ml f else connect_start ml f
       else if my_connected d then wait_next_task (d\<lparr>my_state := WAIT_OPERATE\<rparr>) else d)"
    unfolding handle_task_def es Let_def f_def d_def by (simp only: prod.case)
  ultimately show ?thesis by simp
qed

lemma waiting_inv:
  "balanced {#} c \<Longrightarrow> s \<notin> {WAIT_OPERATE, CONNECT_WAITING} \<Longrightarrow> my_inv (active_ev_io st (c\<lparr>my_state := s\<rparr>)) \<and> my_inv (c\<lparr>my_state := s\<rparr>)"
  by (simp add: my_inv_def)

lemma store_result_start_inv: "user_ok ml \<Longrightarrow> balanced {#} c \<Longrightarrow> my_inv (store_result_start ml c)"
  by (simp add: store_result_start_def handle_task_inv waiting_inv Let_def split: prod.split)

lemma store_result_wait_inv: "user_ok ml \<Longrightarrow> my_inv c \<Longrightarrow> my_inv (store_result_wait ml c)"
  by (auto simp: store_result_wait_def handle_task_inv waiting_inv my_inv_def [of c] Let_def split: prod.split)

lemma query_start_inv:
  "user_ok ml \<Longrightarrow> balanced {#} c \<Longrightarrow> my_cur_task c \<noteq> None \<Longrightarrow> my_inv (query_start ml c)"
  by (auto simp: query_start_def handle_task_inv store_result_start_inv waiting_inv Let_def split: prod.split)

lemma exec_sql_start_inv:
  "user_ok ml \<Longrightarrow> balanced {#} c \<Longrightarrow> my_cur_task c \<noteq> None \<Longrightarrow> my_inv (exec_sql_start ml c)"
  by (auto simp: exec_sql_start_def handle_task_inv waiting_inv Let_def split: prod.split)

lemma query_wait_inv: "user_ok ml \<Longrightarrow> balanced {#} c \<Longrightarrow> my_inv (query_wait ml c)"
  by (simp add: query_wait_def handle_task_inv store_result_start_inv waiting_inv Let_def split: prod.split)

lemma exec_sql_wait_inv: "user_ok ml \<Longrightarrow> my_inv c \<Longrightarrow> my_inv (exec_sql_wait ml c)"
  by (auto simp: exec_sql_wait_def handle_task_inv waiting_inv my_inv_def [of c] Let_def split: prod.split)

lemma operate_wait_inv:
  assumes u: "user_ok ml" and q: "quiet c"
  shows "my_inv (operate_wait ml c)"
proof (cases "my_tasks c")
  case Nil
  have "quiet (c\<lparr>my_cur_task := None\<rparr>)" using q by (simp add: quiet_def balanced_def accepted_def answered_def my_pending_def)
  then show ?thesis using Nil by (simp add: operate_wait_def quiet_inv)
next
  case (Cons t ts)
  have "balanced {#} (c\<lparr>my_cur_task := Some t, my_tasks := ts\<rparr>)"
    using q Cons by (simp add: quiet_def balanced_def accepted_def answered_def my_pending_def owed_def)
  then show ?thesis using Cons u
    by (simp add: operate_wait_def query_start_inv exec_sql_start_inv Let_def split: sql_oper.split)
qed

lemma ping_start_inv: "user_ok ml \<Longrightarrow> my_inv c \<Longrightarrow> my_inv (ping_start ml c)"
  using my_inv_work [of "set_connected True (my_step c)" c]
  by (auto simp: ping_start_def handle_task_inv waiting_inv my_inv_def [of c] Let_def split: prod.split)

lemma ping_wait_inv: "user_ok ml \<Longrightarrow> my_inv c \<Longrightarrow> my_inv (ping_wait ml c)"
  using my_inv_work [of "set_connected False (my_step c)" c] my_inv_work [of "my_step c" c]
  by (auto simp: ping_wait_def handle_task_inv waiting_inv my_inv_def [of c] Let_def split: prod.split)

lemma wait_for_mysql_inv:
  assumes u: "user_ok ml" and i: "my_inv c"
  shows "my_inv (wait_for_mysql ml c)"
proof -
  have b: "balanced {#} c" and q: "my_state c \<in> {WAIT_OPERATE, CONNECT_WAITING} \<Longrightarrow> quiet c"
    using i by (auto simp: my_inv_def quiet_def)
  show ?thesis
    using q i u b quiet_inv [OF connect_wait_quiet] unfolding wait_for_mysql_def
    by (cases "my_state c")
       (simp_all add: operate_wait_inv query_wait_inv exec_sql_wait_inv store_result_wait_inv ping_wait_inv)
qed

lemma my_event_inv: "my_event ml c d \<Longrightarrow> user_ok ml \<Longrightarrow> my_inv c \<Longrightarrow> my_inv d"
proof (induction rule: my_event.induct)
  case (add t c)
  have b: "balanced {#} c" using add.prems by (simp add: my_inv_def)
  show ?case using add.prems(2) add_task_balanced [OF b add.hyps] unfolding my_inv_def by metis
qed (simp_all add: wait_for_mysql_inv on_timer_callback_def ping_start_inv)

lemma mysql_init_inv: "my_inv (mysql_init_conn ml)"
proof -
  have "quiet new_mysql_conn"
    by (simp add: quiet_def balanced_def accepted_def answered_def my_pending_def new_mysql_conn_def)
  then show ?thesis unfolding mysql_init_conn_def by (intro quiet_inv connect_start_quiet)
qed

lemma my_events_inv: "(my_event ml)\<^sup>*\<^sup>* c d \<Longrightarrow> user_ok ml \<Longrightarrow> my_inv c \<Longrightarrow> my_inv d"
  by (induction rule: rtranclp_induct) (auto intro: my_event_inv)

text \<open>
  C4. Along every run of a database connection, whatever the client library and the server answer, the
  tasks it accepted are those whose callback has run and those still queued or under way: no callback is
  lost and none runs twice.
\<close>

theorem every_task_is_answered_once:
  assumes "user_ok ml" and "(my_event ml)\<^sup>*\<^sup>* (mysql_init_conn ml) c"
  shows "accepted c = answered c + my_pending c"
  using my_events_inv [OF assms(2,1) mysql_init_inv] by (simp add: my_inv_def balanced_def)

text \<open>A client library that needs one round trip to connect and one to answer a query, with one row.\<close>

definition quick_lib :: mysql_lib where
  "quick_lib = \<lparr>ml_connect = (\<lambda>n. ((False, n = 0), True)), ml_query = (\<lambda>n. ((n = 2, False), True)),
     ml_store = (\<lambda>_. ((False, False), Some [[''1'']])), ml_ping = (\<lambda>_. ((False, False), True)),
     ml_errno = (\<lambda>_. (0, [])), ml_user = (\<lambda>_. [])\<rparr>"

definition some_task :: "nat \<Rightarrow> sql_task" where
  "some_task k = \<lparr>sq_sql = ''select 1'', sq_oper = SELECT, sq_fn = Fn_query, sq_cmd = k, sq_error = 0, sq_errstr = []\<rparr>"

theorem every_task_is_answered_once_witness:
  "\<exists>c. (my_event quick_lib)\<^sup>*\<^sup>* (mysql_init_conn quick_lib) c \<and> accepted c = {#7#} \<and> accepted c = answered c + my_pending c"
proof -
  let ?c = "snd (add_task (some_task 7) (mysql_init_conn quick_lib))"
  have u: "user_ok quick_lib" by (simp add: user_ok_def quick_lib_def)
  have r: "(my_event quick_lib)\<^sup>*\<^sup>* (mysql_init_conn quick_lib) ?c"
    by (intro r_into_rtranclp my_event.add) (simp add: some_task_def)
  have "accepted ?c = {#7#}"
    by code_simp
  then show ?thesis using r every_task_is_answered_once [OF u r] by blast
qed

section \<open>An idle connection\<close>

text \<open>
  The connection after it ran out of work: both flags of the watcher were set while it connected and
  read a result, and \<open>operate_wait\<close> has stopped the watcher.
\<close>

definition asleep :: "mysql_conn \<Rightarrow> bool" where
  "asleep c \<longleftrightarrow> my_connected c \<and> my_reading c \<and> my_writing c \<and> \<not> my_watch_active c"

lemma asleep_active_ev_io: "asleep c \<Longrightarrow> asleep (active_ev_io st c)"
  by (simp add: asleep_def active_ev_io_def Let_def)

lemma asleep_add_task: "asleep c \<Longrightarrow> fst (add_task t c) \<and> asleep (snd (add_task t c)) \<and> answered (snd (add_task t c)) = answered c"
  by (auto simp: add_task_def wait_next_task_def asleep_def active_ev_io_def answered_def Let_def)

lemma asleep_event: "my_event ml c d \<Longrightarrow> asleep c \<Longrightarrow> asleep d \<and> answered d = answered c"
proof (induction rule: my_event.induct)
  case (add t c)
  then show ?case using asleep_add_task by blast
qed (simp_all add: on_timer_callback_def ping_start_def asleep_def)

text \<open>
  A connection that served a task and then ran out of work never wakes again. The watcher is started
  only when one of the flags \<open>m_reading\<close> and \<open>m_writing\<close> changes, and nothing resets them: every later
  task is accepted and none is ever answered, whatever the server does.
\<close>

lemma idle_connection_never_wakes:
  assumes "asleep c" and "(my_event ml)\<^sup>*\<^sup>* c d"
  shows "fst (add_task t d) \<and> answered (snd (add_task t d)) = answered c"
proof -
  have "asleep d \<and> answered d = answered c"
    using assms(2,1) by (induction rule: rtranclp_induct) (auto dest: asleep_event)
  then show ?thesis using asleep_add_task by simp
qed

text \<open>The run of a new connection up to that point: it connects, serves one query and goes idle.\<close>

definition served :: "nat \<Rightarrow> mysql_conn" where
  "served n = (wait_for_mysql quick_lib ^^ n) (snd (add_task (some_task 7) (wait_for_mysql quick_lib (mysql_init_conn quick_lib))))"

lemma served_reachable: "(my_event quick_lib)\<^sup>*\<^sup>* (mysql_init_conn quick_lib) (served 3)"
proof -
  let ?i = "mysql_init_conn quick_lib"
  let ?w = "wait_for_mysql quick_lib ?i"
  have "my_watch_active ?i" by code_simp
  then have "my_event quick_lib ?i ?w" by (rule my_event.io)
  moreover have "my_event quick_lib ?w (served 0)"
    unfolding served_def funpow_0 by (rule my_event.add) (simp add: some_task_def)
  moreover have "my_watch_active (served 0) \<and> my_watch_active (served 1) \<and> my_watch_active (served 2)" by code_simp
  then have "my_event quick_lib (served 0) (served 1)" "my_event quick_lib (served 1) (served 2)"
      "my_event quick_lib (served 2) (served 3)"
    using my_event.io [of "served 0" quick_lib] my_event.io [of "served 1" quick_lib] my_event.io [of "served 2" quick_lib]
    by (simp_all add: served_def numeral_2_eq_2 numeral_3_eq_3)
  ultimately show ?thesis
    by (meson converse_rtranclp_into_rtranclp r_into_rtranclp)
qed

end
