(* ===== verification/Db_Mgr.thy ===== *)
theory Db_Mgr
  imports Util_Str Mysql_Conn
begin

text \<open>
  The pool of database connections, \<open>src/core/db/db_mgr.cpp\<close>: the databases of the configuration, and for
  each \<open>host:port:name\<close> a list of connections with an iterator that goes round it.

  A pointer to a connection is the key and the index of its place: the pool owns its connections until it
  is destroyed. An iterator is the index it points to, \<open>None\<close> when the list it belongs to is gone. The
  order of an \<open>unordered_map\<close> is the library's: \<open>bg\<close> gives the key of \<open>begin()\<close> from the keys.
\<close>

section \<open>Data\<close>

record db_info =
  db_port :: int
  db_max_conn_cnt :: int
  db_host :: string
  db_db_name :: string
  db_password :: string
  db_charset :: string
  db_user :: string

type_synonym conn_list = "nat option \<times> mysql_conn list"

record db_mgr =
  dm_dbs :: "(string \<times> db_info) list"
  dm_conns :: "(string \<times> conn_list) list"

definition DEF_CONN_CNT :: int where "DEF_CONN_CNT = 10"
definition MAX_CONN_CNT :: int where "MAX_CONN_CNT = 30"

definition new_db_mgr :: db_mgr where
  "new_db_mgr = \<lparr>dm_dbs = [], dm_conns = []\<rparr>"

text \<open>The members of a database's JSON object, as text; a missing one is empty.\<close>

record db_conf =
  dc_host :: string
  dc_name :: string
  dc_password :: string
  dc_charset :: string
  dc_user :: string
  dc_port :: string
  dc_max_conn_cnt :: string

section \<open>Configuration\<close>

definition db_info_of :: "db_conf \<Rightarrow> db_info option" where
  "db_info_of obj =
     do {
       port \<leftarrow> str_to_int (dc_port obj);
       cnt \<leftarrow> str_to_int (dc_max_conn_cnt obj);
       Some \<lparr>db_port = port,
         db_max_conn_cnt = (if cnt = 0 then DEF_CONN_CNT else if cnt > MAX_CONN_CNT then MAX_CONN_CNT else cnt),
         db_host = dc_host obj, db_db_name = (if dc_name obj = [] then ''mysql'' else dc_name obj),
         db_password = dc_password obj, db_charset = dc_charset obj, db_user = dc_user obj\<rparr>
     }"

text \<open>\<open>init\<close>; \<open>None\<close>: \<open>std::stoi\<close> throws.\<close>

fun db_init :: "(string \<times> db_conf) list \<Rightarrow> db_mgr \<Rightarrow> (bool \<times> db_mgr) option" where
  "db_init [] m = Some (True, m)"
| "db_init ((node, obj) # cfg) m =
     do {
       info \<leftarrow> db_info_of obj;
       if db_host info = [] \<or> db_port info = 0 \<or> db_password info = [] \<or> db_charset info = [] \<or> db_user info = []
       then Some (False, m\<lparr>dm_dbs := []\<rparr>)
       else db_init cfg (if map_of (dm_dbs m) node = None then m\<lparr>dm_dbs := uset (dm_dbs m) node info\<rparr> else m)
     }"

section \<open>Connections\<close>

definition db_identity :: "db_info \<Rightarrow> string" where
  "db_identity info = format_identity (db_host info) (db_port info) (db_db_name info)"

text \<open>\<open>async_connect\<close> with the client library of the new connection.\<close>

definition async_connect :: "mysql_lib \<Rightarrow> mysql_conn" where
  "async_connect ml = mysql_init_conn ml"

text \<open>\<open>if (++itr == end()) itr = begin()\<close>; \<open>None\<close>: the iterator dangles.\<close>

definition next_itr :: "conn_list \<Rightarrow> nat option" where
  "next_itr l = map_option (\<lambda>i. if Suc i = length (snd l) then 0 else Suc i) (fst l)"

text \<open>
  \<open>get_conn\<close>; the inner \<open>None\<close> is \<open>nullptr\<close>. A new list is inserted with an iterator of the local list it
  is copied from; what is then repaired is the iterator of the first list of the table.
\<close>

definition db_get_conn ::
  "(string list \<Rightarrow> string) \<Rightarrow> mysql_lib \<Rightarrow> string \<Rightarrow> db_mgr \<Rightarrow> ((string \<times> nat) option \<times> db_mgr) option" where
  "db_get_conn bg ml node m =
     (case map_of (dm_dbs m) node of
        None \<Rightarrow> Some (None, m)
      | Some info \<Rightarrow>
          let identity = db_identity info
          in (case map_of (dm_conns m) identity of
                None \<Rightarrow>
                  let conns = uset (dm_conns m) identity (None, [async_connect ml]);
                      b = bg (ukeys conns)
                  in do {
                       l \<leftarrow> map_of conns b;
                       Some (Some (identity, 0), m\<lparr>dm_conns := uset conns b (Some 0, snd l)\<rparr>)
                     }
              | Some l \<Rightarrow>
                  if int (length (snd l)) < db_max_conn_cnt info then
                    Some (Some (identity, length (snd l)),
                      m\<lparr>dm_conns := uset (dm_conns m) identity (fst l, snd l @ [async_connect ml])\<rparr>)
                  else do {
                    i \<leftarrow> next_itr l;
                    Some (if my_connected (snd l ! i) then Some (identity, i) else None,
                      m\<lparr>dm_conns := uset (dm_conns m) identity (Some i, snd l)\<rparr>)
                  }))"

text \<open>\<open>ss >> oper\<close> and the four words.\<close>

definition first_word :: "string \<Rightarrow> string" where
  "first_word s = takeWhile (\<lambda>c. \<not> is_space c) (dropWhile is_space s)"

definition check_query_sql :: "string \<Rightarrow> bool" where
  "check_query_sql sql = list_ex (strcaseeq (first_word sql)) [''select'', ''show'', ''explain'', ''desc'']"

definition sql_task_of :: "bool \<Rightarrow> string \<Rightarrow> nat \<Rightarrow> sql_task" where
  "sql_task_of is_query sql privdata =
     \<lparr>sq_sql = sql, sq_oper = (if is_query then SELECT else EXEC), sq_fn = (if is_query then Fn_query else Fn_exec),
       sq_cmd = privdata, sq_error = 0, sq_errstr = []\<rparr>"

text \<open>\<open>handle_sql\<close>: the answer of \<open>add_task\<close> is dropped.\<close>

definition handle_sql ::
  "(string list \<Rightarrow> string) \<Rightarrow> mysql_lib \<Rightarrow> bool \<Rightarrow> string \<Rightarrow> string \<Rightarrow> nat \<Rightarrow> db_mgr \<Rightarrow> (bool \<times> db_mgr) option" where
  "handle_sql bg ml is_query node sql privdata m =
     (if is_query \<and> \<not> check_query_sql sql then Some (False, m)
      else do {
        (r, m) \<leftarrow> db_get_conn bg ml node m;
        case r of
          None \<Rightarrow> Some (False, m)
        | Some (identity, i) \<Rightarrow>
            do {
              l \<leftarrow> map_of (dm_conns m) identity;
              let (_, c) = add_task (sql_task_of is_query sql privdata) (snd l ! i);
              Some (True, m\<lparr>dm_conns := uset (dm_conns m) identity (fst l, (snd l)[i := c])\<rparr>)
            }
      })"

definition async_exec where "async_exec bg ml = handle_sql bg ml False"
definition async_query where "async_query bg ml = handle_sql bg ml True"

section \<open>The shape of the pool\<close>

definition list_ok :: "conn_list \<Rightarrow> bool" where
  "list_ok l \<longleftrightarrow> 1 \<le> length (snd l) \<and> length (snd l) \<le> 30 \<and> (case fst l of None \<Rightarrow> True | Some i \<Rightarrow> i < length (snd l))"

definition pool_inv :: "db_mgr \<Rightarrow> bool" where
  "pool_inv m \<longleftrightarrow> (\<forall>n info. map_of (dm_dbs m) n = Some info \<longrightarrow> db_max_conn_cnt info \<le> 30)
     \<and> (\<forall>k l. map_of (dm_conns m) k = Some l \<longrightarrow> list_ok l)"

lemma pool_invD:
  "pool_inv m \<Longrightarrow> map_of (dm_dbs m) n = Some info \<Longrightarrow> db_max_conn_cnt info \<le> 30"
  "pool_inv m \<Longrightarrow> map_of (dm_conns m) k = Some l \<Longrightarrow> list_ok l"
  unfolding pool_inv_def by blast+

lemma list_ok_new: "list_ok (None, [c])" "list_ok l \<Longrightarrow> list_ok (Some 0, snd l)"
  by (auto simp: list_ok_def)

lemma list_ok_upd: "list_ok l \<Longrightarrow> list_ok (fst l, (snd l)[i := c])"
  by (auto simp: list_ok_def split: option.splits)

lemma list_ok_next: "list_ok l \<Longrightarrow> next_itr l = Some i \<Longrightarrow> i < length (snd l) \<and> list_ok (Some i, snd l)"
  by (auto simp: list_ok_def next_itr_def split: if_splits)

lemma list_ok_grow: "list_ok l \<Longrightarrow> length (snd l) < 30 \<Longrightarrow> list_ok (fst l, snd l @ [c])"
  by (auto simp: list_ok_def split: option.splits)

text \<open>Replacing one list by a good one keeps the pool good.\<close>

lemma pool_inv_set: "pool_inv m \<Longrightarrow> list_ok l \<Longrightarrow> pool_inv (m\<lparr>dm_conns := uset (dm_conns m) k l\<rparr>)"
  by (cases l) (simp add: pool_inv_def)

lemma db_info_of_bound: "db_info_of obj = Some info \<Longrightarrow> db_max_conn_cnt info \<le> 30"
  by (auto simp: db_info_of_def MAX_CONN_CNT_def DEF_CONN_CNT_def split: option.splits Option.bind_splits)

lemma db_init_inv: "db_init cfg m = Some (ok, m') \<Longrightarrow> pool_inv m \<Longrightarrow> pool_inv m'"
proof (induction cfg arbitrary: m)
  case (Cons x cfg)
  obtain node obj where x: "x = (node, obj)" by fastforce
  from Cons.prems x obtain info where i: "db_info_of obj = Some info" by (auto split: Option.bind_splits)
  have "pool_inv (m\<lparr>dm_dbs := []\<rparr>)" using Cons.prems(2) by (simp add: pool_inv_def)
  moreover have "pool_inv (if map_of (dm_dbs m) node = None then m\<lparr>dm_dbs := uset (dm_dbs m) node info\<rparr> else m)"
    using Cons.prems(2) db_info_of_bound [OF i] by (simp add: pool_inv_def)
  ultimately show ?case using Cons.prems(1) Cons.IH unfolding x by (simp add: i split: if_splits)
qed simp

lemma db_get_conn_cases:
  assumes "db_get_conn bg ml node m = Some (r, m')"
  shows "m' = m \<and> r = None
    \<or> (\<exists>info l. map_of (dm_dbs m) node = Some info \<and> map_of (dm_conns m) (db_identity info) = None
         \<and> r = Some (db_identity info, 0)
         \<and> map_of (uset (dm_conns m) (db_identity info) (None, [async_connect ml])) (bg (ukeys (uset (dm_conns m) (db_identity info) (None, [async_connect ml])))) = Some l
         \<and> m' = m\<lparr>dm_conns := uset (uset (dm_conns m) (db_identity info) (None, [async_connect ml]))
                    (bg (ukeys (uset (dm_conns m) (db_identity info) (None, [async_connect ml])))) (Some 0, snd l)\<rparr>)
    \<or> (\<exists>info l. map_of (dm_dbs m) node = Some info \<and> map_of (dm_conns m) (db_identity info) = Some l
         \<and> int (length (snd l)) < db_max_conn_cnt info \<and> r = Some (db_identity info, length (snd l))
         \<and> m' = m\<lparr>dm_conns := uset (dm_conns m) (db_identity info) (fst l, snd l @ [async_connect ml])\<rparr>)
    \<or> (\<exists>info l i. map_of (dm_dbs m) node = Some info \<and> map_of (dm_conns m) (db_identity info) = Some l
         \<and> next_itr l = Some i \<and> r \<in> {None, Some (db_identity info, i)}
         \<and> m' = m\<lparr>dm_conns := uset (dm_conns m) (db_identity info) (Some i, snd l)\<rparr>)"
  using assms unfolding db_get_conn_def
  by (cases "map_of (dm_dbs m) node") (auto simp: Let_def split: option.splits Option.bind_splits if_splits)

lemma db_get_conn_inv:
  assumes g: "db_get_conn bg ml node m = Some (r, m')" and inv: "pool_inv m"
  shows "pool_inv m'"
    and "\<forall>k i. r = Some (k, i) \<longrightarrow> (\<exists>l. map_of (dm_conns m') k = Some l \<and> i < length (snd l))"
proof -
  note l = pool_invD(2) [OF inv] and d = pool_invD(1) [OF inv]
  have new: "pool_inv (m\<lparr>dm_conns := uset (dm_conns m) k (None, [c])\<rparr>)" for k c
    by (rule pool_inv_set [OF inv list_ok_new(1)])
  have "pool_inv m' \<and> (\<forall>k i. r = Some (k, i) \<longrightarrow> (\<exists>l. map_of (dm_conns m') k = Some l \<and> i < length (snd l)))"
    using db_get_conn_cases [OF g]
  proof (elim disjE exE conjE)
    fix info li
    let ?id = "db_identity info" and ?c = "async_connect ml"
    let ?n = "m\<lparr>dm_conns := uset (dm_conns m) ?id (None, [?c])\<rparr>"
    let ?b = "bg (ukeys (dm_conns ?n))"
    assume r: "r = Some (?id, 0)" and "map_of (uset (dm_conns m) ?id (None, [?c])) (bg (ukeys (uset (dm_conns m) ?id (None, [?c])))) = Some li"
      and "m' = m\<lparr>dm_conns := uset (uset (dm_conns m) ?id (None, [?c])) (bg (ukeys (uset (dm_conns m) ?id (None, [?c])))) (Some 0, snd li)\<rparr>"
    then have b: "map_of (dm_conns ?n) ?b = Some li" and m': "m' = ?n\<lparr>dm_conns := uset (dm_conns ?n) ?b (Some 0, snd li)\<rparr>" by simp_all
    have "list_ok li" by (rule pool_invD(2) [OF new b])
    then have "pool_inv m'" unfolding m' by (intro pool_inv_set new list_ok_new(2))
    moreover have "?b = ?id \<Longrightarrow> snd li = [?c]" using b by auto
    ultimately show ?thesis using r by (auto simp: m')
  next
    fix info l1
    assume "map_of (dm_dbs m) node = Some info" "map_of (dm_conns m) (db_identity info) = Some l1"
      "int (length (snd l1)) < db_max_conn_cnt info" "r = Some (db_identity info, length (snd l1))"
      "m' = m\<lparr>dm_conns := uset (dm_conns m) (db_identity info) (fst l1, snd l1 @ [async_connect ml])\<rparr>"
    then show ?thesis using l [of "db_identity info" l1] d [of node info] pool_inv_set [OF inv list_ok_grow] by simp
  next
    fix info l1 i
    assume "map_of (dm_conns m) (db_identity info) = Some l1" "next_itr l1 = Some i"
      "m' = m\<lparr>dm_conns := uset (dm_conns m) (db_identity info) (Some i, snd l1)\<rparr>"
      "r \<in> {None, Some (db_identity info, i)}"
    then show ?thesis using list_ok_next [OF l, of "db_identity info" l1 i] pool_inv_set [OF inv, of "(Some i, snd l1)"] by auto
  qed (use inv in simp_all)
  then show "pool_inv m'"
    and "\<forall>k i. r = Some (k, i) \<longrightarrow> (\<exists>l. map_of (dm_conns m') k = Some l \<and> i < length (snd l))" by blast+
qed

lemma handle_sql_inv:
  assumes "handle_sql bg ml q node sql pd m = Some (ok, m')" and "pool_inv m"
  shows "pool_inv m'"
proof (cases "q \<and> \<not> check_query_sql sql")
  case True
  then show ?thesis using assms by (simp add: handle_sql_def)
next
  case False
  then obtain r n where g: "db_get_conn bg ml node m = Some (r, n)"
    and h: "(case r of None \<Rightarrow> Some (False, n) | Some (identity, i) \<Rightarrow>
        Option.bind (map_of (dm_conns n) identity) (\<lambda>l. let (_, c) = add_task (sql_task_of q sql pd) (snd l ! i)
          in Some (True, n\<lparr>dm_conns := uset (dm_conns n) identity (fst l, (snd l)[i := c])\<rparr>))) = Some (ok, m')"
    using assms(1) unfolding handle_sql_def by (auto split: Option.bind_splits)
  note inv = db_get_conn_inv(1) [OF g assms(2)]
  show ?thesis
  proof (cases r)
    case (Some p)
    then obtain k i l c where p: "p = (k, i)" and l: "map_of (dm_conns n) k = Some l"
      and m': "m' = n\<lparr>dm_conns := uset (dm_conns n) k (fst l, (snd l)[i := c])\<rparr>"
      using h by (cases p) (auto simp: Let_def split: Option.bind_splits prod.splits)
    have "list_ok l" by (rule pool_invD(2) [OF inv l])
    then show ?thesis unfolding m' by (intro pool_inv_set inv list_ok_upd)
  qed (use h inv in simp)
qed

section \<open>Properties\<close>

text \<open>
  The pool stays bounded: from its configuration on, whatever it is asked, every list of connections
  has between one and thirty of them, and an iterator that does not dangle points into its list.
\<close>

lemma db_pool_stays_bounded:
  assumes "pool_inv m"
  shows "(db_init cfg m = Some (ok, m1) \<longrightarrow> pool_inv m1)
    \<and> (handle_sql bg ml is_query node sql privdata m = Some (ok, m2) \<longrightarrow> pool_inv m2)"
  using db_init_inv handle_sql_inv assms by blast

definition test_conf :: "string \<Rightarrow> db_conf" where
  "test_conf host = \<lparr>dc_host = host, dc_name = ''kim'', dc_password = ''p'', dc_charset = ''utf8mb4'', dc_user = ''u'',
     dc_port = ''3306'', dc_max_conn_cnt = ''1''\<rparr>"

definition test_pool :: db_mgr where
  "test_pool = snd (the (db_init [(''a'', test_conf ''h1''), (''b'', test_conf ''h2'')] new_db_mgr))"

lemma pool_inv_new: "pool_inv new_db_mgr"
  by (simp add: pool_inv_def new_db_mgr_def)

lemma pool_inv_test: "pool_inv test_pool"
proof -
  have e: "db_init [(''a'', test_conf ''h1''), (''b'', test_conf ''h2'')] new_db_mgr = Some (True, test_pool)" by code_simp
  show ?thesis by (rule db_init_inv [OF e pool_inv_new])
qed

text \<open>
  Success may mean nothing: when the connection of a new list fails at once, \<open>add_task\<close> refuses the
  task and \<open>handle_sql\<close> still answers true. The task is in no queue and its callback has not run.
\<close>

lemma refused_sql_is_reported_sent:
  assumes "map_of (dm_dbs m) node = Some info" and "dm_conns m = []"
    and "ml_connect ml 0 = ((False, False), False)" and "is_query \<longrightarrow> check_query_sql sql"
    and "\<And>k. bg [k] = k"
  shows "\<exists>m' c. handle_sql bg ml is_query node sql privdata m = Some (True, m')
     \<and> dm_conns m' = [(db_identity info, (Some 0, [c]))] \<and> my_pending c = {#} \<and> accepted c = {#} \<and> \<not> my_connected c"
proof -
  let ?c = "async_connect ml"
  have c: "my_connected ?c = False" "my_tasks ?c = []" "my_cur_task ?c = None" "my_outs ?c = []"
    using assms(3) by (simp_all add: async_connect_def mysql_init_conn_def connect_start_def new_mysql_conn_def Let_def
        st_zero_def set_connected_def my_step_def stop_task_def)
  show ?thesis
    using assms c by (simp add: handle_sql_def db_get_conn_def add_task_def my_pending_def accepted_def Let_def)
qed

definition refusing_lib :: mysql_lib where
  "refusing_lib = quick_lib\<lparr>ml_connect := (\<lambda>_. ((False, False), False))\<rparr>"

text \<open>
  A full list whose connections are up is used in turn: the next request goes to the connection after
  the one used last, and back to the first after the last one.
\<close>

lemma db_pool_is_round_robin:
  assumes "map_of (dm_dbs m) node = Some info" and "map_of (dm_conns m) (db_identity info) = Some (Some i, cs)"
    and "int (length cs) = db_max_conn_cnt info" and "i < length cs" and "\<forall>c \<in> set cs. my_connected c"
  shows "\<exists>m'. db_get_conn bg ml node m = Some (Some (db_identity info, Suc i mod length cs), m')
     \<and> dm_dbs m' = dm_dbs m \<and> map_of (dm_conns m') (db_identity info) = Some (Some (Suc i mod length cs), cs)"
proof -
  have n: "next_itr (Some i, cs) = Some (Suc i mod length cs)"
    using assms(4) by (auto simp: next_itr_def)
  have "Suc i mod length cs < length cs" using assms(4) by (intro mod_less_divisor) linarith
  then have "my_connected (cs ! (Suc i mod length cs))" using assms(5) by simp
  then show ?thesis using assms(1,2,3) n by (simp add: db_get_conn_def Let_def)
qed

text \<open>
  The second list of a table is broken when it is not the first in the table's order: the code repairs
  the iterator of the first list instead, and the first request after the list is full follows a
  dangling iterator.
\<close>

lemma second_list_has_dangling_iterator:
  assumes "map_of (dm_dbs m) node = Some info" and "db_max_conn_cnt info = 1"
    and "map_of (dm_conns m) (db_identity info) = None"
    and "bg (ukeys (dm_conns m) @ [db_identity info]) = k" and "map_of (dm_conns m) k = Some l"
  shows "\<exists>m'. db_get_conn bg ml node m = Some (Some (db_identity info, 0), m')
     \<and> db_get_conn bg' ml' node m' = None \<and> map_of (dm_conns m') k = Some (Some 0, snd l)"
proof -
  have k: "k \<noteq> db_identity info" using assms(3,5) by auto
  have ks: "ukeys (uset (dm_conns m) (db_identity info) v) = ukeys (dm_conns m) @ [db_identity info]" for v
    using assms(3) by (simp add: update_keys map_of_eq_None_iff)
  show ?thesis
    using assms k ks by (simp add: db_get_conn_def Let_def next_itr_def fun_upd_twist)
qed

end
