(* ===== verification/Zk_Bio.thy ===== *)
theory Zk_Bio
  imports Complex_Main Util_Str
begin

text \<open>
  The background thread of the zookeeper client, \<open>src/core/zookeeper/zk_bio.cpp\<close> and \<open>zk_task.h\<close>.
  The zookeeper library is synchronous; the main thread and the library's watcher put tasks into a
  queue, the thread takes them one by one, runs them and queues the answers, and a timer of the main
  thread hands the answers out.

  A step of the thread is one pass of the mutex or one run of a task, \<open>thread_step\<close>. \<open>bio_run\<close> runs
  a list of events of the threads in any order. \<open>None\<close> is a crash: of the task itself, or the use of
  the mutex before \<open>bio_init\<close> has initialised it.
\<close>

section \<open>Tasks\<close>

datatype zk_cmd =
    ZK_UNKNOWN | ZK_REGISTER | ZK_GET | ZK_SET_DATA
  | NOTIFY_SESSION_CONNECTD | NOTIFY_SESSION_CONNECTING | NOTIFY_SESSION_EXPIRED
  | NOTIFY_NODE_CREATED | NOTIFY_NODE_DELETED | NOTIFY_NODE_DATA_CAHNGED | NOTIFY_NODE_CHILD_CAHNGED
  | ZK_END

record zk_result =
  zr_error :: int
  zr_errstr :: string
  zr_value :: string
  zr_values :: "string list"

record zk_task =
  zt_path :: string
  zt_value :: string
  zt_cmd :: zk_cmd
  zt_create_time :: real
  zt_res :: zk_result

definition new_task :: "string \<Rightarrow> zk_cmd \<Rightarrow> string \<Rightarrow> real \<Rightarrow> zk_task" where
  "new_task path cmd value t =
     \<lparr>zt_path = path, zt_value = value, zt_cmd = cmd, zt_create_time = t,
      zt_res = \<lparr>zr_error = 0, zr_errstr = '''', zr_value = '''', zr_values = []\<rparr>\<rparr>"

section \<open>The queues and the thread\<close>

text \<open>
  Where the thread is: at the head of its loop, waiting for a task with the mutex, running a task,
  about to queue its answer, or gone.
\<close>

datatype bio_thread = At_loop | Waiting | Handling zk_task | Acking zk_task | Exited

text \<open>\<open>b_ready\<close>: the mutex is initialised; \<open>b_thread\<close> is \<open>None\<close> while there is no thread.\<close>

record bio =
  b_ready :: bool
  b_stop_thread :: bool
  b_thread :: "bio_thread option"
  b_req_tasks :: "zk_task list"
  b_ack_tasks :: "zk_task list"

definition new_bio :: bio where
  "new_bio = \<lparr>b_ready = False, b_stop_thread = False, b_thread = None, b_req_tasks = [], b_ack_tasks = []\<rparr>"

definition REDIS_THREAD_STACK_SIZE :: nat where
  "REDIS_THREAD_STACK_SIZE = 1024 * 1024 * 4"

partial_function (option) grow_stack :: "nat \<Rightarrow> nat option" where
  "grow_stack s = (if s < REDIS_THREAD_STACK_SIZE then grow_stack (s * 2) else Some s)"

definition bio_stack_size :: "nat \<Rightarrow> nat option" where
  "bio_stack_size s = grow_stack (if s = 0 then 1 else s)"

text \<open>\<open>dflt\<close> is the default stack size of the system, \<open>created\<close> whether \<open>pthread_create\<close> succeeds.\<close>

definition bio_init :: "nat \<Rightarrow> bool \<Rightarrow> bio \<Rightarrow> (bool \<times> bio) option" where
  "bio_init dflt created b =
     do {
       let b = b\<lparr>b_ready := True\<rparr>;
       _ \<leftarrow> bio_stack_size dflt;
       Some (if created then (True, b\<lparr>b_thread := Some At_loop\<rparr>) else (False, b))
     }"

definition bio_stop :: "bio \<Rightarrow> bio" where
  "bio_stop b = b\<lparr>b_stop_thread := True\<rparr>"

definition add_cmd_task :: "string \<Rightarrow> zk_cmd \<Rightarrow> string \<Rightarrow> real \<Rightarrow> bio \<Rightarrow> bio option" where
  "add_cmd_task path cmd value t b =
     (if b_ready b then Some (b\<lparr>b_req_tasks := b_req_tasks b @ [new_task path cmd value t]\<rparr>) else None)"

definition add_ack_task :: "zk_task \<Rightarrow> bio \<Rightarrow> bio" where
  "add_ack_task t b = b\<lparr>b_ack_tasks := b_ack_tasks b @ [t]\<rparr>"

text \<open>
  \<open>bio_process_tasks\<close>. The flag is read at the head of the loop only: a thread that waits for a task
  takes the next one even when it has been stopped. A thread that has to wait stays where it is.
\<close>

definition thread_step :: "(zk_task \<Rightarrow> 's \<Rightarrow> (zk_task \<times> 's) option) \<Rightarrow> bio \<times> 's \<Rightarrow> (bio \<times> 's) option" where
  "thread_step exec bs =
     (let (b, s) = bs
      in case b_thread b of
           None \<Rightarrow> Some (b, s)
         | Some Exited \<Rightarrow> Some (b, s)
         | Some At_loop \<Rightarrow> Some (b\<lparr>b_thread := Some (if b_stop_thread b then Exited else Waiting)\<rparr>, s)
         | Some Waiting \<Rightarrow>
             (case b_req_tasks b of
                [] \<Rightarrow> Some (b, s)
              | t # ts \<Rightarrow> Some (b\<lparr>b_req_tasks := ts, b_thread := Some (Handling t)\<rparr>, s))
         | Some (Handling t) \<Rightarrow> map_option (\<lambda>(t, s). (b\<lparr>b_thread := Some (Acking t)\<rparr>, s)) (exec t s)
         | Some (Acking t) \<Rightarrow> Some ((add_ack_task t b)\<lparr>b_thread := Some At_loop\<rparr>, s))"

text \<open>The loop of \<open>handle_acks\<close> that moves at most 100 answers to a local list.\<close>

definition MAX_ACKS :: nat where "MAX_ACKS = 100"

fun fetch_loop :: "nat \<Rightarrow> zk_task list \<Rightarrow> zk_task list \<Rightarrow> zk_task list \<times> zk_task list" where
  "fetch_loop (Suc n) (t # acks) tasks = fetch_loop n acks (tasks @ [t])"
| "fetch_loop n acks tasks = (tasks, acks)"

definition fetch_acks :: "bio \<Rightarrow> (zk_task list \<times> bio) option" where
  "fetch_acks b =
     (if b_ready b then
        let (tasks, acks) = fetch_loop MAX_ACKS (b_ack_tasks b) [] in Some (tasks, b\<lparr>b_ack_tasks := acks\<rparr>)
      else None)"

section \<open>Runs of the threads\<close>

datatype bio_ev = Ev_add string zk_cmd string real | Ev_thread | Ev_acks | Ev_stop

text \<open>The third component are the answers handed out so far.\<close>

fun bio_do ::
  "(zk_task \<Rightarrow> 's \<Rightarrow> (zk_task \<times> 's) option) \<Rightarrow> bio_ev \<Rightarrow> bio \<times> 's \<times> zk_task list \<Rightarrow> (bio \<times> 's \<times> zk_task list) option" where
  "bio_do exec (Ev_add path cmd value t) (b, s, ans) = map_option (\<lambda>b. (b, s, ans)) (add_cmd_task path cmd value t b)"
| "bio_do exec Ev_thread (b, s, ans) = map_option (\<lambda>(b, s). (b, s, ans)) (thread_step exec (b, s))"
| "bio_do exec Ev_acks (b, s, ans) = map_option (\<lambda>(ts, b). (b, s, ans @ ts)) (fetch_acks b)"
| "bio_do exec Ev_stop (b, s, ans) = Some (bio_stop b, s, ans)"

fun bio_run ::
  "(zk_task \<Rightarrow> 's \<Rightarrow> (zk_task \<times> 's) option) \<Rightarrow> bio_ev list \<Rightarrow> bio \<times> 's \<times> zk_task list \<Rightarrow> (bio \<times> 's \<times> zk_task list) option" where
  "bio_run exec [] st = Some st"
| "bio_run exec (e # es) st = do { st \<leftarrow> bio_do exec e st; bio_run exec es st }"

text \<open>What a run of a task must not change, and the tasks that are on their way, oldest first.\<close>

definition task_key :: "zk_task \<Rightarrow> string \<times> string \<times> zk_cmd" where
  "task_key t = (zt_path t, zt_value t, zt_cmd t)"

definition in_hand :: "bio \<Rightarrow> zk_task list" where
  "in_hand b = (case b_thread b of Some (Handling t) \<Rightarrow> [t] | Some (Acking t) \<Rightarrow> [t] | _ \<Rightarrow> [])"

definition in_flight :: "bio \<Rightarrow> zk_task list" where
  "in_flight b = b_ack_tasks b @ in_hand b @ b_req_tasks b"

fun submitted :: "bio_ev list \<Rightarrow> (string \<times> string \<times> zk_cmd) list" where
  "submitted (Ev_add path cmd value t # es) = (path, value, cmd) # submitted es"
| "submitted (_ # es) = submitted es"
| "submitted [] = []"

lemma fetch_loop_take: "fetch_loop n acks tasks = (tasks @ take n acks, drop n acks)"
  by (induction n acks tasks rule: fetch_loop.induct) simp_all

lemma fetch_acks_Some:
  "fetch_acks b = Some (ts, b') \<longleftrightarrow>
     b_ready b \<and> ts = take MAX_ACKS (b_ack_tasks b) \<and> b' = b\<lparr>b_ack_tasks := drop MAX_ACKS (b_ack_tasks b)\<rparr>"
  by (auto simp: fetch_acks_def fetch_loop_take)

lemma in_flight_add: "add_cmd_task path cmd value t b = Some b' \<Longrightarrow> in_flight b' = in_flight b @ [new_task path cmd value t]"
  by (auto simp: add_cmd_task_def in_flight_def in_hand_def split: if_splits)

lemma in_flight_fetch: "fetch_acks b = Some (ts, b') \<Longrightarrow> ts @ in_flight b' = in_flight b"
  unfolding fetch_acks_Some by (auto simp: in_flight_def in_hand_def)

lemma bio_run_append: "bio_run exec (es @ fs) st = do { st \<leftarrow> bio_run exec es st; bio_run exec fs st }"
proof (induction es arbitrary: st)
  case (Cons e es)
  then show ?case by (cases "bio_do exec e st") simp_all
qed simp

section \<open>The stack of the thread\<close>

text \<open>The loop ends for every positive size, so for every default.\<close>

lemma grow_stack_ends: "0 < s \<Longrightarrow> \<exists>n. grow_stack s = Some n \<and> REDIS_THREAD_STACK_SIZE \<le> n"
proof (induction "REDIS_THREAD_STACK_SIZE - s" arbitrary: s rule: less_induct)
  case less
  show ?case
  proof (cases "s < REDIS_THREAD_STACK_SIZE")
    case True
    then have "REDIS_THREAD_STACK_SIZE - s * 2 < REDIS_THREAD_STACK_SIZE - s" using less.prems by simp
    from less.hyps [OF this] obtain n where "grow_stack (s * 2) = Some n" "REDIS_THREAD_STACK_SIZE \<le> n"
      using less.prems by auto
    then show ?thesis using True by (subst grow_stack.simps) simp
  next
    case False
    then show ?thesis by (subst grow_stack.simps) simp
  qed
qed

lemma bio_stack_size_ends: "\<exists>n. bio_stack_size s = Some n \<and> REDIS_THREAD_STACK_SIZE \<le> n"
  unfolding bio_stack_size_def by (rule grow_stack_ends) simp

lemma bio_init_ready: "\<exists>ok b'. bio_init dflt created b = Some (ok, b') \<and> b_ready b' \<and> ok = created"
  using bio_stack_size_ends [of dflt] by (cases created) (auto simp: bio_init_def Let_def)

section \<open>Tasks are answered once and in order\<close>

text \<open>What the owner of the thread promises: running a task fills in its result only.\<close>

locale bio_worker =
  fixes exec :: "zk_task \<Rightarrow> 's \<Rightarrow> (zk_task \<times> 's) option"
  assumes exec_key: "exec t s = Some (t', s') \<Longrightarrow> task_key t' = task_key t"
begin

lemma thread_keeps:
  assumes "thread_step exec (b, s) = Some (b', s')"
  shows "map task_key (in_flight b') = map task_key (in_flight b)"
proof (cases "b_thread b")
  case (Some th)
  then show ?thesis
    using assms
    by (cases th) (auto simp: thread_step_def in_flight_def in_hand_def add_ack_task_def exec_key split: list.splits if_splits)
qed (use assms in \<open>simp add: thread_step_def\<close>)

lemma do_keeps:
  assumes "bio_do exec e (b, s, ans) = Some (b', s', ans')"
  shows "map task_key (ans' @ in_flight b') = map task_key (ans @ in_flight b) @ submitted [e]"
proof (cases e)
  case (Ev_add path cmd val t)
  then show ?thesis using assms by (auto simp: in_flight_add new_task_def task_key_def)
next
  case Ev_thread
  then show ?thesis using assms by (auto simp: thread_keeps)
next
  case Ev_acks
  then obtain ts where ts: "fetch_acks b = Some (ts, b')" "ans' = ans @ ts" using assms by auto
  have "map task_key (ans' @ in_flight b') = map task_key (ans @ ts @ in_flight b')" using ts(2) by simp
  then show ?thesis using in_flight_fetch [OF ts(1)] Ev_acks by simp
next
  case Ev_stop
  then show ?thesis using assms by (auto simp: bio_stop_def in_flight_def in_hand_def)
qed

lemma submitted_Cons: "submitted (e # es) = submitted [e] @ submitted es"
  by (cases e) simp_all

lemma run_keeps:
  "bio_run exec es (b, s, ans) = Some (b', s', ans') \<Longrightarrow>
     map task_key (ans' @ in_flight b') = map task_key (ans @ in_flight b) @ submitted es"
proof (induction es arbitrary: b s ans)
  case (Cons e es)
  obtain b1 s1 ans1 where 1: "bio_do exec e (b, s, ans) = Some (b1, s1, ans1)"
    "bio_run exec es (b1, s1, ans1) = Some (b', s', ans')"
    using Cons.prems by (auto split: bind_splits)
  show ?case using do_keeps [OF 1(1)] Cons.IH [OF 1(2)] submitted_Cons [of e es] by simp
qed simp

end

section \<open>Stopping\<close>

text \<open>The tasks that the thread has taken, and whether it may take one more after \<open>bio_stop\<close>.\<close>

definition taken :: "bio \<Rightarrow> zk_task list \<Rightarrow> nat" where
  "taken b ans = length ans + length (b_ack_tasks b) + length (in_hand b)"

definition last_take :: "bio \<Rightarrow> nat" where
  "last_take b = (if b_thread b = Some Waiting then 1 else 0)"

lemma thread_taken:
  assumes "thread_step exec (b, s) = Some (b', s')" and "b_stop_thread b"
  shows "b_stop_thread b' \<and> taken b' ans + last_take b' \<le> taken b ans + last_take b"
proof (cases "b_thread b")
  case (Some th)
  then show ?thesis
    using assms
    by (cases th) (auto simp: thread_step_def taken_def last_take_def in_hand_def add_ack_task_def split: list.splits)
qed (use assms in \<open>simp add: thread_step_def\<close>)

lemma do_taken:
  assumes "bio_do exec e (b, s, ans) = Some (b', s', ans')" and "b_stop_thread b"
  shows "b_stop_thread b' \<and> taken b' ans' + last_take b' \<le> taken b ans + last_take b"
proof (cases e)
  case (Ev_add path cmd val t)
  then show ?thesis
    using assms by (auto simp: add_cmd_task_def taken_def last_take_def in_hand_def split: if_splits)
next
  case Ev_thread
  then have t: "thread_step exec (b, s) = Some (b', s')" "ans' = ans" using assms(1) by auto
  show ?thesis unfolding t(2) by (rule thread_taken [OF t(1) assms(2)])
next
  case Ev_acks
  then obtain ts where "fetch_acks b = Some (ts, b')" "ans' = ans @ ts" using assms(1) by auto
  then show ?thesis using assms(2) by (auto simp: fetch_acks_Some taken_def last_take_def in_hand_def)
next
  case Ev_stop
  then show ?thesis using assms by (auto simp: bio_stop_def taken_def last_take_def in_hand_def)
qed

lemma stopped_thread_takes_one:
  "bio_run exec es (b, s, ans) = Some (b', s', ans') \<Longrightarrow> b_stop_thread b \<Longrightarrow>
     taken b' ans' + last_take b' \<le> taken b ans + last_take b"
proof (induction es arbitrary: b s ans)
  case (Cons e es)
  obtain b1 s1 ans1 where 1: "bio_do exec e (b, s, ans) = Some (b1, s1, ans1)"
    "bio_run exec es (b1, s1, ans1) = Some (b', s', ans')"
    using Cons.prems by (auto split: bind_splits)
  show ?case using do_taken [OF 1(1) Cons.prems(2)] Cons.IH [OF 1(2)] by linarith
qed simp

section \<open>Progress\<close>

text \<open>A thread that has not been stopped, at the head of its loop.\<close>

definition idle :: "bio \<Rightarrow> bool" where
  "idle b \<longleftrightarrow> b_ready b \<and> \<not> b_stop_thread b \<and> b_thread b = Some At_loop"

lemma one_task:
  assumes "idle b" and "b_req_tasks b = t # ts" and "exec t s = Some (t', s')"
  shows "bio_run exec (replicate 4 Ev_thread) (b, s, ans)
    = Some (b\<lparr>b_req_tasks := ts, b_ack_tasks := b_ack_tasks b @ [t']\<rparr>, s', ans)"
  using assms by (simp add: numeral_eq_Suc idle_def thread_step_def add_ack_task_def)

lemma drain_reqs:
  assumes "\<And>t s. exec t s \<noteq> None"
  shows "idle b \<Longrightarrow> \<exists>b' s'. bio_run exec (replicate (4 * length (b_req_tasks b)) Ev_thread) (b, s, ans) = Some (b', s', ans)
    \<and> idle b' \<and> b_req_tasks b' = [] \<and> length (b_ack_tasks b') = length (b_ack_tasks b) + length (b_req_tasks b)"
proof (induction "b_req_tasks b" arbitrary: b s)
  case Nil
  then have "b_req_tasks b = []" by simp
  then show ?case using Nil.prems by simp
next
  case (Cons t ts)
  obtain t' s' where x: "exec t s = Some (t', s')" using assms [of t s] by auto
  let ?b = "b\<lparr>b_req_tasks := ts, b_ack_tasks := b_ack_tasks b @ [t']\<rparr>"
  have i: "idle ?b" using Cons.prems by (simp add: idle_def)
  have "\<exists>b' s''. bio_run exec (replicate (4 * length ts) Ev_thread) (?b, s', ans) = Some (b', s'', ans)
    \<and> idle b' \<and> b_req_tasks b' = [] \<and> length (b_ack_tasks b') = length (b_ack_tasks ?b) + length ts"
    using Cons.hyps(1) [of ?b s', OF _ i] by simp
  then obtain b' s'' where r:
    "bio_run exec (replicate (4 * length ts) Ev_thread) (?b, s', ans) = Some (b', s'', ans)"
    "idle b'" "b_req_tasks b' = []" "length (b_ack_tasks b') = length (b_ack_tasks ?b) + length ts" by (elim exE conjE)
  have "4 * length (b_req_tasks b) = 4 + 4 * length ts" using Cons.hyps(2) [symmetric] by simp
  then have "replicate (4 * length (b_req_tasks b)) Ev_thread = replicate 4 Ev_thread @ replicate (4 * length ts) Ev_thread"
    by (metis replicate_add)
  then show ?case
    using r one_task [of b t ts exec, OF Cons.prems Cons.hyps(2) [symmetric] x] Cons.hyps(2) [symmetric]
    by (simp add: bio_run_append)
qed

lemma drain_acks:
  "idle b \<Longrightarrow> b_req_tasks b = [] \<Longrightarrow> length (b_ack_tasks b) \<le> n * MAX_ACKS \<Longrightarrow>
     \<exists>b' ans'. bio_run exec (replicate n Ev_acks) (b, s, ans) = Some (b', s, ans') \<and> in_flight b' = []"
proof (induction n arbitrary: b ans)
  case 0
  then show ?case by (simp add: idle_def in_flight_def in_hand_def)
next
  case (Suc n)
  let ?b = "b\<lparr>b_ack_tasks := drop MAX_ACKS (b_ack_tasks b)\<rparr>"
  have f: "fetch_acks b = Some (take MAX_ACKS (b_ack_tasks b), ?b)"
    using Suc.prems(1) by (simp add: fetch_acks_Some idle_def)
  have "\<exists>b' ans'. bio_run exec (replicate n Ev_acks) (?b, s, ans @ take MAX_ACKS (b_ack_tasks b)) = Some (b', s, ans') \<and> in_flight b' = []"
    by (rule Suc.IH) (use Suc.prems in \<open>auto simp: idle_def\<close>)
  then show ?case using f by simp
qed

end
