(* ===== verification/Zk_Register.thy ===== *)
theory Zk_Register
  imports Zk_Bio Nodes_Mgr
begin

text \<open>
  What the background thread of the zookeeper client does: the wrapper \<open>zk_cpp\<close> of the C library
  (\<open>src/core/zookeeper/zk.cpp\<close>) and the half of \<open>src/core/zk_client.cpp\<close> that runs in the thread,
  above all the registration of this node.

  The C library and the server behind it are the function \<open>ze_zoo\<close>: from the calls made so far and
  the present call to the answer. The calls made are the list \<open>zs_calls\<close>. The objects of the JSON
  library are parameters of the same record, which print and parse the texts that are exchanged.
  \<open>None\<close> is a crash: a read past a buffer, or the exception of \<open>std::stoi\<close>.
\<close>

section \<open>The library\<close>

datatype zoo_call =
    Zoo_init string
  | Zoo_close
  | Zoo_create string string nat nat
  | Zoo_delete string int
  | Zoo_exists string bool
  | Zoo_get string bool nat
  | Zoo_set string string int
  | Zoo_get_children string bool

text \<open>
  \<open>za_text\<close> are the bytes written to the caller's buffer, \<open>za_len\<close> the length the call reports and
  \<open>za_data_len\<close> the \<open>dataLength\<close> of the node. For \<open>Zoo_init\<close> the code is \<open>z_ok\<close> when the handle is not
  null.
\<close>

record zoo_ans =
  za_rc :: int
  za_text :: string
  za_len :: int
  za_data_len :: int
  za_children :: "string list"

type_synonym zoo_lib = "zoo_call list \<Rightarrow> zoo_call \<Rightarrow> zoo_ans"

definition z_ok :: int where "z_ok = 0"
definition z_system_error :: int where "z_system_error = - 1"
definition z_no_node :: int where "z_no_node = - 101"
definition z_node_exists :: int where "z_node_exists = - 110"

lemmas z_defs = z_ok_def z_system_error_def z_no_node_def z_node_exists_def

text \<open>The members of the configuration that the client reads; \<open>zc_subscribe\<close> is \<open>None\<close> when it is no array.\<close>

record zk_conf =
  zc_no_zookeeper :: bool
  zc_servers :: string
  zc_log_path :: string
  zc_root :: string
  zc_payload_root :: string
  zc_subscribe :: "string list option"
  zc_node_type :: string
  zc_server_name :: string
  zc_node_host :: string
  zc_node_port :: string
  zc_worker_cnt :: string
  zc_old_path :: string

text \<open>
  \<open>ze_node_text\<close> prints the node's data (path, type, host, port, number of workers, time);
  \<open>ze_res_text\<close> and \<open>ze_parse_res\<close> the answer of a registration, the own path and the data of the nodes
  found; \<open>ze_to_zk\<close> is \<open>json_to_proto\<close> for a \<open>zk_node\<close>.
\<close>

record zk_env =
  ze_zoo :: zoo_lib
  ze_now :: "nat \<Rightarrow> real"
  ze_error_string :: "int \<Rightarrow> string"
  ze_stack_size :: nat
  ze_thread_ok :: bool
  ze_config_text :: "zk_conf \<Rightarrow> string"
  ze_parse_config :: "string \<Rightarrow> zk_conf option"
  ze_node_text :: "string \<Rightarrow> string \<Rightarrow> string \<Rightarrow> string \<Rightarrow> int \<Rightarrow> real \<Rightarrow> string"
  ze_is_json :: "string \<Rightarrow> bool"
  ze_res_text :: "string \<Rightarrow> string list \<Rightarrow> string"
  ze_parse_res :: "string \<Rightarrow> (string \<times> string list) option"
  ze_to_zk :: "string \<Rightarrow> zk_node option"

section \<open>The wrapper\<close>

text \<open>The handle, the calls made so far, and the client's \<open>m_payload_node_path\<close>.\<close>

record zk_side =
  zs_handle :: bool
  zs_calls :: "zoo_call list"
  zs_payload_path :: string

definition zoo :: "zk_env \<Rightarrow> zoo_call \<Rightarrow> zk_side \<Rightarrow> zoo_ans \<times> zk_side" where
  "zoo e call z = (ze_zoo e (zs_calls z) call, z\<lparr>zs_calls := zs_calls z @ [call]\<rparr>)"

definition zk_close :: "zk_env \<Rightarrow> zk_side \<Rightarrow> zk_side" where
  "zk_close e z = (if zs_handle z then (snd (zoo e Zoo_close z))\<lparr>zs_handle := False\<rparr> else z)"

text \<open>The result is \<open>z_ok\<close> even when \<open>zookeeper_init\<close> gives a null handle.\<close>

definition zk_connect :: "zk_env \<Rightarrow> string \<Rightarrow> zk_side \<Rightarrow> int \<times> zk_side" where
  "zk_connect e url z =
     (let (a, z) = zoo e (Zoo_init (c_str url)) (zk_close e z) in (z_ok, z\<lparr>zs_handle := (za_rc a = z_ok)\<rparr>))"

definition ZOO_EPHEMERAL :: nat where "ZOO_EPHEMERAL = 1"
definition ZOO_SEQUENCE :: nat where "ZOO_SEQUENCE = 2"
definition zoo_path_buf_len :: nat where "zoo_path_buf_len = 1024"
definition zoo_value_buf_len :: nat where "zoo_value_buf_len = 10240"

definition create_node :: "zk_env \<Rightarrow> string \<Rightarrow> nat \<Rightarrow> nat \<Rightarrow> zk_side \<Rightarrow> int \<times> string \<times> zk_side" where
  "create_node e path flags len z =
     (let (a, z) = zoo e (Zoo_create (c_str path) '''' flags len) z in (za_rc a, c_str (za_text a), z))"

definition create_persistent_node :: "zk_env \<Rightarrow> string \<Rightarrow> zk_side \<Rightarrow> int \<times> zk_side" where
  "create_persistent_node e path z = (let (rc, _, z) = create_node e path 0 0 z in (rc, z))"

definition create_ephemeral_node :: "zk_env \<Rightarrow> string \<Rightarrow> zk_side \<Rightarrow> int \<times> zk_side" where
  "create_ephemeral_node e path z = (let (rc, _, z) = create_node e path ZOO_EPHEMERAL 0 z in (rc, z))"

definition create_sequance_ephemeral_node :: "zk_env \<Rightarrow> string \<Rightarrow> zk_side \<Rightarrow> int \<times> string \<times> zk_side" where
  "create_sequance_ephemeral_node e path z = create_node e path (ZOO_SEQUENCE + ZOO_EPHEMERAL) zoo_path_buf_len z"

definition delete_node :: "zk_env \<Rightarrow> string \<Rightarrow> int \<Rightarrow> zk_side \<Rightarrow> int \<times> zk_side" where
  "delete_node e path version z = (let (a, z) = zoo e (Zoo_delete (c_str path) version) z in (za_rc a, z))"

definition exists_node :: "zk_env \<Rightarrow> string \<Rightarrow> bool \<Rightarrow> zk_side \<Rightarrow> int \<times> zk_side" where
  "exists_node e path watch z = (let (a, z) = zoo e (Zoo_exists (c_str path) watch) z in (za_rc a, z))"

definition set_node :: "zk_env \<Rightarrow> string \<Rightarrow> string \<Rightarrow> int \<Rightarrow> zk_side \<Rightarrow> int \<times> zk_side" where
  "set_node e path value version z = (let (a, z) = zoo e (Zoo_set (c_str path) value version) z in (za_rc a, z))"

text \<open>
  The string at the start of a zeroed buffer of \<open>n\<close> bytes into which \<open>text\<close> was written; \<open>None\<close> when no
  NUL ends it.
\<close>

definition buffer_string :: "nat \<Rightarrow> string \<Rightarrow> string option" where
  "buffer_string n text =
     (if length text < n \<or> CHR 0x00 \<in> set (take n text) then Some (c_str (take n text)) else None)"

definition get_node :: "zk_env \<Rightarrow> string \<Rightarrow> string \<Rightarrow> bool \<Rightarrow> zk_side \<Rightarrow> (int \<times> string \<times> zk_side) option" where
  "get_node e path out watch z =
     (let (a, z) = zoo e (Zoo_get (c_str path) watch zoo_value_buf_len) z
      in if za_rc a \<noteq> z_ok then Some (za_rc a, out, z)
         else if za_len a \<le> 0 then Some (z_ok, out, z)
         else if za_data_len a > za_len a then
           let n = nat (za_data_len a);
               (a, z) = zoo e (Zoo_get (c_str path) watch n) z
           in if za_rc a \<noteq> z_ok then Some (za_rc a, out, z)
              else do { out \<leftarrow> buffer_string (Suc n) (za_text a); Some (z_ok, out, z) }
         else do { out \<leftarrow> buffer_string zoo_value_buf_len (za_text a); Some (z_ok, out, z) })"

definition get_children :: "zk_env \<Rightarrow> string \<Rightarrow> bool \<Rightarrow> zk_side \<Rightarrow> int \<times> string list \<times> zk_side" where
  "get_children e path watch z =
     (let (a, z) = zoo e (Zoo_get_children (c_str path) watch) z
      in (za_rc a, if za_rc a \<noteq> z_ok then [] else map c_str (za_children a), z))"

definition watch_data_change :: "zk_env \<Rightarrow> string \<Rightarrow> string \<Rightarrow> zk_side \<Rightarrow> (int \<times> string \<times> zk_side) option" where
  "watch_data_change e path value z =
     map_option (\<lambda>(rt, out, z). (rt, if rt \<noteq> z_ok then value else out, z)) (get_node e path '''' True z)"

definition watch_children_event :: "zk_env \<Rightarrow> string \<Rightarrow> string list \<Rightarrow> zk_side \<Rightarrow> int \<times> string list \<times> zk_side" where
  "watch_children_event e path outs z =
     (let (rt, children, z) = get_children e path True z in (rt, if rt \<noteq> z_ok then outs else children, z))"

section \<open>The registration\<close>

text \<open>The loop of \<open>bio_create_parent\<close>; \<open>ret\<close> is the code of the last call.\<close>

fun create_paths :: "zk_env \<Rightarrow> string list \<Rightarrow> string \<Rightarrow> int \<Rightarrow> zk_side \<Rightarrow> int \<times> zk_side" where
  "create_paths e [] path ret z = (ret, z)"
| "create_paths e (v # vs) path ret z =
     (let path = path @ ''/'' @ v;
          (ret, z) = create_persistent_node e path z
      in if ret \<noteq> z_ok \<and> ret \<noteq> z_node_exists then (ret, z) else create_paths e vs path ret z)"

definition bio_create_parent :: "zk_env \<Rightarrow> string \<Rightarrow> zk_side \<Rightarrow> (int \<times> zk_side) option" where
  "bio_create_parent e parent z =
     (let (ret, z) = exists_node e parent True z
      in if ret \<noteq> z_ok \<and> ret \<noteq> z_no_node then Some (ret, z)
         else if ret = z_no_node then do {
           paths \<leftarrow> split_str (Suc (length parent)) parent [] ''/'' True;
           Some (create_paths e paths '''' ret z)
         }
         else Some (ret, z))"

text \<open>\<open>format_str("%s/%s", ...)\<close> and the text after the last slash.\<close>

definition join_path :: "string \<Rightarrow> string \<Rightarrow> string" where
  "join_path a b = format_str (c_str a @ ''/'' @ c_str b)"

definition last_part :: "string \<Rightarrow> string" where
  "last_part s = rev (takeWhile (\<lambda>c. c \<noteq> CHR ''/'') (rev s))"

text \<open>
  From "check nodes parent" to "set node data": the code, the path of the new node and the state.
  \<open>jc\<close> is the configuration of the task, \<open>mc\<close> the client's, which gives the number of workers.
\<close>

definition create_my_nodes :: "zk_env \<Rightarrow> zk_conf \<Rightarrow> zk_conf \<Rightarrow> zk_side \<Rightarrow> (int \<times> string \<times> zk_side) option" where
  "create_my_nodes e mc jc z =
     do {
       let parent = join_path (zc_root jc) (zc_node_type jc);
       let node_name = format_str (c_str (zc_server_name jc) @ ''-'' @ c_str (zc_node_type jc));
       let node_path = join_path parent node_name;
       (ret, z) \<leftarrow> bio_create_parent e parent z;
       if ret \<noteq> z_ok then Some (ret, node_path, z)
       else do {
         let payload_parent = join_path (zc_payload_root jc) (zc_node_type jc);
         (ret, z) \<leftarrow> bio_create_parent e payload_parent z;
         if ret \<noteq> z_ok then Some (ret, node_path, z)
         else do {
           let (ret, node_path, z) = create_sequance_ephemeral_node e node_path z;
           if ret \<noteq> z_ok then Some (ret, node_path, z)
           else do {
             let path = join_path payload_parent (last_part node_path);
             let (ret, z) = create_ephemeral_node e path z;
             if ret \<noteq> z_ok then Some (ret, node_path, z)
             else do {
               let z = z\<lparr>zs_payload_path := path\<rparr>;
               cnt \<leftarrow> str_to_int (zc_worker_cnt mc);
               let data = ze_node_text e node_path (zc_node_type jc) (zc_node_host jc) (zc_node_port jc) cnt
                            (ze_now e (length (zs_calls z)));
               let (ret, z) = set_node e node_path data (- 1) z;
               Some (ret, node_path, z)
             }
           }
         }
       }
     }"

text \<open>The two loops over the subscribed types and the children of each; \<open>out\<close> lives across both.\<close>

fun read_children ::
  "zk_env \<Rightarrow> string \<Rightarrow> string list \<Rightarrow> string \<Rightarrow> string list \<Rightarrow> zk_side \<Rightarrow> (string \<times> string list \<times> zk_side) option" where
  "read_children e parent [] out nodes z = Some (out, nodes, z)"
| "read_children e parent (c # cs) out nodes z =
     do {
       (ret, out, z) \<leftarrow> watch_data_change e (join_path parent c) out z;
       if ret \<noteq> z_ok then read_children e parent cs out nodes z
       else if out = [] \<or> \<not> ze_is_json e out then read_children e parent cs out nodes z
       else read_children e parent cs out (nodes @ [out]) z
     }"

fun read_types ::
  "zk_env \<Rightarrow> string \<Rightarrow> string list \<Rightarrow> string \<Rightarrow> string list \<Rightarrow> zk_side \<Rightarrow> (int \<times> string list \<times> zk_side) option" where
  "read_types e zroot [] out nodes z = Some (z_ok, nodes, z)"
| "read_types e zroot (ty # tys) out nodes z =
     do {
       let parent = join_path zroot ty;
       let (ret, children, z) = watch_children_event e parent [] z;
       if ret \<noteq> z_ok then
         (if ret = z_no_node then read_types e zroot tys out nodes z else Some (ret, nodes, z))
       else do {
         (out, nodes, z) \<leftarrow> read_children e parent children out nodes z;
         read_types e zroot tys out nodes z
       }
     }"

definition bio_register_node :: "zk_env \<Rightarrow> zk_conf \<Rightarrow> zk_task \<Rightarrow> zk_side \<Rightarrow> (int \<times> zk_task \<times> zk_side) option" where
  "bio_register_node e mc task z =
     (case ze_parse_config e (zt_value task) of
        None \<Rightarrow> Some (z_system_error, task, z)
      | Some jc \<Rightarrow>
          if zc_root jc = [] \<or> zc_payload_root jc = [] then Some (z_system_error, task, z)
          else case zc_subscribe jc of
                 None \<Rightarrow> Some (z_system_error, task, z)
               | Some subscribes \<Rightarrow>
                   do {
                     (ret, node_path, z) \<leftarrow> create_my_nodes e mc jc z;
                     if ret \<noteq> z_ok then Some (ret, task, z)
                     else do {
                       (ret, nodes, z) \<leftarrow> read_types e (zc_root jc) subscribes '''' [] z;
                       if ret \<noteq> z_ok then Some (ret, task, z)
                       else
                         let z = (if zc_old_path jc \<noteq> [] then snd (delete_node e (zc_old_path jc) (- 1) z) else z)
                         in Some (z_ok, task\<lparr>zt_res := (zt_res task)\<lparr>zr_value := ze_res_text e node_path nodes\<rparr>\<rparr>, z)
                     }
                   })"

section \<open>The tasks\<close>

definition set_res :: "(zk_result \<Rightarrow> zk_result) \<Rightarrow> zk_task \<Rightarrow> zk_task" where
  "set_res f task = task\<lparr>zt_res := f (zt_res task)\<rparr>"

definition run_task :: "zk_env \<Rightarrow> zk_conf \<Rightarrow> zk_task \<Rightarrow> zk_side \<Rightarrow> (int \<times> zk_task \<times> zk_side) option" where
  "run_task e mc task z =
     (let path = zt_path task
      in case zt_cmd task of
           ZK_REGISTER \<Rightarrow> bio_register_node e mc task z
         | NOTIFY_SESSION_CONNECTD \<Rightarrow> Some (z_ok, task, z)
         | NOTIFY_SESSION_CONNECTING \<Rightarrow> Some (z_ok, task, z)
         | NOTIFY_SESSION_EXPIRED \<Rightarrow> Some (z_ok, task, z)
         | NOTIFY_NODE_CREATED \<Rightarrow> Some (z_ok, task, z)
         | NOTIFY_NODE_DELETED \<Rightarrow> Some (z_ok, task, z)
         | ZK_GET \<Rightarrow>
             map_option (\<lambda>(ret, v, z). (ret, set_res (zr_value_update (\<lambda>_. v)) task, z))
               (watch_data_change e path (zr_value (zt_res task)) z)
         | NOTIFY_NODE_DATA_CAHNGED \<Rightarrow>
             map_option (\<lambda>(ret, v, z). (ret, set_res (zr_value_update (\<lambda>_. v)) task, z))
               (watch_data_change e path (zr_value (zt_res task)) z)
         | ZK_SET_DATA \<Rightarrow> (let (ret, z) = set_node e path (c_str (zt_value task)) (- 1) z in Some (ret, task, z))
         | NOTIFY_NODE_CHILD_CAHNGED \<Rightarrow>
             (let (ret, vs, z) = watch_children_event e path (zr_values (zt_res task)) z
              in Some (ret, set_res (zr_values_update (\<lambda>_. vs)) task, z))
         | _ \<Rightarrow> Some (z_system_error, task, z))"

definition bio_process_cmd :: "zk_env \<Rightarrow> zk_conf \<Rightarrow> zk_task \<Rightarrow> zk_side \<Rightarrow> (zk_task \<times> zk_side) option" where
  "bio_process_cmd e mc task z =
     map_option
       (\<lambda>(ret, task, z).
          (set_res (\<lambda>r. r\<lparr>zr_error := ret, zr_errstr := (if zr_errstr r = [] then ze_error_string e ret else zr_errstr r)\<rparr>) task, z))
       (run_task e mc task z)"

section \<open>The client's thread\<close>

lemma task_key_res [simp]: "task_key (set_res f t) = task_key t" "task_key (t\<lparr>zt_res := r\<rparr>) = task_key t"
  by (simp_all add: task_key_def set_res_def)

lemma register_key: "bio_register_node e mc t z = Some (ret, t', z') \<Longrightarrow> task_key t' = task_key t"
  by (auto simp: bio_register_node_def Let_def split: option.splits if_splits bind_splits)

lemma run_task_key: "run_task e mc t z = Some (ret, t', z') \<Longrightarrow> task_key t' = task_key t"
  by (cases "zt_cmd t") (auto simp: run_task_def register_key split: prod.splits)

lemma bio_process_key: "bio_process_cmd e mc t z = Some (t', z') \<Longrightarrow> task_key t' = task_key t"
  using run_task_key by (auto simp: bio_process_cmd_def)

interpretation zk_bio: bio_worker "bio_process_cmd e mc" for e mc
  by unfold_locales (rule bio_process_key)

section \<open>The client\<close>

text \<open>
  The state of a \<open>ZkClient\<close>; \<open>z_has_zk\<close>: \<open>m_zk\<close> is not null. Its payload path is in \<open>z_side\<close>, because the
  thread writes it.
\<close>

record zk_client =
  z_bio :: bio
  z_conf :: zk_conf
  z_has_zk :: bool
  z_side :: zk_side
  z_is_connected :: bool
  z_is_registered :: bool
  z_is_expired :: bool
  z_register_index :: int

definition new_zk_client :: "zk_conf \<Rightarrow> zk_client" where
  "new_zk_client conf = \<lparr>z_bio = new_bio, z_conf = conf, z_has_zk = False,
     z_side = \<lparr>zs_handle = False, zs_calls = [], zs_payload_path = []\<rparr>,
     z_is_connected = False, z_is_registered = False, z_is_expired = False, z_register_index = 0\<rparr>"

section \<open>What a registration does\<close>

definition makes_ephemeral :: "zoo_call \<Rightarrow> bool" where
  "makes_ephemeral c = (case c of Zoo_create _ _ flags _ \<Rightarrow> flags \<noteq> 0 | _ \<Rightarrow> False)"

definition quiet :: "zk_side \<Rightarrow> zk_side \<Rightarrow> bool" where
  "quiet z z' \<longleftrightarrow> filter makes_ephemeral (zs_calls z') = filter makes_ephemeral (zs_calls z)
     \<and> zs_payload_path z' = zs_payload_path z"

lemma quiet_refl [simp]: "quiet z z"
  by (simp add: quiet_def)

lemma quiet_trans: "quiet z z' \<Longrightarrow> quiet z' z'' \<Longrightarrow> quiet z z''"
  by (simp add: quiet_def)

lemma quiet_zoo: "zoo e c z = (a, z') \<Longrightarrow> \<not> makes_ephemeral c \<Longrightarrow> quiet z z'"
  by (auto simp: zoo_def quiet_def)

lemma quiet_get: "get_node e path out watch z = Some (ret, v, z') \<Longrightarrow> quiet z z'"
  by (auto simp: get_node_def zoo_def quiet_def makes_ephemeral_def Let_def split: if_splits bind_splits)

lemma quiet_watch: "watch_data_change e path v z = Some (ret, v', z') \<Longrightarrow> quiet z z'"
  using quiet_get by (fastforce simp: watch_data_change_def)

lemma quiet_ops:
  "exists_node e path watch z = (ret, z') \<Longrightarrow> quiet z z'"
  "delete_node e path ver z = (ret, z') \<Longrightarrow> quiet z z'"
  "set_node e path val ver z = (ret, z') \<Longrightarrow> quiet z z'"
  "create_persistent_node e path z = (ret, z') \<Longrightarrow> quiet z z'"
  "watch_children_event e path vs z = (ret, vs', z') \<Longrightarrow> quiet z z'"
  by (auto simp: exists_node_def delete_node_def set_node_def create_persistent_node_def create_node_def
      watch_children_event_def get_children_def zoo_def quiet_def makes_ephemeral_def)

lemma quiet_create_paths: "create_paths e vs path ret z = (ret', z') \<Longrightarrow> quiet z z'"
proof (induction vs arbitrary: path ret z)
  case (Cons v vs)
  obtain r y where y: "create_persistent_node e (path @ ''/'' @ v) z = (r, y)" by fastforce
  then have "quiet z y" by (rule quiet_ops)
  then show ?case using Cons y quiet_trans by (auto simp: Let_def split: if_splits)
qed simp

lemma quiet_create_parent: "bio_create_parent e parent z = Some (ret, z') \<Longrightarrow> quiet z z'"
proof -
  assume h: "bio_create_parent e parent z = Some (ret, z')"
  obtain r y where y: "exists_node e parent True z = (r, y)" by fastforce
  then have "quiet z y" by (rule quiet_ops)
  then show ?thesis using h y quiet_create_paths quiet_trans
    by (fastforce simp: bio_create_parent_def Let_def split: if_splits bind_splits)
qed

lemma read_children_quiet:
  "read_children e parent cs out nodes z = Some (out', nodes', z') \<Longrightarrow>
     quiet z z' \<and> (\<forall>n \<in> set nodes'. n \<in> set nodes \<or> n \<noteq> [] \<and> ze_is_json e n)"
proof (induction cs arbitrary: out nodes z)
  case (Cons c cs)
  obtain ret v y where y: "watch_data_change e (join_path parent c) out z = Some (ret, v, y)"
    using Cons.prems by (auto split: bind_splits)
  let ?skip = "ret \<noteq> z_ok \<or> v = [] \<or> \<not> ze_is_json e v"
  let ?nodes = "if ?skip then nodes else nodes @ [v]"
  have q: "quiet z y" using y by (rule quiet_watch)
  have "read_children e parent cs v ?nodes y = Some (out', nodes', z')" using Cons.prems y by (auto split: if_splits)
  from Cons.IH [OF this] show ?case using quiet_trans [OF q] by (auto split: if_splits)
qed simp

lemma read_types_quiet:
  "read_types e zroot tys out nodes z = Some (ret, nodes', z') \<Longrightarrow>
     quiet z z' \<and> (\<forall>n \<in> set nodes'. n \<in> set nodes \<or> n \<noteq> [] \<and> ze_is_json e n)"
proof (induction tys arbitrary: out nodes z)
  case (Cons ty tys)
  obtain r cs y where y: "watch_children_event e (join_path zroot ty) [] z = (r, cs, y)" by (metis prod_cases3)
  have q: "quiet z y" using y by (rule quiet_ops)
  show ?case
  proof (cases "r = z_ok")
    case True
    obtain out1 nodes1 z1 where 1: "read_children e (join_path zroot ty) cs out nodes y = Some (out1, nodes1, z1)"
      "read_types e zroot tys out1 nodes1 z1 = Some (ret, nodes', z')"
      using Cons.prems y True by (auto simp: Let_def split: bind_splits)
    show ?thesis using read_children_quiet [OF 1(1)] Cons.IH [OF 1(2)] q quiet_trans by blast
  next
    case False
    then show ?thesis using Cons y q quiet_trans by (auto simp: Let_def split: if_splits)
  qed
qed simp

lemma read_types_end: "read_types e zroot tys out nodes z = Some (ret, nodes', z') \<Longrightarrow> ret \<noteq> z_no_node"
proof (induction tys arbitrary: out nodes z)
  case (Cons ty tys)
  then show ?case by (auto simp: Let_def split: if_splits bind_splits prod.splits)
qed (simp add: z_defs)

text \<open>The two ephemeral nodes of a successful registration.\<close>

lemma create_my_nodes_ok:
  assumes "create_my_nodes e mc jc z = Some (z_ok, node_path, z')"
  shows "\<exists>base. filter makes_ephemeral (zs_calls z') = filter makes_ephemeral (zs_calls z)
      @ [Zoo_create base '''' 3 1024, Zoo_create (c_str (zs_payload_path z')) '''' 1 0]
    \<and> zs_payload_path z' = join_path (join_path (zc_payload_root jc) (zc_node_type jc)) (last_part node_path)"
proof -
  let ?parent = "join_path (zc_root jc) (zc_node_type jc)" and ?payload = "join_path (zc_payload_root jc) (zc_node_type jc)"
  let ?base = "join_path ?parent (format_str (c_str (zc_server_name jc) @ ''-'' @ c_str (zc_node_type jc)))"
  obtain r1 z1 where 1: "bio_create_parent e ?parent z = Some (r1, z1)"
    using assms by (auto simp: create_my_nodes_def Let_def split: bind_splits)
  have r1: "r1 = z_ok" using assms 1 by (auto simp: create_my_nodes_def Let_def split: if_splits)
  obtain r2 z2 where 2: "bio_create_parent e ?payload z1 = Some (r2, z2)"
    using assms 1 r1 by (auto simp: create_my_nodes_def Let_def split: bind_splits)
  have r2: "r2 = z_ok" using assms 1 2 r1 by (auto simp: create_my_nodes_def Let_def split: if_splits)
  obtain r3 np z3 where 3: "create_sequance_ephemeral_node e ?base z2 = (r3, np, z3)" by (metis prod_cases3)
  have r3: "r3 = z_ok" using assms 1 2 3 r1 r2 by (auto simp: create_my_nodes_def Let_def split: if_splits)
  let ?path = "join_path ?payload (last_part np)"
  obtain r4 z4 where 4: "create_ephemeral_node e ?path z3 = (r4, z4)" by fastforce
  have r4: "r4 = z_ok" using assms 1 2 3 4 r1 r2 r3 by (auto simp: create_my_nodes_def Let_def split: if_splits)
  obtain cnt where cnt: "str_to_int (zc_worker_cnt mc) = Some cnt"
    using assms 1 2 3 4 r1 r2 r3 r4 by (auto simp: create_my_nodes_def Let_def split: bind_splits)
  let ?z5 = "z4\<lparr>zs_payload_path := ?path\<rparr>"
  let ?d = "ze_node_text e np (zc_node_type jc) (zc_node_host jc) (zc_node_port jc) cnt (ze_now e (length (zs_calls ?z5)))"
  obtain r6 z6 where 6: "set_node e np ?d (- 1) ?z5 = (r6, z6)" by fastforce
  have res: "np = node_path" "z' = z6"
    using assms 1 2 3 4 6 r1 r2 r3 r4 cnt by (auto simp: create_my_nodes_def Let_def)
  have q: "quiet z z2" using quiet_create_parent [OF 1] quiet_create_parent [OF 2] by (rule quiet_trans)
  have c3: "zs_calls z3 = zs_calls z2 @ [Zoo_create (c_str ?base) '''' 3 1024]"
    using 3 by (auto simp: create_sequance_ephemeral_node_def create_node_def zoo_def ZOO_SEQUENCE_def ZOO_EPHEMERAL_def zoo_path_buf_len_def)
  have c4: "zs_calls z4 = zs_calls z3 @ [Zoo_create (c_str ?path) '''' 1 0]"
    using 4 by (auto simp: create_ephemeral_node_def create_node_def zoo_def ZOO_EPHEMERAL_def)
  have "quiet ?z5 z6" using 6 by (rule quiet_ops)
  then show ?thesis using q c3 c4 res by (simp add: quiet_def makes_ephemeral_def)
qed

lemma registration_ok:
  assumes "bio_register_node e mc t z = Some (z_ok, t', z')"
  shows "\<exists>jc node_path nodes base. ze_parse_config e (zt_value t) = Some jc
    \<and> zr_value (zt_res t') = ze_res_text e node_path nodes \<and> (\<forall>n \<in> set nodes. n \<noteq> [] \<and> ze_is_json e n)
    \<and> filter makes_ephemeral (zs_calls z') = filter makes_ephemeral (zs_calls z)
        @ [Zoo_create base '''' 3 1024, Zoo_create (c_str (zs_payload_path z')) '''' 1 0]
    \<and> zs_payload_path z' = join_path (join_path (zc_payload_root jc) (zc_node_type jc)) (last_part node_path)"
proof -
  obtain jc subs where jc: "ze_parse_config e (zt_value t) = Some jc" "zc_root jc \<noteq> []" "zc_payload_root jc \<noteq> []"
    "zc_subscribe jc = Some subs"
    using assms by (auto simp: bio_register_node_def z_defs split: option.splits if_splits)
  obtain r1 np z1 where 1: "create_my_nodes e mc jc z = Some (r1, np, z1)"
    using assms jc by (auto simp: bio_register_node_def split: bind_splits)
  have r1: "r1 = z_ok" using assms jc 1 by (auto simp: bio_register_node_def split: if_splits)
  obtain r2 nodes z2 where 2: "read_types e (zc_root jc) subs '''' [] z1 = Some (r2, nodes, z2)"
    using assms jc 1 r1 by (auto simp: bio_register_node_def split: bind_splits)
  have r2: "r2 = z_ok" using assms jc 1 2 r1 by (auto simp: bio_register_node_def split: if_splits)
  obtain r3 z3 where 3: "delete_node e (zc_old_path jc) (- 1) z2 = (r3, z3)" by fastforce
  have t': "zr_value (zt_res t') = ze_res_text e np nodes" and z': "z' = z3 \<or> z' = z2"
    using assms jc 1 2 3 r1 r2 by (auto simp: bio_register_node_def Let_def split: if_splits)
  have "quiet z1 z2" using read_types_quiet [OF 2] by simp
  moreover have "quiet z2 z3" using 3 by (rule quiet_ops)
  ultimately have q: "quiet z1 z'" using z' quiet_trans by blast
  from create_my_nodes_ok [OF 1 [unfolded r1]] obtain base where
    base: "filter makes_ephemeral (zs_calls z1) = filter makes_ephemeral (zs_calls z)
      @ [Zoo_create base '''' 3 1024, Zoo_create (c_str (zs_payload_path z1)) '''' 1 0]"
    "zs_payload_path z1 = join_path (join_path (zc_payload_root jc) (zc_node_type jc)) (last_part np)" by blast
  show ?thesis
    by (rule exI [of _ jc], rule exI [of _ np], rule exI [of _ nodes], rule exI [of _ base])
      (use jc(1) t' q base read_types_quiet [OF 2] in \<open>simp add: quiet_def\<close>)
qed

section \<open>Properties\<close>

text \<open>
  What \<open>zoo_get\<close> documents for a node that holds \<open>v\<close>: it copies as much as fits, reports the number of
  bytes copied and, in the node's statistics, the length of the data.
\<close>

definition node_holds :: "zk_env \<Rightarrow> string \<Rightarrow> bool" where
  "node_holds e v \<longleftrightarrow>
     (\<forall>calls path watch n. ze_zoo e calls (Zoo_get path watch n) =
        \<lparr>za_rc = z_ok, za_text = take n v, za_len = int (min n (length v)), za_data_len = int (length v), za_children = []\<rparr>)"

lemma c_str_id: "CHR 0x00 \<notin> set v \<Longrightarrow> c_str v = v"
  unfolding c_str_def by (induction v) auto

lemma buffer_string_fits: "CHR 0x00 \<notin> set v \<Longrightarrow> length v < n \<Longrightarrow> buffer_string n v = Some v"
  by (simp add: buffer_string_def c_str_id)

text \<open>
  C35. The value of a node is read whole, in one call or, when it is longer than the buffer, in two. One
  length is wrong: a value that fills the buffer exactly leaves no room for the terminating NUL, and
  the string is built from memory past the buffer.
\<close>

theorem zk_value_is_read_whole:
  assumes "node_holds e v" and "CHR 0x00 \<notin> set v"
  shows "watch_data_change e path out z =
    (if length v = 10240 then None
     else Some (z_ok, v, z\<lparr>zs_calls := zs_calls z @ (if length v < 10240 then [Zoo_get (c_str path) True 10240]
       else [Zoo_get (c_str path) True 10240, Zoo_get (c_str path) True (length v)])\<rparr>))"
proof -
  note get = assms(1) [unfolded node_holds_def, rule_format]
  consider "v = []" | "v \<noteq> []" "length v < 10240" | "length v = 10240" | "10240 < length v" by fastforce
  then show ?thesis
  proof cases
    case 1
    then show ?thesis by (simp add: watch_data_change_def get_node_def zoo_def get zoo_value_buf_len_def)
  next
    case 2
    then show ?thesis
      using buffer_string_fits [OF assms(2) 2(2)]
      by (simp add: watch_data_change_def get_node_def zoo_def get zoo_value_buf_len_def)
  next
    case 3
    then have "buffer_string 10240 v = None" using assms(2) by (simp add: buffer_string_def)
    then show ?thesis
      using 3 by (simp add: watch_data_change_def get_node_def zoo_def get zoo_value_buf_len_def)
  next
    case 4
    then show ?thesis
      using buffer_string_fits [OF assms(2), of "Suc (length v)"]
      by (simp add: watch_data_change_def get_node_def zoo_def get zoo_value_buf_len_def Let_def min_def)
  qed
qed

text \<open>A server that grants every request; the nodes it lists hold \<open>v\<close>.\<close>

definition toy_zoo :: "string \<Rightarrow> zoo_lib" where
  "toy_zoo v calls c =
     (case c of
        Zoo_create path _ flags _ \<Rightarrow>
          \<lparr>za_rc = 0, za_text = (if flags = 3 then path @ ''0000000001'' else path), za_len = 0, za_data_len = 0, za_children = []\<rparr>
      | Zoo_get _ _ n \<Rightarrow>
          \<lparr>za_rc = 0, za_text = take n v, za_len = int (min n (length v)), za_data_len = int (length v), za_children = []\<rparr>
      | Zoo_get_children _ _ \<Rightarrow> \<lparr>za_rc = 0, za_text = [], za_len = 0, za_data_len = 0, za_children = [''a-1'']\<rparr>
      | _ \<Rightarrow> \<lparr>za_rc = 0, za_text = [], za_len = 0, za_data_len = 0, za_children = []\<rparr>)"

definition toy_conf :: zk_conf where
  "toy_conf = \<lparr>zc_no_zookeeper = False, zc_servers = ''s:1'', zc_log_path = ''l'', zc_root = ''/k'', zc_payload_root = ''/p'',
     zc_subscribe = Some [''gate''], zc_node_type = ''logic'', zc_server_name = ''srv'', zc_node_host = ''h'',
     zc_node_port = ''80'', zc_worker_cnt = ''2'', zc_old_path = []\<rparr>"

definition toy_node :: zk_node where
  "toy_node = \<lparr>zn_path = ''/k/gate/a-1'', zn_type = ''gate'', zn_host = ''g'', zn_port = 90, zn_worker_cnt = 1, zn_active_time = 7\<rparr>"

definition toy_zk :: "string \<Rightarrow> zk_env" where
  "toy_zk v = \<lparr>ze_zoo = toy_zoo v, ze_now = (\<lambda>_. 7), ze_error_string = (\<lambda>_. ''e''), ze_stack_size = 8388608, ze_thread_ok = True,
     ze_config_text = zc_root, ze_parse_config = (\<lambda>_. Some toy_conf), ze_node_text = (\<lambda>path _ _ _ _ _. path),
     ze_is_json = (\<lambda>_. True), ze_res_text = (\<lambda>p ns. p), ze_parse_res = (\<lambda>p. Some (p, [v])), ze_to_zk = (\<lambda>_. Some toy_node)\<rparr>"

definition new_side :: zk_side where
  "new_side = \<lparr>zs_handle = True, zs_calls = [], zs_payload_path = []\<rparr>"

lemma toy_holds: "node_holds (toy_zk v) v"
  by (simp add: node_holds_def toy_zk_def toy_zoo_def z_ok_def)

theorem zk_value_is_read_whole_witness:
  "watch_data_change (toy_zk (replicate 10240 CHR ''x'')) ''/k/gate/a-1'' [] new_side = None"
  by (subst zk_value_is_read_whole [OF toy_holds]) simp_all

text \<open>
  A registration that succeeds has created exactly two ephemeral nodes: a sequential one that stands for
  this server, and one below the payload directory under the name that the server was given. The
  answer lists only data that is JSON.
\<close>

lemma registration_makes_two_nodes:
  assumes "bio_register_node e mc t z = Some (z_ok, t', z')"
  shows "\<exists>jc node_path nodes base. ze_parse_config e (zt_value t) = Some jc
    \<and> zr_value (zt_res t') = ze_res_text e node_path nodes \<and> (\<forall>n \<in> set nodes. n \<noteq> [] \<and> ze_is_json e n)
    \<and> filter makes_ephemeral (zs_calls z') = filter makes_ephemeral (zs_calls z)
        @ [Zoo_create base '''' 3 1024, Zoo_create (c_str (zs_payload_path z')) '''' 1 0]
    \<and> zs_payload_path z' = join_path (join_path (zc_payload_root jc) (zc_node_type jc)) (last_part node_path)"
  by (rule registration_ok [OF assms])

lemma toy_register:
  "\<exists>t' z'. bio_register_node (toy_zk ''{}'') toy_conf (new_task '''' ZK_REGISTER '''' 0) new_side = Some (z_ok, t', z')
     \<and> zs_payload_path z' = ''/p/logic/srv-logic0000000001''"
proof -
  have path: "join_path ''/k'' ''logic'' = ''/k/logic''" "join_path ''/p'' ''logic'' = ''/p/logic''"
    "format_str (c_str ''srv'' @ CHR ''-'' # c_str ''logic'') = ''srv-logic''"
    "join_path ''/k/logic'' ''srv-logic'' = ''/k/logic/srv-logic''" "c_str ''/k/logic/srv-logic'' = ''/k/logic/srv-logic''"
    "c_str ''/k/logic/srv-logic0000000001'' = ''/k/logic/srv-logic0000000001''"
    "last_part ''/k/logic/srv-logic0000000001'' = ''srv-logic0000000001''"
    "join_path ''/p/logic'' ''srv-logic0000000001'' = ''/p/logic/srv-logic0000000001''"
    "join_path ''/k'' ''gate'' = ''/k/gate''" "str_to_int ''2'' = Some 2"
    by code_simp+
  show ?thesis
    by (simp add: bio_register_node_def create_my_nodes_def bio_create_parent_def exists_node_def zoo_def toy_zk_def toy_zoo_def
        toy_conf_def new_task_def new_side_def create_sequance_ephemeral_node_def create_ephemeral_node_def create_node_def
        set_node_def watch_children_event_def get_children_def watch_data_change_def get_node_def buffer_string_def z_defs path
        zoo_value_buf_len_def ZOO_SEQUENCE_def ZOO_EPHEMERAL_def Let_def)
qed

text \<open>
  C11. No task of the zookeeper client is lost, run twice or overtaken: however the main thread, the watcher
  and the background thread interleave, the answers handed out so far followed by the tasks on their
  way are the tasks on their way at the start followed by those submitted since, in that order.
\<close>

theorem zk_tasks_keep_their_order:
  assumes "bio_run (bio_process_cmd e mc) es (b, z, ans) = Some (b', z', ans')"
  shows "map task_key (ans' @ in_flight b') = map task_key (ans @ in_flight b) @ submitted es"
  by (rule zk_bio.run_keeps [OF assms])

definition idle_bio :: bio where
  "idle_bio = \<lparr>b_ready = True, b_stop_thread = False, b_thread = Some At_loop, b_req_tasks = [], b_ack_tasks = []\<rparr>"

lemma toy_run:
  "\<exists>b z ans. bio_run (bio_process_cmd (toy_zk ''{}'') toy_conf)
      [Ev_add ''/a'' ZK_GET [] 0, Ev_thread, Ev_thread, Ev_add ''/b'' NOTIFY_NODE_CREATED [] 0, Ev_thread, Ev_stop, Ev_thread, Ev_acks]
      (idle_bio, new_side, []) = Some (b, z, ans) \<and> map zt_path ans = [''/a''] \<and> map zt_path (in_flight b) = [''/b'']"
  by (simp add: idle_bio_def add_cmd_task_def thread_step_def new_task_def bio_process_cmd_def run_task_def
      watch_data_change_def get_node_def zoo_def toy_zk_def toy_zoo_def new_side_def z_defs buffer_string_def
      zoo_value_buf_len_def set_res_def add_ack_task_def fetch_acks_def fetch_loop_take MAX_ACKS_def bio_stop_def
      in_flight_def in_hand_def Let_def)

theorem zk_tasks_keep_their_order_witness:
  "\<exists>b z ans. bio_run (bio_process_cmd (toy_zk ''{}'') toy_conf)
      [Ev_add ''/a'' ZK_GET [] 0, Ev_thread, Ev_thread, Ev_add ''/b'' NOTIFY_NODE_CREATED [] 0, Ev_thread, Ev_stop, Ev_thread, Ev_acks]
      (idle_bio, new_side, []) = Some (b, z, ans)
    \<and> map task_key (ans @ in_flight b) = [(''/a'', [], ZK_GET), (''/b'', [], NOTIFY_NODE_CREATED)]"
proof -
  obtain b z ans where r: "bio_run (bio_process_cmd (toy_zk ''{}'') toy_conf)
      [Ev_add ''/a'' ZK_GET [] 0, Ev_thread, Ev_thread, Ev_add ''/b'' NOTIFY_NODE_CREATED [] 0, Ev_thread, Ev_stop, Ev_thread, Ev_acks]
      (idle_bio, new_side, []) = Some (b, z, ans)" using toy_run by (elim exE conjE)
  show ?thesis using r zk_tasks_keep_their_order [OF r] by (auto simp: idle_bio_def in_flight_def in_hand_def)
qed

text \<open>
  C34. Every task is answered: when no task crashes, the thread needs four passes per task, and the timer one
  tick per hundred answers, until all answers are handed out, in the order of submission.
\<close>

theorem zk_tasks_are_answered:
  assumes "idle b" and "\<And>t s. bio_process_cmd e mc t s \<noteq> None"
  shows "\<exists>b' z' ans'. bio_run (bio_process_cmd e mc)
      (replicate (4 * length (b_req_tasks b)) Ev_thread @ replicate (Suc (length (in_flight b) div 100)) Ev_acks) (b, z, ans)
        = Some (b', z', ans')
    \<and> in_flight b' = [] \<and> map task_key ans' = map task_key (ans @ in_flight b)"
proof -
  let ?r = "replicate (4 * length (b_req_tasks b)) Ev_thread" and ?n = "Suc (length (in_flight b) div 100)"
  obtain b1 z1 where 1: "bio_run (bio_process_cmd e mc) ?r (b, z, ans) = Some (b1, z1, ans)" "idle b1" "b_req_tasks b1 = []"
    "length (b_ack_tasks b1) = length (b_ack_tasks b) + length (b_req_tasks b)"
    using drain_reqs [of "bio_process_cmd e mc" b z ans, OF assms(2,1)] by (elim exE conjE)
  have "length (in_flight b) = length (b_ack_tasks b1)" using 1(4) assms(1) by (simp add: in_flight_def in_hand_def idle_def)
  then have "length (b_ack_tasks b1) \<le> ?n * MAX_ACKS"
    using dividend_less_times_div [of 100 "length (in_flight b)"] by (simp add: MAX_ACKS_def)
  from drain_acks [OF 1(2,3) this, of "bio_process_cmd e mc" z1 ans] obtain b2 ans2 where
    2: "bio_run (bio_process_cmd e mc) (replicate ?n Ev_acks) (b1, z1, ans) = Some (b2, z1, ans2)" "in_flight b2 = []"
    by (elim exE conjE)
  have run: "bio_run (bio_process_cmd e mc) (?r @ replicate ?n Ev_acks) (b, z, ans) = Some (b2, z1, ans2)"
    using 1(1) 2(1) by (simp add: bio_run_append del: replicate.simps)
  have "submitted (replicate n Ev_acks) = []" for n by (induction n) simp_all
  then have "submitted (replicate m Ev_thread @ replicate n Ev_acks) = []" for m n by (induction m) simp_all
  then have "map task_key ans2 = map task_key (ans @ in_flight b)"
    using zk_bio.run_keeps [OF run] 2(2) by (simp del: replicate.simps)
  then show ?thesis using run 2(2) by blast
qed

text \<open>A server that cannot be reached answers every call with \<open>ZCONNECTIONLOSS\<close>.\<close>

definition dead_zk :: zk_env where
  "dead_zk = (toy_zk [])\<lparr>ze_zoo := (\<lambda>_ _. \<lparr>za_rc = - 4, za_text = [], za_len = 0, za_data_len = 0, za_children = []\<rparr>)\<rparr>"

lemma dead_zk_total: "bio_process_cmd dead_zk toy_conf t s \<noteq> None"
  by (cases "zt_cmd t")
    (simp_all add: bio_process_cmd_def run_task_def bio_register_node_def create_my_nodes_def bio_create_parent_def exists_node_def
      watch_data_change_def get_node_def set_node_def watch_children_event_def get_children_def zoo_def dead_zk_def toy_zk_def
      toy_conf_def z_defs Let_def)

theorem zk_tasks_are_answered_witness:
  "\<exists>b' z' ans'. bio_run (bio_process_cmd dead_zk toy_conf) (replicate 4 Ev_thread @ [Ev_acks])
      (idle_bio\<lparr>b_req_tasks := [new_task ''/a'' ZK_GET [] 0]\<rparr>, new_side, []) = Some (b', z', ans')
    \<and> map task_key ans' = [(''/a'', [], ZK_GET)]"
proof -
  let ?b = "idle_bio\<lparr>b_req_tasks := [new_task ''/a'' ZK_GET [] 0]\<rparr>"
  have i: "idle ?b" by (simp add: idle_def idle_bio_def)
  have f: "in_flight ?b = [new_task ''/a'' ZK_GET [] 0]" by (simp add: in_flight_def in_hand_def idle_bio_def)
  have n: "length (b_req_tasks ?b) = 1" "length (in_flight ?b) div 100 = 0" by (simp_all add: f)
  obtain b' z' ans' where "bio_run (bio_process_cmd dead_zk toy_conf)
      (replicate (4 * length (b_req_tasks ?b)) Ev_thread @ replicate (Suc (length (in_flight ?b) div 100)) Ev_acks) (?b, new_side, [])
        = Some (b', z', ans')" "map task_key ans' = map task_key ([] @ in_flight ?b)"
    using zk_tasks_are_answered [OF i, of dead_zk toy_conf new_side "[]", OF dead_zk_total] by (elim exE conjE)
  then show ?thesis unfolding f n by (simp add: task_key_def new_task_def)
qed

text \<open>
  Stopping the client is not immediate and not complete: after \<open>bio_stop\<close> the thread takes one more task
  if it is waiting for one, and none otherwise; what is queued behind is never run.
\<close>

lemma stopped_client_takes_one_task:
  assumes "bio_run (bio_process_cmd e mc) es (bio_stop b, z, ans) = Some (b', z', ans')"
  shows "length ans' + length (b_ack_tasks b') + length (in_hand b')
    \<le> length ans + length (b_ack_tasks b) + length (in_hand b) + (if b_thread b = Some Waiting then 1 else 0)"
proof -
  have "taken b' ans' + last_take b' \<le> taken (bio_stop b) ans + last_take (bio_stop b)"
    by (rule stopped_thread_takes_one [OF assms]) (simp add: bio_stop_def)
  then show ?thesis by (simp add: taken_def last_take_def in_hand_def bio_stop_def)
qed

end
