(* ===== verification/Net_State.thy ===== *)
theory Net_State
  imports Connection Session_Mgr Nodes_Mgr Worker_Data Chanel Redis_Pool Db_Mgr Zk_Register
begin

text \<open>
  The state of a server process, the class \<open>Network\<close> of \<open>src/core/network.cpp\<close>, with its tables of
  connections and of running commands, and the operations that open and close connections.

  The environment is a \<open>world\<close>: one function per system call, indexed by \<open>n_tick\<close>, a counter that
  every call advances, so that the answers of the kernel to successive calls are arbitrary. What
  the process does outside is the list \<open>n_trace\<close>.

  The relation \<open>evolves\<close> says what every operation of the process keeps: the invariant of the
  connection table, the order of the ids, and the history.

  A \<open>Connection*\<close> is the pair of the descriptor and the connection's id. Reading through it looks
  the connection up under the descriptor and compares the id: \<open>get_conn\<close>. When the connection has
  been deleted there is no such entry, and an operation that dereferences the pointer has the
  result \<open>None\<close>. Log statements are not modelled.
\<close>

section \<open>Data\<close>

type_synonym fd_t = "int \<times> nat"

record request =
  rq_fd_data :: fd_t
  rq_is_http :: bool
  rq_head :: msg_head
  rq_body :: msg_body
  rq_http :: http_msg

text \<open>
  A command of a user's module (\<open>src/core/cmd.h\<close>): the data its base classes keep, and in \<open>k_vars\<close> the
  members that the user's class adds, by name.
\<close>

record cmd =
  k_id :: nat
  k_name :: string
  k_step :: int
  k_req :: request
  k_timer :: "ev_timer option"
  k_active_time :: real
  k_keep_alive :: real
  k_cur_timeout_cnt :: int
  k_max_timeout_cnt :: int
  k_vars :: "(string \<times> string) list"

datatype net_type = NT_UNKNOWN | NT_MANAGER | NT_WORKER

text \<open>What the process does to the outside: \<open>E_xfer\<close> is a message on a channel with its descriptor.\<close>

datatype effect =
    E_out int string
  | E_close int
  | E_xfer int channel_t
  | E_exit int
  | E_kill int

text \<open>A loaded module; its code is a user's, \<open>mo_handle\<close> is what \<open>dlopen\<close> returned.\<close>

record module_t =
  mo_id :: nat
  mo_name :: string
  mo_path :: string
  mo_handle :: nat

text \<open>\<open>n_module_mgr\<close> and \<open>n_zk\<close>: the manager of the modules and the zookeeper client, \<open>None\<close> for a null pointer.\<close>

record network =
  n_type :: net_type
  n_seq :: nat
  n_conns :: "(int \<times> connection) list"
  n_node_conns :: "(string \<times> fd_t) list"
  n_cmds :: "(nat \<times> cmd) list"
  n_wait_send_fds :: "(channel_t \<times> int) list"
  n_worker_data :: worker_data
  n_nodes :: nodes
  n_sessions :: sessions
  n_payload :: payload
  n_events :: events
  n_module_mgr :: "(nat \<times> module_t) list option"
  n_redis_pool :: redis_mgr
  n_db_pool :: db_mgr
  n_zk :: "zk_client option"
  n_node_type :: string
  n_node_host :: string
  n_gate_host :: string
  n_node_port :: int
  n_gate_port :: int
  n_worker_index :: int
  n_node_host_fd :: int
  n_gate_host_fd :: int
  n_manager_ctrl_fd :: int
  n_manager_data_fd :: int
  n_keep_alive :: real
  n_gate_codec :: codec_type
  n_timer_index :: int
  n_tick :: nat
  n_trace :: "effect list"

text \<open>
  The messages \<open>register_node\<close> and \<open>target_node\<close> (\<open>protobuf/sys/nodes.proto\<close>), \<open>NodeData\<close> and
  \<open>PayloadStats\<close> (\<open>protobuf/sys/payload.proto\<close>), and the protobuf runtime for them;
  \<open>sl_reply_json\<close> prints the object with the fields \<open>code\<close>, \<open>msg\<close> and, if given, \<open>data\<close>;
  \<open>sl_json_get\<close> reads a text as an object and gives a member of it, empty when it has none.
\<close>

record register_node =
  rn_version :: nat
  rn_my_zk_path :: string
  rn_nodes :: "zk_node list"

record target_node =
  tn_node_type :: string
  tn_ip :: string
  tn_port :: nat
  tn_worker_index :: nat

record node_data =
  nd_zk_path :: string
  nd_node_type :: string
  nd_node_host :: string
  nd_node_port :: nat
  nd_gate_host :: string
  nd_gate_port :: nat
  nd_worker_cnt :: nat

record payload_stats =
  ps_node :: node_data
  ps_manager :: payload
  ps_workers :: "payload list"

record sys_lib =
  sl_ser_zk :: "zk_node \<Rightarrow> string"
  sl_parse_zk :: "string \<Rightarrow> zk_node option"
  sl_ser_reg :: "register_node \<Rightarrow> string"
  sl_parse_reg :: "string \<Rightarrow> register_node option"
  sl_ser_target :: "target_node \<Rightarrow> string"
  sl_parse_target :: "string \<Rightarrow> target_node option"
  sl_ser_payload :: "payload \<Rightarrow> string"
  sl_parse_payload :: "string \<Rightarrow> payload option"
  sl_stats_to_json :: "payload_stats \<Rightarrow> string option"
  sl_reply_json :: "int \<Rightarrow> string \<Rightarrow> (string \<times> string) list option \<Rightarrow> string"
  sl_json_get :: "string \<Rightarrow> string \<Rightarrow> string"

text \<open>
  The kernel and the libraries. \<open>w_sockopt\<close>: a socket option is set; \<open>w_mem\<close>: \<open>malloc\<close> finds room for
  a watcher; \<open>w_accept\<close>: a new descriptor and its family; \<open>w_connect\<close>: a descriptor or -1. The clients of
  redis and of the database: \<open>w_redis\<close> is the result of a connect and whether the context is attached,
  its error and whether a command is taken; \<open>w_db_begin\<close> the first key of the table of databases.
\<close>

record world =
  w_pb :: proto_lib
  w_sys :: sys_lib
  w_hl :: http_lib
  w_al :: allocator
  w_md5 :: "string \<Rightarrow> string"
  w_now :: "nat \<Rightarrow> real"
  w_lag :: "nat \<Rightarrow> real"
  w_send :: "nat \<Rightarrow> send_res"
  w_recv :: "nat \<Rightarrow> recv_res"
  w_sockopt :: "nat \<Rightarrow> bool"
  w_mem :: "nat \<Rightarrow> bool"
  w_accept :: "nat \<Rightarrow> (int \<times> int) option"
  w_connect :: "nat \<Rightarrow> int"
  w_sendmsg :: "nat \<Rightarrow> sendmsg_res"
  w_recvmsg :: "nat \<Rightarrow> recvmsg_res"
  w_redis :: "nat \<Rightarrow> rds_connect_res \<times> bool \<times> int \<times> bool"
  w_mysql :: "nat \<Rightarrow> mysql_lib"
  w_db_begin :: "string list \<Rightarrow> string"
  w_zk :: zk_env

definition tick :: "network \<Rightarrow> network" where
  "tick s = s\<lparr>n_tick := Suc (n_tick s)\<rparr>"

definition emit :: "effect \<Rightarrow> network \<Rightarrow> network" where
  "emit e s = s\<lparr>n_trace := n_trace s @ [e]\<rparr>"

definition now :: "world \<Rightarrow> network \<Rightarrow> real" where
  "now w s = w_now w (n_tick s)"

text \<open>\<open>++m_seq\<close> on a \<open>uint64_t\<close>; the counter \<open>n_tick\<close> goes with it.\<close>

definition new_seq :: "network \<Rightarrow> nat \<times> network" where
  "new_seq s = (let q = (n_seq s + 1) mod 2 ^ 64 in (q, (tick s)\<lparr>n_seq := q\<rparr>))"

definition is_worker :: "network \<Rightarrow> bool" where
  "is_worker s \<longleftrightarrow> n_type s = NT_WORKER"

definition is_manager :: "network \<Rightarrow> bool" where
  "is_manager s \<longleftrightarrow> n_type s = NT_MANAGER"

section \<open>Connections\<close>

definition get_conn :: "network \<Rightarrow> fd_t \<Rightarrow> connection option" where
  "get_conn s f =
     (case map_of (n_conns s) (fst f) of
        None \<Rightarrow> None
      | Some c \<Rightarrow> if c_id c \<noteq> snd f then None else Some c)"

definition fd_data :: "connection \<Rightarrow> fd_t" where
  "fd_data c = (c_fd c, c_id c)"

definition put_conn :: "connection \<Rightarrow> network \<Rightarrow> network" where
  "put_conn c s = s\<lparr>n_conns := uset (n_conns s) (c_fd c) c\<rparr>"

definition check_conn :: "network \<Rightarrow> int \<Rightarrow> bool" where
  "check_conn s fd = (case map_of (n_conns s) fd of None \<Rightarrow> False | Some c \<Rightarrow> \<not> is_invalid c)"

definition close_fd :: "int \<Rightarrow> network \<Rightarrow> network" where
  "close_fd fd s = emit (E_close fd) s"

definition close_conn :: "int \<Rightarrow> network \<Rightarrow> bool \<times> network" where
  "close_conn fd s =
     (if fd = - 1 then (False, s)
      else case map_of (n_conns s) fd of
             None \<Rightarrow> (False, s)
           | Some c \<Rightarrow>
               let s = (if c_node_id c \<noteq> [] then s\<lparr>n_node_conns := uerase (n_node_conns s) (c_node_id c)\<rparr> else s);
                   s = close_fd fd s
               in (True, s\<lparr>n_conns := uerase (n_conns s) fd\<rparr>))"

definition create_conn :: "world \<Rightarrow> int \<Rightarrow> network \<Rightarrow> fd_t \<times> network" where
  "create_conn w fd s =
     (let s = (if map_of (n_conns s) fd \<noteq> None then snd (close_conn fd s) else s);
          (q, s) = new_seq s;
          c = (new_connection fd q (now w s))\<lparr>c_keep_alive := n_keep_alive s\<rparr>
      in ((fd, q), put_conn c s))"

text \<open>The result is the new connection's pointer, or \<open>None\<close> for \<open>nullptr\<close>.\<close>

definition net_add_read_event ::
  "world \<Rightarrow> int \<Rightarrow> codec_type \<Rightarrow> bool \<Rightarrow> network \<Rightarrow> fd_t option \<times> network" where
  "net_add_read_event w fd codec is_chanel s =
     (if \<not> w_sockopt w (n_tick s) then (None, tick s)
      else
        let s = tick s in
        if \<not> is_chanel \<and> \<not> w_sockopt w (n_tick s) then (None, tick s)
        else
          let s = (if is_chanel then s else tick s) in
          if \<not> is_chanel \<and> \<not> w_sockopt w (n_tick s) then (None, tick s)
          else
            let s = (if is_chanel then s else tick s);
                (r, s) = create_conn w fd s
            in case get_conn s r of
                 None \<Rightarrow> (None, s)
               | Some c \<Rightarrow>
                   let c = snd (conn_init codec (now w s) c);
                       c = c\<lparr>c_active_time := now w s, c_state := S_CONNECTED\<rparr>
                   in case add_read_event (n_events s) (w_mem w (n_tick s)) fd (c_ev_io c) of
                        None \<Rightarrow> (None, tick (put_conn c s))
                      | Some io \<Rightarrow>
                          let c = c\<lparr>c_ev_io := Some io, c_is_system := (is_chanel \<or> c_is_system c)\<rparr>
                          in (Some r, tick (put_conn c s)))"

definition update_conn_state :: "int \<Rightarrow> conn_state \<Rightarrow> network \<Rightarrow> bool \<times> network" where
  "update_conn_state fd st s =
     (case map_of (n_conns s) fd of
        None \<Rightarrow> (False, s)
      | Some c \<Rightarrow> (True, s\<lparr>n_conns := uset (n_conns s) fd (c\<lparr>c_state := st\<rparr>)\<rparr>))"

text \<open>The node id is entered in the table, but not in the connection.\<close>

definition add_client_conn :: "string \<Rightarrow> fd_t \<Rightarrow> network \<Rightarrow> bool \<times> network" where
  "add_client_conn node_id f s =
     (case get_conn s f of
        None \<Rightarrow> (False, s)
      | Some c \<Rightarrow> (True, s\<lparr>n_node_conns := uset (n_node_conns s) node_id f\<rparr>))"

definition net_add_io_timer :: "world \<Rightarrow> fd_t \<Rightarrow> real \<Rightarrow> network \<Rightarrow> (bool \<times> network) option" where
  "net_add_io_timer w r secs s =
     do {
       c \<leftarrow> get_conn s r;
       case add_io_timer (n_events s) (w_mem w (n_tick s)) (w_lag w (n_tick s)) secs (c_timer c) of
         None \<Rightarrow> Some (False, snd (close_conn (fst r) (tick s)))
       | Some t \<Rightarrow> Some (True, tick (put_conn (c\<lparr>c_timer := Some t\<rparr>) s))
     }"

section \<open>Commands\<close>

text \<open>The time out of a command in seconds (\<open>src/core/server.h\<close>).\<close>

definition CMD_TIMEOUT_VAL :: real where "CMD_TIMEOUT_VAL = 3"

definition new_cmd :: "world \<Rightarrow> nat \<Rightarrow> string \<Rightarrow> request \<Rightarrow> network \<Rightarrow> cmd" where
  "new_cmd w i name req s =
     \<lparr>k_id = i, k_name = name, k_step = 0, k_req = req, k_timer = None, k_active_time = now w s, k_keep_alive = CMD_TIMEOUT_VAL,
      k_cur_timeout_cnt = 0, k_max_timeout_cnt = CMD_MAX_TIMEOUT_CNT, k_vars = []\<rparr>"

definition add_cmd :: "cmd \<Rightarrow> network \<Rightarrow> bool \<times> network" where
  "add_cmd k s =
     (if map_of (n_cmds s) (k_id k) \<noteq> None then (False, s)
      else (True, s\<lparr>n_cmds := uset (n_cmds s) (k_id k) k\<rparr>))"

definition get_cmd :: "network \<Rightarrow> nat \<Rightarrow> cmd option" where
  "get_cmd s i = map_of (n_cmds s) i"

definition put_cmd :: "cmd \<Rightarrow> network \<Rightarrow> network" where
  "put_cmd k s = s\<lparr>n_cmds := uset (n_cmds s) (k_id k) k\<rparr>"

definition del_cmd :: "nat \<Rightarrow> network \<Rightarrow> bool \<times> network" where
  "del_cmd i s =
     (if map_of (n_cmds s) i = None then (False, s)
      else (True, s\<lparr>n_cmds := uerase (n_cmds s) i\<rparr>))"

text \<open>\<open>Cmd::on_timeout\<close> and the step counter of \<open>Cmd\<close>, for commands that do not override them.\<close>

definition cmd_on_timeout :: "cmd \<Rightarrow> cmd_status \<times> cmd" where
  "cmd_on_timeout k =
     (let k = k\<lparr>k_cur_timeout_cnt := k_cur_timeout_cnt k + 1\<rparr>
      in (if k_cur_timeout_cnt k < k_max_timeout_cnt k then ST_RUNNING else ST_ERROR, k))"

definition set_next_step :: "int \<Rightarrow> cmd \<Rightarrow> cmd" where
  "set_next_step step k = k\<lparr>k_step := (if step \<noteq> - 1 then step else k_step k + 1)\<rparr>"

section \<open>The invariant of the connection table\<close>

text \<open>
  A connection is stored under its descriptor and its id was drawn from the sequence; a command is
  stored under its id.
\<close>

definition conns_inv :: "network \<Rightarrow> bool" where
  "conns_inv s \<longleftrightarrow>
     distinct (ukeys (n_conns s)) \<and> distinct (ukeys (n_node_conns s)) \<and> distinct (ukeys (n_cmds s))
     \<and> (\<forall>fd c. map_of (n_conns s) fd = Some c \<longrightarrow> c_fd c = fd \<and> c_id c \<le> n_seq s)
     \<and> (\<forall>k c. map_of (n_cmds s) k = Some c \<longrightarrow> k_id c = k)"

lemma conns_invI:
  assumes "distinct (ukeys (n_conns s))" and "distinct (ukeys (n_node_conns s))" and "distinct (ukeys (n_cmds s))"
    and "\<And>fd c. map_of (n_conns s) fd = Some c \<Longrightarrow> c_fd c = fd \<and> c_id c \<le> n_seq s"
    and "\<And>k c. map_of (n_cmds s) k = Some c \<Longrightarrow> k_id c = k"
  shows "conns_inv s"
  using assms unfolding conns_inv_def by blast

lemma conns_invD:
  assumes "conns_inv s"
  shows "distinct (ukeys (n_conns s))" and "distinct (ukeys (n_node_conns s))" and "distinct (ukeys (n_cmds s))"
    and "map_of (n_conns s) fd = Some c \<Longrightarrow> c_fd c = fd \<and> c_id c \<le> n_seq s"
    and "map_of (n_cmds s) k = Some d \<Longrightarrow> k_id d = k"
  using assms unfolding conns_inv_def by blast+

lemma get_conn_Some:
  "conns_inv s \<Longrightarrow> get_conn s f = Some c \<longleftrightarrow> map_of (n_conns s) (fst f) = Some c \<and> fd_data c = f"
  using conns_invD(4) by (cases f) (fastforce simp: get_conn_def fd_data_def split: option.splits if_splits)

lemma conns_inv_seq: "conns_inv s \<Longrightarrow> get_conn s f = Some c \<Longrightarrow> snd f \<le> n_seq s"
  using conns_invD(4) get_conn_Some unfolding fd_data_def by (metis snd_conv)

section \<open>What every operation keeps\<close>

text \<open>
  \<open>seq_room s s'\<close>: the 64-bit sequence does not wrap on the way from \<open>s\<close> to \<open>s'\<close>. Then ids only grow, a
  connection of \<open>s'\<close> with an id that \<open>s\<close> had already given away is the same connection of \<open>s\<close>, and
  the trace is only extended; in any case the roster of the workers and the callbacks stay. With \<open>b\<close> the operation reads from no connection either: the receive
  buffers are what they were. \<open>key b c\<close> is the part of a connection that has to stay.
\<close>

definition key :: "bool \<Rightarrow> connection \<Rightarrow> fd_t \<times> socket_buffer option" where
  "key b c = (fd_data c, if b then c_recv_buf c else None)"

lemma key_id: "key b c = key b c' \<Longrightarrow> c_fd c = c_fd c' \<and> c_id c = c_id c'"
  by (simp add: key_def fd_data_def)

definition seq_room :: "network \<Rightarrow> network \<Rightarrow> bool" where
  "seq_room s s' \<longleftrightarrow> n_seq s + (n_tick s' - n_tick s) < 2 ^ 64"

text \<open>The operations of a connection keep its identity, and all but the reads keep the receive buffer.\<close>

lemma key_simps [simp]:
  "key b (c\<lparr>c_ev_io := a\<rparr>) = key b c" "key b (c\<lparr>c_codec := d\<rparr>) = key b c"
  "key b (c\<lparr>c_is_system := e\<rparr>) = key b c" "key b (c\<lparr>c_errno := f\<rparr>) = key b c"
  "key b (c\<lparr>c_state := g\<rparr>) = key b c"
  "key b (c\<lparr>c_send_buf := h\<rparr>) = key b c" "key b (c\<lparr>c_wait_send_buf := h\<rparr>) = key b c"
  "key b (c\<lparr>c_node_id := i\<rparr>) = key b c" "key b (c\<lparr>c_read_cnt := j\<rparr>) = key b c"
  "key b (c\<lparr>c_read_bytes := k\<rparr>) = key b c" "key b (c\<lparr>c_write_cnt := j\<rparr>) = key b c"
  "key b (c\<lparr>c_write_bytes := k\<rparr>) = key b c" "key b (c\<lparr>c_timer := l\<rparr>) = key b c"
  "key b (c\<lparr>c_active_time := m\<rparr>) = key b c" "key b (c\<lparr>c_keep_alive := m\<rparr>) = key b c"
  "key False (c\<lparr>c_recv_buf := h\<rparr>) = key False c"
  by (simp_all add: key_def fd_data_def)

lemma key_init [simp]: "key b (snd (conn_init codec t c)) = key b c"
  by (simp add: conn_init_def split: codec_type.split)

lemma key_write: "conn_write al sr t c = (st, out, c') \<Longrightarrow> key b c' = key b c"
  by (auto simp: conn_write_def Let_def split: if_splits option.splits prod.splits)

lemma key_encode: "encode_to pb al head body wait c = (st, c') \<Longrightarrow> key b c' = key b c"
  by (auto simp: encode_to_def Let_def split: if_splits prod.splits)

lemma key_write_proto: "conn_write_proto pb al sr t head body c = (st, out, c') \<Longrightarrow> key b c' = key b c"
  using key_write key_encode by (fastforce simp: conn_write_proto_def split: prod.splits if_splits)

lemma key_write_http: "conn_write_http hl al sr t msg c = Some (st, out, c') \<Longrightarrow> key b c' = key b c"
  using key_write by (fastforce simp: conn_write_http_def Let_def split: conn_codec.splits prod.splits if_splits)

lemma key_waiting: "conn_write_waiting pb al head body c = (st, c') \<Longrightarrow> key b c' = key b c"
  by (simp add: conn_write_waiting_def key_encode)

lemma key_read: "conn_read al rr t c = (st, c') \<Longrightarrow> key False c' = key False c"
  by (auto simp: conn_read_def Let_def split: if_splits prod.splits)

lemma key_decode_proto: "decode_proto pb c head body = Some (st, head', body', c') \<Longrightarrow> key False c' = key False c"
  by (auto simp: decode_proto_def split: if_splits option.splits)

lemma key_decode_http: "decode_http hl c msg = Some (st, msg', c') \<Longrightarrow> key False c' = key False c"
  by (cases "http_decode hl (the (c_recv_buf c)) msg (the_http (c_codec c))")
    (auto simp: decode_http_def Let_def split: conn_codec.splits)

lemma key_read_proto: "conn_read_proto pb al rr t c head body = Some (st, head', body', c') \<Longrightarrow> key False c' = key False c"
  using key_read key_decode_proto by (fastforce simp: conn_read_proto_def split: prod.splits if_splits)

lemma key_read_http: "conn_read_http hl al rr t c msg = Some (st, msg', c') \<Longrightarrow> key False c' = key False c"
  using key_read key_decode_http by (fastforce simp: conn_read_http_def split: prod.splits if_splits)

lemma key_fetch_proto: "fetch_data_proto pb c head body = Some (st, head', body', c') \<Longrightarrow> key False c' = key False c"
  using key_decode_proto by (fastforce simp: fetch_data_proto_def split: if_splits)

lemma key_fetch_http: "fetch_data_http hl c msg = Some (st, msg', c') \<Longrightarrow> key False c' = key False c"
  using key_decode_http by (fastforce simp: fetch_data_http_def split: if_splits)

definition evolves_ok :: "bool \<Rightarrow> network \<Rightarrow> network \<Rightarrow> bool" where
  "evolves_ok b s s' \<longleftrightarrow>
     conns_inv s' \<and> n_seq s \<le> n_seq s' \<and> n_seq s' \<le> n_seq s + (n_tick s' - n_tick s)
     \<and> (\<forall>fd c'. map_of (n_conns s') fd = Some c' \<and> c_id c' \<le> n_seq s \<longrightarrow>
          (\<exists>c. map_of (n_conns s) fd = Some c \<and> key b c = key b c'))
     \<and> (\<exists>es. n_trace s' = n_trace s @ es)"

definition evolves :: "bool \<Rightarrow> network \<Rightarrow> network \<Rightarrow> bool" where
  "evolves b s s' \<longleftrightarrow> n_type s' = n_type s \<and> n_tick s \<le> n_tick s' \<and> roster (n_worker_data s') = roster (n_worker_data s)
     \<and> n_events s' = n_events s
     \<and> (conns_inv s \<and> seq_room s s' \<longrightarrow> evolves_ok b s s')"

lemma evolves_okD:
  assumes "evolves_ok b s s'"
  shows "conns_inv s'" and "n_seq s \<le> n_seq s'" and "n_seq s' \<le> n_seq s + (n_tick s' - n_tick s)"
    and "map_of (n_conns s') fd = Some c' \<Longrightarrow> c_id c' \<le> n_seq s \<Longrightarrow>
      \<exists>c. map_of (n_conns s) fd = Some c \<and> key b c = key b c'"
    and "\<exists>es. n_trace s' = n_trace s @ es"
  using assms unfolding evolves_ok_def by blast+

lemma evolves_okI:
  assumes "conns_inv s'" and "n_seq s \<le> n_seq s'" and "n_seq s' \<le> n_seq s + (n_tick s' - n_tick s)"
    and "\<And>fd c'. map_of (n_conns s') fd = Some c' \<Longrightarrow> c_id c' \<le> n_seq s \<Longrightarrow>
      \<exists>c. map_of (n_conns s) fd = Some c \<and> key b c = key b c'"
    and "\<exists>es. n_trace s' = n_trace s @ es"
  shows "evolves_ok b s s'"
  using assms unfolding evolves_ok_def by blast

lemma evolves_refl [simp, intro]: "evolves b s s"
  by (simp add: evolves_def evolves_ok_def)

lemma seq_room_parts:
  assumes "n_tick s \<le> n_tick t" and "n_tick t \<le> n_tick u" and "seq_room s u"
  shows "seq_room s t" and "n_seq t \<le> n_seq s + (n_tick t - n_tick s) \<Longrightarrow> seq_room t u"
  using assms by (auto simp: seq_room_def)

lemma evolves_ok_trans:
  assumes "evolves_ok b s t" and "evolves_ok b t u" and "n_tick s \<le> n_tick t" and "n_tick t \<le> n_tick u"
  shows "evolves_ok b s u"
proof (rule evolves_okI)
  note s = evolves_okD [OF assms(1)] and t = evolves_okD [OF assms(2)]
  show "conns_inv u" by (rule t)
  show "n_seq s \<le> n_seq u" using s(2) t(2) by simp
  show "n_seq u \<le> n_seq s + (n_tick u - n_tick s)" using s(3) t(3) assms(3,4) by simp
  fix fd c' assume u: "map_of (n_conns u) fd = Some c'" and le: "c_id c' \<le> n_seq s"
  have "c_id c' \<le> n_seq t" using le s(2) by simp
  from t(4) [OF u this] obtain c where c: "map_of (n_conns t) fd = Some c" "key b c = key b c'" by blast
  then have "c_id c \<le> n_seq s" using le key_id by metis
  from s(4) [OF c(1) this] show "\<exists>c. map_of (n_conns s) fd = Some c \<and> key b c = key b c'" using c(2) by simp
next
  show "\<exists>es. n_trace u = n_trace s @ es"
    using evolves_okD(5) [OF assms(1)] evolves_okD(5) [OF assms(2)] by (metis append.assoc)
qed

lemma evolves_trans [trans]:
  assumes "evolves b s t" and "evolves b t u"
  shows "evolves b s u"
proof -
  have tick: "n_tick s \<le> n_tick t" "n_tick t \<le> n_tick u" using assms by (simp_all add: evolves_def)
  have "evolves_ok b s u" if "conns_inv s" "seq_room s u"
  proof -
    have 1: "evolves_ok b s t" using assms(1) that seq_room_parts(1) [OF tick that(2)] by (simp add: evolves_def)
    have "seq_room t u" by (rule seq_room_parts(2) [OF tick that(2) evolves_okD(3) [OF 1]])
    then have "evolves_ok b t u" using assms(2) evolves_okD(1) [OF 1] by (simp add: evolves_def)
    then show ?thesis using evolves_ok_trans 1 tick by blast
  qed
  then show ?thesis using assms tick by (simp add: evolves_def)
qed

text \<open>A state that differs only in fields the relation does not look at.\<close>

lemma evolves_same:
  assumes "evolves b s t" and "n_conns u = n_conns t" and "n_cmds u = n_cmds t" and "n_type u = n_type t"
    and "n_seq u = n_seq t" and "n_tick t \<le> n_tick u" and "\<exists>es. n_trace u = n_trace t @ es"
    and "distinct (ukeys (n_node_conns t)) \<longrightarrow> distinct (ukeys (n_node_conns u))"
    and "roster (n_worker_data u) = roster (n_worker_data t)" and "n_events u = n_events t"
  shows "evolves b s u"
proof (rule evolves_trans [OF assms(1)])
  have "evolves_ok b t u" if "conns_inv t"
  proof (rule evolves_okI)
    show "conns_inv u" using that assms(2-) unfolding conns_inv_def by (simp del: map_of_eq_Some_iff)
    show "\<exists>es. n_trace u = n_trace t @ es" by fact
  qed (use assms(2,5,6) in simp_all)
  then show "evolves b t u" using assms(4,6,9,10) by (simp add: evolves_def)
qed

lemma evolves_put_conn:
  assumes "evolves b s t" and "get_conn t f = Some c0" and "key b c = key b c0"
  shows "evolves b s (put_conn c t)"
proof (rule evolves_trans [OF assms(1)])
  have "evolves_ok b t (put_conn c t)" if inv: "conns_inv t"
  proof -
    have c0: "map_of (n_conns t) (c_fd c) = Some c0" "c_id c = c_id c0" "c_fd c0 = c_fd c"
      using iffD1 [OF get_conn_Some [OF inv] assms(2)] key_id [OF assms(3)] by (auto simp: fd_data_def)
    have "conns_inv (put_conn c t)"
      using conns_invD [OF inv] c0 by (intro conns_invI) (auto simp: put_conn_def simp del: map_of_eq_Some_iff split: if_splits)
    then show ?thesis
      using c0 assms(3) by (auto simp: evolves_ok_def put_conn_def simp del: map_of_eq_Some_iff split: if_splits)
  qed
  then show "evolves b t (put_conn c t)" by (simp add: evolves_def put_conn_def)
qed

section \<open>The primitives evolve\<close>

text \<open>\<open>evolves_opt b s r\<close>: every result of an operation started in \<open>s\<close>, if it has one.\<close>

definition evolves_opt :: "bool \<Rightarrow> network \<Rightarrow> ('a \<times> network) option \<Rightarrow> bool" where
  "evolves_opt b s r \<longleftrightarrow> (case r of None \<Rightarrow> True | Some (_, s') \<Rightarrow> evolves b s s')"

lemma evolves_opt_simps [simp]:
  "evolves_opt b s None" "evolves_opt b s (Some (x, s')) \<longleftrightarrow> evolves b s s'"
  by (simp_all add: evolves_opt_def)

lemma evolves_opt_SomeI: "evolves b s (snd p) \<Longrightarrow> evolves_opt b s (Some p)"
  by (cases p) simp

lemma evolves_opt_bind:
  "evolves_opt b s m \<Longrightarrow> (\<And>x s'. m = Some (x, s') \<Longrightarrow> evolves b s s' \<Longrightarrow> evolves_opt b s (f (x, s'))) \<Longrightarrow>
    evolves_opt b s (m \<bind> f)"
  by (cases m) auto

lemma evolves_opt_bind_pure:
  "(\<And>x. m = Some x \<Longrightarrow> evolves_opt b s (f x)) \<Longrightarrow> evolves_opt b s (m \<bind> f)"
  by (cases m) auto

lemma evolves_opt_map:
  "evolves_opt b s m \<Longrightarrow> (\<And>x s'. m = Some (x, s') \<Longrightarrow> evolves b s s' \<Longrightarrow> evolves b s (snd (f (x, s')))) \<Longrightarrow>
    evolves_opt b s (map_option f m)"
  by (cases m) (auto simp: evolves_opt_def split: prod.splits)

lemma evolves_opt_trans: "evolves b s t \<Longrightarrow> evolves_opt b t r \<Longrightarrow> evolves_opt b s r"
  by (auto simp: evolves_opt_def split: option.splits intro: evolves_trans)

lemma evolves_tick: "evolves b s t \<Longrightarrow> evolves b s (tick t)"
  by (erule evolves_same) (simp_all add: tick_def)

lemma evolves_emit: "evolves b s t \<Longrightarrow> evolves b s (emit e t)"
  by (erule evolves_same) (simp_all add: emit_def)

lemma get_conn_other [simp]:
  "get_conn (tick s) f = get_conn s f" "get_conn (emit e s) f = get_conn s f"
  "get_conn (s\<lparr>n_payload := p\<rparr>) f = get_conn s f" "get_conn (s\<lparr>n_node_conns := nc\<rparr>) f = get_conn s f"
  "get_conn (s\<lparr>n_nodes := ns\<rparr>) f = get_conn s f" "get_conn (s\<lparr>n_worker_data := wd\<rparr>) f = get_conn s f"
  by (simp_all add: get_conn_def tick_def emit_def)

lemma get_conn_put [simp]: "get_conn (put_conn c s) (fd_data c) = Some c"
  by (simp add: get_conn_def put_conn_def fd_data_def)

lemma get_conn_put': "f = fd_data c \<Longrightarrow> get_conn (put_conn c s) f = Some c"
  by simp

lemma evolves_drop_conns:
  assumes "evolves b s t"
  shows "evolves b s (t\<lparr>n_conns := uerase (n_conns t) fd\<rparr>)"
proof (rule evolves_trans [OF assms])
  have "evolves_ok b t (t\<lparr>n_conns := uerase (n_conns t) fd\<rparr>)" if inv: "conns_inv t"
    using conns_invD [OF inv]
    by (intro evolves_okI conns_invI) (auto simp del: map_of_eq_Some_iff split: if_splits)
  then show "evolves b t (t\<lparr>n_conns := uerase (n_conns t) fd\<rparr>)" by (simp add: evolves_def)
qed

lemma evolves_close_conn: "evolves b s t \<Longrightarrow> evolves b s (snd (close_conn fd t))"
proof -
  assume st: "evolves b s t"
  have 1: "evolves b s (t\<lparr>n_node_conns := uerase (n_node_conns t) k\<rparr>)" for k
    by (rule evolves_same [OF st]) simp_all
  show ?thesis
    using st 1 evolves_drop_conns [OF evolves_emit]
    by (auto simp: close_conn_def close_fd_def Let_def split: option.splits)
qed

lemma create_conn_result: "create_conn w fd s = (r, s') \<Longrightarrow> \<exists>q c. r = (fd, q) \<and> get_conn s' r = Some c \<and> fd_data c = r"
  by (auto simp: create_conn_def new_seq_def Let_def put_conn_def get_conn_def fd_data_def new_connection_def)

lemma evolves_new_conn:
  assumes "evolves b s t" and "new_seq t = (q, u)" and "fd_data c = (fd, q)"
  shows "evolves b s (put_conn c u)"
proof (rule evolves_trans [OF assms(1)])
  have u: "u = (tick t)\<lparr>n_seq := (n_seq t + 1) mod 2 ^ 64\<rparr>" "q = (n_seq t + 1) mod 2 ^ 64"
    using assms(2) by (auto simp: new_seq_def Let_def)
  have c: "c_fd c = fd" "c_id c = q" using assms(3) by (simp_all add: fd_data_def)
  have "evolves_ok b t (put_conn c u)" if inv: "conns_inv t" and room: "seq_room t (put_conn c u)"
  proof -
    have "n_seq t + 1 < 2 ^ 64" using room u by (simp add: seq_room_def put_conn_def tick_def)
    then have q: "q = n_seq t + 1" "n_seq u = q" using u by simp_all
    have seq: "n_seq (put_conn c u) = q" "n_conns (put_conn c u) = uset (n_conns t) fd c"
      using q u c by (simp_all add: put_conn_def tick_def)
    show ?thesis
    proof (rule evolves_okI)
      show "conns_inv (put_conn c u)"
      proof (rule conns_invI)
        fix d e assume "map_of (n_conns (put_conn c u)) d = Some e"
        then show "c_fd e = d \<and> c_id e \<le> n_seq (put_conn c u)"
          using conns_invD(4) [OF inv, of d e] c q seq by (auto simp del: map_of_eq_Some_iff split: if_splits)
      qed (use conns_invD [OF inv] u c seq in \<open>simp_all add: put_conn_def tick_def\<close>)
      fix d e assume "map_of (n_conns (put_conn c u)) d = Some e" "c_id e \<le> n_seq t"
      then show "\<exists>e'. map_of (n_conns t) d = Some e' \<and> key b e' = key b e"
        using c q seq by (auto simp del: map_of_eq_Some_iff split: if_splits)
    qed (use q seq u in \<open>simp_all add: put_conn_def tick_def\<close>)
  qed
  then show "evolves b t (put_conn c u)" using u by (simp add: evolves_def put_conn_def tick_def)
qed

lemma evolves_create_conn:
  assumes "evolves b s t" and "create_conn w fd t = (r, u)"
  shows "evolves b s u"
proof -
  let ?t = "if map_of (n_conns t) fd \<noteq> None then snd (close_conn fd t) else t"
  obtain q v where q: "new_seq ?t = (q, v)" by fastforce
  have "evolves b s ?t" using evolves_close_conn assms(1) by simp
  moreover have "u = put_conn ((new_connection fd q (now w v))\<lparr>c_keep_alive := n_keep_alive v\<rparr>) v"
    using assms(2) q by (simp add: create_conn_def Let_def)
  ultimately show ?thesis using q by (auto intro!: evolves_new_conn simp: fd_data_def new_connection_def)
qed

lemma evolves_new_seq: "evolves b s t \<Longrightarrow> new_seq t = (q, u) \<Longrightarrow> evolves b s u"
proof -
  assume st: "evolves b s t" and q: "new_seq t = (q, u)"
  have u: "u = (tick t)\<lparr>n_seq := (n_seq t + 1) mod 2 ^ 64\<rparr>" using q by (auto simp: new_seq_def Let_def)
  have "evolves_ok b t u" if inv: "conns_inv t" and room: "seq_room t u"
  proof -
    have "n_seq u = n_seq t + 1" using room u by (simp add: seq_room_def tick_def)
    then show ?thesis
      using conns_invD [OF inv] u by (intro evolves_okI conns_invI) (fastforce simp: tick_def simp del: map_of_eq_Some_iff)+
  qed
  then have "evolves b t u" using u by (simp add: evolves_def tick_def)
  with st show ?thesis by (rule evolves_trans)
qed

text \<open>Operations on the tables.\<close>

lemma evolves_update_conn_state: "evolves b s t \<Longrightarrow> evolves b s (snd (update_conn_state fd st t))"
proof -
  assume st: "evolves b s t"
  show ?thesis
  proof (cases "map_of (n_conns t) fd")
    case (Some c)
    have "evolves_ok b t (snd (update_conn_state fd st t))" if inv: "conns_inv t"
      using conns_invD [OF inv] Some
      by (intro evolves_okI conns_invI) (auto simp: update_conn_state_def simp del: map_of_eq_Some_iff split: if_splits)
    then have "evolves b t (snd (update_conn_state fd st t))" using Some by (simp add: evolves_def update_conn_state_def)
    with st show ?thesis by (rule evolves_trans)
  qed (use st in \<open>simp add: update_conn_state_def\<close>)
qed

lemma evolves_add_client_conn: "evolves b s t \<Longrightarrow> evolves b s (snd (add_client_conn k f t))"
  by (cases "get_conn t f") (auto simp: add_client_conn_def intro: evolves_same)

lemma evolves_set_cmds:
  assumes "evolves b s t" and "distinct (ukeys (n_cmds t)) \<longrightarrow> distinct (ukeys m)"
    and "(\<forall>k c. map_of (n_cmds t) k = Some c \<longrightarrow> k_id c = k) \<longrightarrow> (\<forall>k c. map_of m k = Some c \<longrightarrow> k_id c = k)"
  shows "evolves b s (t\<lparr>n_cmds := m\<rparr>)"
proof (rule evolves_trans [OF assms(1)])
  have "evolves_ok b t (t\<lparr>n_cmds := m\<rparr>)" if inv: "conns_inv t"
  proof (rule evolves_okI)
    have "distinct (ukeys m)" and "\<And>k c. map_of m k = Some c \<Longrightarrow> k_id c = k"
      using conns_invD(3,5) [OF inv] assms(2,3) by blast+
    then show "conns_inv (t\<lparr>n_cmds := m\<rparr>)"
      using conns_invD(1,2,4) [OF inv] by (intro conns_invI) (simp_all del: map_of_eq_Some_iff)
  qed simp_all
  then show "evolves b t (t\<lparr>n_cmds := m\<rparr>)" by (simp add: evolves_def)
qed

lemma evolves_cmd_ops:
  assumes "evolves b s t"
  shows "evolves b s (snd (add_cmd k t))" and "evolves b s (put_cmd k t)" and "evolves b s (snd (del_cmd i t))"
  using assms
  by (auto simp: add_cmd_def put_cmd_def del_cmd_def simp del: map_of_eq_Some_iff intro!: evolves_set_cmds split: if_splits)

lemma evolves_net_add_io_timer: "evolves b s t \<Longrightarrow> evolves_opt b s (net_add_io_timer w r secs t)"
  by (auto simp: net_add_io_timer_def split: option.split
      intro!: evolves_opt_bind_pure evolves_tick evolves_put_conn evolves_close_conn)

lemma evolves_net_add_read_event:
  assumes "evolves b s t" and "net_add_read_event w fd codec is_chanel t = (r, u)"
  shows "evolves b s u"
proof -
  have create: "evolves b s u"
    if "evolves b s v" "u = snd (let (r, s) = create_conn w fd v in
        case get_conn s r of
          None \<Rightarrow> (None, s)
        | Some c \<Rightarrow>
            let c = snd (conn_init codec (now w s) c); c = c\<lparr>c_active_time := now w s, c_state := S_CONNECTED\<rparr>
            in case add_read_event (n_events s) (w_mem w (n_tick s)) fd (c_ev_io c) of
                 None \<Rightarrow> (None, tick (put_conn c s))
               | Some io \<Rightarrow>
                   let c = c\<lparr>c_ev_io := Some io, c_is_system := (is_chanel \<or> c_is_system c)\<rparr>
                   in (Some r, tick (put_conn c s)))" for v
  proof -
    obtain r' v' where cc: "create_conn w fd v = (r', v')" by fastforce
    obtain c where c: "get_conn v' r' = Some c" using create_conn_result [OF cc] by blast
    have "evolves b s v'" using evolves_create_conn that(1) cc by blast
    then show ?thesis
      using that(2) cc c by (auto simp: Let_def split: option.splits intro!: evolves_tick evolves_put_conn [OF _ c])
  qed
  show ?thesis
    using assms create [of "tick t"] create [of "tick (tick (tick t))"]
    by (auto simp: net_add_read_event_def Let_def evolves_tick split: if_splits)
qed

end
