(* ===== verification/Net_Send.thy ===== *)
theory Net_Send
  imports Net_State
begin

text \<open>
  Sending, the write half of \<open>src/core/network.cpp\<close>. The functions that take a \<open>Connection*\<close>
  dereference it (\<open>None\<close> when it dangles); \<open>send_to_fd\<close> and its users look the connection up first and
  answer \<open>false\<close> when it is gone.
\<close>

section \<open>Writing and watching\<close>

text \<open>\<open>handle_write_events(c, codec_ret)\<close>.\<close>

definition handle_write_status :: "world \<Rightarrow> connection \<Rightarrow> codec_status \<Rightarrow> network \<Rightarrow> bool \<times> network" where
  "handle_write_status w c codec_ret s =
     (if codec_ret = CS_PAUSE then
        (case add_write_event (n_events s) (w_mem w (n_tick s)) (c_fd c) (c_ev_io c) of
           None \<Rightarrow> (False, tick s)
         | Some io \<Rightarrow> (True, tick (put_conn (c\<lparr>c_ev_io := Some io\<rparr>) s)))
      else
        let s = put_conn (c\<lparr>c_ev_io := del_write_event (c_ev_io c)\<rparr>) s
        in (codec_ret \<noteq> CS_ERR, s))"

text \<open>
  The payload's counters are \<open>uint32\<close>; the difference is taken on \<open>int\<close> copies of the old values.
\<close>

definition count_write :: "connection \<Rightarrow> connection \<Rightarrow> network \<Rightarrow> network" where
  "count_write old c s =
     (let p = n_payload s
      in s\<lparr>n_payload := p\<lparr>
             pl_write_cnt := c_uint (int (pl_write_cnt p) + (c_write_cnt c - c_write_cnt old)),
             pl_write_bytes := c_uint (int (pl_write_bytes p) + (int (c_write_bytes c) - c_int (int (c_write_bytes old))))\<rparr>\<rparr>)"

definition after_write ::
  "world \<Rightarrow> connection \<Rightarrow> codec_status \<Rightarrow> string \<Rightarrow> connection \<Rightarrow> network \<Rightarrow> bool \<times> network" where
  "after_write w old ret out c s =
     (let s = tick (put_conn c s);
          s = (if out \<noteq> [] then emit (E_out (c_fd c) out) s else s);
          s = (if ret \<noteq> CS_ERR then count_write old c s else s)
      in handle_write_status w c ret s)"

definition handle_write_events :: "world \<Rightarrow> fd_t \<Rightarrow> network \<Rightarrow> (bool \<times> network) option" where
  "handle_write_events w r s =
     do {
       c \<leftarrow> get_conn s r;
       let (ret, out, c') = conn_write (w_al w) (w_send w (n_tick s)) (now w s) c;
       Some (after_write w c ret out c' s)
     }"

definition handle_write_http :: "world \<Rightarrow> fd_t \<Rightarrow> http_msg \<Rightarrow> network \<Rightarrow> (bool \<times> network) option" where
  "handle_write_http w r msg s =
     do {
       c \<leftarrow> get_conn s r;
       (ret, out, c') \<leftarrow> conn_write_http (w_hl w) (w_al w) (w_send w (n_tick s)) (now w s) msg c;
       Some (after_write w c ret out c' s)
     }"

definition handle_write_proto :: "world \<Rightarrow> fd_t \<Rightarrow> msg_head \<Rightarrow> msg_body \<Rightarrow> network \<Rightarrow> (bool \<times> network) option" where
  "handle_write_proto w r head body s =
     do {
       c \<leftarrow> get_conn s r;
       let (ret, out, c') = conn_write_proto (w_pb w) (w_al w) (w_send w (n_tick s)) (now w s) head body c;
       Some (after_write w c ret out c' s)
     }"

section \<open>Sending a message\<close>

definition close_unless :: "int \<Rightarrow> bool \<times> network \<Rightarrow> bool \<times> network" where
  "close_unless fd r = (if fst r then r else (False, snd (close_conn fd (snd r))))"

text \<open>\<open>send_to(Connection*, ...)\<close>; the pointer \<open>None\<close> is \<open>nullptr\<close>.\<close>

definition send_to_conn_http :: "world \<Rightarrow> fd_t option \<Rightarrow> http_msg \<Rightarrow> network \<Rightarrow> (bool \<times> network) option" where
  "send_to_conn_http w r msg s =
     (case r of None \<Rightarrow> Some (False, s)
      | Some r \<Rightarrow> map_option (close_unless (fst r)) (handle_write_http w r msg s))"

definition send_to_conn ::
  "world \<Rightarrow> fd_t option \<Rightarrow> msg_head \<Rightarrow> msg_body \<Rightarrow> network \<Rightarrow> (bool \<times> network) option" where
  "send_to_conn w r head body s =
     (case r of None \<Rightarrow> Some (False, s)
      | Some r \<Rightarrow> map_option (close_unless (fst r)) (handle_write_proto w r head body s))"

definition conn_ptr :: "network \<Rightarrow> fd_t \<Rightarrow> fd_t option" where
  "conn_ptr s f = map_option fd_data (get_conn s f)"

definition send_to_fd_http :: "world \<Rightarrow> fd_t \<Rightarrow> http_msg \<Rightarrow> network \<Rightarrow> (bool \<times> network) option" where
  "send_to_fd_http w f msg s = send_to_conn_http w (conn_ptr s f) msg s"

definition send_to_fd :: "world \<Rightarrow> fd_t \<Rightarrow> msg_head \<Rightarrow> msg_body \<Rightarrow> network \<Rightarrow> (bool \<times> network) option" where
  "send_to_fd w f head body s = send_to_conn w (conn_ptr s f) head body s"

definition body_len :: "world \<Rightarrow> msg_body \<Rightarrow> int" where
  "body_len w body = c_int (int (length (pb_ser_body (w_pb w) body)))"

definition req_body :: "string \<Rightarrow> msg_body" where
  "req_body data = empty_body\<lparr>mb_data := data\<rparr>"

text \<open>\<open>cmd\<close> and \<open>seq\<close> are \<open>uint32_t\<close> parameters: a wider argument is cut.\<close>

definition send_req_conn ::
  "world \<Rightarrow> fd_t option \<Rightarrow> int \<Rightarrow> nat \<Rightarrow> string \<Rightarrow> network \<Rightarrow> (bool \<times> network) option" where
  "send_req_conn w r cmd sq data s =
     (case r of None \<Rightarrow> Some (False, s)
      | Some _ \<Rightarrow>
          let body = req_body data;
              head = \<lparr>mh_cmd = c_uint cmd, mh_seq = c_uint (int sq), mh_len = body_len w body\<rparr>
          in send_to_conn w r head body s)"

definition send_req ::
  "world \<Rightarrow> fd_t \<Rightarrow> int \<Rightarrow> nat \<Rightarrow> string \<Rightarrow> network \<Rightarrow> (bool \<times> network) option" where
  "send_req w f cmd sq data s =
     (let body = req_body data;
          head = \<lparr>mh_cmd = c_uint cmd, mh_seq = c_uint (int sq), mh_len = body_len w body\<rparr>
      in send_to_fd w f head body s)"

definition ack_body :: "int \<Rightarrow> string \<Rightarrow> string \<Rightarrow> msg_body" where
  "ack_body err errstr data = empty_body\<lparr>mb_data := data, mb_type := Rsp_result err errstr\<rparr>"

definition ack_head :: "world \<Rightarrow> request \<Rightarrow> msg_body \<Rightarrow> msg_head" where
  "ack_head w req body =
     \<lparr>mh_cmd = c_uint (int (mh_cmd (rq_head req)) + 1), mh_seq = mh_seq (rq_head req), mh_len = body_len w body\<rparr>"

definition send_ack ::
  "world \<Rightarrow> request \<Rightarrow> int \<Rightarrow> string \<Rightarrow> string \<Rightarrow> network \<Rightarrow> (bool \<times> network) option" where
  "send_ack w req err errstr data s =
     (let body = ack_body err errstr data
      in send_to_fd w (rq_fd_data req) (ack_head w req body) body s)"

section \<open>Sending to other processes\<close>

text \<open>
  \<open>auto_send\<close>: A1 opens a connection to B0; the message waits in the buffer for the handshake.
  \<open>auto_send_wait\<close> is the part that sets the watchers, \<open>auto_send_timer\<close> the one from the timer on.
\<close>

definition auto_send_timer :: "world \<Rightarrow> string \<Rightarrow> fd_t \<Rightarrow> network \<Rightarrow> (bool \<times> network) option" where
  "auto_send_timer w node_id r s =
     do {
       (ok, s) \<leftarrow> net_add_io_timer w r (3 / 2) s;
       if \<not> ok then Some (False, snd (close_conn (fst r) s))
       else do {
         c \<leftarrow> get_conn s r;
         let s = s\<lparr>n_node_conns := uset (n_node_conns s) node_id r\<rparr>;
         Some (True, put_conn (c\<lparr>c_node_id := node_id\<rparr>) s)
       }
     }"

definition auto_send_wait ::
  "world \<Rightarrow> string \<Rightarrow> fd_t \<Rightarrow> msg_head \<Rightarrow> msg_body \<Rightarrow> network \<Rightarrow> (bool \<times> network) option" where
  "auto_send_wait w node_id r head body s =
     do {
       c \<leftarrow> get_conn s r;
       let c = (snd (conn_init CT_PROTOBUF (now w s) c))\<lparr>c_active_time := now w s, c_is_system := True\<rparr>;
       case add_read_event (n_events s) (w_mem w (n_tick s)) (fst r) (c_ev_io c) of
         None \<Rightarrow> Some (False, snd (close_conn (fst r) (tick (put_conn c s))))
       | Some io \<Rightarrow>
           (case add_write_event (n_events s) (w_mem w (n_tick s)) (fst r) (Some io) of
              None \<Rightarrow> Some (False, snd (close_conn (fst r) (tick (put_conn c s))))
            | Some io \<Rightarrow>
                let c = c\<lparr>c_ev_io := Some io, c_state := S_TRY_CONNECT\<rparr>;
                    (st, c) = conn_write_waiting (w_pb w) (w_al w) head body c;
                    s = tick (put_conn c s)
                in if st = CS_ERR then Some (False, snd (close_conn (fst r) s))
                   else auto_send_timer w node_id r s)
     }"

definition auto_send ::
  "world \<Rightarrow> string \<Rightarrow> int \<Rightarrow> int \<Rightarrow> msg_head \<Rightarrow> msg_body \<Rightarrow> network \<Rightarrow> (bool \<times> network) option" where
  "auto_send w host port worker_index head body s =
     (let fd = w_connect w (n_tick s);
          s = tick s
      in if fd = - 1 then Some (False, s)
         else
           let (r, s) = create_conn w fd s
           in if \<not> w_sockopt w (n_tick s) then Some (False, snd (close_conn fd (tick s)))
              else
                let s = tick s in
                if \<not> w_sockopt w (n_tick s) then Some (False, snd (close_conn fd (tick s)))
                else auto_send_wait w (format_nodes_id host port worker_index) r head body (tick s))"

definition send_to_node ::
  "world \<Rightarrow> string \<Rightarrow> string \<Rightarrow> msg_head \<Rightarrow> msg_body \<Rightarrow> network \<Rightarrow> (bool \<times> network) option" where
  "send_to_node w node_type obj head body s =
     (if \<not> is_worker s then Some (False, s)
      else case get_node_in_hash (n_nodes s) node_type obj of
             None \<Rightarrow> Some (False, s)
           | Some p \<Rightarrow>
               do {
                 node \<leftarrow> map_of (m_heap (n_nodes s)) p;
                 let node_id = format_nodes_id (n_host node) (n_port node) (Nodes_Mgr.n_worker_index node);
                 case map_of (n_node_conns s) node_id of
                   None \<Rightarrow> auto_send w (n_host node) (n_port node) (Nodes_Mgr.n_worker_index node) head body s
                 | Some r \<Rightarrow>
                     do {
                       c \<leftarrow> get_conn s r;
                       if is_connected c then send_to_conn w (Some r) head body s
                       else if is_connecting c \<or> is_try_connect c then
                         let (st, c) = conn_write_waiting (w_pb w) (w_al w) head body c
                         in Some (st \<noteq> CS_ERR, put_conn c s)
                       else Some (False, s)
                     }
               })"

text \<open>The loop over the workers; a worker whose control connection fails is skipped.\<close>

fun send_children_loop ::
  "world \<Rightarrow> (int \<times> nat) list \<Rightarrow> int \<Rightarrow> nat \<Rightarrow> string \<Rightarrow> network \<Rightarrow> network option" where
  "send_children_loop w [] cmd sq data s = Some s"
| "send_children_loop w ((_, p) # infos) cmd sq data s =
     do {
       info \<leftarrow> map_of (wd_heap (n_worker_data s)) p;
       case map_of (n_conns s) (wi_ctrl_fd info) of
         None \<Rightarrow> send_children_loop w infos cmd sq data s
       | Some c \<Rightarrow>
           if is_invalid c then send_children_loop w infos cmd sq data s
           else do {
             (_, s) \<leftarrow> send_req_conn w (Some (fd_data c)) cmd sq data s;
             send_children_loop w infos cmd sq data s
           }
     }"

definition send_to_children :: "world \<Rightarrow> int \<Rightarrow> nat \<Rightarrow> string \<Rightarrow> network \<Rightarrow> (bool \<times> network) option" where
  "send_to_children w cmd sq data s =
     (if \<not> is_manager s then Some (False, s)
      else map_option (Pair True) (send_children_loop w (m_workers (n_worker_data s)) cmd sq data s))"

definition send_to_parent :: "world \<Rightarrow> int \<Rightarrow> nat \<Rightarrow> string \<Rightarrow> network \<Rightarrow> (bool \<times> network) option" where
  "send_to_parent w cmd sq data s =
     (if \<not> is_worker s then Some (False, s)
      else case map_of (n_conns s) (n_manager_ctrl_fd s) of
             None \<Rightarrow> Some (False, s)
           | Some c \<Rightarrow> send_req_conn w (Some (fd_data c)) cmd sq data s)"

section \<open>Sending evolves\<close>

lemma evolves_write_status:
  assumes "evolves b s t" and "get_conn t f = Some c0" and "key b c = key b c0"
  shows "evolves b s (snd (handle_write_status w c ret t))"
  using assms
  by (auto simp: handle_write_status_def Let_def intro!: evolves_tick evolves_put_conn split: option.split)

lemma evolves_after_write:
  assumes "evolves b s t" and "get_conn t f = Some old" and "key b c = key b old"
  shows "evolves b s (snd (after_write w old ret out c t))"
proof -
  let ?t = "tick (put_conn c t)"
  let ?u = "if out \<noteq> [] then emit (E_out (c_fd c) out) ?t else ?t"
  let ?v = "if ret \<noteq> CS_ERR then count_write old c ?u else ?u"
  have "evolves b s ?t" using assms by (intro evolves_tick evolves_put_conn)
  then have u: "evolves b s ?u" by (simp add: evolves_emit)
  have "evolves b s (count_write old c ?u)" by (rule evolves_same [OF u]) (simp_all add: count_write_def Let_def)
  then have "evolves b s ?v" using u by simp
  moreover have "get_conn ?v (fd_data c) = Some c" by (simp add: count_write_def Let_def)
  ultimately show ?thesis unfolding after_write_def Let_def by (intro evolves_write_status) simp_all
qed

lemma evolves_handle_write_events: "evolves b s t \<Longrightarrow> evolves_opt b s (handle_write_events w r t)"
  by (auto simp: handle_write_events_def intro!: evolves_opt_bind_pure evolves_opt_SomeI evolves_after_write
      dest: key_write split: prod.split)

lemma evolves_handle_write_http: "evolves b s t \<Longrightarrow> evolves_opt b s (handle_write_http w r msg t)"
  by (auto simp: handle_write_http_def intro!: evolves_opt_bind_pure evolves_opt_SomeI evolves_after_write
      dest: key_write_http split: prod.split)

lemma evolves_handle_write_proto: "evolves b s t \<Longrightarrow> evolves_opt b s (handle_write_proto w r head body t)"
  by (auto simp: handle_write_proto_def intro!: evolves_opt_bind_pure evolves_opt_SomeI evolves_after_write
      dest: key_write_proto split: prod.split)

lemma evolves_close_unless: "evolves b s (snd r) \<Longrightarrow> evolves b s (snd (close_unless fd r))"
  by (simp add: close_unless_def evolves_close_conn)

lemma evolves_send_to_conn_http: "evolves b s t \<Longrightarrow> evolves_opt b s (send_to_conn_http w r msg t)"
  by (auto simp: send_to_conn_http_def intro!: evolves_opt_map evolves_handle_write_http evolves_close_unless split: option.split)

lemma evolves_send_to_conn: "evolves b s t \<Longrightarrow> evolves_opt b s (send_to_conn w r head body t)"
  by (auto simp: send_to_conn_def intro!: evolves_opt_map evolves_handle_write_proto evolves_close_unless split: option.split)

lemma evolves_send_to_fd: "evolves b s t \<Longrightarrow> evolves_opt b s (send_to_fd w f head body t)"
  "evolves b s t \<Longrightarrow> evolves_opt b s (send_to_fd_http w f msg t)"
  by (simp_all add: send_to_fd_def send_to_fd_http_def evolves_send_to_conn evolves_send_to_conn_http)

lemma evolves_send_req_conn: "evolves b s t \<Longrightarrow> evolves_opt b s (send_req_conn w r cmd sq data t)"
  by (auto simp: send_req_conn_def Let_def intro!: evolves_send_to_conn split: option.split)

lemma evolves_send_req: "evolves b s t \<Longrightarrow> evolves_opt b s (send_req w f cmd sq data t)"
  by (simp add: send_req_def Let_def evolves_send_to_fd)

lemma evolves_send_ack: "evolves b s t \<Longrightarrow> evolves_opt b s (send_ack w req err errstr data t)"
  by (simp add: send_ack_def Let_def evolves_send_to_fd)

lemma evolves_send_to_parent: "evolves b s t \<Longrightarrow> evolves_opt b s (send_to_parent w cmd sq data t)"
  by (auto simp: send_to_parent_def intro!: evolves_send_req_conn split: option.split)

lemma evolves_children_loop:
  "evolves b s t \<Longrightarrow> send_children_loop w infos cmd sq data t = Some u \<Longrightarrow> evolves b s u"
proof (induction w infos cmd sq data t rule: send_children_loop.induct)
  case (2 w pid p infos cmd sq data t)
  obtain info where info: "map_of (wd_heap (n_worker_data t)) p = Some info" using "2.prems"(2) by (auto split: bind_splits)
  show ?case
  proof (cases "case map_of (n_conns t) (wi_ctrl_fd info) of None \<Rightarrow> True | Some c \<Rightarrow> is_invalid c")
    case True
    then show ?thesis using 2 info by (auto split: option.splits)
  next
    case False
    then obtain c where c: "map_of (n_conns t) (wi_ctrl_fd info) = Some c" "\<not> is_invalid c" by (auto split: option.splits)
    obtain ok v where v: "send_req_conn w (Some (fd_data c)) cmd sq data t = Some (ok, v)"
      "send_children_loop w infos cmd sq data v = Some u"
      using "2.prems"(2) info c by (auto split: bind_splits)
    have "evolves b s v" using evolves_send_req_conn [OF "2.prems"(1), of w "Some (fd_data c)" cmd sq data] v(1) by simp
    then show ?thesis using "2.IH"(3) [OF info c(1)] c(2) v by fastforce
  qed
qed simp

lemma evolves_send_to_children: "evolves b s t \<Longrightarrow> evolves_opt b s (send_to_children w cmd sq data t)"
  by (auto simp: send_to_children_def evolves_opt_def evolves_children_loop split: option.split)

lemma evolves_auto_send_timer: "evolves b s t \<Longrightarrow> evolves_opt b s (auto_send_timer w node_id r t)"
  unfolding auto_send_timer_def
proof (rule evolves_opt_bind)
  show "evolves b s t \<Longrightarrow> evolves_opt b s (net_add_io_timer w r (3 / 2) t)" by (rule evolves_net_add_io_timer)
  fix ok u assume u: "evolves b s u"
  have node: "evolves b s (u\<lparr>n_node_conns := uset (n_node_conns u) node_id r\<rparr>)" by (rule evolves_same [OF u]) simp_all
  show "evolves_opt b s (case (ok, u) of (ok, s) \<Rightarrow>
      if \<not> ok then Some (False, snd (close_conn (fst r) s))
      else get_conn s r \<bind> (\<lambda>c. let s = s\<lparr>n_node_conns := uset (n_node_conns s) node_id r\<rparr>
             in Some (True, put_conn (c\<lparr>c_node_id := node_id\<rparr>) s)))"
    using u node by (auto simp: Let_def intro!: evolves_opt_bind_pure evolves_close_conn evolves_put_conn)
qed

lemma evolves_auto_send_wait:
  assumes "evolves b s t"
  shows "evolves_opt b s (auto_send_wait w node_id r head body t)"
proof (cases "get_conn t r")
  case (Some c)
  then show ?thesis
    using assms
    by (auto simp: auto_send_wait_def Let_def intro!: evolves_close_conn evolves_tick evolves_put_conn [OF _ Some]
        evolves_auto_send_timer dest!: key_waiting split: option.split prod.split)
qed (simp add: auto_send_wait_def)

lemma evolves_auto_send:
  assumes "evolves b s t"
  shows "evolves_opt b s (auto_send w host port i head body t)"
proof -
  obtain r u where ru: "create_conn w (w_connect w (n_tick t)) (tick t) = (r, u)" by fastforce
  have "evolves b s u" using evolves_create_conn [OF evolves_tick [OF assms] ru] .
  then show ?thesis
    using assms ru by (auto simp: auto_send_def Let_def intro!: evolves_close_conn evolves_tick evolves_auto_send_wait)
qed

lemma evolves_send_to_node: "evolves b s t \<Longrightarrow> evolves_opt b s (send_to_node w ty obj head body t)"
  by (auto simp: send_to_node_def Let_def intro!: evolves_opt_bind_pure evolves_auto_send evolves_send_to_conn
      evolves_put_conn split: option.split prod.split) (simp_all add: key_waiting)

section \<open>Sending leaves the tables alone\<close>

text \<open>What no sending operation touches: the node table, the zookeeper client, the workers' table and the type.\<close>

definition tables :: "network \<Rightarrow> nodes \<times> zk_client option \<times> worker_data \<times> net_type" where
  "tables s = (n_nodes s, n_zk s, n_worker_data s, n_type s)"

lemma tables_simps [simp]:
  "tables (tick s) = tables s" "tables (emit e s) = tables s" "tables (put_conn c s) = tables s"
  "tables (count_write old c s) = tables s" "tables (close_fd fd s) = tables s"
  "tables (s\<lparr>n_conns := cs\<rparr>) = tables s" "tables (s\<lparr>n_node_conns := nc\<rparr>) = tables s"
  by (simp_all add: tables_def tick_def emit_def put_conn_def count_write_def close_fd_def Let_def)

lemma tables_close [simp]: "tables (snd (close_conn fd s)) = tables s"
  by (simp add: close_conn_def Let_def split: option.split)

lemma tables_new_seq: "new_seq s = (q, t) \<Longrightarrow> tables t = tables s"
  by (auto simp: new_seq_def Let_def tables_def tick_def)

lemma tables_write [simp]: "tables (snd (after_write w old ret out c s)) = tables s"
  by (simp add: after_write_def handle_write_status_def Let_def split: option.split)

lemma tables_send_req_conn: "send_req_conn w r cmd sq data s = Some (ok, t) \<Longrightarrow> tables t = tables s"
  by (auto simp: send_req_conn_def send_to_conn_def handle_write_proto_def close_unless_def Let_def
      split: option.splits bind_splits prod.splits if_splits) (metis snd_conv tables_close tables_write)+

lemma tables_children_loop: "send_children_loop w infos cmd sq data s = Some t \<Longrightarrow> tables t = tables s"
proof (induction infos arbitrary: s)
  case (Cons i infos)
  then show ?case
    by (cases i) (auto split: bind_splits option.splits if_splits dest!: tables_send_req_conn)
qed simp

lemma tables_children: "send_to_children w cmd sq data s = Some (ok, t) \<Longrightarrow> tables t = tables s"
  by (auto simp: send_to_children_def split: if_splits intro: tables_children_loop)

end
