(* ===== verification/Sys_Cmd.thy ===== *)
theory Sys_Cmd
  imports Net_Send
begin

text \<open>
  The messages between the processes of a node and between nodes, \<open>src/core/sys_cmd.cpp\<close>: the
  handshake that connects worker A1 to worker B1 through B1's manager B0, the broadcast of zookeeper
  nodes to the workers, the synchronisation of the node table, and the payload reports.

  \<open>None\<close> is a crash: a dangling pointer, or the exception that \<open>std::stoi\<close> throws on a text that
  is not a number, which nothing catches.
\<close>

section \<open>Commands and errors\<close>

text \<open>\<open>src/core/protocol.h\<close> and \<open>src/core/error.h\<close>.\<close>

definition CMD_REQ_CONNECT_TO_WORKER :: nat where "CMD_REQ_CONNECT_TO_WORKER = 21"
definition CMD_RSP_CONNECT_TO_WORKER :: nat where "CMD_RSP_CONNECT_TO_WORKER = 22"
definition CMD_REQ_TELL_WORKER :: nat where "CMD_REQ_TELL_WORKER = 23"
definition CMD_RSP_TELL_WORKER :: nat where "CMD_RSP_TELL_WORKER = 24"
definition CMD_REQ_ADD_ZK_NODE :: nat where "CMD_REQ_ADD_ZK_NODE = 41"
definition CMD_RSP_ADD_ZK_NODE :: nat where "CMD_RSP_ADD_ZK_NODE = 42"
definition CMD_REQ_DEL_ZK_NODE :: nat where "CMD_REQ_DEL_ZK_NODE = 43"
definition CMD_RSP_DEL_ZK_NODE :: nat where "CMD_RSP_DEL_ZK_NODE = 44"
definition CMD_REQ_SYNC_ZK_NODES :: nat where "CMD_REQ_SYNC_ZK_NODES = 45"
definition CMD_RSP_SYNC_ZK_NODES :: nat where "CMD_RSP_SYNC_ZK_NODES = 46"
definition CMD_REQ_REGISTER_NODE :: nat where "CMD_REQ_REGISTER_NODE = 47"
definition CMD_RSP_REGISTER_NODE :: nat where "CMD_RSP_REGISTER_NODE = 48"
definition CMD_REQ_UPDATE_PAYLOAD :: nat where "CMD_REQ_UPDATE_PAYLOAD = 49"
definition CMD_RSP_UPDATE_PAYLOAD :: nat where "CMD_RSP_UPDATE_PAYLOAD = 50"

definition ERR_OK :: int where "ERR_OK = 0"
definition ERR_FAILED :: int where "ERR_FAILED = 1"
definition ERR_INVALID_MSG_DATA :: int where "ERR_INVALID_MSG_DATA = 2"
definition ERR_INVALID_WORKER_INDEX :: int where "ERR_INVALID_WORKER_INDEX = 3"

lemmas CMD_defs =
  CMD_REQ_CONNECT_TO_WORKER_def CMD_RSP_CONNECT_TO_WORKER_def CMD_REQ_TELL_WORKER_def CMD_RSP_TELL_WORKER_def
  CMD_REQ_ADD_ZK_NODE_def CMD_RSP_ADD_ZK_NODE_def CMD_REQ_DEL_ZK_NODE_def CMD_RSP_DEL_ZK_NODE_def
  CMD_REQ_SYNC_ZK_NODES_def CMD_RSP_SYNC_ZK_NODES_def CMD_REQ_REGISTER_NODE_def CMD_RSP_REGISTER_NODE_def
  CMD_REQ_UPDATE_PAYLOAD_def CMD_RSP_UPDATE_PAYLOAD_def

lemmas ERR_defs = ERR_OK_def ERR_FAILED_def ERR_INVALID_MSG_DATA_def ERR_INVALID_WORKER_INDEX_def

definition check_rsp :: "request \<Rightarrow> bool" where
  "check_rsp req = (case mb_type (rq_body req) of Rsp_result code _ \<Rightarrow> code = ERR_OK | _ \<Rightarrow> False)"

section \<open>Requests\<close>

text \<open>A request with a fresh sequence number, from a worker to its manager or from a manager to its workers.\<close>

definition req_parent :: "world \<Rightarrow> nat \<Rightarrow> string \<Rightarrow> network \<Rightarrow> (bool \<times> network) option" where
  "req_parent w cmd data s = (let (q, s) = new_seq s in send_to_parent w (int cmd) q data s)"

definition req_children :: "world \<Rightarrow> nat \<Rightarrow> string \<Rightarrow> network \<Rightarrow> (bool \<times> network) option" where
  "req_children w cmd data s = (let (q, s) = new_seq s in send_to_children w (int cmd) q data s)"

definition send_req_connect_to_worker :: "world \<Rightarrow> fd_t \<Rightarrow> network \<Rightarrow> (bool \<times> network) option" where
  "send_req_connect_to_worker w r s =
     do {
       c \<leftarrow> get_conn s r;
       worker_index \<leftarrow> get_node_worker_index (n_nodes s) (c_node_id c);
       if worker_index = - 1 then Some (False, s)
       else do {
         let (q, s) = new_seq s;
         (ok, s) \<leftarrow> send_req_conn w (Some r) (int CMD_REQ_CONNECT_TO_WORKER) q (dec_int worker_index) s;
         if \<not> ok then Some (False, s)
         else do {
           c \<leftarrow> get_conn s r;
           Some (True, put_conn (c\<lparr>c_state := S_CONNECTING\<rparr>) s)
         }
       }
     }"

text \<open>The parameter \<open>version\<close> is an \<open>int\<close>.\<close>

definition send_parent_sync_zk_nodes :: "world \<Rightarrow> nat \<Rightarrow> network \<Rightarrow> (bool \<times> network) option" where
  "send_parent_sync_zk_nodes w version s = req_parent w CMD_REQ_SYNC_ZK_NODES (dec_int (c_int (int version))) s"

definition send_parent_payload :: "world \<Rightarrow> payload \<Rightarrow> network \<Rightarrow> (bool \<times> network) option" where
  "send_parent_payload w pl s = req_parent w CMD_REQ_UPDATE_PAYLOAD (sl_ser_payload (w_sys w) pl) s"

definition send_children_add_zk_node :: "world \<Rightarrow> zk_node \<Rightarrow> network \<Rightarrow> (bool \<times> network) option" where
  "send_children_add_zk_node w node s = req_children w CMD_REQ_ADD_ZK_NODE (sl_ser_zk (w_sys w) node) s"

definition send_children_del_zk_node :: "world \<Rightarrow> string \<Rightarrow> network \<Rightarrow> (bool \<times> network) option" where
  "send_children_del_zk_node w zk_path s = req_children w CMD_REQ_DEL_ZK_NODE zk_path s"

definition send_children_reg_zk_node :: "world \<Rightarrow> register_node \<Rightarrow> network \<Rightarrow> (bool \<times> network) option" where
  "send_children_reg_zk_node w rn s = req_children w CMD_REQ_REGISTER_NODE (sl_ser_reg (w_sys w) rn) s"

text \<open>\<open>SysCmd::on_repeat_timer\<close>: the second tick and then every 300 a worker asks for the node table.\<close>

definition sys_on_repeat_timer :: "world \<Rightarrow> network \<Rightarrow> network option" where
  "sys_on_repeat_timer w s =
     (if is_worker s then
        let s = s\<lparr>n_timer_index := c_int (n_timer_index s + 1)\<rparr>
        in if n_timer_index s mod 300 = 2 \<and> 0 \<le> n_timer_index s
           then map_option snd (send_parent_sync_zk_nodes w (m_version (n_nodes s)) s)
           else Some s
      else Some s)"

section \<open>The handshake between workers\<close>

definition ack_then :: "cmd_status \<Rightarrow> bool \<times> network \<Rightarrow> cmd_status \<times> network" where
  "ack_then st r = (if fst r then st else ST_ERROR, snd r)"

definition on_req_connect_to_worker :: "world \<Rightarrow> request \<Rightarrow> network \<Rightarrow> (cmd_status \<times> network) option" where
  "on_req_connect_to_worker w req s =
     do {
       let fd = fst (rq_fd_data req);
       let worker_cnt = int (length (m_workers (n_worker_data s)));
       worker_index \<leftarrow> str_to_int (mb_data (rq_body req));
       if worker_index = 0 \<or> worker_index > worker_cnt then
         map_option (\<lambda>(_, s). (ST_ERROR, s)) (send_ack w req ERR_INVALID_WORKER_INDEX ''invalid worker index!'' '''' s)
       else do {
         (ok, s) \<leftarrow> send_ack w req ERR_OK ''ok'' '''' s;
         if \<not> ok then Some (ST_ERROR, s)
         else do {
           chanel \<leftarrow> get_worker_data_fd (n_worker_data s) worker_index;
           let ch = \<lparr>ch_fd = fd, ch_family = 2, ch_codec = 1, ch_is_system = 1\<rparr>;
           let (err, _) = write_channel (w_sendmsg w (n_tick s)) ch;
           let s = tick s;
           if err \<noteq> 0 then Some (ST_ERROR, s) else Some (ST_COMPLETED, emit (E_xfer chanel ch) s)
         }
       }
     }"

text \<open>The description of this worker that the two sides exchange.\<close>

definition my_target :: "network \<Rightarrow> target_node" where
  "my_target s =
     \<lparr>tn_node_type = n_node_type s, tn_ip = n_node_host s, tn_port = c_uint (n_node_port s),
      tn_worker_index = c_uint (n_worker_index s)\<rparr>"

definition target_id :: "target_node \<Rightarrow> string" where
  "target_id tn = format_nodes_id (tn_ip tn) (c_int (int (tn_port tn))) (c_int (int (tn_worker_index tn)))"

definition on_rsp_connect_to_worker :: "world \<Rightarrow> request \<Rightarrow> network \<Rightarrow> (cmd_status \<times> network) option" where
  "on_rsp_connect_to_worker w req s =
     (if \<not> check_rsp req then Some (ST_ERROR, s)
      else
        let tn = my_target s;
            (q, s) = new_seq s
        in map_option (ack_then ST_OK)
             (send_req w (rq_fd_data req) (int CMD_REQ_TELL_WORKER) q (sl_ser_target (w_sys w) tn) s))"

text \<open>
  \<open>tn\<close> is cleared and filled with B1's own data before the ack, and it is \<open>tn\<close> that gives the node
  id afterwards.
\<close>

definition on_req_tell_worker :: "world \<Rightarrow> request \<Rightarrow> network \<Rightarrow> (cmd_status \<times> network) option" where
  "on_req_tell_worker w req s =
     (case sl_parse_target (w_sys w) (mb_data (rq_body req)) of
        None \<Rightarrow>
          map_option (\<lambda>(_, s). (ST_ERROR, s)) (send_ack w req ERR_INVALID_MSG_DATA ''parse request failed!'' '''' s)
      | Some tn \<Rightarrow>
          do {
            let tn = my_target s;
            (ok, s) \<leftarrow> send_ack w req ERR_OK ''ok'' (sl_ser_target (w_sys w) tn) s;
            if \<not> ok then Some (ST_ERROR, s)
            else
              let node_id = target_id tn;
                  s = snd (update_conn_state (fst (rq_fd_data req)) S_CONNECTED s);
                  s = snd (add_client_conn node_id (rq_fd_data req) s)
              in Some (ST_OK, s)
          })"

definition on_rsp_tell_worker :: "world \<Rightarrow> request \<Rightarrow> network \<Rightarrow> (cmd_status \<times> network) option" where
  "on_rsp_tell_worker w req s =
     (if \<not> check_rsp req then Some (ST_ERROR, s)
      else case sl_parse_target (w_sys w) (mb_data (rq_body req)) of
             None \<Rightarrow> Some (ST_ERROR, s)
           | Some tn \<Rightarrow>
               let node_id = target_id tn;
                   s = snd (update_conn_state (fst (rq_fd_data req)) S_CONNECTED s);
                   s = snd (add_client_conn node_id (rq_fd_data req) s)
               in Some (ST_RUNNING, s))"

section \<open>The node table of the workers\<close>

definition with_nodes :: "network \<Rightarrow> (bool \<times> nodes) option \<Rightarrow> (bool \<times> network) option" where
  "with_nodes s r = map_option (\<lambda>(ok, ns). (ok, s\<lparr>n_nodes := ns\<rparr>)) r"

definition on_req_add_zk_node :: "world \<Rightarrow> request \<Rightarrow> network \<Rightarrow> (cmd_status \<times> network) option" where
  "on_req_add_zk_node w req s =
     (case sl_parse_zk (w_sys w) (mb_data (rq_body req)) of
        None \<Rightarrow>
          map_option (\<lambda>(_, s). (ST_ERROR, s)) (send_ack w req ERR_INVALID_MSG_DATA ''parse request failed!'' '''' s)
      | Some zn \<Rightarrow>
          do {
            (ok, s) \<leftarrow> with_nodes s (add_zk_node (w_md5 w) (n_nodes s) zn);
            if \<not> ok then
              map_option (\<lambda>(_, s). (ST_ERROR, s)) (send_ack w req ERR_FAILED ''add zk node failed!'' '''' s)
            else map_option (ack_then ST_OK) (send_ack w req ERR_OK ''ok'' '''' s)
          })"

text \<open>The handlers of the answers \<open>CMD_RSP_ADD_ZK_NODE\<close>, \<open>_DEL_ZK_NODE\<close>, \<open>_REGISTER_NODE\<close> and \<open>_UPDATE_PAYLOAD\<close>.\<close>

definition on_rsp_add_zk_node :: "request \<Rightarrow> network \<Rightarrow> (cmd_status \<times> network) option" where
  "on_rsp_add_zk_node req s = Some (if check_rsp req then ST_OK else ST_ERROR, s)"

definition on_rsp_del_zk_node :: "request \<Rightarrow> network \<Rightarrow> (cmd_status \<times> network) option" where
  "on_rsp_del_zk_node req s = Some (if check_rsp req then ST_OK else ST_ERROR, s)"

definition on_rsp_reg_zk_node :: "request \<Rightarrow> network \<Rightarrow> (cmd_status \<times> network) option" where
  "on_rsp_reg_zk_node req s = Some (if check_rsp req then ST_OK else ST_ERROR, s)"

definition on_rsp_update_payload :: "request \<Rightarrow> network \<Rightarrow> (cmd_status \<times> network) option" where
  "on_rsp_update_payload req s = Some (if check_rsp req then ST_OK else ST_ERROR, s)"

definition on_req_del_zk_node :: "world \<Rightarrow> request \<Rightarrow> network \<Rightarrow> (cmd_status \<times> network) option" where
  "on_req_del_zk_node w req s =
     (let zk_path = mb_data (rq_body req)
      in if zk_path = [] then
           map_option (\<lambda>(_, s). (ST_ERROR, s)) (send_ack w req ERR_INVALID_MSG_DATA ''parse request failed!'' '''' s)
         else do {
           (_, s) \<leftarrow> with_nodes s (del_zk_node (n_nodes s) zk_path);
           map_option (ack_then ST_OK) (send_ack w req ERR_OK ''ok'' '''' s)
         })"

fun add_zk_nodes :: "(string \<Rightarrow> string) \<Rightarrow> zk_node list \<Rightarrow> nodes \<Rightarrow> nodes option" where
  "add_zk_nodes md5 [] ns = Some ns"
| "add_zk_nodes md5 (zn # zns) ns = do { (_, ns) \<leftarrow> add_zk_node md5 ns zn; add_zk_nodes md5 zns ns }"

text \<open>\<open>clear\<close>, \<open>set_my_zk_node_path\<close> and the loop over the message's nodes.\<close>

definition load_nodes :: "(string \<Rightarrow> string) \<Rightarrow> register_node \<Rightarrow> nodes \<Rightarrow> nodes option" where
  "load_nodes md5 rn ns = add_zk_nodes md5 (rn_nodes rn) ((nodes_clear ns)\<lparr>m_my_zk_node := rn_my_zk_path rn\<rparr>)"

definition on_req_reg_zk_node :: "world \<Rightarrow> request \<Rightarrow> network \<Rightarrow> (cmd_status \<times> network) option" where
  "on_req_reg_zk_node w req s =
     (case sl_parse_reg (w_sys w) (mb_data (rq_body req)) of
        None \<Rightarrow>
          map_option (\<lambda>(_, s). (ST_ERROR, s)) (send_ack w req ERR_INVALID_MSG_DATA ''parse request data failed!'' '''' s)
      | Some rn \<Rightarrow>
          do {
            ns \<leftarrow> load_nodes (w_md5 w) rn (n_nodes s);
            map_option (ack_then ST_OK) (send_ack w req ERR_OK ''ok'' '''' (s\<lparr>n_nodes := ns\<rparr>))
          })"

text \<open>The answer carries the version that the worker sent.\<close>

definition sync_answer :: "nodes \<Rightarrow> nat \<Rightarrow> register_node" where
  "sync_answer ns version =
     (if m_version ns \<noteq> version
      then \<lparr>rn_version = version, rn_my_zk_path = m_my_zk_node ns, rn_nodes = map snd (m_zk_nodes ns)\<rparr>
      else \<lparr>rn_version = version, rn_my_zk_path = '''', rn_nodes = []\<rparr>)"

definition on_req_sync_zk_nodes :: "world \<Rightarrow> request \<Rightarrow> network \<Rightarrow> (cmd_status \<times> network) option" where
  "on_req_sync_zk_nodes w req s =
     do {
       v \<leftarrow> str_to_int (mb_data (rq_body req));
       let rn = sync_answer (n_nodes s) (c_uint v);
       map_option (ack_then ST_OK) (send_ack w req ERR_OK ''ok'' (sl_ser_reg (w_sys w) rn) s)
     }"

definition on_rsp_sync_zk_nodes :: "world \<Rightarrow> request \<Rightarrow> network \<Rightarrow> (cmd_status \<times> network) option" where
  "on_rsp_sync_zk_nodes w req s =
     (if \<not> check_rsp req then Some (ST_ERROR, s)
      else case sl_parse_reg (w_sys w) (mb_data (rq_body req)) of
             None \<Rightarrow> Some (ST_ERROR, s)
           | Some rn \<Rightarrow>
               if rn_version rn \<noteq> m_version (n_nodes s)
               then map_option (\<lambda>ns. (ST_OK, s\<lparr>n_nodes := ns\<rparr>)) (load_nodes (w_md5 w) rn (n_nodes s))
               else Some (ST_OK, s))"

definition on_req_update_payload :: "world \<Rightarrow> request \<Rightarrow> network \<Rightarrow> (cmd_status \<times> network) option" where
  "on_req_update_payload w req s =
     (case sl_parse_payload (w_sys w) (mb_data (rq_body req)) of
        None \<Rightarrow> Some (ST_ERROR, s)
      | Some pl \<Rightarrow>
          (case get_worker_info (n_worker_data s) (c_int (int (pl_worker_index pl))) of
             None \<Rightarrow>
               map_option (\<lambda>(_, s). (ST_ERROR, s))
                 (send_ack w req ERR_INVALID_WORKER_INDEX ''can not find worker index!'' '''' s)
           | Some p \<Rightarrow>
               do {
                 info \<leftarrow> map_of (wd_heap (n_worker_data s)) p;
                 let wd = n_worker_data s;
                 let s = s\<lparr>n_worker_data := wd\<lparr>wd_heap := uset (wd_heap wd) p (info\<lparr>wi_payload := pl\<rparr>)\<rparr>\<rparr>;
                 map_option (ack_then ST_OK) (send_ack w req ERR_OK ''ok'' '''' s)
               }))"

section \<open>Dispatch\<close>

definition process_manager_msg :: "world \<Rightarrow> request \<Rightarrow> network \<Rightarrow> (cmd_status \<times> network) option" where
  "process_manager_msg w req s =
     (let cmd = mh_cmd (rq_head req)
      in if cmd = CMD_REQ_CONNECT_TO_WORKER then on_req_connect_to_worker w req s
         else if cmd = CMD_RSP_ADD_ZK_NODE then on_rsp_add_zk_node req s
         else if cmd = CMD_RSP_DEL_ZK_NODE then on_rsp_del_zk_node req s
         else if cmd = CMD_RSP_REGISTER_NODE then on_rsp_reg_zk_node req s
         else if cmd = CMD_REQ_SYNC_ZK_NODES then on_req_sync_zk_nodes w req s
         else if cmd = CMD_REQ_UPDATE_PAYLOAD then on_req_update_payload w req s
         else Some (ST_UNKOWN, s))"

definition process_worker_msg :: "world \<Rightarrow> request \<Rightarrow> network \<Rightarrow> (cmd_status \<times> network) option" where
  "process_worker_msg w req s =
     (let cmd = mh_cmd (rq_head req)
      in if cmd = CMD_RSP_CONNECT_TO_WORKER then on_rsp_connect_to_worker w req s
         else if cmd = CMD_REQ_TELL_WORKER then on_req_tell_worker w req s
         else if cmd = CMD_RSP_TELL_WORKER then on_rsp_tell_worker w req s
         else if cmd = CMD_REQ_ADD_ZK_NODE then on_req_add_zk_node w req s
         else if cmd = CMD_REQ_DEL_ZK_NODE then on_req_del_zk_node w req s
         else if cmd = CMD_REQ_REGISTER_NODE then on_req_reg_zk_node w req s
         else if cmd = CMD_RSP_SYNC_ZK_NODES then on_rsp_sync_zk_nodes w req s
         else if cmd = CMD_RSP_UPDATE_PAYLOAD then on_rsp_update_payload req s
         else Some (ST_UNKOWN, s))"

definition sys_process :: "world \<Rightarrow> request \<Rightarrow> network \<Rightarrow> (cmd_status \<times> network) option" where
  "sys_process w req s = (if is_manager s then process_manager_msg w req s else process_worker_msg w req s)"

section \<open>The handlers evolve\<close>

lemma evolves_req_parent: "evolves b s t \<Longrightarrow> evolves_opt b s (req_parent w cmd data t)"
  by (auto simp: req_parent_def intro!: evolves_send_to_parent intro: evolves_new_seq split: prod.split)

lemma evolves_req_children: "evolves b s t \<Longrightarrow> evolves_opt b s (req_children w cmd data t)"
  by (auto simp: req_children_def intro!: evolves_send_to_children intro: evolves_new_seq split: prod.split)

lemma evolves_ack_map: "evolves b s t \<Longrightarrow> evolves_opt b s (map_option (ack_then st) (send_ack w req err errstr data t))"
  by (rule evolves_opt_map) (simp_all add: evolves_send_ack ack_then_def)

lemma evolves_ack_error: "evolves b s t \<Longrightarrow> evolves_opt b s (map_option (\<lambda>(_, s). (ST_ERROR, s)) (send_ack w req err errstr data t))"
  by (rule evolves_opt_map) (simp_all add: evolves_send_ack)

lemma evolves_nodes: "evolves b s t \<Longrightarrow> evolves b s (t\<lparr>n_nodes := ns\<rparr>)"
  by (erule evolves_same) simp_all

lemma evolves_worker_data:
  "roster wd = roster (n_worker_data t) \<Longrightarrow> evolves b s t \<Longrightarrow> evolves b s (t\<lparr>n_worker_data := wd\<rparr>)"
  by (erule evolves_same) simp_all

lemma evolves_with_nodes: "evolves b s t \<Longrightarrow> evolves_opt b s (with_nodes t r)"
  by (auto simp: with_nodes_def evolves_nodes evolves_opt_def split: option.split prod.split)

lemma evolves_send_ackD: "send_ack w req err errstr data t = Some (ok, u) \<Longrightarrow> evolves b s t \<Longrightarrow> evolves b s u"
  using evolves_send_ack [of b s t w req err errstr data] by simp

lemma evolves_with_nodesD: "with_nodes t r = Some (ok, u) \<Longrightarrow> evolves b s t \<Longrightarrow> evolves b s u"
  using evolves_with_nodes [of b s t r] by simp

lemmas evolves_sys = evolves_ack_map evolves_ack_error evolves_nodes evolves_worker_data
  evolves_opt_bind_pure evolves_update_conn_state evolves_add_client_conn evolves_emit evolves_tick

lemma evolves_on_req_connect: "evolves b s t \<Longrightarrow> evolves_opt b s (on_req_connect_to_worker w req t)"
  by (auto simp: on_req_connect_to_worker_def Let_def intro!: evolves_sys split: prod.split) (erule (1) evolves_send_ackD)+

lemma evolves_on_rsp_connect: "evolves b s t \<Longrightarrow> evolves_opt b s (on_rsp_connect_to_worker w req t)"
  by (auto simp: on_rsp_connect_to_worker_def Let_def ack_then_def
      intro!: evolves_opt_map evolves_send_req intro: evolves_new_seq split: prod.split)

lemma evolves_on_req_tell: "evolves b s t \<Longrightarrow> evolves_opt b s (on_req_tell_worker w req t)"
  by (auto simp: on_req_tell_worker_def Let_def intro!: evolves_sys split: option.split) (erule (1) evolves_send_ackD)+

lemma evolves_on_rsp_tell: "evolves b s t \<Longrightarrow> evolves_opt b s (on_rsp_tell_worker w req t)"
  by (auto simp: on_rsp_tell_worker_def Let_def intro!: evolves_sys split: option.split)

lemma evolves_on_add_zk: "evolves b s t \<Longrightarrow> evolves_opt b s (on_req_add_zk_node w req t)"
  by (auto simp: on_req_add_zk_node_def intro!: evolves_sys intro: evolves_with_nodesD split: option.split)

lemma evolves_on_del_zk: "evolves b s t \<Longrightarrow> evolves_opt b s (on_req_del_zk_node w req t)"
  by (auto simp: on_req_del_zk_node_def Let_def intro!: evolves_sys intro: evolves_with_nodesD)

lemma evolves_on_reg_zk: "evolves b s t \<Longrightarrow> evolves_opt b s (on_req_reg_zk_node w req t)"
  by (auto simp: on_req_reg_zk_node_def intro!: evolves_sys split: option.split)

lemma evolves_on_req_sync: "evolves b s t \<Longrightarrow> evolves_opt b s (on_req_sync_zk_nodes w req t)"
  by (auto simp: on_req_sync_zk_nodes_def Let_def intro!: evolves_sys)

lemma evolves_on_payload: "evolves b s t \<Longrightarrow> evolves_opt b s (on_req_update_payload w req t)"
  by (auto simp: on_req_update_payload_def Let_def roster_payload intro!: evolves_sys split: option.split)

lemma evolves_on_rsp_sync: "evolves b s t \<Longrightarrow> evolves_opt b s (on_rsp_sync_zk_nodes w req t)"
  by (auto simp: on_rsp_sync_zk_nodes_def evolves_opt_def intro!: evolves_nodes split: option.split)

lemma evolves_opt_if:
  "(P \<Longrightarrow> evolves_opt b s x) \<Longrightarrow> (\<not> P \<Longrightarrow> evolves_opt b s y) \<Longrightarrow> evolves_opt b s (if P then x else y)"
  by simp

lemma evolves_sys_process: "evolves b s t \<Longrightarrow> evolves_opt b s (sys_process w req t)"
  unfolding sys_process_def process_manager_msg_def process_worker_msg_def Let_def on_rsp_add_zk_node_def
    on_rsp_del_zk_node_def on_rsp_reg_zk_node_def on_rsp_update_payload_def
  by (intro evolves_opt_if evolves_on_req_connect evolves_on_rsp_connect evolves_on_req_tell evolves_on_rsp_tell
      evolves_on_add_zk evolves_on_del_zk evolves_on_reg_zk evolves_on_req_sync evolves_on_payload evolves_on_rsp_sync
      evolves_opt_simps(2) [THEN iffD2])

lemma evolves_send_req_connD: "send_req_conn w r cmd sq data t = Some (ok, u) \<Longrightarrow> evolves b s t \<Longrightarrow> evolves b s u"
  using evolves_send_req_conn [of b s t w r cmd sq data] by simp

lemma evolves_send_req_connect: "evolves b s t \<Longrightarrow> evolves_opt b s (send_req_connect_to_worker w r t)"
proof -
  assume st: "evolves b s t"
  obtain q u where q: "new_seq t = (q, u)" by fastforce
  have u: "evolves b s u" using evolves_new_seq [OF st q] .
  show ?thesis
    unfolding send_req_connect_to_worker_def Let_def q prod.case
    using st evolves_send_req_connD [OF _ u]
    by (auto intro!: evolves_opt_bind_pure split: prod.split) (fastforce intro: evolves_put_conn)+
qed

lemma evolves_sys_on_repeat: "evolves b s t \<Longrightarrow> sys_on_repeat_timer w t = Some u \<Longrightarrow> evolves b s u"
proof -
  assume st: "evolves b s t" and u: "sys_on_repeat_timer w t = Some u"
  let ?t = "t\<lparr>n_timer_index := c_int (n_timer_index t + 1)\<rparr>"
  have t: "evolves b s ?t" by (rule evolves_same [OF st]) simp_all
  have "evolves b s x" if "send_parent_sync_zk_nodes w v ?t = Some (ok, x)" for v ok x
    using evolves_req_parent [OF t] that unfolding send_parent_sync_zk_nodes_def by (metis evolves_opt_simps(2))
  then show ?thesis using u st t by (auto simp: sys_on_repeat_timer_def Let_def split: if_splits)
qed

end
