(* ===== verification/Net_Pools.thy ===== *)
theory Net_Pools
  imports Net_State
begin

text \<open>
  How a process reaches redis, the database and its sessions: the functions of
  \<open>src/core/network.cpp\<close> that commands call, and \<open>get_alloc_session\<close> of \<open>src/core/base.h\<close>.

  The record \<open>wait_cmd_info_t\<close> that goes with a request to a pool is the id of the command, by which the
  callback finds it again. What a pool tells its clients is in the pool's own theory; the callbacks
  of the commands are events of their own.
\<close>

text \<open>The pointer \<open>argv\<close> is checked here and in the pool.\<close>

definition net_redis_send_to :: "world \<Rightarrow> string \<Rightarrow> cmd \<Rightarrow> string list \<Rightarrow> network \<Rightarrow> (bool \<times> network) option" where
  "net_redis_send_to w node k argv s =
     (if argv = [] then Some (False, s)
      else do {
        let (res, attach, err, sent) = w_redis w (n_tick s);
        (ok, _, m) \<leftarrow> redis_send_to res attach err sent node argv (k_id k) (n_redis_pool s);
        Some (ok, (tick s)\<lparr>n_redis_pool := m\<rparr>)
      })"

definition net_db_exec :: "world \<Rightarrow> string \<Rightarrow> string \<Rightarrow> cmd \<Rightarrow> network \<Rightarrow> (bool \<times> network) option" where
  "net_db_exec w node sql k s =
     map_option (\<lambda>(ok, m). (ok, (tick s)\<lparr>n_db_pool := m\<rparr>))
       (async_exec (w_db_begin w) (w_mysql w (n_tick s)) node sql (k_id k) (n_db_pool s))"

definition net_db_query :: "world \<Rightarrow> string \<Rightarrow> string \<Rightarrow> cmd \<Rightarrow> network \<Rightarrow> (bool \<times> network) option" where
  "net_db_query w node sql k s =
     map_option (\<lambda>(ok, m). (ok, (tick s)\<lparr>n_db_pool := m\<rparr>))
       (async_query (w_db_begin w) (w_mysql w (n_tick s)) node sql (k_id k) (n_db_pool s))"

definition net_get_session :: "world \<Rightarrow> string \<Rightarrow> bool \<Rightarrow> network \<Rightarrow> session option \<times> network" where
  "net_get_session w sessid re_active s =
     (let (r, m) = get_session (now w s) sessid re_active (n_sessions s) in (r, s\<lparr>n_sessions := m\<rparr>))"

definition net_add_session :: "world \<Rightarrow> session \<Rightarrow> network \<Rightarrow> bool \<times> network" where
  "net_add_session w ss s =
     (let (ok, m, _) = add_session (n_events s) (w_mem w (n_tick s)) (w_lag w (n_tick s)) (now w s) ss (n_sessions s)
      in (ok, (tick s)\<lparr>n_sessions := m\<rparr>))"

text \<open>The result is the id of the session, \<open>None\<close> for \<open>nullptr\<close>.\<close>

definition get_alloc_session :: "world \<Rightarrow> string \<Rightarrow> real \<Rightarrow> bool \<Rightarrow> network \<Rightarrow> string option \<times> network" where
  "get_alloc_session w sessid secs re_active s =
     (case net_get_session w sessid re_active s of
        (Some _, s) \<Rightarrow> (Some sessid, s)
      | (None, s) \<Rightarrow>
          let (q, s) = new_seq s;
              ss = session_init sessid secs (new_session q (now w s));
              (ok, s) = net_add_session w ss s
          in (if ok then Some sessid else None, s))"

section \<open>The network evolves\<close>

lemma evolves_set_pools:
  assumes "evolves b s t"
  shows "evolves b s ((tick t)\<lparr>n_redis_pool := r\<rparr>)" and "evolves b s ((tick t)\<lparr>n_db_pool := d\<rparr>)"
    and "evolves b s (t\<lparr>n_sessions := m\<rparr>)" and "evolves b s ((tick t)\<lparr>n_sessions := m\<rparr>)"
    and "evolves b s (t\<lparr>n_redis_pool := r\<rparr>)" and "evolves b s (t\<lparr>n_db_pool := d\<rparr>)"
  by (rule evolves_same [OF assms]; simp add: tick_def)+

lemma evolves_redis: "evolves b s t \<Longrightarrow> evolves_opt b s (net_redis_send_to w node k argv t)"
  by (auto simp: net_redis_send_to_def evolves_set_pools intro!: evolves_opt_bind_pure split: prod.split)

lemma evolves_db:
  "evolves b s t \<Longrightarrow> evolves_opt b s (net_db_exec w node sql k t)"
  "evolves b s t \<Longrightarrow> evolves_opt b s (net_db_query w node sql k t)"
  by (auto simp: net_db_exec_def net_db_query_def evolves_opt_def evolves_set_pools split: option.split prod.split)

lemma evolves_get_session: "evolves b s t \<Longrightarrow> evolves b s (snd (net_get_session w sessid re t))"
  by (simp add: net_get_session_def evolves_set_pools split: prod.split)

lemma evolves_add_session: "evolves b s t \<Longrightarrow> evolves b s (snd (net_add_session w ss t))"
  by (simp add: net_add_session_def evolves_set_pools split: prod.split)

lemma evolves_alloc_session: "evolves b s t \<Longrightarrow> evolves b s (snd (get_alloc_session w sessid secs re t))"
proof -
  assume st: "evolves b s t"
  obtain r u where g: "net_get_session w sessid re t = (r, u)" by fastforce
  have u: "evolves b s u" using evolves_get_session [OF st, of w sessid re] g by simp
  obtain q v where q: "new_seq u = (q, v)" by fastforce
  have "evolves b s (snd (net_add_session w ss v))" for ss by (rule evolves_add_session [OF evolves_new_seq [OF u q]])
  then show ?thesis using u by (simp add: get_alloc_session_def g q Let_def split: option.split prod.split) (metis snd_conv)
qed

end
