(* ===== verification/Module_Mgr.thy ===== *)
theory Module_Mgr
  imports Sys_Cmd Net_Pools
begin

text \<open>
  The modules of a worker and the commands they run: \<open>src/core/module_mgr.cpp\<close>, \<open>module.cpp\<close>,
  \<open>cmd.cpp\<close> and the macros of \<open>module.h\<close>. A module is a shared object with tables of handlers; a
  handler may create a command, an object that answers at once or is kept until a callback or a
  time out ends it.

  The virtual functions of the user's classes are the parameter \<open>user_code\<close>: the routing tables of
  a module, and the functions of a command, which get the command and may change it. What the
  server needs of them is the locale \<open>command_code\<close>.
\<close>

section \<open>The user's code\<close>

text \<open>The \<open>void* data\<close> of a callback: a request, a redis reply (type and text) or the rows of a query.\<close>

datatype cb_data = D_null | D_request request | D_redis int string | D_rows "string list list"

type_synonym cmd_result = "(cmd_status \<times> cmd \<times> network) option"
type_synonym handler = "request \<Rightarrow> network \<Rightarrow> (cmd_status \<times> network) option"

record cmd_code =
  cc_init :: "cmd \<Rightarrow> bool \<times> cmd"
  cc_execute :: "cmd \<Rightarrow> request \<Rightarrow> network \<Rightarrow> cmd_result"
  cc_callback :: "cmd \<Rightarrow> int \<Rightarrow> cb_data \<Rightarrow> network \<Rightarrow> cmd_result"
  cc_timeout :: "cmd \<Rightarrow> network \<Rightarrow> cmd_result"

record user_code =
  uc_cmds :: cmd_code
  uc_http :: "module_t \<Rightarrow> (string \<times> handler) list"
  uc_proto :: "module_t \<Rightarrow> (int \<times> handler) list"

section \<open>Commands\<close>

text \<open>\<open>Cmd::response_http(data, status_code)\<close> and \<open>Cmd::response_tcp\<close>.\<close>

definition http_answer :: "int \<Rightarrow> int \<Rightarrow> int \<Rightarrow> string \<Rightarrow> http_msg" where
  "http_answer major minor code data =
     empty_http\<lparr>hm_type := HTTP_RESPONSE, hm_status_code := code, hm_http_major := major, hm_http_minor := minor,
       hm_body := data\<rparr>"

definition cmd_response_http :: "world \<Rightarrow> cmd \<Rightarrow> string \<Rightarrow> int \<Rightarrow> network \<Rightarrow> (bool \<times> network) option" where
  "cmd_response_http w k data status_code s =
     (if \<not> rq_is_http (k_req k) then Some (False, s)
      else
        let req_msg = rq_http (k_req k)
        in send_to_fd_http w (rq_fd_data (k_req k))
             (http_answer (hm_http_major req_msg) (hm_http_minor req_msg) status_code data) s)"

definition cmd_response_json ::
  "world \<Rightarrow> cmd \<Rightarrow> int \<Rightarrow> string \<Rightarrow> (string \<times> string) list option \<Rightarrow> int \<Rightarrow> network \<Rightarrow> (bool \<times> network) option" where
  "cmd_response_json w k err errstr data status_code s =
     cmd_response_http w k (sl_reply_json (w_sys w) err errstr data) status_code s"

definition cmd_response_tcp :: "world \<Rightarrow> cmd \<Rightarrow> int \<Rightarrow> string \<Rightarrow> string \<Rightarrow> network \<Rightarrow> (bool \<times> network) option" where
  "cmd_response_tcp w k err errstr data s = send_ack w (k_req k) err errstr data s"

text \<open>\<open>Cmd::redis_send_to\<close>, \<open>db_exec\<close> and \<open>db_query\<close>.\<close>

definition running_if :: "bool \<times> network \<Rightarrow> cmd_status \<times> network" where
  "running_if r = (if fst r then ST_RUNNING else ST_ERROR, snd r)"

definition cmd_redis_send_to :: "world \<Rightarrow> cmd \<Rightarrow> string \<Rightarrow> string list \<Rightarrow> network \<Rightarrow> (cmd_status \<times> network) option" where
  "cmd_redis_send_to w k node argv s = map_option running_if (net_redis_send_to w node k argv s)"

definition cmd_db_exec :: "world \<Rightarrow> cmd \<Rightarrow> string \<Rightarrow> string \<Rightarrow> network \<Rightarrow> (cmd_status \<times> network) option" where
  "cmd_db_exec w k node sql s = map_option running_if (net_db_exec w node sql k s)"

definition cmd_db_query :: "world \<Rightarrow> cmd \<Rightarrow> string \<Rightarrow> string \<Rightarrow> network \<Rightarrow> (cmd_status \<times> network) option" where
  "cmd_db_query w k node sql s = map_option running_if (net_db_query w node sql k s)"

text \<open>The base class: \<open>execute\<close> and \<open>on_callback\<close> run \<open>execute_steps\<close>, which by itself answers \<open>OK\<close>.\<close>

definition base_execute_steps :: "cmd \<Rightarrow> int \<Rightarrow> cb_data \<Rightarrow> network \<Rightarrow> cmd_result" where
  "base_execute_steps k err data s = Some (ST_OK, k, s)"

definition execute_next_step ::
  "(cmd \<Rightarrow> int \<Rightarrow> cb_data \<Rightarrow> network \<Rightarrow> cmd_result) \<Rightarrow> int \<Rightarrow> cb_data \<Rightarrow> int \<Rightarrow> cmd \<Rightarrow> network \<Rightarrow> cmd_result" where
  "execute_next_step execute_steps err data step k s = execute_steps (set_next_step step k) err data s"

section \<open>Running a command\<close>

text \<open>
  \<open>Module::execute_cmd\<close>. A command that does not go on is deleted; else it enters the table of the
  network and gets its timer.
\<close>

definition execute_cmd :: "world \<Rightarrow> cmd_code \<Rightarrow> cmd \<Rightarrow> request \<Rightarrow> network \<Rightarrow> (cmd_status \<times> network) option" where
  "execute_cmd w cc k req s =
     do {
       (ret, k, s) \<leftarrow> cc_execute cc k req s;
       if ret \<noteq> ST_RUNNING then Some (ret, s)
       else
         let (ok, s) = add_cmd k s
         in if \<not> ok then Some (ST_ERROR, s)
            else case add_cmd_timer (n_events s) (w_mem w (n_tick s)) (w_lag w (n_tick s)) CMD_TIMEOUT_VAL (k_timer k) of
                   None \<Rightarrow> Some (ST_ERROR, snd (del_cmd (k_id k) (tick s)))
                 | Some t \<Rightarrow> Some (ret, put_cmd (k\<lparr>k_timer := Some t\<rparr>) (tick s))
     }"

text \<open>The macro \<open>HANDLE_CMD\<close>: a new command with a fresh id.\<close>

definition handle_cmd :: "world \<Rightarrow> cmd_code \<Rightarrow> string \<Rightarrow> handler" where
  "handle_cmd w cc name req s =
     (let (q, s) = new_seq s;
          (ok, k) = cc_init cc (new_cmd w q name req s)
      in if \<not> ok then Some (ST_ERROR, s) else execute_cmd w cc k req s)"

text \<open>\<open>Module::response_http\<close>.\<close>

definition module_response_http :: "world \<Rightarrow> fd_t \<Rightarrow> string \<Rightarrow> int \<Rightarrow> network \<Rightarrow> (cmd_status \<times> network) option" where
  "module_response_http w f data status_code s =
     map_option (ack_then ST_OK) (send_to_fd_http w f (http_answer 1 1 status_code data) s)"

text \<open>\<open>process_req\<close> as the macro \<open>REGISTER_HANDLER\<close> defines it: routing by path or by command number.\<close>

definition module_process_req :: "user_code \<Rightarrow> module_t \<Rightarrow> handler" where
  "module_process_req u m req s =
     (if rq_is_http req then
        (case map_of (uc_http u m) (hm_path (rq_http req)) of None \<Rightarrow> Some (ST_UNKOWN, s) | Some f \<Rightarrow> f req s)
      else
        (case map_of (uc_proto u m) (c_int (int (mh_cmd (rq_head req)))) of
           None \<Rightarrow> Some (ST_UNKOWN, s) | Some f \<Rightarrow> f req s))"

fun process_req_loop :: "user_code \<Rightarrow> (nat \<times> module_t) list \<Rightarrow> handler" where
  "process_req_loop u [] req s = Some (ST_UNKOWN, s)"
| "process_req_loop u ((_, m) # ms) req s =
     do {
       (cmd_stat, s) \<leftarrow> module_process_req u m req s;
       if cmd_stat \<noteq> ST_UNKOWN then Some (cmd_stat, s) else process_req_loop u ms req s
     }"

text \<open>\<open>ModuleMgr::process_req\<close> and \<open>process_ack\<close>; a null manager of modules is a crash.\<close>

definition mgr_process_req :: "user_code \<Rightarrow> handler" where
  "mgr_process_req u req s = do { ms \<leftarrow> n_module_mgr s; process_req_loop u ms req s }"

text \<open>
  After a virtual function that did not answer \<open>RUNNING\<close> the pointer is used again to delete the
  command: it must still be in the table.
\<close>

definition finish_cmd :: "cmd_status \<times> cmd \<times> network \<Rightarrow> (cmd_status \<times> network) option" where
  "finish_cmd r =
     (case r of (ret, k, s) \<Rightarrow>
        if ret \<noteq> ST_RUNNING then
          do { _ \<leftarrow> get_cmd s (k_id k); Some (ret, snd (del_cmd (k_id k) s)) }
        else Some (ret, if get_cmd s (k_id k) = None then s else put_cmd k s))"

definition process_ack :: "user_code \<Rightarrow> handler" where
  "process_ack u req s =
     do {
       ms \<leftarrow> n_module_mgr s;
       case get_cmd s (mh_seq (rq_head req)) of
         None \<Rightarrow> Some (ST_UNKOWN, s)
       | Some k \<Rightarrow> do { r \<leftarrow> cc_callback (uc_cmds u) k ERR_OK (D_request req) s; finish_cmd r }
     }"

section \<open>Loading modules\<close>

text \<open>\<open>access\<close>, \<open>dlopen\<close> (a handle) and whether the object has the symbol \<open>create\<close>.\<close>

record dl_lib =
  dl_access :: "string \<Rightarrow> bool"
  dl_open :: "string \<Rightarrow> nat option"
  dl_create :: "nat \<Rightarrow> bool"

text \<open>The loop of \<open>get_module(name)\<close>: without a match its result is the last module it looked at.\<close>

fun get_module_loop :: "(nat \<times> module_t) list \<Rightarrow> string \<Rightarrow> module_t option \<Rightarrow> module_t option" where
  "get_module_loop [] name m = m"
| "get_module_loop ((_, m) # ms) name _ = (if c_str (mo_name m) = name then Some m else get_module_loop ms name (Some m))"

definition get_module :: "(nat \<times> module_t) list \<Rightarrow> string \<Rightarrow> module_t option" where
  "get_module ms name = get_module_loop ms name None"

definition load_so ::
  "dl_lib \<Rightarrow> string \<Rightarrow> string \<Rightarrow> nat \<Rightarrow> (nat \<times> module_t) list \<Rightarrow> network \<Rightarrow> bool \<times> (nat \<times> module_t) list \<times> network" where
  "load_so dl name path i ms s =
     (if get_module ms name \<noteq> None then (False, ms, s)
      else case dl_open dl path of
             None \<Rightarrow> (False, ms, s)
           | Some h \<Rightarrow>
               if \<not> dl_create dl h then (False, ms, s)
               else
                 let (i, s) = (if i \<noteq> 0 then (i, s) else new_seq s)
                 in (True, uset ms i \<lparr>mo_id = i, mo_name = name, mo_path = path, mo_handle = h\<rparr>, s))"

definition unload_so :: "string \<Rightarrow> (nat \<times> module_t) list \<Rightarrow> bool \<times> (nat \<times> module_t) list" where
  "unload_so name ms =
     (case get_module ms name of None \<Rightarrow> (False, ms) | Some m \<Rightarrow> (True, uerase ms (mo_id m)))"

definition module_path :: "string \<Rightarrow> string \<Rightarrow> string" where
  "module_path work_path name = work_path @ ''/modules/'' @ name"

definition reload_so ::
  "dl_lib \<Rightarrow> string \<Rightarrow> string \<Rightarrow> (nat \<times> module_t) list \<Rightarrow> network \<Rightarrow> bool \<times> (nat \<times> module_t) list \<times> network" where
  "reload_so dl work_path name ms s =
     (let path = module_path work_path name
      in if \<not> dl_access dl path then (False, ms, s)
         else
           let i = (case get_module ms name of None \<Rightarrow> 0 | Some m \<Rightarrow> mo_id m);
               (_, ms) = unload_so name ms
           in load_so dl name path i ms s)"

text \<open>\<open>ModuleMgr::init\<close>.\<close>

fun modules_init ::
  "dl_lib \<Rightarrow> string \<Rightarrow> string list \<Rightarrow> (nat \<times> module_t) list \<Rightarrow> network \<Rightarrow> bool \<times> (nat \<times> module_t) list \<times> network" where
  "modules_init dl work_path [] ms s = (True, ms, s)"
| "modules_init dl work_path (name # names) ms s =
     (let path = module_path work_path name
      in if \<not> dl_access dl path then (False, ms, s)
         else case load_so dl name path 0 ms s of
                (False, ms, s) \<Rightarrow> (False, ms, s)
              | (True, ms, s) \<Rightarrow> modules_init dl work_path names ms s)"

section \<open>What the server relies on\<close>

lemma evolves_weaken: "evolves True s t \<Longrightarrow> evolves b s t"
proof -
  have key: "key True c = key True c' \<Longrightarrow> key b c = key b c'" for c c' by (simp add: key_def)
  show "evolves True s t \<Longrightarrow> evolves b s t"
    unfolding evolves_def evolves_ok_def using key by meson
qed

text \<open>
  The contract of a command's virtual functions: they act on the network through its operations
  only, so the network evolves, and they do not read from connections.
\<close>

locale command_code =
  fixes cc :: cmd_code
  assumes execute_evolves: "cc_execute cc k req s = Some (st, k', s') \<Longrightarrow> evolves True s s'"
    and callback_evolves: "cc_callback cc k err data s = Some (st, k', s') \<Longrightarrow> evolves True s s'"
    and timeout_evolves: "cc_timeout cc k s = Some (st, k', s') \<Longrightarrow> evolves True s s'"
begin

lemma evolves_execute_cmd:
  assumes "evolves b s t"
  shows "evolves_opt b s (execute_cmd w cc k req t)"
proof (cases "cc_execute cc k req t")
  case (Some r)
  obtain ret k' u where r: "r = (ret, k', u)" by (cases r)
  have u: "evolves b s u" using assms execute_evolves Some r evolves_weaken evolves_trans by blast
  obtain ok v where v: "add_cmd k' u = (ok, v)" by fastforce
  have "evolves b s v" using evolves_cmd_ops(1) [OF u, of k'] v by simp
  then show ?thesis
    using Some r u v
    by (auto simp: execute_cmd_def intro!: evolves_cmd_ops evolves_tick split: option.split)
qed (simp add: execute_cmd_def)

lemma evolves_handle_cmd: "evolves b s t \<Longrightarrow> evolves_opt b s (handle_cmd w cc name req t)"
  by (auto simp: handle_cmd_def intro!: evolves_execute_cmd intro: evolves_new_seq split: prod.split)

lemma evolves_finish: "evolves b s t \<Longrightarrow> evolves_opt b s (finish_cmd (ret, k, t))"
  by (auto simp: finish_cmd_def intro!: evolves_opt_bind_pure evolves_cmd_ops)

end

locale module_code = command_code "uc_cmds u" for u :: user_code +
  assumes http_evolves: "(p, f) \<in> set (uc_http u m) \<Longrightarrow> f req s = Some (st, s') \<Longrightarrow> evolves True s s'"
    and proto_evolves: "(i, f) \<in> set (uc_proto u m) \<Longrightarrow> f req s = Some (st, s') \<Longrightarrow> evolves True s s'"
begin

lemma module_evolves: "module_process_req u m req t = Some (st, t') \<Longrightarrow> evolves True t t'"
  by (auto simp: module_process_req_def dest!: map_of_SomeD intro: http_evolves proto_evolves
      split: if_splits option.splits)

lemma process_req_loop_evolves: "process_req_loop u ms req t = Some (st, t') \<Longrightarrow> evolves True t t'"
proof (induction ms arbitrary: t)
  case (Cons a ms)
  obtain i m where a: "a = (i, m)" by (cases a)
  obtain st1 t1 where 1: "module_process_req u m req t = Some (st1, t1)"
    using Cons.prems a by (cases "module_process_req u m req t") auto
  then show ?case
    using Cons.prems Cons.IH [of t1] module_evolves [OF 1] a by (auto intro: evolves_trans split: if_splits)
qed simp

lemma process_req_evolves: "mgr_process_req u req t = Some (st, t') \<Longrightarrow> evolves True t t'"
  by (cases "n_module_mgr t") (auto simp: mgr_process_req_def intro: process_req_loop_evolves)

lemma process_ack_evolves:
  assumes "process_ack u req t = Some (st, t')"
  shows "evolves True t t'"
proof (cases "get_cmd t (mh_seq (rq_head req))")
  case None
  then show ?thesis using assms by (cases "n_module_mgr t") (auto simp: process_ack_def)
next
  case (Some k)
  obtain r where r: "cc_callback (uc_cmds u) k ERR_OK (D_request req) t = Some r" "finish_cmd r = Some (st, t')"
    using assms Some by (cases "n_module_mgr t"; cases "cc_callback (uc_cmds u) k ERR_OK (D_request req) t") (auto simp: process_ack_def)
  obtain ret k' v where v: "r = (ret, k', v)" by (cases r)
  have "evolves True t v" using callback_evolves r(1) v by blast
  from evolves_finish [OF this, of ret k'] show ?thesis using r(2) v by simp
qed

end

end
