(* ===== verification/Zk_Client.thy ===== *)
theory Zk_Client
  imports Sys_Cmd
begin

text \<open>
  The main thread's half of the zookeeper client, \<open>src/core/zk_client.cpp\<close>: connecting, the timer that
  hands out the answers of the background thread, and the handlers that keep the node table and tell
  the workers about it. The client is the field \<open>n_zk\<close> of the manager's network; its tasks run in
  \<open>Zk_Register\<close>. \<open>None\<close> is a crash, also the use of the queue's mutex before it is initialised.
\<close>

section \<open>The client in the network\<close>

definition put_zk :: "zk_client \<Rightarrow> network \<Rightarrow> network" where
  "put_zk zc s = s\<lparr>n_zk := Some zc\<rparr>"

definition zk_add_task :: "world \<Rightarrow> string \<Rightarrow> zk_cmd \<Rightarrow> string \<Rightarrow> network \<Rightarrow> network option" where
  "zk_add_task w path cmd value s =
     do {
       zc \<leftarrow> n_zk s;
       b \<leftarrow> add_cmd_task path cmd value (ze_now (w_zk w) (length (zs_calls (z_side zc)))) (z_bio zc);
       Some (put_zk (zc\<lparr>z_bio := b\<rparr>) s)
     }"

text \<open>The background thread, between two steps of the main thread.\<close>

definition zk_thread_step :: "world \<Rightarrow> network \<Rightarrow> network option" where
  "zk_thread_step w s =
     do {
       zc \<leftarrow> n_zk s;
       (b, side) \<leftarrow> thread_step (bio_process_cmd (w_zk w) (z_conf zc)) (z_bio zc, z_side zc);
       Some (put_zk (zc\<lparr>z_bio := b, z_side := side\<rparr>) s)
     }"

section \<open>Connecting\<close>

text \<open>
  The object with \<open>old_path\<close> that the function builds is not the one it sends: the task carries the
  client's own configuration.
\<close>

definition node_register :: "world \<Rightarrow> network \<Rightarrow> (bool \<times> network) option" where
  "node_register w s =
     do {
       zc \<leftarrow> n_zk s;
       if zc_no_zookeeper (z_conf zc) then Some (False, s)
       else map_option (Pair True) (zk_add_task w '''' ZK_REGISTER (ze_config_text (w_zk w) (z_conf zc)) s)
     }"

definition zk_client_connect :: "world \<Rightarrow> string \<Rightarrow> network \<Rightarrow> (bool \<times> network) option" where
  "zk_client_connect w servers s =
     (if servers = [] then Some (False, s)
      else do {
        zc \<leftarrow> n_zk s;
        let (ret, side) = zk_connect (w_zk w) servers (z_side zc);
        let s = put_zk (zc\<lparr>z_side := side\<rparr>) s;
        if ret \<noteq> z_ok then Some (False, s)
        else do {
          (ok, b) \<leftarrow> bio_init (ze_stack_size (w_zk w)) (ze_thread_ok (w_zk w)) (z_bio zc);
          Some (ok, put_zk (zc\<lparr>z_side := side, z_bio := b\<rparr>) s)
        }
      })"

definition zk_init :: "world \<Rightarrow> zk_conf \<Rightarrow> network \<Rightarrow> (bool \<times> network) option" where
  "zk_init w conf s =
     do {
       zc \<leftarrow> n_zk s;
       let s = put_zk (zc\<lparr>z_conf := conf\<rparr>) s;
       if zc_no_zookeeper conf \<or> zc_servers conf = [] \<or> zc_log_path conf = [] then Some (False, s)
       else do {
         (ok, s) \<leftarrow> zk_client_connect w (zc_servers conf) (put_zk (zc\<lparr>z_conf := conf, z_has_zk := True\<rparr>) s);
         if \<not> ok then Some (False, s) else node_register w s
       }
     }"

text \<open>\<open>m_zk\<close> is dereferenced.\<close>

definition reconnect :: "world \<Rightarrow> network \<Rightarrow> (bool \<times> network) option" where
  "reconnect w s =
     do {
       zc \<leftarrow> n_zk s;
       if \<not> z_has_zk zc then None
       else
         let (ret, side) = zk_connect (w_zk w) (zc_servers (z_conf zc)) (z_side zc);
             s = put_zk (zc\<lparr>z_side := side\<rparr>) s
         in if ret \<noteq> z_ok then Some (False, s) else node_register w s
     }"

definition set_payload_data :: "world \<Rightarrow> string \<Rightarrow> network \<Rightarrow> (bool \<times> network) option" where
  "set_payload_data w data s =
     do {
       zc \<leftarrow> n_zk s;
       if \<not> z_has_zk zc \<or> \<not> z_is_connected zc \<or> zs_payload_path (z_side zc) = [] then Some (False, s)
       else map_option (Pair True) (zk_add_task w (zs_payload_path (z_side zc)) ZK_SET_DATA data s)
     }"

section \<open>The watcher\<close>

text \<open>The events and the states of the C library that the client tells apart.\<close>

datatype zoo_state = ZOO_CONNECTING_STATE | ZOO_CONNECTED_STATE | ZOO_EXPIRED_SESSION_STATE | ZOO_other_state

datatype zoo_event =
    ZOO_SESSION_EVENT | ZOO_CREATED_EVENT | ZOO_DELETED_EVENT | ZOO_CHANGED_EVENT | ZOO_CHILD_EVENT | ZOO_other_event

definition watch_cmd :: "zoo_event \<Rightarrow> zoo_state \<Rightarrow> zk_cmd option" where
  "watch_cmd ty state =
     (case ty of
        ZOO_SESSION_EVENT \<Rightarrow>
          (case state of
             ZOO_CONNECTING_STATE \<Rightarrow> Some NOTIFY_SESSION_CONNECTING
           | ZOO_CONNECTED_STATE \<Rightarrow> Some NOTIFY_SESSION_CONNECTD
           | ZOO_EXPIRED_SESSION_STATE \<Rightarrow> Some NOTIFY_SESSION_EXPIRED
           | ZOO_other_state \<Rightarrow> None)
      | ZOO_CREATED_EVENT \<Rightarrow> Some NOTIFY_NODE_CREATED
      | ZOO_DELETED_EVENT \<Rightarrow> Some NOTIFY_NODE_DELETED
      | ZOO_CHANGED_EVENT \<Rightarrow> Some NOTIFY_NODE_DATA_CAHNGED
      | ZOO_CHILD_EVENT \<Rightarrow> Some NOTIFY_NODE_CHILD_CAHNGED
      | ZOO_other_event \<Rightarrow> None)"

definition on_zk_watch_events :: "world \<Rightarrow> zoo_event \<Rightarrow> zoo_state \<Rightarrow> string option \<Rightarrow> network \<Rightarrow> network option" where
  "on_zk_watch_events w ty state path s =
     (let path_str = (case path of None \<Rightarrow> '''' | Some p \<Rightarrow> c_str p)
      in case watch_cmd ty state of None \<Rightarrow> Some s | Some cmd \<Rightarrow> zk_add_task w path_str cmd '''' s)"

section \<open>Answers\<close>

definition set_flags :: "(zk_client \<Rightarrow> zk_client) \<Rightarrow> network \<Rightarrow> network option" where
  "set_flags f s = map_option (\<lambda>zc. put_zk (f zc) s) (n_zk s)"

definition on_zk_session_connected :: "network \<Rightarrow> network option" where
  "on_zk_session_connected s = set_flags (\<lambda>zc. zc\<lparr>z_is_connected := True, z_is_expired := False\<rparr>) s"

definition on_zk_session_connecting :: "network \<Rightarrow> network option" where
  "on_zk_session_connecting s = set_flags (\<lambda>zc. zc\<lparr>z_is_connected := False\<rparr>) s"

definition on_zk_session_expired :: "world \<Rightarrow> network \<Rightarrow> network option" where
  "on_zk_session_expired w s =
     do {
       s \<leftarrow> set_flags (\<lambda>zc. zc\<lparr>z_is_connected := False, z_is_registered := False, z_is_expired := True\<rparr>) s;
       map_option snd (reconnect w s)
     }"

text \<open>The loop over the nodes of a registration: the table and the nodes that were added.\<close>

fun load_json_nodes ::
  "(string \<Rightarrow> string) \<Rightarrow> (string \<Rightarrow> zk_node option) \<Rightarrow> string list \<Rightarrow> nodes \<Rightarrow> zk_node list \<Rightarrow> (nodes \<times> zk_node list) option" where
  "load_json_nodes md5 to_zk [] ns added = Some (ns, added)"
| "load_json_nodes md5 to_zk (j # js) ns added =
     (case to_zk j of
        None \<Rightarrow> load_json_nodes md5 to_zk js ns added
      | Some zn \<Rightarrow>
          do {
            (ok, ns) \<leftarrow> add_zk_node md5 ns zn;
            load_json_nodes md5 to_zk js ns (if ok then added @ [zn] else added)
          })"

definition on_zk_register :: "world \<Rightarrow> zk_task \<Rightarrow> network \<Rightarrow> network option" where
  "on_zk_register w task s =
     (if zr_error (zt_res task) \<noteq> z_ok then Some s
      else case ze_parse_res (w_zk w) (zr_value (zt_res task)) of
             None \<Rightarrow> Some s
           | Some (my_zk_path, json_nodes) \<Rightarrow>
               do {
                 s \<leftarrow> set_flags (\<lambda>zc. zc\<lparr>z_register_index := 0, z_is_registered := True\<rparr>) s;
                 let ns = (nodes_clear (n_nodes s))\<lparr>m_my_zk_node := my_zk_path\<rparr>;
                 (ns, added) \<leftarrow> load_json_nodes (w_md5 w) (ze_to_zk (w_zk w)) json_nodes ns [];
                 let rn = \<lparr>rn_version = 0, rn_my_zk_path = my_zk_path, rn_nodes = added\<rparr>;
                 map_option snd (send_children_reg_zk_node w rn (s\<lparr>n_nodes := ns\<rparr>))
               })"

definition tell_deleted :: "world \<Rightarrow> string \<Rightarrow> network \<Rightarrow> network option" where
  "tell_deleted w path s =
     do {
       (ok, s) \<leftarrow> with_nodes s (del_zk_node (n_nodes s) path);
       if ok then map_option snd (send_children_del_zk_node w path s) else Some s
     }"

definition on_zk_node_deleted :: "world \<Rightarrow> zk_task \<Rightarrow> network \<Rightarrow> network option" where
  "on_zk_node_deleted w task s = tell_deleted w (zt_path task) s"

text \<open>The common body of \<open>on_zk_get_data\<close> and \<open>on_zk_data_change\<close>.\<close>

definition take_node_data :: "world \<Rightarrow> zk_task \<Rightarrow> network \<Rightarrow> network option" where
  "take_node_data w task s =
     (if zr_error (zt_res task) \<noteq> z_ok then Some s
      else case ze_to_zk (w_zk w) (zr_value (zt_res task)) of
             None \<Rightarrow> Some s
           | Some node \<Rightarrow>
               do {
                 (ok, s) \<leftarrow> with_nodes s (add_zk_node (w_md5 w) (n_nodes s) node);
                 if ok then map_option snd (send_children_add_zk_node w node s) else Some s
               })"

definition on_zk_get_data :: "world \<Rightarrow> zk_task \<Rightarrow> network \<Rightarrow> network option" where
  "on_zk_get_data w task s = take_node_data w task s"

definition on_zk_data_change :: "world \<Rightarrow> zk_task \<Rightarrow> network \<Rightarrow> network option" where
  "on_zk_data_change w task s = take_node_data w task s"

fun get_new_nodes :: "world \<Rightarrow> string list \<Rightarrow> network \<Rightarrow> network option" where
  "get_new_nodes w [] s = Some s"
| "get_new_nodes w (p # ps) s = do { s \<leftarrow> zk_add_task w p ZK_GET '''' s; get_new_nodes w ps s }"

fun del_old_nodes :: "world \<Rightarrow> string list \<Rightarrow> network \<Rightarrow> network option" where
  "del_old_nodes w [] s = Some s"
| "del_old_nodes w (p # ps) s = do { s \<leftarrow> tell_deleted w p s; del_old_nodes w ps s }"

definition on_zk_child_change :: "world \<Rightarrow> zk_task \<Rightarrow> network \<Rightarrow> network option" where
  "on_zk_child_change w task s =
     (if zr_error (zt_res task) \<noteq> z_ok then Some s
      else
        let children = map (join_path (zt_path task)) (zr_values (zt_res task));
            ty = last_part (zt_path task);
            (new_paths, del_paths) = get_zk_diff_nodes (n_nodes s) ty children
        in do { s \<leftarrow> get_new_nodes w new_paths s; del_old_nodes w del_paths s })"

definition timer_process_ack :: "world \<Rightarrow> zk_task \<Rightarrow> network \<Rightarrow> network option" where
  "timer_process_ack w task s =
     (case zt_cmd task of
        ZK_REGISTER \<Rightarrow> on_zk_register w task s
      | ZK_GET \<Rightarrow> on_zk_get_data w task s
      | ZK_SET_DATA \<Rightarrow> Some s
      | NOTIFY_SESSION_CONNECTING \<Rightarrow> on_zk_session_connecting s
      | NOTIFY_SESSION_CONNECTD \<Rightarrow> on_zk_session_connected s
      | NOTIFY_SESSION_EXPIRED \<Rightarrow> on_zk_session_expired w s
      | NOTIFY_NODE_CREATED \<Rightarrow> Some s
      | NOTIFY_NODE_DELETED \<Rightarrow> on_zk_node_deleted w task s
      | NOTIFY_NODE_DATA_CAHNGED \<Rightarrow> on_zk_data_change w task s
      | NOTIFY_NODE_CHILD_CAHNGED \<Rightarrow> on_zk_child_change w task s
      | _ \<Rightarrow> Some s)"

section \<open>The timer\<close>

fun process_acks :: "world \<Rightarrow> zk_task list \<Rightarrow> network \<Rightarrow> network option" where
  "process_acks w [] s = Some s"
| "process_acks w (t # ts) s = do { s \<leftarrow> timer_process_ack w t s; process_acks w ts s }"

definition handle_acks :: "world \<Rightarrow> network \<Rightarrow> network option" where
  "handle_acks w s =
     do {
       zc \<leftarrow> n_zk s;
       (tasks, b) \<leftarrow> fetch_acks (z_bio zc);
       process_acks w tasks (put_zk (zc\<lparr>z_bio := b\<rparr>) s)
     }"

text \<open>\<open>++m_register_index\<close> happens only when the client is connected or expired and not registered.\<close>

definition retry_register :: "world \<Rightarrow> network \<Rightarrow> network option" where
  "retry_register w s =
     do {
       zc \<leftarrow> n_zk s;
       if (z_is_connected zc \<or> z_is_expired zc) \<and> \<not> z_is_registered zc then
         let i = c_int (z_register_index zc + 1);
             s = put_zk (zc\<lparr>z_register_index := i\<rparr>) s
         in if i > 9 then do {
              (_, s) \<leftarrow> reconnect w s;
              set_flags (\<lambda>zc. zc\<lparr>z_register_index := 0\<rparr>) s
            } else Some s
       else Some s
     }"

definition zk_on_repeat_timer :: "world \<Rightarrow> network \<Rightarrow> network option" where
  "zk_on_repeat_timer w s = do { s \<leftarrow> retry_register w s; handle_acks w s }"

section \<open>The client evolves\<close>

lemma evolves_put_zk: "evolves b s t \<Longrightarrow> evolves b s (put_zk zc t)"
  by (erule evolves_same) (simp_all add: put_zk_def)

lemma evolves_add_task: "zk_add_task w path cmd value t = Some u \<Longrightarrow> evolves b s t \<Longrightarrow> evolves b s u"
  by (auto simp: zk_add_task_def intro: evolves_put_zk split: bind_splits)

lemma evolves_zk_thread: "evolves b s t \<Longrightarrow> zk_thread_step w t = Some u \<Longrightarrow> evolves b s u"
  by (auto simp: zk_thread_step_def intro: evolves_put_zk split: bind_splits)

lemma evolves_zk_watch: "evolves b s t \<Longrightarrow> on_zk_watch_events w ty st path t = Some u \<Longrightarrow> evolves b s u"
  by (auto simp: on_zk_watch_events_def Let_def intro: evolves_add_task split: option.splits)

lemma evolves_node_register: "node_register w t = Some (ok, u) \<Longrightarrow> evolves b s t \<Longrightarrow> evolves b s u"
  by (auto simp: node_register_def intro: evolves_add_task split: bind_splits if_splits)

lemma evolves_reconnect: "reconnect w t = Some (ok, u) \<Longrightarrow> evolves b s t \<Longrightarrow> evolves b s u"
  by (auto simp: reconnect_def Let_def intro: evolves_node_register evolves_put_zk split: bind_splits if_splits prod.splits)

lemma evolves_set_payload: "evolves b s t \<Longrightarrow> evolves_opt b s (set_payload_data w d t)"
  by (auto simp: set_payload_data_def evolves_opt_def intro: evolves_add_task split: option.splits bind_splits if_splits)

lemma evolves_set_flags: "set_flags f t = Some u \<Longrightarrow> evolves b s t \<Longrightarrow> evolves b s u"
  by (auto simp: set_flags_def intro: evolves_put_zk)

lemma evolves_reg_zk: "send_children_reg_zk_node w rn t = Some (ok, u) \<Longrightarrow> evolves b s t \<Longrightarrow> evolves b s u"
  using evolves_req_children unfolding send_children_reg_zk_node_def by (metis evolves_opt_simps(2))

lemma evolves_tell_add: "send_children_add_zk_node w n t = Some (ok, u) \<Longrightarrow> evolves b s t \<Longrightarrow> evolves b s u"
  using evolves_req_children unfolding send_children_add_zk_node_def by (metis evolves_opt_simps(2))

lemma evolves_tell_del: "send_children_del_zk_node w p t = Some (ok, u) \<Longrightarrow> evolves b s t \<Longrightarrow> evolves b s u"
  using evolves_req_children unfolding send_children_del_zk_node_def by (metis evolves_opt_simps(2))

lemma evolves_expired: "on_zk_session_expired w t = Some u \<Longrightarrow> evolves b s t \<Longrightarrow> evolves b s u"
  by (auto simp: on_zk_session_expired_def intro: evolves_set_flags evolves_reconnect split: bind_splits)

lemma evolves_zk_register: "on_zk_register w task t = Some u \<Longrightarrow> evolves b s t \<Longrightarrow> evolves b s u"
proof (cases "zr_error (zt_res task) \<noteq> z_ok \<or> ze_parse_res (w_zk w) (zr_value (zt_res task)) = None")
  case False
  then obtain my js where my: "zr_error (zt_res task) = z_ok" "ze_parse_res (w_zk w) (zr_value (zt_res task)) = Some (my, js)"
    by (metis option.exhaust surj_pair)
  let ?f = "\<lambda>zc. zc\<lparr>z_register_index := 0, z_is_registered := True\<rparr>"
  assume "on_zk_register w task t = Some u" and st: "evolves b s t"
  then obtain v ns added ok where v: "set_flags ?f t = Some v"
    "send_children_reg_zk_node w \<lparr>rn_version = 0, rn_my_zk_path = my, rn_nodes = added\<rparr> (v\<lparr>n_nodes := ns\<rparr>) = Some (ok, u)"
    using my by (auto simp: on_zk_register_def Let_def split: bind_splits)
  show ?thesis by (rule evolves_reg_zk [OF v(2) evolves_nodes [OF evolves_set_flags [OF v(1) st]]])
qed (auto simp: on_zk_register_def split: if_splits)

lemma evolves_tell_deleted: "tell_deleted w path t = Some u \<Longrightarrow> evolves b s t \<Longrightarrow> evolves b s u"
proof -
  assume u: "tell_deleted w path t = Some u" and st: "evolves b s t"
  then obtain ok v where v: "with_nodes t (del_zk_node (n_nodes t) path) = Some (ok, v)"
    by (auto simp: tell_deleted_def split: bind_splits)
  have "evolves b s v" by (rule evolves_with_nodesD [OF v st])
  then show ?thesis using u v by (auto simp: tell_deleted_def intro: evolves_tell_del split: if_splits)
qed

lemma evolves_take_data: "take_node_data w task t = Some u \<Longrightarrow> evolves b s t \<Longrightarrow> evolves b s u"
proof (cases "zr_error (zt_res task) \<noteq> z_ok \<or> ze_to_zk (w_zk w) (zr_value (zt_res task)) = None")
  case False
  then obtain n where n: "zr_error (zt_res task) = z_ok" "ze_to_zk (w_zk w) (zr_value (zt_res task)) = Some n" by auto
  assume u: "take_node_data w task t = Some u" and st: "evolves b s t"
  then obtain ok v where v: "with_nodes t (add_zk_node (w_md5 w) (n_nodes t) n) = Some (ok, v)"
    using n by (auto simp: take_node_data_def split: bind_splits)
  have "evolves b s v" by (rule evolves_with_nodesD [OF v st])
  then show ?thesis using u v n by (auto simp: take_node_data_def intro: evolves_tell_add split: if_splits)
qed (auto simp: take_node_data_def split: if_splits)

lemma evolves_get_new: "get_new_nodes w ps t = Some u \<Longrightarrow> evolves b s t \<Longrightarrow> evolves b s u"
proof (induction ps arbitrary: t)
  case (Cons p ps)
  then show ?case using evolves_add_task by (fastforce split: bind_splits)
qed simp

lemma evolves_del_old: "del_old_nodes w ps t = Some u \<Longrightarrow> evolves b s t \<Longrightarrow> evolves b s u"
proof (induction ps arbitrary: t)
  case (Cons p ps)
  then show ?case using evolves_tell_deleted by (fastforce split: bind_splits)
qed simp

lemma evolves_child_change: "on_zk_child_change w task t = Some u \<Longrightarrow> evolves b s t \<Longrightarrow> evolves b s u"
  by (auto simp: on_zk_child_change_def Let_def intro: evolves_del_old evolves_get_new split: if_splits bind_splits prod.splits)

lemma evolves_ack: "timer_process_ack w task t = Some u \<Longrightarrow> evolves b s t \<Longrightarrow> evolves b s u"
  by (cases "zt_cmd task")
    (auto simp: timer_process_ack_def on_zk_get_data_def on_zk_data_change_def on_zk_session_connecting_def
      on_zk_session_connected_def on_zk_node_deleted_def
      intro: evolves_zk_register evolves_take_data evolves_set_flags evolves_expired evolves_tell_deleted evolves_child_change)

lemma evolves_process_acks: "process_acks w ts t = Some u \<Longrightarrow> evolves b s t \<Longrightarrow> evolves b s u"
proof (induction ts arbitrary: t)
  case (Cons a ts)
  then show ?case using evolves_ack by (fastforce split: bind_splits)
qed simp

lemma evolves_retry: "retry_register w t = Some u \<Longrightarrow> evolves b s t \<Longrightarrow> evolves b s u"
proof -
  assume u: "retry_register w t = Some u" and st: "evolves b s t"
  obtain zc where zc: "n_zk t = Some zc" using u by (auto simp: retry_register_def split: bind_splits)
  let ?i = "c_int (z_register_index zc + 1)" and ?f = "\<lambda>zc. zc\<lparr>z_register_index := 0\<rparr>"
  let ?t = "put_zk (zc\<lparr>z_register_index := ?i\<rparr>) t"
  have t: "evolves b s ?t" by (rule evolves_put_zk [OF st])
  consider "u = t" | "u = ?t" | ok v where "reconnect w ?t = Some (ok, v)" "set_flags ?f v = Some u"
    using u zc by (auto simp: retry_register_def Let_def split: if_splits bind_splits)
  then show ?thesis
  proof cases
    case (3 ok v)
    show ?thesis by (rule evolves_set_flags [OF 3(2) evolves_reconnect [OF 3(1) t]])
  qed (use st t in simp_all)
qed

lemma evolves_zk_repeat: "evolves b s t \<Longrightarrow> zk_on_repeat_timer w t = Some u \<Longrightarrow> evolves b s u"
proof -
  assume st: "evolves b s t" and u: "zk_on_repeat_timer w t = Some u"
  then obtain v zc ts q where v: "retry_register w t = Some v" "process_acks w ts (put_zk (zc\<lparr>z_bio := q\<rparr>) v) = Some u"
    by (auto simp: zk_on_repeat_timer_def handle_acks_def split: bind_splits)
  show ?thesis by (rule evolves_process_acks [OF v(2) evolves_put_zk [OF evolves_retry [OF v(1) st]]])
qed

end
