(* ===== verification/Net_Loop.thy ===== *)
theory Net_Loop
  imports Module_Mgr Zk_Client
begin

text \<open>
  The events of a process, the read half of \<open>src/core/network.cpp\<close>: reading and dispatching
  messages, accepting connections, passing descriptors to the workers, timers and callbacks.

  \<open>u\<close> is the user's code. The loop over the messages of a buffer takes fuel and tells when it ran
  out of it; \<open>process_tcp_msg\<close> gives it one more than the buffer has bytes.
\<close>

section \<open>Messages\<close>

definition net_add_write_event :: "world \<Rightarrow> fd_t \<Rightarrow> network \<Rightarrow> (bool \<times> network) option" where
  "net_add_write_event w r s =
     do {
       c \<leftarrow> get_conn s r;
       case add_write_event (n_events s) (w_mem w (n_tick s)) (c_fd c) (c_ev_io c) of
         None \<Rightarrow> Some (False, tick s)
       | Some io \<Rightarrow> Some (True, tick (put_conn (c\<lparr>c_ev_io := Some io\<rparr>) s))
     }"

text \<open>\<open>close_conn(Connection*)\<close>, which dereferences the pointer.\<close>

definition close_ptr :: "fd_t \<Rightarrow> network \<Rightarrow> network option" where
  "close_ptr r s = do { c \<leftarrow> get_conn s r; Some (snd (close_conn (c_fd c) s)) }"

definition is_request :: "nat \<Rightarrow> bool" where
  "is_request cmd \<longleftrightarrow> odd cmd"

text \<open>How the handling of one message goes on: with the next message, with \<open>return true\<close>, or with \<open>goto error\<close>.\<close>

datatype next_msg = Go_on cmd_status | Return_true | Goto_error

definition system_msg :: "world \<Rightarrow> fd_t \<Rightarrow> request \<Rightarrow> network \<Rightarrow> (next_msg \<times> network) option" where
  "system_msg w r req s =
     do {
       (cmd_ret, s) \<leftarrow> sys_process w req s;
       if cmd_ret = ST_RUNNING then
         map_option (\<lambda>(ok, s). (if ok then Go_on cmd_ret else Goto_error, s)) (net_add_write_event w r s)
       else if cmd_ret = ST_COMPLETED then map_option (Pair Return_true) (close_ptr r s)
       else Some (Go_on cmd_ret, s)
     }"

definition user_msg :: "user_code \<Rightarrow> request \<Rightarrow> network \<Rightarrow> network option" where
  "user_msg u req s =
     map_option snd (if is_request (mh_cmd (rq_head req)) then mgr_process_req u req s else process_ack u req s)"

datatype loop_end = Returned bool | Out_of_fuel

definition goto_error :: "fd_t \<Rightarrow> network \<Rightarrow> (loop_end \<times> network) option" where
  "goto_error r s = map_option (Pair (Returned False)) (close_ptr r s)"

definition tcp_request :: "fd_t \<Rightarrow> msg_head \<Rightarrow> msg_body \<Rightarrow> request" where
  "tcp_request r head body =
     \<lparr>rq_fd_data = r, rq_is_http = False, rq_head = head, rq_body = body, rq_http = empty_http\<rparr>"

fun tcp_loop ::
  "nat \<Rightarrow> world \<Rightarrow> user_code \<Rightarrow> fd_t \<Rightarrow> codec_status \<Rightarrow> msg_head \<Rightarrow> msg_body \<Rightarrow> network \<Rightarrow> (loop_end \<times> network) option" where
  "tcp_loop 0 w u r codec_ret head body s =
     (if codec_ret = CS_OK then Some (Out_of_fuel, s)
      else if codec_ret = CS_ERR \<or> codec_ret = CS_CLOSED then goto_error r s
      else Some (Returned True, s))"
| "tcp_loop (Suc n) w u r codec_ret head body s =
     (if codec_ret = CS_OK then
        do {
          c \<leftarrow> get_conn s r;
          let req = tcp_request r head body;
          (d, s) \<leftarrow> (if c_is_system c then system_msg w r req s else Some (Go_on ST_UNKOWN, s));
          case d of
            Return_true \<Rightarrow> Some (Returned True, s)
          | Goto_error \<Rightarrow> goto_error r s
          | Go_on cmd_ret \<Rightarrow>
              do {
                s \<leftarrow> (if cmd_ret = ST_UNKOWN then user_msg u req s else Some s);
                c \<leftarrow> get_conn s r;
                (codec_ret, head, body, c) \<leftarrow> fetch_data_proto (w_pb w) c empty_head empty_body;
                tcp_loop n w u r codec_ret head body (put_conn c s)
              }
        }
      else if codec_ret = CS_ERR \<or> codec_ret = CS_CLOSED then goto_error r s
      else Some (Returned True, s))"

definition count_read :: "connection \<Rightarrow> connection \<Rightarrow> network \<Rightarrow> network" where
  "count_read old c s =
     (let p = n_payload s
      in s\<lparr>n_payload := p\<lparr>
             pl_read_cnt := c_uint (int (pl_read_cnt p) + (c_read_cnt c - c_read_cnt old)),
             pl_read_bytes := c_uint (int (pl_read_bytes p) + (int (c_read_bytes c) - int (c_read_bytes old)))\<rparr>\<rparr>)"

definition process_tcp_msg :: "world \<Rightarrow> user_code \<Rightarrow> fd_t \<Rightarrow> network \<Rightarrow> (loop_end \<times> network) option" where
  "process_tcp_msg w u r s =
     do {
       c \<leftarrow> get_conn s r;
       (codec_ret, head, body, c') \<leftarrow>
         conn_read_proto (w_pb w) (w_al w) (w_recv w (n_tick s)) (now w s) c empty_head empty_body;
       let s = tick (put_conn c' s);
       let s = (if codec_ret \<noteq> CS_ERR then count_read c c' s else s);
       tcp_loop (Suc (length (pending (c_recv_buf c')))) w u r codec_ret head body s
     }"

text \<open>The message of the request is not cleared between two messages: \<open>msg.Clear()\<close> clears another one.\<close>

definition http_request :: "fd_t \<Rightarrow> http_msg \<Rightarrow> request" where
  "http_request r msg =
     \<lparr>rq_fd_data = r, rq_is_http = True, rq_head = empty_head, rq_body = empty_body, rq_http = msg\<rparr>"

fun http_loop ::
  "nat \<Rightarrow> world \<Rightarrow> user_code \<Rightarrow> fd_t \<Rightarrow> codec_status \<Rightarrow> http_msg \<Rightarrow> network \<Rightarrow> (loop_end \<times> network) option" where
  "http_loop 0 w u r codec_ret msg s =
     (if codec_ret = CS_OK then Some (Out_of_fuel, s)
      else if codec_ret = CS_ERR \<or> codec_ret = CS_CLOSED then goto_error r s
      else Some (Returned True, s))"
| "http_loop (Suc n) w u r codec_ret msg s =
     (if codec_ret = CS_OK then
        do {
          (_, s) \<leftarrow> mgr_process_req u (http_request r msg) s;
          c \<leftarrow> get_conn s r;
          (codec_ret, msg, c) \<leftarrow> fetch_data_http (w_hl w) c msg;
          http_loop n w u r codec_ret msg (put_conn c s)
        }
      else if codec_ret = CS_ERR \<or> codec_ret = CS_CLOSED then goto_error r s
      else Some (Returned True, s))"

definition process_http_msg :: "world \<Rightarrow> user_code \<Rightarrow> fd_t \<Rightarrow> network \<Rightarrow> (loop_end \<times> network) option" where
  "process_http_msg w u r s =
     do {
       c \<leftarrow> get_conn s r;
       (codec_ret, msg, c') \<leftarrow> conn_read_http (w_hl w) (w_al w) (w_recv w (n_tick s)) (now w s) c empty_http;
       let s = tick (put_conn c' s);
       let s = (if codec_ret \<noteq> CS_ERR then count_read c c' s else s);
       http_loop (Suc (length (pending (c_recv_buf c')))) w u r codec_ret msg s
     }"

definition process_msg :: "world \<Rightarrow> user_code \<Rightarrow> fd_t \<Rightarrow> network \<Rightarrow> (loop_end \<times> network) option" where
  "process_msg w u r s =
     do { c \<leftarrow> get_conn s r; if is_http c then process_http_msg w u r s else process_tcp_msg w u r s }"

definition read_query_from_client :: "world \<Rightarrow> user_code \<Rightarrow> int \<Rightarrow> network \<Rightarrow> (loop_end \<times> network) option" where
  "read_query_from_client w u fd s =
     (case map_of (n_conns s) fd of
        None \<Rightarrow> Some (Returned False, snd (close_conn fd s))
      | Some c \<Rightarrow>
          if is_invalid c then Some (Returned False, snd (close_conn fd s)) else process_msg w u (fd_data c) s)"

section \<open>New connections\<close>

text \<open>The loops run at most \<open>MAX_ACCEPTS_PER_CALL\<close> times.\<close>

fun accept_loop :: "nat \<Rightarrow> world \<Rightarrow> network \<Rightarrow> network option" where
  "accept_loop 0 w s = Some s"
| "accept_loop (Suc n) w s =
     (case w_accept w (n_tick s) of
        None \<Rightarrow> Some (tick s)
      | Some (fd, _) \<Rightarrow>
          (case net_add_read_event w fd CT_PROTOBUF False (tick s) of
             (None, s) \<Rightarrow> Some (snd (close_conn fd s))
           | (Some r, s) \<Rightarrow>
               do { c \<leftarrow> get_conn s r; accept_loop n w (put_conn (c\<lparr>c_is_system := True\<rparr>) s) }))"

definition accept_server_conn :: "world \<Rightarrow> network \<Rightarrow> network option" where
  "accept_server_conn w s = accept_loop MAX_ACCEPTS_PER_CALL w s"

definition codec_num :: "codec_type \<Rightarrow> int" where
  "codec_num t = (case t of CT_UNKNOWN \<Rightarrow> 0 | CT_PROTOBUF \<Rightarrow> 1 | CT_HTTP \<Rightarrow> 2 | CT_PRIVATE \<Rightarrow> 3)"

definition codec_of_num :: "int \<Rightarrow> codec_type" where
  "codec_of_num i = (if i = 1 then CT_PROTOBUF else if i = 2 then CT_HTTP else if i = 3 then CT_PRIVATE else CT_UNKNOWN)"

definition accept_and_transfer_fd :: "world \<Rightarrow> network \<Rightarrow> network option" where
  "accept_and_transfer_fd w s =
     (case w_accept w (n_tick s) of
        None \<Rightarrow> Some (tick s)
      | Some (fd, family) \<Rightarrow>
          do {
            (chanel_fd, wd) \<leftarrow> get_next_worker_data_fd (n_worker_data s);
            let s = (tick s)\<lparr>n_worker_data := wd\<rparr>;
            if chanel_fd \<le> 0 then Some (close_fd fd s)
            else
              let ch = \<lparr>ch_fd = fd, ch_family = family, ch_codec = codec_num (n_gate_codec s), ch_is_system = 0\<rparr>;
                  (err, _) = write_channel (w_sendmsg w (n_tick s)) ch;
                  s = tick s
              in if err = EAGAIN then Some (s\<lparr>n_wait_send_fds := n_wait_send_fds s @ [(ch, 0)]\<rparr>)
                 else if err \<noteq> 0 then Some (close_fd fd s)
                 else Some (close_fd fd (emit (E_xfer chanel_fd ch) s))
          })"

text \<open>A transfer that the channel refused is tried again at every tick of the timer, three times.\<close>

fun wait_loop :: "world \<Rightarrow> (channel_t \<times> int) list \<Rightarrow> network \<Rightarrow> ((channel_t \<times> int) list \<times> network) option" where
  "wait_loop w [] s = Some ([], s)"
| "wait_loop w ((ch, cnt) # datas) s =
     do {
       (chanel_fd, wd) \<leftarrow> get_next_worker_data_fd (n_worker_data s);
       let s = s\<lparr>n_worker_data := wd\<rparr>;
       if chanel_fd \<le> 0 then Some ((ch, cnt) # datas, s)
       else
         let (err, _) = write_channel (w_sendmsg w (n_tick s)) ch;
             s = tick s;
             s = (if err = 0 then emit (E_xfer chanel_fd ch) s else s);
             cnt = (if err = EAGAIN then cnt + 1 else cnt)
         in if err \<noteq> EAGAIN \<or> cnt \<ge> 3 then wait_loop w datas (close_fd (ch_fd ch) s)
            else map_option (\<lambda>(rest, s). ((ch, cnt) # rest, s)) (wait_loop w datas s)
     }"

definition check_wait_send_fds :: "world \<Rightarrow> network \<Rightarrow> network option" where
  "check_wait_send_fds w s =
     map_option (\<lambda>(rest, s). s\<lparr>n_wait_send_fds := rest\<rparr>) (wait_loop w (n_wait_send_fds s) s)"

text \<open>
  \<open>close_conns\<close> erases from the table it iterates over, which is undefined unless the table is empty
  (\<open>None\<close>). A worker that loses its channel calls it and exits.
\<close>

definition close_conns :: "network \<Rightarrow> network option" where
  "close_conns s = (if n_conns s = [] then Some s else None)"

definition EXIT_FD_TRANSFER :: int where "EXIT_FD_TRANSFER = - 4"

fun read_transfer_loop :: "nat \<Rightarrow> world \<Rightarrow> channel_t \<Rightarrow> network \<Rightarrow> network option" where
  "read_transfer_loop 0 w ch s = Some s"
| "read_transfer_loop (Suc n) w ch s =
     (let (err, ch) = read_channel (w_recvmsg w (n_tick s)) ch;
          s = tick s
      in if err = EAGAIN then Some s
         else if err \<noteq> 0 then map_option (emit (E_exit EXIT_FD_TRANSFER)) (close_conns s)
         else
           case net_add_read_event w (ch_fd ch) (codec_of_num (ch_codec ch)) False s of
             (None, s) \<Rightarrow> Some (snd (close_conn (ch_fd ch) s))
           | (Some r, s) \<Rightarrow>
               do {
                 c \<leftarrow> get_conn s r;
                 let c = (if ch_is_system ch \<noteq> 0 then c\<lparr>c_is_system := True\<rparr> else c);
                 case add_io_timer (n_events s) (w_mem w (n_tick s)) (w_lag w (n_tick s)) (n_keep_alive s) (c_timer c) of
                   None \<Rightarrow> Some (snd (close_conn (ch_fd ch) (tick (put_conn c s))))
                 | Some t \<Rightarrow> read_transfer_loop n w ch (tick (put_conn (c\<lparr>c_timer := Some t\<rparr>) s))
               })"

definition read_transfer_fd :: "world \<Rightarrow> channel_t \<Rightarrow> network \<Rightarrow> network option" where
  "read_transfer_fd w ch s = read_transfer_loop MAX_ACCEPTS_PER_CALL w ch s"

section \<open>Events\<close>

text \<open>\<open>chan\<close> is the uninitialised \<open>channel_t\<close> of \<open>read_transfer_fd\<close>.\<close>

definition on_io_read :: "world \<Rightarrow> user_code \<Rightarrow> channel_t \<Rightarrow> int \<Rightarrow> network \<Rightarrow> network option" where
  "on_io_read w u chan fd s =
     (if is_manager s then
        (if fd = n_node_host_fd s then accept_server_conn w s
         else if fd = n_gate_host_fd s then accept_and_transfer_fd w s
         else map_option snd (read_query_from_client w u fd s))
      else if fd = n_manager_data_fd s then read_transfer_fd w chan s
      else map_option snd (read_query_from_client w u fd s))"

definition on_io_write :: "world \<Rightarrow> int \<Rightarrow> network \<Rightarrow> network option" where
  "on_io_write w fd s =
     (case map_of (n_conns s) fd of
        None \<Rightarrow> Some s
      | Some c \<Rightarrow>
          let r = fd_data c
          in if is_invalid c then close_ptr r s
             else if is_connected c \<or> is_connecting c then
               do { (ok, s) \<leftarrow> handle_write_events w r s; if \<not> ok then close_ptr r s else Some s }
             else if is_try_connect c then
               do { (ok, s) \<leftarrow> send_req_connect_to_worker w r s; if \<not> ok then close_ptr r s else Some s }
             else Some s)"

definition report_payload_to_parent :: "world \<Rightarrow> network \<Rightarrow> (bool \<times> network) option" where
  "report_payload_to_parent w s =
     (if \<not> is_worker s then Some (False, s)
      else do {
        let p = (n_payload s)\<lparr>pl_worker_index := c_uint (n_worker_index s),
                  pl_cmd_cnt := c_uint (int (length (n_cmds s))),
                  pl_conn_cnt := c_uint (int (length (n_conns s) + length (n_node_conns s))),
                  pl_create_time := now w s\<rparr>;
        (ok, s) \<leftarrow> send_parent_payload w p (s\<lparr>n_payload := p\<rparr>);
        Some (ok, s\<lparr>n_payload := empty_payload\<rparr>)
      })"

text \<open>The payloads of the workers as the report lists them: index 0 is replaced by the table's index.\<close>

fun worker_payloads :: "worker_data \<Rightarrow> (int \<times> nat) list \<Rightarrow> (payload \<times> payload) list option" where
  "worker_payloads wd [] = Some []"
| "worker_payloads wd ((_, p) # infos) =
     do {
       info \<leftarrow> map_of (wd_heap wd) p;
       let pl = wi_payload info;
       let listed = (if pl_worker_index pl = 0 then pl\<lparr>pl_worker_index := c_uint (wi_index info)\<rparr> else pl);
       rest \<leftarrow> worker_payloads wd infos;
       Some ((pl, listed) # rest)
     }"

definition total :: "(payload \<Rightarrow> nat) \<Rightarrow> (payload \<times> payload) list \<Rightarrow> int" where
  "total f pls = int (sum_list (map (f \<circ> fst) pls))"

definition payload_report :: "world \<Rightarrow> network \<Rightarrow> (payload \<times> payload) list \<Rightarrow> payload_stats" where
  "payload_report w s pls =
     \<lparr>ps_node = \<lparr>nd_zk_path = m_my_zk_node (n_nodes s), nd_node_type = n_node_type s, nd_node_host = n_node_host s,
         nd_node_port = c_uint (n_node_port s), nd_gate_host = n_gate_host s, nd_gate_port = c_uint (n_gate_port s),
         nd_worker_cnt = c_uint (int (length (m_workers (n_worker_data s))))\<rparr>,
      ps_manager =
        \<lparr>pl_worker_index = c_uint (n_worker_index s),
         pl_conn_cnt = c_uint (total pl_conn_cnt pls + int (length (n_conns s))),
         pl_cmd_cnt = c_uint (total pl_cmd_cnt pls),
         pl_read_cnt = c_uint (total pl_read_cnt pls + int (pl_read_cnt (n_payload s))),
         pl_read_bytes = c_uint (total pl_read_bytes pls + int (pl_read_bytes (n_payload s))),
         pl_write_cnt = c_uint (total pl_write_cnt pls + int (pl_write_cnt (n_payload s))),
         pl_write_bytes = c_uint (total pl_write_bytes pls + int (pl_write_bytes (n_payload s))),
         pl_create_time = now w s\<rparr>,
      ps_workers = map snd pls\<rparr>"

definition report_payload_to_zookeeper :: "world \<Rightarrow> network \<Rightarrow> (bool \<times> network) option" where
  "report_payload_to_zookeeper w s =
     (if \<not> is_manager s then Some (False, s)
      else do {
        pls \<leftarrow> worker_payloads (n_worker_data s) (m_workers (n_worker_data s));
        let stats = payload_report w s pls;
        let s = s\<lparr>n_payload := empty_payload\<rparr>;
        case sl_stats_to_json (w_sys w) stats of
          None \<Rightarrow> Some (False, s)
        | Some json \<Rightarrow>
            (if n_zk s \<noteq> None then map_option (\<lambda>(_, s). (True, s)) (set_payload_data w json s) else Some (True, s))
      })"

definition on_repeat_timer :: "world \<Rightarrow> network \<Rightarrow> network option" where
  "on_repeat_timer w s =
     do {
       s \<leftarrow> (if is_manager s then
                do {
                  s \<leftarrow> check_wait_send_fds w s;
                  s \<leftarrow> (if n_zk s \<noteq> None then zk_on_repeat_timer w s else Some s);
                  map_option snd (report_payload_to_zookeeper w s)
                }
              else map_option snd (report_payload_to_parent w s));
       sys_on_repeat_timer w s
     }"

definition on_io_timer :: "world \<Rightarrow> fd_t \<Rightarrow> network \<Rightarrow> network option" where
  "on_io_timer w r s =
     (if is_worker s then
        do {
          c \<leftarrow> get_conn s r;
          let secs = conn_keep_alive c - (now w s - c_active_time c);
          if secs > 0
          then Some (tick (put_conn (c\<lparr>c_timer := snd (restart_timer (w_lag w (n_tick s)) secs (c_timer c))\<rparr>) s))
          else close_ptr r s
        }
      else Some s)"

definition on_cmd_timer :: "world \<Rightarrow> user_code \<Rightarrow> nat \<Rightarrow> network \<Rightarrow> network option" where
  "on_cmd_timer w u i s =
     do {
       k \<leftarrow> get_cmd s i;
       let secs = k_keep_alive k - (now w s - k_active_time k);
       if secs > 0
       then Some (tick (put_cmd (k\<lparr>k_timer := snd (restart_timer (w_lag w (n_tick s)) secs (k_timer k))\<rparr>) s))
       else do {
         let old = k_cur_timeout_cnt k;
         (status, k, s) \<leftarrow> cc_timeout (uc_cmds u) k s;
         _ \<leftarrow> get_cmd s (k_id k);
         if status \<noteq> ST_RUNNING then Some (snd (del_cmd (k_id k) s))
         else case get_conn s (rq_fd_data (k_req k)) of
                None \<Rightarrow> Some (snd (del_cmd (k_id k) s))
              | Some c \<Rightarrow>
                  if is_invalid c then Some (snd (del_cmd (k_id k) s))
                  else
                    let k = (if old = k_cur_timeout_cnt k then k\<lparr>k_cur_timeout_cnt := k_cur_timeout_cnt k + 1\<rparr> else k)
                    in if k_cur_timeout_cnt k \<ge> k_max_timeout_cnt k then Some (snd (del_cmd (k_id k) s))
                       else
                         Some (tick (put_cmd
                           (k\<lparr>k_timer := snd (restart_timer (w_lag w (n_tick s)) CMD_TIMEOUT_VAL (k_timer k))\<rparr>) s))
       }
     }"

text \<open>\<open>handle_cmd_callback\<close>, what the callbacks of redis and the database run.\<close>

definition handle_cmd_callback :: "world \<Rightarrow> user_code \<Rightarrow> nat \<Rightarrow> int \<Rightarrow> cb_data \<Rightarrow> network \<Rightarrow> (bool \<times> network) option" where
  "handle_cmd_callback w u cmd_id err data s =
     (case get_cmd s cmd_id of
        None \<Rightarrow> Some (False, s)
      | Some k \<Rightarrow>
          do {
            let k = k\<lparr>k_active_time := now w s\<rparr>;
            r \<leftarrow> cc_callback (uc_cmds u) k err data (put_cmd k s);
            (_, s) \<leftarrow> finish_cmd r;
            Some (True, s)
          })"

section \<open>Events evolve\<close>

lemma evolves_read: "evolves True s t \<Longrightarrow> evolves False s t"
  by (rule evolves_weaken)

lemma evolves_add_write: "evolves b s t \<Longrightarrow> evolves_opt b s (net_add_write_event w r t)"
  by (auto simp: net_add_write_event_def intro!: evolves_opt_bind_pure evolves_tick evolves_put_conn split: option.split)

lemma evolves_close_ptr: "close_ptr r t = Some u \<Longrightarrow> evolves b s t \<Longrightarrow> evolves b s u"
  by (auto simp: close_ptr_def evolves_close_conn split: bind_splits)

lemma evolves_opt_close: "evolves b s t \<Longrightarrow> evolves_opt b s (map_option (Pair x) (close_ptr r t))"
  by (auto simp: evolves_opt_def evolves_close_ptr split: option.split)

lemma evolves_goto_error: "evolves b s t \<Longrightarrow> evolves_opt b s (goto_error r t)"
  by (simp add: goto_error_def evolves_opt_close)

lemma evolves_system_msg: "evolves b s t \<Longrightarrow> evolves_opt b s (system_msg w r req t)"
  unfolding system_msg_def
proof (rule evolves_opt_bind)
  show "evolves b s t \<Longrightarrow> evolves_opt b s (sys_process w req t)" by (rule evolves_sys_process)
  fix st v assume v: "evolves b s v"
  show "evolves_opt b s (case (st, v) of (cmd_ret, s) \<Rightarrow>
      if cmd_ret = ST_RUNNING then
        map_option (\<lambda>(ok, s). (if ok then Go_on cmd_ret else Goto_error, s)) (net_add_write_event w r s)
      else if cmd_ret = ST_COMPLETED then map_option (Pair Return_true) (close_ptr r s)
      else Some (Go_on cmd_ret, s))"
    using v evolves_opt_map [OF evolves_add_write [OF v]]
    by (auto intro!: evolves_opt_map [OF evolves_add_write] evolves_opt_close)
qed

lemma evolves_count_read: "evolves b s t \<Longrightarrow> evolves b s (count_read c c' t)"
  by (erule evolves_same) (simp_all add: count_read_def Let_def)

lemma evolves_close_fd: "evolves b s t \<Longrightarrow> evolves b s (close_fd fd t)"
  by (simp add: close_fd_def evolves_emit)

lemma evolves_accept_loop: "accept_loop n w t = Some u \<Longrightarrow> evolves b s t \<Longrightarrow> evolves b s u"
proof (induction n arbitrary: t)
  case (Suc n)
  show ?case
  proof (cases "w_accept w (n_tick t)")
    case None
    then show ?thesis using Suc.prems by (auto simp: evolves_tick)
  next
    case (Some a)
    obtain fd fam where a: "a = (fd, fam)" by (cases a)
    obtain r v where v: "net_add_read_event w fd CT_PROTOBUF False (tick t) = (r, v)" by fastforce
    have ev: "evolves b s v" using evolves_net_add_read_event [OF evolves_tick [OF Suc.prems(2)] v] .
    show ?thesis
    proof (cases r)
      case None
      then show ?thesis using Suc.prems Some a v ev by (auto simp: evolves_close_conn)
    next
      case r: (Some p)
      then obtain c where c: "get_conn v p = Some c" "accept_loop n w (put_conn (c\<lparr>c_is_system := True\<rparr>) v) = Some u"
        using Suc.prems Some a v by (auto split: bind_splits)
      have "evolves b s (put_conn (c\<lparr>c_is_system := True\<rparr>) v)" by (rule evolves_put_conn [OF ev c(1)]) simp
      then show ?thesis using Suc.IH c(2) by blast
    qed
  qed
qed simp

lemma evolves_transfer: "evolves b s t \<Longrightarrow> accept_and_transfer_fd w t = Some u \<Longrightarrow> evolves b s u"
proof -
  assume st: "evolves b s t" and u: "accept_and_transfer_fd w t = Some u"
  have 1: "evolves b s ((tick t)\<lparr>n_worker_data := wd\<rparr>)" if "get_next_worker_data_fd (n_worker_data t) = Some (fd, wd)" for fd wd
    by (rule evolves_same [OF evolves_tick [OF st]]) (simp_all add: roster_next [OF that] tick_def)
  have 2: "evolves b s (v\<lparr>n_wait_send_fds := wd\<rparr>)" if "evolves b s v" for v wd by (rule evolves_same [OF that]) simp_all
  show ?thesis
    using st u by (auto simp: accept_and_transfer_fd_def Let_def 1 2 evolves_tick evolves_emit evolves_close_fd
        split: option.splits bind_splits if_splits prod.splits)
qed

lemma evolves_wait_loop: "wait_loop w datas t = Some (rest, u) \<Longrightarrow> evolves b s t \<Longrightarrow> evolves b s u"
proof (induction datas arbitrary: t rest)
  case (Cons d datas)
  obtain ch cnt where d: "d = (ch, cnt)" by (cases d)
  obtain fd wd where fd: "get_next_worker_data_fd (n_worker_data t) = Some (fd, wd)"
    using Cons.prems d by (cases "get_next_worker_data_fd (n_worker_data t)") auto
  obtain err x where err: "write_channel (w_sendmsg w (n_tick t)) ch = (err, x)" by fastforce
  let ?t = "t\<lparr>n_worker_data := wd\<rparr>"
  let ?v = "if err = 0 then emit (E_xfer fd ch) (tick ?t) else tick ?t"
  have t: "evolves b s ?t" by (rule evolves_same [OF Cons.prems(2)]) (simp_all add: roster_next [OF fd])
  then have v: "evolves b s ?v" by (simp add: evolves_tick evolves_emit)
  have v': "evolves b s (close_fd (ch_fd ch) ?v)" using v by (rule evolves_close_fd)
  show ?case
    using Cons.prems(1) d fd err t Cons.IH [OF _ v] Cons.IH [OF _ v'] by (auto simp: Let_def split: if_splits)
qed simp

lemma evolves_check_wait: "evolves b s t \<Longrightarrow> check_wait_send_fds w t = Some u \<Longrightarrow> evolves b s u"
proof -
  assume st: "evolves b s t" and u: "check_wait_send_fds w t = Some u"
  obtain rest v where v: "wait_loop w (n_wait_send_fds t) t = Some (rest, v)" "u = v\<lparr>n_wait_send_fds := rest\<rparr>"
    using u by (auto simp: check_wait_send_fds_def)
  show ?thesis unfolding v(2) by (rule evolves_same [OF evolves_wait_loop [OF v(1) st]]) simp_all
qed

lemma evolves_read_transfer: "read_transfer_loop n w ch t = Some u \<Longrightarrow> evolves b s t \<Longrightarrow> evolves b s u"
proof (induction n arbitrary: ch t)
  case (Suc n)
  obtain err ch' where rc: "read_channel (w_recvmsg w (n_tick t)) ch = (err, ch')" by fastforce
  have tk: "evolves b s (tick t)" using Suc.prems(2) by (rule evolves_tick)
  show ?case
  proof (cases "err = 0")
    case False
    then show ?thesis
      using Suc.prems(1) rc tk by (auto simp: Let_def close_conns_def evolves_emit split: if_splits)
  next
    case True
    obtain r v where v: "net_add_read_event w (ch_fd ch') (codec_of_num (ch_codec ch')) False (tick t) = (r, v)" by fastforce
    have ev: "evolves b s v" using evolves_net_add_read_event [OF tk v] .
    show ?thesis
    proof (cases r)
      case None
      then show ?thesis using Suc.prems True rc v ev by (auto simp: evolves_close_conn EAGAIN_def)
    next
      case r: (Some p)
      obtain c where c: "get_conn v p = Some c" using Suc.prems True rc v r by (cases "get_conn v p") (auto simp: EAGAIN_def)
      let ?c = "if ch_is_system ch' \<noteq> 0 then c\<lparr>c_is_system := True\<rparr> else c"
      have put: "evolves b s (tick (put_conn (?c\<lparr>c_timer := x\<rparr>) v))" "evolves b s (tick (put_conn ?c v))" for x
        by (intro evolves_tick evolves_put_conn [OF ev c]; simp)+
      show ?thesis
        using Suc.prems(1) True rc v r c Suc.IH [OF _ put(1)] evolves_close_conn [OF put(2)]
        by (auto simp: Let_def EAGAIN_def split: option.splits)
    qed
  qed
qed simp

lemma evolves_put_read:
  "evolves b s t \<Longrightarrow> get_conn t r = Some c \<Longrightarrow> key False c' = key False c \<Longrightarrow> evolves False s (put_conn c' t)"
  using evolves_weaken [of s t False] by (cases b) (auto intro: evolves_put_conn)

lemma evolves_handle_writeD: "handle_write_events w r t = Some (ok, v) \<Longrightarrow> evolves b s t \<Longrightarrow> evolves b s v"
  using evolves_handle_write_events [of b s t w r] by simp

lemma evolves_send_connectD: "send_req_connect_to_worker w r t = Some (ok, v) \<Longrightarrow> evolves b s t \<Longrightarrow> evolves b s v"
  using evolves_send_req_connect [of b s t w r] by simp

lemma evolves_close_if:
  "(if \<not> ok then close_ptr r t else Some t) = Some u \<Longrightarrow> evolves b s t \<Longrightarrow> evolves b s u"
  by (auto intro: evolves_close_ptr split: if_splits)

lemma evolves_on_io_write: "on_io_write w fd t = Some u \<Longrightarrow> evolves b s t \<Longrightarrow> evolves b s u"
proof -
  assume u: "on_io_write w fd t = Some u" and st: "evolves b s t"
  show ?thesis
  proof (cases "map_of (n_conns t) fd")
    case None
    then show ?thesis using u st by (simp add: on_io_write_def)
  next
    case (Some c)
    consider "is_invalid c" "close_ptr (fd_data c) t = Some u"
      | ok v where "handle_write_events w (fd_data c) t = Some (ok, v)" "(if \<not> ok then close_ptr (fd_data c) v else Some v) = Some u"
      | ok v where "send_req_connect_to_worker w (fd_data c) t = Some (ok, v)" "(if \<not> ok then close_ptr (fd_data c) v else Some v) = Some u"
      | "u = t"
      using u Some by (simp add: on_io_write_def Let_def split: if_splits bind_splits prod.splits)
    then show ?thesis
      using st by cases (blast intro: evolves_close_ptr evolves_close_if evolves_handle_writeD evolves_send_connectD)+
  qed
qed

lemma evolves_report_parent: "evolves b s t \<Longrightarrow> evolves_opt b s (report_payload_to_parent w t)"
proof -
  assume st: "evolves b s t"
  have 1: "evolves b s (v\<lparr>n_payload := p\<rparr>)" if "evolves b s v" for v p by (rule evolves_same [OF that]) simp_all
  have "evolves b s v" if "send_parent_payload w p (t\<lparr>n_payload := q\<rparr>) = Some (ok, v)" for p q ok v
    using evolves_req_parent [OF 1 [OF st]] that unfolding send_parent_payload_def by (metis evolves_opt_simps(2))
  then show ?thesis using st 1 by (auto simp: report_payload_to_parent_def Let_def intro!: evolves_opt_bind_pure)
qed

lemma evolves_report_zk: "evolves b s t \<Longrightarrow> evolves_opt b s (report_payload_to_zookeeper w t)"
proof -
  assume st: "evolves b s t"
  have "evolves b s (t\<lparr>n_payload := p\<rparr>)" for p by (rule evolves_same [OF st]) simp_all
  then show ?thesis
    using st by (auto simp: report_payload_to_zookeeper_def Let_def
        intro!: evolves_opt_bind_pure evolves_opt_map [OF evolves_set_payload] split: option.split)
qed

lemma evolves_on_repeat:
  assumes st: "evolves b s t" and u: "on_repeat_timer w t = Some u"
  shows "evolves b s u"
proof -
  have rep: "evolves b s x" if "report_payload_to_zookeeper w v = Some (ok, x)" "evolves b s v" for v x ok
    using evolves_report_zk [OF that(2), of w] that(1) by simp
  have par: "evolves b s x" if "report_payload_to_parent w t = Some (ok, x)" for x ok
    using evolves_report_parent [OF st, of w] that by simp
  obtain v where v: "evolves b s v" "sys_on_repeat_timer w v = Some u"
  proof (cases "is_manager t")
    case True
    obtain x y z ok where x: "check_wait_send_fds w t = Some x" "(if n_zk x \<noteq> None then zk_on_repeat_timer w x else Some x) = Some y"
      "report_payload_to_zookeeper w y = Some (ok, z)" "sys_on_repeat_timer w z = Some u"
      using u True by (auto simp: on_repeat_timer_def split: bind_splits)
    have "evolves b s y"
      using evolves_check_wait [OF st x(1)] x(2) evolves_zk_repeat [of b s x w y] by (auto split: if_splits)
    then show ?thesis using that rep x by blast
  next
    case False
    obtain z ok where "report_payload_to_parent w t = Some (ok, z)" "sys_on_repeat_timer w z = Some u"
      using u False by (auto simp: on_repeat_timer_def split: bind_splits)
    then show ?thesis using that par by blast
  qed
  then show ?thesis using evolves_sys_on_repeat by blast
qed

lemma evolves_on_io_timer: "on_io_timer w r t = Some u \<Longrightarrow> evolves b s t \<Longrightarrow> evolves b s u"
  by (auto simp: on_io_timer_def Let_def intro!: evolves_tick evolves_put_conn intro: evolves_close_ptr
      split: if_splits bind_splits)

context module_code
begin

lemma user_msg_evolves: "user_msg u req t = Some t' \<Longrightarrow> evolves True t t'"
  by (auto simp: user_msg_def intro: process_req_evolves process_ack_evolves split: if_splits)

lemma maybe_user_msg_evolves:
  "(if cmd_ret = ST_UNKOWN then user_msg u req v else Some v) = Some x \<Longrightarrow> evolves True v x"
  by (auto intro: user_msg_evolves split: if_splits)

lemma tcp_loop_evolves:
  "evolves False s t \<Longrightarrow> evolves_opt False s (tcp_loop n w u r codec_ret head body t)"
proof (induction n arbitrary: codec_ret head body t)
  case 0
  then show ?case by (simp add: evolves_goto_error)
next
  case (Suc n)
  have fetch: "evolves_opt False s (get_conn x r \<bind> (\<lambda>c. fetch_data_proto (w_pb w) c empty_head empty_body \<bind>
      (\<lambda>(codec_ret, head, body, c). tcp_loop n w u r codec_ret head body (put_conn c x))))"
    if "evolves False s x" for x
  proof (rule evolves_opt_bind_pure, rule evolves_opt_bind_pure)
    fix c p assume c: "get_conn x r = Some c" and p: "fetch_data_proto (w_pb w) c empty_head empty_body = Some p"
    obtain st h bd c' where p': "p = (st, h, bd, c')" by (cases p)
    have "evolves False s (put_conn c' x)" using that c key_fetch_proto p p' by (blast intro: evolves_put_conn)
    then show "evolves_opt False s (case p of (codec_ret, head, body, c) \<Rightarrow> tcp_loop n w u r codec_ret head body (put_conn c x))"
      using Suc.IH p' by simp
  qed
  have go: "evolves_opt False s (case d of Return_true \<Rightarrow> Some (Returned True, v) | Goto_error \<Rightarrow> goto_error r v
      | Go_on cmd_ret \<Rightarrow> (if cmd_ret = ST_UNKOWN then user_msg u req v else Some v) \<bind> (\<lambda>s. get_conn s r \<bind>
          (\<lambda>c. fetch_data_proto (w_pb w) c empty_head empty_body \<bind>
            (\<lambda>(codec_ret, head, body, c). tcp_loop n w u r codec_ret head body (put_conn c s)))))"
    if v: "evolves False s v" for d v req
  proof (cases d)
    case (Go_on st)
    show ?thesis unfolding Go_on next_msg.case
    proof (rule evolves_opt_bind_pure, rule fetch)
      fix x assume "(if st = ST_UNKOWN then user_msg u req v else Some v) = Some x"
      then show "evolves False s x" using v maybe_user_msg_evolves evolves_weaken evolves_trans by blast
    qed
  qed (use v evolves_goto_error in auto)
  show ?case
  proof (cases "codec_ret = CS_OK")
    case True
    show ?thesis
      unfolding tcp_loop.simps if_P [OF True] Let_def
    proof (rule evolves_opt_bind_pure, rule evolves_opt_bind)
      fix c
      show "evolves_opt False s (if c_is_system c then system_msg w r (tcp_request r head body) t else Some (Go_on ST_UNKOWN, t))"
        using Suc.prems by (simp add: evolves_system_msg)
    qed (use go in simp)
  qed (use Suc.prems evolves_goto_error in auto)
qed

lemma process_tcp_evolves:
  assumes "evolves False s t"
  shows "evolves_opt False s (process_tcp_msg w u r t)"
  unfolding process_tcp_msg_def
proof (rule evolves_opt_bind_pure, rule evolves_opt_bind_pure)
  fix c p
  assume c: "get_conn t r = Some c"
    and p: "conn_read_proto (w_pb w) (w_al w) (w_recv w (n_tick t)) (now w t) c empty_head empty_body = Some p"
  obtain st h bd c' where p': "p = (st, h, bd, c')" by (cases p)
  have "evolves False s (tick (put_conn c' t))"
    using assms c key_read_proto p p' by (blast intro: evolves_tick evolves_put_conn)
  then show "evolves_opt False s (case p of (codec_ret, head, body, c') \<Rightarrow>
      let s = tick (put_conn c' t); s = if codec_ret \<noteq> CS_ERR then count_read c c' s else s
      in tcp_loop (Suc (length (pending (c_recv_buf c')))) w u r codec_ret head body s)"
    using p' by (simp only: prod.case Let_def) (rule tcp_loop_evolves, simp add: evolves_count_read)
qed

lemma evolves_opt_process_req:
  assumes "evolves b s t"
  shows "evolves_opt b s (mgr_process_req u req t)"
proof (cases "mgr_process_req u req t")
  case (Some p)
  obtain st x where p: "p = (st, x)" by (cases p)
  have "evolves b t x" by (rule evolves_weaken [OF process_req_evolves]) (use Some p in simp)
  with assms have "evolves b s x" by (rule evolves_trans)
  then show ?thesis using Some p by simp
qed simp

lemma http_loop_evolves: "evolves False s t \<Longrightarrow> evolves_opt False s (http_loop n w u r codec_ret msg t)"
proof (induction n arbitrary: codec_ret msg t)
  case 0
  then show ?case by (simp add: evolves_goto_error)
next
  case (Suc n)
  show ?case
  proof (cases "codec_ret = CS_OK")
    case True
    show ?thesis
      unfolding http_loop.simps if_P [OF True]
    proof (rule evolves_opt_bind)
      show "evolves_opt False s (mgr_process_req u (http_request r msg) t)"
        by (rule evolves_opt_process_req [OF Suc.prems])
      fix st x assume x: "evolves False s x"
      show "evolves_opt False s (case (st, x) of (_, s) \<Rightarrow> get_conn s r \<bind> (\<lambda>c. fetch_data_http (w_hl w) c msg \<bind>
          (\<lambda>(codec_ret, msg, c). http_loop n w u r codec_ret msg (put_conn c s))))"
        unfolding prod.case
      proof (rule evolves_opt_bind_pure, rule evolves_opt_bind_pure)
        fix c p assume c: "get_conn x r = Some c" and p: "fetch_data_http (w_hl w) c msg = Some p"
        obtain st m c' where p': "p = (st, m, c')" by (cases p)
        have "evolves False s (put_conn c' x)" using x c key_fetch_http p p' by (blast intro: evolves_put_conn)
        then show "evolves_opt False s (case p of (codec_ret, msg, c) \<Rightarrow> http_loop n w u r codec_ret msg (put_conn c x))"
          using Suc.IH p' by simp
      qed
    qed
  qed (use Suc.prems evolves_goto_error in auto)
qed

lemma process_http_evolves:
  assumes "evolves False s t"
  shows "evolves_opt False s (process_http_msg w u r t)"
  unfolding process_http_msg_def
proof (rule evolves_opt_bind_pure, rule evolves_opt_bind_pure)
  fix c p
  assume c: "get_conn t r = Some c"
    and p: "conn_read_http (w_hl w) (w_al w) (w_recv w (n_tick t)) (now w t) c empty_http = Some p"
  obtain st m c' where p': "p = (st, m, c')" by (cases p)
  have "evolves False s (tick (put_conn c' t))"
    using assms c key_read_http p p' by (blast intro: evolves_tick evolves_put_conn)
  then show "evolves_opt False s (case p of (codec_ret, msg, c') \<Rightarrow>
      let s = tick (put_conn c' t); s = if codec_ret \<noteq> CS_ERR then count_read c c' s else s
      in http_loop (Suc (length (pending (c_recv_buf c')))) w u r codec_ret msg s)"
    using p' by (simp only: prod.case Let_def) (rule http_loop_evolves, simp add: evolves_count_read)
qed

lemma read_query_evolves: "evolves False s t \<Longrightarrow> evolves_opt False s (read_query_from_client w u fd t)"
  by (auto simp: read_query_from_client_def process_msg_def evolves_close_conn process_http_evolves process_tcp_evolves
      intro!: evolves_opt_bind_pure split: option.split)

lemma on_io_read_evolves:
  assumes "on_io_read w u chan fd t = Some t'"
  shows "evolves False t t'"
proof -
  have rq: "evolves False t x" if "read_query_from_client w u fd t = Some (e, x)" for e x
    using read_query_evolves [OF evolves_refl, of t w fd] that by simp
  show ?thesis
    using assms rq evolves_accept_loop [OF _ evolves_refl] evolves_transfer [OF evolves_refl] evolves_read_transfer [OF _ evolves_refl]
    by (auto simp: on_io_read_def accept_server_conn_def read_transfer_fd_def split: if_splits)
qed

lemma on_cmd_timer_evolves:
  assumes "on_cmd_timer w u i t = Some t'"
  shows "evolves True t t'"
proof -
  obtain k where k: "get_cmd t i = Some k" using assms by (auto simp: on_cmd_timer_def split: bind_splits)
  show ?thesis
  proof (cases "k_keep_alive k - (now w t - k_active_time k) > 0")
    case True
    then show ?thesis
      using assms k by (auto simp: on_cmd_timer_def Let_def intro!: evolves_tick evolves_cmd_ops(2) [OF evolves_refl])
  next
    case False
    obtain st k' x where x: "cc_timeout (uc_cmds u) k t = Some (st, k', x)"
      using assms k False by (auto simp: on_cmd_timer_def split: bind_splits)
    have "evolves True t x" using timeout_evolves x .
    then show ?thesis
      using assms k False x
      by (auto simp: on_cmd_timer_def Let_def evolves_tick evolves_cmd_ops split: bind_splits if_splits option.splits)
  qed
qed

lemma callback_evolves_net:
  assumes "handle_cmd_callback w u i err data t = Some (ok, t')"
  shows "evolves True t t'"
proof (cases "get_cmd t i")
  case None
  then show ?thesis using assms by (simp add: handle_cmd_callback_def)
next
  case (Some k)
  let ?k = "k\<lparr>k_active_time := now w t\<rparr>"
  obtain st k' x y where x: "cc_callback (uc_cmds u) ?k err data (put_cmd ?k t) = Some (st, k', x)"
    and y: "finish_cmd (st, k', x) = Some (y, t')"
    using assms Some by (auto simp: handle_cmd_callback_def Let_def split: bind_splits)
  have "evolves True t (put_cmd ?k t)" by (rule evolves_cmd_ops(2) [OF evolves_refl])
  also have "evolves True \<dots> x" using callback_evolves x .
  finally have "evolves True t x" .
  from evolves_finish [OF this, of st k'] show ?thesis using y by simp
qed

end

section \<open>Runs\<close>

text \<open>
  A step of the process is one event of the loop: a readable or writable descriptor, a timer, the
  callback of a command, an event of a connection of the pools, or a step of one of the zookeeper
  client's other threads: the library's watcher and the background thread.
\<close>

inductive net_step :: "world \<Rightarrow> user_code \<Rightarrow> network \<Rightarrow> network \<Rightarrow> bool"
  for w :: world and u :: user_code where
  io_read: "on_io_read w u chan fd s = Some s' \<Longrightarrow> net_step w u s s'"
| io_write: "on_io_write w fd s = Some s' \<Longrightarrow> net_step w u s s'"
| io_timer: "on_io_timer w r s = Some s' \<Longrightarrow> net_step w u s s'"
| cmd_timer: "on_cmd_timer w u i s = Some s' \<Longrightarrow> net_step w u s s'"
| repeat_timer: "on_repeat_timer w s = Some s' \<Longrightarrow> net_step w u s s'"
| callback: "handle_cmd_callback w u i err data s = Some (ok, s') \<Longrightarrow> net_step w u s s'"
| session_timer: "on_session_timer f lag t k (n_sessions s) = Some m \<Longrightarrow> net_step w u s (s\<lparr>n_sessions := m\<rparr>)"
| db_event: "map_of (dm_conns (n_db_pool s)) k = Some l \<Longrightarrow> i < length (snd l) \<Longrightarrow> my_event ml (snd l ! i) c \<Longrightarrow>
    net_step w u s (s\<lparr>n_db_pool := (n_db_pool s)\<lparr>dm_conns := uset (dm_conns (n_db_pool s)) k (fst l, (snd l)[i := c])\<rparr>\<rparr>)"
| redis_event: "map_of (rm_heap (n_redis_pool s)) p = Some c \<Longrightarrow>
    on_redis_connect_callback status err sends us c = Some (outs, acc, c')
      \<or> on_redis_disconnect_libev_callback status err sends us c = Some (outs, acc, c') \<Longrightarrow>
    net_step w u s (s\<lparr>n_redis_pool := (n_redis_pool s)\<lparr>rm_heap := uset (rm_heap (n_redis_pool s)) p c'\<rparr>\<rparr>)"
| zk_thread: "zk_thread_step w s = Some s' \<Longrightarrow> net_step w u s s'"
| zk_watch: "on_zk_watch_events w ty st path s = Some s' \<Longrightarrow> net_step w u s s'"

context module_code
begin

lemma net_step_evolves:
  assumes step: "net_step w u s s'"
  shows "evolves False s s'"
  using step
proof cases
  case (io_read chan fd)
  then show ?thesis by (rule on_io_read_evolves)
next
  case (io_write fd)
  then show ?thesis by (rule evolves_on_io_write) simp
next
  case (io_timer r)
  then show ?thesis by (rule evolves_on_io_timer) simp
next
  case (cmd_timer i)
  then show ?thesis by (rule evolves_weaken [OF on_cmd_timer_evolves])
next
  case repeat_timer
  then show ?thesis by (rule evolves_on_repeat [OF evolves_refl])
next
  case (callback i err data ok)
  then show ?thesis by (rule evolves_weaken [OF callback_evolves_net])
next
  case (session_timer f lag t k m)
  show ?thesis unfolding session_timer(1) by (rule evolves_same [OF evolves_refl]) simp_all
next
  case (db_event k l i ml c)
  show ?thesis unfolding db_event(1) by (rule evolves_same [OF evolves_refl]) simp_all
next
  case (redis_event p c status err sends us outs acc c')
  show ?thesis unfolding redis_event(1) by (rule evolves_same [OF evolves_refl]) simp_all
next
  case (zk_thread)
  then show ?thesis by (rule evolves_zk_thread [OF evolves_refl])
next
  case (zk_watch ty st path)
  then show ?thesis by (rule evolves_zk_watch [OF evolves_refl])
qed

lemma runs_evolve:
  assumes run: "(net_step w u)\<^sup>*\<^sup>* s s'"
  shows "evolves False s s'"
  using run
proof (induction rule: rtranclp_induct)
  case (step t v)
  show ?case by (rule evolves_trans [OF step.IH net_step_evolves [OF step.hyps(2)]])
qed simp

end

end
