(* ===== verification/Anet.thy ===== *)
theory Anet
  imports Complex_Main Util_Str
begin

text \<open>
  The socket functions of \<open>src/core/net/anet.cpp\<close>. The kernel is a record of answers to the calls in
  their order: the errno of a call (0: it succeeded), new descriptors, what \<open>accept\<close> returns. What the
  functions leave behind is the state \<open>socks\<close>: the descriptors that are open, their flags and options,
  and the descriptors that were closed although they were not open. Error texts are not modelled.
\<close>

section \<open>The kernel\<close>

definition ANET_OK :: int where "ANET_OK = 0"
definition ANET_ERR :: int where "ANET_ERR = - 1"

text \<open>Errnos (Linux numbers).\<close>

definition EINTR :: int where "EINTR = 4"
definition EALREADY :: int where "EALREADY = 114"
definition EINPROGRESS :: int where "EINPROGRESS = 115"
definition EISCONN :: int where "EISCONN = 106"
definition EWOULDBLOCK :: int where "EWOULDBLOCK = 11"

definition O_NONBLOCK :: "32 word" where "O_NONBLOCK = 0x800"

datatype sock_opt =
    SO_REUSEADDR | SO_KEEPALIVE | IPV6_V6ONLY
  | TCP_KEEPIDLE int | TCP_KEEPINTVL int | TCP_KEEPCNT int | TCP_NODELAY int

text \<open>
  \<open>sk_addrs\<close>: the answer of \<open>getaddrinfo\<close>, one entry per address, \<open>True\<close> for \<open>AF_INET6\<close>; \<open>sk_socket\<close> and
  \<open>sk_accept\<close> get the open descriptors, a new one is none of them.
\<close>

record sock_kernel =
  sk_addrs :: "string \<Rightarrow> string \<Rightarrow> bool list option"
  sk_err :: "nat \<Rightarrow> int"
  sk_socket :: "nat \<Rightarrow> int list \<Rightarrow> int"
  sk_accept :: "nat \<Rightarrow> int list \<Rightarrow> int \<times> int \<times> int"

record socks =
  so_tick :: nat
  so_open :: "int list"
  so_bad :: "int list"
  so_flags :: "(int \<times> 32 word) list"
  so_opts :: "(int \<times> sock_opt) list"

definition sock_call :: "sock_kernel \<Rightarrow> socks \<Rightarrow> int \<times> socks" where
  "sock_call k st = (sk_err k (so_tick st), st\<lparr>so_tick := Suc (so_tick st)\<rparr>)"

definition sys_close :: "int \<Rightarrow> socks \<Rightarrow> socks" where
  "sys_close fd st =
     (if fd \<in> set (so_open st) then st\<lparr>so_open := remove1 fd (so_open st)\<rparr>
      else st\<lparr>so_bad := so_bad st @ [fd]\<rparr>)"

definition sys_socket :: "sock_kernel \<Rightarrow> socks \<Rightarrow> int \<times> socks" where
  "sys_socket k st =
     (let fd = sk_socket k (so_tick st) (so_open st); st = st\<lparr>so_tick := Suc (so_tick st)\<rparr>
      in (fd, if fd = - 1 then st else st\<lparr>so_open := fd # so_open st\<rparr>))"

section \<open>Options\<close>

definition anet_set_block :: "sock_kernel \<Rightarrow> int \<Rightarrow> bool \<Rightarrow> socks \<Rightarrow> int \<times> socks" where
  "anet_set_block k fd non_block st =
     (let (e, st) = sock_call k st
      in if e \<noteq> 0 then (ANET_ERR, st)
         else
           let flags = (case map_of (so_flags st) fd of None \<Rightarrow> 0 | Some f \<Rightarrow> f);
               flags = (if non_block then or flags O_NONBLOCK else and flags (not O_NONBLOCK));
               (e, st) = sock_call k st
           in if e \<noteq> 0 then (ANET_ERR, st) else (ANET_OK, st\<lparr>so_flags := uset (so_flags st) fd flags\<rparr>))"

definition anet_no_block :: "sock_kernel \<Rightarrow> int \<Rightarrow> socks \<Rightarrow> int \<times> socks" where
  "anet_no_block k fd st = anet_set_block k fd True st"

definition anet_block :: "sock_kernel \<Rightarrow> int \<Rightarrow> socks \<Rightarrow> int \<times> socks" where
  "anet_block k fd st = anet_set_block k fd False st"

definition set_opt :: "sock_kernel \<Rightarrow> int \<Rightarrow> sock_opt \<Rightarrow> socks \<Rightarrow> int \<times> socks" where
  "set_opt k fd opt st =
     (let (e, st) = sock_call k st
      in if e \<noteq> 0 then (ANET_ERR, st) else (ANET_OK, st\<lparr>so_opts := so_opts st @ [(fd, opt)]\<rparr>))"

definition anet_set_reuse_addr :: "sock_kernel \<Rightarrow> int \<Rightarrow> socks \<Rightarrow> int \<times> socks" where
  "anet_set_reuse_addr k fd st = set_opt k fd SO_REUSEADDR st"

text \<open>On failure it closes the socket, which its caller closes again.\<close>

definition anet_v6_only :: "sock_kernel \<Rightarrow> int \<Rightarrow> socks \<Rightarrow> int \<times> socks" where
  "anet_v6_only k s st =
     (let (r, st) = set_opt k s IPV6_V6ONLY st
      in if r = ANET_ERR then (ANET_ERR, sys_close s st) else (ANET_OK, st))"

fun set_opts :: "sock_kernel \<Rightarrow> int \<Rightarrow> sock_opt list \<Rightarrow> socks \<Rightarrow> int \<times> socks" where
  "set_opts k fd [] st = (ANET_OK, st)"
| "set_opts k fd (opt # opts) st =
     (let (r, st) = set_opt k fd opt st in if r = ANET_ERR then (ANET_ERR, st) else set_opts k fd opts st)"

text \<open>The interval is positive, so that \<open>div\<close> is the division of C.\<close>

definition anet_keep_alive :: "sock_kernel \<Rightarrow> int \<Rightarrow> int \<Rightarrow> socks \<Rightarrow> int \<times> socks" where
  "anet_keep_alive k fd interval st =
     set_opts k fd [SO_KEEPALIVE, TCP_KEEPIDLE interval,
       TCP_KEEPINTVL (let val = interval div 3 in if val = 0 then 1 else val), TCP_KEEPCNT 3] st"

definition anet_set_tcp_no_delay :: "sock_kernel \<Rightarrow> int \<Rightarrow> int \<Rightarrow> socks \<Rightarrow> int \<times> socks" where
  "anet_set_tcp_no_delay k fd val st = set_opt k fd (TCP_NODELAY val) st"

section \<open>Servers\<close>

definition anet_listen :: "sock_kernel \<Rightarrow> int \<Rightarrow> socks \<Rightarrow> int \<times> socks" where
  "anet_listen k s st =
     (let (e, st) = sock_call k st
      in if e \<noteq> 0 then (ANET_ERR, sys_close s st)
         else let (e, st) = sock_call k st in if e \<noteq> 0 then (ANET_ERR, sys_close s st) else (ANET_OK, st))"

text \<open>The port as \<open>snprintf\<close> leaves it in a buffer of 6 bytes.\<close>

definition port_str :: "int \<Rightarrow> string" where
  "port_str port = take 5 (dec_int port)"

definition socket_error :: "int \<Rightarrow> socks \<Rightarrow> int \<times> socks" where
  "socket_error s st = (ANET_ERR, if s \<noteq> - 1 then sys_close s st else st)"

fun server_loop :: "sock_kernel \<Rightarrow> int \<Rightarrow> bool list \<Rightarrow> socks \<Rightarrow> int \<times> socks" where
  "server_loop k s [] st = socket_error s st"
| "server_loop k _ (v6 # ps) st =
     (let (s, st) = sys_socket k st
      in if s = - 1 then server_loop k s ps st
         else
           let (r, st) = (if v6 then anet_v6_only k s st else (ANET_OK, st))
           in if r = ANET_ERR then socket_error s st
              else
                let (r, st) = anet_set_reuse_addr k s st
                in if r = ANET_ERR then socket_error s st
                   else let (r, st) = anet_listen k s st in (if r = ANET_ERR then ANET_ERR else s, st))"

definition anet_tcp_server :: "sock_kernel \<Rightarrow> string \<Rightarrow> int \<Rightarrow> socks \<Rightarrow> int \<times> socks" where
  "anet_tcp_server k bindaddr port st =
     (case sk_addrs k bindaddr (port_str port) of
        None \<Rightarrow> (ANET_ERR, st)
      | Some servinfo \<Rightarrow> server_loop k (- 1) servinfo st)"

text \<open>The loop of \<open>accept\<close> may run for ever.\<close>

partial_function (option) anet_generic_accept :: "sock_kernel \<Rightarrow> socks \<Rightarrow> (int \<times> int \<times> socks) option" where
  "anet_generic_accept k st =
     (let (fd, family, err) = sk_accept k (so_tick st) (so_open st); st = st\<lparr>so_tick := Suc (so_tick st)\<rparr>
      in if fd = - 1 then (if err = EINTR then anet_generic_accept k st else Some (- 1, family, st))
         else Some (fd, family, st\<lparr>so_open := fd # so_open st\<rparr>))"

text \<open>The peer's address only goes to the log and is left out.\<close>

definition anet_tcp_accept :: "sock_kernel \<Rightarrow> socks \<Rightarrow> (int \<times> int \<times> socks) option" where
  "anet_tcp_accept k st =
     map_option (\<lambda>(fd, family, st). (if fd = - 1 then ANET_ERR else fd, family, st)) (anet_generic_accept k st)"

section \<open>Clients\<close>

text \<open>The last component tells whether \<open>p\<close> points to an address at the end.\<close>

fun connect_loop :: "sock_kernel \<Rightarrow> bool \<Rightarrow> int \<Rightarrow> bool list \<Rightarrow> socks \<Rightarrow> (int \<times> socks) \<times> bool" where
  "connect_loop k is_block s [] st = (socket_error s st, False)"
| "connect_loop k is_block _ (_ # ps) st =
     (let (s, st) = sys_socket k st
      in if s = - 1 then connect_loop k is_block s ps st
         else
           let (r, st) = anet_set_reuse_addr k s st
           in if r = ANET_ERR then (socket_error s st, True)
              else
                let (r, st) = (if is_block then (ANET_OK, st) else anet_no_block k s st)
                in if r \<noteq> ANET_OK then (socket_error s st, True)
                   else
                     let (e, st) = sock_call k st
                     in if e = 0 \<or> e = EINPROGRESS \<and> \<not> is_block then ((s, st), True)
                        else connect_loop k is_block ANET_ERR ps (sys_close s st))"

text \<open>\<open>want\<close>: the caller asks for the address. \<open>None\<close>: \<open>p->ai_addrlen\<close> is read through a null pointer.\<close>

definition anet_tcp_connect :: "sock_kernel \<Rightarrow> string \<Rightarrow> int \<Rightarrow> bool \<Rightarrow> bool \<Rightarrow> socks \<Rightarrow> (int \<times> socks) option" where
  "anet_tcp_connect k addr port is_block want st =
     (case sk_addrs k addr (port_str port) of
        None \<Rightarrow> Some (ANET_ERR, st)
      | Some servinfo \<Rightarrow>
          (case connect_loop k is_block ANET_ERR servinfo st of
             (res, p) \<Rightarrow> if want \<and> \<not> p then None else Some res))"

text \<open>The result and whether the connection is complete, which an error leaves as it was.\<close>

definition anet_check_connect_done :: "int \<Rightarrow> bool \<Rightarrow> int \<times> bool" where
  "anet_check_connect_done err completed =
     (if err = 0 \<or> err = EISCONN then (ANET_OK, True)
      else if err = EALREADY \<or> err = EINPROGRESS \<or> err = EWOULDBLOCK then (ANET_OK, False)
      else (ANET_ERR, completed))"

section \<open>Descriptors are conserved\<close>

text \<open>What the kernel documents: \<open>socket\<close> returns a descriptor that is not in use.\<close>

definition fresh_sockets :: "sock_kernel \<Rightarrow> bool" where
  "fresh_sockets k \<longleftrightarrow> (\<forall>t os. sk_socket k t os \<notin> set os)"

text \<open>\<open>owns s st st'\<close>: of the descriptors opened between \<open>st\<close> and \<open>st'\<close> only \<open>s\<close> is left, and none if it is -1.\<close>

definition owns :: "int \<Rightarrow> socks \<Rightarrow> socks \<Rightarrow> bool" where
  "owns s st st' \<longleftrightarrow>
     (if s = - 1 then so_open st' = so_open st else so_open st' = s # so_open st \<and> s \<notin> set (so_open st))"

lemma sock_call_frame: "sock_call k st = (e, st') \<Longrightarrow> so_open st' = so_open st \<and> so_bad st' = so_bad st"
  by (auto simp: sock_call_def)

lemma set_opt_frame: "set_opt k fd opt st = (r, st') \<Longrightarrow> so_open st' = so_open st \<and> so_bad st' = so_bad st"
  by (auto simp: set_opt_def Let_def dest: sock_call_frame split: prod.splits if_splits)

lemma set_block_frame: "anet_set_block k fd b st = (r, st') \<Longrightarrow> so_open st' = so_open st \<and> so_bad st' = so_bad st"
  by (fastforce simp: anet_set_block_def Let_def dest: sock_call_frame split: prod.splits if_splits)

lemma close_owned: "owns s st st' \<Longrightarrow> s \<noteq> - 1 \<Longrightarrow> owns (- 1) st (sys_close s st') \<and> so_bad (sys_close s st') = so_bad st'"
  by (simp add: owns_def sys_close_def)

lemma socket_owned: "fresh_sockets k \<Longrightarrow> sys_socket k st = (s, st') \<Longrightarrow> owns s st st' \<and> so_bad st' = so_bad st"
  by (auto simp: fresh_sockets_def sys_socket_def owns_def Let_def split: if_splits)

lemma owns_same: "owns s st st' \<Longrightarrow> so_open st'' = so_open st' \<Longrightarrow> owns s st st''"
  by (simp add: owns_def)

lemma listen_owned:
  assumes "owns s st st'" and "s \<noteq> - 1" and "anet_listen k s st' = (r, st'')"
  shows "owns (if r = ANET_ERR then - 1 else s) st st'' \<and> so_bad st'' = so_bad st'"
proof -
  obtain e st1 e' st2 where c: "sock_call k st' = (e, st1)" "sock_call k st1 = (e', st2)" by (meson surj_pair)
  note f = sock_call_frame [OF c(1)] sock_call_frame [OF c(2)]
  have o: "owns s st st1" "owns s st st2" using assms(1) f by (auto intro: owns_same)
  show ?thesis
    using assms(2,3) c f close_owned [OF o(1)] close_owned [OF o(2)] o
    by (auto simp: anet_listen_def ANET_ERR_def ANET_OK_def split: if_splits)
qed

text \<open>\<open>bad_close n st st'\<close>: at most \<open>n\<close> descriptors were closed twice.\<close>

definition bad_close :: "nat \<Rightarrow> socks \<Rightarrow> socks \<Rightarrow> bool" where
  "bad_close n st st' \<longleftrightarrow> (\<exists>fds. so_bad st' = so_bad st @ fds \<and> length fds \<le> n)"

lemma server_loop_owns:
  assumes "fresh_sockets k"
  shows "server_loop k (- 1) ps st = (s, st') \<Longrightarrow>
    owns s st st' \<and> bad_close (if True \<in> set ps then 1 else 0) st st'"
proof (induction ps arbitrary: st)
  case Nil
  then show ?case by (auto simp: socket_error_def owns_def bad_close_def ANET_ERR_def)
next
  case (Cons v6 ps)
  obtain fd st1 where fd: "sys_socket k st = (fd, st1)" by fastforce
  note o1 = socket_owned [OF assms fd]
  show ?case
  proof (cases "fd = - 1")
    case True
    then have "owns s st1 st' \<and> bad_close (if True \<in> set ps then 1 else 0) st1 st'" using Cons.IH Cons.prems fd by simp
    moreover have "so_open st1 = so_open st" "so_bad st1 = so_bad st" using o1 True by (auto simp: owns_def)
    ultimately show ?thesis by (auto simp: owns_def bad_close_def split: if_splits)
  next
    case False
    obtain r2 st2 where r2: "set_opt k fd IPV6_V6ONLY st1 = (r2, st2)" by fastforce
    note f2 = set_opt_frame [OF r2]
    show ?thesis
    proof (cases "v6 \<and> r2 = ANET_ERR")
      case True
      have "owns fd st st2" using o1 f2 by (auto intro: owns_same)
      from close_owned [OF this False] have "owns (- 1) st (sys_close fd st2)" "so_bad (sys_close fd st2) = so_bad st"
        using o1 f2 by auto
      moreover have "fd \<notin> set (so_open (sys_close fd st2))" using o1 f2 False by (auto simp: owns_def sys_close_def)
      ultimately show ?thesis
        using Cons.prems fd False True r2
        by (auto simp: anet_v6_only_def socket_error_def owns_def bad_close_def sys_close_def ANET_ERR_def split: if_splits)
    next
      case False2: False
      obtain st3 where st3: "(if v6 then anet_v6_only k fd st1 else (ANET_OK, st1)) = (ANET_OK, st3)"
        "so_open st3 = so_open st1" "so_bad st3 = so_bad st1"
        using False2 r2 f2 by (cases v6) (auto simp: anet_v6_only_def)
      obtain r4 st4 where r4: "anet_set_reuse_addr k fd st3 = (r4, st4)" by fastforce
      have o4: "owns fd st st4" "so_bad st4 = so_bad st"
        using set_opt_frame [OF r4 [unfolded anet_set_reuse_addr_def]] o1 st3 by (auto intro: owns_same)
      obtain r5 st5 where r5: "anet_listen k fd st4 = (r5, st5)" by fastforce
      note o5 = listen_owned [OF o4(1) False r5]
      show ?thesis
        using Cons.prems fd False st3(1) r4 r5 o5 close_owned [OF o4(1) False] o4
        by (auto simp: socket_error_def bad_close_def ANET_ERR_def ANET_OK_def split: if_splits)
    qed
  qed
qed

lemma connect_loop_owns:
  assumes "fresh_sockets k"
  shows "connect_loop k b (- 1) ps st = ((s, st'), p) \<Longrightarrow> owns s st st' \<and> so_bad st' = so_bad st \<and> (s \<noteq> - 1 \<longrightarrow> p)"
proof (induction ps arbitrary: st)
  case Nil
  then show ?case by (auto simp: socket_error_def owns_def ANET_ERR_def)
next
  case (Cons a ps)
  obtain fd st1 where fd: "sys_socket k st = (fd, st1)" by fastforce
  note o1 = socket_owned [OF assms fd]
  show ?case
  proof (cases "fd = - 1")
    case True
    then have "owns s st1 st' \<and> so_bad st' = so_bad st1 \<and> (s \<noteq> - 1 \<longrightarrow> p)" using Cons.IH [of st1] Cons.prems fd by simp
    moreover have "so_open st1 = so_open st" using o1 True by (auto simp: owns_def)
    ultimately show ?thesis using o1 by (auto simp: owns_def split: if_splits)
  next
    case False
    obtain r2 st2 where r2: "anet_set_reuse_addr k fd st1 = (r2, st2)" by fastforce
    obtain r3 st3 where r3: "(if b then (ANET_OK, st2) else anet_no_block k fd st2) = (r3, st3)" by fastforce
    obtain e st4 where e: "sock_call k st3 = (e, st4)" by fastforce
    have f2: "so_open st2 = so_open st1 \<and> so_bad st2 = so_bad st1"
      using set_opt_frame r2 by (auto simp: anet_set_reuse_addr_def)
    have f3: "so_open st3 = so_open st2 \<and> so_bad st3 = so_bad st2"
      using set_block_frame r3 by (auto simp: anet_no_block_def split: if_splits)
    have o: "owns fd st st2" "owns fd st st3" "owns fd st st4"
      using o1 f2 f3 sock_call_frame [OF e] by (auto intro: owns_same)
    note c2 = close_owned [OF o(1) False] and c3 = close_owned [OF o(2) False] and c4 = close_owned [OF o(3) False]
    have bad: "so_bad st4 = so_bad st" "so_bad st3 = so_bad st" "so_bad st2 = so_bad st" using o1 f2 f3 sock_call_frame [OF e] by auto
    show ?thesis
    proof (cases "r2 \<noteq> ANET_ERR \<and> r3 = ANET_OK \<and> \<not> (e = 0 \<or> e = EINPROGRESS \<and> \<not> b)")
      case True
      have "connect_loop k b (- 1) ps (sys_close fd st4) = ((s, st'), p)"
        using Cons.prems fd False r2 r3 e True by (auto simp: ANET_ERR_def Let_def split: if_splits)
      from Cons.IH [OF this] show ?thesis using c4 bad by (auto simp: owns_def split: if_splits)
    next
      case False2: False
      show ?thesis
        using Cons.prems fd False r2 r3 e False2 c2 c3 o(3) bad
        by (simp add: socket_error_def ANET_ERR_def Let_def split: if_splits)
    qed
  qed
qed

text \<open>
  C26. The socket functions neither leak nor steal descriptors: a call of \<open>anet_tcp_server\<close> or
  \<open>anet_tcp_connect\<close> leaves exactly the socket it returns open beside those that were open before, and none
  when it fails, whichever of the kernel's calls fail. Only the setting of the IPv6 option can make the
  server close a descriptor twice.
\<close>

theorem sockets_are_conserved:
  assumes "fresh_sockets k"
  shows "(anet_tcp_server k host port st = (s, st') \<longrightarrow> owns s st st' \<and> bad_close 1 st st'
      \<and> (\<forall>ps. sk_addrs k host (port_str port) = Some ps \<and> True \<notin> set ps \<longrightarrow> so_bad st' = so_bad st))
    \<and> (anet_tcp_connect k host port b want st = Some (s, st') \<longrightarrow> owns s st st' \<and> so_bad st' = so_bad st)"
proof (intro conjI impI)
  show "owns s st st'" "bad_close 1 st st'"
    "\<forall>ps. sk_addrs k host (port_str port) = Some ps \<and> True \<notin> set ps \<longrightarrow> so_bad st' = so_bad st"
    if "anet_tcp_server k host port st = (s, st')"
    using that server_loop_owns [OF assms, of _ st s st']
    by (fastforce simp: anet_tcp_server_def owns_def bad_close_def ANET_ERR_def split: option.splits if_splits)+
  show "owns s st st'" "so_bad st' = so_bad st" if "anet_tcp_connect k host port b want st = Some (s, st')"
    using that connect_loop_owns [OF assms, of b _ st s st']
    by (fastforce simp: anet_tcp_connect_def owns_def ANET_ERR_def split: option.splits if_splits prod.splits)+
qed

text \<open>A kernel in use: two addresses, the first of them of IP 6, whose option fails; then descriptor 9.\<close>

definition test_kernel :: "int list \<Rightarrow> sock_kernel" where
  "test_kernel errs = \<lparr>sk_addrs = (\<lambda>_ _. Some [True, False]),
     sk_err = (\<lambda>t. if t < length errs then errs ! t else 0),
     sk_socket = (\<lambda>t os. if os = [] then 9 else 1 + Max (set os)), sk_accept = (\<lambda>_ _. (- 1, 0, EINTR))\<rparr>"

lemma fresh_test: "fresh_sockets (test_kernel errs)"
  unfolding fresh_sockets_def
proof (intro allI notI)
  fix t os assume m: "sk_socket (test_kernel errs) t os \<in> set os"
  then have "1 + Max (set os) \<in> set os" by (auto simp: test_kernel_def split: if_splits)
  then have "1 + Max (set os) \<le> Max (set os)" by (intro Max_ge) auto
  then show False by simp
qed

definition no_socks :: socks where
  "no_socks = \<lparr>so_tick = 0, so_open = [], so_bad = [], so_flags = [], so_opts = []\<rparr>"

text \<open>The option of the first socket fails: the server gives up, and closes descriptor 9 twice.\<close>

theorem sockets_are_conserved_witness:
  "\<exists>st. anet_tcp_server (test_kernel [0, 22]) ''::'' 7000 no_socks = (- 1, st) \<and> so_open st = [] \<and> so_bad st = [9]
     \<and> bad_close 1 no_socks st"
proof -
  let ?k = "test_kernel [0, 22]"
  obtain s st where st: "anet_tcp_server ?k ''::'' 7000 no_socks = (s, st)" by fastforce
  then have e: "s = - 1" "so_bad st = [9]"
    by (auto simp: anet_tcp_server_def test_kernel_def no_socks_def sys_socket_def anet_v6_only_def set_opt_def sock_call_def
        socket_error_def sys_close_def ANET_ERR_def ANET_OK_def)
  have o: "owns s no_socks st" "bad_close 1 no_socks st"
    using sockets_are_conserved [OF fresh_test, of "[0, 22]" "''::''" 7000 no_socks s st True False] st by blast+
  then show ?thesis using st e by (auto simp: owns_def no_socks_def)
qed

section \<open>More about the sockets\<close>

text \<open>\<open>anet_block\<close> undoes \<open>anet_no_block\<close> and leaves the other flags alone.\<close>

lemma block_undoes_no_block:
  assumes "map_of (so_flags st) fd = Some f" and "and f O_NONBLOCK = 0"
    and "anet_no_block k fd st = (ANET_OK, st1)" and "anet_block k fd st1 = (ANET_OK, st2)"
  shows "map_of (so_flags st2) fd = Some f"
proof -
  have f: "and (or f O_NONBLOCK) (not O_NONBLOCK) = f" using assms(2) by (intro bit_eqI) (auto simp: bit_simps bit_eq_iff)
  have 1: "map_of (so_flags st1) fd = Some (or f O_NONBLOCK)"
    using assms(1,3) by (auto simp: anet_no_block_def anet_set_block_def sock_call_def ANET_OK_def ANET_ERR_def Let_def split: if_splits)
  show ?thesis
    using assms(4) 1 f by (auto simp: anet_block_def anet_set_block_def sock_call_def ANET_OK_def ANET_ERR_def Let_def split: if_splits)
qed

text \<open>A server does not try the next address when the first one cannot be bound.\<close>

lemma server_gives_up_on_bind:
  assumes "sys_socket k st = (fd, st1)" and "fd \<noteq> - 1" and "anet_set_reuse_addr k fd st1 = (ANET_OK, st2)"
    and "sk_err k (so_tick st2) \<noteq> 0"
  shows "fst (server_loop k (- 1) (False # ps) st) = - 1"
  using assms by (simp add: anet_listen_def sock_call_def Let_def ANET_ERR_def ANET_OK_def)

text \<open>\<open>anet_tcp_connect\<close> with a caller that wants the address crashes when no address answers.\<close>

lemma connect_without_address_crashes:
  "sk_addrs k addr (port_str port) = Some [] \<Longrightarrow> anet_tcp_connect k addr port b True st = None"
  by (simp add: anet_tcp_connect_def)

text \<open>The loop of \<open>accept\<close> ends with the first answer that is not \<open>EINTR\<close>.\<close>

lemma accept_ends:
  assumes "\<forall>i < n. \<exists>fam. sk_accept k (so_tick st + i) (so_open st) = (- 1, fam, EINTR)"
    and "sk_accept k (so_tick st + n) (so_open st) = (fd, fam, e)" and "fd \<noteq> - 1 \<or> e \<noteq> EINTR"
  shows "\<exists>st'. anet_generic_accept k st = Some (fd, fam, st') \<and> so_open st' = (if fd = - 1 then so_open st else fd # so_open st)"
  using assms
proof (induction n arbitrary: st)
  case 0
  then show ?case by (subst anet_generic_accept.simps) (auto simp: Let_def)
next
  case (Suc n)
  obtain fam0 where f: "sk_accept k (so_tick st) (so_open st) = (- 1, fam0, EINTR)" using Suc.prems(1) by fastforce
  let ?st = "st\<lparr>so_tick := Suc (so_tick st)\<rparr>"
  have "\<forall>i < n. \<exists>fam. sk_accept k (so_tick ?st + i) (so_open ?st) = (- 1, fam, EINTR)"
    using Suc.prems(1) by (metis Suc_less_eq add_Suc add_Suc_right socks.select_convs(1,2) socks.update_convs(1) socks.surjective)
  from Suc.IH [OF this] Suc.prems(2,3) f show ?case by (subst anet_generic_accept.simps) (auto simp: Let_def)
qed

end
