(* ===== verification/Mysql_Result.thy ===== *)
theory Mysql_Result
  imports Complex_Main Kim_Prelude
begin

text \<open>
  The result of a query, \<open>src/core/db/mysql_result.cpp\<close>. The \<open>MYSQL_RES\<close> of the client library is the
  record \<open>my_res\<close>: the names of the columns, the rows (\<open>None\<close> for NULL) and how many of them
  \<open>mysql_fetch_row\<close> has given out; a row has one value per column.
\<close>

record my_res =
  re_names :: "string list"
  re_rows :: "string option list list"
  re_next :: nat

record mysql_result =
  mr_error :: int
  mr_errstr :: string
  mr_res :: "my_res option"
  mr_row_cnt :: int
  mr_field_cnt :: int

definition new_result :: mysql_result where
  "new_result = \<lparr>mr_error = - 1, mr_errstr = [], mr_res = None, mr_row_cnt = 0, mr_field_cnt = 0\<rparr>"

text \<open>\<open>mysql\<close>: \<open>mysql_errno\<close> and \<open>mysql_error\<close> of the connection, \<open>None\<close> for a null pointer.\<close>

definition result_init :: "(int \<times> string) option \<Rightarrow> my_res option \<Rightarrow> mysql_result \<Rightarrow> bool \<times> mysql_result" where
  "result_init mysql res m =
     (case (mysql, res) of
        (Some (e, es), Some r) \<Rightarrow>
          (True, m\<lparr>mr_res := Some r, mr_error := e, mr_errstr := es, mr_row_cnt := c_int (int (length (re_rows r))),
                   mr_field_cnt := c_int (int (length (re_names r)))\<rparr>)
      | _ \<Rightarrow> (False, m\<lparr>mr_error := - 1, mr_errstr := ''invalid param!''\<rparr>))"

definition mysql_fetch_row :: "my_res \<Rightarrow> string option list option \<times> my_res" where
  "mysql_fetch_row r =
     (if re_next r < length (re_rows r) then (Some (re_rows r ! re_next r), r\<lparr>re_next := Suc (re_next r)\<rparr>) else (None, r))"

definition fetch_row :: "mysql_result \<Rightarrow> string option list option \<times> mysql_result" where
  "fetch_row m =
     (case mr_res m of None \<Rightarrow> (None, m)
      | Some r \<Rightarrow> (case mysql_fetch_row r of (row, r) \<Rightarrow> (row, m\<lparr>mr_res := Some r\<rparr>)))"

text \<open>One row as a map from names to values.\<close>

fun row_items :: "string list \<Rightarrow> string option list \<Rightarrow> (string \<times> string) list \<Rightarrow> (string \<times> string) list" where
  "row_items (n # ns) (v # vs) items = row_items ns vs (uset items n (case v of None \<Rightarrow> [] | Some s \<Rightarrow> s))"
| "row_items _ _ items = items"

function result_loop :: "int \<Rightarrow> my_res \<Rightarrow> (string \<times> string) list list \<Rightarrow> (string \<times> string) list list \<times> my_res" where
  "result_loop cnt r data =
     (case mysql_fetch_row r of
        (None, r) \<Rightarrow> (data, r)
      | (Some row, r) \<Rightarrow> result_loop cnt r (data @ [row_items (take (nat cnt) (re_names r)) row []]))"
  by auto
termination
  by (relation "measure (\<lambda>(_, r, _). length (re_rows r) - re_next r)") (auto simp: mysql_fetch_row_def split: if_splits)

declare result_loop.simps [simp del]

definition result_data :: "mysql_result \<Rightarrow> (string \<times> string) list list \<Rightarrow> int \<times> (string \<times> string) list list \<times> mysql_result" where
  "result_data m data =
     (case mr_res m of None \<Rightarrow> (0, data, m)
      | Some r \<Rightarrow>
          (case result_loop (mr_field_cnt m) r data of (data, r) \<Rightarrow> (c_int (int (length data)), data, m\<lparr>mr_res := Some r\<rparr>)))"

definition num_rows :: "mysql_result \<Rightarrow> nat" where
  "num_rows m = (case mr_res m of None \<Rightarrow> 0 | Some r \<Rightarrow> length (re_rows r))"

definition fetch_num_fields :: "mysql_result \<Rightarrow> nat" where
  "fetch_num_fields m = (case mr_res m of None \<Rightarrow> 0 | Some r \<Rightarrow> length (re_names r))"

definition is_ok :: "mysql_result \<Rightarrow> bool" where
  "is_ok m \<longleftrightarrow> mr_error m = 0"

section \<open>The rows are read once\<close>

lemma result_loop_rows:
  "re_next r \<le> length (re_rows r) \<Longrightarrow>
    result_loop cnt r data =
      (data @ map (\<lambda>row. row_items (take (nat cnt) (re_names r)) row []) (drop (re_next r) (re_rows r)),
       r\<lparr>re_next := length (re_rows r)\<rparr>)"
proof (induction cnt r data rule: result_loop.induct)
  case (1 cnt r data)
  show ?case
  proof (cases "re_next r < length (re_rows r)")
    case True
    let ?r = "r\<lparr>re_next := Suc (re_next r)\<rparr>"
    have f: "mysql_fetch_row r = (Some (re_rows r ! re_next r), ?r)" using True by (simp add: mysql_fetch_row_def)
    have "result_loop cnt ?r (data @ [row_items (take (nat cnt) (re_names ?r)) (re_rows r ! re_next r) []]) =
      ((data @ [row_items (take (nat cnt) (re_names ?r)) (re_rows r ! re_next r) []])
        @ map (\<lambda>row. row_items (take (nat cnt) (re_names ?r)) row []) (drop (re_next ?r) (re_rows ?r)),
       ?r\<lparr>re_next := length (re_rows ?r)\<rparr>)"
      by (rule "1.IH" [OF f [symmetric] refl]) (use True in simp)
    then show ?thesis using f True by (subst result_loop.simps) (simp add: Cons_nth_drop_Suc [symmetric])
  next
    case False
    then show ?thesis using "1.prems" by (subst result_loop.simps) (simp add: mysql_fetch_row_def)
  qed
qed

text \<open>\<open>result_data\<close> appends the rows not yet fetched and leaves nothing for a second call.\<close>

lemma result_data_drains:
  assumes "mr_res m = Some r" and "re_next r \<le> length (re_rows r)" and "result_data m data = (n, data', m')"
  shows "data' = data @ map (\<lambda>row. row_items (take (nat (mr_field_cnt m)) (re_names r)) row []) (drop (re_next r) (re_rows r))"
    and "result_data m' data' = (n, data', m')" and "fst (fetch_row m') = None" and "num_rows m' = length (re_rows r)"
  using assms by (auto simp: result_data_def result_loop_rows fetch_row_def mysql_fetch_row_def num_rows_def)

text \<open>Of two columns with the same name only the last one is in the map.\<close>

lemma row_items_keys: "set (map fst (row_items ns vs items)) \<subseteq> set ns \<union> set (map fst items)"
proof (induction ns vs items rule: row_items.induct)
  case (1 n ns v vs items)
  then show ?case by (auto simp: dom_update dest!: subsetD)
qed auto

lemma duplicate_columns_collapse: "row_items [n, n] [Some a, Some b] [] = [(n, b)]"
  by simp

end
