(* ===== verification/Net_Setup.thy ===== *)
theory Net_Setup
  imports Net_Loop Anet Mysql_Result
begin

text \<open>
  How a process is set up: the functions of \<open>src/core/network.cpp\<close> that read the configuration, create
  the parts of a \<open>Network\<close> and listen, for the manager (\<open>create_m\<close>) and for a worker (\<open>create_w\<close>); the
  callbacks of \<open>src/core/events_callback.cpp\<close> by which libev reaches the handlers; and the callbacks of the
  pools. \<open>None\<close> is a crash, here an uncaught exception of \<open>std::stoi\<close> or a freed watcher that is read.
\<close>

section \<open>Configuration\<close>

text \<open>The members of the configuration by their names, text as \<open>m_conf("...")\<close> gives it, and the whole text.\<close>

record server_conf =
  sc_text :: string
  sc_server_name :: string
  sc_worker_cnt :: string
  sc_node_type :: string
  sc_node_host :: string
  sc_node_port :: string
  sc_gate_host :: string
  sc_gate_port :: string
  sc_gate_codec :: string
  sc_keep_alive :: "real option"
  sc_log_path :: string
  sc_log_level :: string
  sc_modules :: "string list"
  sc_database :: "(string \<times> db_conf) list"
  sc_redis :: "(string \<times> string \<times> string) list"
  sc_zk :: zk_conf

text \<open>What start-up asks of the system: a loop of libev, sockets, shared objects, the working directory.\<close>

record setup_env =
  su_loop :: bool
  su_kernel :: sock_kernel
  su_dl :: dl_lib
  su_work_path :: string

text \<open>\<open>addr_info\<close> (\<open>protobuf/sys/nodes.proto\<close>); the ports are \<open>uint32\<close>.\<close>

record addr_info =
  ai_node_host :: string
  ai_node_port :: nat
  ai_gate_host :: string
  ai_gate_port :: nat

definition IO_TIMEOUT_VAL :: real where "IO_TIMEOUT_VAL = 15"
definition REPEAT_TIMEOUT_VAL :: real where "REPEAT_TIMEOUT_VAL = 1"

text \<open>A new \<open>Network\<close>: the initial values of its members.\<close>

definition fresh_network :: "net_type \<Rightarrow> network" where
  "fresh_network ty = \<lparr>n_type = ty, n_seq = 0, n_conns = [], n_node_conns = [], n_cmds = [], n_wait_send_fds = [],
     n_worker_data = new_worker_data, n_nodes = new_nodes 200 FNV1A_64, n_sessions = [], n_payload = empty_payload,
     n_events = new_events, n_module_mgr = None, n_redis_pool = new_redis_mgr, n_db_pool = new_db_mgr, n_zk = None,
     n_node_type = [], n_node_host = [], n_gate_host = [], n_node_port = 0, n_gate_port = 0, n_worker_index = 0,
     n_node_host_fd = - 1, n_gate_host_fd = - 1, n_manager_ctrl_fd = - 1, n_manager_data_fd = - 1,
     n_keep_alive = IO_TIMEOUT_VAL, n_gate_codec = CT_UNKNOWN, n_timer_index = 0, n_tick = 0, n_trace = []\<rparr>"

definition set_gate_codec :: "string \<Rightarrow> network \<Rightarrow> bool \<times> network" where
  "set_gate_codec codec_type s =
     (let ty = get_codec_type codec_type in if ty \<noteq> CT_UNKNOWN then (True, s\<lparr>n_gate_codec := ty\<rparr>) else (False, s))"

definition net_load_config :: "server_conf \<Rightarrow> network \<Rightarrow> bool \<times> network" where
  "net_load_config conf s =
     (let (ok, s) = (if sc_gate_codec conf \<noteq> [] then set_gate_codec (sc_gate_codec conf) s else (True, s))
      in if \<not> ok then (False, s)
         else
           let s = (case sc_keep_alive conf of None \<Rightarrow> s | Some secs \<Rightarrow> s\<lparr>n_keep_alive := secs\<rparr>);
               s = s\<lparr>n_node_type := sc_node_type conf\<rparr>
           in (sc_node_type conf \<noteq> [], s))"

section \<open>The callbacks of libev\<close>

text \<open>\<open>EventsCallback::init\<close>, on whether the two pointers are not null.\<close>

definition callback_init :: "bool \<Rightarrow> bool \<Rightarrow> bool" where
  "callback_init logger net \<longleftrightarrow> logger \<and> net"

definition setup_io_callback :: "network \<Rightarrow> network" where
  "setup_io_callback s = s\<lparr>n_events := (n_events s)\<lparr>m_io_callback_fn := True\<rparr>\<rparr>"

definition setup_io_timer_callback :: "network \<Rightarrow> network" where
  "setup_io_timer_callback s = s\<lparr>n_events := (n_events s)\<lparr>m_io_timer_callback_fn := True\<rparr>\<rparr>"

definition setup_cmd_timer_callback :: "network \<Rightarrow> network" where
  "setup_cmd_timer_callback s = s\<lparr>n_events := (n_events s)\<lparr>m_cmd_timer_callback_fn := True\<rparr>\<rparr>"

definition setup_session_timer_callback :: "network \<Rightarrow> network" where
  "setup_session_timer_callback s = s\<lparr>n_events := (n_events s)\<lparr>m_session_timer_callback_fn := True\<rparr>\<rparr>"

definition net_setup_signal_events :: "network \<Rightarrow> bool \<times> network" where
  "net_setup_signal_events s =
     (let (ok, e) = setup_signal_events True ((n_events s)\<lparr>m_sig_callback_fn := True\<rparr>) in (ok, s\<lparr>n_events := e\<rparr>))"

definition net_setup_signal_event :: "int \<Rightarrow> network \<Rightarrow> bool \<times> network" where
  "net_setup_signal_event sig s =
     (let (ok, e) = create_signal_event sig ((n_events s)\<lparr>m_sig_callback_fn := True\<rparr>) in (ok, s\<lparr>n_events := e\<rparr>))"

definition net_setup_timer :: "world \<Rightarrow> ev_timer option \<Rightarrow> network \<Rightarrow> ev_timer option \<times> network" where
  "net_setup_timer w m_timer s =
     (let e = (n_events s)\<lparr>m_repeat_timer_callback_fn := True\<rparr>
      in (add_repeat_timer e (w_mem w (n_tick s)) (w_lag w (n_tick s)) REPEAT_TIMEOUT_VAL m_timer,
          (tick s)\<lparr>n_events := e\<rparr>))"

text \<open>
  The callback of a descriptor's watcher, with the bits of \<open>events\<close>. The watcher belongs to the
  connection: when the connection is closed it is freed, and after that \<open>w->fd\<close> is read from freed memory.
\<close>

definition on_io_callback :: "world \<Rightarrow> user_code \<Rightarrow> channel_t \<Rightarrow> bool \<Rightarrow> bool \<Rightarrow> connection \<Rightarrow> network \<Rightarrow> network option" where
  "on_io_callback w u chan rd wr c s =
     do {
       s \<leftarrow> (if rd then on_io_read w u chan (c_fd c) s else Some s);
       if wr then (if get_conn s (fd_data c) = None then None else on_io_write w (c_fd c) s) else Some s
     }"

section \<open>The parts of a process\<close>

definition create_events :: "setup_env \<Rightarrow> network \<Rightarrow> bool \<times> network" where
  "create_events e s =
     (let (ok, ev) = events_create (su_loop e) new_events
      in if \<not> ok then (False, s\<lparr>n_events := new_events\<rparr>)
         else if \<not> callback_init True True then (False, s\<lparr>n_events := new_events\<rparr>)
         else (True, setup_session_timer_callback (setup_cmd_timer_callback (setup_io_timer_callback
                (setup_io_callback (s\<lparr>n_events := ev\<rparr>))))))"

definition load_public :: "setup_env \<Rightarrow> server_conf \<Rightarrow> network \<Rightarrow> bool \<times> network" where
  "load_public e conf s =
     (let (ok, s) = net_load_config conf s
      in if \<not> ok then (False, s)
         else
           let (ok, s) = create_events e s
           in if \<not> ok then (False, s)
              else (True, s\<lparr>n_timer_index := 0, n_sessions := [], n_nodes := new_nodes 200 FNV1A_64\<rparr>))"

definition load_worker_data_mgr :: "network \<Rightarrow> bool \<times> network" where
  "load_worker_data_mgr s = (True, s\<lparr>n_worker_data := new_worker_data\<rparr>)"

text \<open>The result of \<open>init\<close> is only logged.\<close>

definition load_zk_mgr :: "world \<Rightarrow> server_conf \<Rightarrow> network \<Rightarrow> (bool \<times> network) option" where
  "load_zk_mgr w conf s =
     map_option (\<lambda>(_, s). (True, s)) (zk_init w (sc_zk conf) (s\<lparr>n_zk := Some (new_zk_client (sc_zk conf))\<rparr>))"

definition load_db :: "server_conf \<Rightarrow> network \<Rightarrow> (bool \<times> network) option" where
  "load_db conf s = map_option (\<lambda>(ok, m). (ok, s\<lparr>n_db_pool := m\<rparr>)) (db_init (sc_database conf) new_db_mgr)"

definition load_redis_mgr :: "server_conf \<Rightarrow> network \<Rightarrow> (bool \<times> network) option" where
  "load_redis_mgr conf s = map_option (\<lambda>(ok, m). (ok, s\<lparr>n_redis_pool := m\<rparr>)) (redis_init (sc_redis conf) new_redis_mgr)"

definition load_modules :: "setup_env \<Rightarrow> server_conf \<Rightarrow> network \<Rightarrow> bool \<times> network" where
  "load_modules e conf s =
     (let (_, s) = new_seq s;
          (ok, ms, s) = modules_init (su_dl e) (su_work_path e) (sc_modules conf) [] s
      in (ok, s\<lparr>n_module_mgr := Some ms\<rparr>))"

text \<open>The kernel's answers go on from the tick of the process.\<close>

definition listen_to_port :: "setup_env \<Rightarrow> string \<Rightarrow> int \<Rightarrow> network \<Rightarrow> int \<times> network" where
  "listen_to_port e host port s =
     (let st = \<lparr>so_tick = n_tick s, so_open = ukeys (n_conns s), so_bad = [], so_flags = [], so_opts = []\<rparr>;
          (fd, st) = anet_tcp_server (su_kernel e) (c_str host) port st
      in if fd = - 1 then (- 1, s\<lparr>n_tick := so_tick st\<rparr>)
         else
           let (r, st) = anet_no_block (su_kernel e) fd st;
               s = s\<lparr>n_tick := so_tick st\<rparr>
           in if r \<noteq> ANET_OK then (- 1, close_fd fd s) else (fd, s))"

definition close_chanel :: "int \<times> int \<Rightarrow> network \<Rightarrow> network" where
  "close_chanel fds s = close_fd (snd fds) (close_fd (fst fds) s)"

text \<open>\<open>close_fds\<close> closes the valid connections while it iterates over the table, which is undefined if there are any.\<close>

definition close_fds :: "network \<Rightarrow> network option" where
  "close_fds s = (if \<exists>(fd, c) \<in> set (n_conns s). \<not> is_invalid c then None else Some s)"

text \<open>\<open>destory\<close>: the loop is told to end, and everything is deleted.\<close>

definition net_destory :: "network \<Rightarrow> network option" where
  "net_destory s =
     map_option (\<lambda>s. s\<lparr>n_wait_send_fds := [], n_cmds := [], n_zk := None, n_db_pool := new_db_mgr,
        n_redis_pool := new_redis_mgr, n_sessions := [], n_events := new_events\<rparr>) (close_conns s)"

section \<open>Manager and worker\<close>

definition listen_node :: "world \<Rightarrow> setup_env \<Rightarrow> addr_info \<Rightarrow> network \<Rightarrow> bool \<times> network" where
  "listen_node w e ai s =
     (if ai_node_host ai = [] then (True, s)
      else
        let (fd, s) = listen_to_port e (ai_node_host ai) (c_int (int (ai_node_port ai))) s
        in if fd = - 1 then (False, s)
           else
             let s = s\<lparr>n_node_host_fd := fd, n_node_host := ai_node_host ai, n_node_port := c_int (int (ai_node_port ai))\<rparr>
             in case net_add_read_event w fd CT_PROTOBUF False s of
                  (None, s) \<Rightarrow> (False, close_fd fd s)
                | (Some _, s) \<Rightarrow> (True, s))"

definition listen_gate :: "world \<Rightarrow> setup_env \<Rightarrow> addr_info \<Rightarrow> network \<Rightarrow> bool \<times> network" where
  "listen_gate w e ai s =
     (if ai_gate_host ai = [] then (True, s)
      else
        let (fd, s) = listen_to_port e (ai_gate_host ai) (c_int (int (ai_gate_port ai))) s
        in if fd = - 1 then (False, s)
           else
             let s = s\<lparr>n_gate_host_fd := fd, n_gate_host := ai_gate_host ai, n_gate_port := c_int (int (ai_gate_port ai))\<rparr>
             in case net_add_read_event w fd (n_gate_codec s) False s of
                  (None, s) \<Rightarrow> (False, close_fd fd s)
                | (Some _, s) \<Rightarrow> (True, s))"

definition create_m :: "world \<Rightarrow> setup_env \<Rightarrow> addr_info \<Rightarrow> server_conf \<Rightarrow> network \<Rightarrow> (bool \<times> network) option" where
  "create_m w e ai conf s =
     (let (ok, s) = load_public e conf s
      in if \<not> ok then Some (False, s)
         else
           let (ok, s) = load_worker_data_mgr s
           in if \<not> ok then Some (False, s)
              else do {
                (ok, s) \<leftarrow> load_zk_mgr w conf s;
                if \<not> ok then Some (False, s)
                else
                  let (ok, s) = listen_node w e ai s
                  in if \<not> ok then Some (False, s) else Some (listen_gate w e ai s)
              })"

definition add_chanel_event :: "world \<Rightarrow> int \<Rightarrow> network \<Rightarrow> bool \<times> network" where
  "add_chanel_event w fd s =
     (case net_add_read_event w fd CT_PROTOBUF True s of
        (None, s) \<Rightarrow> (False, close_fd fd s)
      | (Some _, s) \<Rightarrow> (True, s))"

definition create_w :: "world \<Rightarrow> setup_env \<Rightarrow> server_conf \<Rightarrow> int \<Rightarrow> int \<Rightarrow> int \<Rightarrow> network \<Rightarrow> (bool \<times> network) option" where
  "create_w w e conf ctrl_fd data_fd index s =
     (let (ok, s) = load_public e conf s
      in if \<not> ok then Some (False, s)
         else do {
           (ok, s) \<leftarrow> load_db conf s;
           if \<not> ok then Some (False, s)
           else do {
             (ok, s) \<leftarrow> load_redis_mgr conf s;
             if \<not> ok then Some (False, s)
             else
               let (ok, s) = load_modules e conf s
               in if \<not> ok then Some (False, s)
                  else
                    let (ok, s) = add_chanel_event w ctrl_fd s
                    in if \<not> ok then Some (False, s)
                       else
                         let (ok, s) = add_chanel_event w data_fd s
                         in if \<not> ok then Some (False, s)
                            else Some (True, s\<lparr>n_manager_ctrl_fd := ctrl_fd, n_manager_data_fd := data_fd,
                                             n_worker_index := index\<rparr>)
           }
         })"

section \<open>The callbacks of the pools\<close>

text \<open>The id of the command comes with the task; the rows are the values of each row's map.\<close>

definition net_on_mysql_query_callback ::
  "world \<Rightarrow> user_code \<Rightarrow> int \<Rightarrow> nat \<Rightarrow> mysql_result option \<Rightarrow> network \<Rightarrow> (bool \<times> network) option" where
  "net_on_mysql_query_callback w u err cmd_id res s =
     handle_cmd_callback w u cmd_id err
       (case res of None \<Rightarrow> D_null | Some m \<Rightarrow> D_rows (map (map snd) (fst (snd (result_data m []))))) s"

definition net_on_mysql_exec_callback :: "world \<Rightarrow> user_code \<Rightarrow> int \<Rightarrow> nat \<Rightarrow> network \<Rightarrow> (bool \<times> network) option" where
  "net_on_mysql_exec_callback w u err cmd_id s = handle_cmd_callback w u cmd_id err D_null s"

definition net_on_redis_callback ::
  "world \<Rightarrow> user_code \<Rightarrow> int \<Rightarrow> (int \<times> string) option \<Rightarrow> nat \<Rightarrow> network \<Rightarrow> (bool \<times> network) option" where
  "net_on_redis_callback w u err reply cmd_id s =
     handle_cmd_callback w u cmd_id err (case reply of None \<Rightarrow> D_null | Some (ty, str) \<Rightarrow> D_redis ty str) s"

end
