(* ===== verification/Log_File.thy ===== *)
theory Log_File
  imports Complex_Main Util_Str
begin

text \<open>
  The log of a process, \<open>src/core/util/log.cpp\<close>: the level, where the lines go and the lines themselves.
  \<open>fopen_ok\<close> is the answer of \<open>fopen\<close>, \<open>stamp\<close> the time as \<open>strftime\<close> prints it, and the text of a message
  is the full expansion of its format. A null \<open>char*\<close> is \<open>None\<close>.
\<close>

definition LL_EMERG :: int where "LL_EMERG = 0"
definition LL_ALERT :: int where "LL_ALERT = 1"
definition LL_CRIT :: int where "LL_CRIT = 2"
definition LL_ERR :: int where "LL_ERR = 3"
definition LL_WARNING :: int where "LL_WARNING = 4"
definition LL_NOTICE :: int where "LL_NOTICE = 5"
definition LL_INFO :: int where "LL_INFO = 6"
definition LL_DEBUG :: int where "LL_DEBUG = 7"
definition LL_TRACE :: int where "LL_TRACE = 8"
definition LL_COUNT :: int where "LL_COUNT = 9"

lemmas levels = LL_EMERG_def LL_ALERT_def LL_CRIT_def LL_ERR_def LL_WARNING_def LL_NOTICE_def LL_INFO_def
  LL_DEBUG_def LL_TRACE_def LL_COUNT_def

definition LOG_MAX_LEN :: nat where "LOG_MAX_LEN = 1024"

record log =
  lg_cur_level :: int
  lg_path :: string
  lg_worker_index :: int
  lg_is_manager :: bool

definition new_log :: log where
  "new_log = \<lparr>lg_cur_level = LL_TRACE, lg_path = [], lg_worker_index = - 1, lg_is_manager = False\<rparr>"

definition set_log_path :: "bool \<Rightarrow> string option \<Rightarrow> log \<Rightarrow> bool \<times> log" where
  "set_log_path fopen_ok path l =
     (case path of None \<Rightarrow> (False, l)
      | Some p \<Rightarrow> if \<not> fopen_ok then (False, l) else (True, l\<lparr>lg_path := p\<rparr>))"

definition set_level_int :: "int \<Rightarrow> log \<Rightarrow> bool \<times> log" where
  "set_level_int level l =
     (if level \<ge> LL_EMERG \<or> level < LL_COUNT then (True, l\<lparr>lg_cur_level := level\<rparr>) else (False, l))"

definition level_of_name :: "string \<Rightarrow> int option" where
  "level_of_name level =
     (if strcaseeq level ''TRACE'' then Some LL_TRACE
      else if strcaseeq level ''DEBUG'' then Some LL_DEBUG
      else if strcaseeq level ''INFO'' then Some LL_INFO
      else if strcaseeq level ''NOTICE'' then Some LL_NOTICE
      else if strcaseeq level ''WARN'' then Some LL_WARNING
      else if strcaseeq level ''ERR'' then Some LL_ERR
      else if strcaseeq level ''CRIT'' then Some LL_CRIT
      else if strcaseeq level ''ALERT'' then Some LL_ALERT
      else if strcaseeq level ''EMERG'' then Some LL_EMERG
      else None)"

definition set_level :: "string option \<Rightarrow> log \<Rightarrow> bool \<times> log" where
  "set_level level l =
     (case level of None \<Rightarrow> (False, l)
      | Some name \<Rightarrow>
          (case level_of_name name of None \<Rightarrow> (False, l) | Some ll \<Rightarrow> (True, l\<lparr>lg_cur_level := ll\<rparr>)))"

definition level_names :: "string list" where
  "level_names = [''EMRG'', ''ALRT'', ''CRIT'', ''ERRO'', ''WARN'', ''NOTI'', ''INFO'', ''DBUG'', ''TRAC'']"

text \<open>What is written, if anything; without a path it goes to the standard output.\<close>

definition log_raw ::
  "bool \<Rightarrow> string \<Rightarrow> int \<Rightarrow> string \<Rightarrow> int \<Rightarrow> string \<Rightarrow> int \<Rightarrow> string \<Rightarrow> log \<Rightarrow> string option" where
  "log_raw fopen_ok stamp pid file_name file_line func_name level msg l =
     (if lg_path l \<noteq> [] \<and> \<not> fopen_ok then None
      else Some (''['' @ level_names ! nat level @ ''][''
        @ (if lg_is_manager l then ''M'' else ''W'') @ dec_int (lg_worker_index l) @ ''][''
        @ dec_int pid @ '']'' @ stamp @ ''['' @ file_name @ '':'' @ func_name @ '':'' @ dec_int file_line @ ''] ''
        @ msg @ [CHR 0x0A]))"

definition log_data ::
  "bool \<Rightarrow> string \<Rightarrow> int \<Rightarrow> string \<Rightarrow> int \<Rightarrow> string \<Rightarrow> int \<Rightarrow> string \<Rightarrow> log \<Rightarrow> string option" where
  "log_data fopen_ok stamp pid file_name file_line func_name level txt l =
     (if level < LL_EMERG \<or> level \<ge> LL_COUNT \<or> level > lg_cur_level l then None
      else log_raw fopen_ok stamp pid file_name file_line func_name level (take (LOG_MAX_LEN - 1) (c_str txt)) l)"

text \<open>A level is written exactly when it is one of the nine and not above the threshold, so \<open>levels[level]\<close> exists.\<close>

lemma log_data_writes:
  "log_data True stamp pid file line func level txt l \<noteq> None \<longleftrightarrow>
     0 \<le> level \<and> nat level < length level_names \<and> level \<le> lg_cur_level l"
  by (auto simp: log_data_def log_raw_def level_names_def levels)

text \<open>The check of \<open>set_level(int)\<close> is a disjunction where a conjunction is meant: it accepts every number.\<close>

lemma set_level_int_accepts_all: "set_level_int level l = (True, l\<lparr>lg_cur_level := level\<rparr>)"
  by (auto simp: set_level_int_def levels)

lemma level_of_name_range: "level_of_name s = Some ll \<Longrightarrow> 0 \<le> ll \<and> ll < LL_COUNT"
  by (auto simp: level_of_name_def levels split: if_splits)

end
