(* ===== verification/Manager.thy ===== *)
theory Manager
  imports Net_Setup Log_File
begin

text \<open>
  The two kinds of processes: the manager (\<open>src/core/manager.cpp\<close>), which forks the workers, notices when
  one ends and starts it again, and the worker (\<open>src/core/worker.cpp\<close>); and the entry of a signal and of
  the periodic timer from \<open>src/core/events_callback.cpp\<close>.

  The system's answers are a \<open>proc_env\<close>; those of \<open>socketpair\<close> and \<open>fork\<close> go with the tick of the network,
  and \<open>fork\<close> also gets the processes that are in the manager's table, which are not reaped and so have
  numbers that are in use. \<open>fork\<close> returns twice: \<open>create_worker\<close> is the manager's side and \<open>fork_child\<close> the
  child's. \<open>None\<close> is a crash, which is also the use of a null pointer.
\<close>

section \<open>State\<close>

text \<open>\<open>node_info\<close> (\<open>protobuf/sys/nodes.proto\<close>).\<close>

record node_info =
  ni_addr :: addr_info
  ni_node_type :: string
  ni_conf_path :: string
  ni_work_path :: string
  ni_worker_cnt :: int

text \<open>\<open>mg_callback\<close>: the base class \<open>EventsCallback\<close> has been given the network.\<close>

record manager =
  mg_logger :: "log option"
  mg_net :: "network option"
  mg_conf :: "server_conf option"
  mg_old_conf :: "server_conf option"
  mg_info :: node_info
  mg_restart_workers :: "int list"
  mg_callback :: bool
  mg_timer :: "ev_timer option"

record worker =
  wk_logger :: "log option"
  wk_net :: "network option"
  wk_conf :: "server_conf option"
  wk_pid :: int
  wk_index :: int
  wk_ctrl_fd :: int
  wk_data_fd :: int
  wk_work_path :: string
  wk_timer :: "ev_timer option"

record proc_env =
  pe_setup :: setup_env
  pe_getcwd :: "string option"
  pe_load :: "string \<Rightarrow> server_conf option"
  pe_fopen :: "string \<Rightarrow> bool"
  pe_getpid :: int
  pe_socketpair :: "nat \<Rightarrow> (int \<times> int) option"
  pe_fork :: "nat \<Rightarrow> int list \<Rightarrow> int"

definition EXIT_CHILD :: int where "EXIT_CHILD = - 2"
definition EXIT_CHILD_INIT_FAIL :: int where "EXIT_CHILD_INIT_FAIL = - 3"
definition SIGINT :: int where "SIGINT = 2"
definition SIGCHLD :: int where "SIGCHLD = 17"

definition new_manager :: manager where
  "new_manager = \<lparr>mg_logger = None, mg_net = None, mg_conf = None, mg_old_conf = None,
     mg_info = \<lparr>ni_addr = \<lparr>ai_node_host = [], ai_node_port = 0, ai_gate_host = [], ai_gate_port = 0\<rparr>,
       ni_node_type = [], ni_conf_path = [], ni_work_path = [], ni_worker_cnt = 0\<rparr>,
     mg_restart_workers = [], mg_callback = False, mg_timer = None\<rparr>"

text \<open>Setting the network of a manager.\<close>

definition with_net :: "manager \<Rightarrow> network \<Rightarrow> manager" where
  "with_net m s = m\<lparr>mg_net := Some s\<rparr>"

section \<open>Starting the manager\<close>

definition conf_text :: "server_conf option \<Rightarrow> string" where
  "conf_text c = (case c of None \<Rightarrow> [] | Some c \<Rightarrow> sc_text c)"

text \<open>The part that reads the node's data from the first configuration; the ports become \<open>uint32\<close>.\<close>

definition node_info_of :: "server_conf \<Rightarrow> node_info \<Rightarrow> node_info option" where
  "node_info_of conf info =
     do {
       cnt \<leftarrow> str_to_int (sc_worker_cnt conf);
       node_port \<leftarrow> str_to_int (sc_node_port conf);
       gate_port \<leftarrow> str_to_int (sc_gate_port conf);
       Some (info\<lparr>ni_worker_cnt := cnt, ni_node_type := sc_node_type conf,
         ni_addr := \<lparr>ai_node_host = sc_node_host conf, ai_node_port = c_uint node_port,
                     ai_gate_host = sc_gate_host conf, ai_gate_port = c_uint gate_port\<rparr>\<rparr>)
     }"

definition mgr_load_config :: "proc_env \<Rightarrow> string \<Rightarrow> manager \<Rightarrow> (bool \<times> manager) option" where
  "mgr_load_config p path m =
     (case pe_load p path of
        None \<Rightarrow> Some (False, m)
      | Some conf \<Rightarrow>
          let m = m\<lparr>mg_old_conf := mg_conf m, mg_conf := Some conf, mg_info := (mg_info m)\<lparr>ni_conf_path := path\<rparr>\<rparr>
          in if conf_text (mg_old_conf m) \<noteq> sc_text conf \<and> conf_text (mg_old_conf m) = []
             then map_option (\<lambda>info. (True, m\<lparr>mg_info := info\<rparr>)) (node_info_of conf (mg_info m))
             else Some (True, m))"

definition log_file :: "string \<Rightarrow> string \<Rightarrow> string" where
  "log_file work_path log_path = take 255 (c_str work_path @ ''/'' @ c_str log_path)"

definition make_logger :: "proc_env \<Rightarrow> string \<Rightarrow> server_conf \<Rightarrow> bool \<times> log" where
  "make_logger p work_path conf =
     (let path = log_file work_path (sc_log_path conf);
          (ok, l) = set_log_path (pe_fopen p path) (Some path) new_log
      in if \<not> ok then (False, l) else set_level (Some (sc_log_level conf)) l)"

definition mgr_load_logger :: "proc_env \<Rightarrow> manager \<Rightarrow> (bool \<times> manager) option" where
  "mgr_load_logger p m =
     do {
       conf \<leftarrow> mg_conf m;
       let (ok, l) = make_logger p (ni_work_path (mg_info m)) conf;
       if \<not> ok then Some (False, m\<lparr>mg_logger := Some l\<rparr>)
       else Some (True, m\<lparr>mg_logger := Some (l\<lparr>lg_worker_index := 0, lg_is_manager := True\<rparr>)\<rparr>)
     }"

text \<open>\<open>destory\<close>, and the deletion of the network when its set-up fails.\<close>

definition mgr_destory :: "manager \<Rightarrow> manager option" where
  "mgr_destory m =
     (case mg_net m of
        None \<Rightarrow> Some (m\<lparr>mg_logger := None\<rparr>)
      | Some s \<Rightarrow> map_option (\<lambda>_. m\<lparr>mg_net := None, mg_logger := None\<rparr>) (net_destory s))"

definition mgr_load_network :: "world \<Rightarrow> proc_env \<Rightarrow> manager \<Rightarrow> (bool \<times> manager) option" where
  "mgr_load_network w p m =
     do {
       conf \<leftarrow> mg_conf m;
       (ok, s) \<leftarrow> create_m w (pe_setup p) (ni_addr (mg_info m)) conf (fresh_network NT_MANAGER);
       if \<not> ok then map_option (\<lambda>_. (False, m\<lparr>mg_net := None\<rparr>)) (net_destory s)
       else Some (True, with_net m s)
     }"

section \<open>Workers\<close>

definition worker_pids :: "network \<Rightarrow> int list" where
  "worker_pids s = ukeys (m_workers (n_worker_data s))"

text \<open>The manager's side of a successful \<open>fork\<close>.\<close>

definition adopt_worker ::
  "world \<Rightarrow> int \<Rightarrow> int \<Rightarrow> int \<times> int \<Rightarrow> int \<times> int \<Rightarrow> network \<Rightarrow> (bool \<times> network) option" where
  "adopt_worker w worker_index pid ctrl_fds data_fds s =
     (let s = close_fd (snd data_fds) (close_fd (snd ctrl_fds) s);
          (c, s) = net_add_read_event w (fst ctrl_fds) CT_PROTOBUF True s;
          (d, s) = (if c = None then (None, s) else net_add_read_event w (fst data_fds) CT_PROTOBUF True s)
      in if c = None \<or> d = None then
           Some (False, emit (E_kill pid) (snd (close_conn (fst data_fds) (snd (close_conn (fst ctrl_fds) s)))))
         else
           map_option (\<lambda>(_, wd). (True, s\<lparr>n_worker_data := wd\<rparr>))
             (add_worker_info (n_worker_data s) worker_index pid (fst ctrl_fds) (fst data_fds)))"

definition create_worker_net :: "world \<Rightarrow> proc_env \<Rightarrow> int \<Rightarrow> network \<Rightarrow> (bool \<times> network) option" where
  "create_worker_net w p worker_index s =
     (case pe_socketpair p (n_tick s) of
        None \<Rightarrow> Some (False, tick s)
      | Some ctrl_fds \<Rightarrow>
          let s = tick s in
          (case pe_socketpair p (n_tick s) of
             None \<Rightarrow> Some (False, close_chanel ctrl_fds (tick s))
           | Some data_fds \<Rightarrow>
               let s = tick s;
                   pid = pe_fork p (n_tick s) (worker_pids s);
                   s = tick s
               in if pid > 0 then adopt_worker w worker_index pid ctrl_fds data_fds s
                  else Some (False, close_chanel ctrl_fds (close_chanel data_fds s))))"

definition create_worker :: "world \<Rightarrow> proc_env \<Rightarrow> int \<Rightarrow> manager \<Rightarrow> (bool \<times> manager) option" where
  "create_worker w p worker_index m =
     do { s \<leftarrow> mg_net m; (ok, s) \<leftarrow> create_worker_net w p worker_index s; Some (ok, with_net m s) }"

text \<open>A worker that cannot be created at the start is only logged.\<close>

fun create_workers_loop :: "world \<Rightarrow> proc_env \<Rightarrow> int list \<Rightarrow> manager \<Rightarrow> manager option" where
  "create_workers_loop w p [] m = Some m"
| "create_workers_loop w p (i # is) m = do { (_, m) \<leftarrow> create_worker w p i m; create_workers_loop w p is m }"

definition create_workers :: "world \<Rightarrow> proc_env \<Rightarrow> manager \<Rightarrow> manager option" where
  "create_workers w p m = create_workers_loop w p [1..ni_worker_cnt (mg_info m)] m"

definition restart_worker :: "int \<Rightarrow> manager \<Rightarrow> (bool \<times> manager) option" where
  "restart_worker pid m =
     do {
       s \<leftarrow> mg_net m;
       chs \<leftarrow> get_worker_chanel (n_worker_data s) pid;
       let s = (case chs of None \<Rightarrow> s | Some (c, d) \<Rightarrow> snd (close_conn d (snd (close_conn c s))));
       worker_index \<leftarrow> get_worker_index (n_worker_data s) pid;
       if worker_index = - 1 then Some (False, with_net m s)
       else do {
         (_, wd) \<leftarrow> del_worker_info (n_worker_data s) pid;
         Some (True, (with_net m (s\<lparr>n_worker_data := wd\<rparr>))\<lparr>mg_restart_workers := mg_restart_workers m @ [worker_index]\<rparr>)
       }
     }"

text \<open>The loop erases the workers that could be created from the list.\<close>

fun restart_loop :: "world \<Rightarrow> proc_env \<Rightarrow> int list \<Rightarrow> manager \<Rightarrow> (int list \<times> manager) option" where
  "restart_loop w p [] m = Some ([], m)"
| "restart_loop w p (i # is) m =
     do {
       (ok, m) \<leftarrow> create_worker w p i m;
       (rest, m) \<leftarrow> restart_loop w p is m;
       Some (if ok then rest else i # rest, m)
     }"

definition restart_workers :: "world \<Rightarrow> proc_env \<Rightarrow> manager \<Rightarrow> manager option" where
  "restart_workers w p m =
     map_option (\<lambda>(rest, m). m\<lparr>mg_restart_workers := rest\<rparr>) (restart_loop w p (mg_restart_workers m) m)"

section \<open>Events of the manager\<close>

text \<open>\<open>waitpid\<close> answers the processes \<open>pids\<close>, and then that there is none.\<close>

fun mgr_on_child_terminated :: "int list \<Rightarrow> manager \<Rightarrow> manager option" where
  "mgr_on_child_terminated [] m = Some m"
| "mgr_on_child_terminated (pid # pids) m = do { (_, m) \<leftarrow> restart_worker pid m; mgr_on_child_terminated pids m }"

text \<open>The check of the channels: a worker is killed when one of its descriptors has no valid connection.\<close>

fun check_chanels :: "(int \<times> nat) list \<Rightarrow> network \<Rightarrow> network option" where
  "check_chanels [] s = Some s"
| "check_chanels ((_, a) # infos) s =
     do {
       info \<leftarrow> map_of (wd_heap (n_worker_data s)) a;
       check_chanels infos
         (if \<not> check_conn s (wi_ctrl_fd info) \<or> \<not> check_conn s (wi_data_fd info) then emit (E_kill (wi_pid info)) s else s)
     }"

definition mgr_on_repeat_timer :: "world \<Rightarrow> proc_env \<Rightarrow> manager \<Rightarrow> manager option" where
  "mgr_on_repeat_timer w p m =
     do {
       m \<leftarrow> (case mg_net m of None \<Rightarrow> Some m | Some s \<Rightarrow> map_option (with_net m) (on_repeat_timer w s));
       m \<leftarrow> restart_workers w p m;
       case mg_net m of
         None \<Rightarrow> Some m
       | Some s \<Rightarrow> map_option (with_net m) (check_chanels (m_workers (n_worker_data s)) s)
     }"

text \<open>\<open>s\<close> is the signal's watcher: it is deleted and set to null, and then \<open>exit(s->signum)\<close> reads it.\<close>

definition mgr_on_terminated :: "int \<Rightarrow> manager \<Rightarrow> (int \<times> manager) option" where
  "mgr_on_terminated signum m =
     (let s = Some signum; s = None in do { m \<leftarrow> mgr_destory m; signum \<leftarrow> s; Some (signum, m) })"

text \<open>\<open>on_signal_callback\<close> for the manager: the state, or the exit code.\<close>

definition mgr_on_signal :: "int \<Rightarrow> int list \<Rightarrow> manager \<Rightarrow> (int + manager) option" where
  "mgr_on_signal signum pids m =
     (if signum = SIGCHLD then map_option Inr (mgr_on_child_terminated pids m)
      else map_option (\<lambda>(c, _). Inl c) (mgr_on_terminated signum m))"

definition mgr_setup_signal_events :: "manager \<Rightarrow> bool \<times> manager" where
  "mgr_setup_signal_events m =
     (case mg_net m of
        None \<Rightarrow> (False, m)
      | Some s \<Rightarrow> if mg_callback m then (case net_setup_signal_events s of (ok, s) \<Rightarrow> (ok, with_net m s)) else (False, m))"

definition mgr_setup_timer :: "world \<Rightarrow> manager \<Rightarrow> bool \<times> manager" where
  "mgr_setup_timer w m =
     (case mg_net m of
        None \<Rightarrow> (False, m)
      | Some s \<Rightarrow>
          if mg_callback m then (case net_setup_timer w (mg_timer m) s of (t, s) \<Rightarrow> (t \<noteq> None, (with_net m s)\<lparr>mg_timer := t\<rparr>))
          else (False, m))"

definition mgr_init :: "world \<Rightarrow> proc_env \<Rightarrow> string \<Rightarrow> manager \<Rightarrow> (bool \<times> manager) option" where
  "mgr_init w p conf_path m =
     (case pe_getcwd p of
        None \<Rightarrow> Some (False, m)
      | Some cwd \<Rightarrow>
          do {
            (ok, m) \<leftarrow> mgr_load_config p conf_path (m\<lparr>mg_info := (mg_info m)\<lparr>ni_work_path := cwd\<rparr>\<rparr>);
            if \<not> ok then Some (False, m)
            else do {
              (ok, m) \<leftarrow> mgr_load_logger p m;
              if \<not> ok then Some (False, m)
              else do {
                (ok, m) \<leftarrow> mgr_load_network w p m;
                if \<not> ok then Some (False, m)
                else if \<not> callback_init (mg_logger m \<noteq> None) (mg_net m \<noteq> None) then Some (False, m)
                else
                  let (ok, m) = mgr_setup_signal_events (m\<lparr>mg_callback := True\<rparr>)
                  in if \<not> ok then Some (False, m)
                     else
                       let (ok, m) = mgr_setup_timer w m
                       in if \<not> ok then Some (False, m) else map_option (Pair True) (create_workers w p m)
              }
            }
          })"

text \<open>
  The life of the manager after \<open>init\<close>: an event of its network, the periodic timer, or a \<open>SIGCHLD\<close> on
  which \<open>waitpid\<close> answers the processes \<open>pids\<close>.
\<close>

inductive mgr_step :: "world \<Rightarrow> proc_env \<Rightarrow> user_code \<Rightarrow> manager \<Rightarrow> manager \<Rightarrow> bool"
  for w :: world and p :: proc_env and u :: user_code where
  mgr_net: "mg_net m = Some s \<Longrightarrow> net_step w u s s' \<Longrightarrow> mgr_step w p u m (with_net m s')"
| mgr_timer: "mgr_on_repeat_timer w p m = Some m' \<Longrightarrow> mgr_step w p u m m'"
| mgr_child: "mgr_on_signal SIGCHLD pids m = Some (Inr m') \<Longrightarrow> mgr_step w p u m m'"

section \<open>The worker\<close>

definition new_worker :: worker where
  "new_worker = \<lparr>wk_logger = None, wk_net = None, wk_conf = None, wk_pid = 0, wk_index = 0, wk_ctrl_fd = 0, wk_data_fd = 0,
     wk_work_path = [], wk_timer = None\<rparr>"

definition worker_load_logger :: "proc_env \<Rightarrow> worker \<Rightarrow> (bool \<times> worker) option" where
  "worker_load_logger p k =
     do {
       conf \<leftarrow> wk_conf k;
       let (ok, l) = make_logger p (wk_work_path k) conf;
       if \<not> ok then Some (False, k\<lparr>wk_logger := Some l\<rparr>)
       else Some (True, k\<lparr>wk_logger := Some (l\<lparr>lg_is_manager := False, lg_worker_index := wk_index k\<rparr>)\<rparr>)
     }"

definition worker_load_network :: "world \<Rightarrow> proc_env \<Rightarrow> worker \<Rightarrow> (bool \<times> worker) option" where
  "worker_load_network w p k =
     do {
       conf \<leftarrow> wk_conf k;
       (ok, s) \<leftarrow> create_w w (pe_setup p) conf (wk_ctrl_fd k) (wk_data_fd k) (wk_index k) (fresh_network NT_WORKER);
       if \<not> ok then map_option (\<lambda>_. (False, k\<lparr>wk_net := None\<rparr>)) (net_destory s)
       else Some (True, k\<lparr>wk_net := Some s\<rparr>)
     }"

definition worker_init ::
  "world \<Rightarrow> proc_env \<Rightarrow> string \<Rightarrow> int \<Rightarrow> int \<Rightarrow> int \<Rightarrow> server_conf \<Rightarrow> worker \<Rightarrow> (bool \<times> worker) option" where
  "worker_init w p work_path ctrl_fd data_fd index conf k =
     do {
       (ok, k) \<leftarrow> worker_load_logger p (k\<lparr>wk_work_path := work_path, wk_ctrl_fd := ctrl_fd, wk_data_fd := data_fd,
                                       wk_index := index, wk_pid := pe_getpid p, wk_conf := Some conf\<rparr>);
       if \<not> ok then Some (False, k)
       else do {
         (ok, k) \<leftarrow> worker_load_network w p k;
         if \<not> ok then Some (False, k)
         else do {
           s \<leftarrow> wk_net k;
           let (ok, s) = net_setup_signal_event SIGINT s;
           if \<not> ok then Some (False, k\<lparr>wk_net := Some s\<rparr>)
           else
             let (t, s) = net_setup_timer w (wk_timer k) s
             in Some (t \<noteq> None, k\<lparr>wk_net := Some s, wk_timer := t\<rparr>)
         }
       }
     }"

text \<open>A worker whose channels to the manager are gone ends itself.\<close>

definition worker_on_repeat_timer :: "world \<Rightarrow> worker \<Rightarrow> (int + worker) option" where
  "worker_on_repeat_timer w k =
     (case wk_net k of
        None \<Rightarrow> Some (Inr k)
      | Some s \<Rightarrow>
          do {
            s \<leftarrow> on_repeat_timer w s;
            if \<not> check_conn s (wk_ctrl_fd k) \<or> \<not> check_conn s (wk_data_fd k) then Some (Inl EXIT_CHILD)
            else Some (Inr (k\<lparr>wk_net := Some s\<rparr>))
          })"

definition worker_on_terminated :: "int \<Rightarrow> worker \<Rightarrow> int" where
  "worker_on_terminated signum k = signum"

text \<open>
  The child's side of \<open>fork\<close>: it has a copy of the manager, closes what it got from it and becomes a
  worker. The result is the exit code or the worker, with the descriptors of the channels that it closed.
\<close>

definition fork_child ::
  "world \<Rightarrow> proc_env \<Rightarrow> int \<Rightarrow> int \<times> int \<Rightarrow> int \<times> int \<Rightarrow> manager \<Rightarrow> ((int + worker) \<times> int list) option" where
  "fork_child w p worker_index ctrl_fds data_fds m =
     do {
       s \<leftarrow> mg_net m;
       s \<leftarrow> close_fds s;
       m \<leftarrow> mgr_destory (with_net m s);
       conf \<leftarrow> mg_conf m;
       (ok, k) \<leftarrow> worker_init w p (ni_work_path (mg_info m)) (snd ctrl_fds) (snd data_fds) worker_index conf new_worker;
       Some (if ok then Inr k else Inl EXIT_CHILD_INIT_FAIL, [fst ctrl_fds, fst data_fds])
     }"

end
