(* ===== verification/Module_Test.thy ===== *)
theory Module_Test
  imports Net_Loop
begin

text \<open>
  The module of the repository, \<open>src/modules/module_test\<close>: its routing tables, its two handlers that
  answer at once and its five commands. It is user code of the kind that \<open>Module_Mgr\<close> takes as a
  parameter, and the interpretation below shows that it keeps the contract of the server.

  A step of a command that goes on with \<open>execute_next_step\<close> names the step it goes on with. The values
  of a row of the database come in the order of its map.
\<close>

definition KP_REQ_TEST_PROTO :: nat where "KP_REQ_TEST_PROTO = 1001"
definition KP_REQ_TEST_AUTO_SEND :: nat where "KP_REQ_TEST_AUTO_SEND = 1003"
definition REDIS_REPLY_STRING :: int where "REDIS_REPLY_STRING = 1"
definition REDIS_REPLY_STATUS :: int where "REDIS_REPLY_STATUS = 5"

section \<open>Answers\<close>

definition hello_data :: "(string \<times> string) list" where
  "hello_data = [(''id'', ''123''), (''name'', ''kimserver'')]"

text \<open>\<open>response_http(err, errstr)\<close>, then one of the two results, or an error whatever the answer did.\<close>

definition answer_or_error ::
  "world \<Rightarrow> cmd \<Rightarrow> int \<Rightarrow> string \<Rightarrow> (string \<times> string) list option \<Rightarrow> cmd_status \<Rightarrow> network \<Rightarrow> cmd_result" where
  "answer_or_error w k err errstr data st s =
     map_option (\<lambda>(ok, s). (if ok then st else ST_ERROR, k, s)) (cmd_response_json w k err errstr data 200 s)"

definition answer_then :: "world \<Rightarrow> cmd \<Rightarrow> int \<Rightarrow> string \<Rightarrow> cmd_status \<Rightarrow> network \<Rightarrow> cmd_result" where
  "answer_then w k err errstr st s = map_option (\<lambda>(_, s). (st, k, s)) (cmd_response_json w k err errstr None 200 s)"

definition tcp_error :: "world \<Rightarrow> cmd \<Rightarrow> string \<Rightarrow> network \<Rightarrow> cmd_result" where
  "tcp_error w k errstr s = map_option (\<lambda>(_, s). (ST_ERROR, k, s)) (cmd_response_tcp w k ERR_FAILED errstr '''' s)"

text \<open>The members of a command's class.\<close>

definition cmd_var :: "cmd \<Rightarrow> string \<Rightarrow> string" where
  "cmd_var k x = (case map_of (k_vars k) x of None \<Rightarrow> [] | Some v \<Rightarrow> v)"

definition read_vars :: "world \<Rightarrow> cmd \<Rightarrow> (string \<times> string) list \<Rightarrow> cmd" where
  "read_vars w k xs =
     k\<lparr>k_vars := map (\<lambda>(x, field). (x, sl_json_get (w_sys w) (hm_body (rq_http (k_req k))) field)) xs\<rparr>"

section \<open>CmdHello and CmdTestTimeout\<close>

definition hello_execute :: "world \<Rightarrow> cmd \<Rightarrow> request \<Rightarrow> network \<Rightarrow> cmd_result" where
  "hello_execute w k req s =
     (if \<not> rq_is_http req then Some (ST_ERROR, k, s)
      else answer_or_error w k 0 ''ok'' (Some hello_data) ST_COMPLETED s)"

definition timeout_execute :: "cmd \<Rightarrow> request \<Rightarrow> network \<Rightarrow> cmd_result" where
  "timeout_execute k req s = Some (if rq_is_http (k_req k) then ST_RUNNING else ST_ERROR, k, s)"

section \<open>CmdAutoSend\<close>

definition auto_send_head :: "cmd \<Rightarrow> msg_head" where
  "auto_send_head k = (rq_head (k_req k))\<lparr>mh_seq := c_uint (int (k_id k)), mh_cmd := KP_REQ_TEST_PROTO\<rparr>"

definition auto_send_step :: "world \<Rightarrow> cmd \<Rightarrow> int \<Rightarrow> cb_data \<Rightarrow> network \<Rightarrow> cmd_result" where
  "auto_send_step w k err data s =
     (let body = rq_body (k_req k)
      in do {
           (ok, s) \<leftarrow> send_to_node w ''logic'' (mb_data body) (auto_send_head k) body s;
           if \<not> ok then tcp_error w k ''send to node failed!'' s
           else Some (ST_RUNNING, set_next_step (- 1) k, s)
         })"

definition auto_send_steps :: "world \<Rightarrow> cmd \<Rightarrow> int \<Rightarrow> cb_data \<Rightarrow> network \<Rightarrow> cmd_result" where
  "auto_send_steps w k err data s =
     (if k_step k = 0 then execute_next_step (auto_send_step w) err data (- 1) k s
      else if k_step k = 1 then auto_send_step w k err data s
      else if k_step k = 2 then
        map_option (\<lambda>(ok, s). (if ok then ST_COMPLETED else ST_ERROR, k, s)) (cmd_response_tcp w k ERR_OK ''OK'' ''good job.'' s)
      else tcp_error w k ''invalid step!'' s)"

section \<open>CmdTestRedis\<close>

text \<open>The two steps that send a command to redis.\<close>

definition redis_step :: "world \<Rightarrow> cmd \<Rightarrow> string list \<Rightarrow> network \<Rightarrow> cmd_result" where
  "redis_step w k argv s =
     do {
       (status, s) \<leftarrow> cmd_redis_send_to w k ''test'' argv s;
       if status = ST_ERROR then answer_then w k ERR_FAILED ''redis failed!'' ST_ERROR s
       else Some (status, set_next_step (- 1) k, s)
     }"

definition redis_get_step :: "world \<Rightarrow> cmd \<Rightarrow> int \<Rightarrow> cb_data \<Rightarrow> network \<Rightarrow> cmd_result" where
  "redis_get_step w k err data s = redis_step w k [''get'', cmd_var k ''m_key''] s"

definition redis_set_step :: "world \<Rightarrow> cmd \<Rightarrow> int \<Rightarrow> cb_data \<Rightarrow> network \<Rightarrow> cmd_result" where
  "redis_set_step w k err data s = redis_step w k [''set'', cmd_var k ''m_key'', cmd_var k ''m_value''] s"

definition redis_parse :: "world \<Rightarrow> cmd \<Rightarrow> int \<Rightarrow> cb_data \<Rightarrow> network \<Rightarrow> cmd_result" where
  "redis_parse w k err data s =
     (if \<not> rq_is_http (k_req k) then Some (ST_ERROR, k, s)
      else
        let k = read_vars w k [(''m_key'', ''key''), (''m_oper'', ''oper''), (''m_value'', ''value'')]
        in if cmd_var k ''m_key'' = [] \<or> cmd_var k ''m_value'' = []
           then answer_then w k ERR_FAILED ''invalid request data'' ST_ERROR s
           else if cmd_var k ''m_oper'' = ''read'' then execute_next_step (redis_get_step w) err data 3 k s
           else execute_next_step (redis_set_step w) err data (- 1) k s)"

text \<open>\<open>strncmp(str, "OK", 2) != 0\<close>.\<close>

definition redis_set_callback :: "world \<Rightarrow> cmd \<Rightarrow> int \<Rightarrow> cb_data \<Rightarrow> network \<Rightarrow> cmd_result" where
  "redis_set_callback w k err data s =
     (case data of
        D_redis ty str \<Rightarrow>
          if err \<noteq> ERR_OK \<or> ty \<noteq> REDIS_REPLY_STATUS \<or> take 2 (c_str str) \<noteq> ''OK''
          then answer_then w k ERR_FAILED ''redis set data callback failed!'' ST_ERROR s
          else if cmd_var k ''m_oper'' = ''write''
          then answer_or_error w k ERR_OK ''redis write data done!'' None ST_COMPLETED s
          else execute_next_step (redis_get_step w) err data (- 1) k s
      | _ \<Rightarrow> answer_then w k ERR_FAILED ''redis set data callback failed!'' ST_ERROR s)"

definition redis_get_callback :: "world \<Rightarrow> cmd \<Rightarrow> int \<Rightarrow> cb_data \<Rightarrow> network \<Rightarrow> cmd_result" where
  "redis_get_callback w k err data s =
     (case data of
        D_redis ty str \<Rightarrow>
          if err \<noteq> ERR_OK \<or> ty \<noteq> REDIS_REPLY_STRING then answer_then w k ERR_FAILED ''redis set data failed!'' ST_ERROR s
          else answer_or_error w k ERR_OK ''ok''
                 (Some [(''key'', cmd_var k ''m_key''), (''value'', cmd_var k ''m_value'')]) ST_COMPLETED s
      | _ \<Rightarrow> answer_then w k ERR_FAILED ''redis set data failed!'' ST_ERROR s)"

definition redis_steps :: "world \<Rightarrow> cmd \<Rightarrow> int \<Rightarrow> cb_data \<Rightarrow> network \<Rightarrow> cmd_result" where
  "redis_steps w k err data s =
     (if k_step k = 0 then redis_parse w k err data s
      else if k_step k = 1 then redis_set_step w k err data s
      else if k_step k = 2 then redis_set_callback w k err data s
      else if k_step k = 3 then redis_get_step w k err data s
      else if k_step k = 4 then redis_get_callback w k err data s
      else answer_then w k ERR_FAILED ''invalid step!'' ST_ERROR s)"

section \<open>CmdTestMysql\<close>

text \<open>\<open>snprintf\<close> into \<open>m_sql\<close> of 256 bytes.\<close>

definition sql_insert :: "cmd \<Rightarrow> string" where
  "sql_insert k = take 255 (''insert into mytest.test_async_mysql (value) values ('' @ [char_of (39 :: nat)] @ c_str (cmd_var k ''m_value'')
     @ [char_of (39 :: nat)] @ '');'')"

definition sql_select :: "cmd \<Rightarrow> string" where
  "sql_select k = take 255 (''select value from mytest.test_async_mysql where id = '' @ c_str (cmd_var k ''m_key'') @ '';'')"

definition is_session :: "cmd \<Rightarrow> bool" where
  "is_session k \<longleftrightarrow> cmd_var k ''m_is_session'' = ''true''"

definition sql_done :: "world \<Rightarrow> cmd \<Rightarrow> string \<Rightarrow> cmd_status \<times> network \<Rightarrow> cmd_result" where
  "sql_done w k errstr r =
     (if fst r = ST_ERROR then answer_then w k ERR_FAILED errstr ST_ERROR (snd r)
      else Some (fst r, set_next_step (- 1) k, snd r))"

definition mysql_insert_step :: "world \<Rightarrow> cmd \<Rightarrow> int \<Rightarrow> cb_data \<Rightarrow> network \<Rightarrow> cmd_result" where
  "mysql_insert_step w k err data s =
     do { r \<leftarrow> cmd_db_exec w k ''test'' (sql_insert k) s; sql_done w k ''insert data failed!'' r }"

definition mysql_query_step :: "world \<Rightarrow> cmd \<Rightarrow> int \<Rightarrow> cb_data \<Rightarrow> network \<Rightarrow> cmd_result" where
  "mysql_query_step w k err data s =
     (let (found, s) = (if is_session k then net_get_session w (cmd_var k ''m_key'') False s else (None, s))
      in if found \<noteq> None then answer_then w k ERR_OK ''query data from session ok!'' ST_COMPLETED s
         else do { r \<leftarrow> cmd_db_query w k ''test'' (sql_select k) s; sql_done w k ''query data failed!'' r })"

definition mysql_parse :: "world \<Rightarrow> cmd \<Rightarrow> int \<Rightarrow> cb_data \<Rightarrow> network \<Rightarrow> cmd_result" where
  "mysql_parse w k err data s =
     (if \<not> rq_is_http (k_req k) then answer_then w k ERR_FAILED ''invalid request!'' ST_ERROR s
      else
        let k = read_vars w k [(''m_key'', ''id''), (''m_oper'', ''oper''), (''m_value'', ''value''), (''m_is_session'', ''session'')]
        in if cmd_var k ''m_key'' = [] \<or> cmd_var k ''m_value'' = []
           then answer_then w k ERR_FAILED ''invalid request data'' ST_ERROR s
           else if cmd_var k ''m_oper'' = ''read'' then execute_next_step (mysql_query_step w) err data 3 k s
           else execute_next_step (mysql_insert_step w) err data (- 1) k s)"

definition mysql_insert_callback :: "world \<Rightarrow> cmd \<Rightarrow> int \<Rightarrow> cb_data \<Rightarrow> network \<Rightarrow> cmd_result" where
  "mysql_insert_callback w k err data s =
     (if err \<noteq> ERR_OK then answer_then w k ERR_FAILED ''db insert data failed!'' ST_ERROR s
      else if cmd_var k ''m_oper'' = ''write'' then answer_or_error w k ERR_OK ''db write data done!'' None ST_COMPLETED s
      else execute_next_step (mysql_query_step w) err data (- 1) k s)"

text \<open>The session keeps the last value of the rows.\<close>

definition set_session_value :: "string \<Rightarrow> string \<Rightarrow> network \<Rightarrow> network" where
  "set_session_value sessid v s =
     (case map_of (n_sessions s) sessid of
        None \<Rightarrow> s
      | Some ss \<Rightarrow> s\<lparr>n_sessions := uset (n_sessions s) sessid (ss\<lparr>s_data := v\<rparr>)\<rparr>)"

definition mysql_query_callback :: "world \<Rightarrow> cmd \<Rightarrow> int \<Rightarrow> cb_data \<Rightarrow> network \<Rightarrow> cmd_result" where
  "mysql_query_callback w k err data s =
     (if err \<noteq> ERR_OK then answer_then w k ERR_FAILED ''db insert data failed!'' ST_ERROR s
      else case data of
        D_rows (r # rs) \<Rightarrow>
          let (session, s) = (if is_session k then get_alloc_session w (cmd_var k ''m_key'') 60 False s else (None, s));
              s = (case session of
                     None \<Rightarrow> s
                   | Some sessid \<Rightarrow> fold (set_session_value sessid) (concat (r # rs)) s)
          in answer_then w k ERR_OK ''db query done!'' ST_COMPLETED s
      | _ \<Rightarrow> answer_then w k ERR_FAILED ''query no data in db!'' ST_ERROR s)"

definition mysql_steps :: "world \<Rightarrow> cmd \<Rightarrow> int \<Rightarrow> cb_data \<Rightarrow> network \<Rightarrow> cmd_result" where
  "mysql_steps w k err data s =
     (if k_step k = 0 then mysql_parse w k err data s
      else if k_step k = 1 then mysql_insert_step w k err data s
      else if k_step k = 2 then mysql_insert_callback w k err data s
      else if k_step k = 3 then mysql_query_step w k err data s
      else if k_step k = 4 then mysql_query_callback w k err data s
      else answer_then w k ERR_FAILED ''invalid step!'' ST_ERROR s)"

section \<open>The commands and the routing tables\<close>

text \<open>The class of a command is its name, the argument of \<open>HANDLE_CMD\<close>.\<close>

definition test_steps :: "world \<Rightarrow> cmd \<Rightarrow> int \<Rightarrow> cb_data \<Rightarrow> network \<Rightarrow> cmd_result" where
  "test_steps w k err data s =
     (if k_name k = ''CmdAutoSend'' then auto_send_steps w k err data s
      else if k_name k = ''CmdTestRedis'' then redis_steps w k err data s
      else if k_name k = ''CmdTestMysql'' then mysql_steps w k err data s
      else base_execute_steps k err data s)"

definition test_execute :: "world \<Rightarrow> cmd \<Rightarrow> request \<Rightarrow> network \<Rightarrow> cmd_result" where
  "test_execute w k req s =
     (if k_name k = ''CmdHello'' then hello_execute w k req s
      else if k_name k = ''CmdTestTimeout'' then timeout_execute k req s
      else test_steps w k ERR_OK D_null s)"

definition test_cmds :: "world \<Rightarrow> cmd_code" where
  "test_cmds w =
     \<lparr>cc_init = Pair True, cc_execute = test_execute w, cc_callback = test_steps w,
      cc_timeout = (\<lambda>k s. let (st, k) = cmd_on_timeout k in Some (st, k, s))\<rparr>"

definition hello_world :: "world \<Rightarrow> handler" where
  "hello_world w req s =
     module_response_http w (rq_fd_data req) (sl_reply_json (w_sys w) 0 ''ok'' (Some hello_data)) 200 s"

definition test_proto :: "world \<Rightarrow> handler" where
  "test_proto w req s = map_option (ack_then ST_OK) (send_ack w req ERR_OK ''ok'' ''good job!'' s)"

definition test_module :: "world \<Rightarrow> user_code" where
  "test_module w =
     \<lparr>uc_cmds = test_cmds w,
      uc_http = (\<lambda>_. [(''/kim/test_cmd/'', handle_cmd w (test_cmds w) ''CmdHello''),
                      (''/kim/test_redis/'', handle_cmd w (test_cmds w) ''CmdTestRedis''),
                      (''/kim/test_mysql/'', handle_cmd w (test_cmds w) ''CmdTestMysql''),
                      (''/kim/helloworld/'', hello_world w),
                      (''/kim/test_timeout/'', handle_cmd w (test_cmds w) ''CmdTestTimeout'')]),
      uc_proto = (\<lambda>_. [(int KP_REQ_TEST_PROTO, test_proto w),
                       (int KP_REQ_TEST_AUTO_SEND, handle_cmd w (test_cmds w) ''CmdAutoSend'')])\<rparr>"

section \<open>The module keeps the contract\<close>

definition evolves_cmd :: "bool \<Rightarrow> network \<Rightarrow> cmd_result \<Rightarrow> bool" where
  "evolves_cmd b s r \<longleftrightarrow> (case r of None \<Rightarrow> True | Some (_, _, s') \<Rightarrow> evolves b s s')"

lemma evolves_cmd_simps [simp]:
  "evolves_cmd b s None" "evolves_cmd b s (Some (st, k, s')) \<longleftrightarrow> evolves b s s'"
  by (simp_all add: evolves_cmd_def)

lemma evolves_cmd_map:
  "evolves_opt b s r \<Longrightarrow> (\<And>ok x. f (ok, x) = (g ok, h ok, x)) \<Longrightarrow> evolves_cmd b s (map_option f r)"
  by (cases r) auto

lemma evolves_cmd_bind:
  "evolves_opt b s r \<Longrightarrow> (\<And>x s'. evolves b s s' \<Longrightarrow> evolves_cmd b s (f (x, s'))) \<Longrightarrow> evolves_cmd b s (r \<bind> f)"
  by (cases r) auto

lemma evolves_response: "evolves b s t \<Longrightarrow> evolves_opt b s (cmd_response_json w k err errstr data code t)"
  by (simp add: cmd_response_json_def cmd_response_http_def send_to_fd_http_def evolves_send_to_conn_http Let_def)

lemma evolves_answers:
  assumes "evolves b s t"
  shows "evolves_cmd b s (answer_or_error w k err errstr data st t)" and "evolves_cmd b s (answer_then w k err errstr st t)"
    and "evolves_cmd b s (tcp_error w k errstr t)"
  using assms
  by (auto simp: answer_or_error_def answer_then_def tcp_error_def cmd_response_tcp_def
      intro!: evolves_cmd_map evolves_response evolves_send_ack)

lemma evolves_running_if: "evolves_opt b s r \<Longrightarrow> evolves_opt b s (map_option running_if r)"
  by (cases r) (auto simp: running_if_def)

lemma evolves_cmd_pools:
  assumes "evolves b s t"
  shows "evolves_opt b s (cmd_redis_send_to w k node argv t)" and "evolves_opt b s (cmd_db_exec w k node sql t)"
    and "evolves_opt b s (cmd_db_query w k node sql t)"
  using assms by (simp_all add: cmd_redis_send_to_def cmd_db_exec_def cmd_db_query_def evolves_running_if evolves_redis evolves_db)

lemma evolves_auto_step: "evolves b s t \<Longrightarrow> evolves_cmd b s (auto_send_step w k err data t)"
  by (auto simp: auto_send_step_def Let_def intro!: evolves_cmd_bind evolves_send_to_node evolves_answers)

lemma evolves_auto: "evolves b s t \<Longrightarrow> evolves_cmd b s (auto_send_steps w k err data t)"
  by (auto simp: auto_send_steps_def execute_next_step_def cmd_response_tcp_def
      intro!: evolves_auto_step evolves_answers evolves_cmd_map evolves_send_ack)

lemma evolves_redis_step: "evolves b s t \<Longrightarrow> evolves_cmd b s (redis_step w k argv t)"
  by (auto simp: redis_step_def intro!: evolves_cmd_bind evolves_cmd_pools evolves_answers)

lemma evolves_redis_steps: "evolves b s t \<Longrightarrow> evolves_cmd b s (redis_steps w k err data t)"
  by (auto simp: redis_steps_def redis_parse_def redis_set_callback_def redis_get_callback_def redis_set_step_def
      redis_get_step_def execute_next_step_def Let_def intro!: evolves_redis_step evolves_answers split: cb_data.split)

lemma evolves_sql_done: "evolves b s t \<Longrightarrow> evolves_cmd b s (sql_done w k errstr (st, t))"
  by (simp add: sql_done_def evolves_answers)

lemma evolves_insert: "evolves b s t \<Longrightarrow> evolves_cmd b s (mysql_insert_step w k err data t)"
  unfolding mysql_insert_step_def by (intro evolves_cmd_bind evolves_cmd_pools evolves_sql_done)

lemma evolves_query: "evolves b s t \<Longrightarrow> evolves_cmd b s (mysql_query_step w k err data t)"
proof -
  assume t: "evolves b s t"
  obtain f v where v: "(if is_session k then net_get_session w (cmd_var k ''m_key'') False t else (None, t)) = (f, v)" by fastforce
  have "evolves b s v" using t evolves_get_session [OF t, of w "cmd_var k ''m_key''" False] v by (auto split: if_splits)
  then show ?thesis
    by (auto simp: mysql_query_step_def v intro!: evolves_cmd_bind evolves_cmd_pools evolves_sql_done evolves_answers)
qed

lemma evolves_session_values: "evolves b s t \<Longrightarrow> evolves b s (fold (set_session_value i) vs t)"
  by (induction vs arbitrary: t) (auto simp: set_session_value_def evolves_set_pools split: option.split)

lemma evolves_query_callback: "evolves b s t \<Longrightarrow> evolves_cmd b s (mysql_query_callback w k err data t)"
proof -
  assume t: "evolves b s t"
  obtain f v where v: "(if is_session k then get_alloc_session w (cmd_var k ''m_key'') 60 False t else (None, t)) = (f, v)" by fastforce
  have "evolves b s v" using t evolves_alloc_session [OF t, of w "cmd_var k ''m_key''" 60 False] v by (auto split: if_splits)
  then have "evolves b s (case f of None \<Rightarrow> v | Some i \<Rightarrow> fold (set_session_value i) vs v)" for vs
    by (simp add: evolves_session_values split: option.split)
  then have rows: "evolves_cmd b s (let (session, s) = (if is_session k then get_alloc_session w (cmd_var k ''m_key'') 60 False t else (None, t));
      s = (case session of None \<Rightarrow> s | Some sessid \<Rightarrow> fold (set_session_value sessid) vs s)
      in answer_then w k ERR_OK ''db query done!'' ST_COMPLETED s)" for vs
    unfolding v Let_def prod.case by (rule evolves_answers)
  show ?thesis
    unfolding mysql_query_callback_def using t rows by (auto intro!: evolves_answers split: cb_data.split list.split)
qed

lemma evolves_mysql_steps: "evolves b s t \<Longrightarrow> evolves_cmd b s (mysql_steps w k err data t)"
  by (auto simp: mysql_steps_def mysql_parse_def mysql_insert_callback_def execute_next_step_def Let_def
      intro!: evolves_insert evolves_query evolves_query_callback evolves_answers)

lemma evolves_test_steps: "evolves b s t \<Longrightarrow> evolves_cmd b s (test_steps w k err data t)"
  by (simp add: test_steps_def evolves_auto evolves_redis_steps evolves_mysql_steps base_execute_steps_def)

lemma evolves_test_execute: "evolves b s t \<Longrightarrow> evolves_cmd b s (test_execute w k req t)"
  by (simp add: test_execute_def evolves_test_steps hello_execute_def timeout_execute_def evolves_answers)

interpretation test_code: command_code "test_cmds w" for w
proof
  show "cc_execute (test_cmds w) k req s = Some (st, k', s') \<Longrightarrow> evolves True s s'" for k req s st k' s'
    using evolves_test_execute [OF evolves_refl, of True s w k req] by (simp add: test_cmds_def)
  show "cc_callback (test_cmds w) k err data s = Some (st, k', s') \<Longrightarrow> evolves True s s'" for k err data s st k' s'
    using evolves_test_steps [OF evolves_refl, of True s w k err data] by (simp add: test_cmds_def)
  show "cc_timeout (test_cmds w) k s = Some (st, k', s') \<Longrightarrow> evolves True s s'" for k s st k' s'
    by (auto simp: test_cmds_def split: prod.splits)
qed

lemma evolves_hello_world: "evolves b s t \<Longrightarrow> evolves_opt b s (hello_world w req t)"
  by (auto simp: hello_world_def module_response_http_def send_to_fd_http_def ack_then_def
      intro!: evolves_opt_map evolves_send_to_conn_http)

lemma evolves_test_proto: "evolves b s t \<Longrightarrow> evolves_opt b s (test_proto w req t)"
  by (auto simp: test_proto_def ack_then_def intro!: evolves_opt_map evolves_send_ack)

text \<open>The module of the repository keeps the contract of the server's modules, in every world.\<close>

interpretation test_mod: module_code "test_module w" for w
proof (unfold_locales)
  have h: "evolves True s s'" if "handle_cmd w (test_cmds w) n req s = Some (st, s')" for n req s st s'
    using test_code.evolves_handle_cmd [OF evolves_refl, of True s w w n req] that by simp
  show "evolves True s s'" if "(p, f) \<in> set (uc_http (test_module w) m)" "f req s = Some (st, s')" for p f m req s st s'
    using that h evolves_hello_world [OF evolves_refl, of True s w req] by (auto simp: test_module_def)
  show "evolves True s s'" if "(i, f) \<in> set (uc_proto (test_module w) m)" "f req s = Some (st, s')" for i f m req s st s'
    using that h evolves_test_proto [OF evolves_refl, of True s w req] by (auto simp: test_module_def)
qed (use test_code.execute_evolves test_code.callback_evolves test_code.timeout_evolves in \<open>simp_all add: test_module_def\<close>)

end
