(* ===== verification/Net_Props.thy ===== *)
theory Net_Props
  imports Module_Test
begin

text \<open>
  Properties of a process as a whole: the table of connections along its runs, the loop over the
  messages of a connection, the messages between processes, the commands and the hand-over of
  descriptors. The witnesses run the module of the repository in a small world.
\<close>

section \<open>A small world\<close>

definition plain_sys :: sys_lib where
  "plain_sys = \<lparr>sl_ser_zk = zn_path, sl_parse_zk = (\<lambda>_. None), sl_ser_reg = rn_my_zk_path,
     sl_parse_reg = (\<lambda>p. Some \<lparr>rn_version = 5, rn_my_zk_path = p, rn_nodes = []\<rparr>), sl_ser_target = tn_ip,
     sl_parse_target = (\<lambda>ip. Some \<lparr>tn_node_type = ''logic'', tn_ip = ip, tn_port = 80, tn_worker_index = 1\<rparr>),
     sl_ser_payload = (\<lambda>_. []), sl_parse_payload = (\<lambda>_. None), sl_stats_to_json = (\<lambda>_. None),
     sl_reply_json = (\<lambda>_ msg _. msg), sl_json_get = (\<lambda>_ _. [])\<rparr>"

text \<open>The first call to \<open>accept\<close> gives descriptor 7, the clock stands at 100, \<open>send\<close> takes 1000 bytes.\<close>

definition small_world :: world where
  "small_world = \<lparr>w_pb = wire_lib, w_sys = plain_sys, w_hl = toy_http, w_al = zero_alloc, w_md5 = (\<lambda>s. s),
     w_now = (\<lambda>_. 100), w_lag = (\<lambda>_. 0), w_send = (\<lambda>_. Sent 1000), w_recv = (\<lambda>_. RecvErr EAGAIN),
     w_sockopt = (\<lambda>_. True), w_mem = (\<lambda>_. True), w_accept = (\<lambda>t. if t = 0 then Some (7, 2) else None),
     w_connect = (\<lambda>_. - 1), w_sendmsg = (\<lambda>_. Sendmsg_ok), w_recvmsg = (\<lambda>_. Recvmsg_err EAGAIN),
     w_redis = (\<lambda>_. (Ctx_ok 1, True, 0, True)), w_mysql = (\<lambda>_. quick_lib), w_db_begin = hd, w_zk = toy_zk ''{}''\<rparr>"

definition all_events :: events where
  "all_events = \<lparr>m_ev_loop = True, m_io_callback_fn = True, m_sig_callback_fn = True, m_io_timer_callback_fn = True,
     m_cmd_timer_callback_fn = True, m_repeat_timer_callback_fn = True, m_session_timer_callback_fn = True, m_signals = []\<rparr>"

definition new_network :: "net_type \<Rightarrow> network" where
  "new_network ty = \<lparr>n_type = ty, n_seq = 1, n_conns = [], n_node_conns = [], n_cmds = [], n_wait_send_fds = [],
     n_worker_data = new_worker_data, n_nodes = \<lparr>m_vnode_cnt = 2, m_ha = FNV1A_64, m_version = 5, m_my_zk_node = [],
       m_host_zk_paths = [], m_zk_nodes = [], m_nodes = [], m_vnodes = [], m_heap = []\<rparr>, n_sessions = [],
     n_payload = empty_payload, n_events = all_events, n_module_mgr = None, n_redis_pool = new_redis_mgr,
     n_db_pool = new_db_mgr, n_zk = None, n_node_type = ''logic'', n_node_host = ''h'', n_gate_host = ''g'', n_node_port = 80,
     n_gate_port = 81, n_worker_index = 1, n_node_host_fd = 5, n_gate_host_fd = 6, n_manager_ctrl_fd = 8,
     n_manager_data_fd = 9, n_keep_alive = 15, n_gate_codec = CT_HTTP, n_timer_index = 0, n_tick = 0, n_trace = []\<rparr>"

lemma conns_inv_new [simp]: "conns_inv (new_network ty)"
  by (simp add: conns_inv_def new_network_def)

lemma small_world_simps [simp]:
  "w_pb small_world = wire_lib" "w_sys small_world = plain_sys" "w_al small_world = zero_alloc"
  "w_send small_world t = Sent 1000" "w_recv small_world t = RecvErr EAGAIN" "w_sendmsg small_world t = Sendmsg_ok"
  "w_now small_world t = 100"
  by (simp_all add: small_world_def)

section \<open>Runs\<close>

lemma runs_evolve_from:
  assumes "module_code u" and "(net_step w u)\<^sup>*\<^sup>* s s'" and "conns_inv s" and "seq_room s s'"
  shows "evolves_ok False s s'"
  using module_code.runs_evolve [OF assms(1,2)] assms(3,4) unfolding evolves_def by blast

text \<open>
  C2. A pointer to a connection that is gone stays dead. Along every run of a process, whatever the
  kernel, the peers and the user's module do, a pair of descriptor and id that names no connection
  never names one again, although the kernel reuses the descriptor; the sequence of ids must not wrap.
\<close>

theorem stale_pointer_stays_dead:
  assumes "module_code u" and "(net_step w u)\<^sup>*\<^sup>* s s'" and "conns_inv s" and "seq_room s s'" and "snd f \<le> n_seq s" and "get_conn s f = None"
  shows "get_conn s' f = None"
proof (rule ccontr)
  have "evolves_ok False s s'" by (rule runs_evolve_from [OF assms(1-4)])
  note ev = evolves_okD [OF this]
  assume "get_conn s' f \<noteq> None"
  then obtain c' where c': "map_of (n_conns s') (fst f) = Some c'" "fd_data c' = f"
    using get_conn_Some [OF ev(1)] by blast
  then have "c_id c' \<le> n_seq s" using assms(5) by (auto simp: fd_data_def)
  from ev(4) [OF c'(1) this] obtain c where "map_of (n_conns s) (fst f) = Some c" "key False c = key False c'" by blast
  then have "get_conn s f = Some c" using get_conn_Some [OF assms(3)] c'(2) by (simp add: key_def)
  then show False using assms(6) by simp
qed

text \<open>Descriptor 7 is accepted anew: the pointer (7, 1) of its former user does not name the new connection.\<close>

lemma accept_once:
  "\<exists>s c. on_io_read small_world u ch 5 (new_network NT_MANAGER) = Some s \<and> map_of (n_conns s) 7 = Some c \<and> c_id c = 2
     \<and> n_tick s \<le> 10 \<and> is_connected c \<and> c_is_system c"
proof -
  have n: "MAX_ACCEPTS_PER_CALL = Suc (Suc 998)" by (simp add: MAX_ACCEPTS_PER_CALL_def)
  have "\<exists>s c. accept_loop (Suc (Suc m)) small_world (new_network NT_MANAGER) = Some s \<and> map_of (n_conns s) 7 = Some c
      \<and> c_id c = 2 \<and> n_tick s \<le> 10 \<and> is_connected c \<and> c_is_system c" for m
    by (simp add: small_world_def new_network_def net_add_read_event_def create_conn_def new_seq_def tick_def
        Let_def put_conn_def get_conn_def conn_init_def new_connection_def add_read_event_def all_events_def alloc_io_def
        is_connected_def now_def)
  from this [of 998, folded n] show ?thesis
    by (simp add: on_io_read_def accept_server_conn_def is_manager_def new_network_def)
qed

theorem stale_pointer_stays_dead_witness:
  "\<exists>s c. (net_step small_world (test_module small_world))\<^sup>*\<^sup>* (new_network NT_MANAGER) s
     \<and> map_of (n_conns s) 7 = Some c \<and> get_conn s (7, 1) = None"
proof -
  obtain s c where s: "on_io_read small_world (test_module small_world) undefined 5 (new_network NT_MANAGER) = Some s"
    "map_of (n_conns s) 7 = Some c" "n_tick s \<le> 10" using accept_once by blast
  have run: "(net_step small_world (test_module small_world))\<^sup>*\<^sup>* (new_network NT_MANAGER) s"
    by (rule r_into_rtranclp) (rule net_step.io_read [OF s(1)])
  have "get_conn s (7, 1) = None"
    by (rule stale_pointer_stays_dead [OF test_mod.module_code_axioms run conns_inv_new])
      (use s(3) in \<open>auto simp: new_network_def seq_room_def get_conn_def\<close>)
  then show ?thesis using run s(2) by blast
qed

section \<open>The loop over the messages of a connection\<close>

lemma decode_consumes:
  assumes "sb_inv b" and "proto_decode pb b h0 m0 = Some (st, h, m, b')"
  shows "sb_inv b'" and "st = CS_OK \<Longrightarrow> readable_len b' < readable_len b"
proof -
  have skip: "sb_inv (skip_bytes n b) \<and> length (ToString (skip_bytes n b)) < length (ToString b)"
    if "n \<le> readable_len b" "15 \<le> n" "n < 2 ^ 31" for n
    using that sbuf.skip_inv [OF assms(1)] sbuf.skip_stream [OF assms(1)] sbuf.avail_stream [OF assms(1)] by simp
  have c: "c_int (int (readable_len b)) \<le> int (readable_len b)" by (rule c_int_le) simp
  obtain ret h where p: "pb_parse_head pb (raw_read_buffer b 15) = (ret, h)" by fastforce
  obtain ret' m where q: "pb_parse_body pb (drop 15 (raw_read_buffer b (15 + nat (mh_len h)))) = (ret', m)" by fastforce
  have big: "15 + nat (mh_len h) \<le> readable_len b \<and> 15 + nat (mh_len h) < 2 ^ 31"
    if "\<not> c_int (int (readable_len b)) < 15 + mh_len h" "0 < mh_len h"
    using that c c_int_range [of "int (readable_len b)"] by simp linarith
  have "sb_inv b' \<and> (st = CS_OK \<longrightarrow> length (ToString b') < length (ToString b))"
    using assms skip [of 15] skip [of "15 + nat (mh_len h)"] big
    unfolding proto_decode_def PROTO_MSG_HEAD_LEN_def
    by (cases "readable_len b < 15"; cases ret; cases ret'; cases "mh_len h \<le> 0") (auto simp: p q split: if_splits)
  then show "sb_inv b'" and "st = CS_OK \<Longrightarrow> readable_len b' < readable_len b"
    by (metis sbuf.avail_stream assms(1))+
qed

definition recv_ok :: "connection \<Rightarrow> bool" where
  "recv_ok c \<longleftrightarrow> (case c_recv_buf c of None \<Rightarrow> True | Some b \<Rightarrow> sb_inv b)"

lemma decode_proto_consumes:
  assumes "recv_ok c" and "decode_proto pb c h0 m0 = Some (st, h, m, c')"
  shows "recv_ok c'" and "st = CS_OK \<Longrightarrow> length (pending (c_recv_buf c')) < length (pending (c_recv_buf c))"
  using assms by (auto simp: decode_proto_def recv_ok_def split: if_splits option.splits dest: decode_consumes(1))
    (metis decode_consumes sbuf.avail_stream)+

lemma fetch_consumes:
  assumes "recv_ok c" and "fetch_data_proto pb c h0 m0 = Some (st, h, m, c')"
  shows "recv_ok c'" and "st = CS_OK \<Longrightarrow> length (pending (c_recv_buf c')) < length (pending (c_recv_buf c))"
  using assms decode_proto_consumes by (auto simp: fetch_data_proto_def split: if_splits)

text \<open>A connection that survives an operation that does not read keeps its receive buffer.\<close>

lemma evolves_same_recv:
  assumes "evolves True s t" and "conns_inv s" and "seq_room s t" and "get_conn s r = Some c" and "get_conn t r = Some d"
  shows "c_recv_buf d = c_recv_buf c"
proof -
  have ok: "evolves_ok True s t" using assms(1-3) by (simp add: evolves_def)
  note ev = evolves_okD [OF ok]
  have d: "map_of (n_conns t) (fst r) = Some d" "fd_data d = r" using get_conn_Some [OF ev(1)] assms(5) by blast+
  have "c_id d \<le> n_seq s" using conns_inv_seq [OF assms(2,4)] d(2) by (auto simp: fd_data_def)
  from ev(4) [OF d(1) this] obtain e where "map_of (n_conns s) (fst r) = Some e" "key True e = key True d" by blast
  then show ?thesis using get_conn_Some [OF assms(2)] assms(4) by (simp add: key_def)
qed

lemma tcp_loop_stops: "st \<noteq> CS_OK \<Longrightarrow> tcp_loop n w u r st head body s = Some (e, s') \<Longrightarrow> e \<noteq> Out_of_fuel"
  by (cases n) (auto simp: goto_error_def split: if_splits)

context module_code
begin

lemma tcp_loop_fuel:
  assumes "tcp_loop n w u r st head body s = Some (e, s')" and "conns_inv s" and "seq_room s s'"
    and "get_conn s r = Some c" and "recv_ok c" and "length (pending (c_recv_buf c)) < n"
  shows "e \<noteq> Out_of_fuel"
  using assms
proof (induction n arbitrary: st head body s c)
  case (Suc n)
  show ?case
  proof (cases "st = CS_OK")
    case True
    let ?req = "tcp_request r head body"
    obtain d t where d: "(if c_is_system c then system_msg w r ?req s else Some (Go_on ST_UNKOWN, s)) = Some (d, t)"
      and rest: "(case d of Return_true \<Rightarrow> Some (Returned True, t) | Goto_error \<Rightarrow> goto_error r t
        | Go_on cmd_ret \<Rightarrow> do {
            s \<leftarrow> (if cmd_ret = ST_UNKOWN then user_msg u ?req t else Some t);
            c \<leftarrow> get_conn s r;
            (codec_ret, head, body, c) \<leftarrow> fetch_data_proto (w_pb w) c empty_head empty_body;
            tcp_loop n w u r codec_ret head body (put_conn c s)
          }) = Some (e, s')"
      using Suc.prems(1,4) True by (auto simp: Let_def split: bind_splits)
    have st: "evolves True s t" using d evolves_system_msg [OF evolves_refl, of True s w r ?req] by (auto split: if_splits)
    show ?thesis
    proof (cases d)
      case (Go_on cr)
      obtain x c2 st2 h2 b2 c3 where x: "(if cr = ST_UNKOWN then user_msg u ?req t else Some t) = Some x"
        and c2: "get_conn x r = Some c2" and f: "fetch_data_proto (w_pb w) c2 empty_head empty_body = Some (st2, h2, b2, c3)"
        and l: "tcp_loop n w u r st2 h2 b2 (put_conn c3 x) = Some (e, s')"
        using rest Go_on by (auto split: bind_splits)
      have sx: "evolves True s x" by (rule evolves_trans [OF st maybe_user_msg_evolves [OF x]])
      have key3: "key False c3 = key False c2" by (rule key_fetch_proto [OF f])
      have sp: "evolves False s (put_conn c3 x)" by (rule evolves_put_conn [OF evolves_weaken [OF sx] c2 key3])
      have "evolves False (put_conn c3 x) s'"
        using tcp_loop_evolves [OF evolves_refl, of "put_conn c3 x" n w r st2 h2 b2] l by simp
      then have tk: "n_tick s \<le> n_tick (put_conn c3 x)" "n_tick (put_conn c3 x) \<le> n_tick s'" "n_tick (put_conn c3 x) = n_tick x"
        using sp by (simp_all add: evolves_def put_conn_def)
      have room: "seq_room s (put_conn c3 x)" by (rule seq_room_parts(1) [OF tk(1,2) Suc.prems(3)])
      have ok: "evolves_ok False s (put_conn c3 x)" using sp Suc.prems(2) room by (simp add: evolves_def)
      have room': "seq_room (put_conn c3 x) s'" by (rule seq_room_parts(2) [OF tk(1,2) Suc.prems(3) evolves_okD(3) [OF ok]])
      have "seq_room s x" using room tk(3) by (simp add: seq_room_def)
      then have same: "c_recv_buf c2 = c_recv_buf c" by (rule evolves_same_recv [OF sx Suc.prems(2) _ Suc.prems(4) c2])
      then have "recv_ok c2" using Suc.prems(5) by (simp add: recv_ok_def)
      note con = fetch_consumes [OF this f]
      have "evolves_ok True s x" using sx Suc.prems(2) \<open>seq_room s x\<close> by (simp add: evolves_def)
      then have "fd_data c2 = r" using get_conn_Some evolves_okD(1) c2 by blast
      then have g3: "get_conn (put_conn c3 x) r = Some c3" using key3 by (intro get_conn_put') (simp add: key_def)
      show ?thesis
      proof (cases "st2 = CS_OK")
        case True
        have "length (pending (c_recv_buf c3)) < n" using con(2) [OF True] same Suc.prems(6) by simp
        then show ?thesis by (rule Suc.IH [OF l evolves_okD(1) [OF ok] room' g3 con(1)])
      qed (rule tcp_loop_stops [OF _ l])
    qed (use rest in \<open>auto simp: goto_error_def\<close>)
  qed (rule tcp_loop_stops [OF _ Suc.prems(1)])
qed simp

end

lemma conn_read_recv_ok:
  assumes "conn_ok c" and "alloc_ok al" and "conn_read al rr tm c = (st, c')"
    and "case rr of Recv bs \<Rightarrow> length (pending (c_recv_buf c)) + length bs < 2 ^ 31 | RecvErr _ \<Rightarrow> True"
  shows "recv_ok c'"
proof -
  have ok: "recv_ok c" and b: "sb_inv (the_buf (c_recv_buf c))"
    using assms(1) the_buf_ok by (auto simp: conn_ok_def recv_ok_def buf_ok_def split: option.split)
  show ?thesis
  proof (cases rr)
    case (Recv bs)
    show ?thesis
    proof (cases "is_invalid c")
      case False
      have "conn_ok c'" using conn_read_result [OF assms(1,2) False _ assms(3) [unfolded Recv]] assms(4) Recv by simp
      then show ?thesis by (auto simp: conn_ok_def recv_ok_def split: option.split)
    qed (use assms(3) ok in \<open>simp add: conn_read_def\<close>)
  next
    case (RecvErr e)
    then show ?thesis using assms(3) ok b by (auto simp: conn_read_def read_fd_def recv_ok_def Let_def split: if_splits)
  qed
qed

lemma decode_proto_recv_ok: "decode_proto pb c h0 m0 = Some (st, h, m, c') \<Longrightarrow> recv_ok c \<Longrightarrow> recv_ok c'"
  by (rule decode_proto_consumes)

lemma conn_read_proto_recv_ok:
  assumes "conn_ok c" and "alloc_ok al" and "conn_read_proto pb al rr tm c h0 m0 = Some (st, h, m, c')"
    and "case rr of Recv bs \<Rightarrow> length (pending (c_recv_buf c)) + length bs < 2 ^ 31 | RecvErr _ \<Rightarrow> True"
  shows "recv_ok c'"
proof -
  obtain st1 c1 where r: "conn_read al rr tm c = (st1, c1)" by fastforce
  have "recv_ok c1" by (rule conn_read_recv_ok [OF assms(1,2) r assms(4)])
  then show ?thesis using assms(3) r decode_proto_recv_ok by (fastforce simp: conn_read_proto_def split: if_splits)
qed

text \<open>
  C3. Reading a connection always ends: each turn of the loop over the messages of a buffer consumes at
  least one head, and no handler, of the system or of a user's module, gives bytes back to the receive
  buffer. The fuel of the model, one more than the bytes in the buffer, is never used up.
\<close>

theorem reading_a_connection_ends:
  assumes "module_code u" and "process_tcp_msg w u r s = Some (e, s')" and "conns_inv s" and "seq_room s s'"
    and "get_conn s r = Some c" and "conn_ok c" and "alloc_ok (w_al w)"
    and "case w_recv w (n_tick s) of Recv bs \<Rightarrow> length (pending (c_recv_buf c)) + length bs < 2 ^ 31 | RecvErr _ \<Rightarrow> True"
  shows "\<exists>ok. e = Returned ok"
proof -
  obtain st h m c1 where rd: "conn_read_proto (w_pb w) (w_al w) (w_recv w (n_tick s)) (now w s) c empty_head empty_body = Some (st, h, m, c1)"
    using assms(2,5) by (auto simp: process_tcp_msg_def split: bind_splits)
  let ?t = "tick (put_conn c1 s)"
  let ?u = "if st \<noteq> CS_ERR then count_read c c1 ?t else ?t"
  have l: "tcp_loop (Suc (length (pending (c_recv_buf c1)))) w u r st h m ?u = Some (e, s')"
    using assms(2,5) rd by (simp add: process_tcp_msg_def Let_def)
  have key: "key False c1 = key False c" by (rule key_read_proto [OF rd])
  have su: "evolves False s ?u"
    using evolves_tick [OF evolves_put_conn [OF evolves_refl assms(5) key]] by (simp add: evolves_count_read)
  have us: "evolves False ?u s'" using module_code.tcp_loop_evolves [OF assms(1) evolves_refl, of ?u] l by (metis evolves_opt_simps(2))
  have tk: "n_tick s \<le> n_tick ?u" "n_tick ?u \<le> n_tick s'" using su us unfolding evolves_def by blast+
  have ok: "evolves_ok False s ?u" using su assms(3) seq_room_parts(1) [OF tk assms(4)] unfolding evolves_def by blast
  have room: "seq_room ?u s'" by (rule seq_room_parts(2) [OF tk assms(4) evolves_okD(3) [OF ok]])
  have "fd_data c1 = r" using key get_conn_Some [OF assms(3)] assms(5) by (simp add: key_def)
  then have g: "get_conn ?u r = Some c1"
    using get_conn_put' [of r c1 s] by (simp add: count_read_def Let_def)
  have "e \<noteq> Out_of_fuel"
    by (rule module_code.tcp_loop_fuel [OF assms(1) l evolves_okD(1) [OF ok] room g conn_read_proto_recv_ok [OF assms(6,7) rd assms(8)] lessI])
  then show ?thesis by (cases e) auto
qed

text \<open>A connection of the manager on which a peer has sent a frame.\<close>

definition peer_conn :: connection where
  "peer_conn = (new_connection 7 1 100)\<lparr>c_codec := Proto_codec, c_state := S_CONNECTED, c_is_system := True\<rparr>"

definition with_peer :: "connection \<Rightarrow> network \<Rightarrow> network" where
  "with_peer c s = s\<lparr>n_conns := [(7, c)]\<rparr>"

lemma conns_inv_peer: "c_fd c = 7 \<Longrightarrow> c_id c = 1 \<Longrightarrow> conns_inv (with_peer c (new_network ty)) \<and> get_conn (with_peer c (new_network ty)) (7, 1) = Some c"
  by (simp add: conns_inv_def new_network_def with_peer_def get_conn_def)

lemma peer_conn_simps [simp]:
  "c_fd peer_conn = 7" "c_id peer_conn = 1" "conn_ok peer_conn" "c_recv_buf peer_conn = None" "c_is_system peer_conn"
  "c_codec peer_conn = Proto_codec" "is_connected peer_conn" "\<not> is_invalid peer_conn" "c_send_buf peer_conn = None"
  "c_wait_send_buf peer_conn = None" "c_state peer_conn = S_CONNECTED"
  by (simp_all add: peer_conn_def new_connection_def conn_ok_def is_connected_def is_invalid_def)

theorem reading_a_connection_ends_witness:
  "\<exists>ok s'. process_tcp_msg small_world (test_module small_world) (7, 1) (with_peer peer_conn (new_network NT_WORKER)) = Some (Returned ok, s')"
proof -
  let ?s = "with_peer peer_conn (new_network NT_WORKER)"
  have "\<exists>e s'. process_tcp_msg small_world (test_module small_world) (7, 1) ?s = Some (e, s') \<and> n_tick s' \<le> 10"
    by (simp add: process_tcp_msg_def with_peer_def new_network_def get_conn_def conn_read_proto_def conn_read_def read_fd_def
        small_world_def decode_proto_def the_buf_def proto_decode_def EAGAIN_def PROTO_MSG_HEAD_LEN_def Let_def
        readable_len_def is_readable_def new_buffer_def tick_def put_conn_def count_read_def)
  then obtain e s' where p: "process_tcp_msg small_world (test_module small_world) (7, 1) ?s = Some (e, s')" and t: "n_tick s' \<le> 10" by blast
  have "\<exists>ok. e = Returned ok"
    by (rule reading_a_connection_ends [OF test_mod.module_code_axioms p])
      (use conns_inv_peer t in \<open>auto simp: seq_room_def small_world_def with_peer_def new_network_def get_conn_def\<close>)
  then show ?thesis using p by blast
qed

section \<open>Descriptors on their way to a worker\<close>

fun closed_by :: "effect list \<Rightarrow> int multiset" where
  "closed_by [] = {#}"
| "closed_by (E_close fd # es) = {#fd#} + closed_by es"
| "closed_by (_ # es) = closed_by es"

lemma closed_by_append [simp]: "closed_by (xs @ ys) = closed_by xs + closed_by ys"
  by (induction xs rule: closed_by.induct) simp_all

definition waiting_fds :: "(channel_t \<times> int) list \<Rightarrow> int multiset" where
  "waiting_fds ds = mset (map (ch_fd \<circ> fst) ds)"

lemma wait_loop_conserves:
  "wait_loop w ds s = Some (rest, s') \<Longrightarrow>
     (\<exists>es. n_trace s' = n_trace s @ es \<and> waiting_fds ds = waiting_fds rest + closed_by es)
     \<and> ((\<forall>d \<in> set ds. snd d < 3) \<longrightarrow> (\<forall>d \<in> set rest. snd d < 3))"
proof (induction ds arbitrary: s rest)
  case (Cons d ds)
  obtain ch cnt where d: "d = (ch, cnt)" by (cases d)
  obtain fd wd where g: "get_next_worker_data_fd (n_worker_data s) = Some (fd, wd)"
    using Cons.prems d by (auto split: bind_splits)
  show ?case
  proof (cases "fd \<le> 0")
    case True
    then show ?thesis using Cons.prems d g by auto
  next
    case False
    obtain err x where e: "write_channel (w_sendmsg w (n_tick s)) ch = (err, x)" by fastforce
    let ?t = "tick (s\<lparr>n_worker_data := wd\<rparr>)"
    let ?u = "if err = 0 then emit (E_xfer fd ch) ?t else ?t"
    let ?c = "if err = EAGAIN then cnt + 1 else cnt"
    let ?es = "if err = 0 then [E_xfer fd ch] else []"
    have tr: "n_trace ?u = n_trace s @ ?es" "closed_by ?es = {#}"
      by (auto simp: emit_def tick_def)
    show ?thesis
    proof (cases "err \<noteq> EAGAIN \<or> ?c \<ge> 3")
      case True
      then have w: "wait_loop w ds (close_fd (ch_fd ch) ?u) = Some (rest, s')"
        using Cons.prems d g e False by (simp add: Let_def)
      have "n_trace (close_fd (ch_fd ch) ?u) = n_trace s @ ?es @ [E_close (ch_fd ch)]"
          "closed_by (?es @ [E_close (ch_fd ch)]) = {#ch_fd ch#}"
        using tr by (simp_all add: close_fd_def emit_def)
      then show ?thesis using Cons.IH [OF w] d by (fastforce simp: waiting_fds_def)
    next
      case False': False
      then obtain rs where w: "wait_loop w ds ?u = Some (rs, s')" and r: "rest = (ch, ?c) # rs"
        using Cons.prems d g e False by (auto simp: Let_def split: if_splits)
      show ?thesis using Cons.IH [OF w] tr d r False' by (fastforce simp: waiting_fds_def)
    qed
  qed
qed (simp add: waiting_fds_def)

text \<open>
  The manager loses no descriptor that waits for a worker: after a tick of the timer each of them has
  been closed here, after it was sent or given up, or still waits; and none waits with three failed
  attempts.
\<close>

lemma waiting_descriptors_are_conserved:
  assumes "check_wait_send_fds w s = Some s'" and "\<forall>d \<in> set (n_wait_send_fds s). snd d < 3"
  shows "\<exists>es. n_trace s' = n_trace s @ es
     \<and> waiting_fds (n_wait_send_fds s) = waiting_fds (n_wait_send_fds s') + closed_by es
     \<and> (\<forall>d \<in> set (n_wait_send_fds s'). snd d < 3)"
proof -
  obtain rest t where t: "wait_loop w (n_wait_send_fds s) s = Some (rest, t)" "s' = t\<lparr>n_wait_send_fds := rest\<rparr>"
    using assms(1) by (auto simp: check_wait_send_fds_def)
  then show ?thesis using wait_loop_conserves [OF t(1)] assms(2) by auto
qed

definition waiting_world :: world where
  "waiting_world = small_world\<lparr>w_sendmsg := (\<lambda>t. if t = 0 then Sendmsg_ok else Sendmsg_err EAGAIN)\<rparr>"

definition a_channel :: "int \<Rightarrow> channel_t" where
  "a_channel fd = \<lparr>ch_fd = fd, ch_family = 2, ch_codec = 2, ch_is_system = 0\<rparr>"

definition waiting_manager :: network where
  "waiting_manager = (new_network NT_MANAGER)\<lparr>n_wait_send_fds := [(a_channel 21, 0), (a_channel 22, 1), (a_channel 23, 2)],
     n_worker_data := snd (the (add_worker_info new_worker_data 1 100 11 12))\<rparr>"

section \<open>Modules\<close>

lemma get_module_loop_some: "ms \<noteq> [] \<or> m \<noteq> None \<Longrightarrow> get_module_loop ms name m \<noteq> None"
  by (induction ms arbitrary: m) (auto split: prod.split)

lemma get_module_loop_last:
  "ms \<noteq> [] \<Longrightarrow> \<forall>m \<in> snd ` set ms. c_str (mo_name m) \<noteq> name \<Longrightarrow> get_module_loop ms name x = Some (snd (last ms))"
  by (induction ms arbitrary: x) (auto simp: get_module_loop_some split: prod.split)

text \<open>
  A worker can run one module only. The search for a module by name answers the last module it
  looked at when none has the name, so a second module counts as loaded already, the start of a worker
  with two modules fails, and unloading a name that is not loaded unloads another module.
\<close>

lemma only_one_module_loads:
  assumes "ms \<noteq> []" and "\<forall>m \<in> snd ` set ms. c_str (mo_name m) \<noteq> name"
  shows "load_so dl name path i ms s = (False, ms, s)
    \<and> unload_so name ms = (True, uerase ms (mo_id (snd (last ms))))
    \<and> fst (modules_init dl work_path (n1 # n2 # names) [] s) = False"
proof (intro conjI)
  note g = get_module_loop_last [OF assms, of None]
  show "load_so dl name path i ms s = (False, ms, s)" using g by (simp add: load_so_def get_module_def)
  show "unload_so name ms = (True, uerase ms (mo_id (snd (last ms))))" using g by (simp add: unload_so_def get_module_def)
  have second: "load_so dl n p j [(k, m)] t = (False, [(k, m)], t)" for n p j k m t
    using get_module_loop_some [of "[(k, m)]" None n] by (auto simp: load_so_def get_module_def)
  obtain ok ms1 s1 where 1: "load_so dl n1 (module_path work_path n1) 0 [] s = (ok, ms1, s1)" by (metis prod_cases3)
  have "ok \<Longrightarrow> \<exists>k m. ms1 = [(k, m)]"
    using 1 by (auto simp: load_so_def get_module_def Let_def split: option.splits if_splits prod.splits)
  then show "fst (modules_init dl work_path (n1 # n2 # names) [] s) = False"
    using 1 second by (cases ok) (auto simp: Let_def)
qed

section \<open>Answers\<close>

lemma encode_to_frame:
  assumes "proto_ok pb" and "alloc_ok al" and "conn_ok c" and "is_connected c" and "c_codec c = Proto_codec" and "msg_ok pb (h, m)"
    and "length (pending (c_send_buf c)) + length (frame pb (h, m)) < 2 ^ 31"
  shows "\<exists>b. encode_to pb al h m False c = (CS_OK, c\<lparr>c_send_buf := Some b\<rparr>)
    \<and> ToString b = pending (c_send_buf c) @ frame pb (h, m) \<and> conn_ok (c\<lparr>c_send_buf := Some b\<rparr>)"
proof -
  have v: "\<not> is_invalid c" using assms(4) by (simp add: is_connected_def is_invalid_def)
  have b: "sb_inv (the_buf (c_send_buf c))" "ToString (the_buf (c_send_buf c)) = pending (c_send_buf c)"
    using the_buf_ok [of "c_send_buf c"] assms(3) by (simp_all add: conn_ok_def)
  obtain b' where b': "proto_encode pb al h m (the_buf (c_send_buf c)) = (CS_OK, b')" "sb_inv b'"
    "ToString b' = pending (c_send_buf c) @ frame pb (h, m)"
    using encode_frame [OF assms(1,2) b(1) assms(6)] b(2) by metis
  have "readable_len b' < 2 ^ 31" using sbuf.avail_stream [OF b'(2)] b'(3) assms(7) by simp
  then have "conn_ok (c\<lparr>c_send_buf := Some b'\<rparr>)" using b'(2) assms(3) by (simp add: conn_ok_def)
  moreover have "encode_to pb al h m False c = (CS_OK, c\<lparr>c_send_buf := Some b'\<rparr>)"
    using b'(1) v assms(5) by (simp add: encode_to_def)
  ultimately show ?thesis using b'(3) by blast
qed

definition ack_frame :: "world \<Rightarrow> request \<Rightarrow> int \<Rightarrow> string \<Rightarrow> string \<Rightarrow> string" where
  "ack_frame w req err errstr data =
     frame (w_pb w) (\<lparr>mh_cmd = mh_cmd (rq_head req) + 1, mh_seq = mh_seq (rq_head req),
       mh_len = int (length (pb_ser_body (w_pb w) (ack_body err errstr data)))\<rparr>, ack_body err errstr data)"

text \<open>What an answer needs: a connection that is up, and a message the protocol can carry.\<close>

definition can_ack :: "world \<Rightarrow> request \<Rightarrow> int \<Rightarrow> string \<Rightarrow> string \<Rightarrow> connection \<Rightarrow> bool" where
  "can_ack w req err errstr data c \<longleftrightarrow>
     proto_ok (w_pb w) \<and> alloc_ok (w_al w) \<and> conn_ok c \<and> is_connected c \<and> c_codec c = Proto_codec \<and> \<not> use_wait_buf c
     \<and> mh_cmd (rq_head req) + 1 < 2 ^ 32 \<and> 0 < mh_seq (rq_head req) \<and> mh_seq (rq_head req) < 2 ^ 32
     \<and> 0 < length (pb_ser_body (w_pb w) (ack_body err errstr data))
     \<and> length (pending (c_send_buf c)) + length (ack_frame w req err errstr data) < 2 ^ 31"

lemma ack_message:
  assumes "can_ack w req err errstr data c"
  shows "msg_ok (w_pb w) (ack_head w req (ack_body err errstr data), ack_body err errstr data)"
    and "frame (w_pb w) (ack_head w req (ack_body err errstr data), ack_body err errstr data) = ack_frame w req err errstr data"
proof -
  let ?b = "ack_body err errstr data" and ?n = "length (pb_ser_body (w_pb w) (ack_body err errstr data))"
  have pb: "proto_ok (w_pb w)" using assms by (simp add: can_ack_def)
  have small: "?n < 2 ^ 31" using assms by (simp add: can_ack_def ack_frame_def frame_def)
  then have len: "body_len w ?b = int ?n" by (simp add: body_len_def)
  have cmd: "c_uint (int (mh_cmd (rq_head req)) + 1) = mh_cmd (rq_head req) + 1"
  proof -
    have "c_uint (int (mh_cmd (rq_head req) + 1)) = mh_cmd (rq_head req) + 1"
      using assms unfolding can_ack_def by (intro c_uint_id) blast
    then show ?thesis by (simp add: add.commute)
  qed
  have h: "ack_head w req ?b = \<lparr>mh_cmd = mh_cmd (rq_head req) + 1, mh_seq = mh_seq (rq_head req), mh_len = int ?n\<rparr>"
    by (simp add: ack_head_def len cmd)
  have ok: "head_ok (ack_head w req ?b)" using assms small by (simp add: h head_ok_def can_ack_def)
  have "length (pb_ser_head (w_pb w) (ack_head w req ?b)) = 15"
    using pb ok assms by (simp add: proto_ok_def h can_ack_def)
  then have "15 + int ?n < 2 ^ 31" using assms by (simp add: can_ack_def ack_frame_def frame_def h)
  then show "msg_ok (w_pb w) (ack_head w req ?b, ?b)" using ok assms by (simp add: msg_ok_def h can_ack_def)
  show "frame (w_pb w) (ack_head w req ?b, ?b) = ack_frame w req err errstr data"
    by (simp add: ack_frame_def h)
qed

text \<open>Writing to a connection that is up, when the kernel takes bytes or is busy.\<close>

lemma write_status_ok:
  assumes "ret \<noteq> CS_ERR" and "ret = CS_PAUSE \<Longrightarrow> m_io_callback_fn (n_events s)" and "c_ev_io c \<noteq> None" and "f = fd_data c"
  shows "\<exists>t d. handle_write_status w c ret s = (True, t) \<and> get_conn t f = Some d \<and> n_trace t = n_trace s
    \<and> c_send_buf d = c_send_buf c \<and> c_is_system d = c_is_system c \<and> n_worker_data t = n_worker_data s \<and> n_type t = n_type s
    \<and> fd_data d = f"
proof (cases "ret = CS_PAUSE")
  case True
  obtain io where io: "add_write_event (n_events s) (w_mem w (n_tick s)) (c_fd c) (c_ev_io c) = Some io"
    using add_write_event_Some [OF assms(2) [OF True] assms(3)] by blast
  show ?thesis using True io assms(4)
    by (simp add: handle_write_status_def tick_def put_conn_def get_conn_def fd_data_def)
next
  case False
  then show ?thesis using assms by (simp add: handle_write_status_def Let_def put_conn_def get_conn_def fd_data_def)
qed

lemma send_ack_sends:
  assumes inv: "conns_inv s" and c: "get_conn s (rq_fd_data req) = Some c" and ack: "can_ack w req err errstr data c"
    and up: "w_send w (n_tick s) = Sent n \<or> w_send w (n_tick s) = SendErr EAGAIN"
    and ev: "m_io_callback_fn (n_events s)" "c_ev_io c \<noteq> None"
  shows "\<exists>t d out. send_ack w req err errstr data s = Some (True, t) \<and> get_conn t (rq_fd_data req) = Some d
    \<and> n_trace t = n_trace s @ (if out = [] then [] else [E_out (fst (rq_fd_data req)) out])
    \<and> out @ pending (c_send_buf d) = pending (c_send_buf c) @ ack_frame w req err errstr data
    \<and> fd_data d = rq_fd_data req \<and> n_worker_data t = n_worker_data s \<and> n_type t = n_type s
    \<and> (w_send w (n_tick s) = Sent n \<and> length (pending (c_send_buf c) @ ack_frame w req err errstr data) \<le> n
         \<longrightarrow> pending (c_send_buf d) = [])"
proof -
  let ?b = "ack_body err errstr data" and ?f = "rq_fd_data req"
  let ?h = "ack_head w req ?b"
  note a = ack [unfolded can_ack_def]
  have msg: "msg_ok (w_pb w) (?h, ?b)" "frame (w_pb w) (?h, ?b) = ack_frame w req err errstr data"
    by (rule ack_message [OF ack])+
  have len: "length (pending (c_send_buf c)) + length (frame (w_pb w) (?h, ?b)) < 2 ^ 31" using a msg(2) by simp
  obtain b where b: "encode_to (w_pb w) (w_al w) ?h ?b False c = (CS_OK, c\<lparr>c_send_buf := Some b\<rparr>)"
    "ToString b = pending (c_send_buf c) @ ack_frame w req err errstr data" "conn_ok (c\<lparr>c_send_buf := Some b\<rparr>)"
    using encode_to_frame [OF _ _ _ _ _ msg(1) len] a msg(2) by metis
  let ?c = "c\<lparr>c_send_buf := Some b\<rparr>"
  have use: "\<not> use_wait_buf ?c" "\<not> is_invalid ?c" using a by (auto simp: use_wait_buf_def is_connected_def is_invalid_def)
  obtain st out d where wr: "conn_write (w_al w) (w_send w (n_tick s)) (now w s) ?c = (st, out, d)" by (metis prod_cases3)
  note r = conn_write_result [OF b(3) wr]
  have bi: "sb_inv b" "readable_len b < 2 ^ 31" using b(3) by (simp_all add: conn_ok_def)
  have fd: "fd_data c = ?f" using get_conn_Some [OF inv] c by blast
  have d: "fd_data d = ?f" "c_ev_io d \<noteq> None" "c_is_system d = c_is_system c" "c_fd d = fst ?f"
    using r(5,6,9,10) fd ev(2) by (simp_all add: fd_data_def flip: fd)
  have out: "out @ pending (c_send_buf d) = pending (c_send_buf c) @ ack_frame w req err errstr data"
    using r(3) [OF use(1)] b(2) by simp
  have "is_readable b"
  proof -
    have "0 < length (ack_frame w req err errstr data)" using a by (simp add: ack_frame_def frame_def)
    then have "readable_len b \<noteq> 0" using sbuf.avail_stream [OF bi(1)] b(2) by simp
    then show ?thesis by (auto simp: readable_len_def split: if_splits)
  qed
  obtain k e o' b' where wf: "write_fd (w_send w (n_tick s)) (c_errno c) b = (k, e, o', b')" by (metis prod_cases4)
  have st: "st \<noteq> CS_ERR"
    using wr use wf up \<open>is_readable b\<close> by (auto simp: conn_write_def Let_def write_fd_def split: if_splits)
  have drained: "pending (c_send_buf d) = []"
    if "w_send w (n_tick s) = Sent n" "length (pending (c_send_buf c) @ ack_frame w req err errstr data) \<le> n"
  proof -
    have "readable_len b \<le> n" using that(2) b(2) sbuf.avail_stream [OF bi(1)] by simp
    then have k: "k = int (readable_len b)" using wf that(1) by (auto simp: write_fd_def Let_def min_def split: if_splits)
    have lo: "length o' = readable_len b" using write_fd_keeps(3) [OF bi(1) wf] k by simp
    have "out = o'" using wr use wf \<open>is_readable b\<close> k by (auto simp: conn_write_def Let_def split: if_splits)
    then have "length out = length (pending (c_send_buf c) @ ack_frame w req err errstr data)"
      using lo b(2) sbuf.avail_stream [OF bi(1)] by simp
    then show ?thesis using out by (metis append_Nil2 append_eq_append_conv length_append add_cancel_right_right length_0_conv)
  qed
  let ?s1 = "tick (put_conn d s)"
  let ?s2 = "if out \<noteq> [] then emit (E_out (c_fd d) out) ?s1 else ?s1"
  let ?s3 = "count_write c d ?s2"
  have ev3: "m_io_callback_fn (n_events ?s3)" using ev(1) by (simp add: count_write_def Let_def emit_def tick_def put_conn_def)
  obtain t d' where t: "handle_write_status w d st ?s3 = (True, t)" "get_conn t ?f = Some d'" "n_trace t = n_trace ?s3"
    "c_send_buf d' = c_send_buf d" "fd_data d' = ?f" "n_worker_data t = n_worker_data ?s3" "n_type t = n_type ?s3"
    using write_status_ok [OF st ev3 d(2) d(1) [symmetric], of w] by metis
  have "send_ack w req err errstr data s = Some (True, t)"
    using c fd b(1) wr st t(1)
    by (simp add: send_ack_def send_to_fd_def conn_ptr_def send_to_conn_def handle_write_proto_def conn_write_proto_def
        after_write_def close_unless_def Let_def)
  moreover have "n_trace t = n_trace s @ (if out = [] then [] else [E_out (fst ?f) out])"
    "n_worker_data t = n_worker_data s" "n_type t = n_type s"
    using t(3,6,7) d(4) by (simp_all add: count_write_def Let_def emit_def tick_def put_conn_def)
  ultimately show ?thesis using t(2,4,5) d(3) out drained by metis
qed

text \<open>
  C16. An answer goes to the peer that asked, behind what is still queued for it, and carries the
  request's sequence number and the command number plus one, which is how the peer finds the command
  that waits for it: the bytes that went out and those still queued are the old queue and the frame of
  the answer, whether the kernel took all, some or none of them.
\<close>

theorem answers_carry_the_sequence_number:
  assumes "conns_inv s" and "get_conn s (rq_fd_data req) = Some c" and "can_ack w req err errstr data c"
    and "w_send w (n_tick s) = Sent n \<or> w_send w (n_tick s) = SendErr EAGAIN"
    and "m_io_callback_fn (n_events s)" and "c_ev_io c \<noteq> None"
  shows "\<exists>t d out. send_ack w req err errstr data s = Some (True, t) \<and> get_conn t (rq_fd_data req) = Some d
    \<and> n_trace t = n_trace s @ (if out = [] then [] else [E_out (fst (rq_fd_data req)) out])
    \<and> out @ pending (c_send_buf d) = pending (c_send_buf c) @ ack_frame w req err errstr data"
  using send_ack_sends [OF assms] by blast

definition connect_request :: request where
  "connect_request = tcp_request (7, 1) \<lparr>mh_cmd = 21, mh_seq = 9, mh_len = 1\<rparr> (req_body ''1'')"

definition watched_conn :: connection where
  "watched_conn = peer_conn\<lparr>c_ev_io := Some zero_io\<rparr>"

lemma can_ack_small:
  "can_ack small_world connect_request ERR_OK ''ok'' '''' watched_conn"
  "length (ack_frame small_world connect_request ERR_OK ''ok'' '''') \<le> 1000"
proof -
  have body: "0 < length (wire_ser_body (ack_body ERR_OK ''ok'' '''')) \<and> length (wire_ser_body (ack_body ERR_OK ''ok'' '''')) < 900"
    by code_simp
  have "length (wire_ser_head h) \<le> 15" for h by (simp add: wire_ser_head_def wire_field_length)
  then have "length (ack_frame small_world connect_request ERR_OK ''ok'' '''') \<le> 15 + length (wire_ser_body (ack_body ERR_OK ''ok'' ''''))"
    by (simp add: ack_frame_def frame_def wire_lib_def)
  then show f: "length (ack_frame small_world connect_request ERR_OK ''ok'' '''') \<le> 1000" using body by simp
  show "can_ack small_world connect_request ERR_OK ''ok'' '''' watched_conn"
    unfolding can_ack_def using body f wire_lib_ok peer_conn_simps(3)
    by (simp add: watched_conn_def use_wait_buf_def connect_request_def tcp_request_def conn_ok_def is_connected_def)
      (simp add: wire_lib_def)
qed

lemma watched_peer:
  "conns_inv (with_peer watched_conn (new_network ty))" "get_conn (with_peer watched_conn (new_network ty)) (7, 1) = Some watched_conn"
  "m_io_callback_fn (n_events (with_peer watched_conn (new_network ty)))" "c_ev_io watched_conn \<noteq> None"
  using conns_inv_peer [of watched_conn ty] by (simp_all add: watched_conn_def with_peer_def new_network_def all_events_def)

theorem answers_carry_the_sequence_number_witness:
  "let s = with_peer watched_conn (new_network NT_MANAGER)
   in \<exists>t d out. send_ack small_world connect_request ERR_OK ''ok'' '''' s = Some (True, t)
    \<and> get_conn t (rq_fd_data connect_request) = Some d
    \<and> n_trace t = n_trace s @ (if out = [] then [] else [E_out (fst (rq_fd_data connect_request)) out])
    \<and> out @ pending (c_send_buf d) = pending (c_send_buf watched_conn) @ ack_frame small_world connect_request ERR_OK ''ok'' ''''"
proof -
  let ?s = "with_peer watched_conn (new_network NT_MANAGER)"
  have c: "get_conn ?s (rq_fd_data connect_request) = Some watched_conn"
    using watched_peer(2) by (simp add: connect_request_def tcp_request_def)
  have w: "w_send small_world (n_tick ?s) = Sent 1000 \<or> w_send small_world (n_tick ?s) = SendErr EAGAIN" by simp
  show ?thesis
    unfolding Let_def by (rule answers_carry_the_sequence_number [OF watched_peer(1) c can_ack_small(1) w watched_peer(3,4)])
qed

section \<open>The handshake between workers\<close>

text \<open>
  C15. When a worker of another node asks for one of this node's workers, the manager first gives the
  answer to the kernel, behind what is still queued, then passes the descriptor to that worker over
  its data channel, and then closes its own copy, so that the connection is gone from its table. When
  the kernel does not take all bytes, the rest of the answer is lost with the connection; only an
  answer that is taken whole reaches the peer before the new owner's messages. When the channel does
  not take the descriptor, nothing is passed or closed and the message ends as an error. The
  connection is up and each call to \<open>send\<close> takes bytes or answers \<open>EAGAIN\<close>.
\<close>

theorem handshake_passes_the_descriptor:
  assumes "conns_inv s" and "is_manager s" and "get_conn s f = Some c" and "rq_fd_data req = f"
    and "mh_cmd (rq_head req) = CMD_REQ_CONNECT_TO_WORKER" and "mb_data (rq_body req) = dec_int i"
    and "1 \<le> i" and "i \<le> int (length (m_workers (n_worker_data s)))" and "i < 2 ^ 31"
    and "get_worker_data_fd (n_worker_data s) i = Some chanel"
    and "can_ack w req ERR_OK ''ok'' '''' c" and "w_send w (n_tick s) = Sent n \<or> w_send w (n_tick s) = SendErr EAGAIN"
    and "\<And>t. w_sendmsg w t = r" and "m_io_callback_fn (n_events s)" and "c_ev_io c \<noteq> None" and "fst f \<noteq> - 1"
  shows "\<exists>t out rest. out @ rest = pending (c_send_buf c) @ ack_frame w req ERR_OK ''ok'' ''''
    \<and> (w_send w (n_tick s) = Sent n \<and> length (pending (c_send_buf c) @ ack_frame w req ERR_OK ''ok'' '''') \<le> n \<longrightarrow> rest = [])
    \<and> (let answer = (if out = [] then [] else [E_out (fst f) out])
       in case r of
            Sendmsg_ok \<Rightarrow> system_msg w f req s = Some (Return_true, t) \<and> get_conn t f = None
              \<and> n_trace t = n_trace s @ answer
                  @ [E_xfer chanel \<lparr>ch_fd = fst f, ch_family = 2, ch_codec = 1, ch_is_system = 1\<rparr>, E_close (fst f)]
          | Sendmsg_err e \<Rightarrow> system_msg w f req s = Some (Go_on ST_ERROR, t) \<and> n_trace t = n_trace s @ answer
              \<and> (\<exists>d. get_conn t f = Some d \<and> pending (c_send_buf d) = rest))"
proof -
  have c: "get_conn s (rq_fd_data req) = Some c" using assms(3,4) by simp
  obtain t d out where a: "send_ack w req ERR_OK ''ok'' '''' s = Some (True, t)" "get_conn t f = Some d"
    "n_trace t = n_trace s @ (if out = [] then [] else [E_out (fst f) out])"
    "out @ pending (c_send_buf d) = pending (c_send_buf c) @ ack_frame w req ERR_OK ''ok'' ''''"
    "n_worker_data t = n_worker_data s" "fd_data d = f"
    "w_send w (n_tick s) = Sent n \<and> length (pending (c_send_buf c) @ ack_frame w req ERR_OK ''ok'' '''') \<le> n
      \<longrightarrow> pending (c_send_buf d) = []"
    using send_ack_sends [OF assms(1) c assms(11,12,14,15)] assms(4) by metis
  have num: "str_to_int (dec_int i) = Some i" using assms(7,9) by (intro stoi_dec_int) simp_all
  let ?ch = "\<lparr>ch_fd = fst f, ch_family = 2, ch_codec = 1, ch_is_system = 1\<rparr>"
  let ?t = "emit (E_xfer chanel ?ch) (tick t)" and ?u = "tick t"
  have sys: "sys_process w req s = (case r of Sendmsg_ok \<Rightarrow> Some (ST_COMPLETED, ?t) | Sendmsg_err e \<Rightarrow> Some (ST_ERROR, ?u))"
    using assms(2,4-8,10,13) num a(1,5)
    by (simp add: sys_process_def process_manager_msg_def on_req_connect_to_worker_def write_channel_def EAGAIN_def Let_def
        split: sendmsg_res.split)
  have d: "get_conn ?t f = Some d" "get_conn ?u f = Some d" using a(2) by simp_all
  have m: "map_of (n_conns ?t) (fst f) = Some d"
    using d(1) by (auto simp: get_conn_def split: option.splits if_splits)
  have fd: "c_fd d = fst f" using a(6) by (auto simp: fd_data_def)
  let ?v = "snd (close_conn (fst f) ?t)"
  have cl: "close_ptr f ?t = Some ?v" using d(1) fd by (simp add: close_ptr_def)
  have v: "n_trace ?v = n_trace ?t @ [E_close (fst f)]" "get_conn ?v f = None"
    using m assms(16) by (auto simp: close_conn_def Let_def close_fd_def emit_def get_conn_def)
  have tr: "n_trace ?t = n_trace t @ [E_xfer chanel ?ch]" "n_trace ?u = n_trace t" by (simp_all add: emit_def tick_def)
  show ?thesis
  proof (cases r)
    case Sendmsg_ok
    then have "system_msg w f req s = Some (Return_true, ?v)" using sys cl by (simp add: system_msg_def)
    then show ?thesis using Sendmsg_ok v tr(1) a(3,4,7)
      by (intro exI [of _ ?v] exI [of _ out] exI [of _ "pending (c_send_buf d)"]) (simp add: Let_def)
  next
    case (Sendmsg_err e)
    then have "system_msg w f req s = Some (Go_on ST_ERROR, ?u)" using sys by (simp add: system_msg_def)
    then show ?thesis using Sendmsg_err d(2) tr(2) a(3,4,7)
      by (intro exI [of _ ?u] exI [of _ out] exI [of _ "pending (c_send_buf d)"]) (simp add: Let_def)
  qed
qed

definition one_worker :: network where
  "one_worker = (with_peer watched_conn (new_network NT_MANAGER))
     \<lparr>n_worker_data := snd (the (add_worker_info new_worker_data 1 100 11 12))\<rparr>"

theorem handshake_passes_the_descriptor_witness:
  "\<exists>t. system_msg small_world (7, 1) connect_request one_worker = Some (Return_true, t)
    \<and> n_trace t = [E_out 7 (ack_frame small_world connect_request ERR_OK ''ok'' ''''),
        E_xfer 12 \<lparr>ch_fd = 7, ch_family = 2, ch_codec = 1, ch_is_system = 1\<rparr>, E_close 7]
    \<and> get_conn t (7, 1) = None"
proof -
  have req: "rq_fd_data connect_request = (7, 1)" "mh_cmd (rq_head connect_request) = CMD_REQ_CONNECT_TO_WORKER"
    by (simp_all add: connect_request_def tcp_request_def CMD_defs)
  have one: "mb_data (rq_body connect_request) = dec_int 1" by code_simp
  have wd: "int (length (m_workers (snd (the (add_worker_info new_worker_data 1 100 11 12))))) = 1"
    "get_worker_data_fd (snd (the (add_worker_info new_worker_data 1 100 11 12))) 1 = Some 12" by code_simp+
  have m: "is_manager one_worker" "n_trace one_worker = []" "n_worker_data one_worker = snd (the (add_worker_info new_worker_data 1 100 11 12))"
    by (simp_all add: one_worker_def with_peer_def new_network_def is_manager_def)
  have c: "conns_inv one_worker" "get_conn one_worker (7, 1) = Some watched_conn" "m_io_callback_fn (n_events one_worker)"
    using watched_peer(1-3) [of NT_MANAGER] by (simp_all add: one_worker_def conns_inv_def)
  have w: "w_send small_world t = Sent 1000" "w_sendmsg small_world t = Sendmsg_ok" for t by simp_all
  have p: "pending (c_send_buf watched_conn) = []" by (simp add: watched_conn_def)
  have ne: "ack_frame small_world connect_request ERR_OK ''ok'' '''' \<noteq> []"
    using can_ack_small(1) by (auto simp: can_ack_def ack_frame_def frame_def)
  show ?thesis
    using handshake_passes_the_descriptor [OF c(1) m(1) c(2) req one _ _ _ _ can_ack_small(1) disjI1 [OF w(1)] w(2) c(3) watched_peer(4),
      where chanel = 12] wd m p ne can_ack_small(2) by auto
qed

section \<open>Frames that kill a process\<close>

text \<open>
  C28. One frame stops a manager. Any peer that connects to the node port may ask for a worker with a text
  that is not a number: \<open>std::stoi\<close> throws and nothing catches the exception.
\<close>

theorem malformed_index_kills_the_manager:
  assumes "is_manager s" and "conns_inv s" and "get_conn s r = Some c" and "conn_ok c" and "is_connected c"
    and "c_codec c = Proto_codec" and "c_is_system c" and "c_recv_buf c = None"
    and "proto_ok (w_pb w)" and "alloc_ok (w_al w)" and "msg_ok (w_pb w) (head, body)"
    and "w_recv w (n_tick s) = Recv (frame (w_pb w) (head, body))" and "length (frame (w_pb w) (head, body)) \<le> iov_room new_buffer"
    and "mh_cmd head = CMD_REQ_CONNECT_TO_WORKER" and "str_to_int (mb_data body) = None"
  shows "process_tcp_msg w u r s = None"
proof -
  let ?fr = "frame (w_pb w) (head, body)"
  have small: "length ?fr < 2 ^ 31"
    using msg_ok_head(2) [OF assms(9,11)] assms(11) by (simp add: frame_def msg_ok_def PROTO_MSG_HEAD_LEN_def)
  have v: "\<not> is_invalid c" using assms(5) by (simp add: is_connected_def is_invalid_def)
  obtain st c1 where rd: "conn_read (w_al w) (Recv ?fr) (now w s) c = (st, c1)" by fastforce
  have "?fr \<noteq> []" using msg_ok_head(2) [OF assms(9,11)] by (auto simp: frame_def PROTO_MSG_HEAD_LEN_def)
  then have r: "st = CS_OK" "conn_ok c1" "pending (c_recv_buf c1) = ?fr" "c_fd c1 = c_fd c" "c_id c1 = c_id c"
    using conn_read_result [OF assms(4,10) v _ rd] assms(8,13) small by (simp_all add: the_buf_def)
  have keep: "c_codec c1 = c_codec c" "c_is_system c1 = c_is_system c"
    using rd by (auto simp: conn_read_def Let_def split: if_splits prod.splits)
  obtain b where b: "c_recv_buf c1 = Some b" "sb_inv b" "ToString b = ?fr @ []" "readable_len b < 2 ^ 31"
    using r(2,3) \<open>?fr \<noteq> []\<close> by (cases "c_recv_buf c1") (auto simp: conn_ok_def)
  obtain b' where b': "proto_decode (w_pb w) b empty_head empty_body = Some (CS_OK, head, body, b')"
    using decode_frame [OF assms(9) b(2) assms(11) b(3,4), of empty_head empty_body] by auto
  let ?c = "c1\<lparr>c_recv_buf := Some b'\<rparr>"
  have rp: "conn_read_proto (w_pb w) (w_al w) (Recv ?fr) (now w s) c empty_head empty_body = Some (CS_OK, head, body, ?c)"
    using rd r(1) b(1) b' keep(1) assms(6) by (simp add: conn_read_proto_def decode_proto_def)
  have "fd_data ?c = r" using get_conn_Some [OF assms(2)] assms(3) r(4,5) by (auto simp: fd_data_def)
  then have g: "get_conn (count_read c ?c (tick (put_conn ?c s))) r = Some ?c"
    using get_conn_put' [of r ?c s] by (simp add: count_read_def Let_def)
  have man: "is_manager (count_read c ?c (tick (put_conn ?c s)))"
    using assms(1) by (simp add: is_manager_def count_read_def Let_def tick_def put_conn_def)
  have "tcp_loop (Suc n) w u r CS_OK head body (count_read c ?c (tick (put_conn ?c s))) = None" for n
    using g keep(2) assms(7,14,15) man
    by (simp add: system_msg_def sys_process_def process_manager_msg_def on_req_connect_to_worker_def tcp_request_def)
  then show ?thesis
    using assms(3,12) rp by (simp add: process_tcp_msg_def Let_def del: tcp_loop.simps)
qed

definition bad_body :: msg_body where
  "bad_body = req_body ''x''"

definition bad_head :: msg_head where
  "bad_head = \<lparr>mh_cmd = 21, mh_seq = 9, mh_len = int (length (wire_ser_body bad_body))\<rparr>"

theorem malformed_index_kills_the_manager_witness:
  "process_tcp_msg (small_world\<lparr>w_recv := (\<lambda>_. Recv (frame wire_lib (bad_head, bad_body)))\<rparr>) (test_module small_world) (7, 1)
     (with_peer peer_conn (new_network NT_MANAGER)) = None"
proof -
  have body: "0 < length (wire_ser_body bad_body) \<and> length (wire_ser_body bad_body) < 900" by code_simp
  have bad: "str_to_int (mb_data bad_body) = None" by code_simp
  have ok: "msg_ok wire_lib (bad_head, bad_body)"
    using body by (simp add: msg_ok_def bad_head_def head_ok_def) (simp add: wire_lib_def)
  have "length (wire_ser_head h) \<le> 15" for h by (simp add: wire_ser_head_def wire_field_length)
  then have "length (frame wire_lib (bad_head, bad_body)) \<le> 15 + length (wire_ser_body bad_body)"
    by (simp add: frame_def wire_lib_def)
  also have "\<dots> \<le> iov_room new_buffer" using body by (simp add: iov_room_def Let_def EXTRABUF_def)
  finally have room: "length (frame wire_lib (bad_head, bad_body)) \<le> iov_room new_buffer" .
  let ?w = "small_world\<lparr>w_recv := (\<lambda>_. Recv (frame wire_lib (bad_head, bad_body)))\<rparr>"
  let ?s = "with_peer peer_conn (new_network NT_MANAGER)"
  have s: "conns_inv ?s" "get_conn ?s (7, 1) = Some peer_conn" using conns_inv_peer [of peer_conn NT_MANAGER] by simp_all
  have m: "is_manager ?s" by (simp add: is_manager_def with_peer_def new_network_def)
  show ?thesis
    by (rule malformed_index_kills_the_manager [OF m s, where head = bad_head and body = bad_body])
      (use ok room bad wire_lib_ok in \<open>simp_all add: bad_head_def CMD_defs\<close>)
qed

text \<open>
  A worker never catches up. It asks its manager for the node table and sends the version it has; the
  manager puts that version, not its own, into the answer, and the worker ignores an answer that has
  its own version: whatever the two tables hold, the worker's stays as it was.
\<close>

lemma sync_never_updates:
  assumes "m_version (n_nodes s) < 2 ^ 31" and "check_rsp req"
    and "str_to_int (dec_int (c_int (int (m_version (n_nodes s))))) = Some v"
    and "sl_parse_reg (w_sys w) (mb_data (rq_body req)) = Some (sync_answer ns (c_uint v))"
  shows "on_rsp_sync_zk_nodes w req s = Some (ST_OK, s)"
proof -
  have c: "c_int (int (m_version (n_nodes s))) = int (m_version (n_nodes s))" using assms(1) by (intro c_int_id) simp_all
  have "str_to_int (dec_int (int (m_version (n_nodes s)))) = Some (int (m_version (n_nodes s)))"
    using assms(1) by (intro stoi_dec_int) simp_all
  then have "v = int (m_version (n_nodes s))" using assms(3) c by simp
  then have "rn_version (sync_answer ns (c_uint v)) = m_version (n_nodes s)"
    using assms(1) by (simp add: sync_answer_def)
  then show ?thesis using assms(2,4) by (simp add: on_rsp_sync_zk_nodes_def)
qed

definition sync_rsp :: request where
  "sync_rsp = tcp_request (8, 1) \<lparr>mh_cmd = 46, mh_seq = 9, mh_len = 1\<rparr> (ack_body ERR_OK ''ok'' ''/kim/me'')"

text \<open>
  When the first message of a handshake cannot be sent, the process uses a connection it has just
  deleted: \<open>send_to\<close> closes the connection on a failed write, and \<open>on_io_write\<close> closes it again through
  the dangling pointer.
\<close>

lemma failed_handshake_uses_a_dead_pointer:
  assumes "conns_inv s" and "map_of (n_conns s) fd = Some c" and "is_try_connect c" and "fd \<noteq> - 1"
    and "get_node_worker_index (n_nodes s) (c_node_id c) = Some i" and "i \<noteq> - 1"
    and "\<And>t h m. fst (conn_write_proto (w_pb w) (w_al w) (w_send w t) (w_now w t) h m c) = CS_ERR"
  shows "on_io_write w fd s = None"
proof -
  let ?r = "fd_data c"
  have c: "c_fd c = fd" using conns_invD(4) [OF assms(1,2)] by blast
  then have g: "get_conn s ?r = Some c" using assms(2) by (simp add: get_conn_def fd_data_def)
  obtain q t where q: "new_seq s = (q, t)" by fastforce
  have gt: "get_conn t ?r = Some c" using q g by (auto simp: new_seq_def Let_def get_conn_def tick_def)
  have fails: "\<exists>x. send_req_conn w (Some ?r) cmd sq data t = Some (False, x) \<and> get_conn x ?r = None" for cmd sq data
  proof -
    let ?h = "\<lparr>mh_cmd = c_uint cmd, mh_seq = c_uint (int sq), mh_len = body_len w (req_body data)\<rparr>"
    obtain st out c' where wr: "conn_write_proto (w_pb w) (w_al w) (w_send w (n_tick t)) (now w t) ?h (req_body data) c = (st, out, c')"
      by (metis prod_cases3)
    then have st: "st = CS_ERR" using assms(7) [of "n_tick t" ?h "req_body data"] by (simp add: now_def)
    have k: "c_fd c' = fd" using key_id [OF key_write_proto [OF wr, of False]] c by simp
    let ?x = "put_conn (c'\<lparr>c_ev_io := del_write_event (c_ev_io c')\<rparr>)
      (if out \<noteq> [] then emit (E_out (c_fd c') out) (tick (put_conn c' t)) else tick (put_conn c' t))"
    have aw: "after_write w c st out c' t = (False, ?x)"
      unfolding after_write_def handle_write_status_def Let_def st by simp
    have "send_req_conn w (Some ?r) cmd sq data t = Some (False, snd (close_conn fd ?x))"
      using gt wr aw c by (simp add: send_req_conn_def send_to_conn_def handle_write_proto_def close_unless_def fd_data_def Let_def)
    moreover have "get_conn (snd (close_conn fd ?x)) ?r = None"
      using k c assms(4) by (simp add: close_conn_def close_fd_def put_conn_def get_conn_def fd_data_def emit_def Let_def)
    ultimately show ?thesis by blast
  qed
  obtain x where x: "send_req_conn w (Some ?r) (int CMD_REQ_CONNECT_TO_WORKER) q (dec_int i) t = Some (False, x)" "get_conn x ?r = None"
    using fails by blast
  have "send_req_connect_to_worker w ?r s = Some (False, x)"
    using g assms(5,6) q x by (simp add: send_req_connect_to_worker_def)
  then show ?thesis
    using assms(2,3) x(2)
    by (simp add: on_io_write_def is_try_connect_def is_invalid_def is_connected_def is_connecting_def close_ptr_def)
qed

text \<open>A process without memory for a send buffer, on the way to worker 2 of the node \<open>h:80\<close>.\<close>

definition starved_world :: world where
  "starved_world = small_world\<lparr>w_al := (\<lambda>_. None)\<rparr>"

definition calling_conn :: connection where
  "calling_conn = peer_conn\<lparr>c_state := S_TRY_CONNECT, c_node_id := ''h:80.2''\<rparr>"

definition calling_worker :: network where
  "calling_worker = (with_peer calling_conn (new_network NT_WORKER))\<lparr>n_nodes := (n_nodes (new_network NT_WORKER))
     \<lparr>m_nodes := [(''h:80.2'', 1)], m_heap := [(1, \<lparr>n_id = ''h:80.2'', n_type = ''logic'', n_host = ''h'', n_port = 80,
       n_worker_index = 2, n_vnodes = []\<rparr>)]\<rparr>\<rparr>"

section \<open>A command that nobody answers\<close>

text \<open>One expiry of a command of the module of the repository whose time has run out.\<close>

lemma cmd_timer_step:
  assumes "get_cmd s i = Some k" and "k_id k = i" and "k_keep_alive k \<le> now w s - k_active_time k"
    and "get_conn s (rq_fd_data (k_req k)) = Some c" and "\<not> is_invalid c"
  shows "if k_cur_timeout_cnt k + 1 < k_max_timeout_cnt k
    then \<exists>t. on_cmd_timer w (test_module w) i s =
      Some (tick (put_cmd (k\<lparr>k_cur_timeout_cnt := k_cur_timeout_cnt k + 1, k_timer := t\<rparr>) s))
    else on_cmd_timer w (test_module w) i s = Some (snd (del_cmd i s))"
  using assms by (auto simp: on_cmd_timer_def test_module_def test_cmds_def cmd_on_timeout_def Let_def)

lemma get_conn_put_cmd: "get_conn (put_cmd k s) f = get_conn s f"
  by (simp add: get_conn_def put_cmd_def)

lemma cmd_timer_again:
  assumes "get_cmd s i = Some k" and "k_id k = i" and "\<And>t. n_tick s \<le> t \<Longrightarrow> k_keep_alive k \<le> w_now w t - k_active_time k"
    and "get_conn s (rq_fd_data (k_req k)) = Some c" and "\<not> is_invalid c" and "k_cur_timeout_cnt k + 1 < k_max_timeout_cnt k"
  shows "\<exists>s' k'. on_cmd_timer w (test_module w) i s = Some s' \<and> get_cmd s' i = Some k' \<and> k_id k' = i \<and> n_tick s' = Suc (n_tick s)
    \<and> k_keep_alive k' = k_keep_alive k \<and> k_active_time k' = k_active_time k \<and> k_req k' = k_req k
    \<and> k_cur_timeout_cnt k' = k_cur_timeout_cnt k + 1 \<and> k_max_timeout_cnt k' = k_max_timeout_cnt k
    \<and> get_conn s' (rq_fd_data (k_req k')) = Some c \<and> n_trace s' = n_trace s"
proof -
  have "k_keep_alive k \<le> now w s - k_active_time k" using assms(3) by (simp add: now_def)
  from cmd_timer_step [OF assms(1,2) this assms(4,5)] obtain t where
    "on_cmd_timer w (test_module w) i s = Some (tick (put_cmd (k\<lparr>k_cur_timeout_cnt := k_cur_timeout_cnt k + 1, k_timer := t\<rparr>) s))"
    using assms(6) by auto
  then show ?thesis using assms(2,4) by (simp add: get_conn_put_cmd) (simp add: tick_def put_cmd_def get_cmd_def)
qed

text \<open>
  A command that nobody answers is deleted by the third expiry of its timer, however long the client
  stays, and the client is told nothing: no byte is sent and the connection stays open.
\<close>

lemma silent_command_is_dropped:
  assumes "get_cmd s i = Some k" and "k_id k = i" and "k_cur_timeout_cnt k = 0" and "k_max_timeout_cnt k = CMD_MAX_TIMEOUT_CNT"
    and "\<And>t. n_tick s \<le> t \<Longrightarrow> k_keep_alive k \<le> w_now w t - k_active_time k"
    and "get_conn s (rq_fd_data (k_req k)) = Some c" and "\<not> is_invalid c"
  shows "\<exists>s1 s2 s3. on_cmd_timer w (test_module w) i s = Some s1 \<and> on_cmd_timer w (test_module w) i s1 = Some s2
    \<and> on_cmd_timer w (test_module w) i s2 = Some s3 \<and> get_cmd s2 i \<noteq> None \<and> get_cmd s3 i = None
    \<and> n_trace s3 = n_trace s \<and> get_conn s3 (rq_fd_data (k_req k)) = Some c"
proof -
  have m: "k_max_timeout_cnt k = 3" using assms(4) by (simp add: CMD_MAX_TIMEOUT_CNT_def)
  obtain s1 k1 where 1: "on_cmd_timer w (test_module w) i s = Some s1" "get_cmd s1 i = Some k1" "k_id k1 = i" "n_tick s1 = Suc (n_tick s)"
    "k_keep_alive k1 = k_keep_alive k" "k_active_time k1 = k_active_time k" "k_req k1 = k_req k"
    "k_cur_timeout_cnt k1 = 1" "k_max_timeout_cnt k1 = 3" "get_conn s1 (rq_fd_data (k_req k1)) = Some c" "n_trace s1 = n_trace s"
    using cmd_timer_again [OF assms(1,2,5,6,7)] assms(3) m by auto
  have late1: "n_tick s1 \<le> t \<Longrightarrow> k_keep_alive k1 \<le> w_now w t - k_active_time k1" for t using assms(5) 1(4-6) by simp
  obtain s2 k2 where 2: "on_cmd_timer w (test_module w) i s1 = Some s2" "get_cmd s2 i = Some k2" "k_id k2 = i" "n_tick s2 = Suc (n_tick s1)"
    "k_keep_alive k2 = k_keep_alive k1" "k_active_time k2 = k_active_time k1" "k_req k2 = k_req k1"
    "k_cur_timeout_cnt k2 = 2" "k_max_timeout_cnt k2 = 3" "get_conn s2 (rq_fd_data (k_req k2)) = Some c" "n_trace s2 = n_trace s1"
    using cmd_timer_again [OF 1(2,3) late1 1(10) assms(7)] 1(8,9) by auto
  have "k_keep_alive k2 \<le> now w s2 - k_active_time k2" using late1 2(4-6) by (simp add: now_def)
  from cmd_timer_step [OF 2(2,3) this 2(10) assms(7)] 2(8,9)
  have "on_cmd_timer w (test_module w) i s2 = Some (snd (del_cmd i s2))" by simp
  moreover have "get_cmd (snd (del_cmd i s2)) i = None" "n_trace (snd (del_cmd i s2)) = n_trace s"
    "get_conn (snd (del_cmd i s2)) (rq_fd_data (k_req k)) = Some c"
    using 2 1 by (simp_all add: del_cmd_def get_cmd_def get_conn_def)
  ultimately show ?thesis using 1 2 by auto
qed

definition slow_request :: request where
  "slow_request = http_request (7, 1) (empty_http\<lparr>hm_path := ''/kim/test_timeout/''\<rparr>)"

definition slow_cmd :: cmd where
  "slow_cmd = (new_cmd small_world 2 ''CmdTestTimeout'' slow_request (new_network NT_WORKER))\<lparr>k_active_time := 50\<rparr>"

end
