(* ===== verification/Manager_Props.thy ===== *)
theory Manager_Props
  imports Manager Net_Props
begin

text \<open>
  Properties of the manager and its workers: that no worker is forgotten once it has been started,
  that a dead one comes back, what start-up leaves behind, and where the code loses a worker, closes a
  stranger's connection or crashes.
\<close>

section \<open>The table of workers and its roster\<close>

text \<open>The table without its iterator, which every change of the table resets.\<close>

definition table_ok :: "worker_data \<Rightarrow> bool" where
  "table_ok wd \<longleftrightarrow> wd_inv (wd\<lparr>m_itr_worker := 0\<rparr>)"

definition info_at :: "worker_data \<Rightarrow> nat \<Rightarrow> worker_info_t" where
  "info_at wd a = the (map_of (wd_heap wd) a)"

definition windexes :: "worker_data \<Rightarrow> int multiset" where
  "windexes wd = mset (map (\<lambda>e. wi_index (info_at wd (snd e))) (m_workers wd))"

lemma roster_identity:
  assumes "roster wd = roster wd'"
  shows "map_option identity (map_of (wd_heap wd) p) = map_option identity (map_of (wd_heap wd') p)"
proof -
  have "map_of (map (\<lambda>(p, i). (p, identity i)) (wd_heap wd)) p = map_of (map (\<lambda>(p, i). (p, identity i)) (wd_heap wd')) p"
    using assms by (simp add: roster_def)
  then show ?thesis by (simp add: map_of_map)
qed

lemma roster_keys: "roster wd = roster wd' \<Longrightarrow> ukeys (wd_heap wd) = ukeys (wd_heap wd')"
proof -
  assume "roster wd = roster wd'"
  then have "map fst (map (\<lambda>(p, i). (p, identity i)) (wd_heap wd)) = map fst (map (\<lambda>(p, i). (p, identity i)) (wd_heap wd'))"
    by (simp add: roster_def)
  then show ?thesis by (simp add: comp_def case_prod_beta)
qed

lemma table_okD:
  assumes "table_ok wd"
  shows "distinct (ukeys (m_workers wd))" and "distinct (ukeys (m_index_workers wd))" and "distinct (ukeys (wd_heap wd))"
    and "map_of (m_workers wd) pid = Some p \<Longrightarrow> \<exists>i. map_of (wd_heap wd) p = Some i \<and> wi_pid i = pid"
    and "map_of (wd_heap wd) p = Some i \<Longrightarrow> map_of (m_workers wd) (wi_pid i) = Some p"
    and "map_of (m_index_workers wd) j = Some p \<Longrightarrow> \<exists>i. map_of (wd_heap wd) p = Some i \<and> wi_index i = j"
  using wd_inv_distinct [OF assms [unfolded table_ok_def]] wd_inv_worker [OF assms [unfolded table_ok_def], of pid p]
    wd_inv_cell [OF assms [unfolded table_ok_def], of p i] wd_inv_index [OF assms [unfolded table_ok_def], of j p]
  by (simp_all del: map_of_eq_Some_iff) metis+

lemma table_ok_roster:
  assumes ok: "table_ok wd" and r: "roster wd = roster wd'"
  shows "table_ok wd'"
  unfolding table_ok_def
proof (rule wd_invI, simp_all del: map_of_eq_Some_iff)
  note id = roster_identity [OF r]
  have m: "m_workers wd' = m_workers wd" "m_index_workers wd' = m_index_workers wd" using r by (simp_all add: roster_def)
  have cell: "\<exists>i'. map_of (wd_heap wd') p = Some i' \<and> identity i' = identity i" if "map_of (wd_heap wd) p = Some i" for p i
    using id [of p] that by (cases "map_of (wd_heap wd') p") simp_all
  have cell': "\<exists>i'. map_of (wd_heap wd) p = Some i' \<and> identity i' = identity i" if "map_of (wd_heap wd') p = Some i" for p i
    using id [of p] that by (cases "map_of (wd_heap wd) p") simp_all
  show "distinct (ukeys (m_workers wd'))" "distinct (ukeys (m_index_workers wd'))" "distinct (ukeys (wd_heap wd'))"
    using table_okD(1-3) [OF ok] m roster_keys [OF r] by simp_all
  show "\<exists>w. map_of (wd_heap wd') p = Some w \<and> wi_pid w = pid" if "map_of (m_workers wd') pid = Some p" for pid p
    using table_okD(4) [OF ok] that m cell by (metis identity_def prod.inject)
  show "map_of (m_workers wd') (wi_pid w) = Some p" if "map_of (wd_heap wd') p = Some w" for p w
    using table_okD(5) [OF ok] that m cell' by (metis identity_def prod.inject)
  show "\<exists>w. map_of (wd_heap wd') p = Some w \<and> wi_index w = j" if "map_of (m_index_workers wd') j = Some p" for j p
    using table_okD(6) [OF ok] that m cell by (metis identity_def prod.inject)
qed

lemma windexes_roster:
  assumes "table_ok wd" and "roster wd = roster wd'"
  shows "windexes wd = windexes wd'"
proof -
  have "wi_index (info_at wd (snd e)) = wi_index (info_at wd' (snd e))" if "e \<in> set (m_workers wd)" for e
  proof -
    have "map_of (m_workers wd) (fst e) = Some (snd e)" using that table_okD(1) [OF assms(1)] by simp
    then obtain i where i: "map_of (wd_heap wd) (snd e) = Some i" using table_okD(4) [OF assms(1)] by blast
    then obtain i' where "map_of (wd_heap wd') (snd e) = Some i'" "identity i' = identity i"
      using roster_identity [OF assms(2), of "snd e"] by (cases "map_of (wd_heap wd') (snd e)") simp_all
    then show ?thesis using i by (simp add: info_at_def identity_def del: map_of_eq_Some_iff)
  qed
  then show ?thesis using assms(2) by (simp add: windexes_def roster_def cong: map_cong)
qed

text \<open>What adding and removing a process does to the indexes.\<close>

lemma mset_delete:
  "distinct (ukeys m) \<Longrightarrow> map_of m k = Some v \<Longrightarrow> mset m = add_mset (k, v) (mset (uerase m k))"
proof (induction m)
  case (Cons e m)
  obtain k' v' where e: "e = (k', v')" by (cases e)
  show ?case
  proof (cases "k' = k")
    case True
    have "k \<notin> fst ` set m" using Cons.prems(1) e True by simp
    then have "filter (\<lambda>(k', _). k \<noteq> k') m = m" by (intro filter_True) force
    then have "uerase m k = m" by (simp only: AList.delete_eq)
    then show ?thesis using Cons.prems(2) e True by simp
  next
    case False
    then show ?thesis using Cons e by (simp del: map_of_eq_Some_iff)
  qed
qed simp

lemma update_fresh: "k \<notin> fst ` set m \<Longrightarrow> uset m k v = m @ [(k, v)]"
  by (induction m) auto

lemma update_last: "k \<notin> fst ` set m \<Longrightarrow> uset (m @ [(k, c)]) k v = m @ [(k, v)]"
  by (induction m) auto

lemma del_worker_windexes:
  assumes ok: "table_ok wd" and p: "map_of (m_workers wd) pid = Some a" and i: "map_of (wd_heap wd) a = Some i"
  shows "\<exists>wd'. del_worker_info wd pid = Some (True, wd') \<and> table_ok wd' \<and> windexes wd = add_mset (wi_index i) (windexes wd')
    \<and> ukeys (m_workers wd') = filter (\<lambda>q. pid \<noteq> q) (ukeys (m_workers wd))"
proof -
  let ?z = "wd\<lparr>m_itr_worker := 0\<rparr>"
  obtain wd' where d: "del_worker_info ?z pid = Some (True, wd')" "wd_inv wd'"
    using del_worker_info_keeps [OF ok [unfolded table_ok_def], of pid] p i
    by (auto simp: del_worker_info_def simp del: map_of_eq_Some_iff)
  have wd': "wd' = wd\<lparr>m_index_workers := uerase (m_index_workers wd) (wi_index i), m_workers := uerase (m_workers wd) pid,
      m_itr_worker := 0, wd_heap := uerase (wd_heap wd) a\<rparr>"
    using d(1) p i by (simp add: del_worker_info_def del: map_of_eq_Some_iff)
  have eq: "del_worker_info wd pid = Some (True, wd')" using d(1) p i by (simp add: del_worker_info_def del: map_of_eq_Some_iff)
  have "wd'\<lparr>m_itr_worker := 0\<rparr> = wd'" by (simp add: wd')
  then have tok: "table_ok wd'" using d(2) by (simp add: table_ok_def)
  have same: "info_at wd' (snd e) = info_at wd (snd e)" if "e \<in> set (uerase (m_workers wd) pid)" for e
  proof -
    have e: "fst e \<noteq> pid" "map_of (m_workers wd) (fst e) = Some (snd e)"
      using that table_okD(1) [OF ok] by (auto simp: AList.delete_eq)
    obtain j where j: "map_of (wd_heap wd) (snd e) = Some j" "wi_pid j = fst e" using table_okD(4) [OF ok e(2)] by blast
    have "wi_pid i = pid" using table_okD(4) [OF ok p] i by auto
    then have "snd e \<noteq> a" using e(1) i j by auto
    then show ?thesis by (simp add: wd' info_at_def del: map_of_eq_Some_iff)
  qed
  have "windexes wd = image_mset (\<lambda>e. wi_index (info_at wd (snd e))) (add_mset (pid, a) (mset (uerase (m_workers wd) pid)))"
    using mset_delete [OF table_okD(1) [OF ok] p] by (simp add: windexes_def)
  also have "\<dots> = add_mset (wi_index i) (image_mset (\<lambda>e. wi_index (info_at wd (snd e))) (mset (uerase (m_workers wd) pid)))"
    using i by (simp add: info_at_def del: map_of_eq_Some_iff)
  also have "image_mset (\<lambda>e. wi_index (info_at wd (snd e))) (mset (uerase (m_workers wd) pid)) = windexes wd'"
  proof -
    have "image_mset (\<lambda>e. wi_index (info_at wd (snd e))) (mset (uerase (m_workers wd) pid))
        = image_mset (\<lambda>e. wi_index (info_at wd' (snd e))) (mset (uerase (m_workers wd) pid))"
      by (rule image_mset_cong) (simp add: same)
    also have "m_workers wd' = uerase (m_workers wd) pid" by (simp add: wd')
    then have "image_mset (\<lambda>e. wi_index (info_at wd' (snd e))) (mset (uerase (m_workers wd) pid)) = windexes wd'"
      by (simp add: windexes_def)
    finally show ?thesis .
  qed
  finally show ?thesis using eq tok by (simp add: wd' AList.delete_eq filter_map comp_def case_prod_unfold)
qed

lemma add_worker_windexes:
  assumes ok: "table_ok wd" and fresh: "map_of (m_workers wd) pid = None"
  shows "\<exists>wd'. add_worker_info wd i pid c d = Some (True, wd') \<and> table_ok wd' \<and> windexes wd' = add_mset i (windexes wd)
    \<and> ukeys (m_workers wd') = ukeys (m_workers wd) @ [pid]"
proof -
  let ?z = "wd\<lparr>m_itr_worker := 0\<rparr>" and ?a = "fresh_addr (wd_heap wd)"
  let ?i = "\<lparr>wi_pid = pid, wi_index = i, wi_ctrl_fd = c, wi_data_fd = d, wi_payload = empty_payload\<rparr>"
  obtain wd' where d: "add_worker_info ?z i pid c d = Some (True, wd')" "wd_inv wd'"
    using add_worker_info_keeps [OF ok [unfolded table_ok_def], of i pid c d] by blast
  have wd': "wd' = wd\<lparr>wd_heap := uset (wd_heap wd) ?a ?i, m_workers := uset (m_workers wd) pid ?a, m_itr_worker := 0,
      m_index_workers := uset (m_index_workers wd) i ?a\<rparr>"
    using d(1) fresh by (simp add: add_worker_info_def Let_def)
  have eq: "add_worker_info wd i pid c d = Some (True, wd')" using d(1) fresh by (simp add: add_worker_info_def Let_def)
  have "wd'\<lparr>m_itr_worker := 0\<rparr> = wd'" by (simp add: wd')
  then have tok: "table_ok wd'" using d(2) by (simp add: table_ok_def)
  have new: "uset (m_workers wd) pid ?a = m_workers wd @ [(pid, ?a)]"
    using fresh by (intro update_fresh) (simp add: map_of_eq_None_iff)
  have same: "info_at wd' (snd e) = info_at wd (snd e)" if "e \<in> set (m_workers wd)" for e
  proof -
    have e: "map_of (m_workers wd) (fst e) = Some (snd e)" using that table_okD(1) [OF ok] by simp
    obtain j where j: "map_of (wd_heap wd) (snd e) = Some j" using table_okD(4) [OF ok e] by blast
    then have "snd e \<noteq> ?a" using fresh_addr_free [of "wd_heap wd"] by auto
    then show ?thesis by (simp add: wd' info_at_def del: map_of_eq_Some_iff)
  qed
  have "windexes wd' = add_mset i (windexes wd)"
    using same new by (simp add: windexes_def wd' info_at_def cong: map_cong)
  then show ?thesis using eq tok new by (simp add: wd')
qed

section \<open>No worker is forgotten\<close>

text \<open>What the kernel documents: \<open>fork\<close> does not return the number of a process that has not been reaped.\<close>

definition fork_fresh :: "proc_env \<Rightarrow> bool" where
  "fork_fresh p \<longleftrightarrow> (\<forall>t ps. pe_fork p t ps \<notin> set ps)"

text \<open>What the operations of the network leave alone: the roster and the callbacks.\<close>

definition same_workers :: "network \<Rightarrow> network \<Rightarrow> bool" where
  "same_workers s s' \<longleftrightarrow> roster (n_worker_data s') = roster (n_worker_data s) \<and> n_events s' = n_events s"

lemma evolves_same_workers: "evolves b s s' \<Longrightarrow> same_workers s s'"
  by (simp add: evolves_def same_workers_def)

lemma same_workers_pids: "same_workers s s' \<Longrightarrow> worker_pids s' = worker_pids s"
  by (simp add: same_workers_def roster_def worker_pids_def)

lemma same_workers_table:
  assumes "same_workers s s'" and "table_ok (n_worker_data s)"
  shows "table_ok (n_worker_data s')" and "windexes (n_worker_data s') = windexes (n_worker_data s)"
proof -
  have r: "roster (n_worker_data s) = roster (n_worker_data s')" using assms(1) by (simp add: same_workers_def)
  show "table_ok (n_worker_data s')" by (rule table_ok_roster [OF assms(2) r])
  show "windexes (n_worker_data s') = windexes (n_worker_data s)" by (rule windexes_roster [OF assms(2) r, symmetric])
qed

text \<open>\<open>adds i ok s s'\<close>: the worker with index \<open>i\<close> is in the table, if \<open>ok\<close>, and nothing else has changed in it.\<close>

definition adds :: "int \<Rightarrow> bool \<Rightarrow> network \<Rightarrow> network \<Rightarrow> bool" where
  "adds i ok s s' \<longleftrightarrow> table_ok (n_worker_data s') \<and> n_events s' = n_events s
     \<and> windexes (n_worker_data s') = (if ok then add_mset i (windexes (n_worker_data s)) else windexes (n_worker_data s))"

lemma adopt_worker_adds:
  assumes ok: "table_ok (n_worker_data s)" and fresh: "pid \<notin> set (worker_pids s)"
    and a: "adopt_worker w i pid cfds dfds s = Some (res, s')"
  shows "adds i res s s'"
proof -
  let ?s1 = "close_fd (snd dfds) (close_fd (snd cfds) s)"
  obtain c s2 where c: "net_add_read_event w (fst cfds) CT_PROTOBUF True ?s1 = (c, s2)" by fastforce
  obtain d s3 where d: "(if c = None then (None, s2) else net_add_read_event w (fst dfds) CT_PROTOBUF True s2) = (d, s3)" by fastforce
  have 1: "evolves False s s2"
    by (rule evolves_net_add_read_event [OF _ c]) (simp add: evolves_close_fd)
  have 3: "evolves False s s3" using 1 d evolves_net_add_read_event [OF 1] by (auto split: if_splits)
  show ?thesis
  proof (cases "c = None \<or> d = None")
    case True
    then have "s' = emit (E_kill pid) (snd (close_conn (fst dfds) (snd (close_conn (fst cfds) s3))))" "\<not> res"
      using a c d by (auto simp: adopt_worker_def Let_def)
    then have "evolves False s s'" using 3 by (simp add: evolves_emit evolves_close_conn)
    note sw = evolves_same_workers [OF this]
    show ?thesis using same_workers_table [OF sw ok] sw \<open>\<not> res\<close> by (simp add: adds_def same_workers_def)
  next
    case False
    note sw = evolves_same_workers [OF 3]
    note t3 = same_workers_table [OF sw ok]
    have "map_of (m_workers (n_worker_data s3)) pid = None"
      using fresh same_workers_pids [OF sw] unfolding worker_pids_def by (metis map_of_eq_None_iff set_map)
    from add_worker_windexes [OF t3(1) this, of i "fst cfds" "fst dfds"] obtain wd where
      wd: "add_worker_info (n_worker_data s3) i pid (fst cfds) (fst dfds) = Some (True, wd)" "table_ok wd"
        "windexes wd = add_mset i (windexes (n_worker_data s3))" by blast
    have "res" "s' = s3\<lparr>n_worker_data := wd\<rparr>" using a c d False wd(1) by (auto simp: adopt_worker_def Let_def)
    then show ?thesis using wd t3 sw by (simp add: adds_def same_workers_def)
  qed
qed

lemma create_worker_net_adds:
  assumes ok: "table_ok (n_worker_data s)" and fork: "fork_fresh p"
    and a: "create_worker_net w p i s = Some (res, s')"
  shows "adds i res s s'"
proof -
  have same: "adds i False s u" if "evolves False s u" for u
    using same_workers_table [OF evolves_same_workers [OF that] ok] evolves_same_workers [OF that] by (simp add: adds_def same_workers_def)
  note ev = evolves_tick evolves_close_fd evolves_refl
  show ?thesis
  proof (cases "pe_socketpair p (n_tick s)")
    case None
    then show ?thesis using a same by (auto simp: create_worker_net_def ev)
  next
    case (Some cfds)
    show ?thesis
    proof (cases "pe_socketpair p (n_tick (tick s))")
      case None
      then show ?thesis using a Some same by (auto simp: create_worker_net_def Let_def close_chanel_def ev)
    next
      case D: (Some dfds)
      let ?s = "tick (tick s)" and ?t = "tick (tick (tick s))"
      let ?pid = "pe_fork p (n_tick ?s) (worker_pids ?s)"
      have t: "evolves False s ?t" by (simp add: ev)
      note sw = evolves_same_workers [OF t]
      show ?thesis
      proof (cases "?pid > 0")
        case True
        have w: "adopt_worker w i ?pid cfds dfds ?t = Some (res, s')"
          using a Some D True by (simp add: create_worker_net_def Let_def)
        have "worker_pids ?s = worker_pids ?t" by (simp add: worker_pids_def tick_def)
        then have "?pid \<notin> set (worker_pids ?t)" using fork unfolding fork_fresh_def by metis
        from adopt_worker_adds [OF same_workers_table(1) [OF sw ok] this w] show ?thesis
          using same_workers_table(2) [OF sw ok] sw by (simp add: adds_def same_workers_def)
      next
        case False
        then have "res = False" "s' = close_chanel cfds (close_chanel dfds ?t)"
          using a Some D by (simp_all add: create_worker_net_def Let_def)
        then show ?thesis using same t by (simp add: close_chanel_def ev)
      qed
    qed
  qed
qed

text \<open>
  The indexes the manager takes care of: those of the workers in its table, and those in the list of
  workers to be restarted.
\<close>

definition wpool :: "manager \<Rightarrow> int multiset" where
  "wpool m = (case mg_net m of None \<Rightarrow> {#} | Some s \<Rightarrow> windexes (n_worker_data s)) + mset (mg_restart_workers m)"

definition mgr_ok :: "manager \<Rightarrow> bool" where
  "mgr_ok m \<longleftrightarrow> (\<exists>s. mg_net m = Some s \<and> table_ok (n_worker_data s))"

lemma create_worker_pool:
  assumes "mgr_ok m" and "fork_fresh p" and "create_worker w p i m = Some (ok, m')"
  shows "mgr_ok m'" and "wpool m' = (if ok then add_mset i (wpool m) else wpool m)"
    and "mg_restart_workers m' = mg_restart_workers m"
proof -
  obtain s s' where s: "mg_net m = Some s" "create_worker_net w p i s = Some (ok, s')" "m' = with_net m s'"
    using assms(3) by (auto simp: create_worker_def split: bind_splits)
  then have "adds i ok s s'" using create_worker_net_adds assms(1,2) by (auto simp: mgr_ok_def)
  then show "mgr_ok m'" "wpool m' = (if ok then add_mset i (wpool m) else wpool m)"
    "mg_restart_workers m' = mg_restart_workers m"
    using s by (auto simp: adds_def mgr_ok_def wpool_def with_net_def)
qed

lemma restart_loop_pool:
  assumes "fork_fresh p"
  shows "mgr_ok m \<Longrightarrow> restart_loop w p is m = Some (rest, m') \<Longrightarrow>
    mgr_ok m' \<and> mg_restart_workers m' = mg_restart_workers m \<and> wpool m' + mset rest = wpool m + mset is"
proof (induction "is" arbitrary: m rest)
  case (Cons i "is")
  obtain ok m1 r where c: "create_worker w p i m = Some (ok, m1)" "restart_loop w p is m1 = Some (r, m')"
    "rest = (if ok then r else i # r)"
    using Cons.prems(2) by (auto split: bind_splits)
  note p1 = create_worker_pool [OF Cons.prems(1) assms c(1)]
  from Cons.IH [OF p1(1) c(2)] show ?case using p1 c(3) by (auto simp: ac_simps)
qed simp

lemma restart_workers_pool:
  assumes "mgr_ok m" and "fork_fresh p" and "restart_workers w p m = Some m'"
  shows "mgr_ok m' \<and> wpool m' = wpool m"
proof -
  obtain rest m1 where r: "restart_loop w p (mg_restart_workers m) m = Some (rest, m1)" "m' = m1\<lparr>mg_restart_workers := rest\<rparr>"
    using assms(3) by (auto simp: restart_workers_def)
  from restart_loop_pool [OF assms(2,1) r(1)] have
    l: "mgr_ok m1" "mg_restart_workers m1 = mg_restart_workers m" "wpool m1 + mset rest = wpool m + mset (mg_restart_workers m)"
    by auto
  obtain s where s: "mg_net m1 = Some s" using l(1) by (auto simp: mgr_ok_def)
  have "windexes (n_worker_data s) + mset rest + mset (mg_restart_workers m) = wpool m + mset (mg_restart_workers m)"
    using l s by (simp add: wpool_def ac_simps)
  then have "windexes (n_worker_data s) + mset rest = wpool m" by simp
  then show ?thesis using l(1) s r(2) by (simp add: wpool_def mgr_ok_def)
qed

text \<open>A dead process moves from the table to the list.\<close>

lemma restart_worker_pool:
  assumes "mgr_ok m" and "- 1 \<notin># wpool m" and "restart_worker pid m = Some (ok, m')"
  shows "mgr_ok m' \<and> wpool m' = wpool m"
proof -
  obtain s where s: "mg_net m = Some s" "table_ok (n_worker_data s)" using assms(1) by (auto simp: mgr_ok_def)
  let ?wd = "n_worker_data s"
  obtain chs where chs: "get_worker_chanel ?wd pid = Some chs" using assms(3) s(1) by (auto simp: restart_worker_def split: bind_splits)
  let ?t = "case chs of None \<Rightarrow> s | Some (c, d) \<Rightarrow> snd (close_conn d (snd (close_conn c s)))"
  have "n_worker_data ?t = ?wd" by (auto simp: close_conn_def close_fd_def emit_def Let_def split: option.splits)
  then have t: "n_worker_data ?t = ?wd" .
  show ?thesis
  proof (cases "map_of (m_workers ?wd) pid")
    case None
    then have "m' = with_net m ?t" using assms(3) s(1) chs t by (simp add: restart_worker_def get_worker_index_def)
    then show ?thesis using s t by (simp add: mgr_ok_def wpool_def with_net_def)
  next
    case (Some a)
    obtain i where i: "map_of (wd_heap ?wd) a = Some i" using table_okD(4) [OF s(2) Some] by blast
    obtain wd' where d: "del_worker_info ?wd pid = Some (True, wd')" "table_ok wd'"
      "windexes ?wd = add_mset (wi_index i) (windexes wd')"
      using del_worker_windexes [OF s(2) Some i] by blast
    have "wi_index i \<noteq> - 1" using assms(2) d(3) s(1) by (auto simp: wpool_def)
    then have "m' = (with_net m (?t\<lparr>n_worker_data := wd'\<rparr>))\<lparr>mg_restart_workers := mg_restart_workers m @ [wi_index i]\<rparr>"
      using assms(3) s(1) chs t d(1) Some i by (simp add: restart_worker_def get_worker_index_def del: map_of_eq_Some_iff)
    then show ?thesis using s d by (simp add: mgr_ok_def wpool_def with_net_def)
  qed
qed

lemma on_child_pool:
  "mgr_ok m \<Longrightarrow> - 1 \<notin># wpool m \<Longrightarrow> mgr_on_child_terminated pids m = Some m' \<Longrightarrow> mgr_ok m' \<and> wpool m' = wpool m"
proof (induction pids arbitrary: m)
  case (Cons pid pids)
  obtain ok m1 where m1: "restart_worker pid m = Some (ok, m1)" "mgr_on_child_terminated pids m1 = Some m'"
    using Cons.prems(3) by (auto split: bind_splits)
  have "mgr_ok m1 \<and> wpool m1 = wpool m" by (rule restart_worker_pool [OF Cons.prems(1,2) m1(1)])
  then show ?case using Cons.IH [OF _ _ m1(2)] Cons.prems(2) by simp
qed simp

lemma check_chanels_workers:
  "check_chanels infos s = Some s' \<Longrightarrow> n_worker_data s' = n_worker_data s \<and> n_events s' = n_events s \<and> n_conns s' = n_conns s"
  by (induction infos s rule: check_chanels.induct) (auto simp: emit_def split: bind_splits if_splits)

lemma with_net_pool:
  "mg_net m = Some s \<Longrightarrow> table_ok (n_worker_data s) \<Longrightarrow> same_workers s s' \<Longrightarrow> mgr_ok (with_net m s') \<and> wpool (with_net m s') = wpool m"
  using same_workers_table [of s s'] by (simp add: mgr_ok_def wpool_def with_net_def)

lemma on_repeat_pool:
  assumes ok: "mgr_ok m" and fork: "fork_fresh p" and t: "mgr_on_repeat_timer w p m = Some m'"
  shows "mgr_ok m' \<and> wpool m' = wpool m"
proof -
  obtain s where s: "mg_net m = Some s" "table_ok (n_worker_data s)" using ok by (auto simp: mgr_ok_def)
  obtain s1 m2 where r: "on_repeat_timer w s = Some s1" "restart_workers w p (with_net m s1) = Some m2"
    "(case mg_net m2 of None \<Rightarrow> Some m2 | Some s \<Rightarrow> map_option (with_net m2) (check_chanels (m_workers (n_worker_data s)) s)) = Some m'"
    using t s by (auto simp: mgr_on_repeat_timer_def split: bind_splits)
  have 1: "mgr_ok (with_net m s1) \<and> wpool (with_net m s1) = wpool m"
    by (rule with_net_pool [OF s evolves_same_workers [OF evolves_on_repeat [OF evolves_refl r(1)]]])
  then have 2: "mgr_ok m2 \<and> wpool m2 = wpool m" using restart_workers_pool [OF _ fork r(2)] by simp
  then obtain s2 where s2: "mg_net m2 = Some s2" "table_ok (n_worker_data s2)" by (auto simp: mgr_ok_def)
  then obtain s3 where s3: "check_chanels (m_workers (n_worker_data s2)) s2 = Some s3" "m' = with_net m2 s3" using r(3) by auto
  have "same_workers s2 s3" using check_chanels_workers [OF s3(1)] by (simp add: same_workers_def)
  from with_net_pool [OF s2 this] show ?thesis using 2 s3(2) by simp
qed

lemma mgr_step_pool:
  assumes u: "module_code u" and fork: "fork_fresh p" and st: "mgr_step w p u m m'"
    and ok: "mgr_ok m" and pos: "- 1 \<notin># wpool m"
  shows "mgr_ok m' \<and> wpool m' = wpool m"
  using st
proof cases
  case (mgr_net t0 s')
  obtain t where t: "mg_net m = Some t" "table_ok (n_worker_data t)" using ok by (auto simp: mgr_ok_def)
  have "same_workers t s'" using evolves_same_workers [OF module_code.net_step_evolves [OF u mgr_net(3)]] mgr_net(2) t(1) by simp
  from with_net_pool [OF t this] show ?thesis using mgr_net(1) by simp
next
  case mgr_timer
  then show ?thesis by (rule on_repeat_pool [OF ok fork])
next
  case (mgr_child pids)
  then have "mgr_on_child_terminated pids m = Some m'" by (auto simp: mgr_on_signal_def)
  then show ?thesis by (rule on_child_pool [OF ok pos])
qed

lemma mgr_runs_pool:
  assumes u: "module_code u" and fork: "fork_fresh p" and run: "(mgr_step w p u)\<^sup>*\<^sup>* m m'"
    and ok: "mgr_ok m" and pos: "- 1 \<notin># wpool m"
  shows "mgr_ok m' \<and> wpool m' = wpool m"
  using run
proof (induction rule: rtranclp_induct)
  case (step y z)
  then show ?case using mgr_step_pool [OF u fork step.hyps(2)] pos by simp
qed (simp add: ok)

section \<open>Properties\<close>

text \<open>
  C5. The manager never loses a worker that it has started. Along every run, whatever its connections do,
  whichever processes die and whichever calls of \<open>socketpair\<close>, \<open>fork\<close> or the registration of a descriptor
  fail, the worker indexes in its table together with those waiting to be restarted are the same
  multiset, and the table and its two indexes stay consistent.
\<close>

theorem workers_are_accounted:
  assumes "module_code u" and "fork_fresh p" and "mgr_ok m" and "- 1 \<notin># wpool m" and "(mgr_step w p u)\<^sup>*\<^sup>* m m'"
  shows "mgr_ok m' \<and> wpool m' = wpool m"
  by (rule mgr_runs_pool [OF assms(1,2,5,3,4)])

text \<open>A manager with two workers and a system in which everything succeeds.\<close>

definition plain_conf :: server_conf where
  "plain_conf = \<lparr>sc_text = ''{}'', sc_server_name = ''kim'', sc_worker_cnt = ''2'', sc_node_type = ''gate'', sc_node_host = ''::'',
     sc_node_port = ''7000'', sc_gate_host = '''', sc_gate_port = '''', sc_gate_codec = ''http'', sc_keep_alive = None,
     sc_log_path = ''log'', sc_log_level = ''debug'', sc_modules = [], sc_database = [], sc_redis = [], sc_zk = toy_conf\<rparr>"

definition plain_env :: proc_env where
  "plain_env = \<lparr>pe_setup = \<lparr>su_loop = True, su_kernel = test_kernel [], su_dl = \<lparr>dl_access = (\<lambda>_. False), dl_open = (\<lambda>_. None),
       dl_create = (\<lambda>_. False)\<rparr>, su_work_path = ''/''\<rparr>,
     pe_getcwd = Some ''/'', pe_load = (\<lambda>_. Some plain_conf), pe_fopen = (\<lambda>_. True), pe_getpid = 99,
     pe_socketpair = (\<lambda>t. Some (20 + 2 * int t, 21 + 2 * int t)),
     pe_fork = (\<lambda>t ps. if ps = [] then 500 else 1 + Max (insert 500 (set ps)))\<rparr>"

lemma plain_fork: "fork_fresh plain_env"
  unfolding fork_fresh_def
proof (intro allI notI)
  fix t ps assume m: "pe_fork plain_env t ps \<in> set ps"
  then have "1 + Max (insert 500 (set ps)) \<in> insert 500 (set ps)" by (auto simp: plain_env_def split: if_splits)
  then have "1 + Max (insert 500 (set ps)) \<le> Max (insert 500 (set ps))" by (intro Max_ge) auto
  then show False by simp
qed

definition pair_manager :: manager where
  "pair_manager = with_net new_manager ((new_network NT_MANAGER)\<lparr>n_worker_data := two_workers\<rparr>)"

lemma pair_manager_ok: "mgr_ok pair_manager" "wpool pair_manager = {#1, 2#}"
proof -
  have "two_workers\<lparr>m_itr_worker := 0\<rparr> = two_workers" by (simp add: two_workers_eq)
  then have "table_ok two_workers" using two_workers_inv by (simp add: table_ok_def)
  then show "mgr_ok pair_manager" by (simp add: mgr_ok_def pair_manager_def with_net_def)
  show "wpool pair_manager = {#1, 2#}"
    by (simp add: wpool_def pair_manager_def with_net_def new_manager_def windexes_def two_workers_eq info_at_def)
qed

lemma worker_100_dies:
  "\<exists>m. mgr_on_signal SIGCHLD [100] pair_manager = Some (Inr m) \<and> mg_restart_workers m = [1]"
  by (simp add: mgr_on_signal_def restart_worker_def pair_manager_def with_net_def new_manager_def new_network_def two_workers_eq
      get_worker_chanel_def get_worker_index_def del_worker_info_def close_conn_def)

theorem workers_are_accounted_witness:
  "\<exists>m. mg_restart_workers m = [1] \<and> (mgr_step small_world plain_env (test_module small_world))\<^sup>*\<^sup>* pair_manager m
     \<and> wpool m = {#1, 2#}"
proof -
  obtain m where m: "mgr_on_signal SIGCHLD [100] pair_manager = Some (Inr m)" "mg_restart_workers m = [1]"
    using worker_100_dies by blast
  have run: "(mgr_step small_world plain_env (test_module small_world))\<^sup>*\<^sup>* pair_manager m"
    by (rule r_into_rtranclp) (rule mgr_step.mgr_child [OF m(1)])
  have "- 1 \<notin># wpool pair_manager" by (simp add: pair_manager_ok)
  from workers_are_accounted [OF test_mod.module_code_axioms plain_fork pair_manager_ok(1) this run]
  show ?thesis using m(2) run pair_manager_ok(2) by auto
qed

text \<open>
  A worker that cannot be created when the manager starts is lost: \<open>create_workers\<close> only logs it, and in no
  state the manager ever reaches is its index in the table or in the list of workers to be restarted.
\<close>

lemma failed_start_loses_the_worker:
  assumes "module_code u" and "fork_fresh p" and "mgr_ok m" and "- 1 \<notin># wpool m"
    and "create_worker w p i m = Some (False, m1)" and "i \<notin># wpool m" and "(mgr_step w p u)\<^sup>*\<^sup>* m1 m'"
  shows "i \<notin># wpool m'"
proof -
  note c = create_worker_pool [OF assms(3,2,5)]
  show ?thesis using mgr_runs_pool [OF assms(1,2,7) c(1)] c(2) assms(4,6) by simp
qed

definition no_fork_env :: proc_env where
  "no_fork_env = plain_env\<lparr>pe_fork := (\<lambda>_ ps. if - 1 \<in> set ps then 1 + Max (set ps) else - 1)\<rparr>"

lemma no_fork_fresh: "fork_fresh no_fork_env"
  unfolding fork_fresh_def
proof (intro allI notI)
  fix t ps assume m: "pe_fork no_fork_env t ps \<in> set ps"
  then have "1 + Max (set ps) \<in> set ps" by (auto simp: no_fork_env_def split: if_splits)
  then have "1 + Max (set ps) \<le> Max (set ps)" by (intro Max_ge) auto
  then show False by simp
qed

section \<open>A dead worker comes back\<close>

text \<open>A system that gives what it is asked for.\<close>

definition kernel_grants :: "world \<Rightarrow> proc_env \<Rightarrow> bool" where
  "kernel_grants w p \<longleftrightarrow> (\<forall>t. w_sockopt w t \<and> w_mem w t \<and> pe_socketpair p t \<noteq> None) \<and> (\<forall>t ps. 0 < pe_fork p t ps)"

lemma add_read_granted:
  assumes "\<forall>t. w_sockopt w t \<and> w_mem w t" and "m_io_callback_fn (n_events s)"
  shows "\<exists>r s'. net_add_read_event w fd ty sys s = (Some r, s') \<and> n_events s' = n_events s"
proof -
  define t where "t = (if sys then tick s else tick (tick (tick s)))"
  obtain r v where r: "create_conn w fd t = (r, v)" by fastforce
  obtain q c where c: "get_conn v r = Some c" using create_conn_result [OF r] by blast
  have ev: "n_events v = n_events s"
    using evolves_create_conn [OF evolves_refl r] by (simp add: evolves_def t_def tick_def)
  let ?io = "c_ev_io (snd (conn_init ty (now w v) c))"
  have "add_read_event (n_events v) (w_mem w (n_tick v)) fd ?io \<noteq> None"
    using assms ev by (cases ?io) (simp_all add: add_read_event_def alloc_io_def)
  then obtain io where "add_read_event (n_events v) (w_mem w (n_tick v)) fd ?io = Some io" by blast
  then have "\<exists>r' s'. net_add_read_event w fd ty sys s = (Some r', s')"
    using assms(1) r c by (simp add: net_add_read_event_def Let_def t_def split: if_splits)
  then obtain r' s' where "net_add_read_event w fd ty sys s = (Some r', s')" by blast
  moreover from this have "n_events s' = n_events s"
    using evolves_net_add_read_event [OF evolves_refl] by (metis evolves_def)
  ultimately show ?thesis by blast
qed

lemma grants_sockets: "kernel_grants w p \<Longrightarrow> \<forall>t. w_sockopt w t \<and> w_mem w t"
  by (simp add: kernel_grants_def)

lemma adopt_granted:
  assumes g: "kernel_grants w p" and ev: "m_io_callback_fn (n_events s)" and ok: "table_ok (n_worker_data s)"
    and fresh: "pid \<notin> set (worker_pids s)"
  shows "\<exists>s'. adopt_worker w i pid cf df s = Some (True, s')"
proof -
  let ?s1 = "close_fd (snd df) (close_fd (snd cf) s)"
  have "m_io_callback_fn (n_events ?s1)" using ev by (simp add: close_fd_def emit_def)
  from add_read_granted [OF grants_sockets [OF g] this, of "fst cf" CT_PROTOBUF True] this obtain c s2 where
    c: "net_add_read_event w (fst cf) CT_PROTOBUF True ?s1 = (Some c, s2)" "m_io_callback_fn (n_events s2)" by auto
  from add_read_granted [OF grants_sockets [OF g] c(2), of "fst df" CT_PROTOBUF True] obtain d s3 where
    d: "net_add_read_event w (fst df) CT_PROTOBUF True s2 = (Some d, s3)" by blast
  have "evolves False s s3"
    by (rule evolves_net_add_read_event [OF evolves_net_add_read_event [OF _ c(1)] d]) (simp add: evolves_close_fd)
  note sw = evolves_same_workers [OF this]
  have "map_of (m_workers (n_worker_data s3)) pid = None"
    using fresh same_workers_pids [OF sw] unfolding worker_pids_def by (metis map_of_eq_None_iff set_map)
  from add_worker_windexes [OF same_workers_table(1) [OF sw ok] this, of i "fst cf" "fst df"]
  obtain wd where "add_worker_info (n_worker_data s3) i pid (fst cf) (fst df) = Some (True, wd)" by blast
  then show ?thesis using c d by (simp add: adopt_worker_def Let_def)
qed

lemma create_worker_granted:
  assumes g: "kernel_grants w p" and ev: "m_io_callback_fn (n_events s)" and ok: "table_ok (n_worker_data s)" and fork: "fork_fresh p"
  shows "\<exists>s'. create_worker_net w p i s = Some (True, s') \<and> adds i True s s'"
proof -
  obtain cf df where fds: "pe_socketpair p (n_tick s) = Some cf" "pe_socketpair p (n_tick (tick s)) = Some df"
    using g unfolding kernel_grants_def by blast
  let ?s = "tick (tick s)" and ?t = "tick (tick (tick s))"
  let ?pid = "pe_fork p (n_tick ?s) (worker_pids ?s)"
  have t: "worker_pids ?t = worker_pids ?s" "n_events ?t = n_events s" "n_worker_data ?t = n_worker_data s"
    by (simp_all add: worker_pids_def tick_def)
  have "?pid \<notin> set (worker_pids ?t)" using fork t(1) unfolding fork_fresh_def by metis
  from adopt_granted [OF g _ _ this, of i cf df] obtain s' where "adopt_worker w i ?pid cf df ?t = Some (True, s')"
    using ev ok t by auto
  moreover have "?pid > 0" using g unfolding kernel_grants_def by blast
  ultimately have "create_worker_net w p i s = Some (True, s')" using fds by (simp add: create_worker_net_def Let_def)
  then show ?thesis using create_worker_net_adds [OF ok fork] by blast
qed

lemma restart_loop_granted:
  assumes g: "kernel_grants w p" and fork: "fork_fresh p"
  shows "mg_net m = Some s \<Longrightarrow> m_io_callback_fn (n_events s) \<Longrightarrow> table_ok (n_worker_data s) \<Longrightarrow>
    \<exists>m'. restart_loop w p is m = Some ([], m')"
proof (induction "is" arbitrary: m s)
  case (Cons i "is")
  obtain s1 where s1: "create_worker_net w p i s = Some (True, s1)" "adds i True s s1"
    using create_worker_granted [OF g Cons.prems(2,3) fork] by blast
  have "\<exists>m'. restart_loop w p is (with_net m s1) = Some ([], m')"
    by (rule Cons.IH [of _ s1]) (use s1(2) Cons.prems(2) in \<open>simp_all add: adds_def with_net_def\<close>)
  then show ?case using Cons.prems(1) s1(1) by (auto simp: create_worker_def)
qed simp

lemma check_chanels_returns: "table_ok (n_worker_data s) \<Longrightarrow> set infos \<subseteq> set (m_workers (n_worker_data s)) \<Longrightarrow> \<exists>s'. check_chanels infos s = Some s'"
proof (induction infos arbitrary: s)
  case (Cons e infos)
  obtain pid a where e: "e = (pid, a)" by (cases e)
  have "map_of (m_workers (n_worker_data s)) pid = Some a" using Cons.prems e table_okD(1) [OF Cons.prems(1)] by simp
  then obtain i where i: "map_of (wd_heap (n_worker_data s)) a = Some i" using table_okD(4) [OF Cons.prems(1)] by blast
  have "\<exists>s'. check_chanels infos (emit x s) = Some s'" "\<exists>s'. check_chanels infos s = Some s'" for x
    using Cons.IH [of "emit x s"] Cons.IH [of s] Cons.prems by (simp_all add: emit_def)
  then show ?case using e i by (auto simp del: map_of_eq_Some_iff)
qed simp

lemma close_conn_frame [simp]:
  "n_events (snd (close_conn fd s)) = n_events s" "n_worker_data (snd (close_conn fd s)) = n_worker_data s"
  by (auto simp: close_conn_def close_fd_def emit_def Let_def split: option.splits)

lemma restart_worker_events:
  assumes "restart_worker pid m = Some (ok, m1)" and "mg_net m = Some s"
  shows "\<exists>s1. mg_net m1 = Some s1 \<and> n_events s1 = n_events s"
  using assms by (auto simp: restart_worker_def with_net_def Let_def split: bind_splits if_splits option.splits)

lemma child_events:
  "mgr_on_child_terminated pids m = Some m1 \<Longrightarrow> mg_net m = Some s \<Longrightarrow> mg_net m1 = Some s1 \<Longrightarrow> n_events s1 = n_events s"
proof (induction pids arbitrary: m s)
  case (Cons pid pids)
  obtain ok m' where m': "restart_worker pid m = Some (ok, m')" "mgr_on_child_terminated pids m' = Some m1"
    using Cons.prems(1) by (auto split: bind_splits)
  obtain s' where s': "mg_net m' = Some s'" "n_events s' = n_events s" using restart_worker_events [OF m'(1) Cons.prems(2)] by blast
  show ?case using Cons.IH [OF m'(2) s'(1) Cons.prems(3)] s'(2) by simp
qed simp

lemma next_tick_restarts:
  assumes "kernel_grants w p" and "fork_fresh p" and "mgr_ok m" and "- 1 \<notin># wpool m"
    and "mg_net m = Some s" and "m_io_callback_fn (n_events s)"
    and "mgr_on_child_terminated pids m = Some m1" and "mg_net m1 = Some s1" and "on_repeat_timer w s1 = Some s2"
  shows "\<exists>m2 s3. mgr_on_repeat_timer w p m1 = Some m2 \<and> mg_net m2 = Some s3 \<and> mg_restart_workers m2 = []
    \<and> windexes (n_worker_data s3) = wpool m"
proof -
  have 1: "mgr_ok m1" "wpool m1 = wpool m" using on_child_pool [OF assms(3,4,7)] by simp_all
  have ev1: "n_events s1 = n_events s" using child_events [OF assms(7,5,8)] .
  have sw: "same_workers s1 s2" by (rule evolves_same_workers [OF evolves_on_repeat [OF evolves_refl assms(9)]])
  have t1: "table_ok (n_worker_data s1)" using 1(1) assms(8) by (simp add: mgr_ok_def)
  note t2 = same_workers_table [OF sw t1]
  have "m_io_callback_fn (n_events s2)" using ev1 sw assms(6) by (simp add: same_workers_def)
  from restart_loop_granted [OF assms(1,2) _ this t2(1), of "with_net m1 s2" "mg_restart_workers m1"]
  obtain m2 where m2: "restart_loop w p (mg_restart_workers m1) (with_net m1 s2) = Some ([], m2)" by (auto simp: with_net_def)
  then have r: "restart_workers w p (with_net m1 s2) = Some (m2\<lparr>mg_restart_workers := []\<rparr>)" (is "_ = Some ?m2")
    by (simp add: restart_workers_def with_net_def)
  have ok: "mgr_ok (with_net m1 s2)" "wpool (with_net m1 s2) = wpool m" using with_net_pool [OF assms(8) t1 sw] 1(2) by simp_all
  from restart_workers_pool [OF ok(1) assms(2) r] have p2: "mgr_ok ?m2" "wpool ?m2 = wpool m" using ok(2) by simp_all
  then obtain s3 where s3: "mg_net m2 = Some s3" "table_ok (n_worker_data s3)" by (auto simp: mgr_ok_def)
  obtain s4 where s4: "check_chanels (m_workers (n_worker_data s3)) s3 = Some s4"
    using check_chanels_returns [OF s3(2) subset_refl] by blast
  have "mgr_on_repeat_timer w p m1 = Some (with_net ?m2 s4)"
    using assms(8,9) r s3(1) s4 by (simp add: mgr_on_repeat_timer_def)
  moreover have "windexes (n_worker_data s4) = wpool m"
    using p2(2) s3(1) check_chanels_workers [OF s4] by (simp add: wpool_def)
  ultimately show ?thesis by (simp add: with_net_def)
qed

lemma restart_worker_returns:
  assumes "mgr_ok m"
  shows "\<exists>ok m'. restart_worker pid m = Some (ok, m')"
proof -
  obtain s where s: "mg_net m = Some s" "table_ok (n_worker_data s)" using assms by (auto simp: mgr_ok_def)
  show ?thesis
  proof (cases "map_of (m_workers (n_worker_data s)) pid")
    case None
    then show ?thesis using s(1) by (simp add: restart_worker_def get_worker_chanel_def get_worker_index_def) blast
  next
    case (Some a)
    obtain i where i: "map_of (wd_heap (n_worker_data s)) a = Some i" using table_okD(4) [OF s(2) Some] by blast
    then show ?thesis
      using s(1) Some
      by (auto simp: restart_worker_def get_worker_chanel_def get_worker_index_def del_worker_info_def Let_def simp del: map_of_eq_Some_iff)
  qed
qed

lemma child_returns: "mgr_ok m \<Longrightarrow> - 1 \<notin># wpool m \<Longrightarrow> \<exists>m'. mgr_on_child_terminated pids m = Some m'"
proof (induction pids arbitrary: m)
  case (Cons pid pids)
  obtain ok m' where m': "restart_worker pid m = Some (ok, m')" using restart_worker_returns [OF Cons.prems(1)] by blast
  then show ?case using restart_worker_pool [OF Cons.prems m'] Cons.IH [of m'] Cons.prems(2) by auto
qed simp

text \<open>
  C9. A worker that dies is started again. Whatever processes \<open>waitpid\<close> reports, the manager handles the
  signal; and if the system then grants it sockets, memory and processes, the next tick of its timer,
  once the network's own part of it has returned, leaves no worker waiting: every index the manager
  takes care of, those of the dead workers with them, belongs to a process of the table again.
\<close>

theorem dead_worker_comes_back:
  assumes "kernel_grants w p" and "fork_fresh p" and "mgr_ok m" and "- 1 \<notin># wpool m"
    and "mg_net m = Some s" and "m_io_callback_fn (n_events s)"
  shows "\<exists>m1 s1. mgr_on_child_terminated pids m = Some m1 \<and> mg_net m1 = Some s1 \<and>
    (\<forall>s2. on_repeat_timer w s1 = Some s2 \<longrightarrow>
      (\<exists>m2 s3. mgr_on_repeat_timer w p m1 = Some m2 \<and> mg_net m2 = Some s3 \<and> mg_restart_workers m2 = []
        \<and> windexes (n_worker_data s3) = wpool m))"
proof -
  obtain m1 where m1: "mgr_on_child_terminated pids m = Some m1" using child_returns [OF assms(3,4)] by blast
  then obtain s1 where s1: "mg_net m1 = Some s1" using on_child_pool [OF assms(3,4)] by (auto simp: mgr_ok_def)
  show ?thesis using m1 s1 next_tick_restarts [OF assms m1 s1] by blast
qed

text \<open>Process 100 dies; the timer of the network returns, and worker 1 is there again beside worker 2.\<close>

lemma plain_grants: "kernel_grants small_world plain_env"
  by (auto simp: kernel_grants_def small_world_def plain_env_def add_pos_nonneg Max_ge_iff intro!: add_pos_nonneg)

theorem dead_worker_comes_back_witness:
  "\<exists>m1 m2 s3. mgr_on_child_terminated [100] pair_manager = Some m1 \<and> mg_restart_workers m1 = [1]
     \<and> mgr_on_repeat_timer small_world plain_env m1 = Some m2 \<and> mg_net m2 = Some s3 \<and> mg_restart_workers m2 = []
     \<and> windexes (n_worker_data s3) = {#1, 2#}"
proof -
  let ?s = "(new_network NT_MANAGER)\<lparr>n_worker_data := two_workers\<rparr>"
  obtain m where m: "mgr_on_child_terminated [100] pair_manager = Some m" "mg_restart_workers m = [1]"
    using worker_100_dies by (auto simp: mgr_on_signal_def)
  have "mg_net pair_manager = Some ?s" "m_io_callback_fn (n_events ?s)"
    by (simp_all add: pair_manager_def with_net_def new_network_def all_events_def)
  moreover have "- 1 \<notin># wpool pair_manager" by (simp add: pair_manager_ok)
  ultimately obtain m1 s1 where m1: "mgr_on_child_terminated [100] pair_manager = Some m1" "mg_net m1 = Some s1"
    and l: "\<forall>s2. on_repeat_timer small_world s1 = Some s2 \<longrightarrow>
      (\<exists>m2 s3. mgr_on_repeat_timer small_world plain_env m1 = Some m2 \<and> mg_net m2 = Some s3 \<and> mg_restart_workers m2 = []
        \<and> windexes (n_worker_data s3) = wpool pair_manager)"
    using dead_worker_comes_back [OF plain_grants plain_fork pair_manager_ok(1), of ?s "[100]"] by blast
  have "\<exists>s2. on_repeat_timer small_world s1 = Some s2"
    using m1 by (auto simp: restart_worker_def pair_manager_def with_net_def new_manager_def new_network_def two_workers_eq
        get_worker_chanel_def get_worker_index_def del_worker_info_def close_conn_def on_repeat_timer_def is_manager_def
        check_wait_send_fds_def report_payload_to_zookeeper_def sys_on_repeat_timer_def small_world_def plain_sys_def
        payload_report_def Let_def is_worker_def split: option.splits)
  then show ?thesis using l m m1 pair_manager_ok(2) by auto
qed

section \<open>Descriptors that have changed hands\<close>

lemma restart_worker_found:
  assumes "mg_net m = Some s" and "map_of (m_workers (n_worker_data s)) pid = Some a"
    and "map_of (wd_heap (n_worker_data s)) a = Some i" and "wi_index i \<noteq> - 1"
  shows "\<exists>wd. restart_worker pid m = Some (True, (with_net m
      ((snd (close_conn (wi_data_fd i) (snd (close_conn (wi_ctrl_fd i) s))))\<lparr>n_worker_data := wd\<rparr>))
      \<lparr>mg_restart_workers := mg_restart_workers m @ [wi_index i]\<rparr>)"
  using assms by (auto simp: restart_worker_def get_worker_chanel_def get_worker_index_def del_worker_info_def Let_def
      simp del: map_of_eq_Some_iff)

lemma close_conn_closes:
  assumes "map_of (n_conns s) fd = Some c" and "fd \<noteq> - 1"
  shows "map_of (n_conns (snd (close_conn fd s))) fd = None" and "E_close fd \<in> set (n_trace (snd (close_conn fd s)))"
  using assms by (simp_all add: close_conn_def close_fd_def emit_def Let_def)

lemma close_conn_mono:
  "map_of (n_conns s) fd = None \<Longrightarrow> map_of (n_conns (snd (close_conn fd' s))) fd = None"
  "e \<in> set (n_trace s) \<Longrightarrow> e \<in> set (n_trace (snd (close_conn fd' s)))"
  by (auto simp: close_conn_def close_fd_def emit_def Let_def split: option.splits)

text \<open>
  C31. The death of a worker closes a stranger's connection. The manager remembers the channels of a worker
  by descriptor number, without the id that guards every other pointer to a connection. A channel that
  is read to its end is closed at once, and the number may be given to a new connection before
  \<open>SIGCHLD\<close> arrives: \<open>restart_worker\<close> then closes whatever connection has the number.
\<close>

theorem dead_worker_closes_a_stranger:
  assumes "mg_net m = Some s" and "map_of (m_workers (n_worker_data s)) pid = Some a"
    and "map_of (wd_heap (n_worker_data s)) a = Some i" and "wi_index i \<noteq> - 1"
    and "map_of (n_conns s) (wi_ctrl_fd i) = Some c" and "wi_ctrl_fd i \<noteq> - 1"
  shows "\<exists>m' s'. restart_worker pid m = Some (True, m') \<and> mg_net m' = Some s'
    \<and> map_of (n_conns s') (wi_ctrl_fd i) = None \<and> E_close (wi_ctrl_fd i) \<in> set (n_trace s')"
proof -
  let ?s = "snd (close_conn (wi_data_fd i) (snd (close_conn (wi_ctrl_fd i) s)))"
  obtain wd where r: "restart_worker pid m = Some (True, (with_net m (?s\<lparr>n_worker_data := wd\<rparr>))
      \<lparr>mg_restart_workers := mg_restart_workers m @ [wi_index i]\<rparr>)"
    using restart_worker_found [OF assms(1-4)] by blast
  have "map_of (n_conns ?s) (wi_ctrl_fd i) = None" "E_close (wi_ctrl_fd i) \<in> set (n_trace ?s)"
    by (rule close_conn_mono, rule close_conn_closes [OF assms(5,6)])+
  then show ?thesis using r by (simp add: with_net_def del: map_of_eq_None_iff)
qed

text \<open>
  The whole story: worker 100 has its control channel on descriptor 7. The manager reads the end of the
  channel; then it accepts a connection of another node, which gets descriptor 7 and the id 2; then the
  signal arrives.
\<close>

definition hang_world :: world where
  "hang_world = small_world\<lparr>w_recv := (\<lambda>_. Recv []), w_accept := (\<lambda>t. if t = 1 then Some (7, 2) else None)\<rparr>"

definition chan_table :: worker_data where
  "chan_table = \<lparr>m_workers = [(100, 1)], m_itr_worker = 0, m_index_workers = [(1, 1)],
     wd_heap = [(1, \<lparr>wi_pid = 100, wi_index = 1, wi_ctrl_fd = 7, wi_data_fd = 8, wi_payload = empty_payload\<rparr>)]\<rparr>"

definition chan_net :: network where
  "chan_net = (with_peer peer_conn (new_network NT_MANAGER))\<lparr>n_worker_data := chan_table\<rparr>"

lemma channel_ends:
  "\<exists>s. on_io_read hang_world u ch 7 chan_net = Some s \<and> n_conns s = [] \<and> n_tick s = 1 \<and> n_worker_data s = chan_table
     \<and> n_type s = NT_MANAGER \<and> n_node_host_fd s = 5 \<and> n_events s = all_events \<and> n_seq s = 1"
  by (simp add: on_io_read_def chan_net_def with_peer_def new_network_def is_manager_def read_query_from_client_def
      is_invalid_def peer_conn_def new_connection_def process_msg_def get_conn_def fd_data_def is_http_def process_tcp_msg_def
      conn_read_proto_def conn_read_def hang_world_def small_world_def read_fd_def the_buf_def Let_def put_conn_def tick_def
      count_read_def goto_error_def close_ptr_def close_conn_def close_fd_def emit_def new_buffer_def writeable_len_def)

lemma stranger_comes:
  assumes "n_conns s = []" and "n_tick s = 1" and "n_worker_data s = chan_table" and "n_type s = NT_MANAGER" and "n_node_host_fd s = 5"
    and "n_events s = all_events" and "n_seq s = 1"
  shows "\<exists>s' c. on_io_read hang_world u ch 5 s = Some s' \<and> map_of (n_conns s') 7 = Some c \<and> c_id c = 2 \<and> n_worker_data s' = chan_table"
proof -
  have n: "MAX_ACCEPTS_PER_CALL = Suc (Suc 998)" by (simp add: MAX_ACCEPTS_PER_CALL_def)
  have "\<exists>s' c. accept_loop (Suc (Suc m)) hang_world s = Some s' \<and> map_of (n_conns s') 7 = Some c \<and> c_id c = 2
      \<and> n_worker_data s' = chan_table" for m
    using assms by (simp add: hang_world_def small_world_def net_add_read_event_def create_conn_def new_seq_def tick_def
        Let_def put_conn_def get_conn_def conn_init_def new_connection_def add_read_event_def all_events_def alloc_io_def now_def)
  from this [of 998, folded n] show ?thesis
    using assms by (simp add: on_io_read_def accept_server_conn_def is_manager_def)
qed

theorem dead_worker_closes_a_stranger_witness:
  "\<forall>u ch. \<exists>s1 s2 m c. on_io_read hang_world u ch 7 chan_net = Some s1 \<and> on_io_read hang_world u ch 5 s1 = Some s2
     \<and> map_of (n_conns s2) 7 = Some c \<and> c_id c = 2
     \<and> restart_worker 100 (with_net new_manager s2) = Some (True, m) \<and> map_of (n_conns (the (mg_net m))) 7 = None"
proof (intro allI)
  fix u ch
  obtain s1 where s1: "on_io_read hang_world u ch 7 chan_net = Some s1" "n_conns s1 = []" "n_tick s1 = 1" "n_worker_data s1 = chan_table"
    "n_type s1 = NT_MANAGER" "n_node_host_fd s1 = 5" "n_events s1 = all_events" "n_seq s1 = 1" using channel_ends by blast
  obtain s2 c where s2: "on_io_read hang_world u ch 5 s1 = Some s2" "map_of (n_conns s2) 7 = Some c" "c_id c = 2" "n_worker_data s2 = chan_table"
    using stranger_comes [OF s1(2-8)] by blast
  let ?i = "\<lparr>wi_pid = 100, wi_index = 1, wi_ctrl_fd = 7, wi_data_fd = 8, wi_payload = empty_payload\<rparr>"
  have "\<exists>m' s'. restart_worker 100 (with_net new_manager s2) = Some (True, m') \<and> mg_net m' = Some s'
      \<and> map_of (n_conns s') (wi_ctrl_fd ?i) = None \<and> E_close (wi_ctrl_fd ?i) \<in> set (n_trace s')"
    by (rule dead_worker_closes_a_stranger [where s = s2 and a = 1 and c = c]) (use s2 in \<open>simp_all add: with_net_def chan_table_def\<close>)
  then show "\<exists>s1 s2 m c. on_io_read hang_world u ch 7 chan_net = Some s1 \<and> on_io_read hang_world u ch 5 s1 = Some s2
     \<and> map_of (n_conns s2) 7 = Some c \<and> c_id c = 2
     \<and> restart_worker 100 (with_net new_manager s2) = Some (True, m) \<and> map_of (n_conns (the (mg_net m))) 7 = None"
    using s1(1) s2 by (auto simp del: map_of_eq_None_iff)
qed

section \<open>One callback, two handlers\<close>

lemma read_of_the_end_closes:
  assumes inv: "conns_inv s" and c: "map_of (n_conns s) (c_fd c) = Some c" and v: "\<not> is_invalid c" and fd: "c_fd c \<noteq> - 1"
    and rd: "w_recv w (n_tick s) = Recv []"
    and no: "is_manager s \<longrightarrow> c_fd c \<noteq> n_node_host_fd s \<and> c_fd c \<noteq> n_gate_host_fd s"
      "\<not> is_manager s \<longrightarrow> c_fd c \<noteq> n_manager_data_fd s"
  shows "\<exists>s'. on_io_read w u ch (c_fd c) s = Some s' \<and> map_of (n_conns s') (c_fd c) = None"
proof -
  have g: "get_conn s (fd_data c) = Some c" using c by (simp add: get_conn_def fd_data_def)
  obtain st c1 where r: "conn_read (w_al w) (Recv []) (now w s) c = (st, c1)" by fastforce
  have c1: "st = CS_CLOSED" "key True (c1\<lparr>c_recv_buf := c_recv_buf c\<rparr>) = key True c"
    using r v by (auto simp: conn_read_def read_fd_def Let_def key_def fd_data_def)
  then have f: "fd_data c1 = fd_data c" "c_fd c1 = c_fd c" by (simp_all add: key_def fd_data_def)
  have close: "\<exists>t. goto_error (fd_data c) (count_read c c1 (tick (put_conn c1 s))) = Some (Returned False, t)
      \<and> map_of (n_conns t) (c_fd c) = None"
  proof -
    have "get_conn (count_read c c1 (tick (put_conn c1 s))) (fd_data c) = Some c1"
      using f get_conn_put' [of "fd_data c" c1 s] by (simp add: count_read_def Let_def get_conn_def tick_def)
    moreover have "map_of (n_conns (count_read c c1 (tick (put_conn c1 s)))) (c_fd c) = Some c1"
      using f by (simp add: count_read_def Let_def tick_def put_conn_def)
    ultimately show ?thesis using close_conn_closes(1) [OF _ fd] f by (auto simp: goto_error_def close_ptr_def simp del: map_of_eq_None_iff)
  qed
  have "\<exists>e t. process_msg w u (fd_data c) s = Some (e, t) \<and> map_of (n_conns t) (c_fd c) = None"
    using close g rd r c1(1)
    by (auto simp: process_msg_def process_tcp_msg_def process_http_msg_def conn_read_proto_def conn_read_http_def Let_def
        simp del: map_of_eq_None_iff)
  then show ?thesis using c v no by (auto simp: on_io_read_def read_query_from_client_def simp del: map_of_eq_None_iff)
qed

text \<open>
  C32. A peer that hangs up while the server waits to write to it makes the callback of the descriptor read
  freed memory: libev reports both events in one call, the read handler closes the connection and frees
  its watcher, and for the write handler the callback takes the descriptor from that watcher.
\<close>

theorem hang_up_reads_a_freed_watcher:
  assumes "conns_inv s" and "map_of (n_conns s) (c_fd c) = Some c" and "\<not> is_invalid c" and "c_fd c \<noteq> - 1"
    and "w_recv w (n_tick s) = Recv []"
    and "is_manager s \<longrightarrow> c_fd c \<noteq> n_node_host_fd s \<and> c_fd c \<noteq> n_gate_host_fd s"
    and "\<not> is_manager s \<longrightarrow> c_fd c \<noteq> n_manager_data_fd s"
  shows "on_io_callback w u ch True True c s = None \<and> on_io_callback w u ch True False c s \<noteq> None"
  using read_of_the_end_closes [OF assms, of u ch] by (auto simp: on_io_callback_def get_conn_def fd_data_def)

theorem hang_up_reads_a_freed_watcher_witness:
  "\<forall>u ch. on_io_callback hang_world u ch True True peer_conn (with_peer peer_conn (new_network NT_WORKER)) = None"
  by (intro allI, rule conjunct1 [OF hang_up_reads_a_freed_watcher])
    (use conns_inv_peer [of peer_conn] in \<open>simp_all add: with_peer_def new_network_def hang_world_def is_manager_def\<close>)

section \<open>Starting up\<close>

text \<open>A descriptor is served: it has a connected connection with an active watcher for reading.\<close>

definition served :: "network \<Rightarrow> int \<Rightarrow> bool \<Rightarrow> codec_type \<Rightarrow> bool" where
  "served s fd sys ty \<longleftrightarrow> (\<exists>c io. map_of (n_conns s) fd = Some c \<and> is_connected c \<and> c_is_system c = sys
     \<and> c_ev_io c = Some io \<and> io_active io \<and> io_read io
     \<and> c_codec c = (case ty of CT_PROTOBUF \<Rightarrow> Proto_codec | CT_HTTP \<Rightarrow> Http_codec new_codec_http | _ \<Rightarrow> No_codec))"

lemma create_conn_new:
  assumes "create_conn w fd s = (r, s')"
  shows "\<exists>c. r = (fd, c_id c) \<and> get_conn s' r = Some c \<and> c_ev_io c = None \<and> c_codec c = No_codec \<and> c_is_system c = False
    \<and> fd_data c = r \<and> (\<forall>d. d \<noteq> fd \<longrightarrow> map_of (n_conns s') d = map_of (n_conns s) d)"
  using assms by (auto simp: create_conn_def new_seq_def Let_def put_conn_def get_conn_def fd_data_def new_connection_def tick_def
      close_conn_def close_fd_def emit_def simp del: map_of_eq_Some_iff map_of_eq_None_iff split: if_splits option.splits)

lemma add_read_serves:
  assumes a: "net_add_read_event w fd ty sys s = (Some r, s')"
  shows "served s' fd sys ty \<and> (\<forall>d. d \<noteq> fd \<longrightarrow> map_of (n_conns s') d = map_of (n_conns s) d)"
proof -
  define t where "t = (if sys then tick s else tick (tick (tick s)))"
  obtain q v where q: "create_conn w fd t = (q, v)" by fastforce
  obtain c where c: "q = (fd, c_id c)" "get_conn v q = Some c" "c_ev_io c = None" "c_codec c = No_codec" "c_is_system c = False"
    "fd_data c = q" "\<forall>d. d \<noteq> fd \<longrightarrow> map_of (n_conns v) d = map_of (n_conns t) d"
    using create_conn_new [OF q] by blast
  let ?c = "(snd (conn_init ty (now w v) c))\<lparr>c_active_time := now w v, c_state := S_CONNECTED\<rparr>"
  have t: "n_conns t = n_conns s" by (simp add: t_def tick_def)
  have cid: "fd_data ?c = q" "c_ev_io ?c = None" "c_is_system ?c = False"
    "c_codec ?c = (case ty of CT_PROTOBUF \<Rightarrow> Proto_codec | CT_HTTP \<Rightarrow> Http_codec new_codec_http | _ \<Rightarrow> No_codec)"
    using c by (auto simp: conn_init_def fd_data_def split: codec_type.split)
  have r: "net_add_read_event w fd ty sys s = (case add_read_event (n_events v) (w_mem w (n_tick v)) fd (c_ev_io ?c) of
        None \<Rightarrow> (None, tick (put_conn ?c v))
      | Some io \<Rightarrow> (Some q, tick (put_conn (?c\<lparr>c_ev_io := Some io, c_is_system := (sys \<or> c_is_system ?c)\<rparr>) v)))"
    using a q c(2) by (auto simp: net_add_read_event_def t_def Let_def split: if_splits option.splits)
  then obtain io where io: "add_read_event (n_events v) (w_mem w (n_tick v)) fd None = Some io"
    "s' = tick (put_conn (?c\<lparr>c_ev_io := Some io, c_is_system := (sys \<or> c_is_system ?c)\<rparr>) v)"
    using a cid by (auto split: option.splits)
  have w: "io_active io" "io_read io" using io(1) by (auto simp: add_read_event_def alloc_io_def zero_io_def split: if_splits option.splits)
  have f: "c_fd ?c = fd" using cid(1) c(1) by (simp add: fd_data_def)
  show ?thesis
    using io(2) w cid(2-) f c(7) t
    by (simp add: served_def put_conn_def tick_def is_connected_def del: map_of_eq_Some_iff)
qed

lemma listen_to_port_fresh:
  assumes "fresh_sockets (su_kernel e)" and "listen_to_port e host port s = (fd, s')"
  shows "fd = - 1 \<or> fd \<notin> set (ukeys (n_conns s))" and "n_conns s' = n_conns s" and "n_gate_codec s' = n_gate_codec s"
proof -
  let ?st = "\<lparr>so_tick = n_tick s, so_open = ukeys (n_conns s), so_bad = [], so_flags = [], so_opts = []\<rparr>"
  obtain f st where f: "anet_tcp_server (su_kernel e) (c_str host) port ?st = (f, st)" by fastforce
  have "owns f ?st st"
  proof (cases "sk_addrs (su_kernel e) (c_str host) (port_str port)")
    case None
    then show ?thesis using f by (simp add: anet_tcp_server_def owns_def ANET_ERR_def)
  next
    case (Some ps)
    then have "server_loop (su_kernel e) (- 1) ps ?st = (f, st)" using f by (simp add: anet_tcp_server_def)
    then show ?thesis using server_loop_owns [OF assms(1)] by blast
  qed
  then have "f = - 1 \<or> f \<notin> set (ukeys (n_conns s))" by (auto simp: owns_def split: if_splits)
  then show "fd = - 1 \<or> fd \<notin> set (ukeys (n_conns s))"
    using assms(2) f by (auto simp: listen_to_port_def Let_def split: if_splits prod.splits)
  show "n_conns s' = n_conns s" "n_gate_codec s' = n_gate_codec s"
    using assms(2) f by (auto simp: listen_to_port_def Let_def close_fd_def emit_def split: if_splits prod.splits)
qed

text \<open>A part of the state that opening and closing connections does not touch.\<close>

definition framed :: "(network \<Rightarrow> 'a) \<Rightarrow> bool" where
  "framed f \<longleftrightarrow> (\<forall>s q. f (tick s) = f s \<and> f (s\<lparr>n_seq := q\<rparr>) = f s) \<and> (\<forall>s c. f (put_conn c s) = f s)
     \<and> (\<forall>s fd. f (snd (close_conn fd s)) = f s)"

lemma framedD:
  assumes "framed f"
  shows "f (tick s) = f s" and "f (s\<lparr>n_seq := q\<rparr>) = f s" and "f (put_conn c s) = f s" and "f (snd (close_conn fd s)) = f s"
  using assms unfolding framed_def by blast+

lemma create_conn_frame:
  assumes f: "framed f" and c: "create_conn w fd s = (r, s')"
  shows "f s' = f s"
proof -
  let ?t = "if map_of (n_conns s) fd \<noteq> None then snd (close_conn fd s) else s"
  obtain q v where q: "new_seq ?t = (q, v)" by fastforce
  have "f v = f ?t" using q framedD(1,2) [OF f] by (auto simp: new_seq_def Let_def)
  moreover have "f s' = f v" using c q framedD(3) [OF f] by (auto simp: create_conn_def Let_def)
  ultimately show ?thesis using framedD(4) [OF f] by simp
qed

lemma add_read_frame:
  assumes f: "framed f" and a: "net_add_read_event w fd ty sys s = (r, s')"
  shows "f s' = f s"
proof -
  note fr = framedD [OF f]
  define t where "t = (if sys then tick s else tick (tick (tick s)))"
  obtain q v where q: "create_conn w fd t = (q, v)" by fastforce
  have "f v = f s" using create_conn_frame [OF f q] by (simp add: t_def fr)
  then show ?thesis
    using a q by (auto simp: net_add_read_event_def t_def Let_def fr split: if_splits option.splits)
qed

definition hosts :: "network \<Rightarrow> int \<times> int \<times> codec_type" where
  "hosts s = (n_node_host_fd s, n_gate_host_fd s, n_gate_codec s)"

lemma hosts_framed: "framed hosts"
  by (auto simp: framed_def hosts_def tick_def put_conn_def close_conn_def close_fd_def emit_def Let_def split: option.splits)

lemmas add_read_hosts = add_read_frame [OF hosts_framed]

lemma listen_node_serves:
  assumes "listen_node w e ai s = (True, s')"
  shows "(ai_node_host ai \<noteq> [] \<longrightarrow> served s' (n_node_host_fd s') False CT_PROTOBUF)"
proof (cases "ai_node_host ai = []")
  case False
  obtain fd s1 where l: "listen_to_port e (ai_node_host ai) (c_int (int (ai_node_port ai))) s = (fd, s1)" by fastforce
  let ?s = "s1\<lparr>n_node_host_fd := fd, n_node_host := ai_node_host ai, n_node_port := c_int (int (ai_node_port ai))\<rparr>"
  obtain r where r: "net_add_read_event w fd CT_PROTOBUF False ?s = (Some r, s')"
    using assms False l by (auto simp: listen_node_def Let_def split: if_splits option.splits prod.splits)
  show ?thesis using add_read_serves [OF r] add_read_hosts [OF r] by (simp add: hosts_def)
qed simp

lemma listen_gate_serves:
  assumes "fresh_sockets (su_kernel e)" and "listen_gate w e ai s = (True, s')"
  shows "(ai_gate_host ai \<noteq> [] \<longrightarrow> served s' (n_gate_host_fd s') False (n_gate_codec s'))"
    and "served s d sys ty \<Longrightarrow> served s' d sys ty" and "n_node_host_fd s' = n_node_host_fd s"
proof -
  have "(ai_gate_host ai \<noteq> [] \<longrightarrow> served s' (n_gate_host_fd s') False (n_gate_codec s')) \<and> (served s d sys ty \<longrightarrow> served s' d sys ty)
      \<and> n_node_host_fd s' = n_node_host_fd s"
  proof (cases "ai_gate_host ai = []")
    case True
    then show ?thesis using assms by (simp add: listen_gate_def)
  next
    case False
    obtain fd s1 where l: "listen_to_port e (ai_gate_host ai) (c_int (int (ai_gate_port ai))) s = (fd, s1)" by fastforce
    let ?s = "s1\<lparr>n_gate_host_fd := fd, n_gate_host := ai_gate_host ai, n_gate_port := c_int (int (ai_gate_port ai))\<rparr>"
    obtain r where r: "net_add_read_event w fd (n_gate_codec ?s) False ?s = (Some r, s')" and fd: "fd \<noteq> - 1"
      using assms(2) False l by (auto simp: listen_gate_def Let_def split: if_splits option.splits prod.splits)
    note fr = listen_to_port_fresh [OF assms(1) l] and h = add_read_hosts [OF r] and sv = add_read_serves [OF r]
    have nh: "n_node_host_fd s1 = n_node_host_fd s"
      using l by (auto simp: listen_to_port_def Let_def close_fd_def emit_def split: if_splits prod.splits)
    have "served s' d sys ty" if sd: "served s d sys ty"
    proof -
      obtain c where c: "map_of (n_conns s) d = Some c" using sd unfolding served_def by blast
      then have "d \<in> set (ukeys (n_conns s))" using map_of_SomeD by force
      then have "d \<noteq> fd" using fr(1) fd by blast
      then have "map_of (n_conns s') d = map_of (n_conns s) d" using sv fr(2) by simp
      then show ?thesis using sd by (simp add: served_def)
    qed
    then show ?thesis using sv h nh by (simp add: hosts_def)
  qed
  then show "(ai_gate_host ai \<noteq> [] \<longrightarrow> served s' (n_gate_host_fd s') False (n_gate_codec s'))"
    "served s d sys ty \<Longrightarrow> served s' d sys ty" "n_node_host_fd s' = n_node_host_fd s" by blast+
qed

lemma create_m_parts:
  assumes "create_m w e ai conf s0 = Some (True, s)"
  shows "\<exists>s1 s2. listen_node w e ai s1 = (True, s2) \<and> listen_gate w e ai s2 = (True, s)"
  using assms by (auto simp: create_m_def Let_def split: prod.splits if_splits bind_splits)

text \<open>
  C27. A manager that starts listens. If \<open>create_m\<close> answers \<open>true\<close>, the descriptor of every configured address,
  that of the nodes with the binary protocol and that of the gate with the configured codec, has a
  connected connection whose watcher is active for reading; the second does not displace the first.
\<close>

theorem started_manager_listens:
  assumes "fresh_sockets (su_kernel e)" and "create_m w e ai conf s0 = Some (True, s)"
  shows "(ai_node_host ai \<noteq> [] \<longrightarrow> served s (n_node_host_fd s) False CT_PROTOBUF)
    \<and> (ai_gate_host ai \<noteq> [] \<longrightarrow> served s (n_gate_host_fd s) False (n_gate_codec s))"
proof -
  obtain s1 s2 where l: "listen_node w e ai s1 = (True, s2)" "listen_gate w e ai s2 = (True, s)" using create_m_parts [OF assms(2)] by blast
  show ?thesis
    using listen_node_serves [OF l(1)] listen_gate_serves [OF assms(1) l(2)] by metis
qed

definition test_addr :: addr_info where
  "test_addr = \<lparr>ai_node_host = ''::'', ai_node_port = 7000, ai_gate_host = ''::'', ai_gate_port = 7001\<rparr>"

definition quiet_conf :: server_conf where
  "quiet_conf = plain_conf\<lparr>sc_zk := toy_conf\<lparr>zc_no_zookeeper := True\<rparr>\<rparr>"

lemma test_listens:
  "n_conns s = [] \<Longrightarrow> \<exists>k. listen_to_port (pe_setup plain_env) host port s = (9, s\<lparr>n_tick := k\<rparr>)"
  "ukeys (n_conns s) = [9] \<Longrightarrow> \<exists>k. listen_to_port (pe_setup plain_env) host port s = (10, s\<lparr>n_tick := k\<rparr>)"
  by (simp_all add: listen_to_port_def plain_env_def test_kernel_def anet_tcp_server_def sys_socket_def anet_v6_only_def set_opt_def
      sock_call_def anet_set_reuse_addr_def anet_listen_def anet_no_block_def anet_set_block_def ANET_OK_def ANET_ERR_def Let_def)
    blast+

lemma test_adds:
  assumes "m_io_callback_fn (n_events s)" and "map_of (n_conns s) fd = None"
  shows "\<exists>r c t. net_add_read_event small_world fd ty False s = (Some r, t) \<and> n_conns t = n_conns s @ [(fd, c)] \<and> hosts t = hosts s
    \<and> n_events t = n_events s"
proof -
  have f: "uset (n_conns s) fd c = n_conns s @ [(fd, c)]" for c
    using assms(2) by (intro update_fresh) (simp add: map_of_eq_None_iff)
  have l: "uset (n_conns s @ [(fd, c)]) fd c' = n_conns s @ [(fd, c')]" for c c'
    using assms(2) by (intro update_last) (simp add: map_of_eq_None_iff)
  show ?thesis
    using assms f l by (cases ty) (simp_all add: small_world_def net_add_read_event_def create_conn_def new_seq_def tick_def put_conn_def get_conn_def
        conn_init_def new_connection_def add_read_event_def alloc_io_def zero_io_def hosts_def now_def Let_def del: map_of_eq_Some_iff map_of_eq_None_iff)
qed

text \<open>The descriptors are 9 and 10.\<close>

lemma test_manager_starts:
  "\<exists>s. create_m small_world (pe_setup plain_env) test_addr quiet_conf (fresh_network NT_MANAGER) = Some (True, s)
     \<and> n_node_host_fd s = 9 \<and> n_gate_host_fd s = 10 \<and> n_gate_codec s = CT_HTTP"
proof -
  have pub: "load_public (pe_setup plain_env) quiet_conf (fresh_network NT_MANAGER)
      = (True, (fresh_network NT_MANAGER)\<lparr>n_gate_codec := CT_HTTP, n_node_type := ''gate'',
          n_events := new_events\<lparr>m_ev_loop := True, m_io_callback_fn := True, m_io_timer_callback_fn := True,
            m_cmd_timer_callback_fn := True, m_session_timer_callback_fn := True\<rparr>\<rparr>)" (is "_ = (True, ?s)")
    by (simp add: load_public_def net_load_config_def quiet_conf_def plain_conf_def set_gate_codec_def get_codec_type_def strcaseeq_def
        lower_char_def c_str_def create_events_def events_create_def plain_env_def callback_init_def setup_io_callback_def
        setup_io_timer_callback_def setup_cmd_timer_callback_def setup_session_timer_callback_def fresh_network_def new_events_def Let_def)
  obtain t where t: "load_zk_mgr small_world quiet_conf ?s = Some (True, t)" "n_conns t = []" "m_io_callback_fn (n_events t)"
    "n_gate_codec t = CT_HTTP"
    by (simp add: load_zk_mgr_def quiet_conf_def toy_conf_def zk_init_def put_zk_def fresh_network_def)
  have wd: "load_worker_data_mgr ?s = (True, ?s)" by (simp add: load_worker_data_mgr_def fresh_network_def)
  obtain k where k: "listen_to_port (pe_setup plain_env) ''::'' 7000 t = (9, t\<lparr>n_tick := k\<rparr>)"
    using test_listens(1) [OF t(2)] by blast
  let ?a = "t\<lparr>n_tick := k, n_node_host_fd := 9, n_node_host := ''::'', n_node_port := 7000\<rparr>"
  obtain r c a where a: "net_add_read_event small_world 9 CT_PROTOBUF False ?a = (Some r, a)" "n_conns a = [(9, c)]"
    "hosts a = (9, n_gate_host_fd t, CT_HTTP)" "m_io_callback_fn (n_events a)"
    using test_adds [of ?a 9 CT_PROTOBUF] t by (auto simp: hosts_def)
  have node: "listen_node small_world (pe_setup plain_env) test_addr t = (True, a)"
    using k a(1) by (simp add: listen_node_def test_addr_def Let_def c_int_def)
  obtain k2 where k2: "listen_to_port (pe_setup plain_env) ''::'' 7001 a = (10, a\<lparr>n_tick := k2\<rparr>)"
    using test_listens(2) [of a] a(2) by auto
  let ?b = "a\<lparr>n_tick := k2, n_gate_host_fd := 10, n_gate_host := ''::'', n_gate_port := 7001\<rparr>"
  obtain r2 b where b: "net_add_read_event small_world 10 CT_HTTP False ?b = (Some r2, b)" "hosts b = (9, 10, CT_HTTP)"
    using test_adds [of ?b 10 CT_HTTP] a by (auto simp: hosts_def)
  have gate: "listen_gate small_world (pe_setup plain_env) test_addr a = (True, b)"
    using k2 b(1) a(3) by (simp add: listen_gate_def test_addr_def Let_def c_int_def hosts_def)
  have "create_m small_world (pe_setup plain_env) test_addr quiet_conf (fresh_network NT_MANAGER) = Some (True, b)"
    by (simp add: create_m_def pub wd t(1) node gate)
  then show ?thesis using b(2) by (simp add: hosts_def)
qed

theorem started_manager_listens_witness:
  "\<exists>s. create_m small_world (pe_setup plain_env) test_addr quiet_conf (fresh_network NT_MANAGER) = Some (True, s)
     \<and> served s 9 False CT_PROTOBUF \<and> served s 10 False CT_HTTP"
proof -
  obtain s where s: "create_m small_world (pe_setup plain_env) test_addr quiet_conf (fresh_network NT_MANAGER) = Some (True, s)"
    "n_node_host_fd s = 9" "n_gate_host_fd s = 10" "n_gate_codec s = CT_HTTP" using test_manager_starts by blast
  have "fresh_sockets (su_kernel (pe_setup plain_env))" using fresh_test by (simp add: plain_env_def)
  from started_manager_listens [OF this s(1)] show ?thesis using s by (simp add: test_addr_def)
qed

text \<open>
  C29. Every worker is born with undefined behaviour. The child of \<open>fork\<close> closes the manager's connections by
  erasing them from the table over which the loop iterates; a manager that has started with an address
  for nodes has at least the connection of its listening descriptor, and in each of its later states in
  which that one is still served, the child is undefined.
\<close>

theorem forked_child_iterates_an_erased_table:
  assumes "create_m w e ai conf s0 = Some (True, s)" and "ai_node_host ai \<noteq> []" and "fresh_sockets (su_kernel e)"
    and "mg_net m = Some s'" and "served s (n_node_host_fd s) False CT_PROTOBUF \<Longrightarrow> served s' (n_node_host_fd s) False CT_PROTOBUF"
  shows "fork_child w p i cfds dfds m = None"
proof -
  have "served s (n_node_host_fd s) False CT_PROTOBUF"
  proof -
    obtain s1 s2 where l: "listen_node w e ai s1 = (True, s2)" "listen_gate w e ai s2 = (True, s)" using create_m_parts [OF assms(1)] by blast
    show ?thesis using listen_node_serves [OF l(1)] listen_gate_serves(2,3) [OF assms(3) l(2)] assms(2) by metis
  qed
  then obtain c where c: "map_of (n_conns s') (n_node_host_fd s) = Some c" "is_connected c"
    using assms(5) unfolding served_def by blast
  have "(n_node_host_fd s, c) \<in> set (n_conns s')" by (rule map_of_SomeD [OF c(1)])
  moreover have "\<not> is_invalid c" using c(2) by (simp add: is_connected_def is_invalid_def)
  ultimately have "close_fds s' = None" by (auto simp: close_fds_def)
  then show ?thesis using assms(4) by (simp add: fork_child_def)
qed

theorem forked_child_iterates_an_erased_table_witness:
  "\<exists>s. create_m small_world (pe_setup plain_env) test_addr quiet_conf (fresh_network NT_MANAGER) = Some (True, s)
     \<and> fork_child small_world plain_env 1 (20, 21) (22, 23) (with_net new_manager s) = None"
proof -
  obtain s where s: "create_m small_world (pe_setup plain_env) test_addr quiet_conf (fresh_network NT_MANAGER) = Some (True, s)"
    using test_manager_starts by blast
  have "fresh_sockets (su_kernel (pe_setup plain_env))" using fresh_test by (simp add: plain_env_def)
  from forked_child_iterates_an_erased_table [OF s _ this, of "with_net new_manager s" s]
  show ?thesis using s by (simp add: test_addr_def with_net_def)
qed

text \<open>The manager's handler of the other signals reads the watcher it has just deleted.\<close>

lemma terminated_manager_crashes: "mgr_on_terminated signum m = None"
  by (simp add: mgr_on_terminated_def)

text \<open>A worker ends itself exactly when a channel to the manager is gone.\<close>

lemma worker_ends_without_its_channels:
  assumes "wk_net k = Some s" and "on_repeat_timer w s = Some s'"
  shows "worker_on_repeat_timer w k = Some (Inl EXIT_CHILD) \<longleftrightarrow> \<not> (check_conn s' (wk_ctrl_fd k) \<and> check_conn s' (wk_data_fd k))"
  using assms by (auto simp: worker_on_repeat_timer_def)

text \<open>A worker that starts serves both of its channels as connections of the system.\<close>

lemma started_worker_serves_its_channels:
  assumes "create_w w e conf ctrl data i s0 = Some (True, s)" and "ctrl \<noteq> data"
  shows "served s ctrl True CT_PROTOBUF \<and> served s data True CT_PROTOBUF \<and> n_manager_ctrl_fd s = ctrl
    \<and> n_manager_data_fd s = data \<and> Net_State.n_worker_index s = i"
proof -
  obtain s1 s2 s3 where a: "add_chanel_event w ctrl s1 = (True, s2)" "add_chanel_event w data s2 = (True, s3)"
    "s = s3\<lparr>n_manager_ctrl_fd := ctrl, n_manager_data_fd := data, Net_State.n_worker_index := i\<rparr>"
    using assms(1) by (auto simp: create_w_def Let_def split: prod.splits if_splits bind_splits)
  obtain c d where c: "net_add_read_event w ctrl CT_PROTOBUF True s1 = (Some c, s2)" "net_add_read_event w data CT_PROTOBUF True s2 = (Some d, s3)"
    using a by (auto simp: add_chanel_event_def split: prod.splits option.splits)
  show ?thesis using add_read_serves [OF c(1)] add_read_serves [OF c(2)] assms(2) a(3) by (simp add: served_def)
qed

end
