(* ===== verification/Zk_Props.thy ===== *)
theory Zk_Props
  imports Net_Props
begin

text \<open>
  Properties of the zookeeper client together with the node table and the workers: the tables of the
  manager and of its workers agree after a registration, a change of the children brings the table in
  line with zookeeper, and the client registers again until it succeeds.
\<close>

section \<open>Tables that differ in their version\<close>

text \<open>Equal up to \<open>m_version\<close>, which counts the changes a process has seen.\<close>

definition same_table :: "nodes \<Rightarrow> nodes \<Rightarrow> bool" where
  "same_table a b \<longleftrightarrow> a\<lparr>m_version := 0\<rparr> = b\<lparr>m_version := 0\<rparr>"

lemma same_table_refl [simp]: "same_table a a"
  by (simp add: same_table_def)

lemma same_table_iff: "same_table a b \<longleftrightarrow> (\<exists>v. b = a\<lparr>m_version := v\<rparr>)"
proof
  assume "same_table a b"
  then have "b = (a\<lparr>m_version := 0\<rparr>)\<lparr>m_version := m_version b\<rparr>" unfolding same_table_def by simp
  then show "\<exists>v. b = a\<lparr>m_version := v\<rparr>" by auto
qed (auto simp: same_table_def)

lemmas same_table_version = same_table_iff [THEN iffD1]

lemma same_table_upd [simp]: "same_table (a\<lparr>m_version := u\<rparr>) (a\<lparr>m_version := v\<rparr>)"
  by (simp add: same_table_def)

lemma hash_version [simp]: "hash (a\<lparr>m_version := v\<rparr>) obj = hash a obj"
  by (simp add: hash_def cong: HASH_ALGORITHM.case_cong)

lemma same_table_lookup: "same_table a b \<Longrightarrow> get_node_in_hash a ty obj = get_node_in_hash b ty obj"
  by (drule same_table_version) (auto simp: get_node_in_hash_def split: option.split)

lemma rel_option_bind:
  "rel_option R r q \<Longrightarrow> (\<And>a b. R a b \<Longrightarrow> rel_option S (f a) (g b)) \<Longrightarrow> rel_option S (r \<bind> f) (q \<bind> g)"
  by (cases r; cases q) auto

text \<open>Two results that agree up to the version.\<close>

abbreviation same_result :: "(bool \<times> nodes) option \<Rightarrow> (bool \<times> nodes) option \<Rightarrow> bool" where
  "same_result \<equiv> rel_option (rel_prod (=) same_table)"

lemma add_node_same:
  "same_table a b \<Longrightarrow> rel_prod (=) same_table (add_node md5 a ty h po wk) (add_node md5 b ty h po wk)"
  by (drule same_table_version) (auto simp: add_node_def Let_def same_table_def)

lemma add_workers_same: "same_table a b \<Longrightarrow> same_table (add_workers md5 is ty h po a) (add_workers md5 is ty h po b)"
proof (induction "is" arbitrary: a b)
  case (Cons i "is")
  have "rel_prod (=) same_table (add_node md5 a ty h po (c_int (int i))) (add_node md5 b ty h po (c_int (int i)))"
    by (rule add_node_same [OF Cons.prems])
  then show ?case by (auto simp: rel_prod_sel intro: Cons.IH)
qed simp

lemma del_node_same: "same_table a b \<Longrightarrow> same_result (del_node a i) (del_node b i)"
proof (drule same_table_version, elim exE)
  fix v assume b: "b = a\<lparr>m_version := v\<rparr>"
  show ?thesis
  proof (cases "map_of (m_nodes a) i")
    case (Some p)
    then show ?thesis using b
      by (cases "map_of (m_heap a) p")
        (auto simp: del_node_def Let_def same_table_def split: option.split)
  qed (use b in \<open>simp add: del_node_def same_table_def\<close>)
qed

lemma del_workers_same: "same_table a b \<Longrightarrow> rel_option same_table (del_workers is h po a) (del_workers is h po b)"
proof (induction "is" arbitrary: a b)
  case (Cons i "is")
  show ?case unfolding del_workers.simps
    by (rule rel_option_bind [OF del_node_same [OF Cons.prems]]) (auto intro: Cons.IH)
qed simp

lemma same_table_get:
  "same_table a b \<Longrightarrow> m_zk_nodes b = m_zk_nodes a" "same_table a b \<Longrightarrow> m_host_zk_paths b = m_host_zk_paths a"
  by (drule same_table_version, auto)+

lemma same_table_set:
  "same_table a b \<Longrightarrow> same_table (a\<lparr>m_zk_nodes := z\<rparr>) (b\<lparr>m_zk_nodes := z\<rparr>)"
  "same_table a b \<Longrightarrow> same_table (a\<lparr>m_host_zk_paths := h\<rparr>) (b\<lparr>m_host_zk_paths := h\<rparr>)"
  by (auto simp: same_table_iff) (metis nodes.surjective nodes.update_convs)+

lemma del_zk_node_same: "same_table a b \<Longrightarrow> same_result (del_zk_node a p) (del_zk_node b p)"
proof (cases "map_of (m_zk_nodes a) p")
  case (Some z)
  assume ab: "same_table a b"
  show ?thesis
    unfolding del_zk_node_def same_table_get(1) [OF ab] Some option.case
    by (rule rel_option_bind [OF del_workers_same [OF ab]])
      (simp add: Let_def same_table_get same_table_set)
qed (simp add: del_zk_node_def same_table_get)

lemma check_zk_same: "same_table a b \<Longrightarrow> same_result (check_zk_node_host a z) (check_zk_node_host b z)"
proof -
  assume ab: "same_table a b"
  have del: "same_result (do { (_, s) \<leftarrow> del_zk_node a p; if map_of (m_zk_nodes s) q = None then None else Some (True, s) })
      (do { (_, s) \<leftarrow> del_zk_node b p; if map_of (m_zk_nodes s) q = None then None else Some (True, s) })" for p q
    by (rule rel_option_bind [OF del_zk_node_same [OF ab]]) (auto simp: same_table_get)
  show ?thesis
    using ab del by (auto simp: check_zk_node_host_def same_table_get same_table_set split: option.split)
qed

lemma add_zk_same: "same_table a b \<Longrightarrow> same_result (add_zk_node md5 a z) (add_zk_node md5 b z)"
proof (cases "is_valid_zk_node z")
  case True
  assume ab: "same_table a b"
  let ?add = "\<lambda>s. add_workers md5 [1..<Suc (zn_worker_cnt z)] (zn_type z) (zn_host z) (zn_port_int z) s"
  let ?set = "\<lambda>s. s\<lparr>m_zk_nodes := uset (m_zk_nodes s) (zn_path z) z\<rparr>"
  have rest: "same_result
      (do { s \<leftarrow> (case map_of (m_zk_nodes c) (zn_path z) of
                  None \<Rightarrow> Some (?add (?set c))
                | Some old \<Rightarrow>
                    if old \<noteq> z then do {
                      let s = ?set c; let old = z;
                      s \<leftarrow> del_workers [1..<zn_worker_cnt old] (zn_host old) (zn_port_int old) s;
                      Some (?add s)
                    } else Some c);
          Some (True, s\<lparr>m_host_zk_paths := uset (m_host_zk_paths s) (host_key z) (zn_path z)\<rparr>) })
      (do { s \<leftarrow> (case map_of (m_zk_nodes d) (zn_path z) of
                  None \<Rightarrow> Some (?add (?set d))
                | Some old \<Rightarrow>
                    if old \<noteq> z then do {
                      let s = ?set d; let old = z;
                      s \<leftarrow> del_workers [1..<zn_worker_cnt old] (zn_host old) (zn_port_int old) s;
                      Some (?add s)
                    } else Some d);
          Some (True, s\<lparr>m_host_zk_paths := uset (m_host_zk_paths s) (host_key z) (zn_path z)\<rparr>) })"
    if cd: "same_table c d" for c d
  proof (rule rel_option_bind)
    have set: "same_table (?set c) (?set d)" using cd by (simp add: same_table_get same_table_set)
    have del: "rel_option same_table
        (do { s \<leftarrow> del_workers [1..<zn_worker_cnt z] (zn_host z) (zn_port_int z) (?set c); Some (?add s) })
        (do { s \<leftarrow> del_workers [1..<zn_worker_cnt z] (zn_host z) (zn_port_int z) (?set d); Some (?add s) })"
      by (rule rel_option_bind [OF del_workers_same [OF set]]) (simp add: add_workers_same)
    show "rel_option same_table
        (case map_of (m_zk_nodes c) (zn_path z) of
           None \<Rightarrow> Some (?add (?set c))
         | Some old \<Rightarrow>
             if old \<noteq> z then do {
               let s = ?set c; let old = z;
               s \<leftarrow> del_workers [1..<zn_worker_cnt old] (zn_host old) (zn_port_int old) s;
               Some (?add s)
             } else Some c)
        (case map_of (m_zk_nodes d) (zn_path z) of
           None \<Rightarrow> Some (?add (?set d))
         | Some old \<Rightarrow>
             if old \<noteq> z then do {
               let s = ?set d; let old = z;
               s \<leftarrow> del_workers [1..<zn_worker_cnt old] (zn_host old) (zn_port_int old) s;
               Some (?add s)
             } else Some d)"
      using cd set del by (simp add: same_table_get add_workers_same Let_def split: option.split)
  qed (simp add: same_table_get same_table_set)
  show ?thesis
    unfolding add_zk_node_def using True
    by (simp only: not_True_eq_False if_False) (rule rel_option_bind [OF check_zk_same [OF ab]], use rest in auto)
qed (simp add: add_zk_node_def)

section \<open>Registering\<close>

lemma clear_heap: "nodes_inv s \<Longrightarrow> m_heap (nodes_clear s) = []"
proof -
  assume inv: "nodes_inv s"
  have "p \<in> snd ` set (m_nodes s)" if "(p, n) \<in> set (m_heap s)" for p n
  proof -
    have d: "distinct (ukeys (m_heap s))" using inv by (simp add: nodes_inv_def rings_inv_def)
    have "map_of (m_heap s) p = Some n" using map_of_is_SomeI [OF d that] .
    then have "map_of (m_nodes s) (n_id n) = Some p" using inv rings_inv_cell by (auto simp: nodes_inv_def)
    then show ?thesis using map_of_SomeD by force
  qed
  then show ?thesis by (auto simp: nodes_clear_def filter_empty_conv)
qed

lemma cleared_same:
  assumes "nodes_inv a" and "nodes_inv b" and "m_vnode_cnt b = m_vnode_cnt a" and "m_ha b = m_ha a"
  shows "same_table ((nodes_clear a)\<lparr>m_my_zk_node := p\<rparr>) ((nodes_clear b)\<lparr>m_my_zk_node := p\<rparr>)"
  using clear_heap [OF assms(1)] clear_heap [OF assms(2)] assms(3,4) by (simp add: same_table_def nodes_clear_def)

text \<open>A node that is refused changes nothing, so a worker need not hear of it.\<close>

lemma add_zk_refused: "add_zk_node md5 s z = Some (False, s') \<Longrightarrow> s' = s"
  by (auto simp: add_zk_node_def check_zk_node_host_def split: if_splits option.splits bind_splits)

lemma load_json_same:
  "load_json_nodes md5 to_zk js a acc = Some (a', added) \<Longrightarrow>
     \<exists>new. added = acc @ new \<and> (\<forall>b. same_table a b \<longrightarrow> (\<exists>b'. add_zk_nodes md5 new b = Some b' \<and> same_table a' b'))"
proof (induction js arbitrary: a acc)
  case Nil
  then show ?case by (intro exI [of _ "[]"]) simp
next
  case (Cons j js)
  show ?case
  proof (cases "to_zk j")
    case None
    then show ?thesis using Cons by simp
  next
    case (Some zn)
    obtain ok a1 where 1: "add_zk_node md5 a zn = Some (ok, a1)"
      "load_json_nodes md5 to_zk js a1 (if ok then acc @ [zn] else acc) = Some (a', added)"
      using Cons.prems Some by (auto split: bind_splits)
    from Cons.IH [OF 1(2)] obtain new where new: "added = (if ok then acc @ [zn] else acc) @ new"
      and same: "\<And>b. same_table a1 b \<Longrightarrow> \<exists>b'. add_zk_nodes md5 new b = Some b' \<and> same_table a' b'" by blast
    show ?thesis
    proof (cases ok)
      case True
      have "\<exists>b'. add_zk_nodes md5 (zn # new) b = Some b' \<and> same_table a' b'" if "same_table a b" for b
      proof -
        have "same_result (add_zk_node md5 a zn) (add_zk_node md5 b zn)" using that by (rule add_zk_same)
        then obtain b1 where b1: "add_zk_node md5 b zn = Some (True, b1)" "same_table a1 b1"
          using 1(1) True by (auto simp: rel_option_iff split: option.splits)
        show ?thesis using same [OF b1(2)] b1(1) by simp
      qed
      then show ?thesis using new True by (intro exI [of _ "zn # new"]) simp
    next
      case False
      then have "a1 = a" using 1(1) add_zk_refused by simp
      then show ?thesis using new same False by (intro exI [of _ new]) simp
    qed
  qed
qed

lemma tables_req_children: "req_children w cmd data s = Some (ok, t) \<Longrightarrow> tables t = tables s"
proof -
  assume t: "req_children w cmd data s = Some (ok, t)"
  obtain q u where q: "new_seq s = (q, u)" by fastforce
  have "send_to_children w (int cmd) q data u = Some (ok, t)" using t q by (simp add: req_children_def)
  then show ?thesis using tables_children tables_new_seq [OF q] by simp
qed

lemma tables_send_to_conn: "send_to_conn w r head body s = Some (ok, t) \<Longrightarrow> tables t = tables s"
  by (auto simp: send_to_conn_def handle_write_proto_def close_unless_def Let_def
      split: option.splits bind_splits prod.splits if_splits) (metis snd_conv tables_close tables_write)+

lemma tables_send_ack: "send_ack w req err errstr data s = Some (ok, t) \<Longrightarrow> tables t = tables s"
  by (auto simp: send_ack_def send_to_fd_def Let_def intro: tables_send_to_conn)

lemma reg_zk_node_nodes:
  assumes "sl_parse_reg (w_sys w) (mb_data (rq_body req)) = Some rn" and "on_req_reg_zk_node w req s = Some (st, s')"
  shows "load_nodes (w_md5 w) rn (n_nodes s) = Some (n_nodes s')"
proof -
  obtain ns ok t where ns: "load_nodes (w_md5 w) rn (n_nodes s) = Some ns"
    "send_ack w req ERR_OK ''ok'' '''' (s\<lparr>n_nodes := ns\<rparr>) = Some (ok, t)" "s' = t"
    using assms by (auto simp: on_req_reg_zk_node_def ack_then_def split: bind_splits)
  show ?thesis using tables_send_ack [OF ns(2)] ns(1,3) by (simp add: tables_def)
qed

text \<open>
  C8. After a registration the workers have the manager's table. When the manager takes the answer of its
  registration, it clears its table, fills it with the nodes that zookeeper lists and sends the nodes
  it could add to its workers. A worker that handles the message with these bytes, whatever its table
  was, ends up with the same table except for the version counter, so it routes every object to the
  same node. That protobuf parses what it has serialised is a hypothesis on the message that is sent.
\<close>

theorem workers_get_the_managers_table:
  assumes "on_zk_register w task s = Some s'" and "zr_error (zt_res task) = z_ok"
    and "ze_parse_res (w_zk w) (zr_value (zt_res task)) = Some (my_path, js)" and "nodes_inv (n_nodes s)"
  shows "\<exists>rn s1 ok. send_children_reg_zk_node w rn s1 = Some (ok, s') \<and> n_nodes s1 = n_nodes s'
    \<and> rn_version rn = 0 \<and> rn_my_zk_path rn = my_path
    \<and> load_json_nodes (w_md5 w) (ze_to_zk (w_zk w)) js ((nodes_clear (n_nodes s))\<lparr>m_my_zk_node := my_path\<rparr>) []
        = Some (n_nodes s', rn_nodes rn)
    \<and> (sl_parse_reg (w_sys w) (sl_ser_reg (w_sys w) rn) = Some rn \<longrightarrow>
       (\<forall>req sw st sw'. mb_data (rq_body req) = sl_ser_reg (w_sys w) rn \<longrightarrow> nodes_inv (n_nodes sw) \<longrightarrow>
         m_vnode_cnt (n_nodes sw) = m_vnode_cnt (n_nodes s) \<longrightarrow> m_ha (n_nodes sw) = m_ha (n_nodes s) \<longrightarrow>
         on_req_reg_zk_node w req sw = Some (st, sw') \<longrightarrow>
           same_table (n_nodes s') (n_nodes sw')
           \<and> (\<forall>ty obj. get_node_in_hash (n_nodes sw') ty obj = get_node_in_hash (n_nodes s') ty obj)))"
proof -
  let ?f = "\<lambda>zc. zc\<lparr>z_register_index := 0, z_is_registered := True\<rparr>"
  obtain v ns added ok where v: "set_flags ?f s = Some v"
    "load_json_nodes (w_md5 w) (ze_to_zk (w_zk w)) js ((nodes_clear (n_nodes v))\<lparr>m_my_zk_node := my_path\<rparr>) [] = Some (ns, added)"
    "send_children_reg_zk_node w \<lparr>rn_version = 0, rn_my_zk_path = my_path, rn_nodes = added\<rparr> (v\<lparr>n_nodes := ns\<rparr>) = Some (ok, s')"
    using assms(1-3) by (auto simp: on_zk_register_def Let_def split: bind_splits)
  have nv: "n_nodes v = n_nodes s" using v(1) by (auto simp: set_flags_def put_zk_def)
  let ?rn = "\<lparr>rn_version = 0, rn_my_zk_path = my_path, rn_nodes = added\<rparr>"
  have ns': "n_nodes s' = ns" using tables_req_children v(3) by (fastforce simp: send_children_reg_zk_node_def tables_def)
  from load_json_same [OF v(2)] have new:
    "same_table ((nodes_clear (n_nodes s))\<lparr>m_my_zk_node := my_path\<rparr>) b \<Longrightarrow> \<exists>b'. add_zk_nodes (w_md5 w) added b = Some b' \<and> same_table ns b'" for b
    unfolding nv by auto
  have same: "same_table (n_nodes s') (n_nodes sw')"
    if "sl_parse_reg (w_sys w) (mb_data (rq_body req)) = Some ?rn" "nodes_inv (n_nodes sw)"
      "m_vnode_cnt (n_nodes sw) = m_vnode_cnt (n_nodes s)" "m_ha (n_nodes sw) = m_ha (n_nodes s)"
      "on_req_reg_zk_node w req sw = Some (st, sw')" for req sw st sw'
  proof -
    have "add_zk_nodes (w_md5 w) added ((nodes_clear (n_nodes sw))\<lparr>m_my_zk_node := my_path\<rparr>) = Some (n_nodes sw')"
      using reg_zk_node_nodes [OF that(1,5)] by (simp add: load_nodes_def)
    then show ?thesis using new [OF cleared_same [OF assms(4) that(2,3,4)]] ns' by auto
  qed
  have routes: "same_table (n_nodes s') (n_nodes sw')
      \<and> (\<forall>ty obj. get_node_in_hash (n_nodes sw') ty obj = get_node_in_hash (n_nodes s') ty obj)"
    if "sl_parse_reg (w_sys w) (sl_ser_reg (w_sys w) ?rn) = Some ?rn" "mb_data (rq_body req) = sl_ser_reg (w_sys w) ?rn"
      "nodes_inv (n_nodes sw)" "m_vnode_cnt (n_nodes sw) = m_vnode_cnt (n_nodes s)" "m_ha (n_nodes sw) = m_ha (n_nodes s)"
      "on_req_reg_zk_node w req sw = Some (st, sw')" for req sw st sw'
    using same [OF _ that(3-6)] that(1,2) same_table_lookup by metis
  show ?thesis
    by (rule exI [of _ ?rn], rule exI [of _ "v\<lparr>n_nodes := ns\<rparr>"], rule exI [of _ ok])
      (use v(2,3) ns' nv routes in simp)
qed

text \<open>A manager with a registered client whose queue works; \<open>toy_md5\<close> gives four virtual nodes per worker.\<close>

definition zk_world :: world where
  "zk_world = small_world\<lparr>w_md5 := toy_md5\<rparr>"

definition toy_client :: zk_client where
  "toy_client = \<lparr>z_bio = idle_bio, z_conf = toy_conf, z_has_zk = True, z_side = new_side, z_is_connected = True,
     z_is_registered = False, z_is_expired = False, z_register_index = 7\<rparr>"

definition zk_manager :: network where
  "zk_manager = (new_network NT_MANAGER)\<lparr>n_nodes := new_nodes 4 FNV1A_64, n_zk := Some toy_client\<rparr>"

definition answered :: "zk_cmd \<Rightarrow> string \<Rightarrow> zk_task" where
  "answered cmd path = (new_task path cmd '''' 0)\<lparr>zt_res := \<lparr>zr_error = 0, zr_errstr = ''ok'', zr_value = ''/k/logic/me'', zr_values = []\<rparr>\<rparr>"

lemma zk_world_simps [simp]: "w_zk zk_world = toy_zk ''{}''" "w_md5 zk_world = toy_md5"
  by (simp_all add: zk_world_def small_world_def)

text \<open>
  A wire format for registrations whose nodes differ only in their paths: one line for each path. The
  parser reads the lines back.
\<close>

definition reg_bytes :: "register_node \<Rightarrow> string" where
  "reg_bytes rn = concat (map (\<lambda>p. p @ [CHR 0x0A]) (rn_my_zk_path rn # map zn_path (rn_nodes rn)))"

fun reg_lines :: "string \<Rightarrow> string \<Rightarrow> string list" where
  "reg_lines acc [] = []"
| "reg_lines acc (c # cs) = (if c = CHR 0x0A then acc # reg_lines [] cs else reg_lines (acc @ [c]) cs)"

definition reg_parse :: "string \<Rightarrow> register_node option" where
  "reg_parse s =
     (case reg_lines [] s of
        [] \<Rightarrow> None
      | p # ps \<Rightarrow> Some \<lparr>rn_version = 0, rn_my_zk_path = p, rn_nodes = map (\<lambda>q. toy_node\<lparr>zn_path := q\<rparr>) ps\<rparr>)"

definition reg_world :: world where
  "reg_world = zk_world\<lparr>w_sys := plain_sys\<lparr>sl_ser_reg := reg_bytes, sl_parse_reg := reg_parse\<rparr>\<rparr>"

definition toy_registration :: register_node where
  "toy_registration = \<lparr>rn_version = 0, rn_my_zk_path = ''/k/logic/me'', rn_nodes = [toy_node]\<rparr>"

text \<open>A worker with another table gets the message over a connection that is up.\<close>

definition reg_request :: request where
  "reg_request = connect_request\<lparr>rq_body := req_body (reg_bytes toy_registration)\<rparr>"

definition reg_worker :: network where
  "reg_worker = (with_peer watched_conn (new_network NT_WORKER))\<lparr>n_nodes := two_nodes\<rparr>"

lemma reg_world_simps [simp]:
  "w_zk reg_world = toy_zk ''{}''" "w_md5 reg_world = toy_md5" "w_pb reg_world = w_pb small_world"
  "w_al reg_world = w_al small_world" "w_send reg_world = w_send small_world"
  "sl_ser_reg (w_sys reg_world) = reg_bytes" "sl_parse_reg (w_sys reg_world) = reg_parse"
  by (simp_all add: reg_world_def zk_world_def small_world_def)

lemma reg_parse_bytes: "reg_parse (reg_bytes toy_registration) = Some toy_registration"
  by (simp add: reg_parse_def reg_bytes_def toy_registration_def toy_node_def)

lemma toy_zk_added:
  "\<exists>ns. add_zk_node toy_md5 ((new_nodes 4 FNV1A_64)\<lparr>m_my_zk_node := p\<rparr>) toy_node = Some (True, ns)
     \<and> map_of (m_zk_nodes ns) (zn_path toy_node) = Some toy_node"
  by (simp add: add_zk_node_def is_valid_zk_node_def toy_node_def check_zk_node_host_def new_nodes_def add_workers_frame add_node_frame)

lemma register_toy: "\<exists>s'. on_zk_register reg_world (answered ZK_REGISTER '''') zk_manager = Some s'"
proof -
  let ?f = "\<lambda>zc. zc\<lparr>z_register_index := 0, z_is_registered := True\<rparr>"
  obtain ns where ns: "add_zk_node toy_md5 ((new_nodes 4 FNV1A_64)\<lparr>m_my_zk_node := ''/k/logic/me''\<rparr>) toy_node = Some (True, ns)"
    using toy_zk_added [of "''/k/logic/me''"] by (elim exE conjE)
  have clear: "nodes_clear (new_nodes 4 FNV1A_64) = new_nodes 4 FNV1A_64" by (simp add: nodes_clear_def new_nodes_def)
  show ?thesis
    by (simp add: on_zk_register_def answered_def new_task_def z_ok_def toy_zk_def set_flags_def zk_manager_def put_zk_def
        clear ns send_children_reg_zk_node_def req_children_def new_seq_def tick_def send_to_children_def is_manager_def
        new_network_def new_worker_data_def Let_def)
qed

lemma reg_worker_answers: "\<exists>sw'. on_req_reg_zk_node reg_world reg_request reg_worker = Some (ST_OK, sw')"
proof -
  obtain ns where ns: "add_zk_node toy_md5 ((new_nodes 4 FNV1A_64)\<lparr>m_my_zk_node := ''/k/logic/me''\<rparr>) toy_node = Some (True, ns)"
    using toy_zk_added [of "''/k/logic/me''"] by (elim exE conjE)
  have "nodes_clear two_nodes = new_nodes 4 FNV1A_64" by (simp add: nodes_clear_def new_nodes_def two_nodes_def)
  then have load: "load_nodes toy_md5 toy_registration (n_nodes reg_worker) = Some ns"
    using ns by (simp add: load_nodes_def toy_registration_def reg_worker_def)
  let ?s = "reg_worker\<lparr>n_nodes := ns\<rparr>"
  have s: "conns_inv ?s" "get_conn ?s (7, 1) = Some watched_conn" "m_io_callback_fn (n_events ?s)"
    using watched_peer(1-3) [of NT_WORKER] by (simp_all add: reg_worker_def conns_inv_def)
  have req: "rq_fd_data reg_request = (7, 1)" "rq_head reg_request = rq_head connect_request"
    "mb_data (rq_body reg_request) = reg_bytes toy_registration"
    by (simp_all add: reg_request_def connect_request_def tcp_request_def req_body_def)
  have ack: "can_ack reg_world reg_request ERR_OK ''ok'' '''' watched_conn"
    using can_ack_small(1) req(2) by (simp add: can_ack_def ack_frame_def)
  have up: "w_send reg_world (n_tick ?s) = Sent 1000" by simp
  obtain t where "send_ack reg_world reg_request ERR_OK ''ok'' '''' ?s = Some (True, t)"
    using send_ack_sends [OF s(1) _ ack disjI1 [OF up] s(3) watched_peer(4)] s(2) req(1) by auto
  then show ?thesis
    using load req(3) reg_parse_bytes by (simp add: on_req_reg_zk_node_def ack_then_def)
qed

theorem workers_get_the_managers_table_witness:
  "\<exists>s' sw'. on_zk_register reg_world (answered ZK_REGISTER '''') zk_manager = Some s'
    \<and> on_req_reg_zk_node reg_world reg_request reg_worker = Some (ST_OK, sw')
    \<and> same_table (n_nodes s') (n_nodes sw') \<and> map_of (m_zk_nodes (n_nodes s')) (zn_path toy_node) = Some toy_node"
proof -
  obtain s' where s': "on_zk_register reg_world (answered ZK_REGISTER '''') zk_manager = Some s'" using register_toy by (elim exE)
  obtain sw' where sw': "on_req_reg_zk_node reg_world reg_request reg_worker = Some (ST_OK, sw')" using reg_worker_answers by (elim exE)
  have e: "zr_error (zt_res (answered ZK_REGISTER '''')) = z_ok" by (simp add: answered_def z_ok_def)
  have p: "ze_parse_res (w_zk reg_world) (zr_value (zt_res (answered ZK_REGISTER ''''))) = Some (''/k/logic/me'', [''{}''])"
    by (simp add: answered_def toy_zk_def)
  have i: "nodes_inv (n_nodes zk_manager)" by (simp add: zk_manager_def new_nodes_inv)
  have c: "n_nodes zk_manager = new_nodes 4 FNV1A_64" "nodes_clear (new_nodes 4 FNV1A_64) = new_nodes 4 FNV1A_64"
    by (simp_all add: zk_manager_def nodes_clear_def new_nodes_def)
  have w: "nodes_inv (n_nodes reg_worker)" "m_vnode_cnt (n_nodes reg_worker) = 4" "m_ha (n_nodes reg_worker) = FNV1A_64"
    using two_nodes_inv by (simp_all add: reg_worker_def two_nodes_def)
  have req: "mb_data (rq_body reg_request) = reg_bytes toy_registration" by (simp add: reg_request_def req_body_def)
  obtain ns where ns: "add_zk_node toy_md5 ((new_nodes 4 FNV1A_64)\<lparr>m_my_zk_node := ''/k/logic/me''\<rparr>) toy_node = Some (True, ns)"
    "map_of (m_zk_nodes ns) (zn_path toy_node) = Some toy_node"
    using toy_zk_added by blast
  obtain rn where rn: "rn_version rn = 0" "rn_my_zk_path rn = ''/k/logic/me''" "n_nodes s' = ns" "rn_nodes rn = [toy_node]"
    "sl_parse_reg (w_sys reg_world) (sl_ser_reg (w_sys reg_world) rn) = Some rn \<longrightarrow>
      (\<forall>req sw st sw'. mb_data (rq_body req) = sl_ser_reg (w_sys reg_world) rn \<longrightarrow> nodes_inv (n_nodes sw) \<longrightarrow>
         m_vnode_cnt (n_nodes sw) = 4 \<longrightarrow> m_ha (n_nodes sw) = FNV1A_64 \<longrightarrow> on_req_reg_zk_node reg_world req sw = Some (st, sw') \<longrightarrow>
           same_table (n_nodes s') (n_nodes sw'))"
    using workers_get_the_managers_table [OF s' e p i] ns(1) unfolding c by (auto simp: toy_zk_def new_nodes_def)
  have "rn = toy_registration" using rn(1,2,4) by (cases rn) (simp add: toy_registration_def)
  then have "same_table (n_nodes s') (n_nodes sw')" using rn(5) reg_parse_bytes req w sw' by auto
  then show ?thesis using s' sw' rn(3) ns(2) by blast
qed

section \<open>The children of a directory\<close>

lemma tables_zk: "tables t = tables s \<Longrightarrow> n_zk t = n_zk s \<and> n_nodes t = n_nodes s"
  by (simp add: tables_def)

lemma get_new_nodes_Some:
  "get_new_nodes w ps s = Some s' \<Longrightarrow> n_zk s = Some zc \<Longrightarrow>
     n_nodes s' = n_nodes s \<and> (\<exists>zc' ts. n_zk s' = Some zc' \<and> b_req_tasks (z_bio zc') = b_req_tasks (z_bio zc) @ ts
       \<and> map zt_path ts = ps \<and> (\<forall>t \<in> set ts. zt_cmd t = ZK_GET))"
proof (induction ps arbitrary: s zc)
  case (Cons p ps)
  obtain u where u: "zk_add_task w p ZK_GET '''' s = Some u" "get_new_nodes w ps u = Some s'"
    using Cons.prems(1) by (auto split: bind_splits)
  obtain b where b: "add_cmd_task p ZK_GET '''' (ze_now (w_zk w) (length (zs_calls (z_side zc)))) (z_bio zc) = Some b"
    "u = put_zk (zc\<lparr>z_bio := b\<rparr>) s"
    using u(1) Cons.prems(2) by (auto simp: zk_add_task_def split: bind_splits)
  have "n_zk u = Some (zc\<lparr>z_bio := b\<rparr>)" "n_nodes u = n_nodes s" using b(2) by (simp_all add: put_zk_def)
  then obtain zc' ts where ts: "n_nodes s' = n_nodes s" "n_zk s' = Some zc'" "b_req_tasks (z_bio zc') = b_req_tasks b @ ts"
    "map zt_path ts = ps" "\<forall>t \<in> set ts. zt_cmd t = ZK_GET"
    using Cons.IH [OF u(2), of "zc\<lparr>z_bio := b\<rparr>"] by auto
  define t where "t = new_task p ZK_GET '''' (ze_now (w_zk w) (length (zs_calls (z_side zc))))"
  have "b_req_tasks b = b_req_tasks (z_bio zc) @ [t]"
    using b(1) by (auto simp: add_cmd_task_def t_def split: if_splits)
  moreover have "zt_path t = p" "zt_cmd t = ZK_GET" by (simp_all add: t_def new_task_def)
  ultimately show ?case using ts by (intro conjI exI [of _ zc'] exI [of _ "t # ts"]) simp_all
qed simp

lemma del_old_nodes_Some:
  "del_old_nodes w ps s = Some s' \<Longrightarrow> nodes_inv (n_nodes s) \<Longrightarrow>
     n_zk s' = n_zk s \<and> nodes_inv (n_nodes s')
     \<and> map_of (m_zk_nodes (n_nodes s')) = map_of (m_zk_nodes (n_nodes s)) |` (- set ps)"
proof (induction ps arbitrary: s)
  case (Cons p ps)
  obtain u where u: "tell_deleted w p s = Some u" "del_old_nodes w ps u = Some s'"
    using Cons.prems(1) by (auto split: bind_splits)
  obtain ok ns where ns: "del_zk_node (n_nodes s) p = Some (ok, ns)" "nodes_inv ns"
    "map_of (m_zk_nodes ns) = (map_of (m_zk_nodes (n_nodes s)))(p := None)"
    using del_zk_node_keeps [OF Cons.prems(2), of p] by blast
  have "n_zk u = n_zk s \<and> n_nodes u = ns"
  proof (cases ok)
    case True
    then obtain k where "send_children_del_zk_node w p (s\<lparr>n_nodes := ns\<rparr>) = Some (k, u)"
      using u(1) ns(1) by (auto simp: tell_deleted_def with_nodes_def)
    then have "tables u = tables (s\<lparr>n_nodes := ns\<rparr>)" unfolding send_children_del_zk_node_def by (rule tables_req_children)
    then show ?thesis by (simp add: tables_def)
  next
    case False
    then show ?thesis using u(1) ns(1) by (auto simp: tell_deleted_def with_nodes_def)
  qed
  then show ?case using Cons.IH [OF u(2)] ns by (auto simp: restrict_map_def fun_eq_iff)
qed (simp add: restrict_map_def)

text \<open>
  C19. When zookeeper reports the children of a directory, the table follows: the nodes of that type which
  are not among the children are gone, every other node is still there, and the data of exactly
  the children that are not known is asked for.
\<close>

theorem child_change_follows_zookeeper:
  assumes "on_zk_child_change w task s = Some s'" and "zr_error (zt_res task) = z_ok"
    and "nodes_inv (n_nodes s)" and "n_zk s = Some zc"
    and "children = map (join_path (zt_path task)) (zr_values (zt_res task))" and "distinct children"
    and "known = {p. \<exists>z. map_of (m_zk_nodes (n_nodes s)) p = Some z \<and> zn_type z = last_part (zt_path task)}"
  shows "nodes_inv (n_nodes s')
    \<and> map_of (m_zk_nodes (n_nodes s')) = map_of (m_zk_nodes (n_nodes s)) |` (- (known - set children))
    \<and> (\<exists>zc' gets. n_zk s' = Some zc' \<and> b_req_tasks (z_bio zc') = b_req_tasks (z_bio zc) @ gets
        \<and> set (map zt_path gets) = set children - known \<and> (\<forall>t \<in> set gets. zt_cmd t = ZK_GET))"
proof -
  obtain new del where diff: "get_zk_diff_nodes (n_nodes s) (last_part (zt_path task)) children = (new, del)" by fastforce
  have sets: "set new = set children - known" "set del = known - set children"
    using zk_diff_nodes_are_the_differences [OF assms(3,6), of "last_part (zt_path task)"] assms(7) by (simp_all add: diff)
  obtain u where u: "get_new_nodes w new s = Some u" "del_old_nodes w del u = Some s'"
    using assms(1,2) diff assms(5) by (auto simp: on_zk_child_change_def Let_def split: bind_splits)
  obtain zc' ts where ts: "n_nodes u = n_nodes s" "n_zk u = Some zc'" "b_req_tasks (z_bio zc') = b_req_tasks (z_bio zc) @ ts"
    "map zt_path ts = new" "\<forall>t \<in> set ts. zt_cmd t = ZK_GET"
    using get_new_nodes_Some [OF u(1) assms(4)] by (elim conjE exE)
  have "nodes_inv (n_nodes u)" using assms(3) ts(1) by simp
  note d = del_old_nodes_Some [OF u(2) this]
  show ?thesis
    using d ts sets by (intro conjI exI [of _ zc'] exI [of _ ts]) simp_all
qed

definition child_manager :: network where
  "child_manager = zk_manager\<lparr>n_nodes := one_zk\<rparr>"

definition child_task :: zk_task where
  "child_task = (answered NOTIFY_NODE_CHILD_CAHNGED ''/k/logic'')\<lparr>zt_res := \<lparr>zr_error = 0, zr_errstr = [], zr_value = [], zr_values = [''n2'']\<rparr>\<rparr>"

lemma child_paths: "map (join_path (zt_path child_task)) (zr_values (zt_res child_task)) = [''/k/logic/n2'']" "last_part (zt_path child_task) = ''logic''"
  by (simp_all add: child_task_def answered_def new_task_def) code_simp+

lemma child_diff: "get_zk_diff_nodes one_zk ''logic'' [''/k/logic/n2''] = ([''/k/logic/n2''], [''/k/n1''])"
  by code_simp

lemma child_run: "\<exists>s'. on_zk_child_change zk_world child_task child_manager = Some s'"
proof -
  let ?s = "put_zk (toy_client\<lparr>z_bio := idle_bio\<lparr>b_req_tasks := [new_task ''/k/logic/n2'' ZK_GET '''' 7]\<rparr>\<rparr>) child_manager"
  have g: "get_new_nodes zk_world [''/k/logic/n2''] child_manager = Some ?s"
    by (simp add: zk_add_task_def child_manager_def zk_manager_def add_cmd_task_def toy_client_def idle_bio_def toy_zk_def)
  obtain ok ns where ns: "del_zk_node (n_nodes ?s) ''/k/n1'' = Some (ok, ns)"
    using del_zk_node_keeps [OF one_zk_inv, of "''/k/n1''"] by (auto simp: put_zk_def child_manager_def)
  have d: "\<exists>u. tell_deleted zk_world ''/k/n1'' ?s = Some u"
    using ns by (simp add: tell_deleted_def with_nodes_def send_children_del_zk_node_def req_children_def new_seq_def tick_def
        send_to_children_def is_manager_def put_zk_def child_manager_def zk_manager_def new_network_def new_worker_data_def Let_def)
  have nodes: "n_nodes child_manager = one_zk" by (simp add: child_manager_def)
  have e: "zr_error (zt_res child_task) = z_ok" by (simp add: child_task_def z_ok_def)
  obtain u where u: "tell_deleted zk_world ''/k/n1'' ?s = Some u" using d by (elim exE)
  have "on_zk_child_change zk_world child_task child_manager
    = do { s \<leftarrow> get_new_nodes zk_world [''/k/logic/n2''] child_manager; del_old_nodes zk_world [''/k/n1''] s }"
    unfolding on_zk_child_change_def Let_def child_paths nodes child_diff e
    by (simp del: get_new_nodes.simps del_old_nodes.simps)
  then show ?thesis unfolding g by (simp add: u)
qed

theorem child_change_follows_zookeeper_witness:
  "\<exists>s'. on_zk_child_change zk_world child_task child_manager = Some s'
    \<and> map_of (m_zk_nodes (n_nodes s')) = map_of (m_zk_nodes one_zk) |` (- ({''/k/n1''} - set [''/k/logic/n2'']))
    \<and> (\<exists>zc' gets. n_zk s' = Some zc' \<and> b_req_tasks (z_bio zc') = gets \<and> set (map zt_path gets) = {''/k/logic/n2''})"
proof -
  obtain s' where s': "on_zk_child_change zk_world child_task child_manager = Some s'" using child_run by (elim exE)
  have e: "zr_error (zt_res child_task) = z_ok" by (simp add: child_task_def z_ok_def)
  have i: "nodes_inv (n_nodes child_manager)" by (simp add: child_manager_def one_zk_inv)
  have z: "n_zk child_manager = Some toy_client" by (simp add: child_manager_def zk_manager_def)
  have k: "{''/k/n1''} = {p. \<exists>z. map_of (m_zk_nodes (n_nodes child_manager)) p = Some z \<and> zn_type z = last_part (zt_path child_task)}"
    unfolding child_paths by (auto simp: child_manager_def one_zk_def sample_zk_def split: if_splits)
  show ?thesis
    using child_change_follows_zookeeper [OF s' e i z child_paths(1) [symmetric] _ k] s'
    by (auto simp: child_manager_def toy_client_def idle_bio_def)
qed

section \<open>Registering again\<close>

fun zk_ticks :: "world \<Rightarrow> nat \<Rightarrow> network \<Rightarrow> network option" where
  "zk_ticks w 0 s = Some s"
| "zk_ticks w (Suc n) s = do { s \<leftarrow> zk_on_repeat_timer w s; zk_ticks w n s }"

text \<open>A client that is not registered and has no answers waiting; its session is up or has expired.\<close>

definition not_registered :: "zk_client \<Rightarrow> bool" where
  "not_registered zc \<longleftrightarrow> z_has_zk zc \<and> b_ready (z_bio zc) \<and> b_ack_tasks (z_bio zc) = [] \<and> \<not> zc_no_zookeeper (z_conf zc)
     \<and> \<not> z_is_registered zc"

definition unregistered :: "zk_client \<Rightarrow> bool" where
  "unregistered zc \<longleftrightarrow> not_registered zc \<and> (z_is_connected zc \<or> z_is_expired zc)"

lemma no_acks:
  "n_zk s = Some zc \<Longrightarrow> b_ready (z_bio zc) \<Longrightarrow> b_ack_tasks (z_bio zc) = [] \<Longrightarrow> handle_acks w s = Some s"
  by (cases "z_bio zc") (simp add: handle_acks_def fetch_acks_def fetch_loop_take put_zk_def)

lemma quiet_tick:
  assumes "n_zk s = Some zc" and "unregistered zc" and "0 \<le> z_register_index zc" and "z_register_index zc < 9"
  shows "zk_on_repeat_timer w s = Some (put_zk (zc\<lparr>z_register_index := z_register_index zc + 1\<rparr>) s)"
  using assms no_acks [of "put_zk (zc\<lparr>z_register_index := z_register_index zc + 1\<rparr>) s" "zc\<lparr>z_register_index := z_register_index zc + 1\<rparr>" w]
  by (simp add: zk_on_repeat_timer_def retry_register_def unregistered_def not_registered_def Let_def) (simp add: put_zk_def)

lemma tenth_tick:
  assumes "n_zk s = Some zc" and "unregistered zc" and "z_register_index zc = 9"
  shows "\<exists>s' zc' t. zk_on_repeat_timer w s = Some s' \<and> n_zk s' = Some zc' \<and> z_register_index zc' = 0
    \<and> b_req_tasks (z_bio zc') = b_req_tasks (z_bio zc) @ [t] \<and> zt_cmd t = ZK_REGISTER
    \<and> last (zs_calls (z_side zc')) = Zoo_init (c_str (zc_servers (z_conf zc)))"
proof -
  let ?zc = "zc\<lparr>z_register_index := 10\<rparr>"
  obtain side where side: "zk_connect (w_zk w) (zc_servers (z_conf zc)) (z_side zc) = (z_ok, side)"
    "last (zs_calls side) = Zoo_init (c_str (zc_servers (z_conf zc)))"
    by (auto simp: zk_connect_def zoo_def Let_def)
  define t where "t = new_task '''' ZK_REGISTER (ze_config_text (w_zk w) (z_conf zc)) (ze_now (w_zk w) (length (zs_calls side)))"
  let ?b = "(z_bio zc)\<lparr>b_req_tasks := b_req_tasks (z_bio zc) @ [t]\<rparr>"
  let ?zc' = "zc\<lparr>z_register_index := 0, z_side := side, z_bio := ?b\<rparr>"
  have r: "reconnect w (put_zk ?zc s) = Some (True, put_zk (?zc\<lparr>z_side := side, z_bio := ?b\<rparr>) s)"
    using assms side(1)
    by (simp add: reconnect_def node_register_def zk_add_task_def add_cmd_task_def put_zk_def unregistered_def not_registered_def t_def Let_def)
  have "retry_register w s = Some (put_zk ?zc' s)"
    using assms r by (simp add: retry_register_def unregistered_def not_registered_def set_flags_def put_zk_def Let_def)
  moreover have "handle_acks w (put_zk ?zc' s) = Some (put_zk ?zc' s)"
    using assms(2) by (intro no_acks [of _ ?zc']) (simp_all add: put_zk_def unregistered_def not_registered_def)
  ultimately have "zk_on_repeat_timer w s = Some (put_zk ?zc' s)" by (simp add: zk_on_repeat_timer_def)
  then show ?thesis
    using side(2) by (intro exI [of _ "put_zk ?zc' s"] exI [of _ ?zc'] exI [of _ t]) (simp add: put_zk_def t_def new_task_def)
qed

lemma unregistered_ticks:
  assumes "n_zk s = Some zc" and "unregistered zc" and "z_register_index zc = int i" and "i < 10"
  shows "\<exists>s' zc' t. zk_ticks w (10 - i) s = Some s' \<and> n_zk s' = Some zc' \<and> z_register_index zc' = 0
    \<and> b_req_tasks (z_bio zc') = b_req_tasks (z_bio zc) @ [t] \<and> zt_cmd t = ZK_REGISTER
    \<and> last (zs_calls (z_side zc')) = Zoo_init (c_str (zc_servers (z_conf zc)))"
  using assms
proof (induction "9 - i" arbitrary: i s zc)
  case 0
  then have i: "10 - i = Suc 0" "z_register_index zc = 9" by auto
  obtain s' zc' t where "zk_on_repeat_timer w s = Some s'" "n_zk s' = Some zc'" "z_register_index zc' = 0"
    "b_req_tasks (z_bio zc') = b_req_tasks (z_bio zc) @ [t]" "zt_cmd t = ZK_REGISTER"
    "last (zs_calls (z_side zc')) = Zoo_init (c_str (zc_servers (z_conf zc)))"
    using tenth_tick [OF 0(2,3) i(2), of w] by (elim exE conjE)
  then show ?case unfolding i(1) by simp
next
  case (Suc k)
  then have i: "10 - i = Suc (10 - Suc i)" "k = 9 - Suc i" "Suc i < 10" by auto
  let ?zc = "zc\<lparr>z_register_index := z_register_index zc + 1\<rparr>"
  have tick: "zk_on_repeat_timer w s = Some (put_zk ?zc s)"
    by (rule quiet_tick [OF Suc.prems(1,2)]) (use Suc.prems(3) i in auto)
  have "n_zk (put_zk ?zc s) = Some ?zc" "unregistered ?zc" "z_register_index ?zc = int (Suc i)"
    using Suc.prems(2,3) by (simp_all add: put_zk_def unregistered_def not_registered_def)
  from Suc.hyps(1) [OF i(2) this i(3)] show ?case using tick unfolding i(1) by simp
qed

lemma connecting_ticks:
  assumes "n_zk s = Some zc" and "not_registered zc" and "\<not> z_is_connected zc" and "\<not> z_is_expired zc"
  shows "zk_ticks w n s = Some s"
proof (induction n)
  case (Suc n)
  have "zk_on_repeat_timer w s = Some s"
    using assms no_acks [of s zc w] by (simp add: zk_on_repeat_timer_def retry_register_def not_registered_def)
  then show ?case using Suc by simp
qed simp

text \<open>
  C33. A client that is not registered tries again, as long as no answer and no watch event arrives
  between the ticks of the timer: if its session is up or has expired, then at the tenth tick it
  reconnects to the servers and queues another registration, and the counter starts again, so it
  does so every ten ticks. If it is neither connected nor expired (it is still connecting), it never
  tries again: the ticks change nothing, however many there are.
\<close>

theorem unregistered_client_registers_again:
  assumes "n_zk s = Some zc" and "not_registered zc" and "z_register_index zc = int i" and "i < 10"
  shows "if z_is_connected zc \<or> z_is_expired zc
    then \<exists>s' zc' t. zk_ticks w (10 - i) s = Some s' \<and> n_zk s' = Some zc' \<and> z_register_index zc' = 0
      \<and> b_req_tasks (z_bio zc') = b_req_tasks (z_bio zc) @ [t] \<and> zt_cmd t = ZK_REGISTER
      \<and> last (zs_calls (z_side zc')) = Zoo_init (c_str (zc_servers (z_conf zc)))
    else \<forall>n. zk_ticks w n s = Some s"
  using unregistered_ticks [OF assms(1) _ assms(3,4)] connecting_ticks [OF assms(1,2)] assms(2)
  by (simp add: unregistered_def)

theorem unregistered_client_registers_again_witness:
  "\<exists>s' zc' t. zk_ticks zk_world 3 zk_manager = Some s' \<and> n_zk s' = Some zc' \<and> z_register_index zc' = 0
    \<and> b_req_tasks (z_bio zc') = [t] \<and> zt_cmd t = ZK_REGISTER"
proof -
  have z: "n_zk zk_manager = Some toy_client" by (simp add: zk_manager_def)
  have u: "not_registered toy_client" "z_is_connected toy_client" by (simp_all add: not_registered_def toy_client_def idle_bio_def toy_conf_def)
  have i: "z_register_index toy_client = int 7" by (simp add: toy_client_def)
  show ?thesis using unregistered_client_registers_again [OF z u(1) i, of zk_world] u(2) by (auto simp: toy_client_def idle_bio_def)
qed

section \<open>The queue before its mutex\<close>

text \<open>
  A manager without a zookeeper configuration crashes at the first tick of its timer. The client of
  such a manager gives up before it creates the thread and the mutex, but \<open>load_zk_mgr\<close> keeps it, and
  every tick hands out its answers under the mutex that was never initialised.
\<close>

lemma no_zookeeper_config_breaks_the_timer:
  assumes "n_zk s = Some (new_zk_client conf0)"
    and "zc_no_zookeeper conf \<or> zc_servers conf = [] \<or> zc_log_path conf = []"
  shows "\<exists>s'. zk_init w conf s = Some (False, s') \<and> zk_on_repeat_timer w s' = None"
  using assms
  by (intro exI [of _ "put_zk ((new_zk_client conf0)\<lparr>z_conf := conf\<rparr>) s"])
    (simp add: zk_init_def zk_on_repeat_timer_def retry_register_def handle_acks_def fetch_acks_def put_zk_def new_zk_client_def new_bio_def)

end
