(* ===== verification/System_Props.thy ===== *)
theory System_Props
  imports Manager_Props Zk_Props
begin

text \<open>
  Properties of whole processes: what a manager that starts has, how a client that is accepted at the gate
  comes to a worker, and what a configuration without zookeeper does to the manager.
\<close>

section \<open>What setting up leaves alone\<close>

definition kept :: "network \<Rightarrow> zk_client option \<times> (channel_t \<times> int) list \<times> net_type \<times> worker_data \<times> events" where
  "kept s = (n_zk s, n_wait_send_fds s, n_type s, n_worker_data s, n_events s)"

lemma kept_framed: "framed kept"
  by (auto simp: framed_def kept_def tick_def put_conn_def close_conn_def close_fd_def emit_def Let_def split: option.splits)

lemma kept_simps [simp]:
  "kept (close_fd fd s) = kept s" "kept (s\<lparr>n_tick := t\<rparr>) = kept s"
  "kept (s\<lparr>n_node_host_fd := a, n_node_host := b, n_node_port := c\<rparr>) = kept s"
  "kept (s\<lparr>n_gate_host_fd := a, n_gate_host := b, n_gate_port := c\<rparr>) = kept s"
  by (simp_all add: kept_def close_fd_def emit_def)

lemma listen_to_port_kept: "listen_to_port e host port s = (fd, s') \<Longrightarrow> kept s' = kept s"
  by (auto simp: listen_to_port_def Let_def split: prod.splits if_splits)

lemma listen_node_kept:
  assumes "listen_node w e ai s = (ok, s')"
  shows "kept s' = kept s"
proof (cases "ai_node_host ai = []")
  case False
  obtain fd s1 where l: "listen_to_port e (ai_node_host ai) (c_int (int (ai_node_port ai))) s = (fd, s1)" by fastforce
  let ?s = "s1\<lparr>n_node_host_fd := fd, n_node_host := ai_node_host ai, n_node_port := c_int (int (ai_node_port ai))\<rparr>"
  obtain r t where r: "net_add_read_event w fd CT_PROTOBUF False ?s = (r, t)" by fastforce
  have "kept t = kept s" using add_read_frame [OF kept_framed r] listen_to_port_kept [OF l] by simp
  then show ?thesis
    using assms False l r listen_to_port_kept [OF l] by (auto simp: listen_node_def Let_def split: if_splits option.splits)
qed (use assms in \<open>simp add: listen_node_def\<close>)

lemma listen_gate_kept:
  assumes "listen_gate w e ai s = (ok, s')"
  shows "kept s' = kept s"
proof (cases "ai_gate_host ai = []")
  case False
  obtain fd s1 where l: "listen_to_port e (ai_gate_host ai) (c_int (int (ai_gate_port ai))) s = (fd, s1)" by fastforce
  let ?s = "s1\<lparr>n_gate_host_fd := fd, n_gate_host := ai_gate_host ai, n_gate_port := c_int (int (ai_gate_port ai))\<rparr>"
  obtain r t where r: "net_add_read_event w fd (n_gate_codec ?s) False ?s = (r, t)" by fastforce
  have "kept t = kept s" using add_read_frame [OF kept_framed r] listen_to_port_kept [OF l] by simp
  then show ?thesis
    using assms False l r listen_to_port_kept [OF l] by (auto simp: listen_gate_def Let_def split: if_splits option.splits)
qed (use assms in \<open>simp add: listen_gate_def\<close>)

lemma load_public_result:
  assumes "load_public e conf s = (True, t)"
  shows "n_type t = n_type s \<and> n_wait_send_fds t = n_wait_send_fds s \<and> m_io_callback_fn (n_events t) \<and> m_ev_loop (n_events t)"
  using assms by (auto simp: load_public_def net_load_config_def set_gate_codec_def create_events_def events_create_def
      setup_io_callback_def setup_io_timer_callback_def setup_cmd_timer_callback_def setup_session_timer_callback_def Let_def
      split: if_splits option.splits)

lemma zk_init_frame:
  "zk_init w conf s = Some (ok, t) \<Longrightarrow> n_worker_data t = n_worker_data s \<and> n_events t = n_events s \<and> n_type t = n_type s
    \<and> n_wait_send_fds t = n_wait_send_fds s"
  by (auto simp: zk_init_def zk_client_connect_def node_register_def zk_add_task_def put_zk_def Let_def
      split: bind_splits if_splits prod.splits)

text \<open>The state of a manager after \<open>create_m\<close>.\<close>

lemma create_m_result:
  assumes "create_m w e ai conf s0 = Some (True, s)"
  shows "\<exists>t ok u. load_public e conf s0 = (True, t) \<and>
      zk_init w (sc_zk conf) (t\<lparr>n_worker_data := new_worker_data, n_zk := Some (new_zk_client (sc_zk conf))\<rparr>) = Some (ok, u)
      \<and> kept s = kept u"
proof -
  obtain t where t: "load_public e conf s0 = (True, t)"
    using assms by (auto simp: create_m_def Let_def split: prod.splits if_splits)
  let ?t = "t\<lparr>n_worker_data := new_worker_data\<rparr>"
  obtain ok u where u: "zk_init w (sc_zk conf) (?t\<lparr>n_zk := Some (new_zk_client (sc_zk conf))\<rparr>) = Some (ok, u)"
    using assms t by (auto simp: create_m_def load_worker_data_mgr_def load_zk_mgr_def Let_def split: bind_splits)
  obtain v where v: "listen_node w e ai u = (True, v)" "listen_gate w e ai v = (True, s)"
    using assms t u by (auto simp: create_m_def load_worker_data_mgr_def load_zk_mgr_def Let_def split: bind_splits prod.splits if_splits)
  have "kept s = kept u" using listen_node_kept [OF v(1)] listen_gate_kept [OF v(2)] by simp
  then show ?thesis using t u by auto
qed

section \<open>No zookeeper\<close>

text \<open>
  C30. A manager whose configuration turns zookeeper off, or leaves out its servers or its log, crashes at
  the first tick of its timer. Its client gives up before it creates the background thread and the
  mutex of its queue, but \<open>load_zk_mgr\<close> keeps it and reports success, and every tick takes the answers of
  the thread under the mutex that was never initialised.
\<close>

theorem manager_without_zookeeper_crashes:
  assumes "create_m w e ai conf (fresh_network NT_MANAGER) = Some (True, s)"
    and "zc_no_zookeeper (sc_zk conf) \<or> zc_servers (sc_zk conf) = [] \<or> zc_log_path (sc_zk conf) = []"
  shows "on_repeat_timer w s = None"
proof -
  obtain t ok u where t: "load_public e conf (fresh_network NT_MANAGER) = (True, t)"
    and u: "zk_init w (sc_zk conf) (t\<lparr>n_worker_data := new_worker_data, n_zk := Some (new_zk_client (sc_zk conf))\<rparr>) = Some (ok, u)"
    and s: "kept s = kept u" using create_m_result [OF assms(1)] by blast
  have "n_zk u = Some (new_zk_client (sc_zk conf))"
    using u assms(2) by (auto simp: zk_init_def put_zk_def new_zk_client_def)
  then have zk: "n_zk s = Some (new_zk_client (sc_zk conf))" using s by (simp add: kept_def)
  have ty: "n_type s = NT_MANAGER" "n_wait_send_fds s = []"
    using s zk_init_frame [OF u] load_public_result [OF t] by (simp_all add: kept_def fresh_network_def)
  then have "check_wait_send_fds w s = Some s" by (cases s) (simp add: check_wait_send_fds_def)
  moreover have "zk_on_repeat_timer w s = None"
    by (simp add: zk_on_repeat_timer_def retry_register_def handle_acks_def fetch_acks_def zk new_zk_client_def new_bio_def)
  ultimately show ?thesis using ty(1) by (simp add: on_repeat_timer_def is_manager_def zk)
qed

theorem manager_without_zookeeper_crashes_witness:
  "\<exists>s. create_m small_world (pe_setup plain_env) test_addr quiet_conf (fresh_network NT_MANAGER) = Some (True, s)
     \<and> on_repeat_timer small_world s = None"
proof -
  obtain s where s: "create_m small_world (pe_setup plain_env) test_addr quiet_conf (fresh_network NT_MANAGER) = Some (True, s)"
    using test_manager_starts by blast
  from manager_without_zookeeper_crashes [OF s] show ?thesis using s by (simp add: quiet_conf_def)
qed

section \<open>A manager that starts\<close>

lemma create_loop_granted:
  assumes g: "kernel_grants w p" and fork: "fork_fresh p"
  shows "mg_net m = Some s \<Longrightarrow> m_io_callback_fn (n_events s) \<Longrightarrow> table_ok (n_worker_data s) \<Longrightarrow>
    \<exists>m' s'. create_workers_loop w p is m = Some m' \<and> mg_net m' = Some s' \<and> table_ok (n_worker_data s')
      \<and> windexes (n_worker_data s') = windexes (n_worker_data s) + mset is
      \<and> mg_restart_workers m' = mg_restart_workers m \<and> mg_info m' = mg_info m"
proof (induction "is" arbitrary: m s)
  case (Cons i "is")
  obtain s1 where s1: "create_worker_net w p i s = Some (True, s1)" "adds i True s s1"
    using create_worker_granted [OF g Cons.prems(2,3) fork] by blast
  have c: "create_worker w p i m = Some (True, with_net m s1)" using Cons.prems(1) s1(1) by (simp add: create_worker_def)
  have "mg_net (with_net m s1) = Some s1" "m_io_callback_fn (n_events s1)" "table_ok (n_worker_data s1)"
    using s1(2) Cons.prems(2) by (simp_all add: adds_def with_net_def)
  from Cons.IH [OF this] show ?case using c s1(2) by (auto simp: adds_def with_net_def)
qed simp

lemma signals_keep_callbacks:
  "create_signals ss e = (ok, e') \<Longrightarrow> m_io_callback_fn e' = m_io_callback_fn e"
  by (induction ss arbitrary: e)
    (auto simp: create_signal_event_def split: prod.splits bool.splits if_splits)

text \<open>The parts of \<open>init\<close> before the workers are created.\<close>

lemma mgr_load_config_result:
  assumes "mgr_load_config p path m = Some (ok, m')" and "pe_load p path = Some conf" and "sc_text conf \<noteq> []"
    and "mg_conf m = None" and "str_to_int (sc_worker_cnt conf) = Some n"
  shows "mg_conf m' = Some conf \<and> ni_worker_cnt (mg_info m') = n \<and> mg_restart_workers m' = mg_restart_workers m"
  using assms by (auto simp: mgr_load_config_def conf_text_def node_info_of_def Let_def split: if_splits bind_splits)

lemma mgr_load_logger_frame:
  "mgr_load_logger p m = Some (ok, m') \<Longrightarrow> mg_conf m' = mg_conf m \<and> mg_info m' = mg_info m \<and> mg_restart_workers m' = mg_restart_workers m"
  by (auto simp: mgr_load_logger_def Let_def split: bind_splits prod.splits if_splits)

lemma mgr_load_network_result:
  assumes "mgr_load_network w p m = Some (True, m')"
  shows "\<exists>s. m' = with_net m s \<and> n_worker_data s = new_worker_data \<and> m_io_callback_fn (n_events s)"
proof -
  obtain conf s where s: "create_m w (pe_setup p) (ni_addr (mg_info m)) conf (fresh_network NT_MANAGER) = Some (True, s)" "m' = with_net m s"
    using assms by (auto simp: mgr_load_network_def split: bind_splits if_splits)
  obtain t ok u where t: "load_public (pe_setup p) conf (fresh_network NT_MANAGER) = (True, t)"
    and u: "zk_init w (sc_zk conf) (t\<lparr>n_worker_data := new_worker_data, n_zk := Some (new_zk_client (sc_zk conf))\<rparr>) = Some (ok, u)"
    and k: "kept s = kept u" using create_m_result [OF s(1)] by blast
  show ?thesis using s(2) k zk_init_frame [OF u] load_public_result [OF t] by (auto simp: kept_def)
qed

lemma mgr_signals_result:
  assumes "mgr_setup_signal_events m = (True, m')" and "mg_net m = Some s"
  shows "\<exists>e. m' = with_net m (s\<lparr>n_events := e\<rparr>) \<and> m_io_callback_fn e = m_io_callback_fn (n_events s)"
proof -
  obtain ok e where r: "create_signals [17, 4, 7, 8, 9] ((n_events s)\<lparr>m_sig_callback_fn := True\<rparr>) = (ok, e)" by fastforce
  then have "net_setup_signal_events s = (ok, s\<lparr>n_events := e\<rparr>)"
    by (simp add: net_setup_signal_events_def setup_signal_events_def del: create_signals.simps)
  then have "m' = with_net m (s\<lparr>n_events := e\<rparr>)"
    using assms by (auto simp: mgr_setup_signal_events_def split: if_splits)
  then show ?thesis using signals_keep_callbacks [OF r] by auto
qed

lemma mgr_timer_result:
  assumes "mgr_setup_timer w m = (True, m')" and "mg_net m = Some s"
  shows "\<exists>t e. m' = (with_net m ((tick s)\<lparr>n_events := e\<rparr>))\<lparr>mg_timer := t\<rparr> \<and> m_io_callback_fn e = m_io_callback_fn (n_events s)"
proof -
  obtain t where "net_setup_timer w (mg_timer m) s = (t, (tick s)\<lparr>n_events := (n_events s)\<lparr>m_repeat_timer_callback_fn := True\<rparr>\<rparr>)"
    by (simp add: net_setup_timer_def Let_def)
  then have "m' = (with_net m ((tick s)\<lparr>n_events := (n_events s)\<lparr>m_repeat_timer_callback_fn := True\<rparr>\<rparr>))\<lparr>mg_timer := t\<rparr>"
    using assms by (auto simp: mgr_setup_timer_def split: if_splits)
  then show ?thesis by (intro exI conjI) (assumption, simp)
qed

text \<open>
  C10. A manager that starts has all its workers. When \<open>init\<close> succeeds with a configuration for \<open>n\<close> workers, and
  the system grants sockets, memory and processes, the table of workers holds exactly the indexes 1 to
  \<open>n\<close>, each once, and none is waiting to be restarted.
\<close>

theorem started_manager_has_all_workers:
  assumes "kernel_grants w p" and "fork_fresh p" and "pe_load p path = Some conf" and "sc_text conf \<noteq> []"
    and "str_to_int (sc_worker_cnt conf) = Some n" and "mgr_init w p path new_manager = Some (True, m)"
  shows "\<exists>s. mg_net m = Some s \<and> table_ok (n_worker_data s) \<and> windexes (n_worker_data s) = mset [1..n]
    \<and> mg_restart_workers m = []"
proof -
  obtain cwd m1 where m1: "mgr_load_config p path (new_manager\<lparr>mg_info := (mg_info new_manager)\<lparr>ni_work_path := cwd\<rparr>\<rparr>) = Some (True, m1)"
    and r1: "(do {
              (ok, m) \<leftarrow> mgr_load_logger p m1;
              if \<not> ok then Some (False, m)
              else do {
                (ok, m) \<leftarrow> mgr_load_network w p m;
                if \<not> ok then Some (False, m)
                else if \<not> callback_init (mg_logger m \<noteq> None) (mg_net m \<noteq> None) then Some (False, m)
                else
                  let (ok, m) = mgr_setup_signal_events (m\<lparr>mg_callback := True\<rparr>)
                  in if \<not> ok then Some (False, m)
                     else
                       let (ok, m) = mgr_setup_timer w m
                       in if \<not> ok then Some (False, m) else map_option (Pair True) (create_workers w p m)
              }
            }) = Some (True, m)"
    using assms(6) by (auto simp: mgr_init_def split: option.splits bind_splits if_splits)
  obtain m2 where m2: "mgr_load_logger p m1 = Some (True, m2)"
    and r2: "(do {
                (ok, m) \<leftarrow> mgr_load_network w p m2;
                if \<not> ok then Some (False, m)
                else if \<not> callback_init (mg_logger m \<noteq> None) (mg_net m \<noteq> None) then Some (False, m)
                else
                  let (ok, m) = mgr_setup_signal_events (m\<lparr>mg_callback := True\<rparr>)
                  in if \<not> ok then Some (False, m)
                     else
                       let (ok, m) = mgr_setup_timer w m
                       in if \<not> ok then Some (False, m) else map_option (Pair True) (create_workers w p m)
              }) = Some (True, m)"
    using r1 by (auto split: bind_splits if_splits)
  obtain m3 where m3: "mgr_load_network w p m2 = Some (True, m3)"
    and r3: "(let (ok, m) = mgr_setup_signal_events (m3\<lparr>mg_callback := True\<rparr>)
                  in if \<not> ok then Some (False, m)
                     else
                       let (ok, m) = mgr_setup_timer w m
                       in if \<not> ok then Some (False, m) else map_option (Pair True) (create_workers w p m)) = Some (True, m)"
    using r2 by (auto split: bind_splits if_splits)
  obtain m4 m5 where m4: "mgr_setup_signal_events (m3\<lparr>mg_callback := True\<rparr>) = (True, m4)" and m5: "mgr_setup_timer w m4 = (True, m5)"
    and m: "create_workers w p m5 = Some m"
    using r3 by (auto simp: Let_def split: prod.splits if_splits)
  have c1: "mg_restart_workers m1 = []" "ni_worker_cnt (mg_info m1) = n"
    using mgr_load_config_result [OF m1 assms(3,4) _ assms(5)] by (simp_all add: new_manager_def)
  note c2 = mgr_load_logger_frame [OF m2]
  obtain s where s: "m3 = with_net m2 s" "n_worker_data s = new_worker_data" "m_io_callback_fn (n_events s)"
    using mgr_load_network_result [OF m3] by blast
  have "mg_net (m3\<lparr>mg_callback := True\<rparr>) = Some s" using s(1) by (simp add: with_net_def)
  from mgr_signals_result [OF m4 this] obtain e where e: "m4 = with_net (m3\<lparr>mg_callback := True\<rparr>) (s\<lparr>n_events := e\<rparr>)" "m_io_callback_fn e"
    using s(3) by auto
  have "mg_net m4 = Some (s\<lparr>n_events := e\<rparr>)" using e(1) by (simp add: with_net_def)
  from mgr_timer_result [OF m5 this] obtain tm e' where
    m5': "m5 = (with_net m4 ((tick (s\<lparr>n_events := e\<rparr>))\<lparr>n_events := e'\<rparr>))\<lparr>mg_timer := tm\<rparr>" "m_io_callback_fn e'" using e(2) by auto
  let ?s = "(tick (s\<lparr>n_events := e\<rparr>))\<lparr>n_events := e'\<rparr>"
  have "new_worker_data\<lparr>m_itr_worker := 0\<rparr> = new_worker_data" by (simp add: new_worker_data_def)
  then have tok: "table_ok new_worker_data" using new_worker_data_inv by (simp add: table_ok_def)
  have 5: "mg_net m5 = Some ?s" "m_io_callback_fn (n_events ?s)" "table_ok (n_worker_data ?s)"
    using m5' s(2) tok by (simp_all add: with_net_def tick_def)
  have info: "ni_worker_cnt (mg_info m5) = n" "mg_restart_workers m5 = []" using c1 c2 s(1) e(1) m5'(1) by (simp_all add: with_net_def)
  from create_loop_granted [OF assms(1,2) 5, of "[1..n]"] obtain m' s' where
    m': "create_workers_loop w p [1..n] m5 = Some m'" "mg_net m' = Some s'" "table_ok (n_worker_data s')"
      "windexes (n_worker_data s') = windexes (n_worker_data ?s) + mset [1..n]" "mg_restart_workers m' = mg_restart_workers m5" by blast
  have "m = m'" using m m'(1) info(1) by (simp add: create_workers_def)
  moreover have "windexes (n_worker_data ?s) = {#}" using s(2) by (simp add: windexes_def new_worker_data_def tick_def)
  ultimately show ?thesis using m' info(2) by auto
qed

text \<open>
  The manager of the configuration above, with both addresses in it and two workers, does start; it needs
  the memory of its timer besides.
\<close>

definition boot_conf :: server_conf where
  "boot_conf = quiet_conf\<lparr>sc_gate_host := ''::'', sc_gate_port := ''7001''\<rparr>"

definition boot_env :: proc_env where
  "boot_env = plain_env\<lparr>pe_load := (\<lambda>_. Some boot_conf)\<rparr>"

lemma boot_ok: "kernel_grants small_world boot_env" "fork_fresh boot_env"
  using plain_grants plain_fork by (simp_all add: boot_env_def kernel_grants_def fork_fresh_def)

lemma create_signals_granted:
  "m_ev_loop e \<Longrightarrow> m_sig_callback_fn e \<Longrightarrow> \<exists>e'. create_signals ss e = (True, e')"
  by (induction ss arbitrary: e) (simp_all add: create_signal_event_def)

lemma boot_create:
  "\<exists>s. create_m small_world (pe_setup boot_env) test_addr boot_conf (fresh_network NT_MANAGER) = Some (True, s)
     \<and> m_io_callback_fn (n_events s) \<and> m_ev_loop (n_events s) \<and> n_worker_data s = new_worker_data"
proof -
  obtain s where s: "create_m small_world (pe_setup plain_env) test_addr quiet_conf (fresh_network NT_MANAGER) = Some (True, s)"
    using test_manager_starts by blast
  obtain t ok u where t: "load_public (pe_setup plain_env) quiet_conf (fresh_network NT_MANAGER) = (True, t)"
    and u: "zk_init small_world (sc_zk quiet_conf) (t\<lparr>n_worker_data := new_worker_data, n_zk := Some (new_zk_client (sc_zk quiet_conf))\<rparr>)
      = Some (ok, u)"
    and k: "kept s = kept u" using create_m_result [OF s] by blast
  have "sc_keep_alive boot_conf = sc_keep_alive quiet_conf" "sc_node_type boot_conf = sc_node_type quiet_conf"
    "sc_gate_codec boot_conf = sc_gate_codec quiet_conf" "sc_zk boot_conf = sc_zk quiet_conf" by (simp_all add: boot_conf_def)
  then have "load_public e boot_conf s = load_public e quiet_conf s"
    "load_zk_mgr small_world boot_conf s = load_zk_mgr small_world quiet_conf s" for e s
    by (simp_all only: load_public_def net_load_config_def load_zk_mgr_def)
  then have l: "load_public (pe_setup plain_env) boot_conf = load_public (pe_setup plain_env) quiet_conf"
    "load_zk_mgr small_world boot_conf = load_zk_mgr small_world quiet_conf" by (intro ext, blast)+
  have p: "pe_setup boot_env = pe_setup plain_env" by (simp add: boot_env_def)
  have "create_m small_world (pe_setup boot_env) test_addr boot_conf (fresh_network NT_MANAGER)
      = create_m small_world (pe_setup plain_env) test_addr quiet_conf (fresh_network NT_MANAGER)"
    unfolding create_m_def p l by (rule refl)
  then show ?thesis using s k zk_init_frame [OF u] load_public_result [OF t] by (simp add: kept_def)
qed

lemma boot_config:
  "mgr_load_config boot_env path (new_manager\<lparr>mg_info := i\<rparr>)
    = Some (True, new_manager\<lparr>mg_conf := Some boot_conf, mg_info := i\<lparr>ni_conf_path := path, ni_worker_cnt := 2,
        ni_node_type := ''gate'', ni_addr := test_addr\<rparr>\<rparr>)"
  by (simp add: mgr_load_config_def boot_env_def plain_env_def boot_conf_def quiet_conf_def plain_conf_def new_manager_def conf_text_def
      node_info_of_def test_addr_def str_to_int_def stoi_def is_space_def digits_val_def is_digit_def digit_val_def c_uint_def Let_def)

lemma boot_inits: "\<exists>m. mgr_init small_world boot_env ''kim.json'' new_manager = Some (True, m)"
proof -
  obtain s where s: "create_m small_world (pe_setup boot_env) test_addr boot_conf (fresh_network NT_MANAGER) = Some (True, s)"
    "m_io_callback_fn (n_events s)" "m_ev_loop (n_events s)" "n_worker_data s = new_worker_data" using boot_create by blast
  let ?i = "(mg_info new_manager)\<lparr>ni_work_path := ''/''\<rparr>"
  let ?m1 = "new_manager\<lparr>mg_conf := Some boot_conf, mg_info := ?i\<lparr>ni_conf_path := ''kim.json'', ni_worker_cnt := 2,
        ni_node_type := ''gate'', ni_addr := test_addr\<rparr>\<rparr>"
  have cwd: "pe_getcwd boot_env = Some ''/''" by (simp add: boot_env_def plain_env_def)
  have "level_of_name ''debug'' = Some LL_DEBUG" by code_simp
  then obtain k where k: "make_logger boot_env ''/'' boot_conf = (True, k)"
    by (simp add: make_logger_def set_log_path_def set_level_def boot_env_def plain_env_def boot_conf_def quiet_conf_def plain_conf_def Let_def)
  let ?l = "k\<lparr>lg_worker_index := 0, lg_is_manager := True\<rparr>"
  have l: "mgr_load_logger boot_env ?m1 = Some (True, ?m1\<lparr>mg_logger := Some ?l\<rparr>)" by (simp add: mgr_load_logger_def k)
  let ?m2 = "?m1\<lparr>mg_logger := Some ?l\<rparr>"
  have n: "mgr_load_network small_world boot_env ?m2 = Some (True, with_net ?m2 s)" by (simp add: mgr_load_network_def s(1))
  obtain e where e: "create_signals [17, 4, 7, 8, 9] ((n_events s)\<lparr>m_sig_callback_fn := True\<rparr>) = (True, e)"
    using create_signals_granted [of "(n_events s)\<lparr>m_sig_callback_fn := True\<rparr>" "[17, 4, 7, 8, 9]"] s(3)
    by (auto simp del: create_signals.simps)
  let ?m3 = "with_net ?m2 (s\<lparr>n_events := e\<rparr>)\<lparr>mg_callback := True\<rparr>"
  have sig: "mgr_setup_signal_events ((with_net ?m2 s)\<lparr>mg_callback := True\<rparr>) = (True, ?m3)"
    by (simp add: mgr_setup_signal_events_def net_setup_signal_events_def setup_signal_events_def e with_net_def del: create_signals.simps)
  obtain m4 where m4: "mgr_setup_timer small_world ?m3 = (True, m4)"
    by (simp add: mgr_setup_timer_def net_setup_timer_def add_repeat_timer_def add_timer_event_def small_world_def with_net_def new_manager_def Let_def)
  from mgr_timer_result [OF m4, of "s\<lparr>n_events := e\<rparr>"] obtain t e' where
    m4': "m4 = (with_net ?m3 ((tick (s\<lparr>n_events := e\<rparr>))\<lparr>n_events := e'\<rparr>))\<lparr>mg_timer := t\<rparr>" "m_io_callback_fn e' = m_io_callback_fn e"
    by (auto simp: with_net_def)
  have tok: "table_ok new_worker_data" using new_worker_data_inv by (simp add: table_ok_def new_worker_data_def)
  have net: "mg_net m4 = Some ((tick (s\<lparr>n_events := e\<rparr>))\<lparr>n_events := e'\<rparr>)"
    using m4'(1) by (simp add: with_net_def)
  have "m_io_callback_fn e'" using m4'(2) signals_keep_callbacks [OF e] s(2) by simp
  then obtain m where "create_workers small_world boot_env m4 = Some m"
    using create_loop_granted [OF boot_ok net, of "[1..ni_worker_cnt (mg_info m4)]"] s(4) tok by (auto simp: create_workers_def tick_def)
  moreover have "mg_net (with_net m s) = Some s" "mg_logger (with_net m s) = mg_logger m" for m s by (simp_all add: with_net_def)
  ultimately show ?thesis by (simp add: mgr_init_def cwd boot_config l n sig m4 callback_init_def)
qed

theorem started_manager_has_all_workers_witness:
  "\<exists>m s. mgr_init small_world boot_env ''kim.json'' new_manager = Some (True, m) \<and> mg_net m = Some s
     \<and> windexes (n_worker_data s) = {#1, 2#} \<and> mg_restart_workers m = []"
proof -
  obtain m where m: "mgr_init small_world boot_env ''kim.json'' new_manager = Some (True, m)" using boot_inits by blast
  have "pe_load boot_env ''kim.json'' = Some boot_conf" "sc_text boot_conf \<noteq> []" "str_to_int (sc_worker_cnt boot_conf) = Some 2"
    by (simp_all add: boot_env_def boot_conf_def quiet_conf_def plain_conf_def str_to_int_def stoi_def is_space_def digits_val_def is_digit_def digit_val_def)
  from started_manager_has_all_workers [OF boot_ok this m] obtain s where
    "mg_net m = Some s" "windexes (n_worker_data s) = mset [1..2]" "mg_restart_workers m = []" by blast
  then show ?thesis using m by (simp add: upto.simps)
qed

section \<open>The way of a client\<close>

text \<open>What the pointer of a new connection is good for.\<close>

lemma add_read_pointer:
  assumes "net_add_read_event w fd ty sys s = (Some r, s')"
  shows "\<exists>c. get_conn s' r = Some c \<and> map_of (n_conns s') fd = Some c \<and> c_fd c = fd"
proof -
  obtain c io where sd: "map_of (n_conns s') fd = Some c" using add_read_serves [OF assms] by (auto simp: served_def)
  define t where "t = (if sys then tick s else tick (tick (tick s)))"
  obtain q v where q: "create_conn w fd t = (q, v)" by fastforce
  obtain c where c: "q = (fd, c_id c)" "get_conn v q = Some c" "fd_data c = q" using create_conn_new [OF q] by blast
  let ?c = "(snd (conn_init ty (now w v) c))\<lparr>c_active_time := now w v, c_state := S_CONNECTED\<rparr>"
  have id: "c_fd ?c = fd" "c_id ?c = c_id c" using c(1,3) by (auto simp: conn_init_def fd_data_def split: codec_type.split)
  have "net_add_read_event w fd ty sys s = (case add_read_event (n_events v) (w_mem w (n_tick v)) fd (c_ev_io ?c) of
        None \<Rightarrow> (None, tick (put_conn ?c v))
      | Some io \<Rightarrow> (Some q, tick (put_conn (?c\<lparr>c_ev_io := Some io, c_is_system := (sys \<or> c_is_system ?c)\<rparr>) v)))"
    using assms q c(2) by (auto simp: net_add_read_event_def t_def Let_def split: if_splits option.splits)
  then obtain io where "r = q" "s' = tick (put_conn (?c\<lparr>c_ev_io := Some io, c_is_system := (sys \<or> c_is_system ?c)\<rparr>) v)"
    using assms by (auto split: option.splits)
  then show ?thesis using id c(1) by (simp add: get_conn_def put_conn_def tick_def del: map_of_eq_Some_iff)
qed

lemma codec_of_codec_num [simp]: "codec_of_num (codec_num t) = t"
  by (cases t) (simp_all add: codec_of_num_def codec_num_def)

text \<open>A worker that gets a descriptor with its message and then finds the channel empty.\<close>

definition delivers :: "control_msg \<Rightarrow> bool" where
  "delivers cm \<longleftrightarrow> cm_len_ok cm \<and> cm_rights cm \<and> \<not> cm_truncated cm"

definition timed :: "network \<Rightarrow> int \<Rightarrow> bool" where
  "timed s fd \<longleftrightarrow> (\<exists>c t. map_of (n_conns s) fd = Some c \<and> c_timer c = Some t \<and> tm_active t)"

lemma add_io_timer_granted:
  "m_io_timer_callback_fn e \<Longrightarrow> \<exists>t. add_io_timer e True lag secs x = Some t \<and> tm_active t"
  by (cases x) (simp_all add: add_io_timer_def add_timer_event_def zero_timer_def)

lemma tick_conns: "n_conns (tick s) = n_conns s"
  by (simp add: tick_def)

lemma put_conn_at: "map_of (n_conns (tick (put_conn c v))) d = (if d = c_fd c then Some c else map_of (n_conns v) d)"
  by (simp add: put_conn_def tick_def del: map_of_eq_Some_iff)

lemma served_with_timer:
  assumes "served v fd False ty" and "map_of (n_conns v) fd = Some c" and "c_fd c = fd"
  shows "served (tick (put_conn ((if b then c\<lparr>c_is_system := True\<rparr> else c)\<lparr>c_timer := t\<rparr>) v)) fd b ty"
proof -
  let ?c = "(if b then c\<lparr>c_is_system := True\<rparr> else c)\<lparr>c_timer := t\<rparr>"
  obtain io where io: "is_connected c" "\<not> c_is_system c" "c_ev_io c = Some io" "io_active io" "io_read io"
    "c_codec c = (case ty of CT_PROTOBUF \<Rightarrow> Proto_codec | CT_HTTP \<Rightarrow> Http_codec new_codec_http | _ \<Rightarrow> No_codec)"
    using assms(1,2) unfolding served_def by (metis option.inject)
  have "is_connected ?c" "c_is_system ?c = b" "c_ev_io ?c = Some io" "c_codec ?c = c_codec c" "c_fd ?c = fd"
    using io assms(3) by (cases b; simp add: is_connected_def)+
  moreover from this have "map_of (n_conns (tick (put_conn ?c v))) fd = Some ?c"
    by (simp add: put_conn_def tick_def del: map_of_eq_Some_iff)
  ultimately show ?thesis unfolding served_def using io by metis
qed

lemma read_transfer_serves:
  assumes grants: "\<forall>t. w_sockopt w t \<and> w_mem w t" and ev: "m_io_callback_fn (n_events s)" "m_io_timer_callback_fn (n_events s)"
    and msg: "w_recvmsg w (n_tick s) = Recvmsg_ok n ch cm" "SIZEOF_CHANNEL \<le> n" "delivers cm"
    and rest: "\<forall>t > n_tick s. w_recvmsg w t = Recvmsg_err EAGAIN"
  shows "\<exists>s'. read_transfer_fd w ch0 s = Some s' \<and> served s' (cm_fd cm) (ch_is_system ch \<noteq> 0) (codec_of_num (ch_codec ch))
    \<and> timed s' (cm_fd cm) \<and> (\<forall>d. d \<noteq> cm_fd cm \<longrightarrow> map_of (n_conns s') d = map_of (n_conns s) d)"
proof -
  let ?fd = "cm_fd cm" and ?ty = "codec_of_num (ch_codec ch)"
  have rc: "read_channel (w_recvmsg w (n_tick s)) ch0 = (0, ch\<lparr>ch_fd := ?fd\<rparr>)"
    using msg by (simp add: read_channel_def delivers_def SIZEOF_CHANNEL_def Let_def)
  have "m_io_callback_fn (n_events (tick s))" using ev(1) by (simp add: tick_def)
  from add_read_granted [OF grants this] obtain r v where
    v: "net_add_read_event w ?fd ?ty False (tick s) = (Some r, v)" "n_events v = n_events (tick s)" by blast
  obtain c where c: "get_conn v r = Some c" "map_of (n_conns v) ?fd = Some c" "c_fd c = ?fd" using add_read_pointer [OF v(1)] by blast
  note sv = add_read_serves [OF v(1)]
  have tk: "n_tick s < n_tick v" using evolves_net_add_read_event [of False, OF evolves_refl v(1)] by (simp add: evolves_def tick_def)
  let ?c = "if ch_is_system ch \<noteq> 0 then c\<lparr>c_is_system := True\<rparr> else c"
  obtain t where t: "add_io_timer (n_events v) (w_mem w (n_tick v)) (w_lag w (n_tick v)) (n_keep_alive v) (c_timer ?c) = Some t"
    "tm_active t"
    using add_io_timer_granted [of "n_events v"] grants ev(2) v(2) by (simp add: tick_def) blast
  let ?u = "tick (put_conn (?c\<lparr>c_timer := Some t\<rparr>) v)"
  have "w_recvmsg w (n_tick ?u) = Recvmsg_err EAGAIN" using rest tk by (simp add: tick_def put_conn_def)
  then have "read_transfer_loop (Suc k) w ch1 ?u = Some (tick ?u)" for k ch1
    by (simp add: read_channel_def Let_def)
  from this [of 998] have stop: "read_transfer_loop 999 w ch1 ?u = Some (tick ?u)" for ch1 by (simp del: read_transfer_loop.simps)
  have m: "MAX_ACCEPTS_PER_CALL = Suc (Suc 998)" by (simp add: MAX_ACCEPTS_PER_CALL_def)
  have run: "read_transfer_fd w ch0 s = Some (tick ?u)"
    unfolding read_transfer_fd_def m read_transfer_loop.simps(2) [of "Suc 998"] Let_def rc
    using v(1) c(1) t(1) stop by (cases "ch_is_system ch = 0") (simp_all add: EAGAIN_def del: read_transfer_loop.simps)
  have serves: "served ?u ?fd (ch_is_system ch \<noteq> 0) ?ty"
    by (rule served_with_timer [OF conjunct1 [OF sv] c(2,3)])
  have fd: "c_fd (?c\<lparr>c_timer := Some t\<rparr>) = ?fd" using c(3) by (cases "ch_is_system ch = 0") simp_all
  have "map_of (n_conns ?u) ?fd = Some (?c\<lparr>c_timer := Some t\<rparr>)" using put_conn_at [of "?c\<lparr>c_timer := Some t\<rparr>" v ?fd] fd by metis
  moreover have "c_timer (?c\<lparr>c_timer := Some t\<rparr>) = Some t" by simp
  ultimately have timed: "timed ?u ?fd" unfolding timed_def using t(2) by metis
  have others: "\<forall>d. d \<noteq> ?fd \<longrightarrow> map_of (n_conns ?u) d = map_of (n_conns s) d"
    using conjunct2 [OF sv] put_conn_at [of "?c\<lparr>c_timer := Some t\<rparr>" v] fd by (metis tick_conns)
  have "served (tick ?u) d b ty = served ?u d b ty" "timed (tick ?u) d = timed ?u d" for d b ty
    by (simp_all only: served_def timed_def tick_conns)
  then show ?thesis using run serves timed others by (metis tick_conns)
qed

text \<open>
  C6. A client accepted at the gate comes to a worker. Whatever message the manager sends when its gate is
  readable carries the accepted descriptor and is followed by its closing in the manager only; and a
  worker that receives that message, with the descriptor under the number the kernel gives it, serves it
  with the codec of the gate, as a client and not as a node, with its keep-alive timer running, and
  touches no other connection.
\<close>

theorem accepted_client_reaches_a_worker:
  assumes "is_manager m" and "n_gate_host_fd m \<noteq> n_node_host_fd m"
    and "on_io_read w u c0 (n_gate_host_fd m) m = Some m'" and "n_trace m' = n_trace m @ tr" and "E_xfer chan ch \<in> set tr"
    and "\<not> is_manager k" and "\<forall>t. w_sockopt w' t \<and> w_mem w' t"
    and "m_io_callback_fn (n_events k) \<and> m_io_timer_callback_fn (n_events k)"
    and "w_recvmsg w' (n_tick k) = Recvmsg_ok n ch cm" and "SIZEOF_CHANNEL \<le> n" and "delivers cm"
    and "\<forall>t > n_tick k. w_recvmsg w' t = Recvmsg_err EAGAIN"
  shows "(\<exists>family. w_accept w (n_tick m) = Some (ch_fd ch, family)) \<and> tr = [E_xfer chan ch, E_close (ch_fd ch)]
    \<and> (\<exists>k'. on_io_read w' u' c1 (n_manager_data_fd k) k = Some k' \<and> served k' (cm_fd cm) False (n_gate_codec m)
        \<and> timed k' (cm_fd cm) \<and> (\<forall>d. d \<noteq> cm_fd cm \<longrightarrow> map_of (n_conns k') d = map_of (n_conns k) d))"
proof -
  have "accept_and_transfer_fd w m = Some m'" using assms(1-3) by (simp add: on_io_read_def)
  then have sent: "(\<exists>family. w_accept w (n_tick m) = Some (ch_fd ch, family)) \<and> tr = [E_xfer chan ch, E_close (ch_fd ch)]
      \<and> ch_is_system ch = 0 \<and> ch_codec ch = codec_num (n_gate_codec m)"
    using assms(4,5)
    by (auto simp: accept_and_transfer_fd_def Let_def emit_def close_fd_def tick_def split: option.splits bind_splits prod.splits if_splits)
  obtain k' where "read_transfer_fd w' c1 k = Some k'" "served k' (cm_fd cm) False (n_gate_codec m)" "timed k' (cm_fd cm)"
    "\<forall>d. d \<noteq> cm_fd cm \<longrightarrow> map_of (n_conns k') d = map_of (n_conns k) d"
    using read_transfer_serves [OF assms(7) _ _ assms(9-12), of c1] assms(8) sent by auto
  then show ?thesis using sent assms(6) by (simp add: on_io_read_def)
qed

text \<open>Descriptor 7 of the manager becomes descriptor 11 of worker 2.\<close>

definition gate_manager :: network where
  "gate_manager = (new_network NT_MANAGER)\<lparr>n_worker_data := two_workers\<rparr>"

definition client_msg :: channel_t where
  "client_msg = \<lparr>ch_fd = 7, ch_family = 2, ch_codec = 2, ch_is_system = 0\<rparr>"

definition channel_world :: world where
  "channel_world = small_world\<lparr>w_recvmsg := (\<lambda>t. if t = 0
     then Recvmsg_ok 16 client_msg \<lparr>cm_len_ok = True, cm_rights = True, cm_fd = 11, cm_truncated = False\<rparr> else Recvmsg_err EAGAIN)\<rparr>"

lemma gate_sends:
  "\<exists>m'. on_io_read small_world u c0 6 gate_manager = Some m' \<and> n_trace m' = [E_xfer 6 client_msg, E_close 7]"
  by (simp add: on_io_read_def is_manager_def gate_manager_def new_network_def accept_and_transfer_fd_def small_world_def two_workers_eq
      get_next_worker_data_fd_def write_channel_def client_msg_def codec_num_def close_fd_def emit_def tick_def EAGAIN_def Let_def)

theorem accepted_client_reaches_a_worker_witness:
  "\<forall>u c0. \<exists>k'. on_io_read channel_world u c0 9 (new_network NT_WORKER) = Some k' \<and> served k' 11 False CT_HTTP \<and> timed k' 11"
proof (intro allI)
  fix u c0
  let ?m = gate_manager and ?k = "new_network NT_WORKER"
    and ?cm = "\<lparr>cm_len_ok = True, cm_rights = True, cm_fd = 11, cm_truncated = False\<rparr>"
  have m: "is_manager ?m" "n_gate_host_fd ?m = 6" "n_gate_host_fd ?m \<noteq> n_node_host_fd ?m" "n_trace ?m = []" "n_gate_codec ?m = CT_HTTP"
    by (simp_all add: gate_manager_def new_network_def is_manager_def)
  obtain m' where m': "on_io_read small_world u c0 (n_gate_host_fd ?m) ?m = Some m'" "n_trace m' = n_trace ?m @ [E_xfer 6 client_msg, E_close 7]"
    using gate_sends m by auto
  have k: "\<not> is_manager ?k" "m_io_callback_fn (n_events ?k) \<and> m_io_timer_callback_fn (n_events ?k)" "n_manager_data_fd ?k = 9"
    "\<forall>t. w_sockopt channel_world t \<and> w_mem channel_world t"
    "w_recvmsg channel_world (n_tick ?k) = Recvmsg_ok 16 client_msg ?cm" "SIZEOF_CHANNEL \<le> 16" "delivers ?cm"
    "\<forall>t > n_tick ?k. w_recvmsg channel_world t = Recvmsg_err EAGAIN"
    by (simp_all add: new_network_def is_manager_def all_events_def channel_world_def small_world_def SIZEOF_CHANNEL_def delivers_def)
  from accepted_client_reaches_a_worker [OF m(1,3) m' _ k(1,4,2,5-8), of 6 u c0] m(5) k(3)
  show "\<exists>k'. on_io_read channel_world u c0 9 (new_network NT_WORKER) = Some k' \<and> served k' 11 False CT_HTTP \<and> timed k' 11" by auto
qed

end
