(* ===== verification/Json_Text.thy ===== *)
theory Json_Text
  imports Util_Str "HOL-Library.Word"
begin

text \<open>
  The JSON items of \<open>src/core/util/json/cJSON.h\<close> and the parser and printer of \<open>cJSON.c\<close>.

  An item is a node with its chain of children as a list. Nodes have identities, the count of the
  allocation that made them. A C string is a list of bytes without NUL; the end of the list is the NUL, and
  reading behind it is undefined (\<open>None\<close>), as is writing behind the end of a buffer. \<open>al n\<close> is the answer of
  the \<open>n\<close>-th call of \<open>malloc\<close>. Floating point is the parameter \<open>fpu\<close>, with \<open>double\<close> as the type \<open>'d\<close>; the digits
  of an integer are read exactly, as \<open>long double\<close> does below \<open>2^64\<close>.

  The lengths that the code counts in an \<open>int\<close> are counted at that width: where it counts by \<open>++\<close> or adds
  \<open>int\<close>s an overflow is undefined, where it adds a \<open>size_t\<close> the sum is cut off to an \<open>int\<close>. Values are nested by
  recursion: a call that is nested deeper than the stack of the machine has room for is undefined, too.
\<close>

section \<open>Items\<close>

datatype jtype = J_False | J_True | J_NULL | J_Int | J_Double | J_String | J_Array | J_Object

record 'd jnode =
  jn_id :: nat
  jn_type :: jtype
  jn_str :: "string option"
  jn_int :: "64 word"
  jn_dbl :: 'd
  jn_sign :: int
  jn_name :: "string option"

datatype 'd cjson = CJ (cj_node: "'d jnode") (cj_child: "'d cjson list")

text \<open>
  What the code does with floating point: \<open>fp_decimal sign digits e\<close> and \<open>fp_trunc sign digits e\<close> are the
  number \<open>sign * digits * 10^e\<close> as \<open>double\<close> and as \<open>uint64\<close>; \<open>fp_integral\<close> is \<open>fabs(floor(d) - d) <= DBL_EPSILON\<close>,
  \<open>fp_extreme\<close> is \<open>fabs(d) < 1.0e-6 || fabs(d) > 1.0e9\<close>; \<open>fp_fixed k\<close> is the conversion with \<open>k\<close> decimals and \<open>fp_sci\<close>
  the conversion \<open>%e\<close>; \<open>fp_single\<close> goes to \<open>float\<close> and back. A conversion to \<open>uint64\<close> is undefined for a number below
  or above its range (\<open>None\<close>). \<open>fp_stack\<close> belongs to the machine as well: the number of calls of \<open>parse_value\<close> or
  \<open>print_value\<close> that may be nested.
\<close>

record 'd fpu =
  fp_zero :: 'd
  fp_of_u64 :: "64 word \<Rightarrow> 'd"
  fp_to_u64 :: "'d \<Rightarrow> 64 word option"
  fp_decimal :: "int \<Rightarrow> string \<Rightarrow> int \<Rightarrow> 'd"
  fp_trunc :: "int \<Rightarrow> string \<Rightarrow> int \<Rightarrow> 64 word option"
  fp_integral :: "'d \<Rightarrow> bool"
  fp_extreme :: "'d \<Rightarrow> bool"
  fp_fixed :: "nat \<Rightarrow> 'd \<Rightarrow> string"
  fp_sci :: "'d \<Rightarrow> string"
  fp_single :: "'d \<Rightarrow> 'd"
  fp_stack :: nat

text \<open>The value of a counter of type \<open>int\<close> that is only increased.\<close>

definition c_count :: "nat \<Rightarrow> nat option" where
  "c_count n = (if n < 2 ^ 31 then Some n else None)"

lemma c_count_simps [simp]:
  "n < 2 ^ 31 \<Longrightarrow> c_count n = Some n" "c_count n = None \<longleftrightarrow> 2 ^ 31 \<le> n" "c_count n = Some m \<longleftrightarrow> m = n \<and> n < 2 ^ 31"
  by (auto simp: c_count_def)

text \<open>
  The result of a function that allocates: undefined, a failure, or a value, with the count of the calls
  of \<open>malloc\<close>. A failure carries the error pointer \<open>ep\<close>, which is null (\<open>None\<close>) when memory is exhausted.
\<close>

type_synonym 'a jres = "((string option + 'a) \<times> nat) option"

definition jbind :: "'a jres \<Rightarrow> ('a \<Rightarrow> nat \<Rightarrow> 'b jres) \<Rightarrow> 'b jres" where
  "jbind r f =
     (case r of
        None \<Rightarrow> None
      | Some (Inl e, n) \<Rightarrow> Some (Inl e, n)
      | Some (Inr a, n) \<Rightarrow> f a n)"

lemma jbind_simps [simp]:
  "jbind None f = None" "jbind (Some (Inl e, n)) f = Some (Inl e, n)" "jbind (Some (Inr a, n)) f = f a n"
  by (simp_all add: jbind_def)

lemma jbind_cong [fundef_cong]:
  "r = r' \<Longrightarrow> (\<And>a n. r' = Some (Inr a, n) \<Longrightarrow> f a n = g a n) \<Longrightarrow> jbind r f = jbind r' g"
  by (auto simp: jbind_def split: option.split sum.split)

lemma jbind_Inr: "jbind r f = Some (Inr b, k) \<longleftrightarrow> (\<exists>a n. r = Some (Inr a, n) \<and> f a n = Some (Inr b, k))"
  by (auto simp: jbind_def split: option.split sum.split)

lemma jbind_None: "jbind r f = None \<longleftrightarrow> r = None \<or> (\<exists>a n. r = Some (Inr a, n) \<and> f a n = None)"
  by (auto simp: jbind_def split: option.split sum.split)

definition j_malloc :: "(nat \<Rightarrow> bool) \<Rightarrow> nat \<Rightarrow> nat jres" where
  "j_malloc al n = Some (if al n then Inr n else Inl None, Suc n)"

definition cJSON_strdup :: "(nat \<Rightarrow> bool) \<Rightarrow> string \<Rightarrow> nat \<Rightarrow> string jres" where
  "cJSON_strdup al str n = jbind (j_malloc al n) (\<lambda>_ n. Some (Inr str, n))"

definition zero_node :: "'d fpu \<Rightarrow> nat \<Rightarrow> 'd jnode" where
  "zero_node fp i = \<lparr>jn_id = i, jn_type = J_False, jn_str = None, jn_int = 0, jn_dbl = fp_zero fp, jn_sign = 0, jn_name = None\<rparr>"

definition cJSON_New_Item :: "'d fpu \<Rightarrow> (nat \<Rightarrow> bool) \<Rightarrow> nat \<Rightarrow> 'd jnode jres" where
  "cJSON_New_Item fp al n = jbind (j_malloc al n) (\<lambda>i n. Some (Inr (zero_node fp i), n))"

text \<open>0 exactly when the strings are equal up to case; a null name is no string's equal.\<close>

definition cJSON_strcasecmp :: "string option \<Rightarrow> string \<Rightarrow> bool" where
  "cJSON_strcasecmp s1 s2 = (case s1 of None \<Rightarrow> False | Some s \<Rightarrow> strcaseeq s s2)"

fun skip :: "string \<Rightarrow> string" where
  "skip [] = []"
| "skip (c # s) = (if (of_char c :: nat) \<le> 32 then skip s else c # s)"

section \<open>Numbers\<close>

definition is_hex :: "char \<Rightarrow> bool" where
  "is_hex c \<longleftrightarrow> is_digit c \<or> (97 \<le> (of_char c :: nat) \<and> (of_char c :: nat) \<le> 102) \<or> (65 \<le> (of_char c :: nat) \<and> (of_char c :: nat) \<le> 70)"

definition hex_val :: "char \<Rightarrow> nat" where
  "hex_val c = (if is_digit c then digit_val c else if 97 \<le> (of_char c :: nat) then of_char c - 87 else of_char c - 55)"

definition starts :: "string \<Rightarrow> string \<Rightarrow> bool" where
  "starts p s \<longleftrightarrow> take (length p) s = p"

text \<open>The digits before and after the point without a leading zero, and what follows.\<close>

definition scan_mantissa :: "string \<Rightarrow> string \<times> string \<times> string" where
  "scan_mantissa s =
     (let s = (if starts ''0'' s then tl s else s);
          ds = (if s \<noteq> [] \<and> is_digit (hd s) \<and> hd s \<noteq> CHR ''0'' then takeWhile is_digit s else []);
          s = drop (length ds) s;
          fs = (if starts ''.'' s \<and> tl s \<noteq> [] \<and> is_digit (hd (tl s)) then takeWhile is_digit (tl s) else [])
      in (ds, fs, if fs = [] then s else drop (Suc (length fs)) s))"

text \<open>The part after the mantissa: the exponent with its sign, and what follows.\<close>

definition scan_exponent :: "string \<Rightarrow> int \<times> string \<times> string" where
  "scan_exponent s =
     (if s \<noteq> [] \<and> (hd s = CHR ''e'' \<or> hd s = CHR ''E'') then
        let s = tl s;
            (sg, s) = (if starts ''+'' s then (1, tl s) else if starts ''-'' s then (- 1, tl s) else (1, s))
        in (sg, takeWhile is_digit s, dropWhile is_digit s)
      else (1, [], s))"

text \<open>The exponent is an \<open>int\<close>, whose overflow is undefined, as is \<open>(uint64)n\<close> of a number that does not fit.\<close>

definition parse_number :: "'d fpu \<Rightarrow> 'd jnode \<Rightarrow> string \<Rightarrow> nat \<Rightarrow> ('d jnode \<times> string) jres" where
  "parse_number fp item num n =
     (let (sign, s) = (if starts ''-'' num then (- 1, tl num) else (1, num));
          (ds, fs, s) = scan_mantissa s;
          (sg, es, rest) = scan_exponent s;
          subscale = digits_val 0 es
      in if int subscale \<ge> 2 ^ 31 then None
         else if fs = [] \<and> subscale = 0 then
           if int (digits_val 0 ds) \<ge> 2 ^ 64 then None
           else
             let v = of_nat (digits_val 0 ds); v = (if sign = - 1 then - v else v)
             in Some (Inr (item\<lparr>jn_sign := sign, jn_dbl := fp_of_u64 fp v, jn_int := v, jn_type := J_Int\<rparr>, rest), n)
         else
           let e = sg * int subscale - int (length fs)
           in case fp_trunc fp sign (ds @ fs) e of
                None \<Rightarrow> None
              | Some v \<Rightarrow>
                  Some (Inr (item\<lparr>jn_sign := sign, jn_dbl := fp_decimal fp sign (ds @ fs) e, jn_int := v, jn_type := J_Double\<rparr>, rest), n))"

text \<open>\<open>sprintf\<close> into the 64 bytes of \<open>print_double\<close> and the 22 of \<open>print_int\<close>.\<close>

definition print_double :: "'d fpu \<Rightarrow> (nat \<Rightarrow> bool) \<Rightarrow> 'd jnode \<Rightarrow> nat \<Rightarrow> string jres" where
  "print_double fp al item n =
     jbind (j_malloc al n) (\<lambda>_ n.
       let d = jn_dbl item;
           str = (if fp_integral fp d then fp_fixed fp 0 d else if fp_extreme fp d then fp_fixed fp 6 d else fp_fixed fp 6 d)
       in if length str < 64 then Some (Inr str, n) else None)"

definition print_int :: "(nat \<Rightarrow> bool) \<Rightarrow> 'd jnode \<Rightarrow> nat \<Rightarrow> string jres" where
  "print_int al item n =
     jbind (j_malloc al n) (\<lambda>_ n.
       let v = jn_int item;
           str = (if jn_sign item = - 1 then
                    (if v \<le> 2147483647 \<and> v \<ge> word_of_int (- 2147483648) then dec_nat (unat v) else dec_int (sint v))
                  else dec_nat (unat v))
       in if length str < 22 then Some (Inr str, n) else None)"

section \<open>Strings\<close>

text \<open>
  \<open>sscanf(s, "%4x", ..)\<close> of the C library: white space, then at most four characters for a sign, the prefix
  \<open>0x\<close> and hexadecimal digits; \<open>None\<close> when there is nothing to convert.
\<close>

definition hexes_val :: "string \<Rightarrow> nat" where
  "hexes_val s = foldl (\<lambda>a c. 16 * a + hex_val c) 0 s"

definition scan_x4 :: "string \<Rightarrow> nat option" where
  "scan_x4 s =
     (let s = dropWhile is_space s;
          (neg, s, w) = (if starts ''-'' s then (True, tl s, 3) else if starts ''+'' s then (False, tl s, 3) else (False, s, 4));
          prefix = (starts ''0x'' s \<or> starts ''0X'' s);
          ds = (if prefix then takeWhile is_hex (take (w - 2) (drop 2 s)) else takeWhile is_hex (take w s));
          v = hexes_val ds
      in if \<not> prefix \<and> ds = [] then None else Some (if neg then (2 ^ 32 - v) mod 2 ^ 32 else v))"

text \<open>The bytes of a code point, written from the last to the first.\<close>

definition byte :: "nat \<Rightarrow> char" where
  "byte n = char_of (n mod 256)"

definition utf8_len :: "nat \<Rightarrow> nat" where
  "utf8_len uc = (if uc < 0x80 then 1 else if uc < 0x800 then 2 else if uc < 0x10000 then 3 else 4)"

definition firstByteMark :: "nat list" where
  "firstByteMark = [0, 0, 0xC0, 0xE0, 0xF0, 0xF8, 0xFC]"

unbundle bit_operations_syntax

fun utf8_write :: "nat \<Rightarrow> nat \<Rightarrow> nat \<Rightarrow> string \<Rightarrow> string" where
  "utf8_write 0 mark uc out = byte (uc OR mark) # out"
| "utf8_write (Suc k) mark uc out = utf8_write k mark (drop_bit 6 uc) (byte ((uc OR 0x80) AND 0xBF) # out)"

definition utf8 :: "nat \<Rightarrow> string" where
  "utf8 uc = utf8_write (utf8_len uc - 1) (firstByteMark ! utf8_len uc) uc []"

definition join_surrogates :: "nat \<Rightarrow> nat \<Rightarrow> nat" where
  "join_surrogates uc uc2 = 0x10000 OR push_bit 10 (uc AND 0x3FF) OR (uc2 AND 0x3FF)"

text \<open>
  The first pass: the number of characters up to the quote, a backslash and its character counted once, in
  the \<open>int\<close> \<open>len\<close>.
\<close>

fun string_len :: "string \<Rightarrow> nat option" where
  "string_len [] = Some 0"
| "string_len (c # s) =
     (if c = CHR 0x22 then Some 0
      else if c = CHR 0x5C then (case s of [] \<Rightarrow> None | _ # s' \<Rightarrow> Option.bind (string_len s') (\<lambda>len. c_count (Suc len)))
      else Option.bind (string_len s) (\<lambda>len. c_count (Suc len)))"

text \<open>
  One escape \<open>\u\<close>, from the character behind the \<open>u\<close>, with the variables \<open>uc\<close> and \<open>uc2\<close>, which keep their
  values when \<open>sscanf\<close> converts nothing (\<open>None\<close>: not yet assigned). The result is what is written, the
  variables, and the rest.
\<close>

definition decode_u :: "nat option \<Rightarrow> nat option \<Rightarrow> string \<Rightarrow> (string \<times> nat option \<times> nat option \<times> string) option" where
  "decode_u uc uc2 s =
     (let uc' = (case scan_x4 s of None \<Rightarrow> uc | Some v \<Rightarrow> Some v); t = drop 4 s
      in if length s < 4 then None
         else do {
           u \<leftarrow> uc';
           if (0xDC00 \<le> u \<and> u \<le> 0xDFFF) \<or> u = 0 then Some ([], Some u, uc2, t)
           else if 0xD800 \<le> u \<and> u \<le> 0xDBFF then
             (if \<not> starts [CHR 0x5C, CHR ''u''] t then Some ([], Some u, uc2, t)
              else if length t < 6 then None
              else do {
                u2 \<leftarrow> (case scan_x4 (drop 2 t) of None \<Rightarrow> uc2 | Some v \<Rightarrow> Some v);
                if u2 < 0xDC00 \<or> u2 > 0xDFFF then Some ([], Some u, Some u2, drop 6 t)
                else
                  let u = join_surrogates u u2
                  in Some (utf8 u, Some (drop_bit (6 * (utf8_len u - 1)) u), Some u2, drop 6 t)
              })
           else Some (utf8 u, Some (drop_bit (6 * (utf8_len u - 1)) u), uc2, t)
         })"

lemma decode_u_shorter: "decode_u uc uc2 s = Some (out, a, b, t) \<Longrightarrow> length t < length s"
  by (auto simp: decode_u_def Let_def split: if_splits option.splits bind_splits)

definition unescape :: "char \<Rightarrow> char" where
  "unescape d =
     (if d = CHR ''b'' then CHR 0x08 else if d = CHR ''f'' then CHR 0x0C else if d = CHR ''n'' then CHR 0x0A
      else if d = CHR ''r'' then CHR 0x0D else if d = CHR ''t'' then CHR 0x09 else d)"

text \<open>The second pass: what is written, and what follows the closing quote, if there is one.\<close>

function decode :: "nat option \<Rightarrow> nat option \<Rightarrow> string \<Rightarrow> (string \<times> string) option" where
  "decode uc uc2 [] = Some ([], [])"
| "decode uc uc2 (c # s) =
     (if c = CHR 0x22 then Some ([], s)
      else if c \<noteq> CHR 0x5C then map_option (\<lambda>(out, r). (c # out, r)) (decode uc uc2 s)
      else
        case s of
          [] \<Rightarrow> None
        | d # s' \<Rightarrow>
            if d = CHR ''u'' then
              (case decode_u uc uc2 s' of
                 None \<Rightarrow> None
               | Some (w, uc, uc2, t) \<Rightarrow> map_option (\<lambda>(out, r). (w @ out, r)) (decode uc uc2 t))
            else
              map_option (\<lambda>(out, r). (unescape d # out, r)) (decode uc uc2 s'))"
  by pat_completeness auto
termination
  by (relation "measure (\<lambda>(_, _, s). length s)") (auto dest: decode_u_shorter)

definition parse_string :: "(nat \<Rightarrow> bool) \<Rightarrow> 'd jnode \<Rightarrow> string \<Rightarrow> nat \<Rightarrow> ('d jnode \<times> string) jres" where
  "parse_string al item str n =
     (if \<not> starts [CHR 0x22] str then Some (Inl (Some str), n)
      else
        case Option.bind (string_len (tl str)) (\<lambda>len. map_option (\<lambda>_. len) (c_count (len + 1))) of
          None \<Rightarrow> None
        | Some len \<Rightarrow>
            jbind (j_malloc al n) (\<lambda>_ n.
              case decode None None (tl str) of
                None \<Rightarrow> None
              | Some (out, rest) \<Rightarrow>
                  if length out \<le> len then Some (Inr (item\<lparr>jn_str := Some out, jn_type := J_String\<rparr>, rest), n) else None))"

text \<open>The printed form, and the number of its bytes that is counted in the \<open>int\<close> \<open>len\<close>.\<close>

definition hex_char :: "nat \<Rightarrow> char" where
  "hex_char d = (if d < 10 then char_of (48 + d) else char_of (87 + d))"

definition escape_char :: "char \<Rightarrow> string" where
  "escape_char c =
     (let token = (of_char c :: nat)
      in if token > 31 \<and> c \<noteq> CHR 0x22 \<and> c \<noteq> CHR 0x5C then [c]
         else CHR 0x5C #
           (if c = CHR 0x5C then [CHR 0x5C] else if c = CHR 0x22 then [CHR 0x22] else if c = CHR 0x08 then ''b''
            else if c = CHR 0x0C then ''f'' else if c = CHR 0x0A then ''n'' else if c = CHR 0x0D then ''r''
            else if c = CHR 0x09 then ''t''
            else [CHR ''u'', hex_char 0, hex_char 0, hex_char (token div 16), hex_char (token mod 16)]))"

definition escaped_len :: "string \<Rightarrow> nat option" where
  "escaped_len s =
     c_count (sum_list (map (\<lambda>c. if c \<in> set [CHR 0x22, CHR 0x5C, CHR 0x08, CHR 0x0C, CHR 0x0A, CHR 0x0D, CHR 0x09] then 2
                                 else if (of_char c :: nat) < 32 then 6 else 1) s))"

definition escaped :: "string \<Rightarrow> string" where
  "escaped str = CHR 0x22 # concat (map escape_char str) @ [CHR 0x22]"

definition print_string_ptr :: "(nat \<Rightarrow> bool) \<Rightarrow> string option \<Rightarrow> nat \<Rightarrow> string jres" where
  "print_string_ptr al str n =
     (case str of
        None \<Rightarrow> cJSON_strdup al [] n
      | Some s \<Rightarrow>
          (case Option.bind (escaped_len s) (\<lambda>len. c_count (len + 3)) of
             None \<Rightarrow> None
           | Some sz \<Rightarrow> jbind (j_malloc al n) (\<lambda>_ n. if length (escaped s) < sz then Some (Inr (escaped s), n) else None)))"

definition print_string :: "(nat \<Rightarrow> bool) \<Rightarrow> 'd jnode \<Rightarrow> nat \<Rightarrow> string jres" where
  "print_string al item n = print_string_ptr al (jn_str item) n"

section \<open>The parser\<close>

text \<open>
  The functions for arrays and objects call \<open>parse_value\<close>, which is their argument \<open>pv\<close>; \<open>parse_elems\<close> and
  \<open>parse_members\<close> are the loops over the commas, whose fuel is the length of the text: each turn takes a comma.
  The argument \<open>k\<close> of \<open>parse_value\<close> is the number of calls the stack still has room for.
\<close>

type_synonym 'd value_parser = "'d jnode \<Rightarrow> string \<Rightarrow> nat \<Rightarrow> ('d cjson \<times> string) jres"

definition parse_elem :: "'d fpu \<Rightarrow> (nat \<Rightarrow> bool) \<Rightarrow> 'd value_parser \<Rightarrow> string \<Rightarrow> nat \<Rightarrow> ('d cjson \<times> string) jres" where
  "parse_elem fp al pv s n =
     jbind (cJSON_New_Item fp al n) (\<lambda>ch n.
     jbind (pv ch (skip s) n) (\<lambda>(c, r) n. Some (Inr (c, skip r), n)))"

fun parse_elems ::
  "'d fpu \<Rightarrow> (nat \<Rightarrow> bool) \<Rightarrow> 'd value_parser \<Rightarrow> nat \<Rightarrow> string \<Rightarrow> nat \<Rightarrow> ('d cjson list \<times> string) jres" where
  "parse_elems fp al pv 0 s n = None"
| "parse_elems fp al pv (Suc k) s n =
     (if \<not> starts '','' s then Some (Inr ([], s), n)
      else
        jbind (parse_elem fp al pv (tl s) n) (\<lambda>(c, r) n.
        jbind (parse_elems fp al pv k r n) (\<lambda>(cs, r) n. Some (Inr (c # cs, r), n))))"

definition parse_array :: "'d fpu \<Rightarrow> (nat \<Rightarrow> bool) \<Rightarrow> 'd value_parser \<Rightarrow> 'd value_parser" where
  "parse_array fp al pv item s n =
     (if \<not> starts ''['' s then Some (Inl (Some s), n)
      else
        let item = item\<lparr>jn_type := J_Array\<rparr>; v = skip (tl s)
        in if starts '']'' v then Some (Inr (CJ item [], tl v), n)
           else
             jbind (parse_elem fp al pv v n) (\<lambda>(c, r) n.
             jbind (parse_elems fp al pv (length s) r n) (\<lambda>(cs, r) n.
               if starts '']'' r then Some (Inr (CJ item (c # cs), tl r), n) else Some (Inl (Some r), n))))"

definition parse_member :: "'d fpu \<Rightarrow> (nat \<Rightarrow> bool) \<Rightarrow> 'd value_parser \<Rightarrow> string \<Rightarrow> nat \<Rightarrow> ('d cjson \<times> string) jres" where
  "parse_member fp al pv s n =
     jbind (cJSON_New_Item fp al n) (\<lambda>ch n.
     jbind (parse_string al ch (skip s) n) (\<lambda>(ch, r) n.
       let ch = ch\<lparr>jn_name := jn_str ch, jn_str := None\<rparr>; r = skip r
       in if \<not> starts '':'' r then Some (Inl (Some r), n)
          else jbind (pv ch (skip (tl r)) n) (\<lambda>(c, r) n. Some (Inr (c, skip r), n))))"

fun parse_members ::
  "'d fpu \<Rightarrow> (nat \<Rightarrow> bool) \<Rightarrow> 'd value_parser \<Rightarrow> nat \<Rightarrow> string \<Rightarrow> nat \<Rightarrow> ('d cjson list \<times> string) jres" where
  "parse_members fp al pv 0 s n = None"
| "parse_members fp al pv (Suc k) s n =
     (if \<not> starts '','' s then Some (Inr ([], s), n)
      else
        jbind (parse_member fp al pv (tl s) n) (\<lambda>(c, r) n.
        jbind (parse_members fp al pv k r n) (\<lambda>(cs, r) n. Some (Inr (c # cs, r), n))))"

definition parse_object :: "'d fpu \<Rightarrow> (nat \<Rightarrow> bool) \<Rightarrow> 'd value_parser \<Rightarrow> 'd value_parser" where
  "parse_object fp al pv item s n =
     (if \<not> starts ''{'' s then Some (Inl (Some s), n)
      else
        let item = item\<lparr>jn_type := J_Object\<rparr>; v = skip (tl s)
        in if starts ''}'' v then Some (Inr (CJ item [], tl v), n)
           else
             jbind (parse_member fp al pv v n) (\<lambda>(c, r) n.
             jbind (parse_members fp al pv (length s) r n) (\<lambda>(cs, r) n.
               if starts ''}'' r then Some (Inr (CJ item (c # cs), tl r), n) else Some (Inl (Some r), n))))"

fun parse_value :: "'d fpu \<Rightarrow> (nat \<Rightarrow> bool) \<Rightarrow> nat \<Rightarrow> 'd value_parser" where
  "parse_value fp al 0 item s n = None"
| "parse_value fp al (Suc k) item s n =
     (if starts ''null'' s then Some (Inr (CJ (item\<lparr>jn_type := J_NULL\<rparr>) [], drop 4 s), n)
      else if starts ''false'' s then Some (Inr (CJ (item\<lparr>jn_type := J_False\<rparr>) [], drop 5 s), n)
      else if starts ''true'' s then Some (Inr (CJ (item\<lparr>jn_type := J_True, jn_int := 1\<rparr>) [], drop 4 s), n)
      else if starts [CHR 0x22] s then jbind (parse_string al item s n) (\<lambda>(nd, r) n. Some (Inr (CJ nd [], r), n))
      else if starts ''-'' s \<or> (s \<noteq> [] \<and> is_digit (hd s)) then
        jbind (parse_number fp item s n) (\<lambda>(nd, r) n. Some (Inr (CJ nd [], r), n))
      else if starts ''['' s then parse_array fp al (\<lambda>item s n. parse_value fp al k item s n) item s n
      else if starts ''{'' s then parse_object fp al (\<lambda>item s n. parse_value fp al k item s n) item s n
      else Some (Inl (Some s), n))"

text \<open>What follows the value is ignored.\<close>

definition cJSON_Parse :: "'d fpu \<Rightarrow> (nat \<Rightarrow> bool) \<Rightarrow> string \<Rightarrow> nat \<Rightarrow> 'd cjson jres" where
  "cJSON_Parse fp al value n =
     jbind (cJSON_New_Item fp al n) (\<lambda>c n.
     jbind (parse_value fp al (fp_stack fp) c (skip value) n) (\<lambda>(t, _) n. Some (Inr t, n)))"

section \<open>The printer\<close>

fun join_items :: "bool \<Rightarrow> string list \<Rightarrow> string" where
  "join_items fmt [] = []"
| "join_items fmt (e # es) =
     e @ (if es = [] then [] else '','' @ (if fmt then '' '' else [])) @ join_items fmt es"

fun join_members :: "nat \<Rightarrow> bool \<Rightarrow> (string \<times> string) list \<Rightarrow> string" where
  "join_members depth fmt [] = []"
| "join_members depth fmt ((name, e) # es) =
     (if fmt then replicate depth (CHR 0x09) else []) @ name @ '':'' @ (if fmt then [CHR 0x09] else []) @ e
       @ (if es = [] then [] else '','') @ (if fmt then [CHR 0x0A] else []) @ join_members depth fmt es"

text \<open>Writing a text and its NUL into a buffer of \<open>len\<close> bytes.\<close>

definition j_write :: "nat \<Rightarrow> string \<Rightarrow> nat \<Rightarrow> string jres" where
  "j_write len text n = (if length text < len then Some (Inr text, n) else None)"

text \<open>
  The \<open>int\<close> \<open>len\<close> of \<open>print_array\<close> and \<open>print_object\<close>: each addition is one of \<open>size_t\<close>, cut off to an \<open>int\<close>, but for
  those that \<open>print_object\<close> does first, which are additions of \<open>int\<close>s.
\<close>

definition array_len :: "bool \<Rightarrow> string list \<Rightarrow> int" where
  "array_len fmt es = foldl (\<lambda>len e. c_int (len + int (length e) + 2 + (if fmt then 1 else 0))) 5 es"

definition object_start :: "nat \<Rightarrow> bool \<Rightarrow> nat option" where
  "object_start depth fmt = Option.bind (c_count depth) (\<lambda>depth. if fmt then c_count (7 + depth) else Some 7)"

definition object_len :: "nat \<Rightarrow> nat \<Rightarrow> bool \<Rightarrow> (string \<times> string) list \<Rightarrow> int" where
  "object_len start depth fmt es =
     foldl (\<lambda>len (name, e). c_int (len + int (length e) + int (length name) + 2 + (if fmt then 2 + int depth else 0))) (int start) es"

definition array_text :: "bool \<Rightarrow> string list \<Rightarrow> string" where
  "array_text fmt es = ''['' @ join_items fmt es @ '']''"

definition object_text :: "nat \<Rightarrow> bool \<Rightarrow> (string \<times> string) list \<Rightarrow> string" where
  "object_text depth fmt es =
     ''{'' @ (if fmt then [CHR 0x0A] else []) @ join_members depth fmt es
       @ (if fmt then replicate (depth - 1) (CHR 0x09) else []) @ ''}''"

text \<open>
  The loop of an array stops at the first failure, that of an object goes on. The children are counted in the
  \<open>int\<close> \<open>numentries\<close>. The depth is an \<open>int\<close>, and the number of calls that are on the stack.
\<close>

fun print_value :: "'d fpu \<Rightarrow> (nat \<Rightarrow> bool) \<Rightarrow> nat \<Rightarrow> bool \<Rightarrow> 'd cjson \<Rightarrow> nat \<Rightarrow> string jres"
  and print_items :: "'d fpu \<Rightarrow> (nat \<Rightarrow> bool) \<Rightarrow> nat \<Rightarrow> bool \<Rightarrow> 'd cjson list \<Rightarrow> nat \<Rightarrow> string list jres"
  and print_members :: "'d fpu \<Rightarrow> (nat \<Rightarrow> bool) \<Rightarrow> nat \<Rightarrow> bool \<Rightarrow> 'd cjson list \<Rightarrow> nat \<Rightarrow> (string \<times> string) list jres" where
  "print_value fp al depth fmt (CJ item cs) n =
     (if fp_stack fp \<le> depth \<or> c_count depth = None then None
      else
        case jn_type item of
          J_NULL \<Rightarrow> cJSON_strdup al ''null'' n
        | J_False \<Rightarrow> cJSON_strdup al ''false'' n
        | J_True \<Rightarrow> cJSON_strdup al ''true'' n
        | J_Int \<Rightarrow> print_int al item n
        | J_Double \<Rightarrow> print_double fp al item n
        | J_String \<Rightarrow> print_string al item n
        | J_Array \<Rightarrow>
            (if c_count (length cs) = None then None
             else
               jbind (j_malloc al n) (\<lambda>_ n.
               jbind (print_items fp al (depth + 1) fmt cs n) (\<lambda>es n.
               jbind (j_malloc al n) (\<lambda>_ n. j_write (c_ulong (array_len fmt es)) (array_text fmt es) n))))
        | J_Object \<Rightarrow>
            (if c_count (length cs) = None then None
             else
               jbind (j_malloc al n) (\<lambda>_ n.
               jbind (j_malloc al n) (\<lambda>_ n.
               case object_start (depth + 1) fmt of
                 None \<Rightarrow> None
               | Some start \<Rightarrow>
                   jbind (print_members fp al (depth + 1) fmt cs n) (\<lambda>es n.
                   jbind (j_malloc al n) (\<lambda>_ n.
                     j_write (c_ulong (object_len start (depth + 1) fmt es)) (object_text (depth + 1) fmt es) n))))))"
| "print_items fp al depth fmt [] n = Some (Inr [], n)"
| "print_items fp al depth fmt (c # cs) n =
     jbind (print_value fp al depth fmt c n) (\<lambda>e n.
     jbind (print_items fp al depth fmt cs n) (\<lambda>es n. Some (Inr (e # es), n)))"
| "print_members fp al depth fmt [] n = Some (Inr [], n)"
| "print_members fp al depth fmt (c # cs) n =
     (case print_string_ptr al (jn_name (cj_node c)) n of
        None \<Rightarrow> None
      | Some (str, n) \<Rightarrow>
          (case print_value fp al depth fmt c n of
             None \<Rightarrow> None
           | Some (ret, n) \<Rightarrow>
               (case print_members fp al depth fmt cs n of
                  None \<Rightarrow> None
                | Some (es, n) \<Rightarrow>
                    Some (case (str, ret, es) of
                            (Inr a, Inr b, Inr es) \<Rightarrow> Inr ((a, b) # es)
                          | _ \<Rightarrow> Inl None, n))))"

definition cJSON_Print :: "'d fpu \<Rightarrow> (nat \<Rightarrow> bool) \<Rightarrow> 'd cjson \<Rightarrow> nat \<Rightarrow> string jres" where
  "cJSON_Print fp al item n = print_value fp al 0 True item n"

definition cJSON_PrintUnformatted :: "'d fpu \<Rightarrow> (nat \<Rightarrow> bool) \<Rightarrow> 'd cjson \<Rightarrow> nat \<Rightarrow> string jres" where
  "cJSON_PrintUnformatted fp al item n = print_value fp al 0 False item n"

end
