(* ===== verification/Json_Roundtrip.thy ===== *)
theory Json_Roundtrip
  imports Json_Text
begin

text \<open>
  What \<open>cJSON.c\<close> prints it reads back: the content of an item, which leaves out identities and the sign
  of a number that is not negative, survives both printed forms.
\<close>

section \<open>Contents\<close>

datatype 'd jval =
    V_null | V_false | V_true
  | V_int "64 word"
  | V_num 'd
  | V_str "string option"
  | V_arr "'d jval list"
  | V_obj "(string option \<times> 'd jval) list"

fun content :: "'d cjson \<Rightarrow> 'd jval" where
  "content (CJ item cs) =
     (case jn_type item of
        J_NULL \<Rightarrow> V_null
      | J_False \<Rightarrow> V_false
      | J_True \<Rightarrow> V_true
      | J_Int \<Rightarrow> V_int (jn_int item)
      | J_Double \<Rightarrow> V_num (jn_dbl item)
      | J_String \<Rightarrow> V_str (jn_str item)
      | J_Array \<Rightarrow> V_arr (map content cs)
      | J_Object \<Rightarrow> V_obj (map (\<lambda>c. (jn_name (cj_node c), content c)) cs))"

text \<open>Items without floating point numbers whose strings and names are there.\<close>

definition is_c_string :: "string option \<Rightarrow> bool" where
  "is_c_string s = (case s of None \<Rightarrow> False | Some s \<Rightarrow> CHR 0x00 \<notin> set s)"

fun printable :: "'d cjson \<Rightarrow> bool" where
  "printable (CJ item cs) =
     (case jn_type item of
        J_Double \<Rightarrow> False
      | J_String \<Rightarrow> is_c_string (jn_str item)
      | J_Array \<Rightarrow> (\<forall>c \<in> set cs. printable c)
      | J_Object \<Rightarrow> (\<forall>c \<in> set cs. is_c_string (jn_name (cj_node c)) \<and> printable c)
      | _ \<Rightarrow> True)"

section \<open>White space and prefixes\<close>

lemma starts_simps [simp]:
  "starts [] s" "starts (c # p) [] = False" "starts (c # p) (d # s) \<longleftrightarrow> c = d \<and> starts p s"
  by (auto simp: starts_def)

definition blank :: "string \<Rightarrow> bool" where
  "blank w \<longleftrightarrow> (\<forall>c \<in> set w. (of_char c :: nat) \<le> 32)"

lemma blank_simps [simp]:
  "blank []" "blank (c # w) \<longleftrightarrow> (of_char c :: nat) \<le> 32 \<and> blank w" "blank (v @ w) \<longleftrightarrow> blank v \<and> blank w"
  "blank (replicate k (CHR 0x09))"
  by (auto simp: blank_def)

lemma skip_blank [simp]: "blank w \<Longrightarrow> skip (w @ s) = skip s"
  by (induction w) auto

definition solid :: "string \<Rightarrow> bool" where
  "solid s \<longleftrightarrow> s \<noteq> [] \<and> 32 < (of_char (hd s) :: nat) \<and> hd s \<noteq> CHR '']''"

lemma skip_solid [simp]: "solid s \<Longrightarrow> skip (s @ t) = s @ t"
  by (cases s) (auto simp: solid_def)

lemma skip_solid' [simp]: "solid s \<Longrightarrow> skip s = s"
  using skip_solid [of s "[]"] by simp

lemma skip_le: "length (skip s) \<le> length s"
  by (induction s) auto

section \<open>Strings\<close>

lemma hex_digits [simp]:
  "d < 16 \<Longrightarrow> is_hex (hex_char d)" "d < 16 \<Longrightarrow> hex_val (hex_char d) = d"
  by (auto simp: is_hex_def hex_val_def hex_char_def is_digit_def digit_val_def)

lemma hex_char_not:
  assumes "d < 16"
  shows "hex_char d \<noteq> CHR ''x''" "hex_char d \<noteq> CHR ''X''" "hex_char d \<noteq> CHR 0x22" "hex_char d \<noteq> CHR 0x5C"
proof -
  have "\<forall>d \<in> set [0..<16]. hex_char d \<in> set ''0123456789abcdef''" by code_simp
  then have "hex_char d \<in> set ''0123456789abcdef''" using assms by simp
  then show "hex_char d \<noteq> CHR ''x''" "hex_char d \<noteq> CHR ''X''" "hex_char d \<noteq> CHR 0x22" "hex_char d \<noteq> CHR 0x5C"
    by auto
qed

lemma of_char_nonzero: "c \<noteq> CHR 0x00 \<Longrightarrow> 0 < (of_char c :: nat)"
proof -
  assume "c \<noteq> CHR 0x00"
  then have "(of_char c :: nat) \<noteq> of_char (CHR 0x00)" by (simp only: of_char_eq_iff) simp
  then show ?thesis by simp
qed

definition control_escape :: "nat \<Rightarrow> string" where
  "control_escape t = [CHR 0x5C, CHR ''u'', hex_char 0, hex_char 0, hex_char (t div 16), hex_char (t mod 16)]"

text \<open>The three forms in which a character is printed.\<close>

lemma escape_char_cases:
  assumes "c \<noteq> CHR 0x00"
  obtains (plain) "escape_char c = [c]" "c \<noteq> CHR 0x22" "c \<noteq> CHR 0x5C"
    | (short) d where "escape_char c = [CHR 0x5C, d]" "d \<noteq> CHR ''u''" "unescape d = c"
    | (control) t where "escape_char c = control_escape t" "c = char_of t" "0 < t" "t < 32"
proof -
  have s: "escape_char (CHR 0x22) = [CHR 0x5C, CHR 0x22]" "escape_char (CHR 0x5C) = [CHR 0x5C, CHR 0x5C]"
    "escape_char (CHR 0x08) = [CHR 0x5C, CHR ''b'']" "escape_char (CHR 0x0C) = [CHR 0x5C, CHR ''f'']"
    "escape_char (CHR 0x0A) = [CHR 0x5C, CHR ''n'']" "escape_char (CHR 0x0D) = [CHR 0x5C, CHR ''r'']"
    "escape_char (CHR 0x09) = [CHR 0x5C, CHR ''t'']" by code_simp+
  show thesis
  proof (cases "c \<in> set [CHR 0x22, CHR 0x5C, CHR 0x08, CHR 0x0C, CHR 0x0A, CHR 0x0D, CHR 0x09]")
    case True
    then show thesis using s short by (auto simp: unescape_def)
  next
    case False
    show thesis
    proof (cases "31 < (of_char c :: nat)")
      case True
      then show thesis using False by (intro plain) (simp_all add: escape_char_def Let_def)
    next
      case small: False
      have "escape_char c = control_escape (of_char c)"
        using False small by (simp add: escape_char_def control_escape_def Let_def)
      then show thesis using small of_char_nonzero [OF assms] by (intro control [of "of_char c"]) simp_all
    qed
  qed
qed

text \<open>The escape of a control character.\<close>

lemma decode_control:
  assumes "0 < t" and "t < 32"
  shows "decode_u uc uc2 (hex_char 0 # hex_char 0 # hex_char (t div 16) # hex_char (t mod 16) # r)
    = Some ([char_of t], Some t, uc2, r)"
proof -
  have d: "t div 16 < 16" "t mod 16 < 16" using assms by simp_all
  note h = hex_char_not [OF d(1)]
  have z: "hex_char 0 = CHR ''0''" by code_simp
  have "hexes_val [hex_char 0, hex_char 0, hex_char (t div 16), hex_char (t mod 16)] = t"
    using d hex_digits(2) [of 0] by (simp add: hexes_val_def)
  then have "scan_x4 (hex_char 0 # hex_char 0 # hex_char (t div 16) # hex_char (t mod 16) # r) = Some t"
    using d h hex_digits [of 0] by (simp add: scan_x4_def z is_space_def Let_def)
  moreover have "utf8_len t = 1" using assms by (simp add: utf8_len_def)
  moreover have "utf8 t = [char_of t]"
    using assms calculation(2) by (simp add: utf8_def firstByteMark_def byte_def)
  ultimately show ?thesis using assms by (simp add: decode_u_def Let_def)
qed

text \<open>What the first pass counts, and that its counter holds it.\<close>

fun quote_len :: "string \<Rightarrow> nat option" where
  "quote_len [] = Some 0"
| "quote_len (c # s) =
     (if c = CHR 0x22 then Some 0
      else if c = CHR 0x5C then (case s of [] \<Rightarrow> None | _ # s' \<Rightarrow> map_option Suc (quote_len s'))
      else map_option Suc (quote_len s))"

lemma string_len_quote: "string_len s = Option.bind (quote_len s) c_count"
proof (induction s rule: quote_len.induct)
  case (2 c s)
  have step: "Option.bind (Option.bind x c_count) (\<lambda>len. c_count (Suc len)) = Option.bind (map_option Suc x) c_count" for x
    by (cases x) (auto simp: c_count_def)
  show ?case
  proof (cases "c = CHR 0x5C")
    case True
    then show ?thesis using 2(1) step by (cases s) simp_all
  next
    case False
    then show ?thesis using 2(2) step by (cases "c = CHR 0x22") simp_all
  qed
qed simp

lemma quote_len_le: "quote_len s = Some len \<Longrightarrow> len \<le> length s"
proof -
  have "case quote_len s of None \<Rightarrow> True | Some len \<Rightarrow> len \<le> length s"
  proof (induction s rule: quote_len.induct)
    case (2 c s)
    show ?case
    proof (cases "c = CHR 0x5C")
      case True
      then show ?thesis using 2(1) by (cases s) (auto split: option.splits)
    next
      case False
      then show ?thesis using 2(2) by (cases "c = CHR 0x22") (auto split: option.splits)
    qed
  qed simp
  then show "quote_len s = Some len \<Longrightarrow> len \<le> length s" by simp
qed

lemma escape_quote_len:
  "CHR 0x00 \<notin> set s \<Longrightarrow> \<exists>len. length s \<le> len \<and> len \<le> length (concat (map escape_char s))
    \<and> quote_len (concat (map escape_char s) @ CHR 0x22 # r) = Some len"
proof (induction s)
  case (Cons c s)
  then obtain len where len: "length s \<le> len" "len \<le> length (concat (map escape_char s))"
    "quote_len (concat (map escape_char s) @ CHR 0x22 # r) = Some len" by auto
  have "c \<noteq> CHR 0x00" using Cons.prems by auto
  then show ?case
  proof (cases c rule: escape_char_cases)
    case (control t)
    then have "t div 16 < 16" "t mod 16 < 16" by simp_all
    then show ?thesis using len control hex_char_not [of 0] hex_char_not by (simp add: control_escape_def)
  qed (use len in simp_all)
qed simp

lemma decode_escaped:
  "CHR 0x00 \<notin> set s \<Longrightarrow> decode uc uc2 (concat (map escape_char s) @ CHR 0x22 # r) = Some (s, r)"
proof (induction s arbitrary: uc uc2)
  case (Cons c s)
  then have IH: "decode a b (concat (map escape_char s) @ CHR 0x22 # r) = Some (s, r)" for a b by simp
  have "c \<noteq> CHR 0x00" using Cons.prems by auto
  then show ?case
  proof (cases c rule: escape_char_cases)
    case (control t)
    then show ?thesis using IH decode_control [OF control(3,4)] by (simp add: control_escape_def)
  qed (use IH in simp_all)
qed simp

lemma escape_char_length:
  "length (escape_char c) = (if c \<in> set [CHR 0x22, CHR 0x5C, CHR 0x08, CHR 0x0C, CHR 0x0A, CHR 0x0D, CHR 0x09] then 2
     else if (of_char c :: nat) < 32 then 6 else 1)"
  by (simp add: escape_char_def Let_def)

text \<open>The buffer of a printed string is exactly as large as it has to be.\<close>

lemma escaped_fits: "escaped_len s = c_count (length (concat (map escape_char s)))" "length (escaped s) = length (concat (map escape_char s)) + 2"
proof -
  have "length (concat (map escape_char s)) =
      sum_list (map (\<lambda>c. if c \<in> set [CHR 0x22, CHR 0x5C, CHR 0x08, CHR 0x0C, CHR 0x0A, CHR 0x0D, CHR 0x09] then 2
                        else if (of_char c :: nat) < 32 then 6 else 1) s)" by (induction s) (simp_all add: escape_char_length)
  then show "escaped_len s = c_count (length (concat (map escape_char s)))" unfolding escaped_len_def by simp
qed (simp add: escaped_def)

lemma print_string_granted:
  "\<forall>n. al n \<Longrightarrow> length (escaped s) < 2 ^ 31 - 1 \<Longrightarrow> print_string_ptr al (Some s) n = Some (Inr (escaped s), Suc n)"
  by (simp add: print_string_ptr_def j_malloc_def escaped_fits)

lemma parse_string_escaped:
  assumes "\<forall>n. al n" and "CHR 0x00 \<notin> set s" and "length (escaped s) < 2 ^ 31"
  shows "parse_string al nd (escaped s @ r) n = Some (Inr (nd\<lparr>jn_str := Some s, jn_type := J_String\<rparr>, r), Suc n)"
proof -
  obtain len where "length s \<le> len" "len \<le> length (concat (map escape_char s))"
    "quote_len (concat (map escape_char s) @ CHR 0x22 # r) = Some len" using escape_quote_len [OF assms(2)] by blast
  moreover from this have "len + 1 < 2 ^ 31" using assms(3) by (simp add: escaped_fits)
  ultimately show ?thesis
    using assms(1) decode_escaped [OF assms(2)] by (simp add: parse_string_def escaped_def j_malloc_def string_len_quote)
qed

lemma escaped_solid [simp]: "solid (escaped s)"
  by (simp add: solid_def escaped_def)

section \<open>Integers\<close>

text \<open>What may follow a number.\<close>

definition number_end :: "string \<Rightarrow> bool" where
  "number_end r \<longleftrightarrow> r = [] \<or> (\<not> is_digit (hd r) \<and> hd r \<noteq> CHR ''.'' \<and> hd r \<noteq> CHR ''e'' \<and> hd r \<noteq> CHR ''E'')"

lemma hd_dec_nat_pos: "0 < n \<Longrightarrow> hd (dec_nat n) \<noteq> CHR ''0''"
proof (induction n rule: dec_nat.induct)
  case (1 n)
  show ?case
  proof (cases "n < 10")
    case True
    have "\<forall>n \<in> set [1..<10]. digit_char n \<noteq> CHR ''0''" by code_simp
    then show ?thesis using True 1 by (subst dec_nat.simps) simp
  next
    case False
    then show ?thesis using 1 by (subst dec_nat.simps) simp
  qed
qed

lemma dec_nat_0: "dec_nat 0 = ''0''"
  by code_simp

lemma scan_exponent_end: "number_end r \<Longrightarrow> scan_exponent r = (1, [], r)"
  by (auto simp: scan_exponent_def number_end_def)

lemma takeWhile_digits: "number_end r \<Longrightarrow> takeWhile is_digit (dec_nat n @ r) = dec_nat n"
  using dec_nat_digits [of n] by (cases r) (auto simp: number_end_def takeWhile_append)

lemma scan_mantissa_dec:
  assumes "number_end r"
  shows "\<exists>ds. scan_mantissa (dec_nat k @ r) = (ds, [], r) \<and> digits_val 0 ds = k"
proof (cases "k = 0")
  case True
  then show ?thesis using assms by (cases r) (auto simp: scan_mantissa_def dec_nat_0 number_end_def digits_val_def Let_def)
next
  case False
  obtain c s where cs: "dec_nat k = c # s" using dec_nat_nonempty [of k] by (cases "dec_nat k") auto
  have c: "c \<noteq> CHR ''0''" "is_digit c" using hd_dec_nat_pos [of k] hd_dec_nat [of k] False cs by auto
  have t: "takeWhile is_digit (c # s @ r) = c # s" using takeWhile_digits [OF assms, of k] cs by simp
  have "\<not> starts ''.'' r" using assms by (cases r) (auto simp: number_end_def)
  then have "scan_mantissa (dec_nat k @ r) = (c # s, [], r)"
    using c t unfolding scan_mantissa_def cs by (simp add: Let_def)
  then show ?thesis using digits_val_dec_nat [of k] cs by simp
qed

lemma parse_number_dec:
  assumes "number_end r" and "int k < 2 ^ 64"
  shows "\<exists>nd'. parse_number fp nd ((if neg then ''-'' else []) @ dec_nat k @ r) n = Some (Inr (nd', r), n)
    \<and> jn_type nd' = J_Int \<and> jn_int nd' = (if neg then - of_nat k else of_nat k) \<and> jn_name nd' = jn_name nd"
proof -
  obtain ds where ds: "scan_mantissa (dec_nat k @ r) = (ds, [], r)" "digits_val 0 ds = k"
    using scan_mantissa_dec [OF assms(1)] by blast
  have "\<not> starts ''-'' (dec_nat k @ r)"
    using hd_dec_nat [of k] digit_not [of "hd (dec_nat k)"] by (cases "dec_nat k") auto
  then show ?thesis
    using ds assms(2) scan_exponent_end [OF assms(1)]
    by (cases neg) (simp_all add: parse_number_def Let_def digits_val_def [of 0 "[]"])
qed

lemma length_dec_nat: "0 < m \<Longrightarrow> n < 10 ^ m \<Longrightarrow> length (dec_nat n) \<le> m"
proof (induction n arbitrary: m rule: dec_nat.induct)
  case (1 n)
  show ?case
  proof (cases "n < 10")
    case True
    then show ?thesis using 1(2) by (subst dec_nat.simps) simp
  next
    case False
    obtain m' where m: "m = Suc m'" using 1(2) by (cases m) auto
    have "n div 10 < 10 ^ m'" using 1(3) m by (simp add: less_mult_imp_div_less)
    moreover from this have "0 < m'" using False by (cases m') auto
    ultimately have "length (dec_nat (n div 10)) \<le> m'" using 1(1) False by blast
    then show ?thesis using False m by (subst dec_nat.simps) simp
  qed
qed

lemma length_dec_u64: "int k < 2 ^ 64 \<Longrightarrow> length (dec_nat k) \<le> 20"
proof -
  assume "int k < 2 ^ 64"
  then have "k < 10 ^ 20" by simp
  then show ?thesis using length_dec_nat [of 20 k] by simp
qed

lemma of_nat_neg: "sint (v :: 64 word) < 0 \<Longrightarrow> - of_nat (nat (- sint v)) = v"
proof -
  assume "sint v < 0"
  then have "(of_nat (nat (- sint v)) :: 64 word) = of_int (- sint v)" by simp
  then show ?thesis by simp
qed

lemma print_int_text:
  assumes "\<forall>n. al n"
  shows "\<exists>neg k. print_int al nd n = Some (Inr ((if neg then ''-'' else []) @ dec_nat k), Suc n)
    \<and> int k < 2 ^ 64 \<and> (if neg then - of_nat k else of_nat k) = jn_int nd"
proof -
  let ?v = "jn_int nd"
  have u: "int (unat ?v) < 2 ^ 64" using uint_lt2p [of ?v] by simp
  have b: "- (2 ^ 63) \<le> sint ?v" "sint ?v < 2 ^ 63" using sint_ge [of ?v] sint_lt [of ?v] by simp_all
  define out where "out = (if jn_sign nd = - 1
      then (if ?v \<le> 2147483647 \<and> ?v \<ge> word_of_int (- 2147483648) then dec_nat (unat ?v) else dec_int (sint ?v))
      else dec_nat (unat ?v))"
  have p: "print_int al nd n = (if length out < 22 then Some (Inr out, Suc n) else None)"
    using assms by (simp add: print_int_def j_malloc_def out_def Let_def)
  have "\<exists>neg k. out = (if neg then ''-'' else []) @ dec_nat k \<and> int k < 2 ^ 64 \<and> (if neg then - of_nat k else of_nat k) = ?v"
  proof (cases "out = dec_nat (unat ?v)")
    case True
    then show ?thesis using u by (intro exI [of _ False] exI [of _ "unat ?v"]) simp
  next
    case False
    then have t: "out = dec_int (sint ?v)" unfolding out_def by presburger
    show ?thesis
    proof (cases "sint ?v < 0")
      case True
      then show ?thesis using t b of_nat_neg [OF True]
        by (intro exI [of _ True] exI [of _ "nat (- sint ?v)"]) (simp add: dec_int_def)
    next
      case False
      then show ?thesis using t b by (intro exI [of _ False] exI [of _ "nat (sint ?v)"]) (simp add: dec_int_def)
    qed
  qed
  then obtain neg k where k: "out = (if neg then ''-'' else []) @ dec_nat k" "int k < 2 ^ 64" "(if neg then - of_nat k else of_nat k) = ?v"
    by blast
  then have "length out < 22" using length_dec_u64 [OF k(2)] by simp
  then show ?thesis using p k by auto
qed

section \<open>Reading what was printed\<close>

text \<open>A parser reads a text as an item of this content, whatever follows that does not continue a number.\<close>

definition reads :: "'d value_parser \<Rightarrow> string \<Rightarrow> 'd cjson \<Rightarrow> bool" where
  "reads pv s t \<longleftrightarrow> solid s \<and>
     (\<forall>nd r m. number_end r \<longrightarrow> (\<exists>t' m'. pv nd (s @ r) m = Some (Inr (t', r), m')
        \<and> content t' = content t \<and> jn_name (cj_node t') = jn_name nd))"

lemma readsD:
  assumes "reads pv s t" and "number_end r"
  obtains t' m' where "pv nd (s @ r) m = Some (Inr (t', r), m')" and "content t' = content t" and "jn_name (cj_node t') = jn_name nd"
  using assms unfolding reads_def by blast

lemma reads_solid: "reads pv s t \<Longrightarrow> solid s"
  by (simp add: reads_def)

lemma malloc_granted: "\<forall>n. al n \<Longrightarrow> j_malloc al n = Some (Inr n, Suc n)"
  by (simp add: j_malloc_def)

lemma new_item_granted: "\<forall>n. al n \<Longrightarrow> cJSON_New_Item fp al n = Some (Inr (zero_node fp n), Suc n)"
  by (simp add: cJSON_New_Item_def j_malloc_def)

lemma number_end_simps [simp]: "number_end ('','' @ r)" "number_end ('']'' @ r)" "number_end ('','' @ r)" "number_end (CHR 0x0A # r)"
  "number_end (CHR '','' # r)" "number_end (CHR '']'' # r)" "number_end (CHR ''}'' # r)" "number_end []"
  by (simp_all add: number_end_def is_digit_def)

lemma parse_elem_reads:
  assumes "\<forall>n. al n" and "blank w" and "reads pv e t" and "number_end r"
  shows "\<exists>c m'. parse_elem fp al pv (w @ e @ r) m = Some (Inr (c, skip r), m') \<and> content c = content t"
proof -
  obtain c m' where "pv (zero_node fp m) (e @ r) (Suc m) = Some (Inr (c, r), m')" "content c = content t"
    using readsD [OF assms(3,4)] by metis
  then show ?thesis
    using assms(1,2) reads_solid [OF assms(3)] by (simp add: parse_elem_def new_item_granted)
qed

lemma join_items_concat:
  "join_items fmt (e # es) = e @ concat (map (\<lambda>e. '','' @ (if fmt then '' '' else []) @ e) es)"
  by (induction es arbitrary: e) auto

lemma parse_elems_reads:
  assumes "\<forall>n. al n" and "blank w"
  shows "list_all2 (reads pv) es ts \<Longrightarrow> length es < k \<Longrightarrow>
    \<exists>cs m'. parse_elems fp al pv k (concat (map (\<lambda>e. '','' @ w @ e) es) @ '']'' @ r) m = Some (Inr (cs, '']'' @ r), m')
      \<and> map content cs = map content ts"
proof (induction es arbitrary: ts k m)
  case Nil
  then show ?case by (cases k) auto
next
  case (Cons e es)
  let ?rest = "concat (map (\<lambda>e. '','' @ w @ e) es) @ '']'' @ r"
  obtain t us where ts: "ts = t # us" "reads pv e t" "list_all2 (reads pv) es us" using Cons.prems(1) by (auto simp: list_all2_Cons1)
  obtain k' where k: "k = Suc k'" "length es < k'" using Cons.prems(2) by (cases k) auto
  have "number_end ?rest" by (cases es) simp_all
  from parse_elem_reads [OF assms ts(2) this] obtain c m1 where
    c: "parse_elem fp al pv (w @ e @ ?rest) m = Some (Inr (c, skip ?rest), m1)" "content c = content t" by blast
  have "skip ?rest = ?rest" by (cases es) simp_all
  moreover obtain cs m2 where cs: "parse_elems fp al pv k' ?rest m1 = Some (Inr (cs, '']'' @ r), m2)" "map content cs = map content us"
    using Cons.IH [OF ts(3) k(2)] by blast
  ultimately show ?case using c ts(1) k(1) by simp
qed

text \<open>A member is read with its name.\<close>

definition reads_member :: "'d value_parser \<Rightarrow> string \<times> string \<Rightarrow> 'd cjson \<Rightarrow> bool" where
  "reads_member pv e t \<longleftrightarrow> (\<exists>name. jn_name (cj_node t) = Some name \<and> CHR 0x00 \<notin> set name \<and> fst e = escaped name \<and> length (escaped name) < 2 ^ 31)
     \<and> reads pv (snd e) t"

definition named :: "'d cjson \<Rightarrow> string option \<times> 'd jval" where
  "named c = (jn_name (cj_node c), content c)"

lemma parse_member_reads:
  assumes "\<forall>n. al n" and "blank w" and "blank v" and "reads_member pv (nm, e) t" and "number_end r"
  shows "\<exists>c m'. parse_member fp al pv (w @ nm @ '':'' @ v @ e @ r) m = Some (Inr (c, skip r), m') \<and> named c = named t"
proof -
  obtain name where name: "jn_name (cj_node t) = Some name" "CHR 0x00 \<notin> set name" "nm = escaped name" "length (escaped name) < 2 ^ 31" and rd: "reads pv e t"
    using assms(4) by (auto simp: reads_member_def)
  let ?nd = "(zero_node fp m)\<lparr>jn_type := J_String, jn_name := Some name, jn_str := None\<rparr>"
  obtain c m' where c: "pv ?nd (e @ r) (Suc (Suc m)) = Some (Inr (c, r), m')" "content c = content t" "jn_name (cj_node c) = Some name"
    using readsD [OF rd assms(5), of ?nd "Suc (Suc m)"] by auto
  have nd: "(zero_node fp m)\<lparr>jn_str := Some name, jn_type := J_String, jn_name := Some name, jn_str := None\<rparr> = ?nd" by simp
  show ?thesis
    using assms(1-3) name c reads_solid [OF rd]
    by (simp add: parse_member_def new_item_granted parse_string_escaped nd named_def Let_def)
qed

text \<open>The text after a member: the rest of the members and the closing brace.\<close>

definition after_member :: "nat \<Rightarrow> bool \<Rightarrow> (string \<times> string) list \<Rightarrow> string \<Rightarrow> string" where
  "after_member depth fmt es r =
     (if es = [] then [] else '','') @ (if fmt then [CHR 0x0A] else []) @ join_members depth fmt es
       @ (if fmt then replicate (depth - 1) (CHR 0x09) else []) @ ''}'' @ r"

lemma after_member_Nil: "skip (after_member depth fmt [] r) = ''}'' @ r"
  by (simp add: after_member_def)

lemma after_member_Cons:
  "after_member depth fmt ((nm, e) # es) r =
     '','' @ ((if fmt then [CHR 0x0A] else []) @ (if fmt then replicate depth (CHR 0x09) else []))
       @ nm @ '':'' @ (if fmt then [CHR 0x09] else []) @ e @ after_member depth fmt es r"
  by (simp add: after_member_def)

lemma object_text_Cons:
  "object_text depth fmt ((nm, e) # es) @ r =
     ''{'' @ ((if fmt then [CHR 0x0A] else []) @ (if fmt then replicate depth (CHR 0x09) else []))
       @ nm @ '':'' @ (if fmt then [CHR 0x09] else []) @ e @ after_member depth fmt es r"
  by (simp add: object_text_def after_member_def)

lemma after_member_end [simp]: "number_end (after_member depth fmt es r)"
  by (cases "es = []"; cases fmt) (simp_all add: after_member_def)

lemma parse_members_reads:
  assumes "\<forall>n. al n"
  shows "list_all2 (reads_member pv) es ts \<Longrightarrow> length es < k \<Longrightarrow>
    \<exists>cs m'. parse_members fp al pv k (skip (after_member depth fmt es r)) m = Some (Inr (cs, ''}'' @ r), m')
      \<and> map named cs = map named ts"
proof (induction es arbitrary: ts k m)
  case Nil
  then show ?case by (cases k) (auto simp: after_member_Nil)
next
  case (Cons e es)
  obtain t us where ts: "ts = t # us" "reads_member pv e t" "list_all2 (reads_member pv) es us"
    using Cons.prems(1) by (auto simp: list_all2_Cons1)
  obtain k' where k: "k = Suc k'" "length es < k'" using Cons.prems(2) by (cases k) auto
  obtain nm x where e: "e = (nm, x)" by fastforce
  let ?w = "(if fmt then [CHR 0x0A] else []) @ (if fmt then replicate depth (CHR 0x09) else [])" and ?v = "if fmt then [CHR 0x09] else []"
  have "blank ?w" "blank ?v" by simp_all
  from parse_member_reads [OF assms this ts(2) [unfolded e] after_member_end, of fp depth fmt es r m] obtain c m1 where
    c: "parse_member fp al pv (?w @ nm @ '':'' @ ?v @ x @ after_member depth fmt es r) m
        = Some (Inr (c, skip (after_member depth fmt es r)), m1)" "named c = named t" by blast
  obtain cs m2 where cs: "parse_members fp al pv k' (skip (after_member depth fmt es r)) m1 = Some (Inr (cs, ''}'' @ r), m2)"
    "map named cs = map named us" using Cons.IH [OF ts(3) k(2)] by blast
  have "skip (after_member depth fmt (e # es) r) = '','' @ ?w @ nm @ '':'' @ ?v @ x @ after_member depth fmt es r"
    unfolding e after_member_Cons by simp
  then show ?case using c cs ts(1) k(1) by simp
qed

text \<open>The texts are long enough for the fuel of the loops.\<close>

lemma reads_not_empty: "list_all2 (reads pv) es ts \<Longrightarrow> \<forall>e \<in> set es. e \<noteq> []"
  by (induction rule: list_all2_induct) (auto simp: reads_def solid_def)

lemma array_text_items: "\<forall>e \<in> set es. e \<noteq> [] \<Longrightarrow> length es + 2 \<le> length (array_text fmt es)"
proof -
  assume ne: "\<forall>e \<in> set es. e \<noteq> []"
  have "0 < length e" if "e \<in> set es" for e using ne that by simp
  then have "length es \<le> length (join_items fmt es)" by (induction es) (auto simp: Suc_le_eq intro: add_less_le_mono)
  then show ?thesis by (simp add: array_text_def)
qed

lemma object_text_items: "length es + 2 \<le> length (object_text depth fmt es)"
proof -
  have "length es \<le> length (join_members depth fmt es)" by (induction es) auto
  then show ?thesis by (simp add: object_text_def)
qed

lemma parse_array_reads:
  assumes "\<forall>n. al n" and "list_all2 (reads pv) es ts"
  shows "\<exists>t' m'. parse_array fp al pv nd (array_text fmt es @ r) m = Some (Inr (t', r), m')
    \<and> (\<exists>cs. t' = CJ (nd\<lparr>jn_type := J_Array\<rparr>) cs \<and> map content cs = map content ts)"
proof (cases es)
  case Nil
  then show ?thesis using assms(2) by (simp add: parse_array_def array_text_def)
next
  case (Cons e fs)
  let ?w = "if fmt then '' '' else []"
  let ?rest = "concat (map (\<lambda>e. '','' @ ?w @ e) fs) @ '']'' @ r"
  obtain t us where ts: "ts = t # us" "reads pv e t" "list_all2 (reads pv) fs us" using assms(2) Cons by (auto simp: list_all2_Cons1)
  have shape: "array_text fmt es @ r = ''['' @ e @ ?rest" unfolding array_text_def Cons join_items_concat by simp
  have e: "solid e" using reads_solid [OF ts(2)] .
  have "number_end ?rest" by (cases fs) simp_all
  from parse_elem_reads [OF assms(1) _ ts(2) this, of "[]" fp m] obtain c m1 where
    c: "parse_elem fp al pv (e @ ?rest) m = Some (Inr (c, skip ?rest), m1)" "content c = content t" by auto
  have s: "skip ?rest = ?rest" by (cases fs) simp_all
  have "blank ?w" by simp
  have "length fs < length (array_text fmt es @ r)" using array_text_items [of es fmt] reads_not_empty [OF assms(2)] Cons by simp
  from parse_elems_reads [OF assms(1) \<open>blank ?w\<close> ts(3) this, of fp r m1] obtain cs m2 where
    cs: "parse_elems fp al pv (length (array_text fmt es @ r)) ?rest m1 = Some (Inr (cs, '']'' @ r), m2)" "map content cs = map content us"
    by auto
  have "\<not> starts '']'' (e @ ?rest)" using e by (cases e) (auto simp: solid_def)
  then show ?thesis using c cs s e ts(1) unfolding parse_array_def Let_def by (simp add: shape)
qed

lemma parse_object_reads:
  assumes "\<forall>n. al n" and "list_all2 (reads_member pv) es ts"
  shows "\<exists>t' m'. parse_object fp al pv nd (object_text depth fmt es @ r) m = Some (Inr (t', r), m')
    \<and> (\<exists>cs. t' = CJ (nd\<lparr>jn_type := J_Object\<rparr>) cs \<and> map named cs = map named ts)"
proof (cases es)
  case Nil
  then show ?thesis using assms(2) by (cases fmt) (simp_all add: parse_object_def object_text_def)
next
  case (Cons e fs)
  obtain t us where ts: "ts = t # us" "reads_member pv e t" "list_all2 (reads_member pv) fs us"
    using assms(2) Cons by (auto simp: list_all2_Cons1)
  obtain nm x where e: "e = (nm, x)" by fastforce
  let ?w = "(if fmt then [CHR 0x0A] else []) @ (if fmt then replicate depth (CHR 0x09) else [])" and ?v = "if fmt then [CHR 0x09] else []"
  let ?u = "nm @ '':'' @ ?v @ x @ after_member depth fmt fs r"
  have "solid nm" using ts(2) e by (auto simp: reads_member_def)
  then have u: "skip (?w @ ?u) = ?u" by simp
  have b: "blank ?v" "blank []" by simp_all
  from parse_member_reads [OF assms(1) b(2,1) ts(2) [unfolded e] after_member_end, of fp depth fmt fs r m] obtain c m1 where
    c: "parse_member fp al pv ?u m = Some (Inr (c, skip (after_member depth fmt fs r)), m1)" "named c = named t" by auto
  have "length fs < length (object_text depth fmt es @ r)" using object_text_items [of es depth fmt] Cons by simp
  then obtain cs m2 where cs: "parse_members fp al pv (length (object_text depth fmt es @ r)) (skip (after_member depth fmt fs r)) m1
      = Some (Inr (cs, ''}'' @ r), m2)"
    "map named cs = map named us" using parse_members_reads [OF assms(1) ts(3), of _ fp depth fmt r m1] by blast
  have "\<not> starts ''}'' ?u" using ts(2) e by (auto simp: reads_member_def escaped_def)
  moreover have "object_text depth fmt es @ r = ''{'' @ ?w @ ?u" unfolding Cons e object_text_Cons by simp
  ultimately show ?thesis using c cs u ts(1) unfolding parse_object_def Let_def by simp
qed

section \<open>The round trip\<close>

text \<open>
  The depth of nesting, as a number of calls, and the memory that the printer asks for, where a number takes up
  to 22 bytes and each string is counted as it is printed.
\<close>

fun levels :: "'d cjson \<Rightarrow> nat" where
  "levels (CJ item cs) = Suc (foldr max (map levels cs) 0)"

definition escaped_size :: "string option \<Rightarrow> nat" where
  "escaped_size s = (case s of None \<Rightarrow> 1 | Some s \<Rightarrow> length (escaped s) + 1)"

fun print_size :: "nat \<Rightarrow> 'd cjson \<Rightarrow> nat" where
  "print_size depth (CJ item cs) =
     (case jn_type item of
        J_String \<Rightarrow> escaped_size (jn_str item)
      | J_Array \<Rightarrow> 5 + sum_list (map (\<lambda>c. print_size (depth + 1) c + 3) cs)
      | J_Object \<Rightarrow>
          8 + depth + sum_list (map (\<lambda>c. print_size (depth + 1) c + escaped_size (jn_name (cj_node c)) + 5 + depth) cs)
      | J_Double \<Rightarrow> 64
      | _ \<Rightarrow> 22)"

lemma levels_child: "c \<in> set cs \<Longrightarrow> levels c < levels (CJ item cs)"
proof -
  have "x \<in> set xs \<Longrightarrow> x \<le> foldr max xs 0" for x :: nat and xs by (induction xs) auto
  then show "c \<in> set cs \<Longrightarrow> levels c < levels (CJ item cs)" by (simp add: less_Suc_eq_le)
qed

lemma sum_list_member: "c \<in> set cs \<Longrightarrow> f c \<le> sum_list (map f cs)" for f :: "'a \<Rightarrow> nat"
  by (induction cs) auto

lemma sum_list_rel:
  assumes "list_all2 P es cs" and "\<And>e c. P e c \<Longrightarrow> c \<in> set cs \<Longrightarrow> f e \<le> g c"
  shows "sum_list (map f es) \<le> (sum_list (map g cs) :: nat)"
  using assms by (induction rule: list_all2_induct) (auto intro: add_mono)

lemma sum_list_length: "(\<And>c. c \<in> set cs \<Longrightarrow> 1 \<le> f c) \<Longrightarrow> length cs \<le> sum_list (map f cs)" for f :: "'a \<Rightarrow> nat"
proof (induction cs)
  case (Cons c cs)
  then have "1 \<le> f c" "length cs \<le> sum_list (map f cs)" by simp_all
  then show ?case by simp
qed simp

text \<open>The buffers of the printer are large enough, as long as their length fits its \<open>int\<close>.\<close>

definition array_sum :: "bool \<Rightarrow> string list \<Rightarrow> nat" where
  "array_sum fmt es = sum_list (map (\<lambda>e. length e + 2 + (if fmt then 1 else 0)) es)"

definition object_sum :: "nat \<Rightarrow> bool \<Rightarrow> (string \<times> string) list \<Rightarrow> nat" where
  "object_sum depth fmt es = sum_list (map (\<lambda>(name, e). length e + length name + 2 + (if fmt then 2 + depth else 0)) es)"

lemma array_len_sum: "5 + array_sum fmt es < 2 ^ 31 \<Longrightarrow> array_len fmt es = int (5 + array_sum fmt es)"
proof -
  have "a + array_sum fmt es < 2 ^ 31 \<Longrightarrow>
      foldl (\<lambda>len e. c_int (len + int (length e) + 2 + (if fmt then 1 else 0))) (int a) es = int (a + array_sum fmt es)" for a
  proof (induction es arbitrary: a)
    case (Cons e es)
    let ?a = "a + (length e + 2 + (if fmt then 1 else 0))"
    have "?a + array_sum fmt es < 2 ^ 31" using Cons.prems by (simp add: array_sum_def)
    moreover from this have "c_int (int a + int (length e) + 2 + (if fmt then 1 else 0)) = int ?a" by (subst c_int_id) auto
    ultimately show ?case using Cons.IH [of ?a] by (simp add: array_sum_def)
  qed (simp add: array_sum_def)
  from this [of 5] show "5 + array_sum fmt es < 2 ^ 31 \<Longrightarrow> array_len fmt es = int (5 + array_sum fmt es)" by (simp add: array_len_def)
qed

lemma object_len_sum:
  "a + object_sum depth fmt es < 2 ^ 31 \<Longrightarrow> object_len a depth fmt es = int (a + object_sum depth fmt es)"
  unfolding object_len_def
proof (induction es arbitrary: a)
  case (Cons e es)
  obtain x y where e: "e = (x, y)" by fastforce
  let ?a = "a + (length y + length x + 2 + (if fmt then 2 + depth else 0))"
  have "?a + object_sum depth fmt es < 2 ^ 31" using Cons.prems by (simp add: object_sum_def e)
  moreover from this have "c_int (int a + int (length y) + int (length x) + 2 + (if fmt then 2 + int depth else 0)) = int ?a"
    by (subst c_int_id) auto
  ultimately show ?case using Cons.IH [of ?a] by (simp add: object_sum_def e)
qed (simp add: object_sum_def)

lemma array_fits: "length (array_text fmt es) < 5 + array_sum fmt es"
proof -
  have "length (join_items fmt es) \<le> array_sum fmt es" by (induction es) (auto simp: array_sum_def)
  then show ?thesis by (simp add: array_text_def)
qed

lemma object_fits: "length (object_text depth fmt es) < 7 + (if fmt then depth else 0) + object_sum depth fmt es"
proof -
  have "length (join_members depth fmt es) \<le> object_sum depth fmt es" by (induction es) (auto simp: object_sum_def)
  then show ?thesis by (cases fmt) (simp_all add: object_text_def)
qed

text \<open>A printed item is a text that the parser reads wherever the stack has room for its nesting.\<close>

definition prints :: "'d fpu \<Rightarrow> (nat \<Rightarrow> bool) \<Rightarrow> string \<Rightarrow> 'd cjson \<Rightarrow> bool" where
  "prints fp al s t \<longleftrightarrow> (\<forall>k \<ge> levels t. reads (\<lambda>nd s n. parse_value fp al k nd s n) s t)"

lemma print_items_all:
  assumes "\<forall>c \<in> set cs. \<forall>n. \<exists>s n'. print_value fp al depth fmt c n = Some (Inr s, n') \<and> P s c"
  shows "\<exists>es n'. print_items fp al depth fmt cs n = Some (Inr es, n') \<and> list_all2 P es cs"
  using assms
proof (induction cs arbitrary: n)
  case (Cons c cs)
  obtain s n1 where s: "print_value fp al depth fmt c n = Some (Inr s, n1)" "P s c" using Cons.prems by fastforce
  obtain es n2 where "print_items fp al depth fmt cs n1 = Some (Inr es, n2)" "list_all2 P es cs"
    using Cons.IH [of n1] Cons.prems by auto
  then show ?case using s by simp
qed simp

definition prints_member :: "(string \<Rightarrow> 'd cjson \<Rightarrow> bool) \<Rightarrow> string \<times> string \<Rightarrow> 'd cjson \<Rightarrow> bool" where
  "prints_member P e t \<longleftrightarrow>
     (\<exists>name. jn_name (cj_node t) = Some name \<and> CHR 0x00 \<notin> set name \<and> fst e = escaped name \<and> length (escaped name) < 2 ^ 31)
     \<and> P (snd e) t"

lemma print_members_all:
  assumes "\<forall>n. al n"
    and "\<forall>c \<in> set cs. is_c_string (jn_name (cj_node c)) \<and> escaped_size (jn_name (cj_node c)) < 2 ^ 31
      \<and> (\<forall>n. \<exists>s n'. print_value fp al depth fmt c n = Some (Inr s, n') \<and> P s c)"
  shows "\<exists>es n'. print_members fp al depth fmt cs n = Some (Inr es, n') \<and> list_all2 (prints_member P) es cs"
  using assms(2)
proof (induction cs arbitrary: n)
  case (Cons c cs)
  obtain name where name: "jn_name (cj_node c) = Some name" "CHR 0x00 \<notin> set name" "length (escaped name) < 2 ^ 31 - 1"
    using Cons.prems by (auto simp: is_c_string_def escaped_size_def split: option.splits)
  obtain s n1 where s: "print_value fp al depth fmt c (Suc n) = Some (Inr s, n1)" "P s c" using Cons.prems by fastforce
  obtain es n2 where "print_members fp al depth fmt cs n1 = Some (Inr es, n2)" "list_all2 (prints_member P) es cs"
    using Cons.IH [of n1] Cons.prems by auto
  moreover have "prints_member P (escaped name, s) c" using s(2) name by (simp add: prints_member_def)
  ultimately show ?case using s(1) name(1) print_string_granted [OF assms(1) name(3)] by simp
qed simp

lemma parse_value_number:
  "is_digit c \<or> c = CHR ''-'' \<Longrightarrow> parse_value fp al (Suc k) item (c # s) n
    = jbind (parse_number fp item (c # s) n) (\<lambda>(nd, r) n. Some (Inr (CJ nd [], r), n))"
proof -
  assume c: "is_digit c \<or> c = CHR ''-''"
  have "is_digit c \<Longrightarrow> CHR ''n'' \<noteq> c \<and> CHR ''f'' \<noteq> c \<and> CHR ''t'' \<noteq> c \<and> CHR 0x22 \<noteq> c" by (auto simp: is_digit_def)
  then have "CHR ''n'' \<noteq> c \<and> CHR ''f'' \<noteq> c \<and> CHR ''t'' \<noteq> c \<and> CHR 0x22 \<noteq> c" using c by auto
  then show ?thesis using c by (elim disjE) simp_all
qed

lemma printsI:
  assumes "solid s"
    and "\<And>k nd r m. levels t \<le> Suc k \<Longrightarrow> number_end r \<Longrightarrow> \<exists>t' m'. parse_value fp al (Suc k) nd (s @ r) m = Some (Inr (t', r), m')
      \<and> content t' = content t \<and> jn_name (cj_node t') = jn_name nd"
  shows "prints fp al s t"
  unfolding prints_def reads_def
proof (intro allI impI conjI)
  fix k nd r m
  assume "levels t \<le> k" and "number_end r"
  moreover have "0 < levels t" by (cases t) simp
  ultimately show "\<exists>t' m'. parse_value fp al k nd (s @ r) m = Some (Inr (t', r), m') \<and> content t' = content t \<and> jn_name (cj_node t') = jn_name nd"
    using assms(2) [of "k - 1" r nd m] by (cases k) auto
qed (rule assms(1))

lemma prints_integer:
  assumes "jn_type item = J_Int" and "int k < 2 ^ 64" and "(if neg then - of_nat k else of_nat k) = jn_int item"
  shows "prints fp al ((if neg then ''-'' else []) @ dec_nat k) (CJ item cs)" (is "prints fp al ?s _")
proof (rule printsI)
  obtain c s where c: "?s = c # s" "is_digit c \<or> c = CHR ''-''"
    using hd_dec_nat [of k] by (cases neg; cases "dec_nat k") auto
  then show "solid ?s" by (auto simp: solid_def is_digit_def)
  fix j nd r m
  assume "number_end r"
  from parse_number_dec [OF this assms(2), of fp nd neg m] obtain nd' where
    "parse_number fp nd (?s @ r) m = Some (Inr (nd', r), m)" "jn_type nd' = J_Int" "jn_int nd' = jn_int item" "jn_name nd' = jn_name nd"
    using assms(3) by auto
  then show "\<exists>t' m'. parse_value fp al (Suc j) nd (?s @ r) m = Some (Inr (t', r), m') \<and> content t' = content (CJ item cs)
      \<and> jn_name (cj_node t') = jn_name nd"
    using c(1) assms(1) by (simp add: parse_value_number [OF c(2)] del: parse_value.simps)
qed

lemma prints_text:
  assumes "\<forall>n. al n" and "jn_type item = J_String" and "jn_str item = Some s" and "CHR 0x00 \<notin> set s" and "length (escaped s) < 2 ^ 31"
  shows "prints fp al (escaped s) (CJ item cs)"
proof (rule printsI)
  fix k nd r m
  have "starts [CHR 0x22] (escaped s @ r)" "\<not> starts ''null'' (escaped s @ r)" "\<not> starts ''false'' (escaped s @ r)"
    "\<not> starts ''true'' (escaped s @ r)" by (simp_all add: escaped_def)
  then show "\<exists>t' m'. parse_value fp al (Suc k) nd (escaped s @ r) m = Some (Inr (t', r), m') \<and> content t' = content (CJ item cs)
      \<and> jn_name (cj_node t') = jn_name nd"
    using assms(2,3) by (simp add: parse_string_escaped [OF assms(1,4,5)])
qed simp

lemma prints_array:
  assumes "\<forall>n. al n" and "jn_type item = J_Array" and "list_all2 (prints fp al) es cs"
  shows "prints fp al (array_text fmt es) (CJ item cs)"
proof (rule printsI)
  show "solid (array_text fmt es)" by (simp add: solid_def array_text_def)
  fix k nd r m
  assume k: "levels (CJ item cs) \<le> Suc k"
  let ?pv = "\<lambda>nd s n. parse_value fp al k nd s n"
  have "list_all2 (reads ?pv) es cs"
    using assms(3)
  proof (rule list.rel_mono_strong)
    fix e t assume "t \<in> set cs" and "prints fp al e t"
    then show "reads ?pv e t" using levels_child [of t cs item] k by (simp add: prints_def)
  qed
  then obtain t' m' us where t': "parse_array fp al ?pv nd (array_text fmt es @ r) m = Some (Inr (t', r), m')"
    "t' = CJ (nd\<lparr>jn_type := J_Array\<rparr>) us" "map content us = map content cs"
    using parse_array_reads [OF assms(1), of ?pv es cs fp nd fmt r m] by auto
  have "parse_value fp al (Suc k) nd (array_text fmt es @ r) m = parse_array fp al ?pv nd (array_text fmt es @ r) m"
    by (simp add: array_text_def is_digit_def)
  then show "\<exists>t' m'. parse_value fp al (Suc k) nd (array_text fmt es @ r) m = Some (Inr (t', r), m') \<and> content t' = content (CJ item cs)
      \<and> jn_name (cj_node t') = jn_name nd"
    using t' assms(2) by (simp del: parse_value.simps)
qed

lemma prints_object:
  assumes "\<forall>n. al n" and "jn_type item = J_Object" and "list_all2 (prints_member (prints fp al)) es cs"
  shows "prints fp al (object_text depth fmt es) (CJ item cs)"
proof (rule printsI)
  show "solid (object_text depth fmt es)" by (simp add: solid_def object_text_def)
  fix k nd r m
  assume k: "levels (CJ item cs) \<le> Suc k"
  let ?pv = "\<lambda>nd s n. parse_value fp al k nd s n"
  have "list_all2 (reads_member ?pv) es cs"
    using assms(3)
  proof (rule list.rel_mono_strong)
    fix e t assume "t \<in> set cs" and "prints_member (prints fp al) e t"
    then show "reads_member ?pv e t" using levels_child [of t cs item] k by (simp add: prints_member_def reads_member_def prints_def)
  qed
  then obtain t' m' us where t': "parse_object fp al ?pv nd (object_text depth fmt es @ r) m = Some (Inr (t', r), m')"
    "t' = CJ (nd\<lparr>jn_type := J_Object\<rparr>) us" "map named us = map named cs"
    using parse_object_reads [OF assms(1), of ?pv es cs fp nd depth fmt r m] by auto
  have "parse_value fp al (Suc k) nd (object_text depth fmt es @ r) m = parse_object fp al ?pv nd (object_text depth fmt es @ r) m"
    by (simp add: object_text_def is_digit_def)
  then show "\<exists>t' m'. parse_value fp al (Suc k) nd (object_text depth fmt es @ r) m = Some (Inr (t', r), m') \<and> content t' = content (CJ item cs)
      \<and> jn_name (cj_node t') = jn_name nd"
    using t' assms(2) by (simp add: named_def [abs_def] del: parse_value.simps)
qed

lemma prints_constant:
  "jn_type item = J_NULL \<Longrightarrow> prints fp al ''null'' (CJ item cs)"
  "jn_type item = J_False \<Longrightarrow> prints fp al ''false'' (CJ item cs)"
  "jn_type item = J_True \<Longrightarrow> prints fp al ''true'' (CJ item cs)"
  by (rule printsI; simp add: solid_def)+

lemma small_ulong: "n < 2 ^ 31 \<Longrightarrow> c_ulong (int n) = n"
  by (intro c_ulong_id) simp

text \<open>Printing one array or object whose children are printed well: its text, and the length of it.\<close>

abbreviation prints_well :: "'d fpu \<Rightarrow> (nat \<Rightarrow> bool) \<Rightarrow> nat \<Rightarrow> string \<Rightarrow> 'd cjson \<Rightarrow> bool" where
  "prints_well fp al depth s t \<equiv> prints fp al s t \<and> length s < print_size depth t"

lemma array_sum_le: "list_all2 (prints_well fp al d) es cs \<Longrightarrow> array_sum fmt es \<le> sum_list (map (\<lambda>c. print_size d c + 3) cs)"
  unfolding array_sum_def by (erule sum_list_rel) auto

lemma object_sum_le:
  "list_all2 (prints_member (prints_well fp al (Suc d))) es cs \<Longrightarrow>
    object_sum (Suc d) fmt es \<le> sum_list (map (\<lambda>c. print_size (Suc d) c + escaped_size (jn_name (cj_node c)) + 5 + d) cs)"
  unfolding object_sum_def by (erule sum_list_rel) (auto simp: prints_member_def escaped_size_def)

lemma print_array_well:
  assumes "\<forall>n. al n" and "jn_type item = J_Array" and "depth < fp_stack fp" and "depth + print_size depth (CJ item cs) < 2 ^ 31"
    and "\<forall>c \<in> set cs. \<forall>n. \<exists>s n'. print_value fp al (depth + 1) fmt c n = Some (Inr s, n') \<and> prints_well fp al (depth + 1) s c"
  shows "\<exists>s n'. print_value fp al depth fmt (CJ item cs) n = Some (Inr s, n') \<and> prints_well fp al depth s (CJ item cs)"
proof -
  obtain es n1 where es: "print_items fp al (depth + 1) fmt cs (Suc n) = Some (Inr es, n1)" "list_all2 (prints_well fp al (depth + 1)) es cs"
    using print_items_all [OF assms(5)] by blast
  have len: "5 + array_sum fmt es \<le> print_size depth (CJ item cs)" using array_sum_le [OF es(2)] assms(2) by simp
  have "length cs \<le> sum_list (map (\<lambda>c. print_size (depth + 1) c + 3) cs)" by (rule sum_list_length) simp
  then have cs: "length cs < 2 ^ 31" "depth < 2 ^ 31" using assms(2,4) by simp_all
  have sum: "5 + array_sum fmt es < 2 ^ 31" using len assms(4) by linarith
  then have "c_ulong (array_len fmt es) = 5 + array_sum fmt es" using small_ulong by (simp only: array_len_sum)
  then have "print_value fp al depth fmt (CJ item cs) n = Some (Inr (array_text fmt es), Suc n1)"
    using es(1) cs assms(2,3) array_fits [of fmt es] by (simp add: malloc_granted [OF assms(1)] j_write_def)
  moreover have "prints fp al (array_text fmt es) (CJ item cs)"
    by (rule prints_array [OF assms(1,2)]) (rule list.rel_mono_strong [OF es(2)], simp)
  moreover have "length (array_text fmt es) < print_size depth (CJ item cs)" using array_fits [of fmt es] len by linarith
  ultimately show ?thesis by blast
qed

lemma print_object_well:
  assumes "\<forall>n. al n" and "jn_type item = J_Object" and "depth < fp_stack fp" and "depth + print_size depth (CJ item cs) < 2 ^ 31"
    and "\<forall>c \<in> set cs. is_c_string (jn_name (cj_node c))
      \<and> (\<forall>n. \<exists>s n'. print_value fp al (depth + 1) fmt c n = Some (Inr s, n') \<and> prints_well fp al (depth + 1) s c)"
  shows "\<exists>s n'. print_value fp al depth fmt (CJ item cs) n = Some (Inr s, n') \<and> prints_well fp al depth s (CJ item cs)"
proof -
  let ?f = "\<lambda>c. print_size (depth + 1) c + escaped_size (jn_name (cj_node c)) + 5 + depth"
  have size: "print_size depth (CJ item cs) = 8 + depth + sum_list (map ?f cs)" using assms(2) by simp
  have "escaped_size (jn_name (cj_node c)) < 2 ^ 31" if "c \<in> set cs" for c
    using sum_list_member [OF that, of ?f] size assms(4) by linarith
  then obtain es n1 where es: "print_members fp al (depth + 1) fmt cs (Suc (Suc n)) = Some (Inr es, n1)"
    "list_all2 (prints_member (prints_well fp al (depth + 1))) es cs"
    using print_members_all [OF assms(1), of cs fp "depth + 1" fmt "prints_well fp al (depth + 1)"] assms(5) by blast
  have sum: "8 + depth + object_sum (depth + 1) fmt es \<le> print_size depth (CJ item cs)" using object_sum_le [of fp al depth es cs fmt] es(2) size by simp
  have "length cs \<le> sum_list (map ?f cs)" by (rule sum_list_length) simp
  then have cs: "length cs < 2 ^ 31" "depth < 2 ^ 31" "8 + depth < 2 ^ 31" using size assms(4) by simp_all
  let ?a = "7 + (if fmt then depth + 1 else 0)"
  have start: "object_start (depth + 1) fmt = Some ?a" using cs by (simp add: object_start_def)
  have "?a \<le> 8 + depth" by simp
  then have fits: "?a + object_sum (depth + 1) fmt es \<le> print_size depth (CJ item cs)" using sum by linarith
  then have "?a + object_sum (depth + 1) fmt es < 2 ^ 31" using assms(4) by linarith
  then have "c_ulong (object_len ?a (depth + 1) fmt es) = ?a + object_sum (depth + 1) fmt es"
    using small_ulong by (simp only: object_len_sum)
  then have "print_value fp al depth fmt (CJ item cs) n = Some (Inr (object_text (depth + 1) fmt es), Suc n1)"
    using es(1) cs start assms(2,3) object_fits [of "depth + 1" fmt es] by (simp add: malloc_granted [OF assms(1)] j_write_def)
  moreover have "prints fp al (object_text (depth + 1) fmt es) (CJ item cs)"
    by (rule prints_object [OF assms(1,2)]) (rule list.rel_mono_strong [OF es(2)], simp add: prints_member_def)
  moreover have "length (object_text (depth + 1) fmt es) < print_size depth (CJ item cs)"
    using object_fits [of "depth + 1" fmt es] fits by linarith
  ultimately show ?thesis by blast
qed

lemma print_parse:
  assumes "\<forall>n. al n"
  shows "printable t \<Longrightarrow> depth + levels t \<le> fp_stack fp \<Longrightarrow> depth + print_size depth t < 2 ^ 31 \<Longrightarrow>
    \<exists>s n'. print_value fp al depth fmt t n = Some (Inr s, n') \<and> prints_well fp al depth s t"
proof (induction t arbitrary: depth n)
  case (CJ item cs)
  have room: "depth < fp_stack fp" "depth < 2 ^ 31" using CJ.prems by simp_all
  have child: "depth + 1 + levels c \<le> fp_stack fp" if "c \<in> set cs" for c using levels_child [OF that, of item] CJ.prems(2) by simp
  have size: "depth + 1 + print_size (depth + 1) c < 2 ^ 31" if "c \<in> set cs" "jn_type item = J_Array \<or> jn_type item = J_Object" for c
  proof -
    have "print_size (depth + 1) c + 3 \<le> sum_list (map (\<lambda>c. print_size (depth + 1) c + 3) cs)"
      "print_size (depth + 1) c + escaped_size (jn_name (cj_node c)) + 5 + depth
        \<le> sum_list (map (\<lambda>c. print_size (depth + 1) c + escaped_size (jn_name (cj_node c)) + 5 + depth) cs)"
      by (rule sum_list_member [OF that(1)])+
    then show ?thesis using CJ.prems(3) that(2) by auto
  qed
  show ?case
  proof (cases "jn_type item")
    case J_Int
    obtain neg k where k: "print_int al item n = Some (Inr ((if neg then ''-'' else []) @ dec_nat k), Suc n)" "int k < 2 ^ 64"
      "(if neg then - of_nat k else of_nat k) = jn_int item" using print_int_text [OF assms] by blast
    then show ?thesis using prints_integer [OF J_Int k(2,3)] length_dec_u64 [OF k(2)] J_Int room by auto
  next
    case J_String
    then obtain s where s: "jn_str item = Some s" "CHR 0x00 \<notin> set s" using CJ.prems by (auto simp: is_c_string_def split: option.splits)
    have l: "length (escaped s) < 2 ^ 31 - 1" using CJ.prems(3) J_String s(1) by (simp add: escaped_size_def)
    then show ?thesis
      using prints_text [OF assms J_String s] J_String room s(1) print_string_granted [OF assms l] by (simp add: print_string_def escaped_size_def)
  next
    case J_Array
    show ?thesis by (rule print_array_well [OF assms J_Array room(1) CJ.prems(3)]) (use CJ child size J_Array in auto)
  next
    case J_Object
    show ?thesis by (rule print_object_well [OF assms J_Object room(1) CJ.prems(3)]) (use CJ child size J_Object in auto)
  qed (use CJ.prems room in \<open>simp_all add: cJSON_strdup_def malloc_granted [OF assms] prints_constant\<close>)
qed

lemma print_then_parse:
  assumes "\<forall>n. al n" and "printable t" and "levels t \<le> fp_stack fp" and "print_size 0 t < 2 ^ 31"
  shows "\<exists>s n' t' m'. (if fmt then cJSON_Print else cJSON_PrintUnformatted) fp al t n = Some (Inr s, n')
    \<and> cJSON_Parse fp al s m = Some (Inr t', m') \<and> content t' = content t"
proof -
  obtain s n' where s: "print_value fp al 0 fmt t n = Some (Inr s, n')" "prints fp al s t"
    using print_parse [OF assms(1,2), of 0 fp fmt n] assms(3,4) by auto
  let ?nd = "zero_node fp m :: 'a jnode"
  have rd: "reads (\<lambda>nd s' n. parse_value fp al (fp_stack fp) nd s' n) s t" using s(2) assms(3) by (simp add: prints_def)
  have "number_end []" by simp
  then obtain t' m' where "parse_value fp al (fp_stack fp) ?nd (s @ []) (Suc m) = Some (Inr (t', []), m')"
    and t': "content t' = content t" using rd unfolding reads_def by blast
  then have p: "parse_value fp al (fp_stack fp) ?nd s (Suc m) = Some (Inr (t', []), m')" by simp
  then have "cJSON_Parse fp al s m = Some (Inr t', m')"
    using reads_solid [OF rd] by (simp add: cJSON_Parse_def new_item_granted [OF assms(1)])
  then show ?thesis using s(1) t' by (cases fmt) (auto simp: cJSON_Print_def cJSON_PrintUnformatted_def)
qed

text \<open>
  C13. What is printed is read back. With memory granted, take any item without floating point numbers that is
  not nested deeper than the stack has room for, and whose printed form, with 22 bytes for each number, takes
  less than 2 GB, the range of the \<open>int\<close> lengths of the code: both printed forms are texts that
  \<open>cJSON_Parse\<close> accepts, and the item it builds has the same content: the same tree with the same names, strings, byte for
  byte, and 64-bit numbers, positive or negative. In particular no counter overflows and no buffer of the
  printer or the parser is too small for such an item.
\<close>

theorem json_print_parse:
  assumes "\<forall>n. al n" and "printable t" and "levels t \<le> fp_stack fp" and "print_size 0 t < 2 ^ 31"
  shows "\<exists>s n' t' m'. (if fmt then cJSON_Print else cJSON_PrintUnformatted) fp al t n = Some (Inr s, n')
    \<and> cJSON_Parse fp al s m = Some (Inr t', m') \<and> content t' = content t"
  using assms by (rule print_then_parse)

definition doc_node :: "'d fpu \<Rightarrow> jtype \<Rightarrow> string option \<Rightarrow> 64 word \<Rightarrow> string option \<Rightarrow> 'd jnode" where
  "doc_node fp ty str v name = (zero_node fp 0)\<lparr>jn_type := ty, jn_str := str, jn_int := v, jn_sign := - 1, jn_name := name\<rparr>"

text \<open>An object with a negative number, the smallest one, a list, and a text with a quote, a control character and a byte above 127.\<close>

definition sample_doc :: "'d fpu \<Rightarrow> 'd cjson" where
  "sample_doc fp =
     CJ (doc_node fp J_Object None 0 None)
       [CJ (doc_node fp J_Array None 0 (Some ''a''))
          [CJ (doc_node fp J_Int None (- 5) None) [], CJ (doc_node fp J_Int None (2 ^ 63) None) [], CJ (doc_node fp J_NULL None 0 None) []],
        CJ (doc_node fp J_String (Some [CHR 0x22, CHR 0x01, CHR 0xE4]) 0 (Some ''b'')) []]"

theorem json_print_parse_witness:
  "\<forall>fp :: int fpu. \<exists>s n' t' m'. cJSON_Print (fp\<lparr>fp_stack := 3\<rparr>) (\<lambda>_. True) (sample_doc fp) 0 = Some (Inr s, n')
    \<and> cJSON_Parse (fp\<lparr>fp_stack := 3\<rparr>) (\<lambda>_. True) s 0 = Some (Inr t', m')
    \<and> content t' = V_obj [(Some ''a'', V_arr [V_int (- 5), V_int (2 ^ 63), V_null]), (Some ''b'', V_str (Some [CHR 0x22, CHR 0x01, CHR 0xE4]))]"
proof
  fix fp :: "int fpu"
  let ?fp = "fp\<lparr>fp_stack := 3\<rparr>"
  have p: "printable (sample_doc fp)" by (simp add: sample_doc_def doc_node_def zero_node_def is_c_string_def)
  have l: "levels (sample_doc fp) \<le> fp_stack ?fp" by (simp add: sample_doc_def)
  have "length (escaped [CHR 0x22, CHR 0x01, CHR 0xE4]) = 11" "length (escaped ''a'') = 3" "length (escaped ''b'') = 3" by code_simp+
  then have z: "print_size 0 (sample_doc fp) < 2 ^ 31" by (simp add: sample_doc_def doc_node_def zero_node_def escaped_size_def)
  from json_print_parse [of "\<lambda>_. True", OF _ p l z, of True 0 0] obtain s n' t' m' where
    "cJSON_Print ?fp (\<lambda>_. True) (sample_doc fp) 0 = Some (Inr s, n')" "cJSON_Parse ?fp (\<lambda>_. True) s 0 = Some (Inr t', m')"
    "content t' = content (sample_doc fp)" by auto
  moreover have "content (sample_doc fp)
      = V_obj [(Some ''a'', V_arr [V_int (- 5), V_int (2 ^ 63), V_null]), (Some ''b'', V_str (Some [CHR 0x22, CHR 0x01, CHR 0xE4]))]"
    by (simp add: sample_doc_def doc_node_def zero_node_def)
  ultimately show "\<exists>s n' t' m'. cJSON_Print ?fp (\<lambda>_. True) (sample_doc fp) 0 = Some (Inr s, n')
    \<and> cJSON_Parse ?fp (\<lambda>_. True) s 0 = Some (Inr t', m')
    \<and> content t' = V_obj [(Some ''a'', V_arr [V_int (- 5), V_int (2 ^ 63), V_null]), (Some ''b'', V_str (Some [CHR 0x22, CHR 0x01, CHR 0xE4]))]"
    by metis
qed

end
