(* ===== verification/Json_Safety.thy ===== *)
theory Json_Safety
  imports Json_Roundtrip "HOL-Library.Sublist"
begin

text \<open>
  When reading a text with \<open>cJSON_Parse\<close> is safe: the parser returns and stays inside its buffers if every
  backslash of the text starts a complete escape, its numbers fit \<open>uint64\<close>, and neither its length nor its nesting
  exceeds what the \<open>int\<close> lengths of the code and the stack of the machine hold.
\<close>

section \<open>Complete escapes\<close>

fun escapes_ok :: "string \<Rightarrow> bool" where
  "escapes_ok [] = True"
| "escapes_ok (c # s) =
     (if c \<noteq> CHR 0x5C then escapes_ok s
      else
        case s of
          [] \<Rightarrow> False
        | d # t \<Rightarrow>
            if d \<noteq> CHR ''u'' then escapes_ok t
            else (case t of h1 # h2 # h3 # h4 # r \<Rightarrow> is_hex h1 \<and> is_hex h2 \<and> is_hex h3 \<and> is_hex h4 \<and> escapes_ok r | _ \<Rightarrow> False))"

text \<open>
  A number that the code can convert: its exponent fits an \<open>int\<close> and its value is in the range of \<open>uint64\<close>.
  \<open>numbers_ok\<close> looks at the places where a value may start, behind a comma, a colon or a bracket.
\<close>

definition number_fits :: "'d fpu \<Rightarrow> string \<Rightarrow> bool" where
  "number_fits fp s \<longleftrightarrow>
     (starts ''-'' s \<or> (s \<noteq> [] \<and> is_digit (hd s)) \<longrightarrow>
       (let (sign, s) = (if starts ''-'' s then (- 1, tl s) else (1, s));
            (ds, fs, s) = scan_mantissa s;
            (sg, es, _) = scan_exponent s
        in int (digits_val 0 es) < 2 ^ 31
           \<and> (if fs = [] \<and> digits_val 0 es = 0 then int (digits_val 0 ds) < 2 ^ 64
              else fp_trunc fp sign (ds @ fs) (sg * int (digits_val 0 es) - int (length fs)) \<noteq> None)))"

fun numbers_ok :: "'d fpu \<Rightarrow> string \<Rightarrow> bool" where
  "numbers_ok fp [] = True"
| "numbers_ok fp (c # s) \<longleftrightarrow> (c \<in> set '',:['' \<longrightarrow> number_fits fp (skip s)) \<and> numbers_ok fp s"

text \<open>The number of brackets and braces that open.\<close>

definition opens :: "string \<Rightarrow> nat" where
  "opens s = length (filter (\<lambda>c. c \<in> set ''[{'') s)"

definition json_ok :: "'d fpu \<Rightarrow> string \<Rightarrow> bool" where
  "json_ok fp s \<longleftrightarrow> escapes_ok s \<and> numbers_ok fp s \<and> length s < 2 ^ 31"

lemma escapes_ok_append: "CHR 0x5C \<notin> set u \<Longrightarrow> escapes_ok (u @ v) = escapes_ok v"
  by (induction u) auto

lemma numbers_ok_append: "numbers_ok fp (u @ v) \<Longrightarrow> numbers_ok fp v"
  by (induction u) auto

lemma opens_suffix: "suffix v s \<Longrightarrow> opens v \<le> opens s"
  by (auto simp: suffix_def opens_def)

lemma json_ok_suffix: "json_ok fp s \<Longrightarrow> suffix v s \<Longrightarrow> escapes_ok v \<Longrightarrow> json_ok fp v"
  by (auto simp: json_ok_def suffix_def dest: numbers_ok_append)

lemma json_ok_append: "json_ok fp (u @ v) \<Longrightarrow> CHR 0x5C \<notin> set u \<Longrightarrow> json_ok fp v"
  using numbers_ok_append [of fp u v] by (simp add: json_ok_def escapes_ok_append)

lemma json_ok_tl: "json_ok fp (c # s) \<Longrightarrow> c \<noteq> CHR 0x5C \<Longrightarrow> json_ok fp s"
  using json_ok_append [of fp "[c]" s] by simp

lemma json_ok_skip [simp]: "json_ok fp s \<Longrightarrow> json_ok fp (skip s)"
proof (induction s)
  case (Cons c s)
  have "(of_char c :: nat) \<le> 32 \<Longrightarrow> c \<noteq> CHR 0x5C" by auto
  then show ?case using Cons json_ok_tl [of fp c s] by (cases "(of_char c :: nat) \<le> 32") simp_all
qed simp

lemma skip_suffix: "suffix (skip s) s"
  by (induction s) (auto intro: suffix_ConsI)

lemma tl_suffix: "suffix (tl s) s"
  by (cases s) (auto intro: suffix_ConsI)

lemma suffix_skip_trans: "suffix v (skip s) \<Longrightarrow> suffix v s"
  using skip_suffix suffix_order.trans by blast

lemma skip_skip [simp]: "skip (skip s) = skip s"
  by (induction s) auto

section \<open>Strings\<close>

lemma hex_not: "is_hex c \<Longrightarrow> c \<noteq> CHR 0x22 \<and> c \<noteq> CHR 0x5C \<and> \<not> is_space c \<and> c \<noteq> CHR ''-'' \<and> c \<noteq> CHR ''+'' \<and> c \<noteq> CHR ''x'' \<and> c \<noteq> CHR ''X''"
  by (auto simp: is_hex_def is_digit_def is_space_def)

lemma hex_val_less: "is_hex c \<Longrightarrow> hex_val c < 16"
proof -
  have n: "((48 \<le> n \<and> n \<le> 57) \<or> (97 \<le> n \<and> n \<le> 102) \<or> (65 \<le> n \<and> n \<le> 70)) \<Longrightarrow>
      (if 48 \<le> n \<and> n \<le> 57 then n - 48 else if 97 \<le> n then n - 87 else n - 55) < (16 :: nat)" for n :: nat by auto
  show "is_hex c \<Longrightarrow> hex_val c < 16" unfolding is_hex_def hex_val_def is_digit_def digit_val_def by (rule n)
qed

lemma scan_x4_hex:
  assumes "is_hex a" "is_hex b" "is_hex c" "is_hex d"
  shows "scan_x4 (a # b # c # d # r) = Some (hexes_val [a, b, c, d]) \<and> hexes_val [a, b, c, d] < 0x10000"
proof -
  have n: "16 * (16 * (16 * w + x) + y) + z < (0x10000 :: nat)" if "w < 16" "x < 16" "y < 16" "z < 16" for w x y z
    using that by simp
  have "hexes_val [a, b, c, d] = 16 * (16 * (16 * hex_val a + hex_val b) + hex_val c) + hex_val d" by (simp add: hexes_val_def)
  then have "hexes_val [a, b, c, d] < 0x10000" using n [OF assms [THEN hex_val_less]] by simp
  moreover have "scan_x4 (a # b # c # d # r) = Some (hexes_val [a, b, c, d])"
  proof -
    have "dropWhile is_space (a # b # c # d # r) = a # b # c # d # r" "\<not> starts ''-'' (a # b # c # d # r)" "\<not> starts ''+'' (a # b # c # d # r)"
      "CHR ''x'' \<noteq> b" "CHR ''X'' \<noteq> b"
      using hex_not [OF assms(1)] hex_not [OF assms(2)] by auto
    then show ?thesis using assms unfolding scan_x4_def Let_def by simp
  qed
  ultimately show ?thesis by simp
qed

lemma length_utf8_write: "length (utf8_write k m uc out) = Suc k + length out"
  by (induction k arbitrary: uc out) simp_all

lemma length_utf8: "length (utf8 uc) = utf8_len uc"
  by (simp add: utf8_def length_utf8_write utf8_len_def)

lemma utf8_len_le: "utf8_len uc \<le> 4"
  by (simp add: utf8_len_def)

lemma quote_len_plain: "c \<noteq> CHR 0x22 \<Longrightarrow> c \<noteq> CHR 0x5C \<Longrightarrow> quote_len (c # s) = map_option Suc (quote_len s)"
  by simp

text \<open>What one complete escape does; a second one may be consumed with it.\<close>

lemma decode_u_ok:
  assumes "is_hex a" "is_hex b" "is_hex c" "is_hex d" and "escapes_ok r"
  shows "\<exists>w uc' uc2' t. decode_u uc uc2 (a # b # c # d # r) = Some (w, uc', uc2', t) \<and> escapes_ok t \<and> suffix t r
    \<and> (t = r \<and> length w \<le> 4 \<or> (\<exists>h1 h2 h3 h4. r = CHR 0x5C # CHR ''u'' # h1 # h2 # h3 # h4 # t \<and> length w \<le> 4
         \<and> is_hex h1 \<and> is_hex h2 \<and> is_hex h3 \<and> is_hex h4))"
proof -
  let ?u = "hexes_val [a, b, c, d]"
  note u = scan_x4_hex [OF assms(1-4), of r]
  show ?thesis
  proof (cases "starts [CHR 0x5C, CHR ''u''] r \<and> 0xD800 \<le> ?u \<and> ?u \<le> 0xDBFF")
    case True
    then obtain q where q: "r = CHR 0x5C # CHR ''u'' # q" by (cases r; cases "tl r") auto
    then obtain h1 h2 h3 h4 t where h: "q = h1 # h2 # h3 # h4 # t" "is_hex h1" "is_hex h2" "is_hex h3" "is_hex h4" "escapes_ok t"
      using assms(5) by (auto split: list.splits)
    note v = scan_x4_hex [OF h(2-5), of t]
    have "suffix t r" using q h(1) by (auto intro!: suffixI [of _ "[CHR 0x5C, CHR ''u'', h1, h2, h3, h4]"])
    then show ?thesis using True u v q h utf8_len_le by (simp add: decode_u_def Let_def length_utf8)
  next
    case False
    then show ?thesis using u assms(5) utf8_len_le by (auto simp: decode_u_def Let_def length_utf8)
  qed
qed

text \<open>Four hexadecimal digits count as four characters.\<close>

lemma quote_len_hex:
  assumes "is_hex a" "is_hex b" "is_hex c" "is_hex d" and "quote_len r = Some len"
  shows "quote_len (a # b # c # d # r) = Some (len + 4)"
  using assms(5) hex_not [OF assms(1)] hex_not [OF assms(2)] hex_not [OF assms(3)] hex_not [OF assms(4)] by simp

lemma decode_ok:
  "escapes_ok s \<Longrightarrow> \<exists>len. quote_len s = Some len \<and>
    (\<forall>uc uc2. \<exists>out rest. decode uc uc2 s = Some (out, rest) \<and> length out \<le> len \<and> escapes_ok rest \<and> suffix rest s)"
proof (induction s rule: length_induct)
  case (1 s)
  then have IH: "\<exists>len. quote_len t = Some len \<and>
      (\<forall>uc uc2. \<exists>out rest. decode uc uc2 t = Some (out, rest) \<and> length out \<le> len \<and> escapes_ok rest \<and> suffix rest t)"
    if "length t < length s" "escapes_ok t" for t using that by blast
  show ?case
  proof (cases s)
    case (Cons c s')
    consider (quote) "c = CHR 0x22" | (plain) "c \<noteq> CHR 0x22" "c \<noteq> CHR 0x5C" | (escape) "c = CHR 0x5C" by blast
    then show ?thesis
    proof cases
      case quote
      then show ?thesis using 1(2) Cons by (auto intro: suffix_ConsI)
    next
      case plain
      then obtain len where "quote_len s' = Some len" and d: "\<And>uc uc2. \<exists>out rest. decode uc uc2 s' = Some (out, rest)
          \<and> length out \<le> len \<and> escapes_ok rest \<and> suffix rest s'" using IH [of s'] 1(2) Cons by auto
      moreover have "\<exists>out rest. decode uc uc2 s = Some (out, rest) \<and> length out \<le> Suc len \<and> escapes_ok rest \<and> suffix rest s" for uc uc2
        using d [of uc uc2] plain Cons by (auto intro: suffix_ConsI)
      ultimately show ?thesis using plain Cons by simp
    next
      case escape
      then obtain d t where t: "s' = d # t" using 1(2) Cons by (cases s') auto
      show ?thesis
      proof (cases "d = CHR ''u''")
        case False
        then obtain len where "quote_len t = Some len" and d: "\<And>uc uc2. \<exists>out rest. decode uc uc2 t = Some (out, rest)
            \<and> length out \<le> len \<and> escapes_ok rest \<and> suffix rest t" using IH [of t] 1(2) Cons t escape by auto
        moreover have "\<exists>out rest. decode uc uc2 s = Some (out, rest) \<and> length out \<le> Suc len \<and> escapes_ok rest \<and> suffix rest s" for uc uc2
          using d [of uc uc2] False escape Cons t by (auto simp: suffix_Cons)
        ultimately show ?thesis using escape Cons t by simp
      next
        case u: True
        then obtain a b e f r where h: "t = a # b # e # f # r" "is_hex a" "is_hex b" "is_hex e" "is_hex f" "escapes_ok r"
          using 1(2) Cons t escape by (auto split: list.splits)
        have s: "s = CHR 0x5C # CHR ''u'' # a # b # e # f # r" using Cons t escape u h(1) by simp
        obtain lr where lr: "quote_len r = Some lr" using IH [of r] h(6) s by auto
        have len: "quote_len s = Some (Suc (lr + 4))" using quote_len_hex [OF h(2-5) lr] s by simp
        have "\<exists>out rest. decode uc uc2 s = Some (out, rest) \<and> length out \<le> Suc (lr + 4) \<and> escapes_ok rest \<and> suffix rest s" for uc uc2
        proof -
          obtain w uc' uc2' q where q: "decode_u uc uc2 (a # b # e # f # r) = Some (w, uc', uc2', q)" "escapes_ok q" "suffix q r"
            and two: "q = r \<and> length w \<le> 4 \<or> (\<exists>h1 h2 h3 h4. r = CHR 0x5C # CHR ''u'' # h1 # h2 # h3 # h4 # q \<and> length w \<le> 4
                \<and> is_hex h1 \<and> is_hex h2 \<and> is_hex h3 \<and> is_hex h4)"
            using decode_u_ok [OF h(2-6), of uc uc2] by blast
          have "length q < length s" using q(3) s by (auto dest: suffix_length_le)
          then obtain lq out rest where d: "quote_len q = Some lq" "decode uc' uc2' q = Some (out, rest)" "length out \<le> lq" "escapes_ok rest" "suffix rest q"
            using IH [of q] q(2) by metis
          have "length w + lq \<le> Suc (lr + 4)" using two lr d(1) quote_len_hex by (elim disjE exE conjE) auto
          moreover have "decode uc uc2 s = Some (w @ out, rest)" using s q(1) d(2) by simp
          moreover have "suffix rest s" using d(5) q(3) s by (auto simp: suffix_Cons intro: suffix_order.trans)
          ultimately show ?thesis using d(3,4) by auto
        qed
        then show ?thesis using len by blast
      qed
    qed
  qed simp
qed

section \<open>The parser is safe on such texts\<close>

text \<open>A result that is not undefined, and whose rest is such a text again and shorter by \<open>m\<close>.\<close>

definition safe :: "'d fpu \<Rightarrow> ('a \<times> string) jres \<Rightarrow> string \<Rightarrow> nat \<Rightarrow> bool" where
  "safe fp r s m \<longleftrightarrow>
     (case r of
        None \<Rightarrow> False
      | Some (Inl _, _) \<Rightarrow> True
      | Some (Inr (_, rest), _) \<Rightarrow> json_ok fp rest \<and> suffix rest s \<and> length rest + m \<le> length s)"

lemma safe_simps [simp]:
  "safe fp (Some (Inl e, n)) s m"
  "safe fp (Some (Inr (x, rest), n)) s m \<longleftrightarrow> json_ok fp rest \<and> suffix rest s \<and> length rest + m \<le> length s"
  by (simp_all add: safe_def)

lemma safe_if: "(b \<Longrightarrow> safe fp x s m) \<Longrightarrow> (\<not> b \<Longrightarrow> safe fp y s m) \<Longrightarrow> safe fp (if b then x else y) s m"
  by simp

lemma safe_not_None: "safe fp r s m \<Longrightarrow> r \<noteq> None"
  by (cases r) (auto simp: safe_def)

lemma safe_bind:
  assumes "safe fp r s m"
    and "\<And>x rest n. json_ok fp rest \<Longrightarrow> suffix rest s \<Longrightarrow> length rest + m \<le> length s \<Longrightarrow> safe fp (f (x, rest) n) s' m'"
  shows "safe fp (jbind r f) s' m'"
proof -
  obtain v n where r: "r = Some (v, n)" using assms(1) by (cases r) (auto simp: safe_def)
  show ?thesis
  proof (cases v)
    case (Inr y)
    then show ?thesis using r assms by (cases y) simp
  qed (simp add: r)
qed

lemma safe_new_item:
  "(\<And>ch n. safe fp (f ch n) s m) \<Longrightarrow> safe fp (jbind (cJSON_New_Item fp' al n) f) s m"
  by (simp add: cJSON_New_Item_def j_malloc_def)

lemma starts_single: "starts [c] s \<longleftrightarrow> (\<exists>t. s = c # t)"
  by (cases s) auto

lemma json_ok_after:
  assumes "json_ok fp s" and "starts [c] s" and "c \<noteq> CHR 0x5C"
  shows "json_ok fp (tl s)" "length (tl s) + 1 \<le> length s" "suffix (tl s) s" "c \<in> set '',:['' \<Longrightarrow> number_fits fp (skip (tl s))"
    "c \<in> set ''[{'' \<Longrightarrow> opens s = Suc (opens (tl s))"
proof -
  obtain t where t: "s = c # t" using assms(2) by (auto simp: starts_single)
  show "json_ok fp (tl s)" using assms(1,3) json_ok_tl t by auto
  show "length (tl s) + 1 \<le> length s" using t by simp
  show "suffix (tl s) s" by (rule tl_suffix)
  show "c \<in> set '',:['' \<Longrightarrow> number_fits fp (skip (tl s))" using assms(1) t by (simp add: json_ok_def)
  show "c \<in> set ''[{'' \<Longrightarrow> opens s = Suc (opens (tl s))" using t by (simp add: opens_def)
qed

lemma json_ok_drop:
  assumes "json_ok fp s" and "starts p s" and "CHR 0x5C \<notin> set p"
  shows "json_ok fp (drop (length p) s)" "suffix (drop (length p) s) s" "length (drop (length p) s) + length p \<le> length s"
proof -
  have s: "s = p @ drop (length p) s" using assms(2) unfolding starts_def by (metis append_take_drop_id)
  then show "json_ok fp (drop (length p) s)" using assms json_ok_append [of fp p "drop (length p) s"] by simp
  show "suffix (drop (length p) s) s" by (rule suffix_drop)
  have "length s = length p + length (drop (length p) s)" using s by (metis length_append)
  then show "length (drop (length p) s) + length p \<le> length s" by linarith
qed

lemma safe_string: "json_ok fp s \<Longrightarrow> safe fp (parse_string al nd s n) s 1"
proof (cases "starts [CHR 0x22] s")
  case True
  assume ok: "json_ok fp s"
  obtain t where t: "s = CHR 0x22 # t" using True by (auto simp: starts_single)
  have okt: "json_ok fp t" using ok t json_ok_tl by auto
  then obtain len out rest where d: "quote_len t = Some len" "decode None None t = Some (out, rest)" "length out \<le> len"
    "escapes_ok rest" "suffix rest t" using decode_ok [of t] unfolding json_ok_def by blast
  have "json_ok fp rest" by (rule json_ok_suffix [OF okt d(5,4)])
  moreover have "length rest \<le> length t" using d(5) by (rule suffix_length_le)
  moreover have "suffix rest s" using d(5) t by (auto intro: suffix_ConsI)
  moreover have "len + 1 < 2 ^ 31" using quote_len_le [OF d(1)] ok t by (simp add: json_ok_def)
  ultimately show ?thesis using d t by (simp add: parse_string_def j_malloc_def string_len_quote)
qed (simp add: parse_string_def)

text \<open>A number takes characters that are no backslash, at least one.\<close>

lemma digits_plain: "CHR 0x5C \<notin> set (takeWhile is_digit s)"
  by (auto simp: is_digit_def dest: set_takeWhileD)

lemma scan_mantissa_append:
  assumes "scan_mantissa s = (ds, fs, r)"
  shows "\<exists>u. s = u @ r \<and> CHR 0x5C \<notin> set u \<and> (s \<noteq> [] \<and> is_digit (hd s) \<longrightarrow> u \<noteq> [])"
proof -
  define z where "z = (if starts ''0'' s then ''0'' else [])"
  define s1 where "s1 = (if starts ''0'' s then tl s else s)"
  have s1: "s = z @ s1" by (cases s) (auto simp: z_def s1_def)
  define D where "D = (if s1 \<noteq> [] \<and> is_digit (hd s1) \<and> hd s1 \<noteq> CHR ''0'' then takeWhile is_digit s1 else [])"
  define s2 where "s2 = drop (length D) s1"
  define F where "F = (if starts ''.'' s2 \<and> tl s2 \<noteq> [] \<and> is_digit (hd (tl s2)) then takeWhile is_digit (tl s2) else [])"
  have "scan_mantissa s = (D, F, if F = [] then s2 else drop (Suc (length F)) s2)"
    by (simp only: scan_mantissa_def Let_def D_def F_def s2_def s1_def)
  then have eq: "D = ds" "F = fs" and r: "r = (if fs = [] then s2 else drop (Suc (length fs)) s2)" using assms by simp_all
  note ds = D_def [unfolded eq(1)] and fs = F_def [unfolded eq(2)]
  have s2: "s1 = ds @ s2"
    using ds s2_def [unfolded eq(1)] by (auto simp: dropWhile_eq_drop [symmetric] takeWhile_dropWhile_id)
  define p where "p = (if fs = [] then [] else CHR ''.'' # fs)"
  have "s2 = p @ r"
  proof (cases "fs = []")
    case False
    then have t: "starts ''.'' s2" "fs = takeWhile is_digit (tl s2)" using fs by (auto split: if_splits)
    then obtain q where q: "s2 = CHR ''.'' # q" by (auto simp: starts_single)
    then have "q = fs @ drop (length fs) q" using t(2) by (metis append_eq_conv_conj list.sel(3) takeWhile_dropWhile_id)
    then show ?thesis using q r False by (simp add: p_def)
  qed (simp add: p_def r)
  then have "s = (z @ ds @ p) @ r" using s1 s2 by simp
  moreover have "CHR 0x5C \<notin> set (z @ ds @ p)"
    using ds fs digits_plain by (auto simp: z_def p_def split: if_splits)
  moreover have "z @ ds @ p \<noteq> []" if "s \<noteq> []" "is_digit (hd s)"
  proof (cases "starts ''0'' s")
    case False
    then have "ds = takeWhile is_digit s" using that ds by (cases s) (auto simp: s1_def)
    then show ?thesis using that by (cases s) auto
  qed (simp add: z_def)
  ultimately show ?thesis by blast
qed

lemma scan_exponent_append:
  assumes "scan_exponent s = (sg, es, r)"
  shows "\<exists>u. s = u @ r \<and> CHR 0x5C \<notin> set u"
proof (cases "s \<noteq> [] \<and> (hd s = CHR ''e'' \<or> hd s = CHR ''E'')")
  case True
  then obtain e t where e: "s = e # t" "e \<noteq> CHR 0x5C" by (cases s) auto
  define g where "g = (if starts ''+'' t then ''+'' else if starts ''-'' t then ''-'' else [])"
  define t' where "t' = (if starts ''+'' t then tl t else if starts ''-'' t then tl t else t)"
  have t: "t = g @ t'" by (cases t) (auto simp: g_def t'_def)
  have "es = takeWhile is_digit t'" "r = dropWhile is_digit t'"
    using assms True e by (auto simp: scan_exponent_def t'_def Let_def split: if_splits)
  then have "s = (e # g @ es) @ r" using e t by simp
  moreover have "CHR 0x5C \<notin> set (e # g @ es)"
    using e(2) digits_plain [of t'] \<open>es = _\<close> by (auto simp: g_def)
  ultimately show ?thesis by blast
next
  case False
  then have "r = s" using assms unfolding scan_exponent_def by auto
  then show ?thesis by (intro exI [of _ "[]"]) simp
qed

lemma safe_number:
  assumes "json_ok fp s" and "number_fits fp s" and "starts ''-'' s \<or> (s \<noteq> [] \<and> is_digit (hd s))"
  shows "safe fp (parse_number fp nd s n) s 1"
proof -
  define g where "g = (if starts ''-'' s then ''-'' else [])"
  define s1 where "s1 = (if starts ''-'' s then tl s else s)"
  have s1: "s = g @ s1" by (cases s) (auto simp: g_def s1_def)
  obtain ds fs s2 where m: "scan_mantissa s1 = (ds, fs, s2)" by (metis prod_cases3)
  obtain u where u: "s1 = u @ s2" "CHR 0x5C \<notin> set u" "s1 \<noteq> [] \<and> is_digit (hd s1) \<longrightarrow> u \<noteq> []" using scan_mantissa_append [OF m] by blast
  obtain sg es r where x: "scan_exponent s2 = (sg, es, r)" by (metis prod_cases3)
  obtain v where v: "s2 = v @ r" "CHR 0x5C \<notin> set v" using scan_exponent_append [OF x] by blast
  have s: "s = (g @ u @ v) @ r" using s1 u v by simp
  then have ok: "json_ok fp r" using assms(1) json_ok_append [of fp "g @ u @ v" r] u(2) v(2) by (auto simp: g_def)
  have "g @ u \<noteq> []" using assms(3) u(3) by (auto simp: g_def s1_def)
  then have len: "length r + 1 \<le> length s" using s by (cases g; cases u) auto
  have suf: "suffix r s" using s by (auto intro: suffixI)
  define sign :: int where "sign = (if starts ''-'' s then - 1 else 1)"
  have p: "(if starts ''-'' s then (- 1, tl s) else (1, s)) = (sign, s1)" by (simp add: sign_def s1_def)
  have fits: "int (digits_val 0 es) < 2 ^ 31"
    "if fs = [] \<and> digits_val 0 es = 0 then int (digits_val 0 ds) < 2 ^ 64
     else fp_trunc fp sign (ds @ fs) (sg * int (digits_val 0 es) - int (length fs)) \<noteq> None"
    using assms(2,3) unfolding number_fits_def p Let_def m x prod.case by blast+
  show ?thesis
  proof (cases "fs = [] \<and> digits_val 0 es = 0")
    case True
    then show ?thesis using ok len suf fits unfolding parse_number_def p by (simp add: m x Let_def)
  next
    case False
    then obtain w where "fp_trunc fp sign (ds @ fs) (sg * int (digits_val 0 es) - int (length fs)) = Some w" using fits(2) by auto
    then show ?thesis using ok len suf fits(1) False unfolding parse_number_def p by (auto simp: m x Let_def)
  qed
qed

text \<open>A parser of values that is safe where less than \<open>k\<close> brackets open.\<close>

definition value_safe :: "'d fpu \<Rightarrow> 'd value_parser \<Rightarrow> nat \<Rightarrow> bool" where
  "value_safe fp pv k \<longleftrightarrow> (\<forall>nd s n. json_ok fp s \<and> number_fits fp s \<and> opens s < k \<longrightarrow> safe fp (pv nd s n) s 1)"

lemma value_safeD: "value_safe fp pv k \<Longrightarrow> json_ok fp s \<Longrightarrow> number_fits fp s \<Longrightarrow> opens s < k \<Longrightarrow> safe fp (pv nd s n) s 1"
  by (simp add: value_safe_def)

text \<open>The rest of a value without its white space.\<close>

lemma safe_skip:
  "safe fp r s m \<Longrightarrow> suffix s s' \<Longrightarrow> length s + m' \<le> length s' + m \<Longrightarrow> safe fp (jbind r (\<lambda>(c, r) n. Some (Inr (c, skip r), n))) s' m'"
proof (rule safe_bind)
  fix x rest and n :: nat
  assume "suffix s s'" and "length s + m' \<le> length s' + m" and "json_ok fp rest" and "suffix rest s" and "length rest + m \<le> length s"
  moreover from this have "suffix (skip rest) s'" using skip_suffix suffix_order.trans by metis
  ultimately show "safe fp ((case (x, rest) of (c, r) \<Rightarrow> \<lambda>n. Some (Inr (c, skip r), n)) n) s' m'" using skip_le [of rest] by simp
qed

lemma safe_elem:
  assumes "value_safe fp pv k" and "json_ok fp s" and "number_fits fp (skip s)" and "opens s < k"
  shows "safe fp (parse_elem fp al pv s n) s 1"
  unfolding parse_elem_def
proof (rule safe_new_item)
  fix ch m
  have "opens (skip s) < k" using opens_suffix [OF skip_suffix, of s] assms(4) by linarith
  then have "safe fp (pv ch (skip s) m) (skip s) 1" using value_safeD [OF assms(1)] assms(2,3) by simp
  then show "safe fp (jbind (pv ch (skip s) m) (\<lambda>(c, r) n. Some (Inr (c, skip r), n))) s 1"
    by (rule safe_skip) (use skip_le [of s] in \<open>simp_all add: skip_suffix\<close>)
qed

lemma safe_member:
  fixes pv :: "'d value_parser"
  assumes "value_safe fp pv k" and "json_ok fp s" and "opens s < k"
  shows "safe fp (parse_member fp al pv s n) s 1"
  unfolding parse_member_def
proof (rule safe_new_item)
  fix ch m
  have s: "json_ok fp (skip s)" "length (skip s) \<le> length s" using assms skip_le [of s] by simp_all
  show "safe fp (jbind (parse_string al ch (skip s) m) (\<lambda>(ch, r) n.
      let ch = ch\<lparr>jn_name := jn_str ch, jn_str := None\<rparr>; r = skip r
      in if \<not> starts '':'' r then Some (Inl (Some r), n)
         else jbind (pv ch (skip (tl r)) n) (\<lambda>(c, r) n. Some (Inr (c, skip r), n)))) s 1"
  proof (rule safe_bind [OF safe_string [OF s(1)]])
    fix ch :: "'d jnode" and rest and n :: nat
    assume r: "json_ok fp rest" "suffix rest (skip s)" "length rest + 1 \<le> length (skip s)"
    let ?r = "skip rest" and ?ch = "ch\<lparr>jn_name := jn_str ch, jn_str := None\<rparr>"
    have "safe fp (jbind (pv ?ch (skip (tl ?r)) n) (\<lambda>(c, r) n. Some (Inr (c, skip r), n))) s 1" if "starts '':'' ?r"
    proof -
      have ok: "json_ok fp ?r" using r(1) by simp
      note t = json_ok_after [OF ok that]
      have suf: "suffix (skip (tl ?r)) s"
        using skip_suffix [of "tl ?r"] t(3) skip_suffix [of rest] r(2) skip_suffix [of s] by (blast intro: suffix_order.trans)
      have l: "length (skip (tl ?r)) + 1 \<le> length s" using t(2) skip_le [of "tl ?r"] skip_le [of rest] r(3) s(2) by simp
      have "opens (skip (tl ?r)) < k" using opens_suffix [OF suf] assms(3) by linarith
      then have "safe fp (pv ?ch (skip (tl ?r)) n) (skip (tl ?r)) 1" using value_safeD [OF assms(1)] t by simp
      then show ?thesis by (rule safe_skip) (use l suf in simp_all)
    qed
    then show "safe fp ((case (ch, rest) of (ch, r) \<Rightarrow> \<lambda>n. let ch = ch\<lparr>jn_name := jn_str ch, jn_str := None\<rparr>; r = skip r
        in if \<not> starts '':'' r then Some (Inl (Some r), n)
           else jbind (pv ch (skip (tl r)) n) (\<lambda>(c, r) n. Some (Inr (c, skip r), n))) n) s 1"
      by (simp add: Let_def)
  qed
qed

text \<open>Both loops over the commas, with their body \<open>g\<close>.\<close>

lemma safe_loop:
  assumes "\<And>s n. json_ok fp s \<Longrightarrow> number_fits fp (skip s) \<Longrightarrow> opens s < k \<Longrightarrow> safe fp (g s n) s 1"
    and "\<And>s n. f (Suc j) s n = (if \<not> starts '','' s then Some (Inr ([], s), n)
        else jbind (g (tl s) n) (\<lambda>(c, r) n. jbind (f j r n) (\<lambda>(cs, r) n. Some (Inr (c # cs, r), n))))"
    and "\<And>s n. json_ok fp s \<Longrightarrow> length s < j \<Longrightarrow> opens s < k \<Longrightarrow> safe fp (f j s n) s 0"
    and "json_ok fp s" and "length s < Suc j" and "opens s < k"
  shows "safe fp (f (Suc j) s n) s 0"
proof (cases "starts '','' s")
  case True
  have "CHR '','' \<noteq> CHR 0x5C" by simp
  note t = json_ok_after [OF assms(4) True this]
  have o: "opens (tl s) < k" using opens_suffix [OF t(3)] assms(6) by linarith
  have "safe fp (jbind (g (tl s) n) (\<lambda>(c, r) n. jbind (f j r n) (\<lambda>(cs, r) n. Some (Inr (c # cs, r), n)))) s 0"
  proof (rule safe_bind [OF assms(1)])
    show "json_ok fp (tl s)" "number_fits fp (skip (tl s))" "opens (tl s) < k" using t(1,4) o by simp_all
    fix x rest and m :: nat
    assume r: "json_ok fp rest" "suffix rest (tl s)" "length rest + 1 \<le> length (tl s)"
    have "opens rest < k" using opens_suffix [OF r(2)] o by linarith
    then have "safe fp (f j rest m) rest 0" using assms(3,5) r by simp
    moreover have "suffix rest s" using r(2) t(3) by (blast intro: suffix_order.trans)
    ultimately show "safe fp ((case (x, rest) of (c, r) \<Rightarrow> \<lambda>n. jbind (f j r n) (\<lambda>(cs, r) n. Some (Inr (c # cs, r), n))) m) s 0"
      unfolding prod.case by (elim safe_bind) (use r(3) t(2) in \<open>auto intro: suffix_order.trans\<close>)
  qed
  then show ?thesis using assms(2) True by simp
qed (use assms in simp)

lemma safe_elems:
  assumes "value_safe fp pv k"
  shows "json_ok fp s \<Longrightarrow> length s < j \<Longrightarrow> opens s < k \<Longrightarrow> safe fp (parse_elems fp al pv j s n) s 0"
proof (induction j arbitrary: s n)
  case (Suc j)
  show ?case
    by (rule safe_loop [where g = "parse_elem fp al pv" and k = k])
      (use Suc safe_elem [OF assms] in \<open>auto simp del: One_nat_def\<close>)
qed simp

lemma safe_members:
  assumes "value_safe fp pv k"
  shows "json_ok fp s \<Longrightarrow> length s < j \<Longrightarrow> opens s < k \<Longrightarrow> safe fp (parse_members fp al pv j s n) s 0"
proof (induction j arbitrary: s n)
  case (Suc j)
  show ?case
    by (rule safe_loop [where g = "parse_member fp al pv" and k = k])
      (use Suc safe_member [OF assms] in \<open>auto simp del: One_nat_def\<close>)
qed simp

text \<open>An array or an object behind its bracket: a first element with the body \<open>g\<close>, the loop \<open>f\<close>, and the end.\<close>

lemma safe_sequence:
  assumes "safe fp (g v n) v 1"
    and "\<And>r n. json_ok fp r \<Longrightarrow> length r < length s \<Longrightarrow> opens r < k \<Longrightarrow> safe fp (f r n) r 0"
    and "opens v < k" and "suffix v s" and "length v < length s" and "c \<noteq> CHR 0x5C"
  shows "safe fp (jbind (g v n) (\<lambda>(x, r) n. jbind (f r n) (\<lambda>(cs, r) n.
      if starts [c] r then Some (Inr (h x cs, tl r), n) else Some (Inl (Some r), n)))) s 1"
proof (rule safe_bind [OF assms(1)])
  fix x r and m :: nat
  assume r: "json_ok fp r" "suffix r v" "length r + 1 \<le> length v"
  have "opens r < k" using opens_suffix [OF r(2)] assms(3) by linarith
  then have f: "safe fp (f r m) r 0" using assms(2,5) r by simp
  have "safe fp (jbind (f r m) (\<lambda>(cs, r) n. if starts [c] r then Some (Inr (h x cs, tl r), n) else Some (Inl (Some r), n))) s 1"
  proof (rule safe_bind [OF f])
    fix cs rest and j :: nat
    assume e: "json_ok fp rest" "suffix rest r" "length rest + 0 \<le> length r"
    have "suffix rest s" using e(2) r(2) assms(4) by (blast intro: suffix_order.trans)
    then have "suffix (tl rest) s" using tl_suffix suffix_order.trans by blast
    then show "safe fp ((case (cs, rest) of (cs, r) \<Rightarrow> \<lambda>n. if starts [c] r then Some (Inr (h x cs, tl r), n) else Some (Inl (Some r), n)) j) s 1"
      using e r(3) assms(5) json_ok_after [OF e(1) _ assms(6)] by auto
  qed
  then show "safe fp ((case (x, r) of (x, r) \<Rightarrow> \<lambda>n. jbind (f r n) (\<lambda>(cs, r) n.
      if starts [c] r then Some (Inr (h x cs, tl r), n) else Some (Inl (Some r), n))) m) s 1" by simp
qed

text \<open>What is behind the opening bracket.\<close>

lemma json_ok_inside:
  assumes "json_ok fp s" and "starts [c] s" and "c \<in> set ''[{''" and "opens s \<le> k"
  shows "json_ok fp (skip (tl s))" "suffix (skip (tl s)) s" "length (skip (tl s)) < length s" "opens (skip (tl s)) < k"
    "c = CHR ''['' \<Longrightarrow> number_fits fp (skip (tl s))"
proof -
  have "c \<noteq> CHR 0x5C" using assms(3) by auto
  note t = json_ok_after [OF assms(1,2) this]
  show "json_ok fp (skip (tl s))" "length (skip (tl s)) < length s" using t skip_le [of "tl s"] by simp_all
  show "suffix (skip (tl s)) s" using skip_suffix t(3) by (blast intro: suffix_order.trans)
  show "opens (skip (tl s)) < k" using opens_suffix [OF skip_suffix, of "tl s"] t(5) assms(3,4) by linarith
  show "c = CHR ''['' \<Longrightarrow> number_fits fp (skip (tl s))" using t(4) by simp
qed

lemma safe_empty:
  assumes "json_ok fp v" and "starts [c] v" and "c \<noteq> CHR 0x5C" and "suffix v s" and "length v < length s"
  shows "safe fp (Some (Inr (x, tl v), n)) s 1"
  using json_ok_after(1-3) [OF assms(1-3)] assms(4,5) suffix_order.trans [of "tl v" v s] by simp

lemma safe_array:
  assumes "value_safe fp pv k" and "json_ok fp s" and "opens s \<le> k" and "starts ''['' s"
  shows "safe fp (parse_array fp al pv nd s n) s 1"
proof -
  let ?v = "skip (tl s)"
  have v: "json_ok fp ?v" "suffix ?v s" "length ?v < length s" "opens ?v < k" "number_fits fp ?v"
    using json_ok_inside [OF assms(2,4) _ assms(3)] by simp_all
  show ?thesis
  proof (cases "starts '']'' ?v")
    case True
    have "safe fp (Some (Inr (CJ (nd\<lparr>jn_type := J_Array\<rparr>) [], tl ?v), n)) s 1" by (rule safe_empty [OF v(1) True _ v(2,3)]) simp
    then show ?thesis using assms(4) True by (simp add: parse_array_def Let_def del: safe_simps)
  next
    case False
    have "safe fp (parse_elem fp al pv ?v n) ?v 1" by (rule safe_elem [OF assms(1) v(1) _ v(4)]) (simp add: v(5))
    then have "safe fp (jbind (parse_elem fp al pv ?v n) (\<lambda>(c, r) n. jbind (parse_elems fp al pv (length s) r n) (\<lambda>(cs, r) n.
        if starts '']'' r then Some (Inr (CJ (nd\<lparr>jn_type := J_Array\<rparr>) (c # cs), tl r), n) else Some (Inl (Some r), n)))) s 1"
      by (rule safe_sequence [OF _ safe_elems [OF assms(1)] v(4,2,3)]) simp_all
    then show ?thesis using assms(4) False by (simp add: parse_array_def Let_def)
  qed
qed

lemma safe_object:
  assumes "value_safe fp pv k" and "json_ok fp s" and "opens s \<le> k" and "starts ''{'' s"
  shows "safe fp (parse_object fp al pv nd s n) s 1"
proof -
  let ?v = "skip (tl s)"
  have v: "json_ok fp ?v" "suffix ?v s" "length ?v < length s" "opens ?v < k"
    using json_ok_inside [OF assms(2,4) _ assms(3)] by simp_all
  show ?thesis
  proof (cases "starts ''}'' ?v")
    case True
    have "safe fp (Some (Inr (CJ (nd\<lparr>jn_type := J_Object\<rparr>) [], tl ?v), n)) s 1" by (rule safe_empty [OF v(1) True _ v(2,3)]) simp
    then show ?thesis using assms(4) True by (simp add: parse_object_def Let_def del: safe_simps)
  next
    case False
    have "safe fp (parse_member fp al pv ?v n) ?v 1" by (rule safe_member [OF assms(1) v(1,4)])
    then have "safe fp (jbind (parse_member fp al pv ?v n) (\<lambda>(c, r) n. jbind (parse_members fp al pv (length s) r n) (\<lambda>(cs, r) n.
        if starts ''}'' r then Some (Inr (CJ (nd\<lparr>jn_type := J_Object\<rparr>) (c # cs), tl r), n) else Some (Inl (Some r), n)))) s 1"
      by (rule safe_sequence [OF _ safe_members [OF assms(1)] v(4,2,3)]) simp_all
    then show ?thesis using assms(4) False by (simp add: parse_object_def Let_def)
  qed
qed

lemma safe_leaf: "safe fp r s 1 \<Longrightarrow> safe fp (jbind r (\<lambda>(nd, r) n. Some (Inr (CJ nd [], r), n))) s 1"
  by (rule safe_bind) auto

lemma value_safe_parse:
  fixes fp :: "'d fpu"
  shows "value_safe fp (\<lambda>nd s n. parse_value fp al k nd s n) k"
proof (induction k)
  case (Suc k)
  show ?case
    unfolding value_safe_def
  proof (intro allI impI)
    fix nd :: "'d jnode" and s n
    assume "json_ok fp s \<and> number_fits fp s \<and> opens s < Suc k"
    then have l: "opens s \<le> k" "json_ok fp s" "number_fits fp s" by simp_all
    have w: "safe fp (Some (Inr (x, drop (length p) s), n)) s 1" if "starts p s" "p \<in> {''null'', ''false'', ''true''}" for x :: "'d cjson" and p
    proof -
      have p: "CHR 0x5C \<notin> set p" "1 \<le> length p" using that(2) by auto
      then show ?thesis using json_ok_drop [OF l(2) that(1) p(1)] by simp
    qed
    have c: "safe fp (Some (Inr (x, drop 4 s), n)) s 1" if "starts ''null'' s \<or> starts ''true'' s" for x :: "'d cjson"
      using that w [of "''null''" x] w [of "''true''" x] by (elim disjE) (simp_all add: eval_nat_numeral)
    have f: "safe fp (Some (Inr (x, drop 5 s), n)) s 1" if "starts ''false'' s" for x :: "'d cjson"
      using that w [of "''false''" x] by (simp add: eval_nat_numeral)
    note leaf = safe_leaf [OF safe_string [OF l(2)]]
    have q: "safe fp (jbind (parse_string al nd s n) (\<lambda>(nd, r) n. Some (Inr (CJ nd [], r), n))) s 1" by (rule leaf)
    have num: "starts ''-'' s \<or> (s \<noteq> [] \<and> is_digit (hd s)) \<Longrightarrow>
        safe fp (jbind (parse_number fp nd s n) (\<lambda>(nd, r) n. Some (Inr (CJ nd [], r), n))) s 1"
      by (rule safe_leaf [OF safe_number [OF l(2,3)]])
    have arr: "starts ''['' s \<Longrightarrow> safe fp (parse_array fp al (\<lambda>nd s n. parse_value fp al k nd s n) nd s n) s 1"
      by (rule safe_array [OF Suc l(2,1)])
    have obj: "starts ''{'' s \<Longrightarrow> safe fp (parse_object fp al (\<lambda>nd s n. parse_value fp al k nd s n) nd s n) s 1"
      by (rule safe_object [OF Suc l(2,1)])
    have fail: "safe fp (Some (Inl e, n) :: ('d cjson \<times> string) jres) s 1" for e by (simp only: safe_simps)
    show "safe fp (parse_value fp al (Suc k) nd s n) s 1"
      unfolding parse_value.simps(2) by (intro safe_if) (simp_all add: c f q num arr obj fail del: safe_simps One_nat_def)
  qed
qed (simp add: value_safe_def)

text \<open>
  C21. Reading JSON is safe. On any text below 2 GB in which every backslash starts a complete escape, every
  number is in the range of \<open>uint64\<close> with an exponent that fits an \<open>int\<close>, and fewer brackets and braces open than
  the stack has room for calls, \<open>cJSON_Parse\<close> returns an item or a failure, whatever the calls of
  \<open>malloc\<close> answer: it ends, no counter and no conversion is out of range, the stack suffices, it reads nothing behind
  the end of the text, and writes nothing behind the end of a string's buffer.
\<close>

theorem json_parse_is_safe:
  assumes "escapes_ok s" and "number_fits fp (skip s)" and "numbers_ok fp s" and "length s < 2 ^ 31" and "opens s < fp_stack fp"
  shows "cJSON_Parse fp al s n \<noteq> None"
proof -
  have "json_ok fp s" using assms by (simp add: json_ok_def)
  then have ok: "json_ok fp (skip s)" by simp
  have "opens (skip s) < fp_stack fp" using opens_suffix [OF skip_suffix, of s] assms(5) by linarith
  then have "safe fp (parse_value fp al (fp_stack fp) c (skip s) m) (skip s) 1" for c m
    using value_safeD [OF value_safe_parse ok assms(2)] by blast
  then have "parse_value fp al (fp_stack fp) c (skip s) m \<noteq> None" for c m using safe_not_None by blast
  then show ?thesis by (auto simp: cJSON_Parse_def cJSON_New_Item_def j_malloc_def jbind_None)
qed

text \<open>Here the array is not closed: the parser fails in an orderly way.\<close>

theorem json_parse_is_safe_witness:
  "\<forall>(fp :: int fpu) al n. cJSON_Parse (fp\<lparr>fp_stack := 2\<rparr>) al
    (''[1,'' @ [CHR 0x22, CHR 0x5C, CHR ''u'', CHR ''4'', CHR ''1'', CHR ''0'', CHR ''0'', CHR 0x22]) n \<noteq> None"
proof (intro allI)
  fix fp :: "int fpu" and al n
  let ?s = "''[1,'' @ [CHR 0x22, CHR 0x5C, CHR ''u'', CHR ''4'', CHR ''1'', CHR ''0'', CHR ''0'', CHR 0x22]"
  have e: "escapes_ok ?s" by (simp add: is_hex_def is_digit_def)
  have s: "skip ?s = ?s" "opens ?s = 1" by (simp_all add: opens_def)
  have scan: "scan_mantissa (tl ?s) = (''1'', [], drop 2 ?s)" "scan_exponent (drop 2 ?s) = (1, [], drop 2 ?s)"
    "digits_val 0 ''1'' = 1" "digits_val 0 [] = 0" by code_simp+
  have "number_fits fp' (tl ?s)" for fp' :: "int fpu" using scan by (simp add: number_fits_def)
  moreover have "number_fits fp' (drop 3 ?s)" "number_fits fp' ?s" for fp' :: "int fpu" by (simp_all add: number_fits_def is_digit_def)
  ultimately have f: "number_fits (fp\<lparr>fp_stack := 2\<rparr>) (skip ?s)" "numbers_ok (fp\<lparr>fp_stack := 2\<rparr>) ?s"
    using s(1) by simp_all
  then show "cJSON_Parse (fp\<lparr>fp_stack := 2\<rparr>) al ?s n \<noteq> None" by (rule json_parse_is_safe [OF e]) (simp_all add: opens_def)
qed

end
