(* ===== verification/Json_Escapes.thy ===== *)
theory Json_Escapes
  imports Json_Safety
begin

text \<open>
  The escapes of \<open>parse_string\<close> (\<open>src/core/util/json/cJSON.c\<close>): an incomplete \<open>\u\<close> makes it jump over the closing
  quote and write behind its buffer; the bytes of a code point are those of UTF-8; a surrogate pair becomes the code
  point only in the odd planes.
\<close>

section \<open>An incomplete escape\<close>

definition plain :: "string \<Rightarrow> bool" where
  "plain s \<longleftrightarrow> CHR 0x22 \<notin> set s \<and> CHR 0x5C \<notin> set s"

lemma decode_plain: "plain s \<Longrightarrow> decode uc uc2 (s @ CHR 0x22 # r) = Some (s, r)"
  by (induction s) (auto simp: plain_def)

lemma scan_x4_one: "scan_x4 (CHR ''1'' # CHR 0x22 # r) = Some 1"
proof -
  have d: "is_hex (CHR ''1'')" "\<not> is_hex (CHR 0x22)" "\<not> is_space (CHR ''1'')" by (simp_all add: is_hex_def is_digit_def is_space_def)
  have "hexes_val ''1'' = 1" by (simp add: hexes_val_def hex_val_def is_digit_def digit_val_def)
  then show ?thesis using d by (simp add: scan_x4_def starts_def)
qed

lemma byte_one: "byte (Suc 0) = CHR 0x01"
  by code_simp

text \<open>
  C25. Writing behind the buffer. When a string ends in an incomplete \<open>\u\<close>, as \<open>"\u1"\<close>, the length of its buffer
  is counted up to its closing quote, but the escape is decoded as four characters, the closing quote among them:
  the copy goes on up to the next quote, and for any text of two or more characters in between
  \<open>cJSON_Parse\<close> writes behind the buffer.
\<close>

theorem json_short_escape_overflows:
  assumes "plain t" and "2 \<le> length t"
  shows "cJSON_Parse fp (\<lambda>_. True) ([CHR 0x22, CHR 0x5C, CHR ''u'', CHR ''1'', CHR 0x22, CHR '','', CHR ''['']  @ t @ [CHR 0x22]) n = None"
proof -
  let ?s = "CHR 0x5C # CHR ''u'' # CHR ''1'' # CHR 0x22 # CHR '','' # CHR ''['' # t @ [CHR 0x22]"
  have len: "string_len ?s = Some 2" by simp
  have "utf8 1 = [CHR 0x01]" by (simp add: utf8_def utf8_len_def firstByteMark_def byte_one)
  then have "decode_u None None (CHR ''1'' # CHR 0x22 # CHR '','' # CHR ''['' # t @ [CHR 0x22])
      = Some ([CHR 0x01], Some 1, None, t @ [CHR 0x22])"
    by (simp add: decode_u_def Let_def scan_x4_one utf8_len_def)
  then have "decode None None ?s = Some (CHR 0x01 # t, [])" using decode_plain [OF assms(1)] by simp
  then have "parse_string al nd (CHR 0x22 # ?s) m = None" if "\<And>n. al n" for al and nd :: "'a jnode" and m
    using len assms(2) that by (simp add: parse_string_def starts_def j_malloc_def)
  then have "parse_value fp (\<lambda>_. True) k nd (CHR 0x22 # ?s) m = None" for k and nd :: "'a jnode" and m
    by (cases k) (simp_all add: starts_def)
  then show ?thesis
    by (simp add: cJSON_Parse_def cJSON_New_Item_def j_malloc_def)
qed

theorem json_short_escape_overflows_witness:
  "\<forall>(fp :: int fpu) n. cJSON_Parse fp (\<lambda>_. True) ([CHR 0x22, CHR 0x5C, CHR ''u'', CHR ''1'', CHR 0x22, CHR '','', CHR ''['']  @ ''aa'' @ [CHR 0x22]) n = None"
  by (intro allI json_short_escape_overflows) (simp_all add: plain_def)

section \<open>Code points\<close>

text \<open>The encoding of a code point in UTF-8, by its definition.\<close>

definition utf8_ref :: "nat \<Rightarrow> string" where
  "utf8_ref cp =
     map char_of
       (if cp < 0x80 then [cp]
        else if cp < 0x800 then [0xC0 + cp div 64, 0x80 + cp mod 64]
        else if cp < 0x10000 then [0xE0 + cp div 4096, 0x80 + cp div 64 mod 64, 0x80 + cp mod 64]
        else [0xF0 + cp div 262144, 0x80 + cp div 4096 mod 64, 0x80 + cp div 64 mod 64, 0x80 + cp mod 64])"

unbundle bit_operations_syntax

lemma or_low: "(x :: nat) < 2 ^ k \<Longrightarrow> push_bit k m OR x = push_bit k m + x"
proof -
  assume "x < 2 ^ k"
  then have x: "take_bit k x = x" by (simp add: take_bit_nat_eq_self)
  have "push_bit k m AND x = 0"
    by (rule bit_eqI, subst x [symmetric]) (simp add: bit_simps)
  then show ?thesis by (simp add: disjunctive_add_eq_or)
qed

lemma or_mark: "uc < 2 ^ k \<Longrightarrow> (uc :: nat) OR push_bit k m = push_bit k m + uc"
  by (subst or.commute) (rule or_low)

lemma bit_BF: "bit (0xBF :: nat) n \<longleftrightarrow> n < 8 \<and> n \<noteq> 6"
proof (cases "n < 8")
  case True
  then have "n \<in> {0, 1, 2, 3, 4, 5, 6, 7}" by auto
  then show ?thesis by (elim insertE emptyE) (simp_all add: bit_0)
next
  case False
  have "take_bit 8 (0xBF :: nat) = 0xBF" by (simp add: take_bit_eq_mod)
  then show ?thesis using False by (metis bit_take_bit_iff)
qed

lemma bit_pow: "bit (2 ^ k :: nat) n \<longleftrightarrow> n = k"
  by (auto simp: bit_exp_iff)

lemma bit_80: "bit (0x80 :: nat) n \<longleftrightarrow> n = 7"
proof -
  have "(0x80 :: nat) = 2 ^ 7" by simp
  then show ?thesis by (simp only: bit_pow)
qed

lemma continuation: "((uc OR 0x80) AND 0xBF) = (0x80 + uc mod 64 :: nat)"
proof -
  have "((uc OR 0x80) AND 0xBF) = (push_bit 7 1 OR take_bit 6 uc :: nat)"
    by (rule bit_eqI) (auto simp: bit_simps bit_BF bit_80)
  moreover have "push_bit 7 1 OR take_bit 6 uc = push_bit 7 1 + take_bit 6 uc" for uc :: nat
    by (rule or_low) (simp add: take_bit_eq_mod)
  ultimately show ?thesis by (simp add: take_bit_eq_mod push_bit_eq_mult)
qed

lemma byte_small: "n < 256 \<Longrightarrow> byte n = char_of n"
  by (simp add: byte_def)

lemma utf8_write_unfold:
  "utf8_write 2 m uc out = utf8_write 1 m (drop_bit 6 uc) (byte ((uc OR 0x80) AND 0xBF) # out)"
  "utf8_write 3 m uc out = utf8_write 2 m (drop_bit 6 uc) (byte ((uc OR 0x80) AND 0xBF) # out)"
  by (simp_all add: numeral_2_eq_2 numeral_3_eq_3)

lemma utf8_write_1: "utf8_write (Suc 0) m uc out = byte (drop_bit 6 uc OR m) # byte ((uc OR 0x80) AND 0xBF) # out"
  by simp

lemmas utf8_unfold = utf8_def utf8_ref_def utf8_len_def firstByteMark_def utf8_write_unfold utf8_write_1 continuation drop_bit_eq_div div_mult2_eq [symmetric] byte_small

text \<open>
  C39. Code points become UTF-8: for each code point the bytes that \<open>parse_string\<close> writes from the last to the
  first, with the shifts and masks of the code, are its encoding.
\<close>

theorem json_utf8_is_utf8:
  assumes "cp < 0x110000"
  shows "utf8 cp = utf8_ref cp"
proof -
  have m: "uc OR 0xC0 = 0xC0 + uc" if "uc < 32" for uc :: nat using or_mark [of uc 6 3] that by (simp add: push_bit_eq_mult)
  have m3: "uc OR 0xE0 = 0xE0 + uc" if "uc < 16" for uc :: nat using or_mark [of uc 5 7] that by (simp add: push_bit_eq_mult)
  have m4: "uc OR 0xF0 = 0xF0 + uc" if "uc < 8" for uc :: nat using or_mark [of uc 4 15] that by (simp add: push_bit_eq_mult)
  consider "cp < 0x80" | "0x80 \<le> cp" "cp < 0x800" | "0x800 \<le> cp" "cp < 0x10000" | "0x10000 \<le> cp" by linarith
  then show ?thesis
  proof cases
    case 1
    then show ?thesis by (simp add: utf8_def utf8_ref_def utf8_len_def firstByteMark_def byte_small)
  next
    case 2
    then have "cp div 64 < 32" by simp
    then show ?thesis using 2 by (simp add: utf8_unfold m)
  next
    case 3
    then have "cp div 4096 < 16" by simp
    then show ?thesis using 3 by (simp add: utf8_unfold m3)
  next
    case 4
    then have "cp div 262144 < 8" using assms by simp
    then show ?thesis using 4 by (simp add: utf8_unfold m4)
  qed
qed

theorem json_utf8_is_utf8_witness: "utf8 0x1F600 = map char_of [0xF0, 0x9F, 0x98, 0x80 :: nat]"
  using json_utf8_is_utf8 [of "0x1F600"] by (simp add: utf8_ref_def)

text \<open>
  Surrogate pairs. JSON writes a code point above \<open>U+FFFF\<close> as two escapes. The parser joins them with \<open>0x10000 |\<close>
  in place of an addition: the code points of the odd planes come out right, those of the even planes lose
  \<open>0x10000\<close>, so that an ideograph of plane 2 becomes a character of plane 1.
\<close>

lemma json_surrogates_lose_even_planes:
  assumes "0x10000 \<le> cp" and "cp < 0x110000"
  shows "join_surrogates (0xD800 + (cp - 0x10000) div 0x400) (0xDC00 + (cp - 0x10000) mod 0x400)
    = (if odd (cp div 0x10000) then cp else cp - 0x10000)"
proof -
  define c where "c = cp - 0x10000"
  have c: "c < 2 ^ 20" "cp = c + 0x10000" using assms by (simp_all add: c_def)
  have mask: "(uc :: nat) AND 0x3FF = uc mod 1024" for uc
    using take_bit_eq_mask [of 10 uc] by (simp add: take_bit_eq_mod mask_eq_exp_minus_1)
  have off: "(m * 1024 + x) mod 1024 = x" if "x < 1024" for m x :: nat using that by (simp add: mod_less)
  have hi: "(0xD800 + c div 1024) mod 1024 = c div 1024" using off [of "c div 1024" 54] c(1) by simp
  have lo: "(0xDC00 + c mod 1024) mod 1024 = c mod 1024" using off [of "c mod 1024" 55] by simp
  have low: "push_bit 10 (c div 1024) OR c mod 1024 = c"
    using or_low [of "c mod 1024" 10 "c div 1024"] by (simp add: push_bit_eq_mult)
  have "join_surrogates (0xD800 + c div 0x400) (0xDC00 + c mod 0x400) = 0x10000 OR c"
    unfolding join_surrogates_def mask hi lo by (simp only: or.assoc low)
  moreover have "0x10000 OR c = (if bit c 16 then c else c + 0x10000)"
  proof (cases "bit c 16")
    case True
    have "2 ^ 16 OR c = c" by (rule bit_eqI) (use True in \<open>auto simp only: bit_or_iff bit_pow\<close>)
    then show ?thesis using True by simp
  next
    case False
    have "2 ^ 16 AND c = 0" by (rule bit_eqI) (use False in \<open>auto simp only: bit_and_iff bit_pow bit_0_eq\<close>)
    then show ?thesis using False disjunctive_add_eq_or [of "2 ^ 16" c] by simp
  qed
  moreover have "odd (cp div 0x10000) \<longleftrightarrow> \<not> bit c 16"
  proof -
    have "cp div 0x10000 = Suc (c div 0x10000)" using c(2) by simp
    then show ?thesis by (simp add: bit_iff_odd)
  qed
  ultimately show ?thesis using c(2) by (simp add: c_def [symmetric])
qed

end
