(* ===== verification/Json_Tree.thy ===== *)
theory Json_Tree
  imports Json_Text
begin

text \<open>
  Building and changing trees of JSON items: the functions behind the printer in \<open>src/core/util/json/cJSON.c\<close>.
  The chain of children is a list; an \<open>int\<close> that counts down while it is positive picks the first child when
  it is negative. A function that changes an item through its pointer returns the changed item. The \<open>int\<close>s that
  count children here hold for chains of less than \<open>2^31\<close> items, more than 100 GB; longer chains are not modelled.
\<close>

section \<open>Reading\<close>

definition cJSON_GetArraySize :: "'d cjson \<Rightarrow> nat" where
  "cJSON_GetArraySize array = length (cj_child array)"

definition cJSON_GetArrayItem :: "'d cjson \<Rightarrow> int \<Rightarrow> 'd cjson option" where
  "cJSON_GetArrayItem array item =
     (if nat item < length (cj_child array) then Some (cj_child array ! nat item) else None)"

definition cJSON_GetObjectItem :: "'d cjson \<Rightarrow> string \<Rightarrow> 'd cjson option" where
  "cJSON_GetObjectItem object key = find (\<lambda>c. cJSON_strcasecmp (jn_name (cj_node c)) key) (cj_child object)"

section \<open>Adding\<close>

definition cJSON_AddItemToArray :: "'d cjson \<Rightarrow> 'd cjson \<Rightarrow> 'd cjson" where
  "cJSON_AddItemToArray array item = CJ (cj_node array) (cj_child array @ [item])"

definition cJSON_AddItemToArrayHead :: "'d cjson \<Rightarrow> 'd cjson \<Rightarrow> 'd cjson" where
  "cJSON_AddItemToArrayHead array item = CJ (cj_node array) (item # cj_child array)"

text \<open>The pointer that \<open>cJSON_strdup\<close> returns, null without memory.\<close>

definition dup_ptr :: "(nat \<Rightarrow> bool) \<Rightarrow> string \<Rightarrow> nat \<Rightarrow> string option \<times> nat" where
  "dup_ptr al str n = (if al n then Some str else None, Suc n)"

lemma dup_ptr_strdup:
  "cJSON_strdup al str n = Some (case dup_ptr al str n of (Some s, n) \<Rightarrow> (Inr s, n) | (None, n) \<Rightarrow> (Inl None, n))"
  by (simp add: cJSON_strdup_def dup_ptr_def j_malloc_def)

definition named_item :: "string option \<Rightarrow> 'd cjson \<Rightarrow> 'd cjson" where
  "named_item name item = CJ ((cj_node item)\<lparr>jn_name := name\<rparr>) (cj_child item)"

definition cJSON_AddItemToObject :: "(nat \<Rightarrow> bool) \<Rightarrow> 'd cjson \<Rightarrow> string \<Rightarrow> 'd cjson \<Rightarrow> nat \<Rightarrow> 'd cjson \<times> nat" where
  "cJSON_AddItemToObject al object key item n =
     (let (name, n) = dup_ptr al key n in (cJSON_AddItemToArray object (named_item name item), n))"

section \<open>Removing and replacing\<close>

definition cJSON_DetachItemFromArray :: "'d cjson \<Rightarrow> int \<Rightarrow> 'd cjson option \<times> 'd cjson" where
  "cJSON_DetachItemFromArray array which =
     (let i = nat which; cs = cj_child array
      in if i < length cs then (Some (cs ! i), CJ (cj_node array) (take i cs @ drop (Suc i) cs)) else (None, array))"

text \<open>The items that are freed, the children before their parent.\<close>

fun cJSON_Delete :: "'d cjson \<Rightarrow> nat list" where
  "cJSON_Delete (CJ nd cs) = concat (map cJSON_Delete cs) @ [jn_id nd]"

definition cJSON_DeleteItemFromArray :: "'d cjson \<Rightarrow> int \<Rightarrow> 'd cjson \<times> nat list" where
  "cJSON_DeleteItemFromArray array which =
     (let (c, array) = cJSON_DetachItemFromArray array which
      in (array, case c of None \<Rightarrow> [] | Some c \<Rightarrow> cJSON_Delete c))"

fun key_index :: "string \<Rightarrow> 'd cjson list \<Rightarrow> nat option" where
  "key_index key [] = None"
| "key_index key (c # cs) = (if cJSON_strcasecmp (jn_name (cj_node c)) key then Some 0 else map_option Suc (key_index key cs))"

definition cJSON_DetachItemFromObject :: "'d cjson \<Rightarrow> string \<Rightarrow> 'd cjson option \<times> 'd cjson" where
  "cJSON_DetachItemFromObject object key =
     (case key_index key (cj_child object) of
        None \<Rightarrow> (None, object)
      | Some i \<Rightarrow> cJSON_DetachItemFromArray object (int i))"

definition cJSON_DeleteItemFromObject :: "'d cjson \<Rightarrow> string \<Rightarrow> 'd cjson \<times> nat list" where
  "cJSON_DeleteItemFromObject object key =
     (let (c, object) = cJSON_DetachItemFromObject object key
      in (object, case c of None \<Rightarrow> [] | Some c \<Rightarrow> cJSON_Delete c))"

definition cJSON_ReplaceItemInArray :: "'d cjson \<Rightarrow> int \<Rightarrow> 'd cjson \<Rightarrow> 'd cjson \<times> nat list" where
  "cJSON_ReplaceItemInArray array which newitem =
     (let i = nat which; cs = cj_child array
      in if i < length cs then (CJ (cj_node array) (cs[i := newitem]), cJSON_Delete (cs ! i)) else (array, []))"

definition cJSON_ReplaceItemInObject ::
  "(nat \<Rightarrow> bool) \<Rightarrow> 'd cjson \<Rightarrow> string \<Rightarrow> 'd cjson \<Rightarrow> nat \<Rightarrow> 'd cjson \<times> nat list \<times> nat" where
  "cJSON_ReplaceItemInObject al object key newitem n =
     (case key_index key (cj_child object) of
        None \<Rightarrow> (object, [], n)
      | Some i \<Rightarrow>
          let (name, n) = dup_ptr al key n; (object, freed) = cJSON_ReplaceItemInArray object (int i) (named_item name newitem)
          in (object, freed, n))"

section \<open>Creating\<close>

definition create_type :: "'d fpu \<Rightarrow> (nat \<Rightarrow> bool) \<Rightarrow> jtype \<Rightarrow> nat \<Rightarrow> 'd cjson jres" where
  "create_type fp al ty n = jbind (cJSON_New_Item fp al n) (\<lambda>item n. Some (Inr (CJ (item\<lparr>jn_type := ty\<rparr>) []), n))"

definition cJSON_CreateNull :: "'d fpu \<Rightarrow> (nat \<Rightarrow> bool) \<Rightarrow> nat \<Rightarrow> 'd cjson jres" where
  "cJSON_CreateNull fp al n = create_type fp al J_NULL n"

definition cJSON_CreateTrue :: "'d fpu \<Rightarrow> (nat \<Rightarrow> bool) \<Rightarrow> nat \<Rightarrow> 'd cjson jres" where
  "cJSON_CreateTrue fp al n = create_type fp al J_True n"

definition cJSON_CreateFalse :: "'d fpu \<Rightarrow> (nat \<Rightarrow> bool) \<Rightarrow> nat \<Rightarrow> 'd cjson jres" where
  "cJSON_CreateFalse fp al n = create_type fp al J_False n"

definition cJSON_CreateBool :: "'d fpu \<Rightarrow> (nat \<Rightarrow> bool) \<Rightarrow> bool \<Rightarrow> nat \<Rightarrow> 'd cjson jres" where
  "cJSON_CreateBool fp al b n = create_type fp al (if b then J_True else J_False) n"

definition cJSON_CreateArray :: "'d fpu \<Rightarrow> (nat \<Rightarrow> bool) \<Rightarrow> nat \<Rightarrow> 'd cjson jres" where
  "cJSON_CreateArray fp al n = create_type fp al J_Array n"

definition cJSON_CreateObject :: "'d fpu \<Rightarrow> (nat \<Rightarrow> bool) \<Rightarrow> nat \<Rightarrow> 'd cjson jres" where
  "cJSON_CreateObject fp al n = create_type fp al J_Object n"

text \<open>\<open>(uint64)num\<close> is undefined for a number that is negative or too large.\<close>

definition cJSON_CreateDouble :: "'d fpu \<Rightarrow> (nat \<Rightarrow> bool) \<Rightarrow> 'd \<Rightarrow> int \<Rightarrow> nat \<Rightarrow> 'd cjson jres" where
  "cJSON_CreateDouble fp al num sign n =
     jbind (cJSON_New_Item fp al n) (\<lambda>item n.
       case fp_to_u64 fp num of
         None \<Rightarrow> None
       | Some v \<Rightarrow> Some (Inr (CJ (item\<lparr>jn_type := J_Double, jn_dbl := num, jn_int := v, jn_sign := sign\<rparr>) []), n))"

definition cJSON_CreateInt :: "'d fpu \<Rightarrow> (nat \<Rightarrow> bool) \<Rightarrow> 64 word \<Rightarrow> int \<Rightarrow> nat \<Rightarrow> 'd cjson jres" where
  "cJSON_CreateInt fp al num sign n =
     jbind (cJSON_New_Item fp al n) (\<lambda>item n.
       Some (Inr (CJ (item\<lparr>jn_type := J_Int, jn_dbl := fp_of_u64 fp num, jn_int := num, jn_sign := sign\<rparr>) []), n))"

definition cJSON_CreateString :: "'d fpu \<Rightarrow> (nat \<Rightarrow> bool) \<Rightarrow> string \<Rightarrow> nat \<Rightarrow> 'd cjson jres" where
  "cJSON_CreateString fp al str n =
     jbind (cJSON_New_Item fp al n) (\<lambda>item n.
       let (s, n) = dup_ptr al str n in Some (Inr (CJ (item\<lparr>jn_type := J_String, jn_str := s\<rparr>) []), n))"

text \<open>
  The loop of the functions that create an array from a vector. A null item is dereferenced by
  \<open>suffix_object\<close>, except the only one of its array.
\<close>

fun create_items :: "(nat \<Rightarrow> 'd cjson jres) list \<Rightarrow> bool \<Rightarrow> nat \<Rightarrow> 'd cjson list jres" where
  "create_items [] first n = Some (Inr [], n)"
| "create_items (mk # mks) first n =
     (case mk n of
        None \<Rightarrow> None
      | Some (Inl _, n) \<Rightarrow> if first \<and> mks = [] then Some (Inr [], n) else None
      | Some (Inr c, n) \<Rightarrow> jbind (create_items mks False n) (\<lambda>cs n. Some (Inr (c # cs), n)))"

definition create_array_of :: "'d fpu \<Rightarrow> (nat \<Rightarrow> bool) \<Rightarrow> (nat \<Rightarrow> 'd cjson jres) list \<Rightarrow> nat \<Rightarrow> 'd cjson jres" where
  "create_array_of fp al mks n =
     jbind (cJSON_CreateArray fp al n) (\<lambda>a n. jbind (create_items mks True n) (\<lambda>cs n. Some (Inr (CJ (cj_node a) cs), n)))"

text \<open>The numbers of an \<open>int\<close> vector are read as unsigned.\<close>

definition cJSON_CreateIntArray :: "'d fpu \<Rightarrow> (nat \<Rightarrow> bool) \<Rightarrow> 32 word list \<Rightarrow> int \<Rightarrow> nat \<Rightarrow> 'd cjson jres" where
  "cJSON_CreateIntArray fp al numbers sign n =
     create_array_of fp al (map (\<lambda>x. cJSON_CreateDouble fp al (fp_of_u64 fp (ucast x)) sign) numbers) n"

definition cJSON_CreateFloatArray :: "'d fpu \<Rightarrow> (nat \<Rightarrow> bool) \<Rightarrow> 'd list \<Rightarrow> nat \<Rightarrow> 'd cjson jres" where
  "cJSON_CreateFloatArray fp al numbers n =
     create_array_of fp al (map (\<lambda>x. cJSON_CreateDouble fp al (fp_single fp x) (- 1)) numbers) n"

definition cJSON_CreateDoubleArray :: "'d fpu \<Rightarrow> (nat \<Rightarrow> bool) \<Rightarrow> 'd list \<Rightarrow> nat \<Rightarrow> 'd cjson jres" where
  "cJSON_CreateDoubleArray fp al numbers n =
     create_array_of fp al (map (\<lambda>x. cJSON_CreateDouble fp al x (- 1)) numbers) n"

definition cJSON_CreateStringArray :: "'d fpu \<Rightarrow> (nat \<Rightarrow> bool) \<Rightarrow> string list \<Rightarrow> nat \<Rightarrow> 'd cjson jres" where
  "cJSON_CreateStringArray fp al strings n = create_array_of fp al (map (\<lambda>s. cJSON_CreateString fp al s) strings) n"

section \<open>Lookup after a change\<close>

definition key_eq :: "string \<Rightarrow> 'd cjson \<Rightarrow> bool" where
  "key_eq key c \<longleftrightarrow> cJSON_strcasecmp (jn_name (cj_node c)) key"

lemma strcasecmp_refl [simp]: "cJSON_strcasecmp (Some key) key"
  by (simp add: cJSON_strcasecmp_def strcaseeq_def)

lemma strcasecmp_sym: "cJSON_strcasecmp (Some k) j \<Longrightarrow> cJSON_strcasecmp (Some j) k"
  by (simp add: cJSON_strcasecmp_def strcaseeq_def)

lemma strcasecmp_trans: "cJSON_strcasecmp s k \<Longrightarrow> cJSON_strcasecmp (Some k) j \<Longrightarrow> cJSON_strcasecmp s j"
  by (auto simp: cJSON_strcasecmp_def strcaseeq_def split: option.splits)

lemma GetObjectItem_key_eq: "cJSON_GetObjectItem t key = find (key_eq key) (cj_child t)"
  by (simp add: cJSON_GetObjectItem_def key_eq_def [abs_def])

lemma find_append: "find P (xs @ ys) = (case find P xs of None \<Rightarrow> find P ys | Some x \<Rightarrow> Some x)"
  by (induction xs) auto

lemma key_index_find:
  "key_index key cs = None \<longleftrightarrow> find (key_eq key) cs = None"
  "key_index key cs = Some i \<Longrightarrow> i < length cs \<and> find (key_eq key) cs = Some (cs ! i)"
  by (induction cs arbitrary: i) (auto simp: key_eq_def)

lemma find_key_cong: "cJSON_strcasecmp (Some k) j \<Longrightarrow> find (key_eq k) cs = find (key_eq j) cs"
  by (rule find_cong) (auto simp: key_eq_def intro: strcasecmp_trans strcasecmp_sym)

lemma key_eq_named [simp]: "key_eq key (named_item name c) \<longleftrightarrow> cJSON_strcasecmp name key"
  by (simp add: key_eq_def named_item_def)

end
