(* ===== verification/Json_Object.thy ===== *)
theory Json_Object
  imports Json_Tree "HOL-Library.AList" "HOL-Library.Monad_Syntax"
begin

text \<open>
  \<open>CJsonObject\<close> (\<open>src/core/util/json/CJsonObject.cpp\<close>): a handle on a JSON tree, or on an item inside another
  handle's tree, with caches of the handles given out for its children.

  The trees of the process are a list of items with identities, an item pointer is the identity, and a pointer
  to an item that is in no tree any more dangles: using it is undefined (\<open>None\<close>), as is a string made from a null
  pointer. Where the methods are overloaded by the type of a value, the definitions carry the type in their name.
\<close>

section \<open>Handles and trees\<close>

datatype cjson_object =
  JObj (m_pJsonData: "nat option") (m_pExternJsonDataRef: "nat option") (m_strErrMsg: string)
    (m_mapJsonArrayRef: "(32 word \<times> cjson_object) list") (m_mapJsonObjectRef: "(string \<times> cjson_object) list")

record 'd jworld =
  jw_trees :: "'d cjson list"
  jw_n :: nat

fun find_item :: "nat \<Rightarrow> 'd cjson \<Rightarrow> 'd cjson option" and find_items :: "nat \<Rightarrow> 'd cjson list \<Rightarrow> 'd cjson option" where
  "find_item i (CJ nd cs) = (if jn_id nd = i then Some (CJ nd cs) else find_items i cs)"
| "find_items i [] = None"
| "find_items i (c # cs) = (case find_item i c of None \<Rightarrow> find_items i cs | Some t \<Rightarrow> Some t)"

fun put_item :: "nat \<Rightarrow> 'd cjson \<Rightarrow> 'd cjson \<Rightarrow> 'd cjson" where
  "put_item i t (CJ nd cs) = (if jn_id nd = i then t else CJ nd (map (put_item i t) cs))"

text \<open>Reading and writing through a pointer, a new tree, and the end of a tree.\<close>

definition item_at :: "'d jworld \<Rightarrow> nat \<Rightarrow> 'd cjson option" where
  "item_at w i = find_items i (jw_trees w)"

definition put_at :: "nat \<Rightarrow> 'd cjson \<Rightarrow> 'd jworld \<Rightarrow> 'd jworld" where
  "put_at i t w = w\<lparr>jw_trees := map (put_item i t) (jw_trees w)\<rparr>"

definition new_tree :: "'d cjson \<Rightarrow> nat \<Rightarrow> 'd jworld \<Rightarrow> 'd jworld" where
  "new_tree t n w = w\<lparr>jw_trees := t # jw_trees w, jw_n := n\<rparr>"

definition drop_tree :: "nat option \<Rightarrow> 'd jworld \<Rightarrow> 'd jworld" where
  "drop_tree r w = (case r of None \<Rightarrow> w | Some i \<Rightarrow> w\<lparr>jw_trees := filter (\<lambda>t. jn_id (cj_node t) \<noteq> i) (jw_trees w)\<rparr>)"

definition GetJsonData :: "cjson_object \<Rightarrow> nat option" where
  "GetJsonData ob = (case m_pJsonData ob of None \<Rightarrow> m_pExternJsonDataRef ob | Some i \<Rightarrow> Some i)"

definition set_data :: "nat option \<Rightarrow> cjson_object \<Rightarrow> cjson_object" where
  "set_data d ob = JObj d (m_pExternJsonDataRef ob) (m_strErrMsg ob) (m_mapJsonArrayRef ob) (m_mapJsonObjectRef ob)"

definition set_err :: "string \<Rightarrow> cjson_object \<Rightarrow> cjson_object" where
  "set_err e ob = JObj (m_pJsonData ob) (m_pExternJsonDataRef ob) e (m_mapJsonArrayRef ob) (m_mapJsonObjectRef ob)"

definition set_array_refs :: "(32 word \<times> cjson_object) list \<Rightarrow> cjson_object \<Rightarrow> cjson_object" where
  "set_array_refs m ob = JObj (m_pJsonData ob) (m_pExternJsonDataRef ob) (m_strErrMsg ob) m (m_mapJsonObjectRef ob)"

definition set_object_refs :: "(string \<times> cjson_object) list \<Rightarrow> cjson_object \<Rightarrow> cjson_object" where
  "set_object_refs m ob = JObj (m_pJsonData ob) (m_pExternJsonDataRef ob) (m_strErrMsg ob) (m_mapJsonArrayRef ob) m"

lemmas set_fields = set_data_def set_err_def set_array_refs_def set_object_refs_def

definition new_object :: cjson_object where
  "new_object = JObj None None [] [] []"

definition ref_object :: "nat \<Rightarrow> cjson_object" where
  "ref_object i = JObj None (Some i) [] [] []"

text \<open>
  Deleting a handle deletes its tree, if it has one, and the handles of its caches with their trees. A method is a
  function of the handle and the trees, undefined or with its result and both changed.
\<close>

type_synonym ('d, 'a) jmethod = "cjson_object \<Rightarrow> 'd jworld \<Rightarrow> ('a \<times> cjson_object \<times> 'd jworld) option"

fun delete_object :: "cjson_object \<Rightarrow> 'd jworld \<Rightarrow> 'd jworld" where
  "delete_object (JObj d x e am om) w =
     (let w = drop_tree d w; w = fold (\<lambda>(_, ob) w. delete_object ob w) am w
      in fold (\<lambda>(_, ob) w. delete_object ob w) om w)"

definition Clear :: "cjson_object \<Rightarrow> 'd jworld \<Rightarrow> cjson_object \<times> 'd jworld" where
  "Clear ob w = (JObj None None (m_strErrMsg ob) [] [], delete_object ob w)"

text \<open>Erasing one entry of a cache, and the entries whose index satisfies a condition.\<close>

definition erase_object_ref :: "string \<Rightarrow> cjson_object \<Rightarrow> 'd jworld \<Rightarrow> cjson_object \<times> 'd jworld" where
  "erase_object_ref key ob w =
     (case map_of (m_mapJsonObjectRef ob) key of
        None \<Rightarrow> (ob, w)
      | Some c \<Rightarrow> (set_object_refs (filter (\<lambda>(k, _). k \<noteq> key) (m_mapJsonObjectRef ob)) ob, delete_object c w))"

definition erase_array_refs :: "(32 word \<Rightarrow> bool) \<Rightarrow> cjson_object \<Rightarrow> 'd jworld \<Rightarrow> cjson_object \<times> 'd jworld" where
  "erase_array_refs P ob w =
     (set_array_refs (filter (\<lambda>(i, _). \<not> P i) (m_mapJsonArrayRef ob)) ob,
      fold (\<lambda>(_, c) w. delete_object c w) (filter (\<lambda>(i, _). P i) (m_mapJsonArrayRef ob)) w)"

section \<open>Whole objects\<close>

definition parse_error :: "string option \<Rightarrow> cjson_object \<Rightarrow> cjson_object option" where
  "parse_error e ob = (case e of None \<Rightarrow> None | Some s \<Rightarrow> Some (set_err (''prase json string error at '' @ s) ob))"

definition Parse :: "'d fpu \<Rightarrow> (nat \<Rightarrow> bool) \<Rightarrow> string \<Rightarrow> ('d, bool) jmethod" where
  "Parse fp al strJson ob w =
     (let (ob, w) = Clear ob w
      in case cJSON_Parse fp al (c_str strJson) (jw_n w) of
           None \<Rightarrow> None
         | Some (Inl e, n) \<Rightarrow> do { ob \<leftarrow> parse_error e ob; Some (False, ob, w\<lparr>jw_n := n\<rparr>) }
         | Some (Inr t, n) \<Rightarrow> Some (True, set_data (Some (jn_id (cj_node t))) ob, new_tree t n w))"

text \<open>The file that is read is an argument, \<open>None\<close> when it cannot be opened.\<close>

definition Load :: "'d fpu \<Rightarrow> (nat \<Rightarrow> bool) \<Rightarrow> string option \<Rightarrow> ('d, bool) jmethod" where
  "Load fp al file ob w = (case file of None \<Rightarrow> Some (False, ob, w) | Some content \<Rightarrow> Parse fp al content ob w)"

definition print_object ::
  "('d cjson \<Rightarrow> nat \<Rightarrow> string jres) \<Rightarrow> cjson_object \<Rightarrow> 'd jworld \<Rightarrow> (string \<times> 'd jworld) option" where
  "print_object print ob w =
     (case GetJsonData ob of
        None \<Rightarrow> Some ([], w)
      | Some i \<Rightarrow> do {
          t \<leftarrow> item_at w i;
          (r, n) \<leftarrow> print t (jw_n w);
          Some (case r of Inl _ \<Rightarrow> [] | Inr s \<Rightarrow> s, w\<lparr>jw_n := n\<rparr>)
        })"

definition ToString :: "'d fpu \<Rightarrow> (nat \<Rightarrow> bool) \<Rightarrow> cjson_object \<Rightarrow> 'd jworld \<Rightarrow> (string \<times> 'd jworld) option" where
  "ToString fp al ob w = print_object (cJSON_PrintUnformatted fp al) ob w"

definition ToFormattedString :: "'d fpu \<Rightarrow> (nat \<Rightarrow> bool) \<Rightarrow> cjson_object \<Rightarrow> 'd jworld \<Rightarrow> (string \<times> 'd jworld) option" where
  "ToFormattedString fp al ob w = print_object (cJSON_Print fp al) ob w"

definition construct_from_string :: "'d fpu \<Rightarrow> (nat \<Rightarrow> bool) \<Rightarrow> string \<Rightarrow> 'd jworld \<Rightarrow> (cjson_object \<times> 'd jworld) option" where
  "construct_from_string fp al strJson w = map_option (\<lambda>(_, ob, w). (ob, w)) (Parse fp al strJson new_object w)"

definition construct_copy :: "'d fpu \<Rightarrow> (nat \<Rightarrow> bool) \<Rightarrow> cjson_object \<Rightarrow> 'd jworld \<Rightarrow> (cjson_object \<times> 'd jworld) option" where
  "construct_copy fp al oJsonObject w = do { (s, w) \<leftarrow> ToString fp al oJsonObject w; construct_from_string fp al s w }"

definition construct_from_pointer ::
  "'d fpu \<Rightarrow> (nat \<Rightarrow> bool) \<Rightarrow> cjson_object option \<Rightarrow> 'd jworld \<Rightarrow> (cjson_object \<times> 'd jworld) option" where
  "construct_from_pointer fp al p w = (case p of None \<Rightarrow> Some (new_object, w) | Some ob \<Rightarrow> construct_copy fp al ob w)"

definition assign_object :: "'d fpu \<Rightarrow> (nat \<Rightarrow> bool) \<Rightarrow> cjson_object \<Rightarrow> ('d, unit) jmethod" where
  "assign_object fp al oJsonObject ob w = do {
     (s, w) \<leftarrow> ToString fp al oJsonObject w;
     (_, ob, w) \<leftarrow> Parse fp al s ob w;
     Some ((), ob, w)
   }"

definition equal_objects :: "'d fpu \<Rightarrow> (nat \<Rightarrow> bool) \<Rightarrow> cjson_object \<Rightarrow> cjson_object \<Rightarrow> 'd jworld \<Rightarrow> (bool \<times> 'd jworld) option" where
  "equal_objects fp al ob oJsonObject w = do {
     (s, w) \<leftarrow> ToString fp al ob w;
     (s', w) \<leftarrow> ToString fp al oJsonObject w;
     Some (s = s', w)
   }"

definition IsEmpty :: "cjson_object \<Rightarrow> bool" where
  "IsEmpty ob \<longleftrightarrow> m_pJsonData ob = None \<and> m_pExternJsonDataRef ob = None"

definition IsArray :: "cjson_object \<Rightarrow> 'd jworld \<Rightarrow> bool option" where
  "IsArray ob w =
     (case GetJsonData ob of
        None \<Rightarrow> Some False
      | Some i \<Rightarrow> do { t \<leftarrow> item_at w i; Some (jn_type (cj_node t) = J_Array) })"

definition GetKeys :: "string list \<Rightarrow> cjson_object \<Rightarrow> 'd jworld \<Rightarrow> string list option" where
  "GetKeys vecKeys ob w =
     (case GetJsonData ob of
        None \<Rightarrow> Some vecKeys
      | Some i \<Rightarrow> do {
          t \<leftarrow> item_at w i;
          ks \<leftarrow> those (map (\<lambda>c. jn_name (cj_node c)) (cj_child t));
          Some (vecKeys @ ks)
        })"

definition obj_GetArraySize :: "cjson_object \<Rightarrow> 'd jworld \<Rightarrow> nat option" where
  "obj_GetArraySize ob w =
     (case GetJsonData ob of
        None \<Rightarrow> Some 0
      | Some i \<Rightarrow> do { t \<leftarrow> item_at w i; Some (if jn_type (cj_node t) = J_Array then cJSON_GetArraySize t else 0) })"

section \<open>Children\<close>

text \<open>The child under a key of an object or at an index of an array, if there is one.\<close>

definition child_key :: "string \<Rightarrow> cjson_object \<Rightarrow> 'd jworld \<Rightarrow> 'd cjson option option" where
  "child_key key ob w =
     (case GetJsonData ob of
        None \<Rightarrow> Some None
      | Some i \<Rightarrow> do {
          t \<leftarrow> item_at w i;
          Some (if jn_type (cj_node t) = J_Object then cJSON_GetObjectItem t (c_str key) else None)
        })"

definition child_at :: "int \<Rightarrow> cjson_object \<Rightarrow> 'd jworld \<Rightarrow> 'd cjson option option" where
  "child_at k ob w =
     (case GetJsonData ob of
        None \<Rightarrow> Some None
      | Some i \<Rightarrow> do {
          t \<leftarrow> item_at w i;
          Some (if jn_type (cj_node t) = J_Array then cJSON_GetArrayItem t k else None)
        })"

text \<open>The handle of a child; it is a reference into the cache, where it is made when it is missing.\<close>

definition Get_ref :: "string \<Rightarrow> ('d, cjson_object) jmethod" where
  "Get_ref strKey ob w =
     (case map_of (m_mapJsonObjectRef ob) strKey of
        Some c \<Rightarrow> Some (c, ob, w)
      | None \<Rightarrow> do {
          item \<leftarrow> child_key strKey ob w;
          let c = (case item of None \<Rightarrow> new_object | Some t \<Rightarrow> ref_object (jn_id (cj_node t)));
          Some (c, set_object_refs ((strKey, c) # m_mapJsonObjectRef ob) ob, w)
        })"

definition index_key :: "string \<Rightarrow> ('d, cjson_object) jmethod" where
  "index_key strKey = Get_ref strKey"

definition index_at :: "32 word \<Rightarrow> ('d, cjson_object) jmethod" where
  "index_at uiWhich ob w =
     (case map_of (m_mapJsonArrayRef ob) uiWhich of
        Some c \<Rightarrow> Some (c, ob, w)
      | None \<Rightarrow> do {
          item \<leftarrow> child_at (sint uiWhich) ob w;
          let c = (case item of None \<Rightarrow> new_object | Some t \<Rightarrow> ref_object (jn_id (cj_node t)));
          Some (c, set_array_refs ((uiWhich, c) # m_mapJsonArrayRef ob) ob, w)
        })"

text \<open>A method of the handle that \<open>[]\<close> returns: the handle stays in the cache.\<close>

definition through_key :: "string \<Rightarrow> ('d, 'a) jmethod \<Rightarrow> ('d, 'a) jmethod" where
  "through_key strKey f ob w = do {
     (c, ob, w) \<leftarrow> index_key strKey ob w;
     (x, c, w) \<leftarrow> f c w;
     Some (x, set_object_refs (AList.update strKey c (m_mapJsonObjectRef ob)) ob, w)
   }"

definition through_at :: "32 word \<Rightarrow> ('d, 'a) jmethod \<Rightarrow> ('d, 'a) jmethod" where
  "through_at uiWhich f ob w = do {
     (c, ob, w) \<leftarrow> index_at uiWhich ob w;
     (x, c, w) \<leftarrow> f c w;
     Some (x, set_array_refs (AList.update uiWhich c (m_mapJsonArrayRef ob)) ob, w)
   }"

text \<open>An atomic value as a string: integers without their sign.\<close>

definition JsonStruct2Str :: "'d fpu \<Rightarrow> 'd cjson option \<Rightarrow> string option" where
  "JsonStruct2Str fp item =
     (case item of
        None \<Rightarrow> Some []
      | Some (CJ nd cs) \<Rightarrow>
          (case jn_type nd of
             J_String \<Rightarrow> jn_str nd
           | J_Int \<Rightarrow> Some (dec_nat (unat (jn_int nd)))
           | J_Double \<Rightarrow> Some (take 127 (if fp_extreme fp (jn_dbl nd) then fp_sci fp (jn_dbl nd) else fp_fixed fp 6 (jn_dbl nd)))
           | J_False \<Rightarrow> Some ''false''
           | J_True \<Rightarrow> Some ''true''
           | _ \<Rightarrow> Some []))"

definition data_item :: "cjson_object \<Rightarrow> 'd jworld \<Rightarrow> 'd cjson option option" where
  "data_item ob w = (case GetJsonData ob of None \<Rightarrow> Some None | Some i \<Rightarrow> map_option Some (item_at w i))"

text \<open>\<open>operator()\<close>, which caches the handle of the child, and its \<open>const\<close> variant.\<close>

definition value_key :: "'d fpu \<Rightarrow> string \<Rightarrow> ('d, string) jmethod" where
  "value_key fp strKey ob w =
     (case map_of (m_mapJsonObjectRef ob) strKey of
        Some c \<Rightarrow> do { item \<leftarrow> data_item c w; s \<leftarrow> JsonStruct2Str fp item; Some (s, ob, w) }
      | None \<Rightarrow> do {
          item \<leftarrow> child_key strKey ob w;
          let ob = (case item of
                      None \<Rightarrow> ob
                    | Some t \<Rightarrow> set_object_refs ((strKey, ref_object (jn_id (cj_node t))) # m_mapJsonObjectRef ob) ob);
          s \<leftarrow> JsonStruct2Str fp item;
          Some (s, ob, w)
        })"

definition value_key_const :: "'d fpu \<Rightarrow> string \<Rightarrow> cjson_object \<Rightarrow> 'd jworld \<Rightarrow> string option" where
  "value_key_const fp strKey ob w = do {
     item \<leftarrow> (case map_of (m_mapJsonObjectRef ob) strKey of Some c \<Rightarrow> data_item c w | None \<Rightarrow> child_key strKey ob w);
     JsonStruct2Str fp item
   }"

definition value_at :: "'d fpu \<Rightarrow> 32 word \<Rightarrow> ('d, string) jmethod" where
  "value_at fp uiWhich ob w =
     (case map_of (m_mapJsonArrayRef ob) uiWhich of
        Some c \<Rightarrow> do { item \<leftarrow> data_item c w; s \<leftarrow> JsonStruct2Str fp item; Some (s, ob, w) }
      | None \<Rightarrow> do {
          item \<leftarrow> child_at (sint uiWhich) ob w;
          let ob = (case item of
                      None \<Rightarrow> ob
                    | Some t \<Rightarrow> set_array_refs ((uiWhich, ref_object (jn_id (cj_node t))) # m_mapJsonArrayRef ob) ob);
          s \<leftarrow> JsonStruct2Str fp item;
          Some (s, ob, w)
        })"

definition value_at_const :: "'d fpu \<Rightarrow> 32 word \<Rightarrow> cjson_object \<Rightarrow> 'd jworld \<Rightarrow> string option" where
  "value_at_const fp uiWhich ob w = do {
     item \<leftarrow> (case map_of (m_mapJsonArrayRef ob) uiWhich of Some c \<Rightarrow> data_item c w | None \<Rightarrow> child_at (sint uiWhich) ob w);
     JsonStruct2Str fp item
   }"

end
