(* ===== verification/Json_Access.thy ===== *)
theory Json_Access
  imports Json_Object
begin

text \<open>
  The methods of \<open>CJsonObject\<close> (\<open>src/core/util/json/CJsonObject.cpp\<close>) that read, add, replace and delete the children of
  an object or an array. A group of overloads shares its steps; each overload is a definition that says which
  item it makes or which type it reads, and in which width.
\<close>

section \<open>Reading a child\<close>

text \<open>What a child is read as: undefined, nothing when its type is another one, or a value.\<close>

definition as_string :: "'d cjson \<Rightarrow> string option option" where
  "as_string t = (if jn_type (cj_node t) \<noteq> J_String then Some None else map_option Some (jn_str (cj_node t)))"

definition as_int :: "(64 word \<Rightarrow> 'a) \<Rightarrow> 'd cjson \<Rightarrow> 'a option option" where
  "as_int conv t = Some (if jn_type (cj_node t) \<noteq> J_Int then None else Some (conv (jn_int (cj_node t))))"

definition as_bool :: "'d cjson \<Rightarrow> bool option option" where
  "as_bool t =
     Some (if jn_type (cj_node t) \<noteq> J_False \<and> jn_type (cj_node t) \<noteq> J_True then None else Some (jn_type (cj_node t) = J_True))"

definition as_double :: "('d \<Rightarrow> 'a) \<Rightarrow> 'd cjson \<Rightarrow> 'a option option" where
  "as_double conv t = Some (if jn_type (cj_node t) \<noteq> J_Double then None else Some (conv (jn_dbl (cj_node t))))"

definition read_child :: "('d cjson \<Rightarrow> 'a option option) \<Rightarrow> 'd cjson option option \<Rightarrow> 'a option option" where
  "read_child conv child = do { item \<leftarrow> child; case item of None \<Rightarrow> Some None | Some t \<Rightarrow> conv t }"

text \<open>A child copied into the handle \<open>oJsonObject\<close>, through its formatted text.\<close>

definition copy_child ::
  "'d fpu \<Rightarrow> (nat \<Rightarrow> bool) \<Rightarrow> cjson_object \<Rightarrow> 'd cjson option option \<Rightarrow> 'd jworld \<Rightarrow> (bool \<times> cjson_object \<times> 'd jworld) option" where
  "copy_child fp al oJsonObject child w = do {
     item \<leftarrow> child;
     case item of
       None \<Rightarrow> Some (False, oJsonObject, w)
     | Some t \<Rightarrow> do {
         (r, n) \<leftarrow> cJSON_Print fp al t (jw_n w);
         case r of Inl _ \<Rightarrow> None | Inr s \<Rightarrow> Parse fp al s oJsonObject (w\<lparr>jw_n := n\<rparr>)
       }
   }"

definition Get_key_object ::
  "'d fpu \<Rightarrow> (nat \<Rightarrow> bool) \<Rightarrow> string \<Rightarrow> cjson_object \<Rightarrow> cjson_object \<Rightarrow> 'd jworld \<Rightarrow> (bool \<times> cjson_object \<times> 'd jworld) option" where
  "Get_key_object fp al strKey oJsonObject ob w = copy_child fp al oJsonObject (child_key strKey ob w) w"

definition Get_key_string :: "string \<Rightarrow> cjson_object \<Rightarrow> 'd jworld \<Rightarrow> string option option" where
  "Get_key_string strKey ob w = read_child as_string (child_key strKey ob w)"

definition Get_key_int32 :: "string \<Rightarrow> cjson_object \<Rightarrow> 'd jworld \<Rightarrow> 32 word option option" where
  "Get_key_int32 strKey ob w = read_child (as_int ucast) (child_key strKey ob w)"

definition Get_key_uint32 :: "string \<Rightarrow> cjson_object \<Rightarrow> 'd jworld \<Rightarrow> 32 word option option" where
  "Get_key_uint32 strKey ob w = read_child (as_int ucast) (child_key strKey ob w)"

definition Get_key_int64 :: "string \<Rightarrow> cjson_object \<Rightarrow> 'd jworld \<Rightarrow> 64 word option option" where
  "Get_key_int64 strKey ob w = read_child (as_int id) (child_key strKey ob w)"

definition Get_key_uint64 :: "string \<Rightarrow> cjson_object \<Rightarrow> 'd jworld \<Rightarrow> 64 word option option" where
  "Get_key_uint64 strKey ob w = read_child (as_int id) (child_key strKey ob w)"

definition Get_key_bool :: "string \<Rightarrow> cjson_object \<Rightarrow> 'd jworld \<Rightarrow> bool option option" where
  "Get_key_bool strKey ob w = read_child as_bool (child_key strKey ob w)"

definition Get_key_float :: "'d fpu \<Rightarrow> string \<Rightarrow> cjson_object \<Rightarrow> 'd jworld \<Rightarrow> 'd option option" where
  "Get_key_float fp strKey ob w = read_child (as_double (fp_single fp)) (child_key strKey ob w)"

definition Get_key_double :: "string \<Rightarrow> cjson_object \<Rightarrow> 'd jworld \<Rightarrow> 'd option option" where
  "Get_key_double strKey ob w = read_child (as_double id) (child_key strKey ob w)"

definition Get_at_object ::
  "'d fpu \<Rightarrow> (nat \<Rightarrow> bool) \<Rightarrow> 32 word \<Rightarrow> cjson_object \<Rightarrow> cjson_object \<Rightarrow> 'd jworld \<Rightarrow> (bool \<times> cjson_object \<times> 'd jworld) option" where
  "Get_at_object fp al iWhich oJsonObject ob w = copy_child fp al oJsonObject (child_at (sint iWhich) ob w) w"

definition Get_at_string :: "32 word \<Rightarrow> cjson_object \<Rightarrow> 'd jworld \<Rightarrow> string option option" where
  "Get_at_string iWhich ob w = read_child as_string (child_at (sint iWhich) ob w)"

definition Get_at_int32 :: "32 word \<Rightarrow> cjson_object \<Rightarrow> 'd jworld \<Rightarrow> 32 word option option" where
  "Get_at_int32 iWhich ob w = read_child (as_int ucast) (child_at (sint iWhich) ob w)"

definition Get_at_uint32 :: "32 word \<Rightarrow> cjson_object \<Rightarrow> 'd jworld \<Rightarrow> 32 word option option" where
  "Get_at_uint32 iWhich ob w = read_child (as_int ucast) (child_at (sint iWhich) ob w)"

definition Get_at_int64 :: "32 word \<Rightarrow> cjson_object \<Rightarrow> 'd jworld \<Rightarrow> 64 word option option" where
  "Get_at_int64 iWhich ob w = read_child (as_int id) (child_at (sint iWhich) ob w)"

definition Get_at_uint64 :: "32 word \<Rightarrow> cjson_object \<Rightarrow> 'd jworld \<Rightarrow> 64 word option option" where
  "Get_at_uint64 iWhich ob w = read_child (as_int id) (child_at (sint iWhich) ob w)"

definition Get_at_bool :: "32 word \<Rightarrow> cjson_object \<Rightarrow> 'd jworld \<Rightarrow> bool option option" where
  "Get_at_bool iWhich ob w = read_child as_bool (child_at (sint iWhich) ob w)"

definition Get_at_float :: "'d fpu \<Rightarrow> 32 word \<Rightarrow> cjson_object \<Rightarrow> 'd jworld \<Rightarrow> 'd option option" where
  "Get_at_float fp iWhich ob w = read_child (as_double (fp_single fp)) (child_at (sint iWhich) ob w)"

definition Get_at_double :: "32 word \<Rightarrow> cjson_object \<Rightarrow> 'd jworld \<Rightarrow> 'd option option" where
  "Get_at_double iWhich ob w = read_child (as_double id) (child_at (sint iWhich) ob w)"

section \<open>Making items\<close>

text \<open>A maker returns an item, or the error pointer, and counts its calls of \<open>malloc\<close>.\<close>

type_synonym 'd maker = "'d jworld \<Rightarrow> ((string option + 'd cjson) \<times> 'd jworld) option"

definition make :: "(nat \<Rightarrow> 'd cjson jres) \<Rightarrow> 'd maker" where
  "make create w = (case create (jw_n w) of None \<Rightarrow> None | Some (r, n) \<Rightarrow> Some (r, w\<lparr>jw_n := n\<rparr>))"

definition make_copy :: "'d fpu \<Rightarrow> (nat \<Rightarrow> bool) \<Rightarrow> cjson_object \<Rightarrow> 'd maker" where
  "make_copy fp al oJsonObject w = do { (s, w) \<leftarrow> ToString fp al oJsonObject w; make (cJSON_Parse fp al (c_str s)) w }"

text \<open>The item a handle works on, which is created for an empty handle, and the check of its type.\<close>

definition focus_or_create ::
  "(nat \<Rightarrow> 'd cjson jres) \<Rightarrow> cjson_object \<Rightarrow> 'd jworld \<Rightarrow> (nat option \<times> cjson_object \<times> 'd jworld) option" where
  "focus_or_create create ob w =
     (case GetJsonData ob of
        Some i \<Rightarrow> Some (Some i, ob, w)
      | None \<Rightarrow>
          (case create (jw_n w) of
             None \<Rightarrow> None
           | Some (Inl _, n) \<Rightarrow> Some (None, ob, w\<lparr>jw_n := n\<rparr>)
           | Some (Inr t, n) \<Rightarrow>
               Some (Some (jn_id (cj_node t)), set_data (Some (jn_id (cj_node t))) ob, new_tree t n w)))"

definition not_an_object :: string where
  "not_an_object = ''not a json object! json array?''"

definition not_an_array :: string where
  "not_an_array = ''not a json array! json object?''"

definition on_type :: "jtype \<Rightarrow> string \<Rightarrow> nat option \<Rightarrow> (nat \<Rightarrow> ('d, bool) jmethod) \<Rightarrow> ('d, bool) jmethod" where
  "on_type ty msg focus f ob w =
     (case focus of
        None \<Rightarrow> Some (False, set_err ''json data is null!'' ob, w)
      | Some i \<Rightarrow> do {
          t \<leftarrow> item_at w i;
          if jn_type (cj_node t) \<noteq> ty then Some (False, set_err msg ob, w) else f i ob w
        })"

text \<open>The item is made; a failure may leave a message.\<close>

definition with_item ::
  "'d maker \<Rightarrow> (string option \<Rightarrow> cjson_object \<Rightarrow> cjson_object option) \<Rightarrow> ('d cjson \<Rightarrow> ('d, bool) jmethod) \<Rightarrow> ('d, bool) jmethod" where
  "with_item mk fail f ob w = do {
     (r, w) \<leftarrow> mk w;
     case r of Inl e \<Rightarrow> do { ob \<leftarrow> fail e ob; Some (False, ob, w) } | Inr item \<Rightarrow> f item ob w
   }"

definition silent :: "string option \<Rightarrow> cjson_object \<Rightarrow> cjson_object option" where
  "silent e ob = Some ob"

definition then_do :: "(cjson_object \<Rightarrow> 'd jworld \<Rightarrow> cjson_object \<times> 'd jworld) \<Rightarrow> ('d, bool) jmethod \<Rightarrow> ('d, bool) jmethod" where
  "then_do after f ob w = do { (ok, ob, w) \<leftarrow> f ob w; Some (if ok then (ok, after ob w) else (ok, ob, w)) }"

section \<open>Objects\<close>

definition add_child_key :: "(nat \<Rightarrow> bool) \<Rightarrow> string \<Rightarrow> nat \<Rightarrow> 'd cjson \<Rightarrow> ('d, bool) jmethod" where
  "add_child_key al strKey i item ob w = do {
     t \<leftarrow> item_at w i;
     let (t, n) = cJSON_AddItemToObject al t (c_str strKey) item (jw_n w);
     Some (cJSON_GetObjectItem t (c_str strKey) \<noteq> None, ob, put_at i t (w\<lparr>jw_n := n\<rparr>))
   }"

definition add_key ::
  "'d fpu \<Rightarrow> (nat \<Rightarrow> bool) \<Rightarrow> 'd maker \<Rightarrow> (string option \<Rightarrow> cjson_object \<Rightarrow> cjson_object option) \<Rightarrow> string \<Rightarrow> ('d, bool) jmethod" where
  "add_key fp al mk fail strKey ob w = do {
     (focus, ob, w) \<leftarrow> focus_or_create (cJSON_CreateObject fp al) ob w;
     on_type J_Object not_an_object focus (\<lambda>i. with_item mk fail (add_child_key al strKey i)) ob w
   }"

definition replace_child_key :: "(nat \<Rightarrow> bool) \<Rightarrow> string \<Rightarrow> nat \<Rightarrow> 'd cjson \<Rightarrow> ('d, bool) jmethod" where
  "replace_child_key al strKey i item ob w = do {
     t \<leftarrow> item_at w i;
     let (t, _, n) = cJSON_ReplaceItemInObject al t (c_str strKey) item (jw_n w);
     Some (cJSON_GetObjectItem t (c_str strKey) \<noteq> None, ob, put_at i t (w\<lparr>jw_n := n\<rparr>))
   }"

definition replace_key ::
  "(nat \<Rightarrow> bool) \<Rightarrow> 'd maker \<Rightarrow> (string option \<Rightarrow> cjson_object \<Rightarrow> cjson_object option) \<Rightarrow> string \<Rightarrow> ('d, bool) jmethod" where
  "replace_key al mk fail strKey ob w =
     on_type J_Object not_an_object (GetJsonData ob) (\<lambda>i. with_item mk fail (replace_child_key al strKey i)) ob w"

text \<open>These two return true even where the key is there already.\<close>

definition add_empty ::
  "'d fpu \<Rightarrow> (nat \<Rightarrow> bool) \<Rightarrow> (nat \<Rightarrow> 'd cjson jres) \<Rightarrow> string \<Rightarrow> string \<Rightarrow> ('d, bool) jmethod" where
  "add_empty fp al create msg strKey ob w = do {
     (focus, ob, w) \<leftarrow> focus_or_create (cJSON_CreateObject fp al) ob w;
     on_type J_Object not_an_object focus (\<lambda>i.
       with_item (make create) (\<lambda>_ ob. Some (set_err msg ob)) (\<lambda>item ob w. do {
         (_, ob, w) \<leftarrow> add_child_key al strKey i item ob w;
         Some (True, ob, w)
       })) ob w
   }"

definition AddEmptySubObject :: "'d fpu \<Rightarrow> (nat \<Rightarrow> bool) \<Rightarrow> string \<Rightarrow> ('d, bool) jmethod" where
  "AddEmptySubObject fp al strKey = add_empty fp al (cJSON_CreateObject fp al) ''create sub empty object error!'' strKey"

definition AddEmptySubArray :: "'d fpu \<Rightarrow> (nat \<Rightarrow> bool) \<Rightarrow> string \<Rightarrow> ('d, bool) jmethod" where
  "AddEmptySubArray fp al strKey = add_empty fp al (cJSON_CreateArray fp al) ''create sub empty array error!'' strKey"

definition Add_key_object :: "'d fpu \<Rightarrow> (nat \<Rightarrow> bool) \<Rightarrow> string \<Rightarrow> cjson_object \<Rightarrow> ('d, bool) jmethod" where
  "Add_key_object fp al strKey oJsonObject ob w =
     then_do (erase_object_ref strKey) (add_key fp al (make_copy fp al oJsonObject) parse_error strKey) ob w"

definition Add_key_string :: "'d fpu \<Rightarrow> (nat \<Rightarrow> bool) \<Rightarrow> string \<Rightarrow> string \<Rightarrow> ('d, bool) jmethod" where
  "Add_key_string fp al strKey strValue ob w = add_key fp al (make (cJSON_CreateString fp al (c_str strValue))) silent strKey ob w"

definition Add_key_int32 :: "'d fpu \<Rightarrow> (nat \<Rightarrow> bool) \<Rightarrow> string \<Rightarrow> 32 word \<Rightarrow> ('d, bool) jmethod" where
  "Add_key_int32 fp al strKey iValue ob w = add_key fp al (make (cJSON_CreateInt fp al (scast iValue) (- 1))) silent strKey ob w"

definition Add_key_uint32 :: "'d fpu \<Rightarrow> (nat \<Rightarrow> bool) \<Rightarrow> string \<Rightarrow> 32 word \<Rightarrow> ('d, bool) jmethod" where
  "Add_key_uint32 fp al strKey uiValue ob w = add_key fp al (make (cJSON_CreateInt fp al (ucast uiValue) 1)) silent strKey ob w"

definition Add_key_int64 :: "'d fpu \<Rightarrow> (nat \<Rightarrow> bool) \<Rightarrow> string \<Rightarrow> 64 word \<Rightarrow> ('d, bool) jmethod" where
  "Add_key_int64 fp al strKey llValue ob w = add_key fp al (make (cJSON_CreateInt fp al llValue (- 1))) silent strKey ob w"

definition Add_key_uint64 :: "'d fpu \<Rightarrow> (nat \<Rightarrow> bool) \<Rightarrow> string \<Rightarrow> 64 word \<Rightarrow> ('d, bool) jmethod" where
  "Add_key_uint64 fp al strKey ullValue ob w = add_key fp al (make (cJSON_CreateInt fp al ullValue 1)) silent strKey ob w"

definition Add_key_bool :: "'d fpu \<Rightarrow> (nat \<Rightarrow> bool) \<Rightarrow> string \<Rightarrow> bool \<Rightarrow> ('d, bool) jmethod" where
  "Add_key_bool fp al strKey bValue ob w = add_key fp al (make (cJSON_CreateBool fp al bValue)) silent strKey ob w"

definition Add_key_float :: "'d fpu \<Rightarrow> (nat \<Rightarrow> bool) \<Rightarrow> string \<Rightarrow> 'd \<Rightarrow> ('d, bool) jmethod" where
  "Add_key_float fp al strKey fValue ob w = add_key fp al (make (cJSON_CreateDouble fp al (fp_single fp fValue) (- 1))) silent strKey ob w"

definition Add_key_double :: "'d fpu \<Rightarrow> (nat \<Rightarrow> bool) \<Rightarrow> string \<Rightarrow> 'd \<Rightarrow> ('d, bool) jmethod" where
  "Add_key_double fp al strKey dValue ob w = add_key fp al (make (cJSON_CreateDouble fp al dValue (- 1))) silent strKey ob w"

definition Delete_key :: "string \<Rightarrow> ('d, bool) jmethod" where
  "Delete_key strKey ob w =
     on_type J_Object not_an_object (GetJsonData ob) (\<lambda>i ob w. do {
       t \<leftarrow> item_at w i;
       let (t, _) = cJSON_DeleteItemFromObject t (c_str strKey);
       Some (True, erase_object_ref strKey ob (put_at i t w))
     }) ob w"

definition Replace_key_object :: "'d fpu \<Rightarrow> (nat \<Rightarrow> bool) \<Rightarrow> string \<Rightarrow> cjson_object \<Rightarrow> ('d, bool) jmethod" where
  "Replace_key_object fp al strKey oJsonObject ob w =
     then_do (erase_object_ref strKey) (replace_key al (make_copy fp al oJsonObject) parse_error strKey) ob w"

definition Replace_key_string :: "'d fpu \<Rightarrow> (nat \<Rightarrow> bool) \<Rightarrow> string \<Rightarrow> string \<Rightarrow> ('d, bool) jmethod" where
  "Replace_key_string fp al strKey strValue ob w = replace_key al (make (cJSON_CreateString fp al (c_str strValue))) silent strKey ob w"

definition Replace_key_int32 :: "'d fpu \<Rightarrow> (nat \<Rightarrow> bool) \<Rightarrow> string \<Rightarrow> 32 word \<Rightarrow> ('d, bool) jmethod" where
  "Replace_key_int32 fp al strKey iValue ob w = replace_key al (make (cJSON_CreateInt fp al (scast iValue) (- 1))) silent strKey ob w"

definition Replace_key_uint32 :: "'d fpu \<Rightarrow> (nat \<Rightarrow> bool) \<Rightarrow> string \<Rightarrow> 32 word \<Rightarrow> ('d, bool) jmethod" where
  "Replace_key_uint32 fp al strKey uiValue ob w = replace_key al (make (cJSON_CreateInt fp al (ucast uiValue) 1)) silent strKey ob w"

definition Replace_key_int64 :: "'d fpu \<Rightarrow> (nat \<Rightarrow> bool) \<Rightarrow> string \<Rightarrow> 64 word \<Rightarrow> ('d, bool) jmethod" where
  "Replace_key_int64 fp al strKey llValue ob w = replace_key al (make (cJSON_CreateInt fp al llValue (- 1))) silent strKey ob w"

definition Replace_key_uint64 :: "'d fpu \<Rightarrow> (nat \<Rightarrow> bool) \<Rightarrow> string \<Rightarrow> 64 word \<Rightarrow> ('d, bool) jmethod" where
  "Replace_key_uint64 fp al strKey ullValue ob w = replace_key al (make (cJSON_CreateInt fp al ullValue 1)) silent strKey ob w"

definition Replace_key_bool :: "'d fpu \<Rightarrow> (nat \<Rightarrow> bool) \<Rightarrow> string \<Rightarrow> bool \<Rightarrow> ('d, bool) jmethod" where
  "Replace_key_bool fp al strKey bValue ob w = replace_key al (make (cJSON_CreateBool fp al bValue)) silent strKey ob w"

definition Replace_key_float :: "'d fpu \<Rightarrow> (nat \<Rightarrow> bool) \<Rightarrow> string \<Rightarrow> 'd \<Rightarrow> ('d, bool) jmethod" where
  "Replace_key_float fp al strKey fValue ob w = replace_key al (make (cJSON_CreateDouble fp al (fp_single fp fValue) (- 1))) silent strKey ob w"

definition Replace_key_double :: "'d fpu \<Rightarrow> (nat \<Rightarrow> bool) \<Rightarrow> string \<Rightarrow> 'd \<Rightarrow> ('d, bool) jmethod" where
  "Replace_key_double fp al strKey dValue ob w = replace_key al (make (cJSON_CreateDouble fp al dValue (- 1))) silent strKey ob w"

section \<open>Arrays\<close>

definition add_child :: "('d cjson \<Rightarrow> 'd cjson \<Rightarrow> 'd cjson) \<Rightarrow> nat \<Rightarrow> 'd cjson \<Rightarrow> ('d, bool) jmethod" where
  "add_child add i item ob w = do {
     t \<leftarrow> item_at w i;
     let t' = add t item;
     Some (cJSON_GetArraySize t' \<noteq> cJSON_GetArraySize t, ob, put_at i t' w)
   }"

definition add_item ::
  "'d fpu \<Rightarrow> (nat \<Rightarrow> bool) \<Rightarrow> ('d cjson \<Rightarrow> 'd cjson \<Rightarrow> 'd cjson) \<Rightarrow> 'd maker
     \<Rightarrow> (string option \<Rightarrow> cjson_object \<Rightarrow> cjson_object option) \<Rightarrow> ('d, bool) jmethod" where
  "add_item fp al add mk fail ob w = do {
     (focus, ob, w) \<leftarrow> focus_or_create (cJSON_CreateArray fp al) ob w;
     on_type J_Array not_an_array focus (\<lambda>i. with_item mk fail (add_child add i)) ob w
   }"

text \<open>After a copy has been appended the handles of its index and behind it are dropped.\<close>

definition erase_last_refs :: "cjson_object \<Rightarrow> 'd jworld \<Rightarrow> cjson_object \<times> 'd jworld" where
  "erase_last_refs ob w =
     (case GetJsonData ob of
        None \<Rightarrow> (ob, w)
      | Some i \<Rightarrow>
          (case item_at w i of
             None \<Rightarrow> (ob, w)
           | Some t \<Rightarrow> erase_array_refs (\<lambda>k. of_nat (cJSON_GetArraySize t) - 1 \<le> k) ob w))"

definition replace_child_at :: "32 word \<Rightarrow> nat \<Rightarrow> 'd cjson \<Rightarrow> ('d, bool) jmethod" where
  "replace_child_at iWhich i item ob w = do {
     t \<leftarrow> item_at w i;
     let (t, _) = cJSON_ReplaceItemInArray t (sint iWhich) item;
     Some (cJSON_GetArrayItem t (sint iWhich) \<noteq> None, ob, put_at i t w)
   }"

definition replace_at :: "'d maker \<Rightarrow> (string option \<Rightarrow> cjson_object \<Rightarrow> cjson_object option) \<Rightarrow> 32 word \<Rightarrow> ('d, bool) jmethod" where
  "replace_at mk fail iWhich ob w =
     on_type J_Array not_an_array (GetJsonData ob) (\<lambda>i. with_item mk fail (replace_child_at iWhich i)) ob w"

definition Add_object :: "'d fpu \<Rightarrow> (nat \<Rightarrow> bool) \<Rightarrow> cjson_object \<Rightarrow> ('d, bool) jmethod" where
  "Add_object fp al oJsonObject ob w =
     then_do erase_last_refs (add_item fp al cJSON_AddItemToArray (make_copy fp al oJsonObject) parse_error) ob w"

definition Add_string :: "'d fpu \<Rightarrow> (nat \<Rightarrow> bool) \<Rightarrow> string \<Rightarrow> ('d, bool) jmethod" where
  "Add_string fp al strValue ob w = add_item fp al cJSON_AddItemToArray (make (cJSON_CreateString fp al (c_str strValue))) silent ob w"

definition Add_int32 :: "'d fpu \<Rightarrow> (nat \<Rightarrow> bool) \<Rightarrow> 32 word \<Rightarrow> ('d, bool) jmethod" where
  "Add_int32 fp al iValue ob w = add_item fp al cJSON_AddItemToArray (make (cJSON_CreateInt fp al (scast iValue) (- 1))) silent ob w"

definition Add_uint32 :: "'d fpu \<Rightarrow> (nat \<Rightarrow> bool) \<Rightarrow> 32 word \<Rightarrow> ('d, bool) jmethod" where
  "Add_uint32 fp al uiValue ob w = add_item fp al cJSON_AddItemToArray (make (cJSON_CreateInt fp al (ucast uiValue) 1)) silent ob w"

definition Add_int64 :: "'d fpu \<Rightarrow> (nat \<Rightarrow> bool) \<Rightarrow> 64 word \<Rightarrow> ('d, bool) jmethod" where
  "Add_int64 fp al llValue ob w = add_item fp al cJSON_AddItemToArray (make (cJSON_CreateInt fp al llValue (- 1))) silent ob w"

definition Add_uint64 :: "'d fpu \<Rightarrow> (nat \<Rightarrow> bool) \<Rightarrow> 64 word \<Rightarrow> ('d, bool) jmethod" where
  "Add_uint64 fp al ullValue ob w = add_item fp al cJSON_AddItemToArray (make (cJSON_CreateInt fp al ullValue 1)) silent ob w"

definition Add_bool :: "'d fpu \<Rightarrow> (nat \<Rightarrow> bool) \<Rightarrow> bool \<Rightarrow> ('d, bool) jmethod" where
  "Add_bool fp al bValue ob w = add_item fp al cJSON_AddItemToArray (make (cJSON_CreateBool fp al bValue)) silent ob w"

definition Add_float :: "'d fpu \<Rightarrow> (nat \<Rightarrow> bool) \<Rightarrow> 'd \<Rightarrow> ('d, bool) jmethod" where
  "Add_float fp al fValue ob w = add_item fp al cJSON_AddItemToArray (make (cJSON_CreateDouble fp al (fp_single fp fValue) (- 1))) silent ob w"

definition Add_double :: "'d fpu \<Rightarrow> (nat \<Rightarrow> bool) \<Rightarrow> 'd \<Rightarrow> ('d, bool) jmethod" where
  "Add_double fp al dValue ob w = add_item fp al cJSON_AddItemToArray (make (cJSON_CreateDouble fp al dValue (- 1))) silent ob w"

text \<open>At the head, unsigned numbers are marked as signed.\<close>

definition AddAsFirst_object :: "'d fpu \<Rightarrow> (nat \<Rightarrow> bool) \<Rightarrow> cjson_object \<Rightarrow> ('d, bool) jmethod" where
  "AddAsFirst_object fp al oJsonObject ob w =
     then_do (erase_array_refs (\<lambda>_. True)) (add_item fp al cJSON_AddItemToArrayHead (make_copy fp al oJsonObject) parse_error) ob w"

definition AddAsFirst_string :: "'d fpu \<Rightarrow> (nat \<Rightarrow> bool) \<Rightarrow> string \<Rightarrow> ('d, bool) jmethod" where
  "AddAsFirst_string fp al strValue ob w = add_item fp al cJSON_AddItemToArrayHead (make (cJSON_CreateString fp al (c_str strValue))) silent ob w"

definition AddAsFirst_int32 :: "'d fpu \<Rightarrow> (nat \<Rightarrow> bool) \<Rightarrow> 32 word \<Rightarrow> ('d, bool) jmethod" where
  "AddAsFirst_int32 fp al iValue ob w = add_item fp al cJSON_AddItemToArrayHead (make (cJSON_CreateInt fp al (scast iValue) (- 1))) silent ob w"

definition AddAsFirst_uint32 :: "'d fpu \<Rightarrow> (nat \<Rightarrow> bool) \<Rightarrow> 32 word \<Rightarrow> ('d, bool) jmethod" where
  "AddAsFirst_uint32 fp al uiValue ob w = add_item fp al cJSON_AddItemToArrayHead (make (cJSON_CreateInt fp al (ucast uiValue) (- 1))) silent ob w"

definition AddAsFirst_int64 :: "'d fpu \<Rightarrow> (nat \<Rightarrow> bool) \<Rightarrow> 64 word \<Rightarrow> ('d, bool) jmethod" where
  "AddAsFirst_int64 fp al llValue ob w = add_item fp al cJSON_AddItemToArrayHead (make (cJSON_CreateInt fp al llValue (- 1))) silent ob w"

definition AddAsFirst_uint64 :: "'d fpu \<Rightarrow> (nat \<Rightarrow> bool) \<Rightarrow> 64 word \<Rightarrow> ('d, bool) jmethod" where
  "AddAsFirst_uint64 fp al ullValue ob w = add_item fp al cJSON_AddItemToArrayHead (make (cJSON_CreateInt fp al ullValue (- 1))) silent ob w"

definition AddAsFirst_bool :: "'d fpu \<Rightarrow> (nat \<Rightarrow> bool) \<Rightarrow> bool \<Rightarrow> ('d, bool) jmethod" where
  "AddAsFirst_bool fp al bValue ob w = add_item fp al cJSON_AddItemToArrayHead (make (cJSON_CreateBool fp al bValue)) silent ob w"

definition AddAsFirst_float :: "'d fpu \<Rightarrow> (nat \<Rightarrow> bool) \<Rightarrow> 'd \<Rightarrow> ('d, bool) jmethod" where
  "AddAsFirst_float fp al fValue ob w = add_item fp al cJSON_AddItemToArrayHead (make (cJSON_CreateDouble fp al (fp_single fp fValue) (- 1))) silent ob w"

definition AddAsFirst_double :: "'d fpu \<Rightarrow> (nat \<Rightarrow> bool) \<Rightarrow> 'd \<Rightarrow> ('d, bool) jmethod" where
  "AddAsFirst_double fp al dValue ob w = add_item fp al cJSON_AddItemToArrayHead (make (cJSON_CreateDouble fp al dValue (- 1))) silent ob w"

definition Delete_at :: "32 word \<Rightarrow> ('d, bool) jmethod" where
  "Delete_at iWhich ob w =
     on_type J_Array not_an_array (GetJsonData ob) (\<lambda>i ob w. do {
       t \<leftarrow> item_at w i;
       let (t, _) = cJSON_DeleteItemFromArray t (sint iWhich);
       Some (True, erase_array_refs (\<lambda>k. iWhich \<le> k) ob (put_at i t w))
     }) ob w"

definition Replace_at_object :: "'d fpu \<Rightarrow> (nat \<Rightarrow> bool) \<Rightarrow> 32 word \<Rightarrow> cjson_object \<Rightarrow> ('d, bool) jmethod" where
  "Replace_at_object fp al iWhich oJsonObject ob w =
     then_do (erase_array_refs (\<lambda>k. k = iWhich)) (replace_at (make_copy fp al oJsonObject) parse_error iWhich) ob w"

definition Replace_at_string :: "'d fpu \<Rightarrow> (nat \<Rightarrow> bool) \<Rightarrow> 32 word \<Rightarrow> string \<Rightarrow> ('d, bool) jmethod" where
  "Replace_at_string fp al iWhich strValue ob w = replace_at (make (cJSON_CreateString fp al (c_str strValue))) silent iWhich ob w"

definition Replace_at_int32 :: "'d fpu \<Rightarrow> (nat \<Rightarrow> bool) \<Rightarrow> 32 word \<Rightarrow> 32 word \<Rightarrow> ('d, bool) jmethod" where
  "Replace_at_int32 fp al iWhich iValue ob w = replace_at (make (cJSON_CreateInt fp al (scast iValue) (- 1))) silent iWhich ob w"

definition Replace_at_uint32 :: "'d fpu \<Rightarrow> (nat \<Rightarrow> bool) \<Rightarrow> 32 word \<Rightarrow> 32 word \<Rightarrow> ('d, bool) jmethod" where
  "Replace_at_uint32 fp al iWhich uiValue ob w = replace_at (make (cJSON_CreateInt fp al (ucast uiValue) 1)) silent iWhich ob w"

definition Replace_at_int64 :: "'d fpu \<Rightarrow> (nat \<Rightarrow> bool) \<Rightarrow> 32 word \<Rightarrow> 64 word \<Rightarrow> ('d, bool) jmethod" where
  "Replace_at_int64 fp al iWhich llValue ob w = replace_at (make (cJSON_CreateInt fp al llValue (- 1))) silent iWhich ob w"

definition Replace_at_uint64 :: "'d fpu \<Rightarrow> (nat \<Rightarrow> bool) \<Rightarrow> 32 word \<Rightarrow> 64 word \<Rightarrow> ('d, bool) jmethod" where
  "Replace_at_uint64 fp al iWhich ullValue ob w = replace_at (make (cJSON_CreateInt fp al ullValue 1)) silent iWhich ob w"

definition Replace_at_bool :: "'d fpu \<Rightarrow> (nat \<Rightarrow> bool) \<Rightarrow> 32 word \<Rightarrow> bool \<Rightarrow> ('d, bool) jmethod" where
  "Replace_at_bool fp al iWhich bValue ob w = replace_at (make (cJSON_CreateBool fp al bValue)) silent iWhich ob w"

definition Replace_at_float :: "'d fpu \<Rightarrow> (nat \<Rightarrow> bool) \<Rightarrow> 32 word \<Rightarrow> 'd \<Rightarrow> ('d, bool) jmethod" where
  "Replace_at_float fp al iWhich fValue ob w = replace_at (make (cJSON_CreateDouble fp al (fp_single fp fValue) (- 1))) silent iWhich ob w"

definition Replace_at_double :: "'d fpu \<Rightarrow> (nat \<Rightarrow> bool) \<Rightarrow> 32 word \<Rightarrow> 'd \<Rightarrow> ('d, bool) jmethod" where
  "Replace_at_double fp al iWhich dValue ob w = replace_at (make (cJSON_CreateDouble fp al dValue (- 1))) silent iWhich ob w"

end
