(* ===== verification/Json_Ids.thy ===== *)
theory Json_Ids
  imports Json_Access "HOL-Library.Multiset"
begin

text \<open>
  The memory of the JSON trees: identities of items stay distinct under every method of \<open>CJsonObject\<close>
  (\<open>src/core/util/json/CJsonObject.cpp\<close>), so that a pointer names one item as long as it lives.
\<close>

section \<open>Items and their identities\<close>

lemma find_none:
  fixes t :: "'d cjson" and ts :: "'d cjson list"
  shows "find_item i t = None \<longleftrightarrow> i \<notin> set (cJSON_Delete t)"
  "find_items i ts = None \<longleftrightarrow> i \<notin> set (concat (map cJSON_Delete ts))"
  by (induction i t and i ts rule: find_item_find_items.induct) (auto split: option.splits)

lemma find_id:
  fixes t s :: "'d cjson" and ts :: "'d cjson list"
  shows "find_item i t = Some s \<Longrightarrow> jn_id (cj_node s) = i \<and> set (cJSON_Delete s) \<subseteq> set (cJSON_Delete t)"
  "find_items i ts = Some s \<Longrightarrow> jn_id (cj_node s) = i \<and> set (cJSON_Delete s) \<subseteq> set (concat (map cJSON_Delete ts))"
  by (induction i t and i ts rule: find_item_find_items.induct) (auto split: option.splits if_splits)

lemma find_self [simp]: "find_item (jn_id (cj_node t)) t = Some t"
  by (cases t) simp

lemma id_in_ids [simp]: "jn_id (cj_node t) \<in> set (cJSON_Delete t)"
  by (cases t) simp

lemma put_absent: "i \<notin> set (cJSON_Delete x) \<Longrightarrow> put_item i t x = x"
  by (induction x) (auto intro!: map_idI)

lemma find_items_split:
  "find_items i ts = Some t \<Longrightarrow> \<exists>pre c post. ts = pre @ c # post \<and> find_item i c = Some t \<and> (\<forall>d \<in> set pre. i \<notin> set (cJSON_Delete d))"
proof (induction ts)
  case (Cons d ts)
  show ?case
  proof (cases "find_item i d")
    case None
    then obtain pre c post where "ts = pre @ c # post" "find_item i c = Some t" "\<forall>d \<in> set pre. i \<notin> set (cJSON_Delete d)"
      using Cons by auto
    then show ?thesis using None find_none(1) [of i d] by (intro exI [of _ "d # pre"]) auto
  next
    case (Some s)
    then show ?thesis using Cons.prems by (intro exI [of _ "[]"]) simp
  qed
qed simp

lemma find_items_append: "(\<forall>d \<in> set pre. i \<notin> set (cJSON_Delete d)) \<Longrightarrow> find_items i (pre @ ts) = find_items i ts"
  by (induction pre) (auto simp: find_none [symmetric])

lemma find_put_one: "find_item i x = Some t \<Longrightarrow> jn_id (cj_node t') = i \<Longrightarrow> find_item i (put_item i t' x) = Some t'"
proof (induction x)
  case (CJ nd cs)
  show ?case
  proof (cases "jn_id nd = i")
    case False
    then obtain pre c post where s: "cs = pre @ c # post" "find_item i c = Some t" "\<forall>d \<in> set pre. i \<notin> set (cJSON_Delete d)"
      using find_items_split CJ.prems by fastforce
    then have "map (put_item i t') pre = pre" by (simp add: put_absent map_idI)
    then show ?thesis using False s CJ.IH [of c] CJ.prems by (simp add: find_items_append)
  qed (use CJ.prems find_self [of t'] in auto)
qed

lemma find_put:
  assumes "find_items i ts = Some t" and "jn_id (cj_node t') = i"
  shows "find_items i (map (put_item i t') ts) = Some t'"
proof -
  obtain pre c post where s: "ts = pre @ c # post" "find_item i c = Some t" "\<forall>d \<in> set pre. i \<notin> set (cJSON_Delete d)"
    using find_items_split assms by blast
  then have "map (put_item i t') pre = pre" by (simp add: put_absent map_idI)
  then show ?thesis using s find_put_one [OF s(2) assms(2)] by (simp add: find_items_append)
qed

text \<open>With distinct identities, writing an item exchanges its identities and nothing else.\<close>

definition forest_ids :: "'d cjson list \<Rightarrow> nat list" where
  "forest_ids ts = concat (map cJSON_Delete ts)"

lemma forest_ids_simps [simp]:
  "forest_ids [] = []" "forest_ids (t # ts) = cJSON_Delete t @ forest_ids ts" "forest_ids (ts @ us) = forest_ids ts @ forest_ids us"
  by (simp_all add: forest_ids_def)

lemma Delete_forest: "cJSON_Delete (CJ nd cs) = forest_ids cs @ [jn_id nd]"
  by (simp add: forest_ids_def)

lemma ids_put_list:
  assumes "find_items i ts = Some t" and "distinct (forest_ids ts)"
    and "\<And>c. c \<in> set ts \<Longrightarrow> find_item i c = Some t \<Longrightarrow> distinct (cJSON_Delete c) \<Longrightarrow>
      mset (cJSON_Delete (put_item i t' c)) + mset (cJSON_Delete t) = mset (cJSON_Delete c) + mset (cJSON_Delete t')"
  shows "mset (forest_ids (map (put_item i t') ts)) + mset (cJSON_Delete t) = mset (forest_ids ts) + mset (cJSON_Delete t')"
proof -
  obtain pre c post where s: "ts = pre @ c # post" "find_item i c = Some t" "\<forall>d \<in> set pre. i \<notin> set (cJSON_Delete d)"
    using find_items_split assms(1) by blast
  have d: "distinct (cJSON_Delete c)" "set (forest_ids post) \<inter> set (cJSON_Delete c) = {}" using assms(2) s(1) by auto
  have "i \<in> set (cJSON_Delete c)" using s(2) find_none(1) [of i c] by auto
  then have "map (put_item i t') pre = pre" "map (put_item i t') post = post"
    using s(3) d(2) by (auto intro!: map_idI put_absent simp: forest_ids_def)
  then show ?thesis using assms(3) [of c] s(1,2) d(1) by simp
qed

lemma ids_put_one:
  "find_item i x = Some t \<Longrightarrow> distinct (cJSON_Delete x) \<Longrightarrow>
    mset (cJSON_Delete (put_item i t' x)) + mset (cJSON_Delete t) = mset (cJSON_Delete x) + mset (cJSON_Delete t')"
proof (induction x)
  case (CJ nd cs)
  show ?case
  proof (cases "jn_id nd = i")
    case False
    then have f: "find_items i cs = Some t" "distinct (forest_ids cs)" using CJ.prems by (auto simp: forest_ids_def)
    have "mset (forest_ids (map (put_item i t') cs)) + mset (cJSON_Delete t) = mset (forest_ids cs) + mset (cJSON_Delete t')"
      by (rule ids_put_list [OF f]) (use CJ.IH in auto)
    then show ?thesis using False by (simp add: Delete_forest del: cJSON_Delete.simps)
  qed (use CJ.prems in auto)
qed

lemma ids_put:
  "find_items i ts = Some t \<Longrightarrow> distinct (forest_ids ts) \<Longrightarrow>
    mset (forest_ids (map (put_item i t') ts)) + mset (cJSON_Delete t) = mset (forest_ids ts) + mset (cJSON_Delete t')"
  by (rule ids_put_list) (auto intro!: ids_put_one)

text \<open>All identities are different and were given out by \<open>malloc\<close>.\<close>

definition ids_ok :: "'d jworld \<Rightarrow> bool" where
  "ids_ok w \<longleftrightarrow> distinct (forest_ids (jw_trees w)) \<and> (\<forall>i \<in> set (forest_ids (jw_trees w)). i < jw_n w)"

lemma item_at_none: "item_at w i = None \<longleftrightarrow> i \<notin> set (forest_ids (jw_trees w))"
  by (simp add: item_at_def find_none forest_ids_def)

lemma item_at_id: "item_at w i = Some t \<Longrightarrow> jn_id (cj_node t) = i"
  by (simp add: item_at_def find_id)

lemma item_at_put [simp]: "item_at w i = Some t \<Longrightarrow> jn_id (cj_node t') = i \<Longrightarrow> item_at (put_at i t' w) i = Some t'"
  by (simp add: item_at_def put_at_def find_put)

lemma item_at_counter [simp]: "item_at (w\<lparr>jw_n := n\<rparr>) i = item_at w i"
  by (simp add: item_at_def)

lemma item_at_new [simp]: "item_at (new_tree t n w) (jn_id (cj_node t)) = Some t"
  by (simp add: item_at_def new_tree_def)

lemma put_at_ids:
  "item_at w i = Some t \<Longrightarrow> ids_ok w \<Longrightarrow>
    mset (forest_ids (jw_trees (put_at i t' w))) + mset (cJSON_Delete t) = mset (forest_ids (jw_trees w)) + mset (cJSON_Delete t')"
  by (simp add: item_at_def put_at_def ids_ok_def ids_put)

section \<open>Identities of new items\<close>

definition new_ids :: "nat list \<Rightarrow> nat \<Rightarrow> nat \<Rightarrow> bool" where
  "new_ids l n m \<longleftrightarrow> n \<le> m \<and> distinct l \<and> set l \<subseteq> {n..<m}"

lemma new_ids_append: "new_ids l n m \<Longrightarrow> new_ids l' m k \<Longrightarrow> new_ids (l @ l') n k"
  by (fastforce simp: new_ids_def)

lemma new_ids_Nil [simp]: "new_ids [] n m \<longleftrightarrow> n \<le> m"
  by (simp add: new_ids_def)

lemma new_ids_one [simp]: "new_ids [i] n m \<longleftrightarrow> n \<le> i \<and> i < m"
  by (auto simp: new_ids_def)

text \<open>A call counts its allocations upwards, and its result satisfies \<open>Q\<close>.\<close>

definition counts :: "'a jres \<Rightarrow> nat \<Rightarrow> ('a \<Rightarrow> nat \<Rightarrow> bool) \<Rightarrow> bool" where
  "counts r n Q \<longleftrightarrow> (case r of None \<Rightarrow> True | Some (Inl _, m) \<Rightarrow> n \<le> m | Some (Inr a, m) \<Rightarrow> n \<le> m \<and> Q a m)"

lemma counts_simps [simp]:
  "counts None n Q" "counts (Some (Inl e, m)) n Q \<longleftrightarrow> n \<le> m" "counts (Some (Inr a, m)) n Q \<longleftrightarrow> n \<le> m \<and> Q a m"
  by (simp_all add: counts_def)

lemma counts_bind:
  assumes "counts r n Q" and "\<And>a m. n \<le> m \<Longrightarrow> Q a m \<Longrightarrow> counts (f a m) n S"
  shows "counts (jbind r f) n S"
proof (cases r)
  case (Some p)
  obtain v m where "p = (v, m)" by (cases p)
  then show ?thesis using assms Some by (cases v) auto
qed simp

lemma counts_mono: "counts r m Q \<Longrightarrow> n \<le> m \<Longrightarrow> (\<And>a k. m \<le> k \<Longrightarrow> Q a k \<Longrightarrow> Q' a k) \<Longrightarrow> counts r n Q'"
  by (auto simp: counts_def split: option.splits sum.splits)

lemma counts_malloc [simp]: "counts (j_malloc al n) n (\<lambda>i m. i = n \<and> m = Suc n)"
  by (simp add: j_malloc_def)

lemma counts_new_item: "counts (cJSON_New_Item fp al n) n (\<lambda>nd m. nd = zero_node fp n \<and> m = Suc n)"
  by (simp add: cJSON_New_Item_def j_malloc_def)

lemma zero_node_id [simp]: "jn_id (zero_node fp i) = i"
  by (simp add: zero_node_def)

lemma new_ids_item: "new_ids l k m \<Longrightarrow> Suc n \<le> k \<Longrightarrow> new_ids (l @ [n]) n m"
  by (fastforce simp: new_ids_def)

lemma Delete_node: "cJSON_Delete t = forest_ids (cj_child t) @ [jn_id (cj_node t)]"
  by (cases t) (simp add: forest_ids_def)

text \<open>The parser: the item it fills keeps its identity, all others are new.\<close>

abbreviation fills :: "('d cjson \<times> string) jres \<Rightarrow> nat \<Rightarrow> nat \<Rightarrow> bool" where
  "fills r i n \<equiv> counts r n (\<lambda>(t, _) m. jn_id (cj_node t) = i \<and> new_ids (forest_ids (cj_child t)) n m)"

definition fills_all :: "'d value_parser \<Rightarrow> bool" where
  "fills_all pv \<longleftrightarrow> (\<forall>nd s n. fills (pv nd s n) (jn_id nd) n)"

lemma fillsD: "fills_all pv \<Longrightarrow> jn_id nd = i \<Longrightarrow> fills (pv nd s n) i n"
  by (auto simp: fills_all_def)

lemma counts_string: "counts (parse_string al nd s n) n (\<lambda>(nd', _) m. jn_id nd' = jn_id nd)"
  by (auto simp: parse_string_def j_malloc_def split: option.split)

lemma counts_number: "counts (parse_number fp nd s n) n (\<lambda>(nd', _) m. jn_id nd' = jn_id nd)"
  by (auto simp: parse_number_def Let_def split: prod.split option.split)

lemma counts_elem:
  assumes "fills_all pv"
  shows "counts (parse_elem fp al pv s n) n (\<lambda>(c, _) m. new_ids (cJSON_Delete c) n m)"
  unfolding parse_elem_def
proof (rule counts_bind [OF counts_new_item])
  fix ch m
  assume ch: "ch = zero_node fp n \<and> m = Suc n"
  have "fills (pv ch (skip s) m) n m" by (rule fillsD [OF assms]) (simp add: ch)
  then show "counts (jbind (pv ch (skip s) m) (\<lambda>(c, r) n. Some (Inr (c, skip r), n))) n (\<lambda>(c, _) m. new_ids (cJSON_Delete c) n m)"
    by (rule counts_bind [OF counts_mono]) (use ch in \<open>auto simp: Delete_node intro: new_ids_item\<close>)
qed

lemma counts_member:
  fixes pv :: "'d value_parser"
  assumes "fills_all pv"
  shows "counts (parse_member fp al pv s n) n (\<lambda>(c, _) m. new_ids (cJSON_Delete c) n m)"
  unfolding parse_member_def
proof (rule counts_bind [OF counts_new_item])
  fix ch m
  assume ch: "ch = zero_node fp n \<and> m = Suc n"
  show "counts (jbind (parse_string al ch (skip s) m) (\<lambda>(ch, r) n.
      let ch = ch\<lparr>jn_name := jn_str ch, jn_str := None\<rparr>; r = skip r
      in if \<not> starts '':'' r then Some (Inl (Some r), n)
         else jbind (pv ch (skip (tl r)) n) (\<lambda>(c, r) n. Some (Inr (c, skip r), n)))) n (\<lambda>(c, _) m. new_ids (cJSON_Delete c) n m)"
  proof (rule counts_bind [OF counts_mono [OF counts_string]])
    show "n \<le> m" using ch by simp
    fix x :: "'d jnode \<times> string" and k
    assume k: "n \<le> k" "case x of (nd', _) \<Rightarrow> jn_id nd' = jn_id ch \<and> m \<le> k"
    obtain nd' r where x: "x = (nd', r)" by (cases x)
    let ?nd = "nd'\<lparr>jn_name := jn_str nd', jn_str := None\<rparr>"
    have "fills (pv ?nd (skip (tl (skip r))) k) n k" by (rule fillsD [OF assms]) (use k ch x in simp)
    then have "counts (jbind (pv ?nd (skip (tl (skip r))) k) (\<lambda>(c, r) n. Some (Inr (c, skip r), n))) n (\<lambda>(c, _) m. new_ids (cJSON_Delete c) n m)"
      by (rule counts_bind [OF counts_mono]) (use ch k x in \<open>auto simp: Delete_node intro: new_ids_item\<close>)
    then show "counts ((case x of (ch, r) \<Rightarrow> \<lambda>n. let ch = ch\<lparr>jn_name := jn_str ch, jn_str := None\<rparr>; r = skip r
        in if \<not> starts '':'' r then Some (Inl (Some r), n)
           else jbind (pv ch (skip (tl r)) n) (\<lambda>(c, r) n. Some (Inr (c, skip r), n))) k) n (\<lambda>(c, _) m. new_ids (cJSON_Delete c) n m)"
      using k x by (simp add: Let_def)
  qed auto
qed

lemma counts_loop:
  fixes g :: "string \<Rightarrow> nat \<Rightarrow> ('d cjson \<times> string) jres" and f :: "string \<Rightarrow> nat \<Rightarrow> ('d cjson list \<times> string) jres"
  assumes "\<And>s n. counts (g s n) n (\<lambda>(c, _) m. new_ids (cJSON_Delete c) n m)"
    and "\<And>s n. counts (f s n) n (\<lambda>(cs, _) m. new_ids (forest_ids cs) n m)"
  shows "counts (jbind (g s n) (\<lambda>(c, r) n. jbind (f r n) (\<lambda>(cs, r) n. Some (Inr (c # cs, r), n)))) n (\<lambda>(cs, _) m. new_ids (forest_ids cs) n m)"
proof (rule counts_bind [OF assms(1)])
  fix x :: "'d cjson \<times> string" and m
  assume m: "n \<le> m" "(case x of (c, _) \<Rightarrow> \<lambda>m. new_ids (cJSON_Delete c) n m) m"
  obtain c r where x: "x = (c, r)" by (cases x)
  have "counts (f r m) m (\<lambda>(cs, _) k. new_ids (forest_ids cs) m k)" by (rule assms(2))
  then have "counts (jbind (f r m) (\<lambda>(cs, r) n. Some (Inr (c # cs, r), n))) n (\<lambda>(cs, _) m. new_ids (forest_ids cs) n m)"
    by (rule counts_bind [OF counts_mono]) (use m x in \<open>auto intro: new_ids_append\<close>)
  then show "counts ((case x of (c, r) \<Rightarrow> \<lambda>n. jbind (f r n) (\<lambda>(cs, r) n. Some (Inr (c # cs, r), n))) m) n (\<lambda>(cs, _) m. new_ids (forest_ids cs) n m)"
    using x by simp
qed

lemma counts_elems: "fills_all pv \<Longrightarrow> counts (parse_elems fp al pv j s n) n (\<lambda>(cs, _) m. new_ids (forest_ids cs) n m)"
proof (induction j arbitrary: s n)
  case (Suc j)
  show ?case
    using counts_loop [of "parse_elem fp al pv" "parse_elems fp al pv j" "tl s" n, OF counts_elem [OF Suc.prems] Suc.IH [OF Suc.prems]] by simp
qed simp

lemma counts_members: "fills_all pv \<Longrightarrow> counts (parse_members fp al pv j s n) n (\<lambda>(cs, _) m. new_ids (forest_ids cs) n m)"
proof (induction j arbitrary: s n)
  case (Suc j)
  show ?case
    using counts_loop [of "parse_member fp al pv" "parse_members fp al pv j" "tl s" n, OF counts_member [OF Suc.prems] Suc.IH [OF Suc.prems]] by simp
qed simp

lemma fills_close:
  assumes "counts (f s n) n (\<lambda>(cs, _) m. new_ids (forest_ids cs) n m)"
  shows "fills (jbind (f s n) (\<lambda>(cs, r) n. if starts [c] r then Some (Inr (CJ nd cs, tl r), n) else Some (Inl (Some r), n))) (jn_id nd) n"
  using assms by (rule counts_bind) auto

lemma jbind_assoc: "jbind (jbind r f) g = jbind r (\<lambda>a n. jbind (f a n) g)"
  by (simp add: jbind_def split: option.split sum.split)

lemma fills_array: "fills_all pv \<Longrightarrow> fills (parse_array fp al pv nd s n) (jn_id nd) n"
proof -
  assume pv: "fills_all pv"
  let ?nd = "nd\<lparr>jn_type := J_Array\<rparr>"
  let ?k = "length s"
  let ?f = "\<lambda>s n. jbind (parse_elem fp al pv s n) (\<lambda>(c, r) n. jbind (parse_elems fp al pv ?k r n) (\<lambda>(cs, r) n. Some (Inr (c # cs, r), n)))"
  have "fills (jbind (?f (skip (tl s)) n) (\<lambda>(cs, r) n. if starts '']'' r then Some (Inr (CJ ?nd cs, tl r), n) else Some (Inl (Some r), n))) (jn_id ?nd) n"
    by (rule fills_close, rule counts_loop) (use pv in \<open>auto intro: counts_elem counts_elems\<close>)
  then show ?thesis by (simp add: parse_array_def Let_def jbind_assoc split_def cong del: if_weak_cong)
qed

lemma fills_object: "fills_all pv \<Longrightarrow> fills (parse_object fp al pv nd s n) (jn_id nd) n"
proof -
  assume pv: "fills_all pv"
  let ?nd = "nd\<lparr>jn_type := J_Object\<rparr>"
  let ?k = "length s"
  let ?f = "\<lambda>s n. jbind (parse_member fp al pv s n) (\<lambda>(c, r) n. jbind (parse_members fp al pv ?k r n) (\<lambda>(cs, r) n. Some (Inr (c # cs, r), n)))"
  have "fills (jbind (?f (skip (tl s)) n) (\<lambda>(cs, r) n. if starts ''}'' r then Some (Inr (CJ ?nd cs, tl r), n) else Some (Inl (Some r), n))) (jn_id ?nd) n"
    by (rule fills_close, rule counts_loop) (use pv in \<open>auto intro: counts_member counts_members\<close>)
  then show ?thesis by (simp add: parse_object_def Let_def jbind_assoc split_def cong del: if_weak_cong)
qed

lemma fills_leaf:
  assumes "counts r n (\<lambda>(nd', _) m. jn_id nd' = i)"
  shows "fills (jbind r (\<lambda>(nd, r) n. Some (Inr (CJ nd [], r), n))) i n"
  using assms by (rule counts_bind) auto

lemma fills_if: "(b \<Longrightarrow> fills r i n) \<Longrightarrow> (\<not> b \<Longrightarrow> fills r' i n) \<Longrightarrow> fills (if b then r else r') i n"
  by simp

lemma fills_all_value: "fills_all (\<lambda>nd s n. parse_value fp al k nd s n)"
proof (induction k)
  case (Suc k)
  show ?case
    unfolding fills_all_def parse_value.simps(2)
    by (intro allI fills_if fills_leaf counts_string counts_number fills_array fills_object Suc) simp_all
qed (simp add: fills_all_def)

text \<open>Everything \<open>cJSON_Parse\<close> builds is new.\<close>

lemma counts_parse: "counts (cJSON_Parse fp al s n) n (\<lambda>t m. new_ids (cJSON_Delete t) n m)"
  unfolding cJSON_Parse_def
proof (rule counts_bind [OF counts_new_item])
  fix c m
  assume c: "c = zero_node fp n \<and> m = Suc n"
  have "fills (parse_value fp al (fp_stack fp) c (skip s) m) n m"
    by (rule fillsD [OF fills_all_value]) (simp add: c)
  then show "counts (jbind (parse_value fp al (fp_stack fp) c (skip s) m) (\<lambda>(t, _) n. Some (Inr t, n))) n (\<lambda>t m. new_ids (cJSON_Delete t) n m)"
    by (rule counts_bind [OF counts_mono]) (use c in \<open>auto simp: Delete_node intro: new_ids_item\<close>)
qed

end
