(* ===== verification/Json_Memory.thy ===== *)
theory Json_Memory
  imports Json_Ids
begin

text \<open>
  Every method of \<open>CJsonObject\<close> (\<open>src/core/util/json/CJsonObject.cpp\<close>) that changes a tree keeps the identities of the items
  distinct, also through the handles of children, and what it puts into the trees is new. Identities count
  allocations: the addresses of the process, which \<open>malloc\<close> may give out again after a \<open>free\<close>, are not modelled.
\<close>

section \<open>Worlds\<close>

text \<open>Identities that were given out but are in no tree.\<close>

definition spare :: "nat list \<Rightarrow> 'd jworld \<Rightarrow> bool" where
  "spare l w \<longleftrightarrow> distinct l \<and> (\<forall>i \<in> set l. i < jw_n w \<and> i \<notin> set (forest_ids (jw_trees w)))"

text \<open>
  From \<open>w\<close> to \<open>w'\<close> identities stay distinct, and the trees only gain items of \<open>l\<close> and items allocated in between.
\<close>

definition grows_by :: "nat list \<Rightarrow> 'd jworld \<Rightarrow> 'd jworld \<Rightarrow> bool" where
  "grows_by l w w' \<longleftrightarrow> ids_ok w' \<and> jw_n w \<le> jw_n w'
     \<and> set (forest_ids (jw_trees w')) \<subseteq> set (forest_ids (jw_trees w)) \<union> set l \<union> {jw_n w..<jw_n w'}"

abbreviation grows :: "'d jworld \<Rightarrow> 'd jworld \<Rightarrow> bool" where
  "grows w w' \<equiv> grows_by [] w w'"

lemma grows_refl [simp]: "grows w w \<longleftrightarrow> ids_ok w"
  by (simp add: grows_by_def)

lemma grows_ids_ok: "grows_by l w w' \<Longrightarrow> ids_ok w'"
  by (simp add: grows_by_def)

lemma grows_trans: "grows_by l w w1 \<Longrightarrow> grows w1 w2 \<Longrightarrow> grows_by l w w2"
  by (fastforce simp: grows_by_def)

lemma ids_ok_counter: "ids_ok w \<Longrightarrow> jw_n w \<le> n \<Longrightarrow> ids_ok (w\<lparr>jw_n := n\<rparr>)"
  by (auto simp: ids_ok_def)

lemma grows_counter: "grows_by l w w' \<Longrightarrow> jw_n w' \<le> n \<Longrightarrow> grows_by l w (w'\<lparr>jw_n := n\<rparr>)"
  by (fastforce simp: grows_by_def ids_ok_def)

lemma grows_count: "ids_ok w \<Longrightarrow> jw_n w \<le> n \<Longrightarrow> grows w (w\<lparr>jw_n := n\<rparr>)"
  by (rule grows_counter) simp_all

lemma spare_counter: "spare l w \<Longrightarrow> jw_n w \<le> n \<Longrightarrow> spare l (w\<lparr>jw_n := n\<rparr>)"
  by (auto simp: spare_def)

lemma new_ids_spare: "ids_ok w \<Longrightarrow> new_ids l (jw_n w) n \<Longrightarrow> spare l (w\<lparr>jw_n := n\<rparr>)"
  by (fastforce simp: ids_ok_def spare_def new_ids_def)

lemma grows_new: "ids_ok w \<Longrightarrow> new_ids (cJSON_Delete t) (jw_n w) n \<Longrightarrow> grows w (new_tree t n w)"
  by (fastforce simp: grows_by_def ids_ok_def new_tree_def new_ids_def)

text \<open>With a new item, what is grown by the item is grown.\<close>

lemma grows_new_item:
  assumes "new_ids l (jw_n w) (jw_n w1)" and "jw_trees w1 = jw_trees w" and "grows_by l w1 w2"
  shows "grows w w2"
  using assms by (fastforce simp: grows_by_def new_ids_def)

lemma grows_drop: "ids_ok w \<Longrightarrow> grows w (drop_tree r w)"
proof (cases r)
  case (Some i)
  assume w: "ids_ok w"
  have "distinct (forest_ids ts) \<Longrightarrow> distinct (forest_ids (filter P ts)) \<and> set (forest_ids (filter P ts)) \<subseteq> set (forest_ids ts)"
    for P and ts :: "'a cjson list" by (induction ts) auto
  then show ?thesis using w Some by (fastforce simp: grows_by_def ids_ok_def drop_tree_def)
qed (simp add: drop_tree_def)

lemma fold_keeps: "P w \<Longrightarrow> (\<And>x w. x \<in> set xs \<Longrightarrow> P w \<Longrightarrow> P (f x w)) \<Longrightarrow> P (fold f xs w)"
  by (induction xs arbitrary: w) auto

lemma grows_fold:
  assumes "grows w0 w" and "\<And>x w. x \<in> set xs \<Longrightarrow> ids_ok w \<Longrightarrow> grows w (f x w)"
  shows "grows w0 (fold f xs w)"
  using assms(1) by (rule fold_keeps [where P = "grows w0"]) (blast intro: grows_trans assms(2) grows_ids_ok)

lemma grows_delete: "ids_ok w \<Longrightarrow> grows w (delete_object ob w)"
proof (induction ob arbitrary: w)
  case (JObj d x e am om)
  have "grows w (fold (\<lambda>(_, ob) w. delete_object ob w) am (drop_tree d w))"
    by (rule grows_fold [OF grows_drop [OF JObj.prems]]) (use JObj.IH(1) in \<open>fastforce split: prod.split\<close>)
  then have "grows w (fold (\<lambda>(_, ob) w. delete_object ob w) om (fold (\<lambda>(_, ob) w. delete_object ob w) am (drop_tree d w)))"
    by (rule grows_fold) (use JObj.IH(2) in \<open>fastforce split: prod.split\<close>)
  then show ?case by (simp add: Let_def)
qed

lemma grows_erase: "ids_ok w \<Longrightarrow> grows w (snd (erase_object_ref key ob w))" "ids_ok w \<Longrightarrow> grows w (snd (erase_array_refs P ob w))"
  "ids_ok w \<Longrightarrow> grows w (snd (erase_last_refs ob w))"
proof -
  have a: "grows w (snd (erase_array_refs P ob w))" if "ids_ok w" for P
    unfolding erase_array_refs_def snd_conv by (rule grows_fold) (use that in \<open>auto intro: grows_delete\<close>)
  then show "ids_ok w \<Longrightarrow> grows w (snd (erase_array_refs P ob w))" .
  show "ids_ok w \<Longrightarrow> grows w (snd (erase_last_refs ob w))" using a by (simp add: erase_last_refs_def split: option.split)
  show "ids_ok w \<Longrightarrow> grows w (snd (erase_object_ref key ob w))" by (simp add: erase_object_ref_def grows_delete split: option.split)
qed

lemma distinct_submset: "distinct ys \<Longrightarrow> mset xs \<subseteq># mset ys \<Longrightarrow> distinct xs"
proof -
  assume ys: "distinct ys" "mset xs \<subseteq># mset ys"
  have "count (mset xs) a \<le> 1" for a
  proof -
    have "count (mset ys) a \<le> 1" using ys(1) count_mset_0_iff [of ys a] by (cases "a \<in> set ys") (simp_all add: distinct_count_atmost_1)
    then show ?thesis using mset_subset_eq_count [OF ys(2), of a] by simp
  qed
  moreover have "a \<in> set xs \<Longrightarrow> 1 \<le> count (mset xs) a" for a by (simp add: Suc_le_eq)
  ultimately show ?thesis by (auto simp: distinct_count_atmost_1 intro: antisym)
qed

text \<open>An item of a tree is written, perhaps with spare items in place of some of its own.\<close>

lemma grows_put:
  assumes "ids_ok w" and "item_at w i = Some t" and "spare l w"
    and "mset (cJSON_Delete t') \<subseteq># mset (cJSON_Delete t) + mset l"
  shows "grows_by l w (put_at i t' w)"
proof -
  let ?new = "mset (forest_ids (jw_trees (put_at i t' w)))" and ?old = "mset (forest_ids (jw_trees w))"
  have "?new + mset (cJSON_Delete t) = ?old + mset (cJSON_Delete t')" by (rule put_at_ids [OF assms(2,1)])
  also have "\<dots> \<subseteq># ?old + (mset (cJSON_Delete t) + mset l)" using assms(4) by simp
  finally have sub: "?new \<subseteq># ?old + mset l" by (simp add: add.commute add.left_commute)
  have "distinct (forest_ids (jw_trees w) @ l)" using assms(1,3) by (auto simp: ids_ok_def spare_def)
  then have "distinct (forest_ids (jw_trees (put_at i t' w)))"
    by (rule distinct_submset) (use sub in simp)
  moreover have "set (forest_ids (jw_trees (put_at i t' w))) \<subseteq> set (forest_ids (jw_trees w)) \<union> set l"
    using set_mset_mono [OF sub] by simp
  moreover have "jw_n (put_at i t' w) = jw_n w" by (simp add: put_at_def)
  ultimately show ?thesis using assms(1,3) unfolding grows_by_def ids_ok_def spare_def by fastforce
qed

section \<open>Printing counts upwards\<close>

lemma counts_true_bind: "counts r n (\<lambda>_ _. True) \<Longrightarrow> (\<And>a m. counts (f a m) m (\<lambda>_ _. True)) \<Longrightarrow> counts (jbind r f) n (\<lambda>_ _. True)"
  by (rule counts_bind) (auto intro: counts_mono)

lemma counts_true_malloc: "counts (j_malloc al n) n (\<lambda>_ _. True)"
  by (simp add: j_malloc_def)

lemma counts_string_ptr: "counts (print_string_ptr al s n) n (\<lambda>_ _. True)"
  by (auto simp: print_string_ptr_def cJSON_strdup_def j_malloc_def split: option.split)

lemma counts_print_items:
  "(\<And>c n. c \<in> set cs \<Longrightarrow> counts (print_value fp al depth fmt c n) n (\<lambda>_ _. True)) \<Longrightarrow>
    counts (print_items fp al depth fmt cs n) n (\<lambda>_ _. True)"
  by (induction cs arbitrary: n) (simp_all add: counts_true_bind)

lemma counts_print_members:
  assumes "\<And>c n. c \<in> set cs \<Longrightarrow> counts (print_value fp al depth fmt c n) n (\<lambda>_ _. True)"
  shows "counts (print_members fp al depth fmt cs n) n (\<lambda>_ _. True)"
  using assms
proof (induction cs arbitrary: n)
  case (Cons c cs)
  have le: "r = Some (v, m) \<Longrightarrow> counts r k (\<lambda>_ _. True) \<Longrightarrow> k \<le> m" for r :: "'x jres" and v m k by (cases v) auto
  have val: "counts (print_value fp al depth fmt c m) m (\<lambda>_ _. True)" for m using Cons.prems by simp
  have rest: "counts (print_members fp al depth fmt cs m) m (\<lambda>_ _. True)" for m using Cons by simp
  show ?case
    by (auto split: option.split prod.split sum.split
      dest!: le [OF _ counts_string_ptr] le [OF _ val] le [OF _ rest])
qed simp

lemma counts_print: "counts (print_value fp al depth fmt t n) n (\<lambda>_ _. True)"
proof (induction t arbitrary: depth n)
  case (CJ item cs)
  have items: "counts (print_items fp al (depth + 1) fmt cs m) m (\<lambda>_ _. True)" "counts (print_members fp al (depth + 1) fmt cs m) m (\<lambda>_ _. True)" for m
    using CJ by (simp_all add: counts_print_items counts_print_members)
  show ?case
    using items
    by (auto simp: cJSON_strdup_def print_int_def print_double_def print_string_def counts_string_ptr Let_def j_write_def
      intro!: counts_true_bind counts_true_malloc split: jtype.split option.split)
qed

section \<open>The methods\<close>

definition keeps_ids :: "('d, 'a) jmethod \<Rightarrow> bool" where
  "keeps_ids f \<longleftrightarrow> (\<forall>ob w r ob' w'. ids_ok w \<longrightarrow> f ob w = Some (r, ob', w') \<longrightarrow> grows w w')"

lemma keeps_idsI: "(\<And>ob w r ob' w'. ids_ok w \<Longrightarrow> f ob w = Some (r, ob', w') \<Longrightarrow> grows w w') \<Longrightarrow> keeps_ids f"
  by (auto simp: keeps_ids_def)

lemma keeps_idsD: "keeps_ids f \<Longrightarrow> ids_ok w \<Longrightarrow> f ob w = Some (r, ob', w') \<Longrightarrow> grows w w'"
  by (auto simp: keeps_ids_def)

definition creates_new :: "(nat \<Rightarrow> 'd cjson jres) \<Rightarrow> bool" where
  "creates_new create \<longleftrightarrow> (\<forall>n. counts (create n) n (\<lambda>t m. new_ids (cJSON_Delete t) n m))"

lemma creates_newD: "creates_new create \<Longrightarrow> create n = Some (r, m) \<Longrightarrow> n \<le> m \<and> (\<forall>t. r = Inr t \<longrightarrow> new_ids (cJSON_Delete t) n m)"
  unfolding creates_new_def by (drule spec [of _ n]) (cases r; auto)

lemma creates_new [simp]:
  "creates_new (cJSON_CreateObject fp al)" "creates_new (cJSON_CreateArray fp al)" "creates_new (cJSON_CreateBool fp al b)"
  "creates_new (cJSON_CreateInt fp al v sg)" "creates_new (cJSON_CreateDouble fp al d sg)" "creates_new (cJSON_CreateString fp al s)"
  "creates_new (cJSON_Parse fp al s)"
  by (simp_all add: creates_new_def cJSON_CreateObject_def cJSON_CreateArray_def cJSON_CreateBool_def cJSON_CreateInt_def
    cJSON_CreateDouble_def cJSON_CreateString_def create_type_def cJSON_New_Item_def j_malloc_def dup_ptr_def counts_parse
    split: option.split)

lemma ToString_counts: "ToString fp al ob w = Some (s, w') \<Longrightarrow> \<exists>n. w' = w\<lparr>jw_n := n\<rparr> \<and> jw_n w \<le> n"
proof (cases "GetJsonData ob")
  case (Some i)
  assume "ToString fp al ob w = Some (s, w')"
  then obtain t r n where t: "print_value fp al 0 False t (jw_n w) = Some (r, n)" "w' = w\<lparr>jw_n := n\<rparr>"
    using Some by (auto simp: ToString_def print_object_def cJSON_PrintUnformatted_def bind_eq_Some_conv)
  have "jw_n w \<le> n" using counts_print [of fp al 0 False t "jw_n w"] t(1) by (cases r) auto
  then show ?thesis using t(2) by blast
next
  case None
  assume "ToString fp al ob w = Some (s, w')"
  then have "w' = w\<lparr>jw_n := jw_n w\<rparr>" using None by (simp add: ToString_def print_object_def)
  then show ?thesis by blast
qed

lemma focus_grows: "creates_new create \<Longrightarrow> ids_ok w \<Longrightarrow> focus_or_create create ob w = Some (focus, ob', w') \<Longrightarrow> grows w w'"
  by (auto simp: focus_or_create_def split: option.splits sum.splits dest!: creates_newD intro!: grows_count grows_new)

lemma keeps_on_type: "(\<And>i. keeps_ids (f i)) \<Longrightarrow> keeps_ids (on_type ty msg focus f)"
  by (rule keeps_idsI) (auto simp: on_type_def bind_eq_Some_conv split: option.splits if_splits dest: keeps_idsD)

lemma keeps_then_do:
  "keeps_ids f \<Longrightarrow> (\<And>ob w. ids_ok w \<Longrightarrow> grows w (snd (after ob w))) \<Longrightarrow> keeps_ids (then_do after f)"
proof (rule keeps_idsI)
  fix ob r ob' and w w' :: "'a jworld"
  assume f: "keeps_ids f" and after: "\<And>ob w. ids_ok w \<Longrightarrow> grows w (snd (after ob w))" and w: "ids_ok w"
    and "then_do after f ob w = Some (r, ob', w')"
  moreover obtain ok ob1 w1 where r: "f ob w = Some (ok, ob1, w1)"
    using calculation(4) by (cases "f ob w") (auto simp: then_do_def)
  ultimately have r': "(if ok then (ok, after ob1 w1) else (ok, ob1, w1)) = (r, ob', w')" by (simp add: then_do_def)
  have w1: "grows w w1" using keeps_idsD [OF f w r] .
  then have "grows w1 (snd (after ob1 w1))" using after grows_ids_ok by blast
  then show "grows w w'" using r' w1 grows_trans by (cases ok) auto
qed

section \<open>The operations\<close>

lemma ids_add [simp]:
  "mset (cJSON_Delete (cJSON_AddItemToArray t c)) = mset (cJSON_Delete t) + mset (cJSON_Delete c)"
  "mset (cJSON_Delete (cJSON_AddItemToArrayHead t c)) = mset (cJSON_Delete t) + mset (cJSON_Delete c)"
  by (simp_all add: cJSON_AddItemToArray_def cJSON_AddItemToArrayHead_def Delete_node)

lemma ids_named [simp]: "cJSON_Delete (named_item name c) = cJSON_Delete c"
  by (simp add: named_item_def Delete_node)

lemma forest_ids_nth:
  assumes "i < length cs"
  shows "mset (forest_ids cs) = mset (forest_ids (take i cs)) + mset (cJSON_Delete (cs ! i)) + mset (forest_ids (drop (Suc i) cs))"
proof -
  have "mset (forest_ids cs) = mset (forest_ids (take i cs @ cs ! i # drop (Suc i) cs))" using id_take_nth_drop [OF assms] by simp
  then show ?thesis by simp
qed

lemma ids_replace: "mset (cJSON_Delete (fst (cJSON_ReplaceItemInArray t k c))) \<subseteq># mset (cJSON_Delete t) + mset (cJSON_Delete c)"
proof (cases "nat k < length (cj_child t)")
  case True
  have "mset (forest_ids ((cj_child t)[nat k := c])) = mset (forest_ids (take (nat k) (cj_child t))) + mset (cJSON_Delete c) + mset (forest_ids (drop (Suc (nat k)) (cj_child t)))"
    using True by (simp add: upd_conv_take_nth_drop)
  then show ?thesis using forest_ids_nth [OF True] True
    by (simp add: cJSON_ReplaceItemInArray_def Let_def Delete_node)
qed (simp add: cJSON_ReplaceItemInArray_def Let_def)

lemma ids_detach: "mset (cJSON_Delete (snd (cJSON_DetachItemFromArray t k))) \<subseteq># mset (cJSON_Delete t)"
  using forest_ids_nth [of "nat k" "cj_child t"] by (simp add: cJSON_DetachItemFromArray_def Let_def Delete_node)

lemma ids_detached: "cJSON_DetachItemFromArray t k = (c, t') \<Longrightarrow> mset (cJSON_Delete t') \<subseteq># mset (cJSON_Delete t)"
  by (metis ids_detach snd_conv)

lemma put_at_counter: "put_at i t (w\<lparr>jw_n := n\<rparr>) = (put_at i t w)\<lparr>jw_n := n\<rparr>" "jw_n (put_at i t w) = jw_n w"
  by (simp_all add: put_at_def)

lemma keeps_add_child_key:
  assumes "ids_ok w" and "spare (cJSON_Delete item) w" and "add_child_key al key i item ob w = Some (r, ob', w')"
  shows "grows_by (cJSON_Delete item) w w'"
proof -
  obtain t name where t: "item_at w i = Some t" "w' = put_at i (cJSON_AddItemToArray t (named_item name item)) (w\<lparr>jw_n := Suc (jw_n w)\<rparr>)"
    using assms(3) by (auto simp: add_child_key_def cJSON_AddItemToObject_def dup_ptr_def Let_def bind_eq_Some_conv)
  have "grows_by (cJSON_Delete item) w (put_at i (cJSON_AddItemToArray t (named_item name item)) w)"
    by (rule grows_put [OF assms(1) t(1) assms(2)]) simp
  then show ?thesis using t(2) by (simp add: put_at_counter grows_counter)
qed

lemma keeps_replace_child_key:
  assumes "ids_ok w" and "spare (cJSON_Delete item) w" and "replace_child_key al key i item ob w = Some (r, ob', w')"
  shows "grows_by (cJSON_Delete item) w w'"
proof -
  obtain t where t: "item_at w i = Some t"
    and w': "w' = (let (t, _, n) = cJSON_ReplaceItemInObject al t (c_str key) item (jw_n w) in put_at i t (w\<lparr>jw_n := n\<rparr>))"
    using assms(3) by (auto simp: replace_child_key_def bind_eq_Some_conv split_def Let_def)
  show ?thesis
  proof (cases "key_index (c_str key) (cj_child t)")
    case None
    have "grows_by (cJSON_Delete item) w (put_at i t w)" by (rule grows_put [OF assms(1) t assms(2)]) simp
    then show ?thesis using None w' by (simp add: cJSON_ReplaceItemInObject_def)
  next
    case (Some j)
    define name where "name = fst (dup_ptr al (c_str key) (jw_n w))"
    have "grows_by (cJSON_Delete item) w (put_at i (fst (cJSON_ReplaceItemInArray t (int j) (named_item name item))) w)"
      by (rule grows_put [OF assms(1) t assms(2)]) (use ids_replace [of t "int j" "named_item name item"] in simp)
    then show ?thesis using Some w'
      by (simp add: cJSON_ReplaceItemInObject_def name_def dup_ptr_def split_def Let_def put_at_counter grows_counter)
  qed
qed

lemma keeps_add_child:
  assumes "add = cJSON_AddItemToArray \<or> add = cJSON_AddItemToArrayHead"
    and "ids_ok w" and "spare (cJSON_Delete item) w" and "add_child add i item ob w = Some (r, ob', w')"
  shows "grows_by (cJSON_Delete item) w w'"
proof -
  obtain t where t: "item_at w i = Some t" "w' = put_at i (add t item) w"
    using assms(4) by (auto simp: add_child_def bind_eq_Some_conv Let_def)
  show ?thesis unfolding t(2) by (rule grows_put [OF assms(2) t(1) assms(3)]) (use assms(1) in auto)
qed

lemma keeps_replace_child_at:
  assumes "ids_ok w" and "spare (cJSON_Delete item) w" and "replace_child_at k i item ob w = Some (r, ob', w')"
  shows "grows_by (cJSON_Delete item) w w'"
proof -
  obtain t where t: "item_at w i = Some t" "w' = put_at i (fst (cJSON_ReplaceItemInArray t (sint k) item)) w"
    using assms(3) by (auto simp: replace_child_at_def bind_eq_Some_conv split_def Let_def)
  show ?thesis unfolding t(2) by (rule grows_put [OF assms(1) t(1) assms(2)]) (rule ids_replace)
qed

lemma keeps_focus:
  assumes "creates_new create" and "\<And>focus. keeps_ids (f focus)"
  shows "keeps_ids (\<lambda>ob w. do { (focus, ob, w) \<leftarrow> focus_or_create create ob w; f focus ob w })"
proof (rule keeps_idsI)
  fix ob r ob' w w'
  assume w: "ids_ok w" "do { (focus, ob, w) \<leftarrow> focus_or_create create ob w; f focus ob w } = Some (r, ob', w')"
  then obtain focus ob1 w1 where f: "focus_or_create create ob w = Some (focus, ob1, w1)" "f focus ob1 w1 = Some (r, ob', w')"
    by (auto simp: bind_eq_Some_conv)
  have w1: "grows w w1" by (rule focus_grows [OF assms(1) w(1) f(1)])
  show "grows w w'" by (rule grows_trans [OF w1 keeps_idsD [OF assms(2) grows_ids_ok [OF w1] f(2)]])
qed

text \<open>
  The interface between the methods and what makes their items: a maker keeps the trees and returns a new
  item. Whatever the maker, each group of methods then keeps the identities distinct.
\<close>

locale item_maker =
  fixes mk :: "'d maker"
  assumes made: "mk w = Some (r, w') \<Longrightarrow>
    jw_trees w' = jw_trees w \<and> jw_n w \<le> jw_n w' \<and> (\<forall>item. r = Inr item \<longrightarrow> new_ids (cJSON_Delete item) (jw_n w) (jw_n w'))"
begin

lemma keeps_with_item:
  assumes "\<And>item ob w r ob' w'. ids_ok w \<Longrightarrow> spare (cJSON_Delete item) w \<Longrightarrow> f item ob w = Some (r, ob', w')
    \<Longrightarrow> grows_by (cJSON_Delete item) w w'"
  shows "keeps_ids (with_item mk fail f)"
proof (rule keeps_idsI)
  fix ob r ob' and w w' :: "'d jworld"
  assume w: "ids_ok w" and "with_item mk fail f ob w = Some (r, ob', w')"
  then obtain v w1 where v: "mk w = Some (v, w1)"
    "(case v of Inl e \<Rightarrow> do { ob \<leftarrow> fail e ob; Some (False, ob, w1) } | Inr item \<Rightarrow> f item ob w1) = Some (r, ob', w')"
    by (auto simp: with_item_def bind_eq_Some_conv)
  note m = made [OF v(1)]
  have w1: "w1 = w\<lparr>jw_n := jw_n w1\<rparr>" using m by simp
  have grown: "grows w w1" by (subst w1, rule grows_count [OF w]) (use m in simp)
  show "grows w w'"
  proof (cases v)
    case (Inr item)
    have new: "new_ids (cJSON_Delete item) (jw_n w) (jw_n w1)" using m Inr by simp
    have "spare (cJSON_Delete item) w1" using new_ids_spare [OF w new] w1 by simp
    then have "grows_by (cJSON_Delete item) w1 w'" using assms [OF grows_ids_ok [OF grown]] v(2) Inr by simp
    then show ?thesis using grows_new_item [OF new] m by blast
  qed (use v(2) grown in \<open>auto simp: bind_eq_Some_conv\<close>)
qed

lemma keeps_add_key: "keeps_ids (add_key fp al mk fail key)"
  unfolding add_key_def [abs_def]
  by (intro keeps_focus keeps_on_type keeps_with_item) (auto intro: keeps_add_child_key)

lemma keeps_replace_key: "keeps_ids (replace_key al mk fail key)"
proof (rule keeps_idsI)
  fix ob r ob' and w w' :: "'d jworld"
  assume w: "ids_ok w" "replace_key al mk fail key ob w = Some (r, ob', w')"
  have "keeps_ids (on_type J_Object not_an_object (GetJsonData ob) (\<lambda>i. with_item mk fail (replace_child_key al key i)))"
    by (intro keeps_on_type keeps_with_item) (auto intro: keeps_replace_child_key)
  then show "grows w w'" using w(1) w(2) [unfolded replace_key_def] by (rule keeps_idsD)
qed

lemma keeps_add_item:
  "keeps_ids (add_item fp al cJSON_AddItemToArray mk fail)"
  "keeps_ids (add_item fp al cJSON_AddItemToArrayHead mk fail)"
  unfolding add_item_def [abs_def]
  by (intro keeps_focus keeps_on_type keeps_with_item; auto intro: keeps_add_child)+

lemma keeps_replace_at: "keeps_ids (replace_at mk fail k)"
proof (rule keeps_idsI)
  fix ob r ob' and w w' :: "'d jworld"
  assume w: "ids_ok w" "replace_at mk fail k ob w = Some (r, ob', w')"
  have "keeps_ids (on_type J_Array not_an_array (GetJsonData ob) (\<lambda>i. with_item mk fail (replace_child_at k i)))"
    by (intro keeps_on_type keeps_with_item) (auto intro: keeps_replace_child_at)
  then show "grows w w'" using w(1) w(2) [unfolded replace_at_def] by (rule keeps_idsD)
qed

lemmas keeps = keeps_add_key keeps_replace_key keeps_add_item keeps_replace_at

end

text \<open>The makers of the code: the functions that create an item, and the copy of another handle's tree.\<close>

lemma item_maker_make: "creates_new create \<Longrightarrow> item_maker (make create)"
  unfolding make_def
  by unfold_locales (auto split: option.splits dest!: creates_newD)

interpretation string_maker: item_maker "make (cJSON_CreateString fp al s)" for fp al s
  by (rule item_maker_make) simp

interpretation int_maker: item_maker "make (cJSON_CreateInt fp al v sg)" for fp al v sg
  by (rule item_maker_make) simp

interpretation bool_maker: item_maker "make (cJSON_CreateBool fp al b)" for fp al b
  by (rule item_maker_make) simp

interpretation double_maker: item_maker "make (cJSON_CreateDouble fp al d sg)" for fp al d sg
  by (rule item_maker_make) simp

interpretation object_maker: item_maker "make (cJSON_CreateObject fp al)" for fp al
  by (rule item_maker_make) simp

interpretation array_maker: item_maker "make (cJSON_CreateArray fp al)" for fp al
  by (rule item_maker_make) simp

interpretation parse_maker: item_maker "make (cJSON_Parse fp al s)" for fp al s
  by (rule item_maker_make) simp

interpretation copy_maker: item_maker "make_copy fp al ob" for fp al ob
proof
  fix r and w w' :: "'a jworld"
  assume mk: "make_copy fp al ob w = Some (r, w')"
  obtain s w1 where s: "ToString fp al ob w = Some (s, w1)" "make (cJSON_Parse fp al (c_str s)) w1 = Some (r, w')"
    using mk by (auto simp: make_copy_def bind_eq_Some_conv)
  obtain n where n: "w1 = w\<lparr>jw_n := n\<rparr>" "jw_n w \<le> n" using ToString_counts [OF s(1)] by blast
  show "jw_trees w' = jw_trees w \<and> jw_n w \<le> jw_n w' \<and> (\<forall>item. r = Inr item \<longrightarrow> new_ids (cJSON_Delete item) (jw_n w) (jw_n w'))"
    using parse_maker.made [OF s(2)] n by (fastforce simp: new_ids_def)
qed

lemma keeps_add_empty:
  assumes "item_maker (make create)"
  shows "keeps_ids (add_empty fp al create msg key)"
  unfolding add_empty_def [abs_def]
  by (intro keeps_focus keeps_on_type item_maker.keeps_with_item [OF assms]) (auto simp: bind_eq_Some_conv intro: keeps_add_child_key)

lemma spare_Nil [simp]: "spare [] w"
  by (simp add: spare_def)

lemma keeps_Delete_key: "keeps_ids (Delete_key key)"
proof (rule keeps_idsI)
  fix ob r ob' and w w' :: "'a jworld"
  assume w: "ids_ok w" "Delete_key key ob w = Some (r, ob', w')"
  let ?f = "\<lambda>i ob (w :: 'a jworld). do { t \<leftarrow> item_at w i; let (t, _) = cJSON_DeleteItemFromObject t (c_str key); Some (True, erase_object_ref key ob (put_at i t w)) }"
  have "keeps_ids (?f i)" for i
  proof (rule keeps_idsI)
    fix ob r ob' and w w' :: "'a jworld"
    assume w: "ids_ok w" "?f i ob w = Some (r, ob', w')"
    then obtain t where t: "item_at w i = Some t" "(ob', w') = erase_object_ref key ob (put_at i (fst (cJSON_DeleteItemFromObject t (c_str key))) w)"
      by (auto simp: bind_eq_Some_conv split_def Let_def)
    have put: "grows w (put_at i (fst (cJSON_DeleteItemFromObject t (c_str key))) w)"
      by (rule grows_put [OF w(1) t(1) spare_Nil]) (auto simp: cJSON_DeleteItemFromObject_def cJSON_DetachItemFromObject_def split: option.split prod.split dest: ids_detached)
    have "grows (put_at i (fst (cJSON_DeleteItemFromObject t (c_str key))) w) w'"
      using grows_erase(1) [OF grows_ids_ok [OF put], of key ob] unfolding t(2) [symmetric] by simp
    then show "grows w w'" by (rule grows_trans [OF put])
  qed
  then have "keeps_ids (on_type J_Object not_an_object (GetJsonData ob) ?f)" by (rule keeps_on_type)
  then show "grows w w'" using w(1) w(2) [unfolded Delete_key_def] by (rule keeps_idsD)
qed

lemma keeps_Delete_at: "keeps_ids (Delete_at k)"
proof (rule keeps_idsI)
  fix ob r ob' and w w' :: "'a jworld"
  assume w: "ids_ok w" "Delete_at k ob w = Some (r, ob', w')"
  let ?f = "\<lambda>i ob (w :: 'a jworld). do { t \<leftarrow> item_at w i; let (t, _) = cJSON_DeleteItemFromArray t (sint k); Some (True, erase_array_refs (\<lambda>j. k \<le> j) ob (put_at i t w)) }"
  have "keeps_ids (?f i)" for i
  proof (rule keeps_idsI)
    fix ob r ob' and w w' :: "'a jworld"
    assume w: "ids_ok w" "?f i ob w = Some (r, ob', w')"
    then obtain t where t: "item_at w i = Some t" "(ob', w') = erase_array_refs (\<lambda>j. k \<le> j) ob (put_at i (fst (cJSON_DeleteItemFromArray t (sint k))) w)"
      by (auto simp: bind_eq_Some_conv split_def Let_def)
    have put: "grows w (put_at i (fst (cJSON_DeleteItemFromArray t (sint k))) w)"
      by (rule grows_put [OF w(1) t(1) spare_Nil]) (auto simp: cJSON_DeleteItemFromArray_def split: option.split prod.split dest: ids_detached)
    have "grows (put_at i (fst (cJSON_DeleteItemFromArray t (sint k))) w) w'"
      using grows_erase(2) [OF grows_ids_ok [OF put], of "\<lambda>j. k \<le> j" ob] unfolding t(2) [symmetric] by simp
    then show "grows w w'" by (rule grows_trans [OF put])
  qed
  then have "keeps_ids (on_type J_Array not_an_array (GetJsonData ob) ?f)" by (rule keeps_on_type)
  then show "grows w w'" using w(1) w(2) [unfolded Delete_at_def] by (rule keeps_idsD)
qed

lemma keeps_Parse: "keeps_ids (Parse fp al s)"
proof (rule keeps_idsI)
  fix ob r ob' and w w' :: "'a jworld"
  assume w: "ids_ok w" "Parse fp al s ob w = Some (r, ob', w')"
  have c: "grows w (snd (Clear ob w))" using w(1) by (simp add: Clear_def grows_delete)
  note n = creates_newD [OF creates_new(7)] and t = grows_trans [OF c grows_new [OF grows_ids_ok [OF c]]]
  show "grows w w'" using w(2) c
    by (auto simp: Parse_def split_def Let_def bind_eq_Some_conv split: option.splits sum.splits dest!: n intro: grows_counter t)
qed

lemma keeps_Load: "keeps_ids (Load fp al file)"
  by (rule keeps_idsI) (auto simp: Load_def split: option.splits dest: keeps_idsD [OF keeps_Parse])

text \<open>The handle of a child comes from the cache or is made there, without a change of the trees.\<close>

lemma index_key_world: "index_key k ob w = Some (c, ob', w') \<Longrightarrow> w' = w"
  by (auto simp: index_key_def Get_ref_def bind_eq_Some_conv Let_def split: option.splits)

lemma index_at_world: "index_at i ob w = Some (c, ob', w') \<Longrightarrow> w' = w"
  by (auto simp: index_at_def bind_eq_Some_conv Let_def split: option.splits)

lemma keeps_through: "keeps_ids f \<Longrightarrow> keeps_ids (through_key k f)" "keeps_ids f \<Longrightarrow> keeps_ids (through_at i f)"
  by (rule keeps_idsI; auto simp: through_key_def through_at_def bind_eq_Some_conv dest!: index_key_world index_at_world dest: keeps_idsD)+

text \<open>The methods that change a tree, each overload with its arguments, and through the handles of children.\<close>

inductive object_method :: "'d fpu \<Rightarrow> (nat \<Rightarrow> bool) \<Rightarrow> ('d, bool) jmethod \<Rightarrow> bool" where
  "object_method fp al (Add_key_object fp al k c)"
| "object_method fp al (Add_key_string fp al k s)"
| "object_method fp al (Add_key_int32 fp al k n)"
| "object_method fp al (Add_key_uint32 fp al k n)"
| "object_method fp al (Add_key_int64 fp al k l)"
| "object_method fp al (Add_key_uint64 fp al k l)"
| "object_method fp al (Add_key_bool fp al k b)"
| "object_method fp al (Add_key_float fp al k d)"
| "object_method fp al (Add_key_double fp al k d)"
| "object_method fp al (Replace_key_object fp al k c)"
| "object_method fp al (Replace_key_string fp al k s)"
| "object_method fp al (Replace_key_int32 fp al k n)"
| "object_method fp al (Replace_key_uint32 fp al k n)"
| "object_method fp al (Replace_key_int64 fp al k l)"
| "object_method fp al (Replace_key_uint64 fp al k l)"
| "object_method fp al (Replace_key_bool fp al k b)"
| "object_method fp al (Replace_key_float fp al k d)"
| "object_method fp al (Replace_key_double fp al k d)"
| "object_method fp al (Add_object fp al c)"
| "object_method fp al (Add_string fp al s)"
| "object_method fp al (Add_int32 fp al n)"
| "object_method fp al (Add_uint32 fp al n)"
| "object_method fp al (Add_int64 fp al l)"
| "object_method fp al (Add_uint64 fp al l)"
| "object_method fp al (Add_bool fp al b)"
| "object_method fp al (Add_float fp al d)"
| "object_method fp al (Add_double fp al d)"
| "object_method fp al (AddAsFirst_object fp al c)"
| "object_method fp al (AddAsFirst_string fp al s)"
| "object_method fp al (AddAsFirst_int32 fp al n)"
| "object_method fp al (AddAsFirst_uint32 fp al n)"
| "object_method fp al (AddAsFirst_int64 fp al l)"
| "object_method fp al (AddAsFirst_uint64 fp al l)"
| "object_method fp al (AddAsFirst_bool fp al b)"
| "object_method fp al (AddAsFirst_float fp al d)"
| "object_method fp al (AddAsFirst_double fp al d)"
| "object_method fp al (Replace_at_object fp al i c)"
| "object_method fp al (Replace_at_string fp al i s)"
| "object_method fp al (Replace_at_int32 fp al i n)"
| "object_method fp al (Replace_at_uint32 fp al i n)"
| "object_method fp al (Replace_at_int64 fp al i l)"
| "object_method fp al (Replace_at_uint64 fp al i l)"
| "object_method fp al (Replace_at_bool fp al i b)"
| "object_method fp al (Replace_at_float fp al i d)"
| "object_method fp al (Replace_at_double fp al i d)"
| "object_method fp al (AddEmptySubObject fp al k)"
| "object_method fp al (AddEmptySubArray fp al k)"
| "object_method fp al (Delete_key k)"
| "object_method fp al (Delete_at i)"
| "object_method fp al (Parse fp al s)"
| "object_method fp al (Load fp al file)"
| "object_method fp al f \<Longrightarrow> object_method fp al (through_key k f)"
| "object_method fp al f \<Longrightarrow> object_method fp al (through_at i f)"

lemma keeps_method:
  assumes "object_method fp al f"
  shows "keeps_ids f"
proof -
  note defs = Add_key_object_def Add_key_string_def Add_key_int32_def Add_key_uint32_def Add_key_int64_def Add_key_uint64_def Add_key_bool_def
    Add_key_float_def Add_key_double_def Replace_key_object_def Replace_key_string_def Replace_key_int32_def Replace_key_uint32_def
    Replace_key_int64_def Replace_key_uint64_def Replace_key_bool_def Replace_key_float_def Replace_key_double_def Add_object_def
    Add_string_def Add_int32_def Add_uint32_def Add_int64_def Add_uint64_def Add_bool_def Add_float_def Add_double_def
    AddAsFirst_object_def AddAsFirst_string_def AddAsFirst_int32_def AddAsFirst_uint32_def AddAsFirst_int64_def AddAsFirst_uint64_def
    AddAsFirst_bool_def AddAsFirst_float_def AddAsFirst_double_def Replace_at_object_def Replace_at_string_def Replace_at_int32_def
    Replace_at_uint32_def Replace_at_int64_def Replace_at_uint64_def Replace_at_bool_def Replace_at_float_def Replace_at_double_def
    AddEmptySubObject_def AddEmptySubArray_def
  show ?thesis
    using assms
    by (induction rule: object_method.induct)
      (simp_all add: defs [abs_def] keeps_through keeps_Parse keeps_Load keeps_Delete_key keeps_Delete_at grows_erase keeps_then_do
        string_maker.keeps int_maker.keeps bool_maker.keeps double_maker.keeps copy_maker.keeps
        keeps_add_empty [OF object_maker.item_maker_axioms] keeps_add_empty [OF array_maker.item_maker_axioms])
qed

text \<open>
  What happens to the trees: calls of methods, each on some handle; the end of a handle; and a copy of a handle.
\<close>

inductive object_run :: "'d fpu \<Rightarrow> (nat \<Rightarrow> bool) \<Rightarrow> 'd jworld \<Rightarrow> 'd jworld \<Rightarrow> bool" for fp al w where
  start: "object_run fp al w w"
| call: "object_run fp al w w1 \<Longrightarrow> object_method fp al f \<Longrightarrow> f ob w1 = Some (r, ob', w2) \<Longrightarrow> object_run fp al w w2"
| destroy: "object_run fp al w w1 \<Longrightarrow> object_run fp al w (delete_object ob w1)"
| copy: "object_run fp al w w1 \<Longrightarrow> construct_copy fp al ob w1 = Some (ob', w2) \<Longrightarrow> object_run fp al w w2"

lemma copy_grows: "ids_ok w \<Longrightarrow> construct_copy fp al ob w = Some (ob', w') \<Longrightarrow> grows w w'"
proof -
  assume w: "ids_ok w" and "construct_copy fp al ob w = Some (ob', w')"
  then obtain s w1 r where s: "ToString fp al ob w = Some (s, w1)" "Parse fp al s new_object w1 = Some (r, ob', w')"
    by (auto simp: construct_copy_def construct_from_string_def bind_eq_Some_conv)
  obtain n where "w1 = w\<lparr>jw_n := n\<rparr>" "jw_n w \<le> n" using ToString_counts [OF s(1)] by blast
  then have w1: "grows w w1" using grows_count [OF w] by simp
  show "grows w w'" by (rule grows_trans [OF w1 keeps_idsD [OF keeps_Parse grows_ids_ok [OF w1] s(2)]])
qed

lemma run_grows: "object_run fp al w w' \<Longrightarrow> ids_ok w \<Longrightarrow> grows w w'"
proof (induction rule: object_run.induct)
  case (call w1 f ob r ob' w2)
  then show ?case using grows_trans keeps_idsD [OF keeps_method grows_ids_ok] by blast
next
  case (destroy w1 ob)
  then show ?case using grows_trans grows_delete grows_ids_ok by blast
next
  case (copy w1 ob ob' w2)
  then show ?case using grows_trans copy_grows grows_ids_ok by blast
qed simp

text \<open>
  C14. No item is in two places, and what is gone stays gone. Take any run of methods that parse, add, replace or
  delete, each overload of them, called on a handle or through the handles \<open>a["x"][3]\<close> of its children, of
  destructors and of copies, whatever the calls of \<open>malloc\<close> answer. All items of all trees are different
  allocations, made before; and an allocation that was made before the run and was in no tree then, as an item
  that was freed, is in no tree after it: a stale handle never finds another item under its identity. (An
  identity is a count of allocations; that \<open>malloc\<close> may give out the address of a freed item again is not modelled.)
\<close>

theorem json_items_stay_distinct:
  assumes "object_run fp al w w'" and "ids_ok w"
  shows "ids_ok w' \<and> jw_n w \<le> jw_n w' \<and> (\<forall>i < jw_n w. item_at w i = None \<longrightarrow> item_at w' i = None)"
  using run_grows [OF assms] unfolding grows_by_def item_at_none by auto

text \<open>An object with the integer 7 under the key \<open>a\<close>, and a handle on it.\<close>

definition sample_world :: "'d fpu \<Rightarrow> 'd jworld" where
  "sample_world fp =
     \<lparr>jw_trees = [CJ ((zero_node fp 0)\<lparr>jn_type := J_Object\<rparr>)
                   [CJ ((zero_node fp 1)\<lparr>jn_type := J_Int, jn_int := 7, jn_name := Some ''a''\<rparr>) []]],
      jw_n = 2\<rparr>"

definition sample_handle :: cjson_object where
  "sample_handle = JObj (Some 0) None [] [] []"

text \<open>The integer is replaced, which frees the item 1, and then the new value is deleted.\<close>

theorem json_items_stay_distinct_witness:
  "\<forall>fp :: int fpu. \<exists>ob1 w1 w2. Replace_key_int32 fp (\<lambda>_. True) ''A'' 5 sample_handle (sample_world fp) = Some (True, ob1, w1)
    \<and> Delete_key ''A'' ob1 w1 = Some (True, ob1, w2) \<and> item_at w1 1 = None \<and> ids_ok w1 \<and> ids_ok w2 \<and> item_at w2 1 = None"
proof
  fix fp :: "int fpu"
  let ?al = "\<lambda>_. True"
  have ok: "ids_ok (sample_world fp)" by (simp add: ids_ok_def sample_world_def)
  have same: "cJSON_strcasecmp (Some ''a'') ''A''" "cJSON_strcasecmp (Some ''A'') ''A''" by code_simp+
  note defs = Replace_key_int32_def replace_key_def on_type_def sample_handle_def sample_world_def GetJsonData_def item_at_def
      zero_node_def with_item_def make_def cJSON_CreateInt_def cJSON_New_Item_def j_malloc_def replace_child_key_def
      cJSON_ReplaceItemInObject_def cJSON_ReplaceItemInArray_def c_str_def named_item_def dup_ptr_def cJSON_GetObjectItem_def
      Delete_key_def cJSON_DeleteItemFromObject_def cJSON_DetachItemFromObject_def cJSON_DetachItemFromArray_def
      erase_object_ref_def put_at_def
  obtain ob1 w1 w2 where r: "Replace_key_int32 fp ?al ''A'' 5 sample_handle (sample_world fp) = Some (True, ob1, w1)"
    "Delete_key ''A'' ob1 w1 = Some (True, ob1, w2)" "item_at w1 1 = None" "jw_n w1 = 4"
    by (simp add: same defs)
  have m: "object_method fp ?al (Replace_key_int32 fp ?al ''A'' 5)" "object_method fp ?al (Delete_key ''A'')" by (rule object_method.intros)+
  have run: "object_run fp ?al (sample_world fp) w1" "object_run fp ?al w1 w2"
    by (rule object_run.call [where f = "Replace_key_int32 fp ?al ''A'' 5", OF object_run.start m(1) r(1)],
      rule object_run.call [where f = "Delete_key ''A''", OF object_run.start m(2) r(2)])
  from json_items_stay_distinct [OF run(1) ok] have w1: "ids_ok w1" by blast
  from json_items_stay_distinct [OF run(2) w1] have "ids_ok w2" "item_at w2 1 = None" using r(3,4) by auto
  then show "\<exists>ob1 w1 w2. Replace_key_int32 fp ?al ''A'' 5 sample_handle (sample_world fp) = Some (True, ob1, w1)
    \<and> Delete_key ''A'' ob1 w1 = Some (True, ob1, w2) \<and> item_at w1 1 = None \<and> ids_ok w1 \<and> ids_ok w2 \<and> item_at w2 1 = None"
    using r w1 by blast
qed

end
