(* ===== verification/Json_Object_Props.thy ===== *)
theory Json_Object_Props
  imports Json_Memory Json_Roundtrip
begin

text \<open>
  What the handles of \<open>CJsonObject\<close> promise: a value that is added under a new key is read back at its width and leaves
  the other keys alone; adding frees nothing; a copy has the content of its original. And what they do not: a
  handle in the cache outlives the item that \<open>Replace\<close> frees.
\<close>

section \<open>Adding under a new key\<close>

lemma sample_item: "GetJsonData sample_handle = Some 0" "item_at (sample_world fp) 0 = Some (hd (jw_trees (sample_world fp)))"
  by (simp_all add: sample_handle_def GetJsonData_def sample_world_def item_at_def)

lemma sample_ok: "ids_ok (sample_world fp)"
  by (simp add: ids_ok_def sample_world_def)




lemma cj_child_add [simp]:
  "cj_child (cJSON_AddItemToArray t c) = cj_child t @ [c]" "cj_node (cJSON_AddItemToArray t c) = cj_node t"
  by (simp_all add: cJSON_AddItemToArray_def)

lemma cj_node_named [simp]: "cj_node (named_item name c) = (cj_node c)\<lparr>jn_name := name\<rparr>" "cj_child (named_item name c) = cj_child c"
  by (simp_all add: named_item_def)

lemma GetObjectItem_add:
  "cJSON_GetObjectItem (cJSON_AddItemToArray t c) k =
    (case cJSON_GetObjectItem t k of None \<Rightarrow> if key_eq k c then Some c else None | Some d \<Rightarrow> Some d)"
  by (simp add: GetObjectItem_key_eq find_append split: option.split)







lemmas creates = cJSON_CreateInt_def cJSON_CreateBool_def cJSON_CreateDouble_def cJSON_CreateString_def create_type_def
  dup_ptr_def as_int_def as_bool_def as_double_def as_string_def



text \<open>Under a key that is there already, \<open>Add\<close> reports success and the old value stays what is read.\<close>

lemma add_of_a_present_key_is_hidden:
  assumes "\<forall>n. al n" and "GetJsonData ob = Some i" and "item_at w i = Some t" and "jn_type (cj_node t) = J_Object"
    and "cJSON_GetObjectItem t (c_str key) = Some c"
  shows "\<exists>w'. Add_key_string fp al key s ob w = Some (True, ob, w') \<and> child_key key ob w' = Some (Some c)"
proof -
  let ?item = "CJ ((zero_node fp (jw_n w))\<lparr>jn_type := J_String, jn_str := Some (c_str s)\<rparr>) []"
  let ?t = "cJSON_AddItemToArray t (named_item (Some (c_str key)) ?item)" and ?n = "Suc (Suc (Suc (jw_n w)))"
  have "item_at (put_at i ?t (w\<lparr>jw_n := ?n\<rparr>)) i = Some ?t" using assms(3) item_at_id [OF assms(3)] by simp
  then have "child_key key ob (put_at i ?t (w\<lparr>jw_n := ?n\<rparr>)) = Some (Some c)"
    using assms(2,4,5) by (simp add: child_key_def GetObjectItem_add)
  moreover have "Add_key_string fp al key s ob w = Some (True, ob, put_at i ?t (w\<lparr>jw_n := ?n\<rparr>))"
    using assms by (simp add: Add_key_string_def add_key_def focus_or_create_def on_type_def with_item_def make_def creates
      new_item_granted [OF assms(1)] add_child_key_def cJSON_AddItemToObject_def GetObjectItem_add)
  ultimately show ?thesis by blast
qed

section \<open>Handles that outlive their items\<close>

lemma mset_absent: "mset xs + mset ys = mset zs + mset us \<Longrightarrow> distinct zs \<Longrightarrow> i \<in> set ys \<Longrightarrow> i \<notin> set us \<Longrightarrow> i \<notin> set xs"
proof
  assume m: "mset xs + mset ys = mset zs + mset us" and d: "distinct zs" and i: "i \<in> set ys" "i \<notin> set us" "i \<in> set xs"
  have "count (mset xs) i + count (mset ys) i = count (mset zs) i + count (mset us) i" using m by (metis count_union)
  moreover have "1 \<le> count (mset xs) i" "1 \<le> count (mset ys) i" "count (mset us) i = 0" using i by (simp_all add: Suc_le_eq)
  moreover have "count (mset zs) i \<le> 1" using d count_mset_0_iff [of zs i] by (cases "i \<in> set zs") (simp_all add: distinct_count_atmost_1)
  ultimately show False by simp
qed

lemma mset_exchange:
  fixes a b c :: "nat multiset"
  assumes "a + t = b + t'" and "t' + c = t + d"
  shows "a + c = b + d"
proof -
  have "a + c + t = (a + t) + c" by (simp add: add.commute add.left_commute)
  also have "\<dots> = b + (t' + c)" by (simp add: assms(1) add.assoc)
  also have "\<dots> = b + (t + d)" by (simp only: assms(2))
  also have "\<dots> = b + d + t" by (simp add: add.commute add.left_commute)
  finally show ?thesis by simp
qed

lemma find_in: "find P xs = Some x \<Longrightarrow> x \<in> set xs"
  by (induction xs) (auto split: if_splits)

lemma child_id: "c \<in> set (cj_child t) \<Longrightarrow> jn_id (cj_node c) \<in> set (cJSON_Delete t)"
  unfolding Delete_node [of t] forest_ids_def set_append set_concat set_map by (blast intro: id_in_ids)

lemma replaced_child:
  assumes "cJSON_GetObjectItem t key = Some c" and "al n"
  shows "\<exists>t' freed n'. cJSON_ReplaceItemInObject al t key item n = (t', freed, n') \<and> cJSON_GetObjectItem t' key \<noteq> None
    \<and> mset (cJSON_Delete t') + mset (cJSON_Delete c) = mset (cJSON_Delete t) + mset (cJSON_Delete item)"
proof -
  obtain j where j: "key_index key (cj_child t) = Some j" "j < length (cj_child t)" "cj_child t ! j = c"
    using assms(1) key_index_find [of key "cj_child t"] by (cases "key_index key (cj_child t)") (auto simp: GetObjectItem_key_eq)
  let ?item = "named_item (Some key) item"
  let ?t = "CJ (cj_node t) ((cj_child t)[j := ?item])"
  have "key_eq key ?item" "?item \<in> set (cj_child ?t)" using j(2) by (simp_all add: set_update_memI)
  then have "cJSON_GetObjectItem ?t key \<noteq> None" unfolding GetObjectItem_key_eq find_None_iff by blast
  moreover have "mset (cJSON_Delete ?t) + mset (cJSON_Delete c) = mset (cJSON_Delete t) + mset (cJSON_Delete item)"
    using forest_ids_nth [OF j(2)] j(2,3) by (simp add: Delete_node upd_conv_take_nth_drop)
  moreover have "cJSON_ReplaceItemInObject al t key item n = (?t, cJSON_Delete c, Suc n)"
    using j assms(2) by (simp add: cJSON_ReplaceItemInObject_def dup_ptr_def cJSON_ReplaceItemInArray_def)
  ultimately show ?thesis by blast
qed

lemma replace_frees:
  assumes "\<forall>n. al n" and "ids_ok w" and "GetJsonData ob = Some i" and "item_at w i = Some t" and "jn_type (cj_node t) = J_Object"
    and "cJSON_GetObjectItem t (c_str key) = Some c"
    and "\<And>n. \<exists>item n'. create n = Some (Inr item, n')" and "creates_new create"
  shows "\<exists>w'. replace_key al (make create) silent key ob w = Some (True, ob, w') \<and> item_at w' (jn_id (cj_node c)) = None"
proof -
  obtain item n where item: "create (jw_n w) = Some (Inr item, n)" using assms(7) by blast
  let ?w = "w\<lparr>jw_n := n\<rparr>"
  have new: "new_ids (cJSON_Delete item) (jw_n w) n" using creates_newD [OF assms(8) item] by blast
  then have w: "ids_ok ?w" by (intro ids_ok_counter assms(2)) (simp add: new_ids_def)
  have "al n" using assms(1) by blast
  from replaced_child [of t "c_str key" c al n item, OF assms(6) this] obtain t' freed n' where
    t': "cJSON_ReplaceItemInObject al t (c_str key) item n = (t', freed, n')" "cJSON_GetObjectItem t' (c_str key) \<noteq> None"
      "mset (cJSON_Delete t') + mset (cJSON_Delete c) = mset (cJSON_Delete t) + mset (cJSON_Delete item)" by blast
  let ?w' = "put_at i t' (w\<lparr>jw_n := n'\<rparr>)"
  have step: "replace_key al (make create) silent key ob w = Some (True, ob, ?w')"
    using assms(3-5) item t'(1,2) by (simp add: replace_key_def on_type_def with_item_def make_def replace_child_key_def)
  have c: "c \<in> set (cj_child t)" using find_in [OF assms(6) [unfolded GetObjectItem_key_eq]] .
  have "jn_id (cj_node c) \<in> set (cJSON_Delete t)" by (rule child_id [OF c])
  moreover have "set (cJSON_Delete t) \<subseteq> set (forest_ids (jw_trees w))"
    using find_id(2) [of i "jw_trees w" t] assms(4) by (simp add: item_at_def forest_ids_def)
  ultimately have old: "jn_id (cj_node c) \<in> set (forest_ids (jw_trees w))" by blast
  have "jn_id (cj_node c) < jw_n w" using old assms(2) by (simp add: ids_ok_def)
  moreover have "set (cJSON_Delete item) \<subseteq> {jw_n w..<n}" using new by (simp add: new_ids_def)
  ultimately have other: "jn_id (cj_node c) \<notin> set (cJSON_Delete item)" by (meson atLeastLessThan_iff leD subsetD)
  have "mset (forest_ids (jw_trees ?w')) + mset (cJSON_Delete t) = mset (forest_ids (jw_trees w)) + mset (cJSON_Delete t')"
    using put_at_ids [OF assms(4,2), of t'] by (simp add: put_at_def)
  then have "mset (forest_ids (jw_trees ?w')) + mset (cJSON_Delete c) = mset (forest_ids (jw_trees w)) + mset (cJSON_Delete item)"
    by (rule mset_exchange [OF _ t'(3)])
  moreover have "distinct (forest_ids (jw_trees w))" using assms(2) by (simp add: ids_ok_def)
  ultimately have "jn_id (cj_node c) \<notin> set (forest_ids (jw_trees ?w'))" by (rule mset_absent [OF _ _ id_in_ids other])
  then have "item_at ?w' (jn_id (cj_node c)) = None" by (simp only: item_at_none not_False_eq_True)
  then show ?thesis using step by blast
qed

lemma set_object_refs_simps [simp]:
  "GetJsonData (set_object_refs m ob) = GetJsonData ob" "m_mapJsonObjectRef (set_object_refs m ob) = m"
  by (simp_all add: GetJsonData_def set_object_refs_def split: option.split)

text \<open>
  C24. Using a value after it was freed. Reading a key with \<open>operator()\<close> leaves a handle of the item in the cache.
  Each overload of \<open>Replace\<close> for a string, a number or a truth value frees the item and keeps the handle
  (only those for an object drop it): when the key is read the next time, with \<open>ids_ok\<close> trees and memory
  granted, the freed item is used. (A floating point number that is out of range of \<open>uint64\<close> is undefined before.)
\<close>

theorem json_replace_leaves_stale_handle:
  assumes "\<forall>n. al n" and "ids_ok w" and "GetJsonData ob = Some i" and "item_at w i = Some t" and "jn_type (cj_node t) = J_Object"
    and "map_of (m_mapJsonObjectRef ob) key = None" and "cJSON_GetObjectItem t (c_str key) = Some c" and "JsonStruct2Str fp (Some c) = Some str"
    and "f \<in> {Replace_key_string fp al key s, Replace_key_int32 fp al key n, Replace_key_uint32 fp al key u, Replace_key_int64 fp al key l,
      Replace_key_uint64 fp al key ul, Replace_key_bool fp al key b}
      \<union> (if fp_to_u64 fp (fp_single fp d) = None then {} else {Replace_key_float fp al key d})
      \<union> (if fp_to_u64 fp d = None then {} else {Replace_key_double fp al key d})"
  shows "\<exists>ob' w'. value_key fp key ob w = Some (str, ob', w) \<and> f ob' w = Some (True, ob', w') \<and> value_key fp key ob' w' = None"
proof -
  let ?ob = "set_object_refs ((key, ref_object (jn_id (cj_node c))) # m_mapJsonObjectRef ob) ob"
  have read: "value_key fp key ob w = Some (str, ?ob, w)"
    using assms(3-8) by (simp add: value_key_def child_key_def)
  have data: "GetJsonData ?ob = Some i" using assms(3) by simp
  note frees = replace_frees [OF assms(1,2) data assms(4,5,7)]
  consider (plain) "f \<in> {Replace_key_string fp al key s, Replace_key_int32 fp al key n, Replace_key_uint32 fp al key u,
      Replace_key_int64 fp al key l, Replace_key_uint64 fp al key ul, Replace_key_bool fp al key b}"
    | (single) v where "f = Replace_key_float fp al key d" "fp_to_u64 fp (fp_single fp d) = Some v"
    | (double) v where "f = Replace_key_double fp al key d" "fp_to_u64 fp d = Some v"
    using assms(9) by (auto split: if_splits)
  then have "\<exists>w'. f ?ob w = Some (True, ?ob, w') \<and> item_at w' (jn_id (cj_node c)) = None"
  proof cases
    case plain
    then show ?thesis
      unfolding Replace_key_string_def [abs_def] Replace_key_int32_def [abs_def] Replace_key_uint32_def [abs_def]
        Replace_key_int64_def [abs_def] Replace_key_uint64_def [abs_def] Replace_key_bool_def [abs_def]
      by (elim insertE emptyE) (simp_all add: frees creates new_item_granted [OF assms(1)] assms(1))
  next
    case (single v)
    then show ?thesis by (simp add: Replace_key_float_def [abs_def] frees creates new_item_granted [OF assms(1)])
  next
    case (double v)
    then show ?thesis by (simp add: Replace_key_double_def [abs_def] frees creates new_item_granted [OF assms(1)])
  qed
  then obtain w' where w': "f ?ob w = Some (True, ?ob, w')" "item_at w' (jn_id (cj_node c)) = None" by blast
  have "GetJsonData (ref_object (jn_id (cj_node c))) = Some (jn_id (cj_node c))" by (simp add: GetJsonData_def ref_object_def)
  then have "value_key fp key ?ob w' = None" using w'(2) by (simp add: value_key_def data_item_def)
  then show ?thesis using read w'(1) by blast
qed

theorem json_replace_leaves_stale_handle_witness:
  "\<forall>fp :: int fpu. \<exists>ob' w'. value_key fp ''a'' sample_handle (sample_world fp) = Some (''7'', ob', sample_world fp)
    \<and> Replace_key_int32 fp (\<lambda>_. True) ''a'' 8 ob' (sample_world fp) = Some (True, ob', w') \<and> value_key fp ''a'' ob' w' = None"
proof
  fix fp :: "int fpu"
  let ?t = "hd (jw_trees (sample_world fp))" and ?f = "Replace_key_int32 fp (\<lambda>_. True) ''a'' 8"
  have t: "jn_type (cj_node ?t) = J_Object" by (simp add: sample_world_def)
  have refs: "map_of (m_mapJsonObjectRef sample_handle) ''a'' = None" by (simp add: sample_handle_def)
  have "c_str ''a'' = ''a''" by (simp add: c_str_def)
  then have c: "cJSON_GetObjectItem ?t (c_str ''a'') = Some (hd (cj_child ?t))"
    by (simp add: cJSON_GetObjectItem_def sample_world_def)
  have "dec_nat 7 = ''7''" by code_simp
  then have str: "JsonStruct2Str fp (Some (hd (cj_child ?t))) = Some ''7''"
    by (simp add: JsonStruct2Str_def sample_world_def)
  show "\<exists>ob' w'. value_key fp ''a'' sample_handle (sample_world fp) = Some (''7'', ob', sample_world fp)
    \<and> ?f ob' (sample_world fp) = Some (True, ob', w') \<and> value_key fp ''a'' ob' w' = None"
    by (rule json_replace_leaves_stale_handle [where al = "\<lambda>_. True" and n = 8 and s = "[]" and u = 0 and l = 0 and ul = 0 and b = False
      and d = 0, OF _ sample_ok sample_item t refs c str]) simp_all
qed

section \<open>Copies\<close>

text \<open>No printed text has a NUL in it.\<close>

lemma hex_char_not_nul: "d < 16 \<Longrightarrow> hex_char d \<noteq> CHR 0x00"
  using hex_digits(1) [of d] by (auto simp: is_hex_def is_digit_def)

lemma escape_char_not_nul: "CHR 0x00 \<notin> set (escape_char c)"
proof (cases "31 < (of_char c :: nat) \<and> c \<noteq> CHR 0x22 \<and> c \<noteq> CHR 0x5C")
  case True
  then have "c \<noteq> CHR 0x00" by auto
  then show ?thesis using True by (auto simp: escape_char_def)
next
  case False
  have "(of_char c :: nat) < 256" by simp
  then have "(of_char c :: nat) div 16 < 16" by (intro less_mult_imp_div_less) simp
  then have h: "hex_char 0 \<noteq> CHR 0x00" "hex_char (of_char c div 16) \<noteq> CHR 0x00" "hex_char (of_char c mod 16) \<noteq> CHR 0x00"
    by (simp_all add: hex_char_not_nul)
  show ?thesis using False h h [symmetric] by (auto simp: escape_char_def Let_def)
qed

lemma escaped_not_nul: "CHR 0x00 \<notin> set (escaped s)"
  using escape_char_not_nul by (auto simp: escaped_def)

lemma dec_nat_not_nul: "CHR 0x00 \<notin> set (dec_nat n)"
  using dec_nat_digits [of n] by (auto simp: is_digit_def)

lemma dec_int_not_nul: "CHR 0x00 \<notin> set (dec_int i)"
  using dec_nat_not_nul by (auto simp: dec_int_def)

lemma join_items_not_nul: "\<forall>e \<in> set es. CHR 0x00 \<notin> set e \<Longrightarrow> CHR 0x00 \<notin> set (join_items fmt es)"
  by (induction fmt es rule: join_items.induct) auto

lemma join_members_not_nul:
  "\<forall>(a, e) \<in> set es. CHR 0x00 \<notin> set a \<and> CHR 0x00 \<notin> set e \<Longrightarrow> CHR 0x00 \<notin> set (join_members depth fmt es)"
  by (induction depth fmt es rule: join_members.induct) auto

lemma print_items_not_nul:
  assumes "\<And>c n s n'. c \<in> set cs \<Longrightarrow> print_value fp al depth fmt c n = Some (Inr s, n') \<Longrightarrow> CHR 0x00 \<notin> set s"
    and "print_items fp al depth fmt cs n = Some (Inr es, m)"
  shows "\<forall>e \<in> set es. CHR 0x00 \<notin> set e"
  using assms
proof (induction cs arbitrary: n es)
  case (Cons c cs)
  obtain e n1 es1 where e: "print_value fp al depth fmt c n = Some (Inr e, n1)" "print_items fp al depth fmt cs n1 = Some (Inr es1, m)" "es = e # es1"
    using Cons.prems(2) by (auto simp: jbind_Inr)
  have "CHR 0x00 \<notin> set e" by (rule Cons.prems(1) [OF _ e(1)]) simp
  moreover have "\<forall>e \<in> set es1. CHR 0x00 \<notin> set e" by (rule Cons.IH [OF _ e(2)]) (rule Cons.prems(1), auto)
  ultimately show ?case using e(3) by simp
qed simp

lemma string_ptr_not_nul: "print_string_ptr al s n = Some (Inr a, m) \<Longrightarrow> CHR 0x00 \<notin> set a"
  using escaped_not_nul by (auto simp: print_string_ptr_def cJSON_strdup_def j_malloc_def split: option.splits if_splits)

lemma print_members_not_nul:
  assumes "\<And>c n s n'. c \<in> set cs \<Longrightarrow> print_value fp al depth fmt c n = Some (Inr s, n') \<Longrightarrow> CHR 0x00 \<notin> set s"
    and "print_members fp al depth fmt cs n = Some (Inr es, m)"
  shows "\<forall>(a, e) \<in> set es. CHR 0x00 \<notin> set a \<and> CHR 0x00 \<notin> set e"
  using assms
proof (induction cs arbitrary: n es)
  case (Cons c cs)
  obtain a e n1 n2 es1 where e: "print_string_ptr al (jn_name (cj_node c)) n = Some (Inr a, n1)"
    "print_value fp al depth fmt c n1 = Some (Inr e, n2)" "print_members fp al depth fmt cs n2 = Some (Inr es1, m)" "es = (a, e) # es1"
    using Cons.prems(2) by (auto split: option.splits sum.splits)
  have "CHR 0x00 \<notin> set e" by (rule Cons.prems(1) [OF _ e(2)]) simp
  moreover have "\<forall>(a, e) \<in> set es1. CHR 0x00 \<notin> set a \<and> CHR 0x00 \<notin> set e" by (rule Cons.IH [OF _ e(3)]) (rule Cons.prems(1), auto)
  ultimately show ?case using e(4) string_ptr_not_nul [OF e(1)] by simp
qed simp

lemma printed_not_nul:
  "printable t \<Longrightarrow> print_value fp al depth fmt t n = Some (Inr s, n') \<Longrightarrow> CHR 0x00 \<notin> set s"
proof (induction t arbitrary: depth n s n')
  case (CJ item cs)
  show ?case
  proof (cases "jn_type item")
    case J_Array
    then obtain es m where es: "print_items fp al (depth + 1) fmt cs (Suc n) = Some (Inr es, m)" "s = array_text fmt es"
      using CJ.prems(2) by (auto simp: jbind_Inr j_malloc_def j_write_def split: if_splits)
    have "\<forall>e \<in> set es. CHR 0x00 \<notin> set e"
      by (rule print_items_not_nul [OF _ es(1)]) (use CJ J_Array in auto)
    then show ?thesis using es(2) join_items_not_nul [of es fmt] by (auto simp: array_text_def)
  next
    case J_Object
    then obtain es m where es: "print_members fp al (depth + 1) fmt cs (Suc (Suc n)) = Some (Inr es, m)" "s = object_text (depth + 1) fmt es"
      using CJ.prems(2) by (auto simp: jbind_Inr j_malloc_def j_write_def split: if_splits option.splits)
    have "\<forall>(a, e) \<in> set es. CHR 0x00 \<notin> set a \<and> CHR 0x00 \<notin> set e"
      by (rule print_members_not_nul [OF _ es(1)]) (use CJ J_Object in auto)
    then show ?thesis using es(2) join_members_not_nul [of es "depth + 1" fmt] by (auto simp: object_text_def)
  next
    case J_Int
    then show ?thesis using CJ.prems(2) dec_nat_not_nul dec_int_not_nul
      by (auto simp: print_int_def j_malloc_def jbind_Inr Let_def split: if_splits)
  next
    case J_String
    then show ?thesis using CJ.prems(2) string_ptr_not_nul by (auto simp: print_string_def split: if_splits)
  qed (use CJ.prems in \<open>auto simp: cJSON_strdup_def j_malloc_def split: if_splits\<close>)
qed

text \<open>
  C22. A copy is a second tree with the same content. For a handle on an item without floating point numbers, not
  nested deeper than the stack has room for and printed in less than 2 GB, with memory granted, the copy
  constructor, which prints the item and reads the text back, succeeds: the new handle has a tree of its own, whose content is that of the original, and none of whose items is an item
  of another tree; and the original is as it was.
\<close>

theorem json_copy_is_a_second_tree:
  assumes "\<forall>n. al n" and "ids_ok w" and "GetJsonData src = Some i" and "item_at w i = Some t" and "printable t"
    and "levels t \<le> fp_stack fp" and "print_size 0 t < 2 ^ 31"
  shows "\<exists>copy w' j t'. construct_copy fp al src w = Some (copy, w') \<and> m_pJsonData copy = Some j \<and> item_at w' j = Some t'
    \<and> content t' = content t \<and> set (cJSON_Delete t') \<inter> set (forest_ids (jw_trees w)) = {} \<and> item_at w' i = Some t"
proof -
  obtain s n' where s: "cJSON_PrintUnformatted fp al t (jw_n w) = Some (Inr s, n')"
    using print_then_parse [OF assms(1,5-7), of False "jw_n w" 0] by auto
  obtain t' m' where t': "cJSON_Parse fp al s n' = Some (Inr t', m')" "content t' = content t"
    using print_then_parse [OF assms(1,5-7), of False "jw_n w" n'] s by auto
  have "CHR 0x00 \<notin> set s" using printed_not_nul [OF assms(5)] s by (auto simp: cJSON_PrintUnformatted_def)
  then have c: "c_str s = s" by (auto simp: c_str_def takeWhile_eq_all_conv)
  have le: "jw_n w \<le> n'" using counts_print [of fp al 0 False t "jw_n w"] s by (simp add: cJSON_PrintUnformatted_def)
  have new: "new_ids (cJSON_Delete t') n' m'" using counts_parse [of fp al s n'] t'(1) by simp
  have apart: "set (cJSON_Delete t') \<inter> set (forest_ids (jw_trees w)) = {}"
  proof -
    have "\<forall>j \<in> set (forest_ids (jw_trees w)). j < n'" using assms(2) le by (fastforce simp: ids_ok_def)
    moreover have "\<forall>j \<in> set (cJSON_Delete t'). n' \<le> j" using new by (auto simp: new_ids_def)
    ultimately show ?thesis by (auto dest: leD)
  qed
  let ?w = "new_tree t' m' (w\<lparr>jw_n := n'\<rparr>)" and ?j = "jn_id (cj_node t')"
  have "construct_copy fp al src w = Some (JObj (Some ?j) None [] [] [], ?w)"
    using assms(3,4) s t'(1) c
    by (simp add: construct_copy_def construct_from_string_def ToString_def print_object_def Parse_def Clear_def new_object_def
      drop_tree_def set_data_def)
  moreover have "item_at ?w i = Some t"
  proof -
    have "i \<in> set (forest_ids (jw_trees w))" using assms(4) item_at_none [of w i] by auto
    then have "find_item i t' = None" using apart find_none(1) [of i t'] by auto
    then show ?thesis using assms(4) by (simp add: item_at_def new_tree_def)
  qed
  moreover have "item_at ?w ?j = Some t'" by simp
  ultimately show ?thesis using t'(2) apart by fastforce
qed

theorem json_copy_is_a_second_tree_witness:
  "\<forall>fp :: int fpu. \<exists>copy w' j t'. construct_copy (fp\<lparr>fp_stack := 2\<rparr>) (\<lambda>_. True) sample_handle (sample_world fp) = Some (copy, w')
    \<and> m_pJsonData copy = Some j \<and> item_at w' j = Some t' \<and> content t' = V_obj [(Some ''a'', V_int 7)]"
proof
  fix fp :: "int fpu"
  let ?fp = "fp\<lparr>fp_stack := 2\<rparr>" and ?t = "hd (jw_trees (sample_world fp))"
  have p: "printable ?t" by (simp add: sample_world_def is_c_string_def)
  have l: "levels ?t \<le> fp_stack ?fp" by (simp add: sample_world_def)
  have "length (escaped ''a'') = 3" by code_simp
  then have z: "print_size 0 ?t < 2 ^ 31" by (simp add: sample_world_def escaped_size_def)
  have "content ?t = V_obj [(Some ''a'', V_int 7)]" by (simp add: sample_world_def)
  then show "\<exists>copy w' j t'. construct_copy ?fp (\<lambda>_. True) sample_handle (sample_world fp) = Some (copy, w')
    \<and> m_pJsonData copy = Some j \<and> item_at w' j = Some t' \<and> content t' = V_obj [(Some ''a'', V_int 7)]"
    using json_copy_is_a_second_tree [of "\<lambda>_. True", OF _ sample_ok sample_item p l z] by fastforce
qed

end
