(* ===== verification/Spec2Isabelle.thy ===== *)
theory Spec2Isabelle
  imports System_Props Json_Escapes Json_Object_Props
begin

text \<open>
  A verification library for kimserver, the asynchronous multi-process server framework whose sources
  are below \<open>src/core\<close>.

  \<^bold>\<open>The program.\<close> A node is one manager process and several workers, all single-threaded around
  a libev loop. The manager accepts connections at the gate and hands the descriptors to the workers in
  turn over socket pairs; it keeps the table of workers, follows the other nodes of the cluster through
  zookeeper and broadcasts them to its workers. A worker decodes messages (a protobuf protocol with a
  15-byte head, or HTTP), routes them to the modules loaded from shared objects, runs their commands as
  state machines over redis and MySQL callbacks, and sends to workers of other nodes by consistent
  hashing, after a handshake that is relayed by the other node's manager.

  \<^bold>\<open>The theories\<close>, in the order of their imports, with the files they model.

  \<^item> \<open>Kim_Prelude\<close>: C++ integer conversions, \<open>memcpy\<close> and \<open>malloc\<close>, unordered and ordered maps as
    association lists, the constants of \<open>server.h\<close>.
  \<^item> \<open>Socket_Buffer\<close> (\<open>util/socket_buffer\<close>): the growing byte buffer with its two indexes. The interface
    \<open>byte_queue\<close> is a locale; the buffer refines a queue of bytes.
  \<^item> \<open>Util_Str\<close> (\<open>util/util\<close>), \<open>Hash\<close> (\<open>util/hash.cpp\<close>, on machine words).
  \<^item> \<open>Nodes_Mgr\<close> (\<open>nodes\<close>): the cluster table and the hash rings over an explicit heap of nodes.
  \<^item> \<open>Worker_Data\<close> (\<open>worker_data_mgr\<close>): the manager's table of workers.
  \<^item> \<open>Codec_Proto\<close> (\<open>codec/codec_proto\<close>) and \<open>Codec_Http\<close> (\<open>codec/codec_http\<close>).
  \<^item> \<open>Events_Loop\<close> (\<open>events\<close>), \<open>Connection\<close>, \<open>Session_Mgr\<close> (\<open>session\<close>), \<open>Chanel\<close> (\<open>net/chanel\<close>).
  \<^item> \<open>Redis_Pool\<close> (\<open>redis\<close>), \<open>Mysql_Conn\<close> and \<open>Db_Mgr\<close> (\<open>db\<close>): the pools; the state machine of an
    asynchronous MySQL connection is the step relation \<open>my_event\<close>.
  \<^item> \<open>Zk_Bio\<close> (\<open>zookeeper/zk_bio\<close>), \<open>Zk_Register\<close> (\<open>zookeeper/zk\<close> and the thread's half of \<open>zk_client\<close>),
    \<open>Zk_Client\<close> (the main thread's half).
  \<^item> \<open>Net_State\<close>, \<open>Net_Send\<close>, \<open>Net_Pools\<close>, \<open>Net_Loop\<close> (\<open>network.cpp\<close>): the state of a process is the record
    \<open>network\<close>, the environment the record \<open>world\<close>, one function per system call, indexed by a counter that
    every call advances. \<open>net_step\<close> is the relation of one event of the loop.
  \<^item> \<open>Sys_Cmd\<close> (\<open>sys_cmd\<close>): the messages between processes and nodes; \<open>Module_Mgr\<close> (\<open>cmd\<close>, \<open>module\<close>,
    \<open>module_mgr\<close>): commands and modules, with the user's code as the parameter \<open>user_code\<close> under the laws of
    the locales \<open>command_code\<close> and \<open>module_code\<close>; \<open>Module_Test\<close> (\<open>src/modules/module_test\<close>): the module of the
    repository, which interprets them.
  \<^item> \<open>Anet\<close> (\<open>net/anet\<close>): the socket functions over the answers of the kernel, with the descriptors they
    leave open; \<open>Log_File\<close> (\<open>util/log\<close>); \<open>Mysql_Result\<close> (\<open>db/mysql_result\<close>).
  \<^item> \<open>Net_Setup\<close> (\<open>network.cpp\<close>, \<open>events_callback\<close>): configuration, creation of a manager's or a worker's
    network, the callbacks of libev and of the pools; \<open>Manager\<close> (\<open>manager\<close>, \<open>worker\<close>): both kinds of processes,
    with \<open>mgr_step\<close> as the relation of one event of the manager.
  \<^item> \<open>Json_Text\<close> and \<open>Json_Tree\<close> (\<open>util/json/cJSON\<close>): items, the parser, the printer, and the functions that change
    a tree; \<open>Json_Object\<close> and \<open>Json_Access\<close> (\<open>util/json/CJsonObject\<close>): handles with their caches over the trees of the
    process, whose items have identities, and one definition per overload. \<open>Json_Roundtrip\<close>, \<open>Json_Safety\<close>,
    \<open>Json_Escapes\<close>, \<open>Json_Ids\<close>, \<open>Json_Memory\<close> and \<open>Json_Object_Props\<close>: their properties. What makes the items that a
    method adds is the interface \<open>item_maker\<close>, a locale interpreted on every function that creates or copies one.
  \<^item> \<open>Net_Props\<close>, \<open>Zk_Props\<close>, \<open>Manager_Props\<close> and \<open>System_Props\<close>: properties that span components; the last
    one holds those of whole processes and of a manager and its worker together.

  \<^bold>\<open>Conventions.\<close> A result \<open>None\<close> of an operation is a crash or undefined behaviour: a dangling pointer
  or a freed element is read, an exception is not caught, a map or a list is changed while it is iterated, a mutex
  is used before it is initialised, an \<open>int\<close> counter overflows, a number is converted out of range, the stack is
  exhausted. A \<open>Connection*\<close> is a pair of descriptor and id, so that a stale pointer is recognised. Errors
  of the program are values. Log output is not modelled, but what the log calls read is where it can be freed.
  The user's callbacks of the redis pool may send commands from inside the loops that run them. The identity of a
  JSON item counts allocations; addresses, which \<open>malloc\<close> may give out again, are not modelled.

  \<^bold>\<open>What the lemmas show.\<close> Buffers and codecs: contents, round trips, reassembly of a stream from any
  fragments, and that decoding consumes only what it returns. Tables (nodes, workers, sessions,
  connections): an invariant that every operation keeps, and what each operation does to a lookup. A
  process: along every run a pointer to a closed connection stays dead, reading a connection ends,
  descriptors waiting for a worker are conserved, answers carry the number of their request. Pools
  and the zookeeper thread: no command or task is lost or answered twice. Manager and workers: their
  node tables agree after a registration; a manager that starts has all its workers, a started worker is
  never forgotten, a dead one is started again, and a client accepted at the gate is served by a worker.
  Sockets: none is leaked. JSON: what is printed is read back, reading texts with complete escapes and numbers in
  range is safe and ends, items keep different identities along every run of methods and what is freed stays
  freed, a copy is a second tree with the same content, and a value added under a new key is read back at its width. Several theorems state a defect of the code as the code has
  it (a crash, a lost answer, a stale entry); the manifest lists them as findings.

  \<^bold>\<open>Bounds and fuel.\<close> \<open>tcp_loop\<close> and \<open>http_loop\<close> get one more unit than the receive buffer has bytes;
  \<open>reading_a_connection_ends\<close> shows that this is enough, because a message takes at least 15 bytes. The
  accept loops run \<open>MAX_ACCEPTS_PER_CALL\<close> times as in the code. \<open>_vprintf\<close> needs two attempts
  (\<open>printf_appends_and_counts\<close>), \<open>split_str\<close> one step per character. The loop that sizes the thread's stack and the
  loop of \<open>accept\<close> are partial functions that are shown to end. \<open>waitpid\<close> is called until it has no more to
  report: the handler gets the finite list of its answers. Sequence numbers are 64 bit; theorems about runs assume that they do
  not wrap. The buffer's index is moved by an \<open>int\<close>: taking 2 GB or more at once moves it back, and the theorems
  on streams assume less. The nesting of JSON values is bounded by \<open>fp_stack\<close>, the calls the stack has room for,
  where the code would crash; each loop over commas gets as many units as the text has bytes;
  \<open>json_parse_is_safe\<close> shows that both are enough, because every value takes a byte and every level a bracket. The
  lengths that \<open>cJSON.c\<close> keeps in an \<open>int\<close> have that width, and the theorems on texts assume less than 2 GB.

  \<^bold>\<open>Parameters.\<close> The kernel (sockets, clock, memory), libev, protobuf, http_parser, Crypto++, hiredis, the
  MariaDB client and the zookeeper C library, each as functions with the documented laws a
  theorem needs as named hypotheses; witnesses instantiate them. In the JSON theories, floating point and the room
  on the stack (the record \<open>fpu\<close>) and the answers of \<open>malloc\<close>; the components that use JSON take the values they read as
  arguments.

  \<^bold>\<open>Not modelled.\<close> Vendored code (\<open>util/http\<close>, \<open>util/sds\<close>; of \<open>util/json\<close> the references and the merging of items, which
  nothing calls, and the stack that the recursion of \<open>cJSON_Delete\<close> takes), \<open>set_proc_title\<close>, the test programs, the
  entry point \<open>server.cpp\<close> (it becomes a daemon and runs the manager), log output (the log itself is in
  \<open>Log_File\<close>), the callbacks of \<open>EventsCallback\<close> that only cast a pointer and call a handler, and destructors other
  than what \<open>Network::destory\<close> does.
\<close>

end
